(* ===== verification/Prelude.thy ===== *)
theory Prelude
  imports Main "HOL-Library.Word" "HOL-Library.Char_ord"
begin

text \<open>
  The shared vocabulary of the development: the types the models use for Go's data, the
  functions of Go's standard library (packages \<open>strings\<close>, \<open>strconv\<close>) that the modelled
  code calls, the theorem collections, and generic lemmas on lists and maps.

  A Go string and a Go byte slice are both sequences of bytes; HOL's \<open>char\<close> is a byte, so
  both are \<open>string\<close> here. The functions of \<open>strings\<close> that depend on Unicode tables
  (\<open>ToLower\<close>, \<open>TrimSpace\<close>, \<open>EqualFold\<close>) are given on their ASCII range: bytes from 128
  upwards are left as they are.
\<close>

section \<open>Types and collections\<close>

type_synonym bytes = string

text \<open>An instant is a whole number of nanoseconds (or of seconds where the code uses
  \<open>Unix()\<close>), a duration a whole number of nanoseconds.\<close>

type_synonym instant = int
type_synonym duration = int

named_theorems go_strings \<comment> \<open>definitions of the string functions\<close>
named_theorems roundtrip \<comment> \<open>decode after encode\<close>

section \<open>HTTP status codes\<close>

abbreviation "StatusOK \<equiv> (200::nat)"
abbreviation "StatusNoContent \<equiv> (204::nat)"
abbreviation "StatusFound \<equiv> (302::nat)"
abbreviation "StatusSeeOther \<equiv> (303::nat)"
abbreviation "StatusBadRequest \<equiv> (400::nat)"
abbreviation "StatusUnauthorized \<equiv> (401::nat)"
abbreviation "StatusForbidden \<equiv> (403::nat)"
abbreviation "StatusNotFound \<equiv> (404::nat)"
abbreviation "StatusTooManyRequests \<equiv> (429::nat)"
abbreviation "StatusInternalServerError \<equiv> (500::nat)"
abbreviation "StatusBadGateway \<equiv> (502::nat)"
abbreviation "StatusServiceUnavailable \<equiv> (503::nat)"

section \<open>Package strings\<close>

definition has_prefix :: "string \<Rightarrow> string \<Rightarrow> bool" where
  "has_prefix s p \<longleftrightarrow> take (length p) s = p"

definition has_suffix :: "string \<Rightarrow> string \<Rightarrow> bool" where
  "has_suffix s p \<longleftrightarrow> length p \<le> length s \<and> drop (length s - length p) s = p"

text \<open>\<open>strings.IndexByte\<close> and \<open>strings.Index\<close>; Go's -1 is \<open>None\<close>.\<close>

fun index_byte :: "string \<Rightarrow> char \<Rightarrow> nat option" where
  "index_byte [] c = None"
| "index_byte (x # xs) c = (if x = c then Some 0 else map_option Suc (index_byte xs c))"

fun index_str :: "string \<Rightarrow> string \<Rightarrow> nat option" where
  "index_str [] p = (if p = [] then Some 0 else None)"
| "index_str (x # xs) p =
     (if has_prefix (x # xs) p then Some 0 else map_option Suc (index_str xs p))"

definition contains_str :: "string \<Rightarrow> string \<Rightarrow> bool" where
  "contains_str s p \<longleftrightarrow> index_str s p \<noteq> None"

text \<open>\<open>bytes.LastIndex\<close>: the position of the last occurrence.\<close>

fun last_index :: "string \<Rightarrow> string \<Rightarrow> nat option" where
  "last_index [] p = (if p = [] then Some 0 else None)"
| "last_index (x # xs) p =
     (case last_index xs p of
        Some i \<Rightarrow> Some (Suc i)
      | None \<Rightarrow> if has_prefix (x # xs) p then Some 0 else None)"

text \<open>\<open>strings.Split(s, sep)\<close> and \<open>strings.SplitN(s, sep, n)\<close> for a one-byte separator.\<close>

fun split_on :: "char \<Rightarrow> string \<Rightarrow> string list" where
  "split_on c [] = [[]]"
| "split_on c (x # xs) =
     (if x = c then [] # split_on c xs
      else (case split_on c xs of [] \<Rightarrow> [[x]] | w # ws \<Rightarrow> (x # w) # ws))"

fun split_n :: "char \<Rightarrow> string \<Rightarrow> nat \<Rightarrow> string list" where
  "split_n c s 0 = []"
| "split_n c s (Suc 0) = [s]"
| "split_n c s (Suc (Suc n)) =
     (case index_byte s c of
        None \<Rightarrow> [s]
      | Some i \<Rightarrow> take i s # split_n c (drop (Suc i) s) (Suc n))"

fun join_str :: "string \<Rightarrow> string list \<Rightarrow> string" where
  "join_str sep [] = []"
| "join_str sep [w] = w"
| "join_str sep (w # v # ws) = w @ sep @ join_str sep (v # ws)"

definition is_space :: "char \<Rightarrow> bool" where
  "is_space c \<longleftrightarrow> c \<in> {CHR '' '', CHR 0x09, CHR 0x0A, CHR 0x0B, CHR 0x0C, CHR 0x0D}"

definition trim_left_by :: "(char \<Rightarrow> bool) \<Rightarrow> string \<Rightarrow> string" where
  "trim_left_by P s = dropWhile P s"

definition trim_right_by :: "(char \<Rightarrow> bool) \<Rightarrow> string \<Rightarrow> string" where
  "trim_right_by P s = rev (dropWhile P (rev s))"

definition trim_space :: "string \<Rightarrow> string" where
  "trim_space s = trim_right_by is_space (trim_left_by is_space s)"

definition trim_suffix :: "string \<Rightarrow> string \<Rightarrow> string" where
  "trim_suffix s p = (if has_suffix s p then take (length s - length p) s else s)"

definition trim_prefix :: "string \<Rightarrow> string \<Rightarrow> string" where
  "trim_prefix s p = (if has_prefix s p then drop (length p) s else s)"

definition lower_char :: "char \<Rightarrow> char" where
  "lower_char c =
     (if CHR ''A'' \<le> c \<and> c \<le> CHR ''Z'' then char_of ((of_char c :: nat) + 32) else c)"

definition char_within :: "char \<Rightarrow> char \<Rightarrow> char \<Rightarrow> bool" where
  "char_within lo hi c \<longleftrightarrow> lo \<le> c \<and> c \<le> hi"

definition is_digit :: "char \<Rightarrow> bool" where
  "is_digit = char_within (CHR ''0'') (CHR ''9'')"

definition is_alnum :: "char \<Rightarrow> bool" where
  "is_alnum c \<longleftrightarrow> is_digit c \<or> char_within (CHR ''A'') (CHR ''Z'') c \<or> char_within (CHR ''a'') (CHR ''z'') c"

definition to_lower :: "string \<Rightarrow> string" where
  "to_lower s = map lower_char s"

definition equal_fold :: "string \<Rightarrow> string \<Rightarrow> bool" where
  "equal_fold s t \<longleftrightarrow> to_lower s = to_lower t"

declare has_prefix_def [go_strings] has_suffix_def [go_strings] contains_str_def [go_strings]
  trim_left_by_def [go_strings] trim_right_by_def [go_strings] trim_space_def [go_strings]
  trim_suffix_def [go_strings] trim_prefix_def [go_strings] to_lower_def [go_strings]
  equal_fold_def [go_strings]

end
