(* ===== verification/GoLib.thy ===== *)
theory GoLib
  imports Prelude
begin

text \<open>
  Lemmas on the string functions of the prelude and the decimal and hexadecimal formats of
  package \<open>strconv\<close>: \<open>FormatInt\<close>, \<open>ParseInt\<close>, \<open>FormatUint\<close>, \<open>ParseUint\<close>,
  with the round trips the token formats of the program rest on.
\<close>

section \<open>Lists\<close>

lemma length_filter_update:
  "a < length xs \<Longrightarrow> length (filter P (xs[a := x])) + (if P (xs ! a) then 1 else 0)
     = length (filter P xs) + (if P x then 1 else 0)"
proof (induction xs arbitrary: a)
  case (Cons y ys)
  then show ?case by (cases a) auto
qed simp

lemma set_list_update_cases: "y \<in> set (xs[a := x]) \<Longrightarrow> y = x \<or> y \<in> set xs"
  using set_update_subset_insert [of xs a x] by auto

section \<open>Prefixes, suffixes, searching\<close>

lemma find_SomeD: "find P xs = Some x \<Longrightarrow> x \<in> set xs \<and> P x"
  by (induction xs) (auto split: if_splits)

lemma find_map_keep:
  "(\<And>x. x \<in> set xs \<Longrightarrow> P (f x) = P x) \<Longrightarrow> find P (map f xs) = map_option f (find P xs)"
  by (induction xs) auto

lemma distinct_map_eq: "distinct (map f xs) \<Longrightarrow> x \<in> set xs \<Longrightarrow> y \<in> set xs \<Longrightarrow> f x = f y \<Longrightarrow> x = y"
  by (induction xs) (auto simp: rev_image_eqI)

lemma dropWhile_rev_idem:
  "dropWhile P (rev (dropWhile P (rev (dropWhile P s)))) = rev (dropWhile P (rev (dropWhile P s)))"
proof (cases "dropWhile P s")
  case (Cons x xs)
  then have x: "\<not> P x" by (metis dropWhile_eq_Cons_conv)
  have "\<exists>ys. dropWhile P (rev (x # xs)) = ys @ [x]"
    using x by (cases "\<forall>c \<in> set (rev xs). P c") (auto simp: dropWhile_append)
  then obtain ys where "dropWhile P (rev (x # xs)) = ys @ [x]" by blast
  with Cons x show ?thesis by simp
next
  case Nil
  then show ?thesis by (metis dropWhile.simps(1) rev.simps(1))
qed

lemma trim_space_idem [simp]: "trim_space (trim_space s) = trim_space s"
  by (simp add: go_strings dropWhile_rev_idem dropWhile_idem)

lemma lower_char_facts: "\<forall>c. is_space (lower_char c) = is_space c \<and> lower_char (lower_char c) = lower_char c"
  by code_simp

lemma is_space_lower: "is_space (lower_char c) = is_space c"
  and lower_lower: "lower_char (lower_char c) = lower_char c"
  using lower_char_facts by blast+

lemma trim_space_lower: "trim_space (to_lower s) = to_lower (trim_space s)"
proof -
  have "is_space \<circ> lower_char = is_space" by (simp add: fun_eq_iff is_space_lower)
  then show ?thesis
    by (simp add: go_strings dropWhile_map rev_map)
qed

lemma has_prefix_append [simp]: "has_prefix (p @ s) p"
  by (simp add: go_strings)

lemma has_prefix_iff: "has_prefix s p \<longleftrightarrow> (\<exists>r. s = p @ r)"
  by (metis append_take_drop_id has_prefix_append has_prefix_def)

lemma has_suffix_append [simp]: "has_suffix (s @ p) p"
  by (simp add: go_strings)

lemma has_suffix_iff: "has_suffix s p \<longleftrightarrow> (\<exists>r. s = r @ p)"
proof
  assume h: "has_suffix s p"
  then have "s = take (length s - length p) s @ p"
    unfolding has_suffix_def by (metis append_take_drop_id)
  then show "\<exists>r. s = r @ p" ..
qed (auto simp: go_strings)

lemma index_byte_None [simp]: "index_byte s c = None \<longleftrightarrow> c \<notin> set s"
  by (induction s) auto

lemma index_byte_Some:
  "index_byte s c = Some i \<Longrightarrow> i < length s \<and> s ! i = c \<and> c \<notin> set (take i s)"
proof (induction s arbitrary: i)
  case (Cons x s)
  then show ?case by (cases i) (auto split: if_splits)
qed simp

lemma index_byte_append: "c \<notin> set u \<Longrightarrow> index_byte (u @ c # v) c = Some (length u)"
  by (induction u) auto

lemma split_n_2: "c \<notin> set u \<Longrightarrow> split_n c (u @ c # v) 2 = [u, v]"
  by (simp add: numeral_2_eq_2 index_byte_append)

lemma split_n_3:
  "c \<notin> set u \<Longrightarrow> c \<notin> set v \<Longrightarrow> split_n c (u @ c # v @ c # w) 3 = [u, v, w]"
  by (simp add: numeral_3_eq_3 index_byte_append)

lemma split_on_nonempty [simp]: "split_on c s \<noteq> []"
  by (induction s) (auto split: list.splits)

lemma split_on_no_sep: "c \<notin> set s \<Longrightarrow> split_on c s = [s]"
  by (induction s) auto

lemma split_on_append: "c \<notin> set u \<Longrightarrow> split_on c (u @ c # v) = u # split_on c v"
  by (induction u) auto

lemma split_on_3:
  "c \<notin> set u \<Longrightarrow> c \<notin> set v \<Longrightarrow> c \<notin> set w \<Longrightarrow>
   split_on c (u @ c # v @ c # w) = [u, v, w]"
  by (simp add: split_on_append split_on_no_sep)

lemma split_on_elem_no_sep: "w \<in> set (split_on c s) \<Longrightarrow> c \<notin> set w"
proof (induction s arbitrary: w)
  case (Cons x s)
  then show ?case
    by (cases "split_on c s") (auto split: if_splits)
qed simp

lemma join_split_on: "join_str [c] (split_on c s) = s"
proof (induction s)
  case (Cons x s)
  then show ?case
    by (cases "split_on c s" rule: list.exhaust; cases "tl (split_on c s)")
      (auto split: list.splits)
qed simp

section \<open>Decimal numbers\<close>

definition digit_char :: "nat \<Rightarrow> char" where
  "digit_char d = char_of (if d < 10 then 48 + d else 87 + d)"

fun format_nat :: "nat \<Rightarrow> nat \<Rightarrow> string" where
  "format_nat b n =
     (if b \<le> 1 \<or> n < b then [digit_char n]
      else format_nat b (n div b) @ [digit_char (n mod b)])"

declare format_nat.simps [simp del]

definition format_int :: "int \<Rightarrow> string" where
  "format_int i =
     (if i < 0 then CHR ''-'' # format_nat 10 (nat (- i)) else format_nat 10 (nat i))"

definition format_uint :: "nat \<Rightarrow> nat \<Rightarrow> string" where
  "format_uint n base = format_nat base n"

text \<open>The value of one digit, letters of either case included, as in \<open>ParseUint\<close>.\<close>

definition digit_val :: "char \<Rightarrow> nat option" where
  "digit_val c = (let n = (of_char c :: nat) in
     if 48 \<le> n \<and> n \<le> 57 then Some (n - 48)
     else if 97 \<le> n \<and> n \<le> 122 then Some (n - 87)
     else if 65 \<le> n \<and> n \<le> 90 then Some (n - 55)
     else None)"

fun parse_digits :: "nat \<Rightarrow> nat \<Rightarrow> string \<Rightarrow> nat option" where
  "parse_digits b acc [] = Some acc"
| "parse_digits b acc (c # cs) =
     (case digit_val c of
        None \<Rightarrow> None
      | Some d \<Rightarrow> if d < b then parse_digits b (acc * b + d) cs else None)"

text \<open>\<open>strconv.ParseUint(s, base, 64)\<close> for an explicit base; \<open>None\<close> is either error
  (syntax or range).\<close>

definition parse_uint :: "nat \<Rightarrow> string \<Rightarrow> nat option" where
  "parse_uint base s =
     (if s = [] then None
      else case parse_digits base 0 s of
        None \<Rightarrow> None
      | Some n \<Rightarrow> if n < 2 ^ 64 then Some n else None)"

text \<open>\<open>strconv.ParseInt(s, 10, 64)\<close> and \<open>strconv.Atoi\<close> on a 64-bit platform.\<close>

definition parse_int :: "string \<Rightarrow> int option" where
  "parse_int s =
     (case s of
        [] \<Rightarrow> None
      | c # cs \<Rightarrow>
         if c = CHR ''-'' then
           (case parse_uint 10 cs of
              None \<Rightarrow> None
            | Some n \<Rightarrow> if n \<le> 2 ^ 63 then Some (- int n) else None)
         else
           (case parse_uint 10 (if c = CHR ''+'' then cs else s) of
              None \<Rightarrow> None
            | Some n \<Rightarrow> if n < 2 ^ 63 then Some (int n) else None))"

lemma digit_val_char: "d < 16 \<Longrightarrow> digit_val (digit_char d) = Some d"
  by (simp add: digit_val_def digit_char_def Let_def)

lemma parse_digits_append:
  "parse_digits b acc (s @ t) =
     (case parse_digits b acc s of None \<Rightarrow> None | Some a \<Rightarrow> parse_digits b a t)"
  by (induction s arbitrary: acc) (auto split: option.splits)

lemma parse_digits_format:
  "2 \<le> b \<Longrightarrow> b \<le> 16 \<Longrightarrow> parse_digits b 0 (format_nat b n) = Some n"
proof (induction b n rule: format_nat.induct)
  case (1 b n)
  show ?case
  proof (cases "n < b")
    case True
    with "1.prems" show ?thesis
      by (simp add: format_nat.simps [of b n] digit_val_char)
  next
    case False
    have r: "n mod b < b" using "1.prems" by simp
    with "1.prems" have "n mod b < 16" by linarith
    then have "digit_val (digit_char (n mod b)) = Some (n mod b)"
      by (rule digit_val_char)
    moreover have "parse_digits b 0 (format_nat b (n div b)) = Some (n div b)"
      using "1.IH" "1.prems" False by simp
    ultimately show ?thesis
      using False "1.prems" r
      by (simp add: format_nat.simps [of b n] parse_digits_append)
  qed
qed

lemma format_nat_nonempty [simp]: "format_nat b n \<noteq> []"
  by (subst format_nat.simps) simp

lemma format_nat_digits:
  "2 \<le> b \<Longrightarrow> b \<le> 16 \<Longrightarrow> c \<in> set (format_nat b n) \<Longrightarrow> \<exists>d < b. c = digit_char d"
proof (induction b n rule: format_nat.induct)
  case (1 b n)
  show ?case
  proof (cases "n < b")
    case True
    with "1.prems" show ?thesis by (auto simp: format_nat.simps [of b n])
  next
    case False
    with "1.prems" have "c \<in> set (format_nat b (n div b)) \<or> c = digit_char (n mod b)"
      by (auto simp: format_nat.simps [of b n])
    moreover have "n mod b < b" using "1.prems" by simp
    ultimately show ?thesis
      using "1.IH" "1.prems" False by fastforce
  qed
qed

lemma digit_char_plain: "d < 16 \<Longrightarrow> digit_char d \<notin> {CHR ''.'', CHR ''-'', CHR ''+''}"
proof -
  assume "d < 16"
  then have "of_char (digit_char d) \<in> {48..<58} \<union> {97..<103::nat}"
    by (auto simp: digit_char_def)
  then show ?thesis by auto
qed

lemma format_nat_plain:
  "2 \<le> b \<Longrightarrow> b \<le> 16 \<Longrightarrow> x \<in> {CHR ''.'', CHR ''-'', CHR ''+''} \<Longrightarrow> x \<notin> set (format_nat b n)"
  by (metis digit_char_plain format_nat_digits order_less_le_trans)

lemma format_int_no_dot [simp]: "CHR ''.'' \<notin> set (format_int i)"
  by (auto simp: format_int_def format_nat_plain)

lemma format_uint_no_dot [simp]: "2 \<le> b \<Longrightarrow> b \<le> 16 \<Longrightarrow> CHR ''.'' \<notin> set (format_uint n b)"
  by (simp add: format_uint_def format_nat_plain)

lemma parse_uint_format [roundtrip]:
  "2 \<le> b \<Longrightarrow> b \<le> 16 \<Longrightarrow> n < 2 ^ 64 \<Longrightarrow> parse_uint b (format_uint n b) = Some n"
  by (simp add: parse_uint_def format_uint_def parse_digits_format)

lemma parse_int_format [roundtrip]:
  assumes "- (2 ^ 63) \<le> i" and "i < 2 ^ 63"
  shows "parse_int (format_int i) = Some i"
proof (cases "i < 0")
  case True
  have "parse_uint 10 (format_nat 10 (nat (- i))) = Some (nat (- i))"
    using parse_uint_format [of 10 "nat (- i)"] assms True by (simp add: format_uint_def)
  with assms True show ?thesis by (simp add: parse_int_def format_int_def)
next
  case False
  have p: "parse_uint 10 (format_nat 10 (nat i)) = Some (nat i)"
    using parse_uint_format [of 10 "nat i"] assms False by (simp add: format_uint_def)
  obtain c cs where f: "format_nat 10 (nat i) = c # cs"
    by (cases "format_nat 10 (nat i)") auto
  then have "c \<noteq> CHR ''-''" "c \<noteq> CHR ''+''"
    using format_nat_plain [of 10 _ "nat i"] by force+
  with assms False p f show ?thesis by (simp add: parse_int_def format_int_def)
qed

lemma parse_int_range: "parse_int s = Some i \<Longrightarrow> - (2 ^ 63) \<le> i \<and> i < 2 ^ 63"
  by (auto simp: parse_int_def split: list.splits option.splits if_splits)

section \<open>Hexadecimal\<close>

text \<open>\<open>hex.EncodeToString\<close> and \<open>hex.DecodeString\<close>.\<close>

definition hex_byte :: "char \<Rightarrow> string" where
  "hex_byte c = (let n = (of_char c :: nat) in [digit_char (n div 16), digit_char (n mod 16)])"

definition hex_encode :: "bytes \<Rightarrow> string" where
  "hex_encode b = concat (map hex_byte b)"

definition hex_val :: "char \<Rightarrow> nat option" where
  "hex_val c = (case digit_val c of Some d \<Rightarrow> if d < 16 then Some d else None | None \<Rightarrow> None)"

fun hex_decode :: "string \<Rightarrow> bytes option" where
  "hex_decode [] = Some []"
| "hex_decode [c] = None"
| "hex_decode (c # d # s) =
     (case (hex_val c, hex_val d, hex_decode s) of
        (Some x, Some y, Some bs) \<Rightarrow> Some (char_of (16 * x + y) # bs)
      | _ \<Rightarrow> None)"

lemma length_hex_encode [simp]: "length (hex_encode b) = 2 * length b"
  by (induction b) (auto simp: hex_encode_def hex_byte_def Let_def)

lemma of_char_less: "(of_char c :: nat) < 256"
  by (metis mod_less_divisor of_char_mod_256 zero_less_numeral)

lemma hex_decode_encode [roundtrip]: "hex_decode (hex_encode b) = Some b"
proof (induction b)
  case (Cons c b)
  have d: "(of_char c :: nat) div 16 < 16"
    using of_char_less [of c] by (simp add: less_mult_imp_div_less)
  have "hex_val (digit_char ((of_char c :: nat) div 16)) = Some (of_char c div 16)"
    using d by (simp add: hex_val_def digit_val_char)
  moreover have "hex_val (digit_char ((of_char c :: nat) mod 16)) = Some (of_char c mod 16)"
    by (simp add: hex_val_def digit_val_char)
  moreover have "hex_encode (c # b) = digit_char (of_char c div 16) # digit_char (of_char c mod 16) # hex_encode b"
    by (simp add: hex_encode_def hex_byte_def Let_def)
  ultimately show ?case using Cons by simp
qed (simp add: hex_encode_def)

text \<open>\<open>fmt.Sprintf("%016x", n)\<close>.\<close>

definition pad_hex16 :: "nat \<Rightarrow> string" where
  "pad_hex16 n = (let s = format_nat 16 n in replicate (16 - length s) (CHR ''0'') @ s)"

end
