(* ===== verification/Shell_Ring.thy ===== *)
theory Shell_Ring
  imports GoLib
begin

text \<open>
  The ring buffer of background command logs (\<open>pkg/shell/ring.go\<close>): the circular byte
  array with its four counters, \<open>Write\<close> and the cursor-based \<open>Read\<close>, operation by
  operation. The specification is the whole history of bytes ever written: \<open>ring_repr\<close>
  relates a ring to its history, every operation keeps it, and the results of \<open>Read\<close> are
  given as a function of the history alone. The interface a log reader relies on is the
  locale \<open>cursor_log\<close>, interpreted on the ring.

  The 64-bit counters are unbounded integers here; they would need more than
  \<open>2 ^ 63\<close> bytes of output to wrap.
\<close>

section \<open>The data and the operations\<close>

record ring =
  buf :: "bytes option" \<comment> \<open>\<open>None\<close> is the nil slice before the first write\<close>
  head :: nat
  rsize :: nat
  rcap :: nat
  written :: int
  dropped :: int

definition NewRing :: "int \<Rightarrow> ring option" where
  "NewRing c =
     (if c \<le> 0 then None \<comment> \<open>panic\<close>
      else Some \<lparr>buf = None, head = 0, rsize = 0, rcap = nat c, written = 0, dropped = 0\<rparr>)"

text \<open>Go's \<open>copy(dst[k:], src)\<close>: as many bytes as fit.\<close>

definition go_copy :: "bytes \<Rightarrow> nat \<Rightarrow> bytes \<Rightarrow> bytes" where
  "go_copy dst k src =
     take k dst @ take (length dst - k) src @ drop (k + length src) dst"

text \<open>The last part of \<open>Write\<close>: the bytes go in at the tail, around the end if needed.\<close>

definition ring_put :: "bytes \<Rightarrow> nat \<Rightarrow> nat \<Rightarrow> bytes \<Rightarrow> bytes" where
  "ring_put b c tail p =
     (let n = length p; first = c - tail in
      if n \<le> first then go_copy b tail p
      else go_copy (go_copy b tail (take first p)) 0 (drop first p))"

definition ring_Write :: "ring \<Rightarrow> bytes \<Rightarrow> ring \<times> nat" where
  "ring_Write r p =
     (if p = [] then (r, 0)
      else
        let n = length p;
            w = written r + int n;
            b = (case buf r of None \<Rightarrow> replicate (rcap r) (CHR 0x00) | Some b \<Rightarrow> b)
        in
        if rcap r \<le> n then
          (r\<lparr>written := w, dropped := dropped r + int (rsize r) + int (n - rcap r),
             buf := Some (go_copy b 0 (drop (n - rcap r) p)), head := 0, rsize := rcap r\<rparr>, n)
        else
          let overflow = (if rcap r < rsize r + n then rsize r + n - rcap r else 0);
              h = (if rcap r < rsize r + n then (head r + overflow) mod rcap r else head r);
              sz = rsize r - overflow;
              tail = (h + sz) mod rcap r
          in
          (r\<lparr>written := w, dropped := dropped r + int overflow,
             buf := Some (ring_put b (rcap r) tail p), head := h, rsize := sz + n\<rparr>, n))"

text \<open>The bytes a \<open>Read\<close> copies out of the array: \<open>n\<close> bytes from \<open>ringIdx\<close> on, around
  the end if needed.\<close>

definition ring_get :: "bytes \<Rightarrow> nat \<Rightarrow> nat \<Rightarrow> nat \<Rightarrow> bytes" where
  "ring_get b c ringIdx n =
     (let first = c - ringIdx in
      if n \<le> first then take n (drop ringIdx b)
      else take first (drop ringIdx b) @ take (n - first) b)"

definition ring_Read :: "ring \<Rightarrow> int \<Rightarrow> bytes \<times> int \<times> int" where
  "ring_Read r cursor =
     (let oldest = written r - int (rsize r);
          gap = (if cursor < oldest then oldest - cursor else 0);
          start = (if cursor < oldest then oldest else cursor)
      in
      if written r \<le> start then ([], written r, gap)
      else
        let n = nat (written r - start);
            ringIdx = (head r + nat (start - oldest)) mod rcap r
        in (ring_get (case buf r of None \<Rightarrow> [] | Some b \<Rightarrow> b) (rcap r) ringIdx n,
            written r, gap))"

definition ring_Snapshot :: "ring \<Rightarrow> bytes \<times> int \<times> int" where
  "ring_Snapshot r = ring_Read r 0"

definition ring_Written :: "ring \<Rightarrow> int" where
  "ring_Written r = written r"

definition ring_Dropped :: "ring \<Rightarrow> int" where
  "ring_Dropped r = dropped r"

fun ring_writes :: "ring \<Rightarrow> bytes list \<Rightarrow> ring" where
  "ring_writes r [] = r"
| "ring_writes r (p # ps) = ring_writes (fst (ring_Write r p)) ps"

section \<open>Circular indexing\<close>

lemma mod_wrap: "a < c \<Longrightarrow> b \<le> c \<Longrightarrow> (a + b) mod c = (if a + b < c then a + b else a + b - c)"
  for a b c :: nat
  by (simp add: le_mod_geq)

lemma length_go_copy [simp]: "k \<le> length dst \<Longrightarrow> length (go_copy dst k src) = length dst"
  by (simp add: go_copy_def)

lemma nth_go_copy:
  "k + length src \<le> length dst \<Longrightarrow> j < length dst \<Longrightarrow>
   go_copy dst k src ! j = (if k \<le> j \<and> j < k + length src then src ! (j - k) else dst ! j)"
  by (auto simp: go_copy_def nth_append min_def)

lemma length_ring_put [simp]:
  "length b = c \<Longrightarrow> tail < c \<Longrightarrow> length (ring_put b c tail p) = c"
  by (simp add: ring_put_def Let_def)

lemma nth_ring_put:
  assumes "length b = c" and "tail < c" and "length p \<le> c" and "j < c"
  shows "ring_put b c tail p ! j =
    (if tail \<le> j \<and> j < tail + length p then p ! (j - tail)
     else if j + c < tail + length p then p ! (j + c - tail)
     else b ! j)"
proof (cases "length p \<le> c - tail")
  case True
  then have "tail + length p \<le> length b" using assms by linarith
  with True assms show ?thesis by (simp add: ring_put_def Let_def nth_go_copy)
next
  case False
  let ?f = "c - tail"
  have l: "length (take ?f p) = ?f" "length (drop ?f p) = length p - ?f"
    using False by simp_all
  have 1: "go_copy b tail (take ?f p) ! j = (if tail \<le> j then p ! (j - tail) else b ! j)"
    using assms False l by (subst nth_go_copy) auto
  have "ring_put b c tail p ! j =
      (if j < length p - ?f then drop ?f p ! j else go_copy b tail (take ?f p) ! j)"
    using assms False l by (simp add: ring_put_def Let_def nth_go_copy)
  also have "\<dots> = (if tail \<le> j \<and> j < tail + length p then p ! (j - tail)
     else if j + c < tail + length p then p ! (j + c - tail) else b ! j)"
    using assms False 1 by (auto simp: nth_drop add.commute)
  finally show ?thesis .
qed

lemma length_ring_get:
  "length b = c \<Longrightarrow> i < c \<Longrightarrow> n \<le> c \<Longrightarrow> length (ring_get b c i n) = n"
  by (auto simp: ring_get_def Let_def)

lemma nth_ring_get:
  assumes "length b = c" and "i < c" and "n \<le> c" and "j < n"
  shows "ring_get b c i n ! j = b ! ((i + j) mod c)"
  using assms by (auto simp: ring_get_def Let_def nth_append mod_wrap add.commute)

section \<open>The history of a ring\<close>

definition ring_inv :: "ring \<Rightarrow> bool" where
  "ring_inv r \<longleftrightarrow> 0 < rcap r \<and> head r < rcap r \<and> rsize r \<le> rcap r
     \<and> (case buf r of None \<Rightarrow> rsize r = 0 \<and> head r = 0 | Some b \<Rightarrow> length b = rcap r)
     \<and> int (rsize r) \<le> written r \<and> dropped r = written r - int (rsize r)"

definition ring_bytes :: "ring \<Rightarrow> bytes" where
  "ring_bytes r = (case buf r of None \<Rightarrow> []
     | Some b \<Rightarrow> map (\<lambda>i. b ! ((head r + i) mod rcap r)) [0..<rsize r])"

definition ring_repr :: "ring \<Rightarrow> bytes \<Rightarrow> bool" where
  "ring_repr r h \<longleftrightarrow> ring_inv r \<and> written r = int (length h)
     \<and> rsize r = min (rcap r) (length h)
     \<and> ring_bytes r = drop (length h - rsize r) h"

lemma length_ring_bytes: "ring_inv r \<Longrightarrow> length (ring_bytes r) = rsize r"
  by (auto simp: ring_bytes_def ring_inv_def split: option.splits)

lemma NewRing_repr: "NewRing c = Some r \<Longrightarrow> ring_repr r []"
  by (auto simp: NewRing_def ring_repr_def ring_inv_def ring_bytes_def split: if_splits)

text \<open>The two ways a write stores bytes: a chunk as long as the ring replaces everything, a
  shorter one goes in behind what stays.\<close>

lemma ring_Write_big:
  assumes "ring_repr r h" and "rcap r \<le> length p"
  shows "ring_repr (fst (ring_Write r p)) (h @ p)"
proof -
  have c: "0 < rcap r" using assms by (simp add: ring_repr_def ring_inv_def)
  with assms(2) have p: "p \<noteq> []" by auto
  let ?b = "case buf r of None \<Rightarrow> replicate (rcap r) (CHR 0x00) | Some b \<Rightarrow> b"
  let ?q = "drop (length p - rcap r) p"
  have lb: "length ?b = rcap r"
    using assms(1) by (auto simp: ring_repr_def ring_inv_def split: option.splits)
  have lq: "length ?q = rcap r" using assms(2) by simp
  have "go_copy ?b 0 ?q = ?q"
    using lb lq by (simp add: go_copy_def)
  moreover have "map (\<lambda>i. ?q ! (i mod rcap r)) [0..<rcap r] = ?q"
    using lq by (intro nth_equalityI) auto
  ultimately show ?thesis
    using assms p c lq
    by (auto simp: ring_repr_def ring_inv_def ring_bytes_def ring_Write_def Let_def)
qed

lemma ring_put_bytes:
  assumes "length b = c" and "h < c" and "sz + length p \<le> c"
  shows "map (\<lambda>i. ring_put b c ((h + sz) mod c) p ! ((h + i) mod c)) [0..<sz + length p]
       = map (\<lambda>i. b ! ((h + i) mod c)) [0..<sz] @ p" (is "?l = ?r")
proof (rule nth_equalityI)
  show "length ?l = length ?r" by simp
next
  fix i assume "i < length ?l"
  then have i: "i < sz + length p" by simp
  have c: "(h + i) mod c < c" "(h + sz) mod c < c" using assms(2) by simp_all
  have lp: "length p \<le> c" using assms(3) by simp
  have nth: "ring_put b c ((h + sz) mod c) p ! ((h + i) mod c) =
      (if i < sz then b ! ((h + i) mod c) else p ! (i - sz))"
    using assms i unfolding nth_ring_put [OF assms(1) c(2) lp c(1)]
    by (auto simp: mod_wrap)
  then show "?l ! i = ?r ! i"
    using i by (auto simp: nth_append)
qed

lemma ring_bytes_advance:
  assumes "h < c" and "k \<le> sz" and "sz \<le> c"
  shows "map (\<lambda>i. b ! (((h + k) mod c + i) mod c)) [0..<sz - k]
       = drop k (map (\<lambda>i. b ! ((h + i) mod c)) [0..<sz])"
proof (rule nth_equalityI)
  fix i assume "i < length (map (\<lambda>i. b ! (((h + k) mod c + i) mod c)) [0..<sz - k])"
  then have "i < sz - k" by simp
  moreover from this have "[0..<sz] ! (k + i) = k + i" by simp
  ultimately show "map (\<lambda>i. b ! (((h + k) mod c + i) mod c)) [0..<sz - k] ! i
      = drop k (map (\<lambda>i. b ! ((h + i) mod c)) [0..<sz]) ! i"
    using assms by (simp add: mod_add_left_eq add.assoc)
qed simp

lemma ring_Write_small:
  assumes "ring_repr r h" and "length p < rcap r" and "p \<noteq> []"
  shows "ring_repr (fst (ring_Write r p)) (h @ p)"
proof -
  let ?c = "rcap r" and ?n = "length p"
  let ?b = "case buf r of None \<Rightarrow> replicate ?c (CHR 0x00) | Some b \<Rightarrow> b"
  define ov where "ov = (if ?c < rsize r + ?n then rsize r + ?n - ?c else 0)"
  define hd' where "hd' = (head r + ov) mod ?c"
  define sz where "sz = rsize r - ov"
  have inv: "ring_inv r" and w: "written r = int (length h)"
    and rs: "rsize r = min ?c (length h)" and bts: "ring_bytes r = drop (length h - rsize r) h"
    using assms(1) by (simp_all add: ring_repr_def)
  have lb: "length ?b = ?c"
    using inv by (auto simp: ring_inv_def split: option.splits)
  have hc: "head r < ?c" and sc: "rsize r \<le> ?c" using inv by (auto simp: ring_inv_def)
  have ov: "ov \<le> rsize r" "sz + ?n \<le> ?c" "hd' < ?c" "sz = rsize r - ov"
    using assms(2) sc hc by (auto simp: ov_def sz_def hd'_def)
  have hd: "(if ?c < rsize r + ?n then (head r + ov) mod ?c else head r) = hd'"
    using hc by (simp add: hd'_def ov_def)
  have wr: "fst (ring_Write r p) = r\<lparr>written := written r + int ?n, dropped := dropped r + int ov,
      buf := Some (ring_put ?b ?c ((hd' + sz) mod ?c) p), head := hd', rsize := sz + ?n\<rparr>"
    using assms(2,3) hd by (simp add: ring_Write_def Let_def ov_def [symmetric] sz_def)
  have kept: "map (\<lambda>i. ?b ! ((hd' + i) mod ?c)) [0..<sz] = drop ov (ring_bytes r)"
  proof (cases "buf r")
    case None
    then show ?thesis using inv ov by (simp add: ring_inv_def ring_bytes_def)
  next
    case (Some b)
    then show ?thesis
      using ring_bytes_advance [OF hc ov(1) sc, of b] by (simp add: ring_bytes_def hd'_def sz_def)
  qed
  have sz': "sz + ?n = min ?c (length h + ?n)"
    using assms(2) rs by (auto simp: sz_def ov_def)
  have "drop ov (ring_bytes r) @ p = drop (length (h @ p) - (sz + ?n)) (h @ p)"
    using ov rs by (simp add: bts sz_def) (simp add: min_def add.commute split: if_splits)
  then have "ring_bytes (fst (ring_Write r p)) = drop (length (h @ p) - (sz + ?n)) (h @ p)"
    using ring_put_bytes [OF lb ov(3) ov(2)] kept by (simp add: wr ring_bytes_def)
  moreover have "ring_inv (fst (ring_Write r p))"
    using inv ov lb by (auto simp: wr ring_inv_def)
  ultimately show ?thesis
    using w sz' by (simp add: ring_repr_def wr)
qed

lemma ring_Write_repr: "ring_repr r h \<Longrightarrow> ring_repr (fst (ring_Write r p)) (h @ p)"
proof (cases "p = []")
  case True
  then show "ring_repr r h \<Longrightarrow> ?thesis" by (simp add: ring_Write_def)
next
  case False
  then show "ring_repr r h \<Longrightarrow> ?thesis"
    by (cases "rcap r \<le> length p") (auto intro: ring_Write_big ring_Write_small)
qed

lemma ring_writes_repr: "ring_repr r h \<Longrightarrow> ring_repr (ring_writes r ps) (h @ concat ps)"
proof (induction ps arbitrary: r h)
  case (Cons p ps)
  then have "ring_repr (ring_writes (fst (ring_Write r p)) ps) ((h @ p) @ concat ps)"
    by (intro Cons.IH ring_Write_repr)
  then show ?case by simp
qed simp

text \<open>\<open>Read\<close> is determined by the history: with \<open>oldest\<close> the offset of the oldest byte
  still held, it returns the bytes from the cursor or from \<open>oldest\<close> on, whichever is later,
  and reports the gap between the two.\<close>

definition log_read :: "nat \<Rightarrow> bytes \<Rightarrow> int \<Rightarrow> bytes \<times> int \<times> int" where
  "log_read c h cursor =
     (let oldest = int (length h - c) in
      (drop (nat (max cursor oldest)) h, int (length h), max 0 (oldest - cursor)))"

lemma ring_get_bytes:
  assumes "length b = c" and "hd' < c" and "sz \<le> c" and "k \<le> sz"
  shows "ring_get b c ((hd' + k) mod c) (sz - k)
       = drop k (map (\<lambda>i. b ! ((hd' + i) mod c)) [0..<sz])" (is "?l = ?r")
proof (rule nth_equalityI)
  have c: "(hd' + k) mod c < c" using assms(2) by simp
  show "length ?l = length ?r"
    using assms c by (simp add: length_ring_get)
  fix i assume "i < length ?l"
  then have i: "i < sz - k" using assms c by (simp add: length_ring_get)
  then show "?l ! i = ?r ! i"
    using assms c by (simp add: nth_ring_get mod_add_left_eq add.assoc)
qed

lemma ring_Read_repr:
  assumes "ring_repr r h"
  shows "ring_Read r cursor = log_read (rcap r) h cursor"
proof -
  have inv: "ring_inv r" and w: "written r = int (length h)"
    and rs: "rsize r = min (rcap r) (length h)"
    and bts: "ring_bytes r = drop (length h - rsize r) h"
    using assms by (simp_all add: ring_repr_def)
  define o' where "o' = length h - rcap r"
  have old: "written r - int (rsize r) = int o'" "length h - rsize r = o'"
    using w rs by (auto simp: o'_def)
  define start where "start = max cursor (int o')"
  show ?thesis
  proof (cases "int (length h) \<le> start")
    case True
    then show ?thesis using w old(1)
      by (auto simp: ring_Read_def log_read_def Let_def start_def o'_def)
  next
    case False
    obtain b where b: "buf r = Some b"
      using False inv rs by (auto simp: ring_inv_def start_def split: option.splits)
    define k where "k = nat (start - int o')"
    have k: "k \<le> rsize r" "nat (int (length h) - start) = rsize r - k" "o' + k = nat start"
      using False old w by (auto simp: k_def start_def)
    have "ring_get b (rcap r) ((head r + k) mod rcap r) (rsize r - k) = drop k (ring_bytes r)"
      using inv k b by (simp add: ring_inv_def ring_get_bytes ring_bytes_def)
    also have "\<dots> = drop (nat start) h"
      using old k by (simp add: bts add.commute)
    finally have g: "ring_get b (rcap r) ((head r + k) mod rcap r) (rsize r - k) = drop (nat start) h" .
    have s: "(if cursor < int o' then int o' else cursor) = start" by (simp add: start_def)
    have m: "(if cursor < int o' then int o' - cursor else 0) = max 0 (int o' - cursor)" by simp
    have "ring_Read r cursor = (drop (nat start) h, written r, max 0 (int o' - cursor))"
      unfolding ring_Read_def Let_def old(1) s m k_def [symmetric]
      using False g b k(2) w by simp
    then show ?thesis
      using w by (simp add: log_read_def Let_def start_def o'_def)
  qed
qed

lemma ring_Write_count [simp]: "snd (ring_Write r p) = length p"
  by (simp add: ring_Write_def Let_def)

lemma ring_Write_cap [simp]: "rcap (fst (ring_Write r p)) = rcap r"
  by (simp add: ring_Write_def Let_def)

section \<open>The interface of a log reader\<close>

text \<open>A reader of a growing log: it keeps a cursor, polls, and the writer writes in between.
  \<open>follow_log\<close> runs a sequence of writes and polls and returns the final state, the final
  cursor, and what every poll got: how many bytes were missing and the bytes.\<close>

datatype log_event = LogWrite bytes | LogPoll

fun follow_log ::
  "('s \<Rightarrow> bytes \<Rightarrow> 's) \<Rightarrow> ('s \<Rightarrow> int \<Rightarrow> bytes \<times> int \<times> int) \<Rightarrow> 's \<Rightarrow> int \<Rightarrow> log_event list
   \<Rightarrow> 's \<times> int \<times> (int \<times> bytes) list" where
  "follow_log wr rd s cur [] = (s, cur, [])"
| "follow_log wr rd s cur (LogWrite p # es) = follow_log wr rd (wr s p) cur es"
| "follow_log wr rd s cur (LogPoll # es) =
     (case rd s cur of (d, cur', g) \<Rightarrow>
        case follow_log wr rd s cur' es of (s', c', got) \<Rightarrow> (s', c', (g, d) # got))"

fun writes_of :: "log_event list \<Rightarrow> bytes" where
  "writes_of [] = []"
| "writes_of (LogWrite p # es) = p @ writes_of es"
| "writes_of (LogPoll # es) = writes_of es"

text \<open>What the reader has is the history with the reported gaps cut out.\<close>

fun pieces_of :: "bytes \<Rightarrow> (int \<times> bytes) list \<Rightarrow> bool" where
  "pieces_of h [] \<longleftrightarrow> True"
| "pieces_of h ((g, d) # got) \<longleftrightarrow>
     0 \<le> g \<and> nat g \<le> length h \<and> take (length d) (drop (nat g) h) = d
     \<and> pieces_of (drop (nat g + length d) h) got"

definition pieces_size :: "(int \<times> bytes) list \<Rightarrow> int" where
  "pieces_size got = (\<Sum>(g, d) \<leftarrow> got. g + int (length d))"

locale cursor_log =
  fixes log_repr :: "'s \<Rightarrow> bytes \<Rightarrow> bool"
    and wr :: "'s \<Rightarrow> bytes \<Rightarrow> 's"
    and rd :: "'s \<Rightarrow> int \<Rightarrow> bytes \<times> int \<times> int"
  assumes wr_repr: "log_repr s h \<Longrightarrow> log_repr (wr s p) (h @ p)"
    and rd_repr: "log_repr s h \<Longrightarrow> 0 \<le> cur \<Longrightarrow> cur \<le> int (length h) \<Longrightarrow>
      \<exists>g. 0 \<le> g \<and> cur + g \<le> int (length h)
        \<and> rd s cur = (drop (nat (cur + g)) h, int (length h), g)"
begin

lemma follow_repr:
  "log_repr s h \<Longrightarrow> follow_log wr rd s cur es = (s', c', got) \<Longrightarrow> log_repr s' (h @ writes_of es)"
proof (induction es arbitrary: s h cur got)
  case (Cons e es)
  show ?case
  proof (cases e)
    case (LogWrite p)
    with Cons.prems have "log_repr s' ((h @ p) @ writes_of es)"
      by (intro Cons.IH [of "wr s p"]) (simp_all add: wr_repr)
    with LogWrite show ?thesis by simp
  next
    case LogPoll
    with Cons.prems obtain cur' got' where "follow_log wr rd s cur' es = (s', c', got')"
      by (auto split: prod.splits)
    with LogPoll Cons.IH [OF Cons.prems(1)] show ?thesis by simp
  qed
qed simp

lemma follow_accounts:
  "log_repr s h \<Longrightarrow> 0 \<le> cur \<Longrightarrow> cur \<le> int (length h) \<Longrightarrow>
   follow_log wr rd s cur es = (s', c', got) \<Longrightarrow>
   pieces_of (drop (nat cur) (h @ writes_of es)) got \<and> c' = cur + pieces_size got
     \<and> c' \<le> int (length (h @ writes_of es))"
proof (induction es arbitrary: s h cur got)
  case Nil
  then show ?case by (simp add: pieces_size_def)
next
  case (Cons e es)
  show ?case
  proof (cases e)
    case (LogWrite p)
    with Cons.prems have
      "pieces_of (drop (nat cur) ((h @ p) @ writes_of es)) got \<and> c' = cur + pieces_size got
        \<and> c' \<le> int (length ((h @ p) @ writes_of es))"
      by (intro Cons.IH [of "wr s p"]) (simp_all add: wr_repr)
    with LogWrite show ?thesis by simp
  next
    case LogPoll
    from rd_repr [OF Cons.prems(1-3)] obtain g where g: "0 \<le> g" "cur + g \<le> int (length h)"
      and r: "rd s cur = (drop (nat (cur + g)) h, int (length h), g)" by blast
    let ?d = "drop (nat (cur + g)) h"
    from Cons.prems(4) LogPoll r obtain got' where
      f: "follow_log wr rd s (int (length h)) es = (s', c', got')" and got: "got = (g, ?d) # got'"
      by (auto split: prod.splits)
    have ih: "pieces_of (drop (length h) (h @ writes_of es)) got' \<and> c' = int (length h) + pieces_size got'
        \<and> c' \<le> int (length (h @ writes_of es))"
      using Cons.IH [OF Cons.prems(1) _ _ f] by simp
    have n: "nat (cur + g) = nat cur + nat g" using Cons.prems(2) g by simp
    have l: "nat cur + (nat g + length ?d) = length h" "int (length ?d) = int (length h) - (cur + g)"
      using Cons.prems(2) g n by auto
    show ?thesis
      using Cons.prems(2) g n l ih LogPoll got
      by (auto simp: pieces_size_def add.commute)
  qed
qed

end

text \<open>The ring provides the interface.\<close>

interpretation ring_log: cursor_log ring_repr "\<lambda>r p. fst (ring_Write r p)" ring_Read
proof
  fix r h p
  show "ring_repr r h \<Longrightarrow> ring_repr (fst (ring_Write r p)) (h @ p)" by (rule ring_Write_repr)
next
  fix r h cur
  assume "ring_repr r h" and "0 \<le> cur" and "cur \<le> int (length h)"
  then show "\<exists>g. 0 \<le> g \<and> cur + g \<le> int (length h)
        \<and> ring_Read r cur = (drop (nat (cur + g)) h, int (length h), g)"
    by (intro exI [of _ "max 0 (int (length h - rcap r) - cur)"])
      (auto simp: ring_Read_repr log_read_def Let_def max_def)
qed

section \<open>Properties\<close>

text \<open>C7: after any sequence of writes to a new ring, \<open>Read\<close> returns exactly the bytes of
  the whole history from the cursor on, less those evicted because the ring was full; the new
  cursor is the length of the history, and the reported drop count is exactly the number of
  bytes between the cursor and the oldest byte held. \<open>NewRing\<close> panics exactly on a
  capacity that is not positive.\<close>

theorem ring_read_history:
  "case NewRing c of
     None \<Rightarrow> c \<le> 0
   | Some r \<Rightarrow> ring_Read (ring_writes r ps) cursor = log_read (nat c) (concat ps) cursor"
proof (cases "NewRing c")
  case (Some r)
  have "rcap (ring_writes s ps) = rcap s" for s
    by (induction ps arbitrary: s) auto
  moreover have "rcap r = nat c" using Some by (auto simp: NewRing_def split: if_splits)
  ultimately show ?thesis
    using Some ring_Read_repr [OF ring_writes_repr [OF NewRing_repr [OF Some]]] by simp
qed (auto simp: NewRing_def split: if_splits)

text \<open>a reader that polls from the start of a background log, with writes in between in
  any order, gets the history with exactly the reported gaps cut out: nothing is duplicated,
  reordered or lost without being counted, and bytes received plus bytes reported dropped
  are the final cursor.\<close>

theorem ring_follow_complete:
  assumes "NewRing c = Some r"
    and "follow_log (\<lambda>r p. fst (ring_Write r p)) ring_Read r 0 es = (r', c', got)"
  shows "pieces_of (writes_of es) got \<and> c' = pieces_size got \<and> ring_repr r' (writes_of es)"
  using ring_log.follow_accounts [OF NewRing_repr [OF assms(1)] _ _ assms(2)]
    ring_log.follow_repr [OF NewRing_repr [OF assms(1)] assms(2)]
  by simp

theorem ring_follow_complete_witness:
  "\<exists>r r' c' got. NewRing 3 = Some r
     \<and> follow_log (\<lambda>r p. fst (ring_Write r p)) ring_Read r 0
         [LogWrite ''ab'', LogPoll, LogWrite ''cdefg'', LogPoll] = (r', c', got)
     \<and> got = [(0, ''ab''), (2, ''efg'')] \<and> c' = 7
     \<and> pieces_of ''abcdefg'' got \<and> c' = pieces_size got"
proof -
  let ?es = "[LogWrite ''ab'', LogPoll, LogWrite ''cdefg'', LogPoll]"
  let ?f = "follow_log (\<lambda>r p. fst (ring_Write r p)) ring_Read (the (NewRing 3)) 0 ?es"
  have r: "NewRing 3 = Some (the (NewRing 3))" by code_simp
  have f: "snd ?f = (7, [(0, ''ab''), (2, ''efg'')])" by code_simp
  then have f': "?f = (fst ?f, 7, [(0, ''ab''), (2, ''efg'')])" by (simp add: prod_eq_iff)
  have "pieces_of (writes_of ?es) [(0, ''ab''), (2, ''efg'')]
      \<and> 7 = pieces_size [(0, ''ab''), (2, ''efg'')]"
    using ring_follow_complete [OF r f'] by simp
  moreover have "writes_of ?es = ''abcdefg''" by simp
  ultimately show ?thesis using r f' by metis
qed

end
