(* ===== verification/Shell_Pty.thy ===== *)
theory Shell_Pty
  imports Shell_Ring "HOL-Library.Word"
begin

text \<open>
  The interactive terminals (\<open>pkg/shell/pty.go\<close>, the frames of \<open>pkg/handlers/shell_pty.go\<close>). A PTY is an object with two goroutines, one
  that reads the terminal and one that waits for the process, and at most one client that
  follows the replay ring. Every goroutine is a program counter in the record, and an event is one step of one of them; \<open>pty_do\<close> is
  \<open>None\<close> when the event cannot happen. Three fields are not in the code and only observe: all the bytes read from the terminal, all the bytes that went into
  the ring, and what was typed by whom. The terminal and the process are outside.
\<close>

section \<open>The data\<close>

definition PTYReplaySize :: int where "PTYReplaySize = 65536"
definition PTYMaxConcurrent :: nat where "PTYMaxConcurrent = 32"
definition PTYReadBuf :: nat where "PTYReadBuf = 4096"
definition PTYIdleExpiry :: int where "PTYIdleExpiry = 30 * 60 * 1000000000"

datatype pty_error = ErrPTYBusy | ErrPTYClosed

text \<open>The program counters of \<open>readLoop\<close>, \<open>waitLoop\<close> and \<open>AttachStream\<close>.\<close>

datatype pty_reader = Reading | Holding bytes | Stored | Stopped
datatype pty_waiter = Waiting | Draining | DrainHolding bytes | Reaped
datatype pty_tail = AtSnapshot | Tailing

datatype pty_frame = OutputFrame bytes | ExitFrame int

record attachment =
  at_client :: nat
  at_tail :: pty_tail
  at_cursor :: int
  at_got :: "(int \<times> bytes) list" \<comment> \<open>what each read sent, with the gap before it\<close>
  at_frames :: "pty_frame list"

record pty =
  pt_replay :: ring
  pt_notify :: bool
  pt_attached :: bool
  pt_closed :: bool
  pt_exitCode :: int
  pt_lastUsed :: int
  pt_done :: bool
  pt_open :: bool \<comment> \<open>the terminal's file\<close>
  pt_reader :: pty_reader
  pt_waiter :: pty_waiter
  pt_stream :: "attachment option"
  pt_gone :: "attachment list"
  pt_tty :: bytes
  pt_log :: bytes
  pt_typed :: "(nat \<times> bytes) list"

definition newPTY :: "int \<Rightarrow> pty" where
  "newPTY now = \<lparr>pt_replay = the (NewRing PTYReplaySize), pt_notify = False, pt_attached = False, pt_closed = False, pt_exitCode = -1,
     pt_lastUsed = now, pt_done = False, pt_open = True, pt_reader = Reading, pt_waiter = Waiting, pt_stream = None, pt_gone = [],
     pt_tty = [], pt_log = [], pt_typed = []\<rparr>"

definition IsAttached :: "pty \<Rightarrow> bool" where "IsAttached p = pt_attached p"
definition IsClosed :: "pty \<Rightarrow> bool" where "IsClosed p = pt_closed p"

section \<open>One terminal\<close>

definition replay_write :: "bytes \<Rightarrow> pty \<Rightarrow> pty" where
  "replay_write b p = p\<lparr>pt_replay := fst (ring_Write (pt_replay p) b), pt_log := pt_log p @ b\<rparr>"

text \<open>Why \<open>AttachStream\<close> refuses.\<close>

definition attach_error :: "pty \<Rightarrow> pty_error option" where
  "attach_error p = (if pt_closed p then Some ErrPTYClosed else if pt_attached p then Some ErrPTYBusy else None)"

definition leave :: "attachment \<Rightarrow> pty \<Rightarrow> pty" where
  "leave a p = p\<lparr>pt_attached := False, pt_stream := None, pt_gone := pt_gone p @ [a]\<rparr>"

definition deliver :: "int \<Rightarrow> bytes \<Rightarrow> attachment \<Rightarrow> attachment" where
  "deliver gap d a = a\<lparr>at_got := at_got a @ [(gap, d)], at_frames := at_frames a @ [OutputFrame d]\<rparr>"

text \<open>The snapshot, a wake-up by the notification, and the end. \<open>ok\<close>: the client took the frame.\<close>

definition stream_snapshot :: "bool \<Rightarrow> attachment \<Rightarrow> pty \<Rightarrow> pty" where
  "stream_snapshot ok a p = (let (snap, cursor, gap) = ring_Snapshot (pt_replay p); a' = a\<lparr>at_tail := Tailing, at_cursor := cursor\<rparr> in
     if snap = [] then p\<lparr>pt_stream := Some (a'\<lparr>at_got := [(gap, [])]\<rparr>)\<rparr>
     else if ok then p\<lparr>pt_stream := Some (deliver gap snap a')\<rparr> else leave a p)"

definition stream_wake :: "bool \<Rightarrow> attachment \<Rightarrow> pty \<Rightarrow> pty" where
  "stream_wake ok a p = (let (data, cur, gap) = ring_Read (pt_replay p) (at_cursor a); a' = a\<lparr>at_cursor := cur\<rparr>; p' = p\<lparr>pt_notify := False\<rparr> in
     if data = [] then p'\<lparr>pt_stream := Some (a'\<lparr>at_got := at_got a @ [(gap, [])]\<rparr>)\<rparr>
     else if ok then p'\<lparr>pt_stream := Some (deliver gap data a')\<rparr> else leave a p')"

definition stream_end :: "bool \<Rightarrow> bool \<Rightarrow> attachment \<Rightarrow> pty \<Rightarrow> pty" where
  "stream_end ok ok' a p = (let (data, cur, gap) = ring_Read (pt_replay p) (at_cursor a);
       a1 = (if data = [] then a\<lparr>at_cursor := cur, at_got := at_got a @ [(gap, [])]\<rparr>
         else if ok then deliver gap data (a\<lparr>at_cursor := cur\<rparr>) else a)
     in leave (if ok' then a1\<lparr>at_frames := at_frames a1 @ [ExitFrame (pt_exitCode p)]\<rparr> else a1) p)"

definition pty_Close :: "pty \<Rightarrow> pty" where
  "pty_Close p = (if pt_closed p then p else p\<lparr>pt_closed := True, pt_open := False\<rparr>)"

definition pty_Resize :: "nat \<Rightarrow> nat \<Rightarrow> (nat \<times> nat) option" where
  "pty_Resize rows cols = (if rows = 0 \<or> cols = 0 then None else Some (rows, cols))"

definition WriteStdin :: "nat \<Rightarrow> bytes \<Rightarrow> int \<Rightarrow> pty \<Rightarrow> pty" where
  "WriteStdin c b now p = p\<lparr>pt_lastUsed := now, pt_typed := (if pt_open p then pt_typed p @ [(c, b)] else pt_typed p)\<rparr>"

datatype pty_event =
    ReadTty bytes | StoreTty int | Ping | ReadEnd
  | Exited int | DrainRead bytes | DrainStore | Reap
  | Attach nat | SendSnapshot bool | Wake bool | WakeDone bool bool | Cancel
  | Typed nat bytes int | ClosePty

text \<open>\<open>readLoop\<close>, a step at a time.\<close>

fun reader_do :: "pty_event \<Rightarrow> pty \<Rightarrow> pty option" where
  "reader_do (ReadTty b) p = (if pt_reader p = Reading \<and> pt_open p \<and> b \<noteq> [] \<and> length b \<le> PTYReadBuf
     then Some (p\<lparr>pt_reader := Holding b, pt_tty := pt_tty p @ b\<rparr>) else None)"
| "reader_do (StoreTty now) p = (case pt_reader p of
     Holding b \<Rightarrow> Some ((replay_write b p)\<lparr>pt_lastUsed := now, pt_reader := Stored\<rparr>) | _ \<Rightarrow> None)"
| "reader_do Ping p = (if pt_reader p = Stored then Some (p\<lparr>pt_notify := True, pt_reader := Reading\<rparr>) else None)"
| "reader_do ReadEnd p = (if pt_reader p = Reading then Some (p\<lparr>pt_reader := Stopped\<rparr>) else None)"
| "reader_do _ p = None"

text \<open>\<open>waitLoop\<close>: the exit code, the rest of the terminal, the end. The last notification comes with the end.\<close>

fun waiter_do :: "pty_event \<Rightarrow> pty \<Rightarrow> pty option" where
  "waiter_do (Exited code) p = (if pt_waiter p = Waiting then Some (p\<lparr>pt_exitCode := code, pt_closed := True, pt_waiter := Draining\<rparr>) else None)"
| "waiter_do (DrainRead b) p = (if pt_waiter p = Draining \<and> pt_open p \<and> b \<noteq> []
     then Some (p\<lparr>pt_waiter := DrainHolding b, pt_tty := pt_tty p @ b\<rparr>) else None)"
| "waiter_do DrainStore p = (case pt_waiter p of DrainHolding b \<Rightarrow> Some ((replay_write b p)\<lparr>pt_waiter := Draining\<rparr>) | _ \<Rightarrow> None)"
| "waiter_do Reap p = (if pt_waiter p = Draining then Some (p\<lparr>pt_open := False, pt_done := True, pt_notify := True, pt_waiter := Reaped\<rparr>) else None)"
| "waiter_do _ p = None"

text \<open>\<open>AttachStream\<close>. A client that is refused changes nothing.\<close>

fun stream_do :: "pty_event \<Rightarrow> pty \<Rightarrow> pty option" where
  "stream_do (Attach c) p = (if attach_error p \<noteq> None then Some p
     else Some (p\<lparr>pt_attached := True, pt_stream := Some \<lparr>at_client = c, at_tail = AtSnapshot, at_cursor = 0, at_got = [], at_frames = []\<rparr>\<rparr>))"
| "stream_do (SendSnapshot ok) p = (case pt_stream p of
     Some a \<Rightarrow> if at_tail a = AtSnapshot then Some (stream_snapshot ok a p) else None | None \<Rightarrow> None)"
| "stream_do (Wake ok) p = (case pt_stream p of
     Some a \<Rightarrow> if at_tail a = Tailing \<and> pt_notify p then Some (stream_wake ok a p) else None | None \<Rightarrow> None)"
| "stream_do (WakeDone ok ok') p = (case pt_stream p of
     Some a \<Rightarrow> if at_tail a = Tailing \<and> pt_done p then Some (stream_end ok ok' a p) else None | None \<Rightarrow> None)"
| "stream_do Cancel p = (case pt_stream p of Some a \<Rightarrow> if at_tail a = Tailing then Some (leave a p) else None | None \<Rightarrow> None)"
| "stream_do _ p = None"

fun pty_do :: "pty_event \<Rightarrow> pty \<Rightarrow> pty option" where
  "pty_do (Typed c b now) p = Some (WriteStdin c b now p)"
| "pty_do ClosePty p = Some (pty_Close p)"
| "pty_do e p = (case reader_do e p of Some q \<Rightarrow> Some q | None \<Rightarrow> (case waiter_do e p of Some q \<Rightarrow> Some q | None \<Rightarrow> stream_do e p))"

fun pty_run :: "pty_event list \<Rightarrow> pty \<Rightarrow> pty option" where
  "pty_run [] p = Some p"
| "pty_run (e # es) p = (case pty_do e p of None \<Rightarrow> None | Some q \<Rightarrow> pty_run es q)"

section \<open>Frames on the wire\<close>

definition exit_bytes :: "32 word \<Rightarrow> bytes" where
  "exit_bytes w = map (\<lambda>i. char_of (unat (drop_bit i w) mod 256)) [24, 16, 8, 0]"

definition frame_wire :: "pty_frame \<Rightarrow> bytes" where
  "frame_wire f = (case f of OutputFrame b \<Rightarrow> CHR 0x01 # b | ExitFrame c \<Rightarrow> CHR 0x05 # exit_bytes (word_of_int c))"

text \<open>What a message of the client does: \<open>control\<close> reads the JSON of a control message, its type and size.\<close>

datatype ws_message = BinaryMessage bytes | TextMessage string
datatype ws_action = WsIgnore | WsStdin bytes | WsResize nat nat | WsDrop

definition ws_input :: "(string \<Rightarrow> (string \<times> nat \<times> nat) option) \<Rightarrow> ws_message \<Rightarrow> ws_action" where
  "ws_input control m = (case m of
     BinaryMessage [] \<Rightarrow> WsIgnore
   | BinaryMessage (t # b) \<Rightarrow> (if t = CHR 0x03 then WsStdin b else WsIgnore)
   | TextMessage s \<Rightarrow> (case control s of
       None \<Rightarrow> WsDrop
     | Some (ty, rows, cols) \<Rightarrow> if ty \<noteq> ''resize'' then WsIgnore
         else (case pty_Resize rows cols of None \<Rightarrow> WsDrop | Some (r, c) \<Rightarrow> WsResize r c)))"

definition parseDim :: "string \<Rightarrow> nat \<Rightarrow> nat" where
  "parseDim s fallback = (if s = [] \<or> \<not> list_all is_digit s then fallback
     else (case parse_int s of Some n \<Rightarrow> if 0 < n \<and> n \<le> 65535 then nat n else fallback | None \<Rightarrow> fallback))"

section \<open>The manager\<close>

text \<open>A creation reserves a slot, starts the process, and installs it; each installed PTY has a goroutine that waits
  for its end to release the slot and then the entry.\<close>

record pty_manager =
  ptm_heap :: "pty list"
  ptm_ptys :: "string \<rightharpoonup> nat"
  ptm_sem :: nat
  ptm_reserved :: nat \<comment> \<open>creations with a slot and no process yet\<close>
  ptm_spawned :: "(nat \<times> string) list" \<comment> \<open>started and not installed\<close>
  ptm_owned :: "(nat \<times> string) list" \<comment> \<open>installed, slot not released\<close>
  ptm_released :: "(nat \<times> string) list" \<comment> \<open>slot released, entry not looked at\<close>
  ptm_doomed :: "nat list" \<comment> \<open>picked for closing\<close>

definition NewPTYManager :: pty_manager where
  "NewPTYManager = \<lparr>ptm_heap = [], ptm_ptys = Map.empty, ptm_sem = 0, ptm_reserved = 0, ptm_spawned = [], ptm_owned = [], ptm_released = [], ptm_doomed = []\<rparr>"

definition live_pty :: "pty_manager \<Rightarrow> string \<Rightarrow> nat option" where
  "live_pty m i = (case ptm_ptys m i of Some n \<Rightarrow> if IsClosed (ptm_heap m ! n) then None else Some n | None \<Rightarrow> None)"

datatype get_reply = GotPty nat | GotSlot | PtyCap

definition get_first :: "pty_manager \<Rightarrow> string \<Rightarrow> get_reply \<times> pty_manager" where
  "get_first m i = (case live_pty m i of
     Some n \<Rightarrow> (GotPty n, m)
   | None \<Rightarrow> if ptm_sem m < PTYMaxConcurrent then (GotSlot, m\<lparr>ptm_sem := Suc (ptm_sem m), ptm_reserved := Suc (ptm_reserved m)\<rparr>) else (PtyCap, m))"

definition close_at :: "nat \<Rightarrow> pty_manager \<Rightarrow> pty_manager" where
  "close_at n m = m\<lparr>ptm_heap := (ptm_heap m)[n := pty_Close (ptm_heap m ! n)]\<rparr>"

definition get_install :: "nat \<Rightarrow> string \<Rightarrow> pty_manager \<Rightarrow> pty_manager" where
  "get_install n i m = (let m' = m\<lparr>ptm_spawned := remove1 (n, i) (ptm_spawned m)\<rparr> in
     case live_pty m i of
       Some k \<Rightarrow> (close_at n m')\<lparr>ptm_sem := ptm_sem m - 1\<rparr>
     | None \<Rightarrow> m'\<lparr>ptm_ptys := (ptm_ptys m)(i \<mapsto> n), ptm_owned := ptm_owned m @ [(n, i)]\<rparr>)"

definition gc_expired :: "int \<Rightarrow> pty \<Rightarrow> bool" where
  "gc_expired now p \<longleftrightarrow> \<not> IsAttached p \<and> now - pt_lastUsed p \<ge> PTYIdleExpiry"

text \<open>The PTYs in the table: an entry is installed with its goroutine.\<close>

definition tabled :: "pty_manager \<Rightarrow> nat list" where
  "tabled m = filter (\<lambda>n. list_ex (\<lambda>(k, i). ptm_ptys m i = Some n) (ptm_owned m @ ptm_released m)) [0..<length (ptm_heap m)]"

definition gcOnce :: "int \<Rightarrow> pty_manager \<Rightarrow> nat list" where
  "gcOnce now m = filter (\<lambda>n. gc_expired now (ptm_heap m ! n)) (tabled m)"

definition pty_List :: "pty_manager \<Rightarrow> (nat \<times> bool \<times> bool) list" where
  "pty_List m = map (\<lambda>n. (n, IsAttached (ptm_heap m ! n), IsClosed (ptm_heap m ! n))) (tabled m)"

datatype pty_act =
    GetFirst string | SpawnFails | Spawn string int | Install nat string | PtyEvent nat pty_event
  | ReleaseSlot nat string | ForgetEntry nat string | CloseId string | CloseAllPtys | GcPick int | CloseDoomed nat

fun manager_do :: "pty_act \<Rightarrow> pty_manager \<Rightarrow> pty_manager option" where
  "manager_do (GetFirst i) m = Some (snd (get_first m i))"
| "manager_do SpawnFails m = (if ptm_reserved m = 0 then None else Some (m\<lparr>ptm_reserved := ptm_reserved m - 1, ptm_sem := ptm_sem m - 1\<rparr>))"
| "manager_do (Spawn i now) m = (if ptm_reserved m = 0 then None
     else Some (m\<lparr>ptm_reserved := ptm_reserved m - 1, ptm_heap := ptm_heap m @ [newPTY now], ptm_spawned := ptm_spawned m @ [(length (ptm_heap m), i)]\<rparr>))"
| "manager_do (Install n i) m = (if (n, i) \<in> set (ptm_spawned m) then Some (get_install n i m) else None)"
| "manager_do (PtyEvent n e) m = (if n < length (ptm_heap m)
     then map_option (\<lambda>p. m\<lparr>ptm_heap := (ptm_heap m)[n := p]\<rparr>) (pty_do e (ptm_heap m ! n)) else None)"
| "manager_do (ReleaseSlot n i) m = (if (n, i) \<in> set (ptm_owned m) \<and> pt_done (ptm_heap m ! n)
     then Some (m\<lparr>ptm_sem := ptm_sem m - 1, ptm_owned := remove1 (n, i) (ptm_owned m), ptm_released := ptm_released m @ [(n, i)]\<rparr>) else None)"
| "manager_do (ForgetEntry n i) m = (if (n, i) \<in> set (ptm_released m)
     then Some (m\<lparr>ptm_released := remove1 (n, i) (ptm_released m), ptm_ptys := (if ptm_ptys m i = Some n then (ptm_ptys m)(i := None) else ptm_ptys m)\<rparr>)
     else None)"
| "manager_do (CloseId i) m = (case ptm_ptys m i of None \<Rightarrow> Some m | Some n \<Rightarrow> Some (m\<lparr>ptm_doomed := ptm_doomed m @ [n]\<rparr>))"
| "manager_do CloseAllPtys m = Some (m\<lparr>ptm_ptys := Map.empty, ptm_doomed := ptm_doomed m @ tabled m\<rparr>)"
| "manager_do (GcPick now) m = Some (m\<lparr>ptm_doomed := ptm_doomed m @ gcOnce now m\<rparr>)"
| "manager_do (CloseDoomed n) m = (if n \<in> set (ptm_doomed m) \<and> n < length (ptm_heap m)
     then Some (close_at n (m\<lparr>ptm_doomed := remove1 n (ptm_doomed m)\<rparr>)) else None)"

fun manager_run :: "pty_act list \<Rightarrow> pty_manager \<Rightarrow> pty_manager option" where
  "manager_run [] m = Some m"
| "manager_run (a # as) m = (case manager_do a m of None \<Rightarrow> None | Some m' \<Rightarrow> manager_run as m')"

end
