(* ===== verification/Shell_Terminals.thy ===== *)
theory Shell_Terminals
  imports Shell_Pty
begin

text \<open>
  What a client of a terminal receives, that it is never left waiting, where output changes its order, and how many
  terminals there are.
\<close>

section \<open>What was sent\<close>

definition outputs :: "(int \<times> bytes) list \<Rightarrow> pty_frame list" where
  "outputs got = map OutputFrame (filter (\<lambda>d. d \<noteq> []) (map snd got))"

lemma pieces_of_append: "pieces_of h got \<Longrightarrow> pieces_of (h @ w) got"
proof (induction h got rule: pieces_of.induct)
  case (2 h g d got)
  have "take (length d) (drop (nat g) h) = d" using 2(2) by simp
  then have "min (length h - nat g) (length d) = length d" by (metis length_drop length_take)
  then have "length d \<le> length h - nat g" by simp
  moreover have "nat g \<le> length h" using 2(2) by simp
  ultimately have "nat g + length d - length h = 0" by linarith
  then show ?case using 2 by simp
qed simp

lemma pieces_size_snoc [simp]: "pieces_size (got @ [(g, d)]) = pieces_size got + g + int (length d)" "pieces_size [] = 0"
  by (simp_all add: pieces_size_def)

lemma pieces_size_nonneg: "pieces_of h got \<Longrightarrow> 0 \<le> pieces_size got"
  by (induction h got rule: pieces_of.induct) (auto simp: pieces_size_def)

lemma pieces_of_snoc:
  "pieces_of h got \<Longrightarrow> 0 \<le> g \<Longrightarrow> nat (pieces_size got + g) \<le> length h
    \<Longrightarrow> pieces_of h (got @ [(g, drop (nat (pieces_size got + g)) h)])"
proof (induction h got rule: pieces_of.induct)
  case (2 h g' d got)
  have s: "pieces_size ((g', d) # got) = g' + int (length d) + pieces_size got" by (simp add: pieces_size_def)
  have n: "0 \<le> pieces_size got" using 2(2) pieces_size_nonneg by auto
  have "nat (g' + int (length d) + pieces_size got + g) = nat g' + length d + nat (pieces_size got + g)"
    using 2(2,3) n by auto
  then show ?case using 2 by (simp add: s add.commute add.left_commute)
qed (simp add: pieces_size_def)

text \<open>One read of the ring by a client that has everything up to its cursor accounted for.\<close>

lemma tail_read:
  assumes "ring_repr r h" "pieces_of h got" "cur = pieces_size got" "cur \<le> int (length h)" "ring_Read r cur = (d, cur', g)"
  shows "pieces_of h (got @ [(g, d)]) \<and> cur' = int (length h) \<and> pieces_size (got @ [(g, d)]) = int (length h)"
proof -
  have "0 \<le> cur" using pieces_size_nonneg assms(2,3) by simp
  from ring_log.rd_repr [OF assms(1) this assms(4)] obtain g' where
    g: "0 \<le> g'" "cur + g' \<le> int (length h)" "ring_Read r cur = (drop (nat (cur + g')) h, int (length h), g')" by blast
  then have e: "d = drop (nat (cur + g)) h" "cur' = int (length h)" "g = g'" using assms(5) by auto
  show ?thesis using pieces_of_snoc [OF assms(2), of g] g \<open>0 \<le> cur\<close> unfolding e assms(3) by auto
qed

section \<open>The invariant of a terminal\<close>

definition tail_ok :: "bytes \<Rightarrow> attachment \<Rightarrow> bool" where
  "tail_ok h a \<longleftrightarrow> (case at_tail a of AtSnapshot \<Rightarrow> at_got a = [] \<and> at_frames a = [] \<and> at_cursor a = 0
     | Tailing \<Rightarrow> pieces_of h (at_got a) \<and> at_cursor a = pieces_size (at_got a) \<and> at_cursor a \<le> int (length h) \<and> at_frames a = outputs (at_got a))"

definition gone_ok :: "pty \<Rightarrow> attachment \<Rightarrow> bool" where
  "gone_ok p a \<longleftrightarrow> pieces_of (pt_log p) (at_got a)
     \<and> (at_frames a = outputs (at_got a) \<or> at_frames a = outputs (at_got a) @ [ExitFrame (pt_exitCode p)] \<and> pt_done p)"

definition wake_ok :: "pty \<Rightarrow> attachment \<Rightarrow> bool" where
  "wake_ok p a \<longleftrightarrow> at_tail a = Tailing \<longrightarrow> at_cursor a = int (length (pt_log p)) \<or> pt_notify p \<or> pt_reader p = Stored \<or> pt_waiter p \<noteq> Waiting"

definition pty_inv :: "pty \<Rightarrow> bool" where
  "pty_inv p \<longleftrightarrow> ring_repr (pt_replay p) (pt_log p)
     \<and> (case pt_stream p of None \<Rightarrow> \<not> pt_attached p | Some a \<Rightarrow> pt_attached p \<and> tail_ok (pt_log p) a \<and> wake_ok p a)
     \<and> (\<forall>a \<in> set (pt_gone p). gone_ok p a)
     \<and> (pt_done p \<longleftrightarrow> pt_waiter p = Reaped) \<and> (pt_waiter p \<noteq> Waiting \<longrightarrow> pt_closed p)"

lemma newPTY_inv: "pty_inv (newPTY t)"
proof -
  have "NewRing PTYReplaySize = Some (the (NewRing PTYReplaySize))" by (simp add: NewRing_def PTYReplaySize_def)
  from NewRing_repr [OF this] show ?thesis by (simp add: pty_inv_def newPTY_def)
qed

lemma pty_inv_same:
  assumes "pty_inv p" "pt_replay q = pt_replay p" "pt_log q = pt_log p" "pt_stream q = pt_stream p" "pt_attached q = pt_attached p"
    "pt_gone q = pt_gone p" "pt_exitCode q = pt_exitCode p" "pt_done q = pt_done p" "pt_waiter q = pt_waiter p" "pt_closed p \<Longrightarrow> pt_closed q"
    "pt_notify p \<or> pt_reader p = Stored \<Longrightarrow> pt_notify q \<or> pt_reader q = Stored"
  shows "pty_inv q"
proof -
  have "wake_ok p a \<Longrightarrow> wake_ok q a" for a using assms(3,9,11) by (auto simp: wake_ok_def)
  moreover have "gone_ok q a \<longleftrightarrow> gone_ok p a" for a using assms(3,7,8) by (simp add: gone_ok_def)
  ultimately show ?thesis using assms unfolding pty_inv_def by (cases "pt_stream p") simp_all
qed

lemma tail_ok_append: "tail_ok h a \<Longrightarrow> tail_ok (h @ b) a"
  by (auto simp: tail_ok_def intro: pieces_of_append split: pty_tail.splits)

lemma replay_write_inv:
  assumes "pty_inv p"
  shows "ring_repr (pt_replay (replay_write b p)) (pt_log (replay_write b p))"
    "pt_stream p = Some a \<Longrightarrow> tail_ok (pt_log (replay_write b p)) a" "a \<in> set (pt_gone p) \<Longrightarrow> gone_ok (replay_write b p) a"
  using assms by (auto simp: pty_inv_def replay_write_def ring_Write_repr tail_ok_append gone_ok_def pieces_of_append)

lemma reader_inv: "pty_inv p \<Longrightarrow> reader_do e p = Some q \<Longrightarrow> pty_inv q"
proof (cases e)
  fix now assume inv: "pty_inv p" and q: "reader_do e p = Some q" and e: "e = StoreTty now"
  from q e obtain b where "pt_reader p = Holding b" "q = (replay_write b p)\<lparr>pt_lastUsed := now, pt_reader := Stored\<rparr>"
    by (auto split: pty_reader.splits)
  then show ?thesis using replay_write_inv [OF inv, where b = b] inv
    by (auto simp: pty_inv_def wake_ok_def gone_ok_def replay_write_def split: option.splits)
qed (auto intro: pty_inv_same split: if_splits)

lemma waiter_inv: "pty_inv p \<Longrightarrow> waiter_do e p = Some q \<Longrightarrow> pty_inv q"
proof (cases e)
  assume inv: "pty_inv p" and q: "waiter_do e p = Some q" and e: "e = DrainStore"
  from q e obtain b where "pt_waiter p = DrainHolding b" "q = (replay_write b p)\<lparr>pt_waiter := Draining\<rparr>"
    by (auto split: pty_waiter.splits)
  then show ?thesis using replay_write_inv [OF inv, where b = b] inv
    by (auto simp: pty_inv_def wake_ok_def gone_ok_def replay_write_def split: option.splits)
next
  fix code assume inv: "pty_inv p" and q: "waiter_do e p = Some q" and e: "e = Exited code"
  from q e have "pt_waiter p = Waiting" "q = p\<lparr>pt_exitCode := code, pt_closed := True, pt_waiter := Draining\<rparr>"
    by (auto split: if_splits)
  then show ?thesis using inv by (auto simp: pty_inv_def wake_ok_def gone_ok_def split: option.splits)
next
  assume inv: "pty_inv p" and q: "waiter_do e p = Some q" and e: "e = Reap"
  from q e have "pt_waiter p = Draining" "q = p\<lparr>pt_open := False, pt_done := True, pt_notify := True, pt_waiter := Reaped\<rparr>"
    by (auto split: if_splits)
  then show ?thesis using inv by (auto simp: pty_inv_def wake_ok_def gone_ok_def split: option.splits)
next
  fix b assume inv: "pty_inv p" and q: "waiter_do e p = Some q" and e: "e = DrainRead b"
  from q e have "pt_waiter p = Draining" "q = p\<lparr>pt_waiter := DrainHolding b, pt_tty := pt_tty p @ b\<rparr>"
    by (auto split: if_splits)
  then show ?thesis using inv by (auto simp: pty_inv_def wake_ok_def gone_ok_def split: option.splits)
qed simp_all

lemma outputs_snoc [simp]: "outputs (got @ [(g, d)]) = outputs got @ (if d = [] then [] else [OutputFrame d])" "outputs [] = []"
  by (simp_all add: outputs_def)

text \<open>A client that leaves with what it has.\<close>

lemma leave_inv: "pty_inv p \<Longrightarrow> pt_stream p \<noteq> None \<Longrightarrow> gone_ok p a \<Longrightarrow> pty_inv (leave a p)"
  by (auto simp: pty_inv_def leave_def gone_ok_def split: option.splits)

lemma gone_ok_tail: "tail_ok (pt_log p) a \<Longrightarrow> gone_ok p a"
  by (auto simp: tail_ok_def gone_ok_def split: pty_tail.splits)

lemma stream_read_inv:
  assumes inv: "pty_inv p" and a: "pt_stream p = Some a" and e: "at_got a = [] \<and> at_frames a = [] \<and> cur = 0 \<or> at_tail a = Tailing \<and> cur = at_cursor a"
    and rd: "ring_Read (pt_replay p) cur = (d, cur', g)"
  shows "gone_ok p a" "tail_ok (pt_log p) (a\<lparr>at_tail := Tailing, at_cursor := cur', at_got := at_got a @ [(g, d)],
      at_frames := at_frames a @ (if d = [] then [] else [OutputFrame d])\<rparr>)" "cur' = int (length (pt_log p))"
proof -
  have r: "ring_repr (pt_replay p) (pt_log p)" and t: "tail_ok (pt_log p) a" using inv a by (auto simp: pty_inv_def)
  then show "gone_ok p a" by (simp add: gone_ok_tail)
  have "pieces_of (pt_log p) (at_got a) \<and> cur = pieces_size (at_got a) \<and> cur \<le> int (length (pt_log p)) \<and> at_frames a = outputs (at_got a)"
    using e t by (auto simp: tail_ok_def)
  then show "tail_ok (pt_log p) (a\<lparr>at_tail := Tailing, at_cursor := cur', at_got := at_got a @ [(g, d)],
      at_frames := at_frames a @ (if d = [] then [] else [OutputFrame d])\<rparr>)" "cur' = int (length (pt_log p))"
    using tail_read [OF r _ _ _ rd, of "at_got a"] by (simp_all add: tail_ok_def)
qed

lemma stream_inv:
  assumes inv: "pty_inv p" and q: "stream_do e p = Some q"
  shows "pty_inv q"
proof -
  have out: "pty_inv (leave b r)" if "pt_stream p = Some a" "gone_ok p b" "r = p \<or> r = p\<lparr>pt_notify := False\<rparr>" for a b r
    using inv that by (auto simp: pty_inv_def leave_def gone_ok_def split: option.splits)
  have stay: "pty_inv (p\<lparr>pt_notify := n, pt_stream := Some b\<rparr>)"
    if "pt_stream p = Some a" "tail_ok (pt_log p) b" "at_cursor b = int (length (pt_log p))" for a b n
    using inv that by (auto simp: pty_inv_def gone_ok_def wake_ok_def split: option.splits)
  note d = deliver_def
  show ?thesis
  proof (cases e)
    case (Attach c)
    then show ?thesis using inv q
      by (auto simp: pty_inv_def attach_error_def gone_ok_def wake_ok_def tail_ok_def split: if_splits option.splits)
  next
    case (SendSnapshot ok)
    with q obtain a where a: "pt_stream p = Some a" "at_tail a = AtSnapshot" "q = stream_snapshot ok a p" by (auto split: option.splits if_splits)
    have at: "at_got a = [] \<and> at_frames a = [] \<and> at_cursor a = 0" using inv a by (auto simp: pty_inv_def tail_ok_def)
    obtain snap cursor gap where r: "ring_Read (pt_replay p) 0 = (snap, cursor, gap)" by (metis surj_pair)
    note s = stream_read_inv [OF inv a(1) _ r]
    have "pty_inv (p\<lparr>pt_notify := pt_notify p, pt_stream := Some (a\<lparr>at_tail := Tailing, at_cursor := cursor, at_got := at_got a @ [(gap, snap)],
        at_frames := at_frames a @ (if snap = [] then [] else [OutputFrame snap])\<rparr>)\<rparr>)"
      by (rule stay [OF a(1)]) (use s at in auto)
    moreover have "pty_inv (leave a p)" using out [OF a(1)] s at by auto
    ultimately show ?thesis using a(3) r at by (cases a) (auto simp: stream_snapshot_def ring_Snapshot_def Let_def d split: if_splits)
  next
    case (Wake ok)
    with q obtain a where a: "pt_stream p = Some a" "at_tail a = Tailing" "q = stream_wake ok a p" by (auto split: option.splits if_splits)
    obtain data cur gap where r: "ring_Read (pt_replay p) (at_cursor a) = (data, cur, gap)" by (metis surj_pair)
    note s = stream_read_inv [OF inv a(1) _ r]
    have "pty_inv (p\<lparr>pt_notify := False, pt_stream := Some (a\<lparr>at_tail := Tailing, at_cursor := cur, at_got := at_got a @ [(gap, data)],
        at_frames := at_frames a @ (if data = [] then [] else [OutputFrame data])\<rparr>)\<rparr>)"
      by (rule stay [OF a(1)]) (use s a(2) in auto)
    moreover have "pty_inv (leave a (p\<lparr>pt_notify := False\<rparr>))" using out [OF a(1)] s a(2) by auto
    ultimately show ?thesis using a(2,3) r by (cases a) (auto simp: stream_wake_def Let_def d split: if_splits)
  next
    case (WakeDone ok ok')
    with q obtain a where a: "pt_stream p = Some a" "at_tail a = Tailing" "pt_done p" "q = stream_end ok ok' a p"
      by (auto split: option.splits if_splits)
    obtain data cur gap where r: "ring_Read (pt_replay p) (at_cursor a) = (data, cur, gap)" by (metis surj_pair)
    note s = stream_read_inv [OF inv a(1) _ r]
    let ?b = "if data = [] then a\<lparr>at_cursor := cur, at_got := at_got a @ [(gap, [])]\<rparr>
      else if ok then deliver gap data (a\<lparr>at_cursor := cur\<rparr>) else a"
    have "pieces_of (pt_log p) (at_got ?b) \<and> at_frames ?b = outputs (at_got ?b)"
      using s a(2) inv a(1) by (auto simp: d tail_ok_def pty_inv_def)
    then have "gone_ok p ?b" "gone_ok p (?b\<lparr>at_frames := at_frames ?b @ [ExitFrame (pt_exitCode p)]\<rparr>)"
      using a(3) by (simp_all only: gone_ok_def attachment.simps) simp_all
    then show ?thesis using a(4) r out [OF a(1)] by (simp add: stream_end_def Let_def)
  next
    case Cancel
    with q obtain a where a: "pt_stream p = Some a" "q = leave a p" by (auto split: option.splits if_splits)
    then show ?thesis using out [OF a(1)] inv by (auto simp: pty_inv_def gone_ok_tail)
  qed (use q in auto)
qed

lemma pty_do_inv: "pty_inv p \<Longrightarrow> pty_do e p = Some q \<Longrightarrow> pty_inv q"
proof (cases "(\<exists>c b now. e = Typed c b now) \<or> e = ClosePty")
  case True
  assume inv: "pty_inv p" and q: "pty_do e p = Some q"
  from True show ?thesis
  proof
    assume "\<exists>c b now. e = Typed c b now"
    then obtain c b now where "q = WriteStdin c b now p" using q by auto
    then show ?thesis by (intro pty_inv_same [OF inv]) (simp_all add: WriteStdin_def)
  next
    assume "e = ClosePty"
    then have "q = pty_Close p" using q by simp
    then show ?thesis by (intro pty_inv_same [OF inv]) (simp_all add: pty_Close_def)
  qed
next
  case False
  assume inv: "pty_inv p" and q: "pty_do e p = Some q"
  have "pty_do e p = (case reader_do e p of Some q \<Rightarrow> Some q | None \<Rightarrow> (case waiter_do e p of Some q \<Rightarrow> Some q | None \<Rightarrow> stream_do e p))"
  proof (cases e)
    case (Typed c b now)
    then show ?thesis using False by blast
  next
    case ClosePty
    then show ?thesis using False by blast
  qed (simp_all only: pty_do.simps)
  then consider "reader_do e p = Some q" | "waiter_do e p = Some q" | "stream_do e p = Some q"
    using q by (auto split: option.splits)
  then show ?thesis by cases (erule reader_inv [OF inv] waiter_inv [OF inv] stream_inv [OF inv])+
qed

lemma pty_run_inv: "pty_inv p \<Longrightarrow> pty_run es p = Some q \<Longrightarrow> pty_inv q"
  by (induction es arbitrary: p) (auto dest: pty_do_inv split: option.splits)

section \<open>Properties\<close>

text \<open>C15: What a client of a terminal has been sent is the terminal's log with gaps cut out that the ring accounts for: no byte twice, none
  out of order, none skipped without being counted. The exit code comes last, once, and only when the process has ended.\<close>

theorem pty_stream_exact:
  assumes "pty_run es (newPTY t) = Some p" and "a \<in> set (pt_gone p) \<or> pt_stream p = Some a"
  shows "pieces_of (pt_log p) (at_got a)
    \<and> (at_frames a = outputs (at_got a) \<or> at_frames a = outputs (at_got a) @ [ExitFrame (pt_exitCode p)] \<and> pt_done p)"
proof -
  have inv: "pty_inv p" using pty_run_inv [OF newPTY_inv assms(1)] .
  then have "gone_ok p a" using assms(2) gone_ok_tail by (auto simp: pty_inv_def)
  then show ?thesis by (simp add: gone_ok_def)
qed

lemma wake_run:
  assumes "pty_inv p" "pt_stream p = Some a" "at_tail a = Tailing" "pt_notify p"
  shows "\<exists>q b. pty_do (Wake True) p = Some q \<and> pt_stream q = Some b \<and> at_client b = at_client a \<and> pt_log q = pt_log p
    \<and> pieces_size (at_got b) = int (length (pt_log p))"
proof -
  obtain data cur gap where r: "ring_Read (pt_replay p) (at_cursor a) = (data, cur, gap)" by (metis surj_pair)
  from stream_read_inv [OF assms(1,2) _ r] assms(3)
  have "pieces_size (at_got a @ [(gap, data)]) = int (length (pt_log p))" by (auto simp: tail_ok_def)
  then show ?thesis using assms r by (auto simp: stream_wake_def deliver_def Let_def)
qed

lemma end_run:
  assumes "pty_inv p" "pt_stream p = Some a" "at_tail a = Tailing" "pt_done p"
  shows "\<exists>q b. pty_do (WakeDone True True) p = Some q \<and> b \<in> set (pt_gone q) \<and> at_client b = at_client a \<and> pt_log q = pt_log p
    \<and> pieces_size (at_got b) = int (length (pt_log p)) \<and> last (at_frames b) = ExitFrame (pt_exitCode p)"
proof -
  obtain data cur gap where r: "ring_Read (pt_replay p) (at_cursor a) = (data, cur, gap)" by (metis surj_pair)
  from stream_read_inv [OF assms(1,2) _ r] assms(3)
  have "pieces_size (at_got a @ [(gap, data)]) = int (length (pt_log p))" by (auto simp: tail_ok_def)
  then show ?thesis using assms r by (auto simp: stream_end_def deliver_def leave_def Let_def)
qed

text \<open>C14: No client is left waiting: from wherever it follows a terminal, the terminal's own goroutines bring it up to date without a further byte of
  output or a new notification; and when the process has ended, it gets the rest and then the exit code.\<close>

theorem pty_never_stuck:
  assumes run: "pty_run es (newPTY t) = Some p" and a: "pt_stream p = Some a" "at_tail a = Tailing"
  shows "\<exists>es' q b. set es' \<subseteq> {Ping, DrainStore, Reap, Wake True, WakeDone True True} \<and> pty_run es' p = Some q \<and> at_client b = at_client a
    \<and> pieces_size (at_got b) = int (length (pt_log q))
    \<and> (if pt_waiter p = Waiting then pt_stream q = Some b else b \<in> set (pt_gone q) \<and> last (at_frames b) = ExitFrame (pt_exitCode p))"
proof -
  have inv: "pty_inv p" using pty_run_inv [OF newPTY_inv run] .
  let ?goal = "\<lambda>es'. \<exists>q b. pty_run es' p = Some q \<and> at_client b = at_client a \<and> pieces_size (at_got b) = int (length (pt_log q))
    \<and> (if pt_waiter p = Waiting then pt_stream q = Some b else b \<in> set (pt_gone q) \<and> last (at_frames b) = ExitFrame (pt_exitCode p))"
  have ended: "?goal (es' @ [WakeDone True True])" if "pty_run es' p = Some p'" "pt_done p'" "pt_stream p' = Some a" "pt_waiter p \<noteq> Waiting"
      "pt_exitCode p' = pt_exitCode p" for es' p'
  proof -
    have app: "pty_run (xs @ ys) r = (case pty_run xs r of None \<Rightarrow> None | Some r' \<Rightarrow> pty_run ys r')" for xs ys r
      by (induction xs arbitrary: r) (auto split: option.splits)
    from end_run [OF pty_run_inv [OF inv that(1)] that(3) a(2) that(2)] that a(2) show ?thesis by (auto simp: app)
  qed
  consider (idle) "pt_waiter p = Waiting" | (draining) "pt_waiter p = Draining" | (holding) b where "pt_waiter p = DrainHolding b"
    | (reaped) "pt_waiter p = Reaped" by (cases "pt_waiter p") auto
  then show ?thesis
  proof cases
    case idle
    have "tail_ok (pt_log p) a" "wake_ok p a" using inv a(1) by (simp_all add: pty_inv_def)
    then consider (level) "pieces_size (at_got a) = int (length (pt_log p))" | (wake) "pt_notify p" | (stored) "pt_reader p = Stored"
      using idle a(2) by (auto simp: wake_ok_def tail_ok_def)
    then show ?thesis
    proof cases
      case level
      then have "?goal []" using idle a by simp
      then show ?thesis by (intro exI [of _ "[]"]) simp
    next
      case wake
      have "?goal [Wake True]" using wake_run [OF inv a wake] idle by auto
      then show ?thesis by (intro exI [of _ "[Wake True]"]) simp
    next
      case stored
      let ?q = "p\<lparr>pt_notify := True, pt_reader := Reading\<rparr>"
      have q: "pty_do Ping p = Some ?q" using stored by simp
      then have "?goal [Ping, Wake True]" using wake_run [OF pty_do_inv [OF inv q], of a] a idle by auto
      then show ?thesis by (intro exI [of _ "[Ping, Wake True]"]) simp
    qed
  next
    case draining
    have "?goal ([Reap] @ [WakeDone True True])" 
      by (rule ended [where p' = "p\<lparr>pt_open := False, pt_done := True, pt_notify := True, pt_waiter := Reaped\<rparr>"]) (use draining a in simp_all)
    then show ?thesis by (intro exI [of _ "[Reap, WakeDone True True]"]) simp
  next
    case holding
    have "?goal ([DrainStore, Reap] @ [WakeDone True True])" 
      by (rule ended [where p' = "(replay_write b p)\<lparr>pt_open := False, pt_done := True, pt_notify := True, pt_waiter := Reaped\<rparr>"])
        (use holding a in \<open>simp_all add: replay_write_def\<close>)
    then show ?thesis by (intro exI [of _ "[DrainStore, Reap, WakeDone True True]"]) simp
  next
    case reaped
    then have "pt_done p" using inv by (simp add: pty_inv_def)
    then have "?goal ([] @ [WakeDone True True])" by (intro ended [where p' = p]) (use reaped a in simp_all)
    then show ?thesis by (intro exI [of _ "[WakeDone True True]"]) simp
  qed
qed

text \<open>The bytes that the reading goroutine has taken from the terminal and not stored.\<close>

definition held :: "pty \<Rightarrow> bytes" where
  "held p = (case pt_reader p of Holding b \<Rightarrow> b | _ \<Rightarrow> [])"

lemma order_step:
  assumes "pty_do e p = Some q" "pt_waiter q = Waiting" "pt_waiter p = Waiting \<Longrightarrow> pt_tty p = pt_log p @ held p"
  shows "pt_tty q = pt_log q @ held q"
proof (cases e)
  case (SendSnapshot ok)
  then show ?thesis using assms
    by (auto simp: stream_snapshot_def leave_def held_def Let_def split: option.splits if_splits prod.splits)
next
  case (Wake ok)
  then show ?thesis using assms
    by (auto simp: stream_wake_def leave_def held_def Let_def split: option.splits if_splits prod.splits)
next
  case (WakeDone ok ok')
  then show ?thesis using assms
    by (auto simp: stream_end_def leave_def held_def Let_def split: option.splits if_splits prod.splits)
qed (use assms in \<open>auto simp: replay_write_def WriteStdin_def pty_Close_def leave_def held_def split: option.splits if_splits pty_reader.splits pty_waiter.splits\<close>)

lemma order_run:
  "pty_run es p = Some q \<Longrightarrow> pt_waiter q = Waiting \<Longrightarrow> (pt_waiter p = Waiting \<Longrightarrow> pt_tty p = pt_log p @ held p) \<Longrightarrow> pt_tty q = pt_log q @ held q"
proof (induction es arbitrary: p)
  case (Cons e es)
  then obtain p' where p': "pty_do e p = Some p'" "pty_run es p' = Some q" by (auto split: option.splits)
  show ?case by (rule Cons.IH [OF p'(2) Cons.prems(2)]) (use order_step [OF p'(1)] Cons.prems(3) in blast)
qed auto

text \<open>While the process runs, the log is the terminal's output in its order. After its end two goroutines read the
  terminal, and what one of them holds can be stored after what the other has read later: the last output of a program can appear in the wrong order.\<close>

theorem pty_output_order:
  assumes "pty_run es (newPTY t) = Some p" "pt_waiter p = Waiting"
  shows "pt_tty p = pt_log p @ held p
    \<and> (pt_open p \<and> pt_reader p = Reading \<longrightarrow> (\<exists>es' q. pty_run es' p = Some q \<and> pt_tty q = pt_tty p @ ''ab'' \<and> pt_log q = pt_log p @ ''ba''))"
proof (intro conjI impI)
  show "pt_tty p = pt_log p @ held p" by (rule order_run [OF assms]) (simp add: newPTY_def held_def)
  assume "pt_open p \<and> pt_reader p = Reading"
  then have "\<exists>q. pty_run [ReadTty ''a'', Exited 0, DrainRead ''b'', DrainStore, StoreTty 0] p = Some q
      \<and> pt_tty q = pt_tty p @ ''ab'' \<and> pt_log q = pt_log p @ ''ba''"
    using assms(2) by (simp add: PTYReadBuf_def replay_write_def)
  then show "\<exists>es' q. pty_run es' p = Some q \<and> pt_tty q = pt_tty p @ ''ab'' \<and> pt_log q = pt_log p @ ''ba''" by blast
qed

section \<open>How many terminals\<close>

definition slots :: "pty_manager \<Rightarrow> (nat \<times> string) set" where
  "slots m = set (ptm_spawned m) \<union> set (ptm_owned m)"

definition manager_inv :: "pty_manager \<Rightarrow> bool" where
  "manager_inv m \<longleftrightarrow> ptm_sem m = ptm_reserved m + length (ptm_spawned m) + length (ptm_owned m) \<and> ptm_sem m \<le> PTYMaxConcurrent
     \<and> (\<forall>p \<in> set (ptm_heap m). pty_inv p)
     \<and> (\<forall>n < length (ptm_heap m). \<not> pt_closed (ptm_heap m ! n) \<longrightarrow> n \<in> fst ` slots m)
     \<and> (\<forall>x \<in> slots m. fst x < length (ptm_heap m))"

lemma pty_do_closed: "pty_do e p = Some q \<Longrightarrow> pt_closed p \<Longrightarrow> pt_closed q"
proof (cases e)
  case (SendSnapshot ok)
  then show "pty_do e p = Some q \<Longrightarrow> pt_closed p \<Longrightarrow> pt_closed q"
    by (auto simp: stream_snapshot_def leave_def Let_def split: option.splits if_splits prod.splits)
next
  case (Wake ok)
  then show "pty_do e p = Some q \<Longrightarrow> pt_closed p \<Longrightarrow> pt_closed q"
    by (auto simp: stream_wake_def leave_def Let_def split: option.splits if_splits prod.splits)
next
  case (WakeDone ok ok')
  then show "pty_do e p = Some q \<Longrightarrow> pt_closed p \<Longrightarrow> pt_closed q"
    by (auto simp: stream_end_def leave_def Let_def split: option.splits if_splits prod.splits)
qed (auto simp: replay_write_def WriteStdin_def pty_Close_def leave_def attach_error_def split: option.splits if_splits pty_reader.splits pty_waiter.splits)

lemma remove1_fst: "k \<in> fst ` set xs \<Longrightarrow> k \<noteq> n \<Longrightarrow> k \<in> fst ` set (remove1 (n, i) xs)"
  by (induction xs) auto

lemma length_remove1_in: "x \<in> set xs \<Longrightarrow> Suc (length (remove1 x xs)) = length xs"
  using length_pos_if_in_set [of x xs] by (simp add: length_remove1)

lemma remove1_sub: "set (remove1 y xs) \<subseteq> set xs"
  by (rule set_remove1_subset)

lemma pty_Close_inv: "pty_inv p \<Longrightarrow> pty_inv (pty_Close p)"
  using pty_do_inv [of p ClosePty] by simp

lemma slots_heap [simp]: "slots (m\<lparr>ptm_heap := h\<rparr>) = slots m"
  by (simp add: slots_def)

lemma manager_invD:
  assumes "manager_inv m"
  shows "ptm_sem m = ptm_reserved m + length (ptm_spawned m) + length (ptm_owned m)" "ptm_sem m \<le> PTYMaxConcurrent"
    "p \<in> set (ptm_heap m) \<Longrightarrow> pty_inv p" "n < length (ptm_heap m) \<Longrightarrow> \<not> pt_closed (ptm_heap m ! n) \<Longrightarrow> n \<in> fst ` slots m"
    "x \<in> slots m \<Longrightarrow> fst x < length (ptm_heap m)"
  using assms by (auto simp: manager_inv_def)

lemma manager_invI:
  assumes "ptm_sem m = ptm_reserved m + length (ptm_spawned m) + length (ptm_owned m)" "ptm_sem m \<le> PTYMaxConcurrent"
    "\<And>p. p \<in> set (ptm_heap m) \<Longrightarrow> pty_inv p" "\<And>n. n < length (ptm_heap m) \<Longrightarrow> \<not> pt_closed (ptm_heap m ! n) \<Longrightarrow> n \<in> fst ` slots m"
    "\<And>x. x \<in> slots m \<Longrightarrow> fst x < length (ptm_heap m)"
  shows "manager_inv m"
  using assms unfolding manager_inv_def by (auto dest: assms(5))

text \<open>A step that only touches the heap, and leaves no closed terminal open.\<close>

lemma manager_heap_inv:
  assumes inv: "manager_inv m" and n: "n < length (ptm_heap m)" and p: "pty_inv p" "pt_closed (ptm_heap m ! n) \<Longrightarrow> pt_closed p"
  shows "manager_inv (m\<lparr>ptm_heap := (ptm_heap m)[n := p]\<rparr>)"
proof (rule manager_invI)
  show "pty_inv q" if "q \<in> set (ptm_heap (m\<lparr>ptm_heap := (ptm_heap m)[n := p]\<rparr>))" for q
    using that set_update_subset_insert [of "ptm_heap m" n p] p(1) manager_invD(3) [OF inv] by auto
  show "k \<in> fst ` slots (m\<lparr>ptm_heap := (ptm_heap m)[n := p]\<rparr>)"
    if "k < length (ptm_heap (m\<lparr>ptm_heap := (ptm_heap m)[n := p]\<rparr>))" "\<not> pt_closed (ptm_heap (m\<lparr>ptm_heap := (ptm_heap m)[n := p]\<rparr>) ! k)" for k
    using that manager_invD(4) [OF inv, of k] p(2) n by (cases "k = n") auto
qed (use manager_invD [OF inv] in auto)

lemma manager_inv_other [simp]: "manager_inv (m\<lparr>ptm_doomed := ds\<rparr>) = manager_inv m" "manager_inv (m\<lparr>ptm_ptys := t\<rparr>) = manager_inv m"
  "manager_inv (m\<lparr>ptm_released := rs\<rparr>) = manager_inv m" "manager_inv (m\<lparr>ptm_ptys := t, ptm_doomed := ds\<rparr>) = manager_inv m"
  "manager_inv (m\<lparr>ptm_ptys := t, ptm_released := rs\<rparr>) = manager_inv m" "manager_inv (m\<lparr>ptm_doomed := ds, ptm_heap := h\<rparr>) = manager_inv (m\<lparr>ptm_heap := h\<rparr>)"
  by (simp_all add: manager_inv_def slots_def)

text \<open>A step that moves slots: only a closed terminal loses its own.\<close>

lemma manager_slots_inv:
  assumes "manager_inv m" "ptm_heap m' = ptm_heap m" "ptm_sem m' = ptm_reserved m' + length (ptm_spawned m') + length (ptm_owned m')"
    "ptm_sem m' \<le> PTYMaxConcurrent" "slots m' \<subseteq> slots m"
    "\<And>k. k \<in> fst ` slots m \<Longrightarrow> k < length (ptm_heap m) \<Longrightarrow> k \<notin> fst ` slots m' \<Longrightarrow> pt_closed (ptm_heap m ! k)"
  shows "manager_inv m'"
proof (rule manager_invI)
  show "k \<in> fst ` slots m'" if "k < length (ptm_heap m')" "\<not> pt_closed (ptm_heap m' ! k)" for k
    using that assms(2,6) manager_invD(4) [OF assms(1), of k] by auto
  show "pty_inv p" if "p \<in> set (ptm_heap m')" for p using that assms(2) manager_invD(3) [OF assms(1)] by simp
  show "fst x < length (ptm_heap m')" if "x \<in> slots m'" for x using that assms(2,5) manager_invD(5) [OF assms(1), of x] by auto
qed (use assms in auto)

lemma install_inv:
  assumes inv: "manager_inv m" and n: "(n, i) \<in> set (ptm_spawned m)"
  shows "manager_inv (get_install n i m)"
proof (cases "live_pty m i")
  case None
  show ?thesis
  proof (rule manager_slots_inv [OF inv])
    show "slots (get_install n i m) \<subseteq> slots m"
      using None n set_remove1_subset [of "(n, i)" "ptm_spawned m"] by (auto simp: get_install_def slots_def)
    show "pt_closed (ptm_heap m ! k)" if "k \<in> fst ` slots m" "k \<notin> fst ` slots (get_install n i m)" for k
    proof -
      have "k \<in> fst ` set (ptm_spawned m) \<or> k \<in> fst ` set (ptm_owned m)" using that(1) by (auto simp: slots_def)
      then have "k \<in> fst ` slots (get_install n i m)"
        using None remove1_fst [of k "ptm_spawned m" n i] by (cases "k = n") (auto simp: get_install_def slots_def image_Un)
      then show ?thesis using that(2) by blast
    qed
  qed (use None inv length_remove1_in [OF n] in \<open>simp_all add: get_install_def manager_inv_def\<close>)
next
  case (Some k0)
  have len: "n < length (ptm_heap m)" using manager_invD(5) [OF inv, of "(n, i)"] n by (simp add: slots_def)
  then have inv': "manager_inv (close_at n m)"
    unfolding close_at_def
    by (intro manager_heap_inv [OF inv] pty_Close_inv manager_invD(3) [OF inv] nth_mem) (simp_all add: pty_Close_def)
  have heap: "ptm_heap (get_install n i m) = ptm_heap (close_at n m)" using Some by (simp add: get_install_def close_at_def)
  show ?thesis
  proof (rule manager_slots_inv [OF inv' heap])
    show "slots (get_install n i m) \<subseteq> slots (close_at n m)"
      using Some n set_remove1_subset [of "(n, i)" "ptm_spawned m"] by (auto simp: get_install_def slots_def close_at_def)
    show "pt_closed (ptm_heap (close_at n m) ! k)" if "k \<in> fst ` slots (close_at n m)" "k \<notin> fst ` slots (get_install n i m)" for k
    proof (cases "k = n")
      case True
      then show ?thesis using len by (simp add: close_at_def pty_Close_def)
    next
      case False
      have "k \<in> fst ` set (ptm_spawned m) \<or> k \<in> fst ` set (ptm_owned m)" using that(1) by (auto simp: slots_def close_at_def)
      then have "k \<in> fst ` slots (get_install n i m)"
        using Some False remove1_fst [of k "ptm_spawned m" n i] by (auto simp: get_install_def slots_def close_at_def image_Un)
      then show ?thesis using that(2) by blast
    qed
    show "ptm_sem (get_install n i m) \<le> PTYMaxConcurrent" using Some manager_invD(2) [OF inv] by (simp add: get_install_def)
    show "ptm_sem (get_install n i m) = ptm_reserved (get_install n i m) + length (ptm_spawned (get_install n i m)) + length (ptm_owned (get_install n i m))"
      using Some manager_invD(1) [OF inv] length_remove1_in [OF n] by (simp add: get_install_def close_at_def)
  qed
qed

lemma release_inv:
  assumes inv: "manager_inv m" and n: "(n, i) \<in> set (ptm_owned m)" "pt_done (ptm_heap m ! n)"
  shows "manager_inv (m\<lparr>ptm_sem := ptm_sem m - 1, ptm_owned := remove1 (n, i) (ptm_owned m), ptm_released := rs\<rparr>)" (is "manager_inv ?m")
proof (rule manager_slots_inv [OF inv])
  show "slots ?m \<subseteq> slots m" using set_remove1_subset [of "(n, i)" "ptm_owned m"] by (auto simp: slots_def)
  show "pt_closed (ptm_heap m ! k)" if "k \<in> fst ` slots m" "k < length (ptm_heap m)" "k \<notin> fst ` slots ?m" for k
  proof (cases "k = n")
    case True
    then have "pty_inv (ptm_heap m ! n)" using that(2) inv by (auto simp: manager_inv_def)
    then show ?thesis using n(2) True by (simp add: pty_inv_def)
  next
    case False
    have "k \<in> fst ` set (ptm_spawned m) \<or> k \<in> fst ` set (ptm_owned m)" using that(1) by (auto simp: slots_def)
    then have "k \<in> fst ` slots ?m" using False remove1_fst [of k "ptm_owned m" n i] by (auto simp: slots_def image_Un)
    then show ?thesis using that(3) by blast
  qed
  show "ptm_sem ?m \<le> PTYMaxConcurrent" using manager_invD(2) [OF inv] by simp
  show "ptm_sem ?m = ptm_reserved ?m + length (ptm_spawned ?m) + length (ptm_owned ?m)"
    using manager_invD(1) [OF inv] length_remove1_in [OF n(1)] by simp
qed simp

lemma spawn_inv:
  assumes inv: "manager_inv m" and r: "ptm_reserved m \<noteq> 0"
  shows "manager_inv (m\<lparr>ptm_reserved := ptm_reserved m - 1, ptm_heap := ptm_heap m @ [newPTY now],
    ptm_spawned := ptm_spawned m @ [(length (ptm_heap m), i)]\<rparr>)" (is "manager_inv ?m")
proof -
  have s: "slots ?m = insert (length (ptm_heap m), i) (slots m)" by (auto simp: slots_def)
  have "k \<in> fst ` slots ?m" if "k < length (ptm_heap ?m)" "\<not> pt_closed (ptm_heap ?m ! k)" for k
  proof (cases "k < length (ptm_heap m)")
    case True
    then have "k \<in> fst ` slots m" using that inv by (auto simp: manager_inv_def nth_append)
    then show ?thesis unfolding s by auto
  next
    case False
    then have "k = length (ptm_heap m)" using that(1) by simp
    then show ?thesis unfolding s by simp
  qed
  moreover have "\<forall>x \<in> slots ?m. fst x < length (ptm_heap ?m)" unfolding s using manager_invD(5) [OF inv] by (auto simp: less_SucI)
  ultimately show ?thesis using manager_invD(1-3) [OF inv] r newPTY_inv by (intro manager_invI) auto
qed

lemma manager_do_inv:
  assumes inv: "manager_inv m" and m': "manager_do a m = Some m'"
  shows "manager_inv m'"
proof (cases a)
  case (GetFirst i)
  then have e: "m' = snd (get_first m i)" using m' by simp
  show ?thesis
  proof (cases "live_pty m i = None \<and> ptm_sem m < PTYMaxConcurrent")
    case True
    then have m'': "m' = m\<lparr>ptm_sem := Suc (ptm_sem m), ptm_reserved := Suc (ptm_reserved m)\<rparr>" unfolding e by (simp add: get_first_def)
    show ?thesis unfolding m'' using True manager_invD(1) [OF inv] by (intro manager_slots_inv [OF inv]) (simp_all add: slots_def)
  next
    case False
    then have "m' = m" unfolding e by (cases "live_pty m i") (simp_all add: get_first_def)
    then show ?thesis using inv by simp
  qed
next
  case SpawnFails
  then have r: "ptm_reserved m \<noteq> 0" and m'': "m' = m\<lparr>ptm_reserved := ptm_reserved m - 1, ptm_sem := ptm_sem m - 1\<rparr>"
    using m' by (simp_all split: if_splits)
  show ?thesis unfolding m'' using r manager_invD(1,2) [OF inv] by (intro manager_slots_inv [OF inv]) (simp_all add: slots_def)
next
  case (Spawn i now)
  then show ?thesis using m' spawn_inv [OF inv] by (auto split: if_splits)
next
  case (Install n i)
  then show ?thesis using m' install_inv [OF inv] by (auto split: if_splits)
next
  case (PtyEvent n e)
  then obtain p where p: "n < length (ptm_heap m)" "pty_do e (ptm_heap m ! n) = Some p" "m' = m\<lparr>ptm_heap := (ptm_heap m)[n := p]\<rparr>"
    using m' by (auto split: if_splits)
  have "pty_inv (ptm_heap m ! n)" using inv p(1) by (auto simp: manager_inv_def)
  then show ?thesis unfolding p(3) by (intro manager_heap_inv [OF inv p(1)] pty_do_inv [OF _ p(2)] pty_do_closed [OF p(2)])
next
  case (ReleaseSlot n i)
  then show ?thesis using m' release_inv [OF inv] by (auto split: if_splits)
next
  case (ForgetEntry n i)
  then show ?thesis using inv m' by (auto split: if_splits)
next
  case (CloseDoomed n)
  then have n: "n < length (ptm_heap m)" "m' = close_at n (m\<lparr>ptm_doomed := remove1 n (ptm_doomed m)\<rparr>)" using m' by (auto split: if_splits)
  have "pty_inv (ptm_heap m ! n)" using inv n(1) by (auto simp: manager_inv_def)
  moreover have "pt_closed (pty_Close (ptm_heap m ! n))" by (simp add: pty_Close_def)
  ultimately have "manager_inv (m\<lparr>ptm_heap := (ptm_heap m)[n := pty_Close (ptm_heap m ! n)]\<rparr>)"
    by (intro manager_heap_inv [OF inv n(1)] pty_Close_inv)
  then show ?thesis unfolding n(2) close_at_def by simp
qed (use inv m' in \<open>auto split: option.splits\<close>)

lemma manager_run_inv: "manager_inv m \<Longrightarrow> manager_run as m = Some m' \<Longrightarrow> manager_inv m'"
  by (induction as arbitrary: m) (auto dest: manager_do_inv split: option.splits)

lemma NewPTYManager_inv: "manager_inv NewPTYManager"
  by (simp add: manager_inv_def NewPTYManager_def slots_def)

text \<open>C16: Whatever the requests, the races between them and the ends of the processes, at most 32 terminals are open at a time, and no slot is
  lost: the slots taken are those of the creations under way and of the terminals whose end has not been seen.\<close>

theorem ptys_bounded:
  assumes "manager_run as NewPTYManager = Some m"
  shows "card {n. n < length (ptm_heap m) \<and> \<not> IsClosed (ptm_heap m ! n)} \<le> ptm_sem m \<and> ptm_sem m \<le> PTYMaxConcurrent
    \<and> ptm_sem m = ptm_reserved m + length (ptm_spawned m) + length (ptm_owned m)"
proof -
  have inv: "manager_inv m" using manager_run_inv [OF NewPTYManager_inv assms] .
  have "{n. n < length (ptm_heap m) \<and> \<not> IsClosed (ptm_heap m ! n)} \<subseteq> set (map fst (ptm_spawned m @ ptm_owned m))"
    using inv by (auto simp: manager_inv_def IsClosed_def slots_def)
  from card_mono [OF finite_set this]
  have "card {n. n < length (ptm_heap m) \<and> \<not> IsClosed (ptm_heap m ! n)} \<le> length (ptm_spawned m @ ptm_owned m)"
    using card_length [of "map fst (ptm_spawned m @ ptm_owned m)"] by simp
  then show ?thesis using manager_invD(1,2) [OF inv] by simp
qed

section \<open>Instances\<close>

definition demo_ring :: ring where "demo_ring = fst (ring_Write (pt_replay (newPTY 0)) ''hi'')"

lemma demo_reads:
  "ring_Read (pt_replay (newPTY 0)) 0 = ([], 0, 0)" "ring_Read demo_ring 0 = (''hi'', 2, 0)" "ring_Read demo_ring 2 = ([], 2, 0)"
proof -
  have r: "ring_repr (pt_replay (newPTY 0)) []" using newPTY_inv [of 0] by (simp add: pty_inv_def newPTY_def)
  have c: "rcap (pt_replay (newPTY 0)) = 65536" by (simp add: newPTY_def NewRing_def PTYReplaySize_def)
  have r': "ring_repr demo_ring ''hi''" using ring_Write_repr [OF r, of "''hi''"] by (simp add: demo_ring_def)
  have c': "rcap demo_ring = 65536" using c by (simp add: demo_ring_def)
  show "ring_Read (pt_replay (newPTY 0)) 0 = ([], 0, 0)" "ring_Read demo_ring 0 = (''hi'', 2, 0)" "ring_Read demo_ring 2 = ([], 2, 0)"
    by (simp_all add: ring_Read_repr [OF r] ring_Read_repr [OF r'] c c' log_read_def Let_def)
qed

definition demo_following :: pty where
  "demo_following = (newPTY 0)\<lparr>pt_attached := True, pt_replay := demo_ring, pt_log := ''hi'', pt_tty := ''hi'', pt_reader := Stored,
     pt_stream := Some \<lparr>at_client = 1, at_tail = Tailing, at_cursor = 0, at_got = [(0, [])], at_frames = []\<rparr>\<rparr>"

definition demo_client :: attachment where
  "demo_client = \<lparr>at_client = 1, at_tail = Tailing, at_cursor = 2, at_got = [(0, []), (0, ''hi''), (0, [])],
     at_frames = [OutputFrame ''hi'', ExitFrame 3]\<rparr>"

definition demo_ended :: pty where
  "demo_ended = (newPTY 0)\<lparr>pt_replay := demo_ring, pt_log := ''hi'', pt_tty := ''hi'', pt_closed := True, pt_exitCode := 3, pt_done := True,
     pt_open := False, pt_notify := True, pt_waiter := Reaped, pt_gone := [demo_client]\<rparr>"

lemma demo_end: "pt_gone demo_ended = [demo_client]" "at_frames demo_client = [OutputFrame ''hi'', ExitFrame 3]" "pt_log demo_ended = ''hi''"
  by (simp_all add: demo_ended_def demo_client_def)

lemma demo_runs:
  "pty_run [Attach 1, SendSnapshot True, ReadTty ''hi'', StoreTty 0] (newPTY 0) = Some demo_following"
  "pty_run [Attach 1, SendSnapshot True, ReadTty ''hi'', StoreTty 0, Ping, Wake True, Exited 3, Reap, WakeDone True True] (newPTY 0)
     = Some demo_ended"
proof -
  define r where "r = pt_replay (newPTY 0)"
  have n: "newPTY 0 = \<lparr>pt_replay = r, pt_notify = False, pt_attached = False, pt_closed = False, pt_exitCode = -1,
     pt_lastUsed = 0, pt_done = False, pt_open = True, pt_reader = Reading, pt_waiter = Waiting, pt_stream = None, pt_gone = [],
     pt_tty = [], pt_log = [], pt_typed = []\<rparr>" by (simp add: newPTY_def r_def)
  have w: "fst (ring_Write r ''hi'') = demo_ring" by (simp add: demo_ring_def r_def)
  note d = demo_reads [folded r_def]
  show "pty_run [Attach 1, SendSnapshot True, ReadTty ''hi'', StoreTty 0] (newPTY 0) = Some demo_following"
    unfolding demo_following_def n
    by (simp add: attach_error_def stream_snapshot_def ring_Snapshot_def d PTYReadBuf_def replay_write_def w)
  show "pty_run [Attach 1, SendSnapshot True, ReadTty ''hi'', StoreTty 0, Ping, Wake True, Exited 3, Reap, WakeDone True True] (newPTY 0)
     = Some demo_ended"
    unfolding demo_ended_def demo_client_def n
    by (simp add: attach_error_def stream_snapshot_def stream_wake_def stream_end_def deliver_def leave_def ring_Snapshot_def d PTYReadBuf_def replay_write_def w)
qed

text \<open>A client follows a terminal to its end.\<close>

theorem pty_stream_exact_witness:
  "\<exists>p a. pty_run [Attach 1, SendSnapshot True, ReadTty ''hi'', StoreTty 0, Ping, Wake True, Exited 3, Reap, WakeDone True True] (newPTY 0) = Some p
    \<and> pt_gone p = [a] \<and> at_frames a = [OutputFrame ''hi'', ExitFrame 3] \<and> pieces_of (pt_log p) (at_got a) \<and> pt_log p = ''hi''"
proof -
  have "demo_client \<in> set (pt_gone demo_ended)" by (simp add: demo_end)
  then show ?thesis using pty_stream_exact [OF demo_runs(2), of demo_client] demo_runs(2) demo_end by blast
qed

text \<open>Output is stored and nobody has been told.\<close>

theorem pty_never_stuck_witness:
  "\<exists>es' q b. set es' \<subseteq> {Ping, DrainStore, Reap, Wake True, WakeDone True True} \<and> pty_run es' demo_following = Some q \<and> at_client b = 1
    \<and> pieces_size (at_got b) = int (length (pt_log q)) \<and> pt_stream q = Some b"
  using pty_never_stuck [OF demo_runs(1), of "\<lparr>at_client = 1, at_tail = Tailing, at_cursor = 0, at_got = [(0, [])], at_frames = []\<rparr>"]
  by (simp add: demo_following_def newPTY_def)

theorem pty_output_order_witness: "\<exists>es' q. pty_run es' (newPTY 0) = Some q \<and> pt_tty q = ''ab'' \<and> pt_log q = ''ba''"
  using pty_output_order [of "[]" 0 "newPTY 0"] by (simp add: newPTY_def)

text \<open>Two requests for one terminal: both reserve, both start a process, and the second one is closed.\<close>

theorem ptys_bounded_witness:
  "\<exists>m. manager_run [GetFirst ''a'', GetFirst ''a'', Spawn ''a'' 0, Spawn ''a'' 0, Install 1 ''a'', Install 0 ''a''] NewPTYManager = Some m
    \<and> ptm_sem m = 1 \<and> card {n. n < length (ptm_heap m) \<and> \<not> IsClosed (ptm_heap m ! n)} \<le> ptm_sem m \<and> ptm_ptys m ''a'' = Some 1"
proof -
  let ?as = "[GetFirst ''a'', GetFirst ''a'', Spawn ''a'' 0, Spawn ''a'' 0, Install 1 ''a'', Install 0 ''a'']"
  have n: "\<not> IsClosed (newPTY 0)" by (simp add: IsClosed_def newPTY_def)
  obtain m where m: "manager_run ?as NewPTYManager = Some m" "ptm_sem m = 1" "ptm_ptys m ''a'' = Some 1"
    by (simp add: NewPTYManager_def get_first_def live_pty_def PTYMaxConcurrent_def get_install_def close_at_def n)
  from ptys_bounded [OF m(1)] m show ?thesis by blast
qed

end
