(* ===== verification/Shell_Background.thy ===== *)
theory Shell_Background
  imports Shell_Ring
begin

text \<open>
  The supervisor of background commands (\<open>pkg/shell/background.go\<close>). A command is a heap
  object shared by the id table and by the goroutine that waits for its process, so commands
  live in a list and are addressed by index: an entry of the table may go (\<open>Forget\<close>,
  \<open>gcOnce\<close>) while the waiting goroutine still holds the object. Process creation, the exit of
  a process, random bytes and the clock are inputs of the steps. \<open>bg_step\<close> collects the steps
  and \<open>bg_reachable\<close> the states they lead to.
\<close>

section \<open>Data\<close>

datatype bg_state = BgRunning | BgCompleted | BgFailed | BgInterrupted

record bg_cmd =
  bg_id :: string
  bg_command :: string
  bg_execDir :: string
  bg_logs :: ring
  bg_startedAt :: instant
  bg_status :: bg_state
  bg_pid :: int
  bg_exitCode :: int
  bg_finishedAt :: "instant option" \<comment> \<open>\<open>None\<close> is the zero time\<close>
  bg_err :: string

record bg_mgr =
  bg_heap :: "bg_cmd list" \<comment> \<open>every command object ever started\<close>
  bg_commands :: "string \<rightharpoonup> nat" \<comment> \<open>the table, to addresses of the heap\<close>
  bg_sem :: nat \<comment> \<open>slots of the semaphore channel in use\<close>
  bg_stopped :: bool
  bg_counter :: "64 word"

record bg_view = \<comment> \<open>\<open>BgStatus\<close>, with times as instants\<close>
  v_ID :: string
  v_Command :: string
  v_ExecDir :: string
  v_Status :: bg_state
  v_PID :: int
  v_ExitCode :: int
  v_StartedAt :: instant
  v_FinishedAt :: "instant option"
  v_Error :: string
  v_BytesOut :: int
  v_BytesDropped :: int

definition BgRingSize :: int where "BgRingSize = 1048576"
definition BgMaxConcurrent :: nat where "BgMaxConcurrent = 32"
definition BgRetentionAfterFinish :: duration where
  "BgRetentionAfterFinish = 30 * 60 * 1000000000"

datatype bg_error = CommandRequired | CtxDone | StartFailed string | BgNotFound
datatype bg_signal = SIGTERM | SIGKILL
datatype wait_result = WaitOk | WaitExit int string | WaitError string

section \<open>Operations\<close>

definition NewBackgroundManager :: bg_mgr where
  "NewBackgroundManager =
     \<lparr>bg_heap = [], bg_commands = Map.empty, bg_sem = 0, bg_stopped = False, bg_counter = 0\<rparr>"

definition bg_Status :: "bg_cmd \<Rightarrow> bg_view" where
  "bg_Status b =
     \<lparr>v_ID = bg_id b, v_Command = bg_command b, v_ExecDir = bg_execDir b,
      v_Status = bg_status b, v_PID = bg_pid b, v_ExitCode = bg_exitCode b,
      v_StartedAt = bg_startedAt b, v_FinishedAt = bg_finishedAt b, v_Error = bg_err b,
      v_BytesOut = ring_Written (bg_logs b), v_BytesDropped = ring_Dropped (bg_logs b)\<rparr>"

text \<open>\<open>newID\<close>: eight random bytes in hex, or the counter when the random source fails.\<close>

definition bg_newID :: "bg_mgr \<Rightarrow> bytes option \<Rightarrow> bg_mgr \<times> string" where
  "bg_newID m rnd =
     (case rnd of
        Some b \<Rightarrow> (m, hex_encode b)
      | None \<Rightarrow> (let n = bg_counter m + 1 in
          (m\<lparr>bg_counter := n\<rparr>, ''seq'' @ pad_hex16 (unat n))))"

definition profile_source :: string where
  "profile_source = ''for _f in /etc/profile.d/*.sh; do [ -r '' @ [CHR 0x22] @ ''$_f'' @ [CHR 0x22]
     @ '' ] && . '' @ [CHR 0x22] @ ''$_f'' @ [CHR 0x22] @ '' >/dev/null 2>&1; done; unset _f'' @ [CHR 0x0A]"

text \<open>\<open>Start\<close>. \<open>ctx_done\<close> says that the context ends the wait for a slot (it is chosen when
  no slot is free, and may be chosen by the select when both are ready); \<open>spawn\<close> is the
  operating system's answer to the command line, a message or a process id. \<open>None\<close>: the call
  blocks.\<close>

definition bg_Start ::
  "bg_mgr \<Rightarrow> bool \<Rightarrow> string \<Rightarrow> string \<Rightarrow> bytes option \<Rightarrow> instant \<Rightarrow> (string \<Rightarrow> string \<Rightarrow> string + int)
   \<Rightarrow> (bg_mgr \<times> (bg_error + string)) option" where
  "bg_Start m ctx_done command execDir rnd now spawn =
     (if command = [] then Some (m, Inl CommandRequired)
      else if ctx_done then Some (m, Inl CtxDone)
      else if BgMaxConcurrent \<le> bg_sem m then None
      else
        let m1 = m\<lparr>bg_sem := bg_sem m + 1\<rparr>;
            (m2, i) = bg_newID m1 rnd
        in case spawn (profile_source @ command) execDir of
             Inl msg \<Rightarrow> Some (m2\<lparr>bg_sem := bg_sem m2 - 1\<rparr>, Inl (StartFailed msg))
           | Inr pid \<Rightarrow>
               let bc = \<lparr>bg_id = i, bg_command = command, bg_execDir = execDir,
                         bg_logs = the (NewRing BgRingSize), bg_startedAt = now,
                         bg_status = BgRunning, bg_pid = pid, bg_exitCode = 0,
                         bg_finishedAt = None, bg_err = []\<rparr>
               in Some (m2\<lparr>bg_heap := bg_heap m2 @ [bc],
                           bg_commands := (bg_commands m2)(i \<mapsto> length (bg_heap m2))\<rparr>, Inr i))"

text \<open>\<open>waitFor\<close>, once \<open>cmd.Wait\<close> has returned.\<close>

definition bg_settle :: "bg_cmd \<Rightarrow> wait_result \<Rightarrow> instant \<Rightarrow> bg_cmd" where
  "bg_settle bc res now =
     (let bc = bc\<lparr>bg_finishedAt := Some now\<rparr> in
      case res of
        WaitOk \<Rightarrow> bc\<lparr>bg_status := BgCompleted, bg_exitCode := 0\<rparr>
      | WaitExit code msg \<Rightarrow>
          (let bc = bc\<lparr>bg_exitCode := code\<rparr> in
           if bg_status bc \<noteq> BgInterrupted
           then bc\<lparr>bg_status := BgFailed, bg_err := msg\<rparr> else bc)
      | WaitError msg \<Rightarrow> bc\<lparr>bg_status := BgFailed, bg_exitCode := - 1, bg_err := msg\<rparr>)"

definition bg_waitFor :: "bg_mgr \<Rightarrow> nat \<Rightarrow> wait_result \<Rightarrow> instant \<Rightarrow> bg_mgr" where
  "bg_waitFor m a res now =
     m\<lparr>bg_heap := (bg_heap m)[a := bg_settle (bg_heap m ! a) res now],
       bg_sem := bg_sem m - 1\<rparr>"

text \<open>The process writes to its standard output or error.\<close>

definition bg_output :: "bg_mgr \<Rightarrow> nat \<Rightarrow> bytes \<Rightarrow> bg_mgr" where
  "bg_output m a p =
     (let bc = bg_heap m ! a in
      m\<lparr>bg_heap := (bg_heap m)[a := bc\<lparr>bg_logs := fst (ring_Write (bg_logs bc) p)\<rparr>]\<rparr>)"

definition bg_MStatus :: "bg_mgr \<Rightarrow> string \<Rightarrow> bg_view option" where
  "bg_MStatus m i =
     (case bg_commands m i of None \<Rightarrow> None | Some a \<Rightarrow> Some (bg_Status (bg_heap m ! a)))"

definition bg_Logs :: "bg_mgr \<Rightarrow> string \<Rightarrow> int \<Rightarrow> (bytes \<times> int \<times> int) option" where
  "bg_Logs m i cursor =
     (case bg_commands m i of
        None \<Rightarrow> None
      | Some a \<Rightarrow> Some (ring_Read (bg_logs (bg_heap m ! a)) cursor))"

text \<open>\<open>Interrupt\<close>: the new state, the signals sent now and the result. The grace goroutine
  is \<open>bg_grace\<close>.\<close>

definition bg_Interrupt ::
  "bg_mgr \<Rightarrow> string \<Rightarrow> bg_mgr \<times> (int \<times> bg_signal) list \<times> bg_error option" where
  "bg_Interrupt m i =
     (case bg_commands m i of
        None \<Rightarrow> (m, [], Some BgNotFound)
      | Some a \<Rightarrow>
          let c = bg_heap m ! a in
          if bg_status c \<noteq> BgRunning then (m, [], None)
          else (m\<lparr>bg_heap := (bg_heap m)[a := c\<lparr>bg_status := BgInterrupted\<rparr>]\<rparr>,
                [(- bg_pid c, SIGTERM)], None))"

definition bg_grace :: "bg_mgr \<Rightarrow> nat \<Rightarrow> (int \<times> bg_signal) list" where
  "bg_grace m a =
     (let c = bg_heap m ! a in
      if bg_finishedAt c = None then [(- bg_pid c, SIGKILL)] else [])"

text \<open>\<open>Shutdown\<close> walks the table in some order, given as the list of ids.\<close>

fun bg_interrupt_all :: "bg_mgr \<Rightarrow> string list \<Rightarrow> bg_mgr \<times> (int \<times> bg_signal) list" where
  "bg_interrupt_all m [] = (m, [])"
| "bg_interrupt_all m (i # is) =
     (case bg_Interrupt m i of (m', sg, _) \<Rightarrow>
        case bg_interrupt_all m' is of (m'', sg') \<Rightarrow> (m'', sg @ sg'))"

definition bg_Shutdown :: "bg_mgr \<Rightarrow> string list \<Rightarrow> bg_mgr \<times> (int \<times> bg_signal) list" where
  "bg_Shutdown m order =
     (if bg_stopped m then (m, [])
      else bg_interrupt_all (m\<lparr>bg_stopped := True\<rparr>) order)"

definition bg_List :: "bg_mgr \<Rightarrow> string list \<Rightarrow> bg_view list" where
  "bg_List m order = map (\<lambda>i. bg_Status (bg_heap m ! the (bg_commands m i))) order"

definition bg_Forget :: "bg_mgr \<Rightarrow> string \<Rightarrow> bg_mgr \<times> bool" where
  "bg_Forget m i =
     (case bg_commands m i of
        None \<Rightarrow> (m, False)
      | Some a \<Rightarrow>
          if bg_status (bg_heap m ! a) = BgRunning then (m, False)
          else (m\<lparr>bg_commands := (bg_commands m)(i := None)\<rparr>, True))"

definition bg_expired :: "instant \<Rightarrow> bg_cmd \<Rightarrow> bool" where
  "bg_expired now c =
     (case bg_finishedAt c of None \<Rightarrow> False | Some t \<Rightarrow> BgRetentionAfterFinish \<le> now - t)"

text \<open>\<open>gcOnce\<close> over the ids of the table in iteration order: the new state and the number
  reaped.\<close>

fun bg_gcOnce :: "bg_mgr \<Rightarrow> instant \<Rightarrow> string list \<Rightarrow> bg_mgr \<times> nat" where
  "bg_gcOnce m now [] = (m, 0)"
| "bg_gcOnce m now (i # is) =
     (case bg_commands m i of
        Some a \<Rightarrow>
          if bg_expired now (bg_heap m ! a) then
            (case bg_gcOnce (m\<lparr>bg_commands := (bg_commands m)(i := None)\<rparr>) now is of
               (m', n) \<Rightarrow> (m', Suc n))
          else bg_gcOnce m now is
      | None \<Rightarrow> bg_gcOnce m now is)"

section \<open>Steps and reachable states\<close>

definition bg_alive :: "bg_cmd \<Rightarrow> bool" where
  "bg_alive c \<longleftrightarrow> bg_finishedAt c = None"

inductive bg_step :: "bg_mgr \<Rightarrow> bg_mgr \<Rightarrow> bool" where
  start: "bg_Start m d c dir rnd now spawn = Some (m', res) \<Longrightarrow> bg_step m m'"
| out: "a < length (bg_heap m) \<Longrightarrow> bg_alive (bg_heap m ! a) \<Longrightarrow> bg_step m (bg_output m a p)"
| exits: "a < length (bg_heap m) \<Longrightarrow> bg_alive (bg_heap m ! a) \<Longrightarrow> bg_step m (bg_waitFor m a res now)"
| interrupt: "bg_step m (fst (bg_Interrupt m i))"
| forget: "bg_step m (fst (bg_Forget m i))"
| gc: "set is = dom (bg_commands m) \<Longrightarrow> distinct is \<Longrightarrow> bg_step m (fst (bg_gcOnce m now is))"
| shutdown: "set is = dom (bg_commands m) \<Longrightarrow> distinct is \<Longrightarrow> bg_step m (fst (bg_Shutdown m is))"

inductive bg_reachable :: "bg_mgr \<Rightarrow> bool" where
  init: "bg_reachable NewBackgroundManager"
| step: "bg_reachable m \<Longrightarrow> bg_step m m' \<Longrightarrow> bg_reachable m'"

inductive_cases bg_stepE: "bg_step m m'"

section \<open>The invariant\<close>

text \<open>A live command is running or interrupted, a finished one is not running, and its log is
  a ring with a history. The slots in use are the live commands, at most
  \<open>BgMaxConcurrent\<close> of them, and the table names commands by their own id.\<close>

definition bg_cmd_ok :: "bg_cmd \<Rightarrow> bool" where
  "bg_cmd_ok c \<longleftrightarrow> (bg_alive c \<longrightarrow> bg_status c \<in> {BgRunning, BgInterrupted})
     \<and> (bg_status c = BgRunning \<longrightarrow> bg_alive c) \<and> (\<exists>h. ring_repr (bg_logs c) h)"

definition bg_table_ok :: "bg_mgr \<Rightarrow> bool" where
  "bg_table_ok m \<longleftrightarrow> (\<forall>i a. bg_commands m i = Some a \<longrightarrow>
      a < length (bg_heap m) \<and> bg_id (bg_heap m ! a) = i)"

definition bg_inv :: "bg_mgr \<Rightarrow> bool" where
  "bg_inv m \<longleftrightarrow> bg_sem m = length (filter bg_alive (bg_heap m)) \<and> bg_sem m \<le> BgMaxConcurrent
     \<and> (\<forall>c \<in> set (bg_heap m). bg_cmd_ok c) \<and> bg_table_ok m"

lemmas bg_inv_defs = bg_inv_def bg_cmd_ok_def bg_table_ok_def

lemma bg_inv_init: "bg_inv NewBackgroundManager"
  by (simp add: bg_inv_defs NewBackgroundManager_def)

lemma bg_newID_frame [simp]:
  "bg_heap (fst (bg_newID m r)) = bg_heap m" "bg_commands (fst (bg_newID m r)) = bg_commands m"
  "bg_sem (fst (bg_newID m r)) = bg_sem m" "bg_stopped (fst (bg_newID m r)) = bg_stopped m"
  by (simp_all add: bg_newID_def Let_def split: option.split)

lemma ring_fresh: "\<exists>h. ring_repr (the (NewRing BgRingSize)) h"
proof -
  have "NewRing BgRingSize = Some (the (NewRing BgRingSize))"
    by (simp add: NewRing_def BgRingSize_def)
  then show ?thesis by (blast intro: NewRing_repr)
qed

lemma bg_inv_append:
  assumes "bg_inv m" and "bg_sem m < BgMaxConcurrent" and "bg_cmd_ok c" and "bg_alive c"
    and "bg_heap m2 = bg_heap m" and "bg_commands m2 = bg_commands m"
    and "bg_sem m2 = bg_sem m + 1" and "bg_id c = i"
  shows "bg_inv (m2\<lparr>bg_heap := bg_heap m2 @ [c],
      bg_commands := (bg_commands m2)(i \<mapsto> length (bg_heap m2))\<rparr>)"
proof -
  have "bg_table_ok m" using assms(1) by (simp add: bg_inv_def)
  then have "bg_table_ok (m2\<lparr>bg_heap := bg_heap m2 @ [c],
      bg_commands := (bg_commands m2)(i \<mapsto> length (bg_heap m2))\<rparr>)"
    using assms(5,6,8) by (auto simp: bg_table_ok_def nth_append intro: less_SucI)
  with assms show ?thesis by (simp add: bg_inv_def)
qed

lemma bg_fresh_ok:
  "bg_status c = BgRunning \<Longrightarrow> bg_finishedAt c = None \<Longrightarrow> bg_logs c = the (NewRing BgRingSize) \<Longrightarrow>
   bg_cmd_ok c \<and> bg_alive c"
  using ring_fresh by (simp add: bg_cmd_ok_def bg_alive_def)

lemma bg_inv_start:
  assumes "bg_inv m" and "bg_Start m d c dir rnd now spawn = Some (m', res)"
  shows "bg_inv m'"
proof (cases "c = [] \<or> d \<or> BgMaxConcurrent \<le> bg_sem m")
  case True
  with assms show ?thesis by (auto simp: bg_Start_def split: if_splits)
next
  case False
  obtain m2 i where n: "bg_newID (m\<lparr>bg_sem := bg_sem m + 1\<rparr>) rnd = (m2, i)"
    by (cases "bg_newID (m\<lparr>bg_sem := bg_sem m + 1\<rparr>) rnd")
  have f: "bg_heap m2 = bg_heap m" "bg_commands m2 = bg_commands m" "bg_sem m2 = bg_sem m + 1"
    using bg_newID_frame [of "m\<lparr>bg_sem := bg_sem m + 1\<rparr>" rnd] unfolding n by simp_all
  show ?thesis
  proof (cases "spawn (profile_source @ c) dir")
    case (Inl msg)
    with assms False n f show ?thesis by (auto simp: bg_Start_def Let_def bg_inv_defs)
  next
    case (Inr pid)
    let ?c = "\<lparr>bg_id = i, bg_command = c, bg_execDir = dir, bg_logs = the (NewRing BgRingSize),
        bg_startedAt = now, bg_status = BgRunning, bg_pid = pid, bg_exitCode = 0,
        bg_finishedAt = None, bg_err = []\<rparr>"
    have "m' = m2\<lparr>bg_heap := bg_heap m2 @ [?c],
        bg_commands := (bg_commands m2)(i \<mapsto> length (bg_heap m2))\<rparr>"
      using assms(2) False n Inr by (simp add: bg_Start_def Let_def)
    moreover have "bg_cmd_ok ?c \<and> bg_alive ?c" by (rule bg_fresh_ok) simp_all
    ultimately show ?thesis
      using bg_inv_append [OF assms(1) _ _ _ f, of ?c i] False by simp
  qed
qed

text \<open>Replacing one command keeps the invariant when the replacement is well formed, has the
  same id, and the semaphore follows its liveness.\<close>

lemma bg_inv_replace:
  assumes "bg_inv m" and "a < length (bg_heap m)" and "bg_cmd_ok c"
    and "bg_id c = bg_id (bg_heap m ! a)"
    and "n + (if bg_alive (bg_heap m ! a) then 1 else 0) = bg_sem m + (if bg_alive c then 1 else 0)"
    and "n \<le> BgMaxConcurrent"
  shows "bg_inv (m\<lparr>bg_heap := (bg_heap m)[a := c], bg_sem := n\<rparr>)"
proof -
  have "length (filter bg_alive ((bg_heap m)[a := c])) = n"
    using length_filter_update [OF assms(2), of bg_alive c] assms(1,5)
    by (auto simp: bg_inv_def split: if_splits)
  then show ?thesis
    using assms by (auto simp: bg_inv_def bg_table_ok_def nth_list_update dest: set_list_update_cases)
qed

lemma bg_settle_ok: "bg_cmd_ok c \<Longrightarrow> bg_cmd_ok (bg_settle c res now) \<and> \<not> bg_alive (bg_settle c res now)
    \<and> bg_id (bg_settle c res now) = bg_id c"
  by (cases res) (auto simp: bg_settle_def bg_cmd_ok_def bg_alive_def Let_def)

lemma bg_inv_cmd: "bg_inv m \<Longrightarrow> a < length (bg_heap m) \<Longrightarrow> bg_cmd_ok (bg_heap m ! a)"
  by (simp add: bg_inv_def)

lemma bg_inv_live:
  "bg_inv m \<Longrightarrow> a < length (bg_heap m) \<Longrightarrow> bg_alive (bg_heap m ! a) \<Longrightarrow> 0 < bg_sem m"
  by (auto simp: bg_inv_def filter_empty_conv)

lemma bg_inv_waitFor:
  assumes "bg_inv m" and "a < length (bg_heap m)" and "bg_alive (bg_heap m ! a)"
  shows "bg_inv (bg_waitFor m a res now)"
  unfolding bg_waitFor_def
  using bg_inv_live [OF assms] bg_settle_ok [OF bg_inv_cmd [OF assms(1,2)], of res now] assms
  by (intro bg_inv_replace) (auto simp: bg_inv_def)

lemma bg_inv_replace':
  assumes "bg_inv m" and "a < length (bg_heap m)" and "bg_cmd_ok c"
    and "bg_id c = bg_id (bg_heap m ! a)" and "bg_alive c \<longleftrightarrow> bg_alive (bg_heap m ! a)"
  shows "bg_inv (m\<lparr>bg_heap := (bg_heap m)[a := c]\<rparr>)"
  using bg_inv_replace [OF assms(1-4), of "bg_sem m"] assms by (simp add: bg_inv_def)

lemma bg_inv_output:
  assumes "bg_inv m" and "a < length (bg_heap m)"
  shows "bg_inv (bg_output m a p)"
  unfolding bg_output_def Let_def
  using assms bg_inv_cmd [OF assms] ring_Write_repr
  by (intro bg_inv_replace') (auto simp: bg_cmd_ok_def bg_alive_def)

lemma bg_inv_Interrupt: "bg_inv m \<Longrightarrow> bg_inv (fst (bg_Interrupt m i))"
proof (cases "bg_commands m i")
  case (Some a)
  assume inv: "bg_inv m"
  with Some have a: "a < length (bg_heap m)" by (simp add: bg_inv_defs)
  show ?thesis
  proof (cases "bg_status (bg_heap m ! a) = BgRunning")
    case True
    with Some inv a bg_inv_cmd [OF inv a] show ?thesis
      by (auto simp: bg_Interrupt_def Let_def bg_cmd_ok_def bg_alive_def intro!: bg_inv_replace')
  next
    case False
    with Some inv show ?thesis by (simp add: bg_Interrupt_def)
  qed
qed (simp add: bg_Interrupt_def)

lemma bg_inv_drop: "bg_inv m \<Longrightarrow> bg_inv (m\<lparr>bg_commands := (bg_commands m)(i := None)\<rparr>)"
  by (auto simp: bg_inv_def bg_table_ok_def)

lemma bg_inv_Forget: "bg_inv m \<Longrightarrow> bg_inv (fst (bg_Forget m i))"
  by (auto simp: bg_Forget_def bg_inv_drop split: option.split)

lemma bg_inv_gc: "bg_inv m \<Longrightarrow> bg_inv (fst (bg_gcOnce m now is))"
  by (induction m now "is" rule: bg_gcOnce.induct)
    (auto simp: bg_inv_drop split: option.split prod.split)

lemma bg_inv_interrupt_all: "bg_inv m \<Longrightarrow> bg_inv (fst (bg_interrupt_all m is))"
proof (induction "is" arbitrary: m)
  case (Cons i js)
  then have "bg_inv (fst (bg_interrupt_all (fst (bg_Interrupt m i)) js))"
    by (intro Cons.IH bg_inv_Interrupt)
  then show ?case by (auto split: prod.splits)
qed simp

lemma bg_inv_Shutdown: "bg_inv m \<Longrightarrow> bg_inv (fst (bg_Shutdown m is))"
proof -
  assume "bg_inv m"
  then have "bg_inv (m\<lparr>bg_stopped := True\<rparr>)" by (simp add: bg_inv_defs)
  with \<open>bg_inv m\<close> show ?thesis by (simp add: bg_Shutdown_def bg_inv_interrupt_all)
qed

lemma bg_inv_step: "bg_step m m' \<Longrightarrow> bg_inv m \<Longrightarrow> bg_inv m'"
  by (induction rule: bg_step.induct)
    (simp_all add: bg_inv_start bg_inv_output bg_inv_waitFor bg_inv_Interrupt bg_inv_Forget
      bg_inv_gc bg_inv_Shutdown)

lemma bg_reachable_inv: "bg_reachable m \<Longrightarrow> bg_inv m"
  by (induction rule: bg_reachable.induct) (auto intro: bg_inv_init bg_inv_step)

section \<open>Garbage collection\<close>

text \<open>The entries one pass removes, and the pass as one equation.\<close>

definition bg_hit :: "instant \<Rightarrow> bg_mgr \<Rightarrow> string \<Rightarrow> bool" where
  "bg_hit now m i \<longleftrightarrow>
     (case bg_commands m i of None \<Rightarrow> False | Some a \<Rightarrow> bg_expired now (bg_heap m ! a))"

definition bg_drop :: "bg_mgr \<Rightarrow> string \<Rightarrow> bg_mgr" where
  "bg_drop m i = m\<lparr>bg_commands := (bg_commands m)(i := None)\<rparr>"

lemma bg_drop_simps [simp]:
  "bg_heap (bg_drop m i) = bg_heap m" "bg_commands (bg_drop m i) = (bg_commands m)(i := None)"
  by (simp_all add: bg_drop_def)

lemma bg_hit_drop [simp]: "bg_hit now (bg_drop m j) i \<longleftrightarrow> i \<noteq> j \<and> bg_hit now m i"
  by (simp add: bg_hit_def split: option.split)

lemma bg_gcOnce_Cons: "bg_gcOnce m now (i # is) =
    (fst (bg_gcOnce (if bg_hit now m i then bg_drop m i else m) now is),
     (if bg_hit now m i then 1 else 0) + snd (bg_gcOnce (if bg_hit now m i then bg_drop m i else m) now is))"
  by (simp add: bg_hit_def bg_drop_def split: option.split prod.split)

lemma bg_gcOnce_frame [simp]: "bg_heap (fst (bg_gcOnce m now is)) = bg_heap m"
  by (induction "is" arbitrary: m) (simp_all add: bg_gcOnce_Cons del: bg_gcOnce.simps(2))

lemma bg_gcOnce_commands:
  "bg_commands (fst (bg_gcOnce m now is)) i =
     (if i \<in> set is \<and> bg_hit now m i then None else bg_commands m i)"
  by (induction "is" arbitrary: m) (auto simp: bg_gcOnce_Cons simp del: bg_gcOnce.simps(2))

lemma bg_gcOnce_count:
  "distinct is \<Longrightarrow> snd (bg_gcOnce m now is) = card {i \<in> set is. bg_hit now m i}"
proof (induction "is" arbitrary: m)
  case (Cons j js)
  let ?m = "if bg_hit now m j then bg_drop m j else m"
  have eq: "{i \<in> set js. bg_hit now ?m i} = {i \<in> set js. bg_hit now m i}"
    using Cons.prems by auto
  have "{i \<in> set (j # js). bg_hit now m i}
      = (if bg_hit now m j then {j} else {}) \<union> {i \<in> set js. bg_hit now m i}"
    by auto
  then have "card {i \<in> set (j # js). bg_hit now m i}
      = (if bg_hit now m j then 1 else 0) + card {i \<in> set js. bg_hit now m i}"
    using Cons.prems by auto
  then show ?case
    using Cons.IH [of ?m] Cons.prems eq unfolding bg_gcOnce_Cons by simp
qed simp

section \<open>Properties\<close>

text \<open>C12: in every reachable state of the supervisor, whatever the interleaving of starts,
  output, exits, interrupts, forgets, collections and shutdown, the semaphore counts exactly the
  commands whose process has not been waited for, there are at most 32 of them, and no table
  entry dangles or names a command of another id.\<close>

theorem bg_slots_exact:
  assumes "bg_reachable m"
  shows "bg_sem m = length (filter (\<lambda>c. bg_finishedAt c = None) (bg_heap m))
    \<and> bg_sem m \<le> 32
    \<and> (\<forall>i a. bg_commands m i = Some a \<longrightarrow> a < length (bg_heap m) \<and> bg_id (bg_heap m ! a) = i)"
proof -
  have "bg_alive = (\<lambda>c. bg_finishedAt c = None)" by (simp add: bg_alive_def fun_eq_iff)
  with bg_reachable_inv [OF assms] show ?thesis
    by (simp add: bg_inv_def bg_table_ok_def BgMaxConcurrent_def)
qed

definition bg_example :: bg_mgr where
  "bg_example = fst (the (bg_Start NewBackgroundManager False ''sleep 9'' [] (Some ''id'') 5
     (\<lambda>_ _. Inr 41)))"

lemma bg_example_reachable: "bg_reachable bg_example"
proof -
  have "bg_Start NewBackgroundManager False ''sleep 9'' [] (Some ''id'') 5 (\<lambda>_ _. Inr 41)
      = Some (bg_example, Inr (hex_encode ''id''))"
    by (simp add: bg_example_def bg_Start_def NewBackgroundManager_def BgMaxConcurrent_def
        bg_newID_def Let_def)
  then show ?thesis by (blast intro: bg_reachable.intros bg_step.start)
qed

theorem bg_slots_exact_witness:
  "bg_reachable bg_example \<and> bg_sem bg_example = 1
   \<and> bg_sem bg_example = length (filter (\<lambda>c. bg_finishedAt c = None) (bg_heap bg_example))"
  using bg_slots_exact [OF bg_example_reachable] bg_example_reachable
  by (simp add: bg_example_def bg_Start_def NewBackgroundManager_def BgMaxConcurrent_def
      bg_newID_def Let_def)

text \<open>one collection pass removes from the table exactly the finished commands whose
  retention has elapsed, reports their number, never removes a command whose process is still
  running, and leaves every command object as it was.\<close>

theorem bg_gc_exact:
  assumes "set is = dom (bg_commands m)" and "distinct is" and "bg_gcOnce m now is = (m', n)"
  shows "bg_heap m' = bg_heap m
    \<and> bg_commands m' = (\<lambda>i. case bg_commands m i of None \<Rightarrow> None
        | Some a \<Rightarrow> (case bg_finishedAt (bg_heap m ! a) of
              None \<Rightarrow> Some a
            | Some t \<Rightarrow> if now - t \<ge> 1800000000000 then None else Some a))
    \<and> n = card (dom (bg_commands m) - dom (bg_commands m'))"
proof -
  have cmds: "bg_commands m' i = (if bg_hit now m i then None else bg_commands m i)" for i
    using bg_gcOnce_commands [of m now "is" i] assms(1,3)
    by (auto simp: bg_hit_def split: option.splits)
  have "n = card {i \<in> set is. bg_hit now m i}"
    using bg_gcOnce_count [OF assms(2), of m now] assms(3) by simp
  also have "{i \<in> set is. bg_hit now m i} = dom (bg_commands m) - dom (bg_commands m')"
    using assms(1) by (auto simp: cmds bg_hit_def split: if_splits option.splits)
  finally have "n = card (dom (bg_commands m) - dom (bg_commands m'))" .
  moreover have "bg_heap m' = bg_heap m" using bg_gcOnce_frame [of m now "is"] assms(3) by simp
  ultimately show ?thesis
    by (auto simp: fun_eq_iff cmds bg_hit_def bg_expired_def BgRetentionAfterFinish_def
        split: option.split)
qed

theorem bg_gc_exact_witness:
  "\<exists>m'. bg_gcOnce (bg_waitFor bg_example 0 WaitOk 7) (7 + 1800000000000) [hex_encode ''id''] = (m', 1)
     \<and> 1 = card (dom (bg_commands (bg_waitFor bg_example 0 WaitOk 7)) - dom (bg_commands m'))"
proof -
  let ?m = "bg_waitFor bg_example 0 WaitOk 7" and ?i = "hex_encode ''id''"
  have m: "bg_commands ?m = [?i \<mapsto> 0]" "bg_finishedAt (bg_heap ?m ! 0) = Some 7"
    by (simp_all add: bg_waitFor_def bg_example_def bg_Start_def NewBackgroundManager_def
        BgMaxConcurrent_def bg_newID_def bg_settle_def Let_def)
  then have s: "set [?i] = dom (bg_commands ?m)" by simp
  obtain m' where g: "bg_gcOnce ?m (7 + 1800000000000) [?i] = (m', 1)"
    using m by (simp add: bg_expired_def BgRetentionAfterFinish_def)
  from bg_gc_exact [OF s _ g] have "1 = card (dom (bg_commands ?m) - dom (bg_commands m'))"
    by simp
  with g show ?thesis by blast
qed

text \<open>how an interrupted command ends. Interrupting a running command signals its
  process group once (a second \<open>Interrupt\<close> does nothing), and when its process then exits
  with a status the supervisor reports it as interrupted, with that exit code and no error
  text, where without the interrupt it would report a failure. (A wait that succeeds makes it
  completed all the same.)\<close>

theorem bg_interrupt_then_exit:
  assumes "bg_reachable m" and "bg_commands m i = Some a" and "bg_status (bg_heap m ! a) = BgRunning"
    and "bg_Interrupt m i = (m1, sg, e)"
  shows "e = None \<and> sg = [(- bg_pid (bg_heap m ! a), SIGTERM)] \<and> bg_Interrupt m1 i = (m1, [], None)
    \<and> bg_MStatus (bg_waitFor m1 a (WaitExit code msg) t) i
        = Some ((bg_Status (bg_heap m ! a))\<lparr>v_Status := BgInterrupted, v_ExitCode := code,
             v_FinishedAt := Some t\<rparr>)
    \<and> bg_MStatus (bg_waitFor m a (WaitExit code msg) t) i
        = Some ((bg_Status (bg_heap m ! a))\<lparr>v_Status := BgFailed, v_ExitCode := code,
             v_FinishedAt := Some t, v_Error := msg\<rparr>)
    \<and> map_option v_Status (bg_MStatus (bg_waitFor m1 a WaitOk t) i) = Some BgCompleted"
proof -
  have "a < length (bg_heap m)"
    using bg_reachable_inv [OF assms(1)] assms(2) by (simp add: bg_inv_def bg_table_ok_def)
  with assms(2-4) show ?thesis
    by (auto simp: bg_Interrupt_def bg_waitFor_def bg_MStatus_def bg_settle_def bg_Status_def Let_def)
qed

theorem bg_interrupt_then_exit_witness:
  "\<exists>m1. bg_Interrupt bg_example (hex_encode ''id'') = (m1, [(- 41, SIGTERM)], None)
     \<and> map_option v_Status (bg_MStatus (bg_waitFor m1 0 (WaitExit 143 ''x'') 9) (hex_encode ''id''))
         = Some BgInterrupted"
proof -
  let ?i = "hex_encode ''id''"
  have c: "bg_commands bg_example ?i = Some 0" "bg_status (bg_heap bg_example ! 0) = BgRunning"
    "bg_pid (bg_heap bg_example ! 0) = 41"
    by (simp_all add: bg_example_def bg_Start_def NewBackgroundManager_def
        BgMaxConcurrent_def bg_newID_def Let_def)
  obtain m1 sg e where t: "bg_Interrupt bg_example ?i = (m1, sg, e)"
    using prod_cases3 by blast
  from bg_interrupt_then_exit [OF bg_example_reachable c(1,2) t, of 143 "''x''" 9] c t
  show ?thesis by simp
qed

end
