(* ===== verification/Shell_Session.thy ===== *)
theory Shell_Session
  imports GoLib
begin

text \<open>
  Persistent shell sessions (\<open>pkg/shell/session.go\<close>): the command text sent to the shell and
  its quoting, the loop of \<open>Session.Execute\<close> that looks for the end marker in the output, the
  bounded output channel, and the session manager with its create-outside-the-lock race, as a
  step relation over who holds which open pty. The pty, the clock and the random number of the
  marker are inputs.
\<close>

section \<open>Quoting and the command text\<close>

text \<open>\<open>shellQuote\<close>: a single quote becomes \<open>'"'"'\<close>.\<close>

definition squote :: char where "squote = CHR 0x27"
definition dquote :: char where "dquote = CHR 0x22"

definition shellQuote :: "string \<Rightarrow> string" where
  "shellQuote s = squote # concat (map (\<lambda>c. if c = squote
     then [squote, dquote, squote, dquote, squote] else [c]) s) @ [squote]"

text \<open>How a POSIX shell reads one word: unquoted, inside single quotes (everything is literal)
  and inside double quotes (literal but for the characters that are special there). \<open>None\<close>
  where the word ends early, expands something or is not closed.\<close>

datatype sh_mode = Unquoted | InSingle | InDouble

definition sh_special :: "char \<Rightarrow> bool" where
  "sh_special c \<longleftrightarrow> c \<in> set (''$`;&|<>()*?[#~{}!='' @ [CHR 0x5C, CHR 0x20, CHR 0x09, CHR 0x0A])"

fun sh_word :: "sh_mode \<Rightarrow> string \<Rightarrow> string option" where
  "sh_word md [] = (if md = Unquoted then Some [] else None)"
| "sh_word Unquoted (c # cs) =
     (if c = squote then sh_word InSingle cs
      else if c = dquote then sh_word InDouble cs
      else if sh_special c then None
      else map_option ((#) c) (sh_word Unquoted cs))"
| "sh_word InSingle (c # cs) =
     (if c = squote then sh_word Unquoted cs else map_option ((#) c) (sh_word InSingle cs))"
| "sh_word InDouble (c # cs) =
     (if c = dquote then sh_word Unquoted cs
      else if c \<in> set (''$`'' @ [CHR 0x5C]) then None
      else map_option ((#) c) (sh_word InDouble cs))"

definition newline :: string where "newline = [CHR 0x0A]"

definition exec_cmdStr :: "string \<Rightarrow> string \<Rightarrow> string \<Rightarrow> string" where
  "exec_cmdStr command execDir marker =
     (let echo = ''echo '' @ [dquote] @ marker @ '' $?'' @ [dquote] @ newline in
      if execDir \<noteq> [] then
        ''cd '' @ shellQuote execDir @ '' 2>/dev/null'' @ newline @ command @ newline @ echo
      else command @ newline @ echo)"

definition exec_marker :: "int \<Rightarrow> nat \<Rightarrow> string" where
  "exec_marker nano r = ''__SANDBOX_END_'' @ format_int nano @ ''_'' @ format_int (int r) @ ''__''"

section \<open>The result of a command\<close>

text \<open>\<open>strings.Fields\<close>: the maximal runs of non-space bytes.\<close>

fun fields_of :: "string \<Rightarrow> string \<Rightarrow> string list" where
  "fields_of w [] = (if w = [] then [] else [rev w])"
| "fields_of w (c # cs) =
     (if is_space c then (if w = [] then fields_of [] cs else rev w # fields_of [] cs)
      else fields_of (c # w) cs)"

definition parseExitCode :: "string \<Rightarrow> int" where
  "parseExitCode s =
     (case fields_of [] (trim_space s) of
        [] \<Rightarrow> - 1
      | f # _ \<Rightarrow> (case parse_int f of Some code \<Rightarrow> code | None \<Rightarrow> - 1))"

datatype exec_status = Completed | Terminated | HardTimeout

definition statusFromCode :: "int \<Rightarrow> exec_status" where
  "statusFromCode code = (if 0 \<le> code then Completed else Terminated)"

text \<open>What \<open>Execute\<close> waits for: a chunk of output, its deadline, the end of the shell.\<close>

datatype exec_event = Chunk bytes | Deadline | Done

fun exec_loop :: "string \<Rightarrow> bytes \<Rightarrow> exec_event list \<Rightarrow> (bytes \<times> int \<times> exec_status) option" where
  "exec_loop marker collected [] = None"
| "exec_loop marker collected (Deadline # _) = Some (collected, - 1, HardTimeout)"
| "exec_loop marker collected (Done # _) = Some (collected, - 1, Terminated)"
| "exec_loop marker collected (Chunk c # es) =
     (let full = collected @ c in
      case index_str full marker of
        None \<Rightarrow> exec_loop marker full es
      | Some idx \<Rightarrow>
          let before = take idx full;
              after = drop (idx + length marker) full;
              exitCode = parseExitCode after;
              out = trim_right_by (\<lambda>x. x = CHR 0x0D \<or> x = CHR 0x0A) before
          in Some (out, exitCode, statusFromCode exitCode))"

definition effective_timeout :: "int \<Rightarrow> int" where
  "effective_timeout t = (if t \<le> 0 then 120 else t)"

text \<open>The output channel: 256 chunks, the oldest dropped when it is full.\<close>

definition output_push :: "bytes list \<Rightarrow> bytes \<Rightarrow> bytes list" where
  "output_push q c = (if length q < 256 then q @ [c] else tl q @ [c])"

section \<open>The session manager\<close>

record sess_mgr =
  sm_sessions :: "string \<rightharpoonup> nat"
  sm_open :: "nat set" \<comment> \<open>shells whose pty is open\<close>
  sm_pending :: "nat set" \<comment> \<open>created by a \<open>GetOrCreate\<close> that has not stored it yet\<close>
  sm_closing :: "nat set" \<comment> \<open>taken out of the table, \<open>Close\<close> not done yet\<close>
  sm_lastUsed :: "nat \<Rightarrow> instant"

definition sm_init :: sess_mgr where
  "sm_init = \<lparr>sm_sessions = Map.empty, sm_open = {}, sm_pending = {}, sm_closing = {},
     sm_lastUsed = (\<lambda>_. 0)\<rparr>"

definition SessionIdleExpiry :: duration where "SessionIdleExpiry = 30 * 60 * 1000000000"

text \<open>\<open>GetOrCreate\<close> in its three parts: the first look, the creation outside the lock, and
  the second look that keeps an existing session and closes the new one.\<close>

definition sm_lookup :: "sess_mgr \<Rightarrow> string \<Rightarrow> nat option" where
  "sm_lookup m i = sm_sessions m i"

definition sm_create :: "sess_mgr \<Rightarrow> nat \<Rightarrow> instant \<Rightarrow> sess_mgr" where
  "sm_create m s now = m\<lparr>sm_open := insert s (sm_open m), sm_pending := insert s (sm_pending m),
     sm_lastUsed := (sm_lastUsed m)(s := now)\<rparr>"

definition sm_install :: "sess_mgr \<Rightarrow> string \<Rightarrow> nat \<Rightarrow> sess_mgr \<times> nat" where
  "sm_install m i s =
     (let m = m\<lparr>sm_pending := sm_pending m - {s}\<rparr> in
      case sm_sessions m i of
        Some existing \<Rightarrow> (m\<lparr>sm_closing := insert s (sm_closing m)\<rparr>, existing)
      | None \<Rightarrow> (m\<lparr>sm_sessions := (sm_sessions m)(i \<mapsto> s)\<rparr>, s))"

definition sm_close :: "sess_mgr \<Rightarrow> nat \<Rightarrow> sess_mgr" where
  "sm_close m s = m\<lparr>sm_open := sm_open m - {s}, sm_closing := sm_closing m - {s}\<rparr>"

definition sm_Remove :: "sess_mgr \<Rightarrow> string \<Rightarrow> sess_mgr" where
  "sm_Remove m i =
     (case sm_sessions m i of
        None \<Rightarrow> m
      | Some s \<Rightarrow> m\<lparr>sm_sessions := (sm_sessions m)(i := None), sm_closing := insert s (sm_closing m)\<rparr>)"

definition sm_CloseAll :: "sess_mgr \<Rightarrow> sess_mgr" where
  "sm_CloseAll m = m\<lparr>sm_sessions := Map.empty, sm_closing := sm_closing m \<union> ran (sm_sessions m)\<rparr>"

text \<open>One tick of \<open>cleanupLoop\<close> over the ids in iteration order.\<close>

fun sm_drop :: "sess_mgr \<Rightarrow> string list \<Rightarrow> sess_mgr" where
  "sm_drop m [] = m"
| "sm_drop m (i # is) = sm_drop (sm_Remove m i) is"

definition sm_cleanup :: "sess_mgr \<Rightarrow> instant \<Rightarrow> string list \<Rightarrow> sess_mgr" where
  "sm_cleanup m now is =
     sm_drop m (filter (\<lambda>i. case sm_sessions m i of None \<Rightarrow> False
        | Some s \<Rightarrow> SessionIdleExpiry < now - sm_lastUsed m s) is)"

inductive sm_step :: "sess_mgr \<Rightarrow> sess_mgr \<Rightarrow> bool" where
  create: "s \<notin> sm_open m \<Longrightarrow> sm_step m (sm_create m s now)"
| install: "s \<in> sm_pending m \<Longrightarrow> sm_step m (fst (sm_install m i s))"
| remove: "sm_step m (sm_Remove m i)"
| close: "s \<in> sm_closing m \<Longrightarrow> sm_step m (sm_close m s)"
| closeall: "sm_step m (sm_CloseAll m)"
| cleanup: "sm_step m (sm_cleanup m now is)"

inductive sm_reachable :: "sess_mgr \<Rightarrow> bool" where
  init: "sm_reachable sm_init"
| step: "sm_reachable m \<Longrightarrow> sm_step m m' \<Longrightarrow> sm_reachable m'"

text \<open>Every open shell is held exactly once: by the table under one id, by a call that is
  about to store it, or by a call that is about to close it.\<close>

definition sm_inv :: "sess_mgr \<Rightarrow> bool" where
  "sm_inv m \<longleftrightarrow> sm_open m = ran (sm_sessions m) \<union> sm_pending m \<union> sm_closing m
     \<and> ran (sm_sessions m) \<inter> sm_pending m = {} \<and> ran (sm_sessions m) \<inter> sm_closing m = {}
     \<and> sm_pending m \<inter> sm_closing m = {} \<and> inj_on (sm_sessions m) (dom (sm_sessions m))"

lemma ran_del:
  assumes "inj_on m (dom m)" and "m i = Some s"
  shows "ran (m(i := None)) = ran m - {s}"
proof -
  have u: "m j = Some s \<Longrightarrow> j = i" for j
    using assms by (auto simp: inj_on_def dom_def)
  show ?thesis
  proof (intro set_eqI iffI)
    fix x assume "x \<in> ran (m(i := None))"
    then obtain j where "j \<noteq> i" "m j = Some x" by (auto simp: ran_def split: if_splits)
    with u show "x \<in> ran m - {s}" by (auto simp: ran_def)
  next
    fix x assume "x \<in> ran m - {s}"
    then obtain j where j: "m j = Some x" "x \<noteq> s" by (auto simp: ran_def)
    with assms(2) have "(m(i := None)) j = Some x" by auto
    then show "x \<in> ran (m(i := None))" by (rule ranI)
  qed
qed

lemma inj_on_del: "inj_on m (dom m) \<Longrightarrow> inj_on (m(i := None)) (dom (m(i := None)))"
  by (auto simp: inj_on_def)

lemma inj_on_upd:
  "inj_on m (dom m) \<Longrightarrow> s \<notin> ran m \<Longrightarrow> inj_on (m(i \<mapsto> s)) (dom (m(i \<mapsto> s)))"
  by (auto simp: inj_on_def ran_def)

lemma sm_inv_Remove: "sm_inv m \<Longrightarrow> sm_inv (sm_Remove m i)"
proof (cases "sm_sessions m i")
  case (Some s)
  assume inv: "sm_inv m"
  then have inj: "inj_on (sm_sessions m) (dom (sm_sessions m))" by (simp add: sm_inv_def)
  have "s \<in> ran (sm_sessions m)" using Some by (auto simp: ran_def)
  with inv Some show ?thesis
    using ran_del [OF inj Some] inj_on_del [OF inj, of i]
    by (auto simp: sm_inv_def sm_Remove_def)
qed (simp add: sm_Remove_def)

lemma sm_inv_drop: "sm_inv m \<Longrightarrow> sm_inv (sm_drop m is)"
  by (induction m "is" rule: sm_drop.induct) (simp_all add: sm_inv_Remove)

lemma sm_inv_install:
  assumes "sm_inv m" and "s \<in> sm_pending m"
  shows "sm_inv (fst (sm_install m i s))"
proof (cases "sm_sessions m i")
  case None
  have "s \<notin> ran (sm_sessions m)" using assms by (auto simp: sm_inv_def)
  moreover have "inj_on (sm_sessions m) (dom (sm_sessions m))" using assms by (simp add: sm_inv_def)
  ultimately show ?thesis
    using assms None inj_on_upd [of "sm_sessions m" s i] ran_map_upd [of "sm_sessions m" i s]
    by (auto simp: sm_inv_def sm_install_def Let_def)
next
  case (Some t)
  with assms show ?thesis by (auto simp: sm_inv_def sm_install_def Let_def)
qed

lemma sm_inv_step: "sm_step m m' \<Longrightarrow> sm_inv m \<Longrightarrow> sm_inv m'"
proof (induction rule: sm_step.induct)
  case (create s m now)
  then show ?case by (auto simp: sm_inv_def sm_create_def)
next
  case (close s m)
  then show ?case by (auto simp: sm_inv_def sm_close_def)
next
  case (closeall m)
  then show ?case by (auto simp: sm_inv_def sm_CloseAll_def)
next
  case (cleanup m now "is")
  then show ?case by (simp add: sm_cleanup_def sm_inv_drop)
qed (simp_all add: sm_inv_Remove sm_inv_install)

lemma sm_reachable_inv: "sm_reachable m \<Longrightarrow> sm_inv m"
proof (induction rule: sm_reachable.induct)
  case init
  show ?case by (simp add: sm_inv_def sm_init_def)
qed (rule sm_inv_step)

section \<open>Properties\<close>

lemma sh_word_single:
  "sh_word InSingle (concat (map (\<lambda>c. if c = squote
     then [squote, dquote, squote, dquote, squote] else [c]) s) @ [squote]) = Some s"
proof (induction s)
  case (Cons c s)
  then show ?case by (auto simp: squote_def dquote_def)
qed (simp add: squote_def)

text \<open>whatever bytes a directory name holds, a POSIX shell reads \<open>shellQuote\<close> of it as
  exactly one word with exactly those bytes: nothing expands and nothing ends the word early.\<close>

theorem shellQuote_safe: "sh_word Unquoted (shellQuote s) = Some s"
  using sh_word_single [of s] by (simp add: shellQuote_def)

text \<open>C6: no shell leaks and none is shared: in every reachable state an open pty is owned by
  exactly one holder, so once no call is in flight and every pending close is done, the open
  shells are exactly those in the table, one per id.\<close>

theorem session_no_leak:
  assumes "sm_reachable m" and "sm_pending m = {}" and "sm_closing m = {}"
  shows "sm_open m = ran (sm_sessions m)
    \<and> (\<forall>i j s. sm_sessions m i = Some s \<longrightarrow> sm_sessions m j = Some s \<longrightarrow> i = j)"
  using sm_reachable_inv [OF assms(1)] assms(2,3)
  by (auto simp: sm_inv_def inj_on_def dom_def)

definition sm_race :: sess_mgr where
  "sm_race = sm_close (fst (sm_install (fst (sm_install
     (sm_create (sm_create sm_init 1 5) 2 6) ''main'' 1)) ''main'' 2)) 2"

lemma sm_race_reachable: "sm_reachable sm_race"
proof -
  let ?m0 = "sm_create sm_init 1 5"
  let ?m1 = "sm_create ?m0 2 6"
  let ?m2 = "fst (sm_install ?m1 ''main'' 1)"
  let ?m3 = "fst (sm_install ?m2 ''main'' 2)"
  note d = sm_create_def sm_init_def sm_install_def Let_def
  have "sm_reachable ?m1"
    by (rule sm_reachable.step [OF sm_reachable.step [OF sm_reachable.init sm_step.create]
        sm_step.create]) (simp_all add: d)
  then have "sm_reachable ?m2"
    by (rule sm_reachable.step) (rule sm_step.install, simp add: d)
  then have "sm_reachable ?m3"
    by (rule sm_reachable.step) (rule sm_step.install, simp add: d)
  then show ?thesis unfolding sm_race_def
    by (rule sm_reachable.step) (rule sm_step.close, simp add: d)
qed

theorem session_no_leak_witness:
  "sm_reachable sm_race \<and> sm_open sm_race = {1} \<and> sm_open sm_race = ran (sm_sessions sm_race)"
proof -
  have e: "sm_pending sm_race = {}" "sm_closing sm_race = {}" "sm_open sm_race = {1}"
    by (auto simp: sm_race_def sm_create_def sm_init_def sm_install_def sm_close_def Let_def)
  show ?thesis
    using session_no_leak [OF sm_race_reachable e(1,2)] sm_race_reachable e(3) by simp
qed

text \<open>the result of \<open>Execute\<close> depends on how the output bytes are cut into chunks: the
  loop stops at the first chunk that completes the marker and parses the exit code from what
  has arrived by then, so a read that ends between the marker and the code reports a command
  that succeeded as terminated with code -1.\<close>

theorem exec_chunking_matters:
  "\<exists>es es'. concat (map (\<lambda>e. case e of Chunk c \<Rightarrow> c | _ \<Rightarrow> []) es)
      = concat (map (\<lambda>e. case e of Chunk c \<Rightarrow> c | _ \<Rightarrow> []) es')
    \<and> exec_loop (exec_marker 1 2) [] es = Some (''ok'', 0, Completed)
    \<and> exec_loop (exec_marker 1 2) [] es' = Some (''ok'', - 1, Terminated)"
proof -
  let ?m = "exec_marker 1 2" and ?t = "'' 0'' @ newline"
  have m: "?m = ''__SANDBOX_END_1_2__''" by code_simp
  have 1: "exec_loop ''__SANDBOX_END_1_2__'' [] [Chunk (''ok'' @ newline @ ''__SANDBOX_END_1_2__'' @ ?t)]
      = Some (''ok'', 0, Completed)"
    by (simp add: newline_def Let_def go_strings parseExitCode_def is_space_def parse_int_def
        parse_uint_def digit_val_def statusFromCode_def)
  have 2: "exec_loop ''__SANDBOX_END_1_2__'' [] [Chunk (''ok'' @ newline @ ''__SANDBOX_END_1_2__''), Chunk ?t]
      = Some (''ok'', - 1, Terminated)"
    by (simp add: newline_def Let_def go_strings parseExitCode_def is_space_def parse_int_def
        parse_uint_def digit_val_def statusFromCode_def)
  show ?thesis
    unfolding m
  proof (intro exI conjI)
    show "concat (map (\<lambda>e. case e of Chunk c \<Rightarrow> c | _ \<Rightarrow> [])
          [Chunk (''ok'' @ newline @ ''__SANDBOX_END_1_2__'' @ ?t)])
        = concat (map (\<lambda>e. case e of Chunk c \<Rightarrow> c | _ \<Rightarrow> [])
          [Chunk (''ok'' @ newline @ ''__SANDBOX_END_1_2__''), Chunk ?t])" by simp
  qed (rule 1, rule 2)
qed

end
