(* ===== verification/Tunnel_Backoff.thy ===== *)
theory Tunnel_Backoff
  imports GoLib
begin

text \<open>
  Exponential backoff of the tunnel dialer (\<open>pkg/tunnel/backoff.go\<close>).

  Floating point. \<open>float64(Base) * math.Pow(2, attempts)\<close> is exact for the bases the code uses
  (below \<open>2 ^ 53\<close> ns): it is the integer \<open>Base * 2 ^ attempts\<close>, infinite from 1024 attempts on.
  Go converts a float to an integer exactly when it fits; when it does not, the result is
  implementation-dependent, and is the parameter \<open>conv\<close> here. The product with the jitter
  fraction is the parameter \<open>bc_spread\<close> of a configuration, \<open>rand.Int63n\<close> the parameter \<open>rnd\<close>.
\<close>

section \<open>Configuration and state\<close>

record backoff_cfg =
  bc_Base :: duration
  bc_Max :: duration
  bc_ResetAfter :: duration
  bc_MaxAttempts :: int
  bc_Jitter :: bool \<comment> \<open>whether \<open>Jitter > 0\<close>\<close>
  bc_spread :: "duration \<Rightarrow> duration" \<comment> \<open>\<open>int64(float64(d) * Jitter)\<close>\<close>

record backoff =
  bk_cfg :: backoff_cfg
  bk_attempts :: nat
  bk_last :: "instant option"

definition sec :: duration where "sec = 1000000000"

definition DialerBackoff :: "(duration \<Rightarrow> duration) \<Rightarrow> backoff_cfg" where
  "DialerBackoff spread = \<lparr>bc_Base = 2 * sec, bc_Max = 5 * 60 * sec, bc_ResetAfter = 10 * 60 * sec,
     bc_MaxAttempts = 0, bc_Jitter = True, bc_spread = spread\<rparr>"

definition StreamBackoff :: backoff_cfg where
  "StreamBackoff = \<lparr>bc_Base = 500000000, bc_Max = 30 * sec, bc_ResetAfter = 5 * 60 * sec,
     bc_MaxAttempts = 0, bc_Jitter = False, bc_spread = (\<lambda>_. 0)\<rparr>"

definition NewBackoff :: "(duration \<Rightarrow> duration) \<Rightarrow> backoff_cfg \<Rightarrow> backoff" where
  "NewBackoff spread cfg =
     \<lparr>bk_cfg = (if bc_Base cfg \<le> 0 then DialerBackoff spread else cfg), bk_attempts = 0, bk_last = None\<rparr>"

section \<open>Next and Reset\<close>

definition float_to_int64 :: "(int \<Rightarrow> int) \<Rightarrow> int \<Rightarrow> int" where
  "float_to_int64 conv x = (if - (2 ^ 63) \<le> x \<and> x < 2 ^ 63 then x else conv x)"

text \<open>\<open>now1\<close> is the clock read by \<open>time.Since\<close>, \<open>now2\<close> the one stored.\<close>

definition backoff_Next ::
  "(int \<Rightarrow> int) \<Rightarrow> (duration \<Rightarrow> duration) \<Rightarrow> backoff \<Rightarrow> instant \<Rightarrow> instant \<Rightarrow> backoff \<times> duration" where
  "backoff_Next conv rnd b now1 now2 =
     (let cfg = bk_cfg b;
          attempts = (case bk_last b of
             Some t \<Rightarrow> if 0 < bc_ResetAfter cfg \<and> bc_ResetAfter cfg < now1 - t then 0 else bk_attempts b
           | None \<Rightarrow> bk_attempts b)
      in if 0 < bc_MaxAttempts cfg \<and> bc_MaxAttempts cfg \<le> int attempts
         then (b\<lparr>bk_attempts := attempts\<rparr>, 0)
         else
           let d0 = float_to_int64 conv (bc_Base cfg * 2 ^ attempts);
               d = (if bc_Max cfg < d0 then bc_Max cfg else d0);
               b' = b\<lparr>bk_attempts := attempts + 1, bk_last := Some now2\<rparr>
           in if bc_Jitter cfg \<and> 0 < bc_spread cfg d then (b', d - rnd (bc_spread cfg d)) else (b', d))"

definition backoff_Reset :: "backoff \<Rightarrow> backoff" where
  "backoff_Reset b = b\<lparr>bk_attempts := 0, bk_last := None\<rparr>"

definition backoff_Attempts :: "backoff \<Rightarrow> nat" where
  "backoff_Attempts b = bk_attempts b"

text \<open>A retry loop: one \<open>Next\<close> per failed attempt, at the given instants.\<close>

fun backoff_run ::
  "(int \<Rightarrow> int) \<Rightarrow> (duration \<Rightarrow> duration) \<Rightarrow> backoff \<Rightarrow> instant list \<Rightarrow> backoff \<times> duration list" where
  "backoff_run conv rnd b [] = (b, [])"
| "backoff_run conv rnd b (t # ts) =
     (case backoff_Next conv rnd b t t of (b', d) \<Rightarrow>
        case backoff_run conv rnd b' ts of (b'', ds) \<Rightarrow> (b'', d # ds))"

lemma backoff_Next_cfg [simp]: "bk_cfg (fst (backoff_Next conv rnd b t u)) = bk_cfg b"
  by (simp add: backoff_Next_def Let_def split: option.split)

section \<open>Properties\<close>

text \<open>A configuration the code can use: positive base below the cap, the cap in range, and a
  jitter that takes away less than the delay.\<close>

definition backoff_cfg_ok :: "backoff_cfg \<Rightarrow> bool" where
  "backoff_cfg_ok c \<longleftrightarrow> 0 < bc_Base c \<and> bc_Base c \<le> bc_Max c \<and> bc_Max c < 2 ^ 63
     \<and> bc_MaxAttempts c = 0 \<and> (\<forall>d. 0 < d \<longrightarrow> bc_spread c d \<le> d)"

lemma backoff_Next_bounds:
  assumes "backoff_cfg_ok (bk_cfg b)" and "\<And>x. 2 ^ 63 \<le> x \<Longrightarrow> bc_Max (bk_cfg b) \<le> conv x"
    and "\<And>n. 0 < n \<Longrightarrow> 0 \<le> rnd n \<and> rnd n < n"
  shows "0 < snd (backoff_Next conv rnd b t u) \<and> snd (backoff_Next conv rnd b t u) \<le> bc_Max (bk_cfg b)"
proof -
  let ?c = "bk_cfg b"
  let ?cap = "\<lambda>n. let d0 = float_to_int64 conv (bc_Base ?c * 2 ^ n) in
      if bc_Max ?c < d0 then bc_Max ?c else d0"
  have cap: "0 < ?cap n \<and> ?cap n \<le> bc_Max ?c" for n :: nat
  proof -
    have "0 < bc_Base ?c * 2 ^ n" using assms(1) by (simp add: backoff_cfg_ok_def)
    have "- (2 ^ 63) \<le> (0::int)" by simp
    also have "\<dots> \<le> bc_Base ?c * 2 ^ n" using \<open>0 < bc_Base ?c * 2 ^ n\<close> by (rule less_imp_le)
    finally have "- (2 ^ 63) \<le> bc_Base ?c * 2 ^ n" .
    then have f: "float_to_int64 conv (bc_Base ?c * 2 ^ n) =
        (if bc_Base ?c * 2 ^ n < 2 ^ 63 then bc_Base ?c * 2 ^ n else conv (bc_Base ?c * 2 ^ n))"
      by (simp add: float_to_int64_def)
    have m: "0 < bc_Max ?c" using assms(1) by (simp add: backoff_cfg_ok_def)
    show ?thesis
    proof (cases "bc_Base ?c * 2 ^ n < 2 ^ 63")
      case True
      with f m \<open>0 < bc_Base ?c * 2 ^ n\<close> show ?thesis by (simp add: Let_def)
    next
      case False
      then have "bc_Max ?c \<le> conv (bc_Base ?c * 2 ^ n)" using assms(2) by simp
      with False f m show ?thesis by (simp add: Let_def)
    qed
  qed
  have jit: "0 < d \<Longrightarrow> d \<le> bc_Max ?c \<Longrightarrow> 0 < bc_spread ?c d \<Longrightarrow>
      0 < d - rnd (bc_spread ?c d) \<and> d - rnd (bc_spread ?c d) \<le> bc_Max ?c" for d
    using assms(1) assms(3) [of "bc_spread ?c d"] by (force simp: backoff_cfg_ok_def)
  define n where "n = (case bk_last b of
      Some t' \<Rightarrow> if 0 < bc_ResetAfter ?c \<and> bc_ResetAfter ?c < t - t' then 0 else bk_attempts b
    | None \<Rightarrow> bk_attempts b)"
  have "snd (backoff_Next conv rnd b t u) =
      (if bc_Jitter ?c \<and> 0 < bc_spread ?c (?cap n) then ?cap n - rnd (bc_spread ?c (?cap n)) else ?cap n)"
    using assms(1) unfolding backoff_Next_def Let_def n_def [symmetric]
    by (simp add: backoff_cfg_ok_def)
  then show ?thesis using cap [of n] jit [of "?cap n"] by (simp add: Let_def)
qed

text \<open>with a usable configuration, on a platform whose out-of-range float conversions
  saturate, every delay of a retry loop of any length is positive and at most the cap, whatever
  the instants of the attempts and the random numbers.\<close>

theorem backoff_delays_bounded:
  assumes "backoff_cfg_ok cfg" and "\<And>x. 2 ^ 63 \<le> x \<Longrightarrow> conv x = 2 ^ 63 - 1"
    and "\<And>n. 0 < n \<Longrightarrow> 0 \<le> rnd n \<and> rnd n < n"
    and "d \<in> set (snd (backoff_run conv rnd (NewBackoff spread cfg) ts))"
  shows "0 < d \<and> d \<le> bc_Max cfg"
proof -
  have c: "bk_cfg (NewBackoff spread cfg) = cfg"
    using assms(1) by (simp add: NewBackoff_def backoff_cfg_ok_def)
  have "bk_cfg b = cfg \<Longrightarrow> d \<in> set (snd (backoff_run conv rnd b ts)) \<Longrightarrow> 0 < d \<and> d \<le> bc_Max cfg" for b
  proof (induction ts arbitrary: b)
    case (Cons t ts)
    have "0 < snd (backoff_Next conv rnd b t t) \<and> snd (backoff_Next conv rnd b t t) \<le> bc_Max cfg"
      using backoff_Next_bounds [of b conv rnd t t] assms(1-3) Cons.prems(1)
      by (auto simp: backoff_cfg_ok_def)
    then show ?case
      using Cons.IH [of "fst (backoff_Next conv rnd b t t)"] Cons.prems
      by (auto split: prod.splits)
  qed simp
  with c assms(4) show ?thesis by blast
qed

theorem backoff_delays_bounded_witness:
  "snd (backoff_run (\<lambda>_. 2 ^ 63 - 1) (\<lambda>_. 0) (NewBackoff (\<lambda>_. 0) StreamBackoff) [0, 1, 2]) =
     [500000000, 1000000000, 2000000000]
   \<and> (0::int) < 2000000000 \<and> (2000000000::int) \<le> bc_Max StreamBackoff"
proof -
  have ok: "backoff_cfg_ok StreamBackoff" by (simp add: backoff_cfg_ok_def StreamBackoff_def sec_def)
  have e: "snd (backoff_run (\<lambda>_. 2 ^ 63 - 1) (\<lambda>_. 0) (NewBackoff (\<lambda>_. 0) StreamBackoff) [0, 1, 2]) =
     [500000000, 1000000000, 2000000000]"
    by (simp add: NewBackoff_def StreamBackoff_def sec_def backoff_Next_def float_to_int64_def Let_def)
  have "(0::int) < 2000000000 \<and> (2000000000::int) \<le> bc_Max StreamBackoff"
  proof (rule backoff_delays_bounded [OF ok, of "\<lambda>_. 2 ^ 63 - 1" "\<lambda>_. 0"])
    show "2000000000 \<in> set (snd (backoff_run (\<lambda>_. 2 ^ 63 - 1) (\<lambda>_. 0)
        (NewBackoff (\<lambda>_. 0) StreamBackoff) [0, 1, 2]))"
      unfolding e by simp
  qed simp_all
  with e show ?thesis by simp
qed

lemma backoff_run_attempts:
  "bk_cfg b = cfg \<Longrightarrow> bc_MaxAttempts cfg = 0 \<Longrightarrow>
   (\<And>t. bk_last b = Some t \<Longrightarrow> t = t0 - s) \<Longrightarrow> s \<le> bc_ResetAfter cfg \<Longrightarrow>
   bk_attempts (fst (backoff_run conv rnd b (map (\<lambda>i. t0 + s * int i) [0..<n]))) = bk_attempts b + n
   \<and> bk_cfg (fst (backoff_run conv rnd b (map (\<lambda>i. t0 + s * int i) [0..<n]))) = cfg
   \<and> (0 < n \<longrightarrow> bk_last (fst (backoff_run conv rnd b (map (\<lambda>i. t0 + s * int i) [0..<n])))
        = Some (t0 + s * (int n - 1)))"
proof (induction n arbitrary: b t0)
  case (Suc n)
  let ?b = "fst (backoff_Next conv rnd b t0 t0)"
  have b: "bk_attempts ?b = bk_attempts b + 1" "bk_last ?b = Some t0" "bk_cfg ?b = cfg"
    using Suc.prems by (auto simp: backoff_Next_def Let_def split: option.split)
  have ts: "map (\<lambda>i. t0 + s * int i) [0..<Suc n] = t0 # map (\<lambda>i. (t0 + s) + s * int i) [0..<n]"
    by (simp add: map_upt_Suc algebra_simps del: upt_Suc)
  have r: "fst (backoff_run conv rnd b (map (\<lambda>i. t0 + s * int i) [0..<Suc n]))
      = fst (backoff_run conv rnd ?b (map (\<lambda>i. (t0 + s) + s * int i) [0..<n]))"
    unfolding ts by (simp split: prod.split)
  show ?case
    unfolding r using Suc.IH [of ?b "t0 + s"] b Suc.prems
    by (cases n) (simp_all add: algebra_simps)
qed simp

text \<open>the cap fails under the conversion of amd64, where every out-of-range value becomes
  the smallest 64-bit integer. After 33 consecutive failures a minute apart (never quiet for the
  reset window), the dialer's next delay is negative: the retry loop no longer waits.\<close>

theorem backoff_overflow_negative:
  "(let b = fst (backoff_run (\<lambda>_. - (2 ^ 63)) (\<lambda>_. 0) (NewBackoff sp (DialerBackoff (\<lambda>d. d * 3 div 10)))
          (map (\<lambda>i. 60 * sec * int i) [0..<33]))
    in snd (backoff_Next (\<lambda>_. - (2 ^ 63)) (\<lambda>_. 0) b (60 * sec * 33) (60 * sec * 33))) = - (2 ^ 63)"
proof -
  let ?c = "DialerBackoff (\<lambda>d. d * 3 div 10)"
  let ?init = "NewBackoff sp ?c"
  let ?b = "fst (backoff_run (\<lambda>_. - (2 ^ 63)) (\<lambda>_. 0) ?init (map (\<lambda>i. 60 * sec * int i) [0..<33]))"
  have b0: "bk_cfg ?init = ?c" "bk_attempts ?init = 0" "bk_last ?init = None"
    by (simp_all add: NewBackoff_def DialerBackoff_def sec_def)
  have "bk_attempts ?b = 33 \<and> bk_cfg ?b = ?c \<and> bk_last ?b = Some (60 * sec * 32)"
    using backoff_run_attempts [of ?init ?c 0 "60 * sec" "\<lambda>_. - (2 ^ 63)" "\<lambda>_. 0" 33] b0
    by (simp add: DialerBackoff_def sec_def)
  then show ?thesis
    by (simp add: Let_def backoff_Next_def float_to_int64_def DialerBackoff_def sec_def)
qed

end
