(* ===== verification/Http.thy ===== *)
theory Http
  imports GoLib "HOL-Library.List_Lexorder"
begin

text \<open>
  The part of package \<open>net/http\<close> that the modelled handlers read and write: headers keyed by
  canonical name, requests with their verified client certificates, and the replies a handler
  can write. Parsing of the wire format, of cookies, of forms and of URLs is done by the
  standard library before a handler runs; a request record carries its results.
\<close>

section \<open>Headers\<close>

type_synonym header = "string \<Rightarrow> string list option"

definition upper_char :: "char \<Rightarrow> char" where
  "upper_char c =
     (if CHR ''a'' \<le> c \<and> c \<le> CHR ''z'' then char_of ((of_char c :: nat) - 32) else c)"

definition token_char :: "char \<Rightarrow> bool" where
  "token_char c \<longleftrightarrow> is_alnum c \<or> c \<in> set (''!#$%&*+-.^_`|~'' @ [CHR 0x27])"

text \<open>\<open>textproto.CanonicalMIMEHeaderKey\<close>.\<close>

fun canon_from :: "bool \<Rightarrow> string \<Rightarrow> string" where
  "canon_from up [] = []"
| "canon_from up (c # cs) =
     (if up then upper_char c else lower_char c) # canon_from (c = CHR ''-'') cs"

definition canon_key :: "string \<Rightarrow> string" where
  "canon_key k = (if list_all token_char k then canon_from True k else k)"

definition hget :: "header \<Rightarrow> string \<Rightarrow> string" where
  "hget h k = (case h (canon_key k) of Some (v # _) \<Rightarrow> v | _ \<Rightarrow> [])"

definition hset :: "header \<Rightarrow> string \<Rightarrow> string \<Rightarrow> header" where
  "hset h k v = h(canon_key k \<mapsto> [v])"

definition hadd :: "header \<Rightarrow> string \<Rightarrow> string \<Rightarrow> header" where
  "hadd h k v = h(canon_key k \<mapsto> (case h (canon_key k) of None \<Rightarrow> [v] | Some vs \<Rightarrow> vs @ [v]))"

definition hdel :: "header \<Rightarrow> string \<Rightarrow> header" where
  "hdel h k = h(canon_key k := None)"

named_theorems http_header
declare hget_def [http_header] hset_def [http_header] hadd_def [http_header] hdel_def [http_header]

lemma hget_hset [simp]: "hget (hset h k v) k = v"
  by (simp add: http_header)

lemma hget_hset_other [simp]: "canon_key k \<noteq> canon_key k' \<Longrightarrow> hget (hset h k v) k' = hget h k'"
  by (simp add: http_header)

lemma hget_hdel [simp]: "hget (hdel h k) k = []"
  by (simp add: http_header)

lemma hget_hdel_other [simp]: "canon_key k \<noteq> canon_key k' \<Longrightarrow> hget (hdel h k) k' = hget h k'"
  by (simp add: http_header)

lemma hget_empty [simp]: "hget Map.empty k = []"
  by (simp add: http_header)

section \<open>Requests and replies\<close>

text \<open>A client certificate the TLS layer has verified: its subject's common name and its URI
  alternative names, as strings.\<close>

record cert =
  cert_CN :: string
  cert_URIs :: "string list"

record request =
  rq_Method :: string
  rq_Path :: string
  rq_RawQuery :: string
  rq_Query :: "(string \<times> string) list" \<comment> \<open>\<open>URL.Query()\<close>\<close>
  rq_RequestURI :: string
  rq_URLHost :: string
  rq_Host :: string
  rq_Header :: header
  rq_TLS :: "cert list option" \<comment> \<open>\<open>None\<close>: no TLS; else the peer's certificates\<close>
  rq_RemoteAddr :: string
  rq_Cookies :: "(string \<times> string) list" \<comment> \<open>the parsed \<open>Cookie\<close> header\<close>
  rq_Form :: "((string \<times> string) list) option" \<comment> \<open>\<open>None\<close>: \<open>ParseForm\<close> fails\<close>

definition blank_request :: request where
  "blank_request = \<lparr>rq_Method = ''GET'', rq_Path = ''/'', rq_RawQuery = [], rq_Query = [],
     rq_RequestURI = ''/'', rq_URLHost = [], rq_Host = [], rq_Header = Map.empty, rq_TLS = None,
     rq_RemoteAddr = [], rq_Cookies = [], rq_Form = Some []\<rparr>"

text \<open>\<open>url.Values.Get\<close>, \<open>PostFormValue\<close>, \<open>r.Cookie\<close>: the first value of a name.\<close>

definition values_get :: "(string \<times> string) list \<Rightarrow> string \<Rightarrow> string" where
  "values_get vs k = (case map_of vs k of Some v \<Rightarrow> v | None \<Rightarrow> [])"

definition form_value :: "request \<Rightarrow> string \<Rightarrow> string" where
  "form_value r k = (case rq_Form r of Some vs \<Rightarrow> values_get vs k | None \<Rightarrow> [])"

text \<open>\<open>FormValue\<close> looks at the body first and then at the query.\<close>

definition any_form_value :: "request \<Rightarrow> string \<Rightarrow> string" where
  "any_form_value r k = values_get ((case rq_Form r of Some vs \<Rightarrow> vs | None \<Rightarrow> []) @ rq_Query r) k"

definition cookie_of :: "request \<Rightarrow> string \<Rightarrow> string option" where
  "cookie_of r k = map_of (rq_Cookies r) k"

text \<open>What a handler that may pass a request on does with it: it has written a reply with a
  status (and a text or a location), or it passes on.\<close>

datatype 'a verdict = Reply nat string | Pass 'a

text \<open>The host without its port, as several handlers cut it: at the first colon, unless that is
  the first byte.\<close>

definition cut_port :: "string \<Rightarrow> string" where
  "cut_port host = (case index_byte host (CHR '':'') of
     Some i \<Rightarrow> if 0 < i then take i host else host | None \<Rightarrow> host)"

text \<open>\<open>net.SplitHostPort\<close>, as far as the host.\<close>

definition split_host_port :: "string \<Rightarrow> string option" where
  "split_host_port hp =
     (case last_index hp '':'' of
        None \<Rightarrow> None
      | Some i \<Rightarrow>
          if hp \<noteq> [] \<and> hd hp = CHR ''['' then
            (case index_byte hp (CHR '']'') of
               None \<Rightarrow> None
             | Some e \<Rightarrow>
                 if e + 1 = i \<and> CHR ''['' \<notin> set (drop 1 hp) \<and> CHR '']'' \<notin> set (drop (e + 1) hp)
                 then Some (take (e - 1) (drop 1 hp)) else None)
          else if CHR '':'' \<in> set (take i hp) \<or> CHR ''['' \<in> set hp \<or> CHR '']'' \<in> set hp then None
          else Some (take i hp))"

text \<open>\<open>url.QueryEscape\<close> and \<open>url.Values.Encode\<close>: the pairs sorted by key.\<close>

definition hex_upper :: "nat \<Rightarrow> char" where
  "hex_upper d = char_of (if d < 10 then 48 + d else 55 + d)"

definition query_escape_char :: "char \<Rightarrow> string" where
  "query_escape_char c =
     (if is_alnum c
         \<or> c \<in> set ''-_.~'' then [c]
      else if c = CHR '' '' then ''+''
      else (let n = (of_char c :: nat) in [CHR ''%'', hex_upper (n div 16), hex_upper (n mod 16)]))"

definition query_escape :: "string \<Rightarrow> string" where
  "query_escape s = concat (map query_escape_char s)"

definition values_encode :: "(string \<times> string) list \<Rightarrow> string" where
  "values_encode q = join_str ''&'' (map (\<lambda>(k, v). query_escape k @ ''='' @ query_escape v) (sort_key fst q))"

text \<open>A cookie that a handler sets.\<close>

record set_cookie =
  sc_Name :: string
  sc_Value :: string
  sc_Path :: string
  sc_Secure :: bool
  sc_HttpOnly :: bool
  sc_SameSite :: string
  sc_MaxAge :: int

end
