(* ===== verification/Tunnel_Wire.thy ===== *)
theory Tunnel_Wire
  imports Http
begin

text \<open>
  The two handshakes of the tunnel (\<open>pkg/tunnel/handshake.go\<close>, \<open>pkg/tunnel/connect.go\<close>): the
  hand-written parsers of the reply, the CONNECT request text, the dial target, the server
  side, and the connections that replay bytes a buffered reader already holds.

  A buffered reader over a connection is the string of all bytes still to come, after which the
  connection fails or ends; \<open>None\<close> and the error constructors say where that happened.
\<close>

section \<open>Reading the reply\<close>

definition lf :: char where "lf = CHR 0x0A"
definition crlf :: string where "crlf = [CHR 0x0D, CHR 0x0A]"

text \<open>\<open>br.ReadString('\n')\<close>: the line with its newline and the rest.\<close>

fun read_line :: "bytes \<Rightarrow> (bytes \<times> bytes) option" where
  "read_line [] = None"
| "read_line (c # cs) =
     (if c = lf then Some ([c], cs)
      else map_option (\<lambda>(l, r). (c # l, r)) (read_line cs))"

lemma read_line_shorter: "read_line s = Some (l, r) \<Longrightarrow> length r < length s"
  by (induction s arbitrary: l) (auto split: if_splits)

text \<open>The loop that drops header lines up to and including the empty one.\<close>

function drop_headers :: "bytes \<Rightarrow> bytes option" where
  "drop_headers s =
     (case read_line s of
        None \<Rightarrow> None
      | Some (line, rest) \<Rightarrow> if line = crlf \<or> line = [lf] then Some rest else drop_headers rest)"
  by pat_completeness auto
termination
  by (relation "measure length") (auto simp: read_line_shorter)

declare drop_headers.simps [simp del]

datatype handshake_error = ReadStatusLine | ReadHeaders | Rejected string

definition status_ok :: "string \<Rightarrow> bool" where
  "status_ok line \<longleftrightarrow> contains_str line '' 200 ''"

definition readHandshakeResponse :: "bytes \<Rightarrow> handshake_error + bytes" where
  "readHandshakeResponse br =
     (case read_line br of
        None \<Rightarrow> Inl ReadStatusLine
      | Some (statusLine, rest) \<Rightarrow>
          (case drop_headers rest of
             None \<Rightarrow> Inl ReadHeaders
           | Some rest' \<Rightarrow>
               if \<not> status_ok statusLine then Inl (Rejected (trim_space statusLine))
               else Inr rest'))"

definition ReadConnectResponse :: "bytes \<Rightarrow> handshake_error + bytes" where
  "ReadConnectResponse r =
     (case read_line r of
        None \<Rightarrow> Inl ReadStatusLine
      | Some (statusLine, rest) \<Rightarrow>
          (case drop_headers rest of
             None \<Rightarrow> Inl ReadHeaders
           | Some rest' \<Rightarrow>
               if \<not> status_ok statusLine then Inl (Rejected (trim_space statusLine))
               else Inr rest'))"

section \<open>Requests\<close>

definition HandshakeHeader :: string where "HandshakeHeader = ''X-Tunnel-Role''"
definition HeaderDeviceID :: string where "HeaderDeviceID = ''X-Device-ID''"
definition HeaderClusterID :: string where "HeaderClusterID = ''X-Cluster-ID''"
definition RoleDevice :: string where "RoleDevice = ''device''"
definition RoleCluster :: string where "RoleCluster = ''cluster''"

text \<open>The request that \<open>writeHandshakeRequest\<close> builds: three headers set, then the caller's
  added in order.\<close>

definition handshake_headers :: "string \<Rightarrow> (string \<times> string list) list \<Rightarrow> header" where
  "handshake_headers role extra =
     fold (\<lambda>(k, vs) h. fold (\<lambda>v h. hadd h k v) vs h) extra
       (hset (hset (hset Map.empty ''Connection'' ''close'') ''User-Agent'' ''ad-sandbox-tunnel/1'')
         HandshakeHeader role)"

definition writeHandshakeRequest :: "string \<Rightarrow> string \<Rightarrow> string \<Rightarrow> (string \<times> string list) list \<Rightarrow> request" where
  "writeHandshakeRequest host path role extra =
     blank_request\<lparr>rq_Method := ''PUT'', rq_Path := path, rq_Host := host,
       rq_Header := handshake_headers role extra\<rparr>"

text \<open>\<open>WriteConnect\<close>: the text on the wire, with the headers in map order.\<close>

definition WriteConnect :: "string \<Rightarrow> (string \<times> string list) list \<Rightarrow> string" where
  "WriteConnect target headers =
     ''CONNECT '' @ target @ '' HTTP/1.1'' @ crlf @ ''Host: '' @ target @ crlf
     @ concat (map (\<lambda>(k, vs). concat (map (\<lambda>v. k @ '': '' @ v @ crlf) vs)) headers) @ crlf"

text \<open>The checks and defaults of \<open>Dial\<close> before it opens a socket. The parsed URL is its scheme,
  its host with port, and the port.\<close>

record dial_config =
  dc_BrokerURL :: string
  dc_Path :: string
  dc_Role :: string
  dc_HandshakeTimeout :: duration

record url_parts =
  u_Scheme :: string
  u_Host :: string
  u_Port :: string

datatype dial_error = RoleRequired | URLRequired | BadURL | BadScheme string

record dial_target =
  dt_addr :: string
  dt_tls :: bool
  dt_host :: string
  dt_path :: string
  dt_timeout :: duration

definition dial_prepare :: "dial_config \<Rightarrow> (string \<Rightarrow> url_parts option) \<Rightarrow> dial_error + dial_target" where
  "dial_prepare cfg url_parse =
     (if dc_Role cfg = [] then Inl RoleRequired
      else if dc_BrokerURL cfg = [] then Inl URLRequired
      else case url_parse (dc_BrokerURL cfg) of
        None \<Rightarrow> Inl BadURL
      | Some u \<Rightarrow>
          let path = (if dc_Path cfg = [] then ''/tunnel'' else dc_Path cfg);
              timeout = (if dc_HandshakeTimeout cfg \<le> 0 then 30 * 1000000000 else dc_HandshakeTimeout cfg);
              host = (if u_Port u = [] then
                        (if u_Scheme u = ''https'' then u_Host u @ '':443'' else u_Host u @ '':80'')
                      else u_Host u)
          in if u_Scheme u = ''https'' then
               Inr \<lparr>dt_addr = host, dt_tls = True, dt_host = u_Host u, dt_path = path, dt_timeout = timeout\<rparr>
             else if u_Scheme u = ''http'' then
               Inr \<lparr>dt_addr = host, dt_tls = False, dt_host = u_Host u, dt_path = path, dt_timeout = timeout\<rparr>
             else Inl (BadScheme (u_Scheme u)))"

section \<open>The server side of CONNECT\<close>

text \<open>\<open>AcceptConnect\<close> as the trace of what it does to the reply writer and to the upstream, for
  each outcome of the dial, of the hijacker check and of the hijack.\<close>

datatype connect_effect = WroteStatus nat | DialedUpstream | ClosedUpstream | Hijacked
datatype connect_result = NotConnect | DialFailed string | NoHijacker | HijackFailed
  | is_Piped: Piped bytes \<comment> \<open>accepted; the buffered bytes replayed first\<close>

definition AcceptConnect ::
  "string \<Rightarrow> (string + unit) \<Rightarrow> bool \<Rightarrow> bytes option \<Rightarrow> connect_effect list \<times> connect_result" where
  "AcceptConnect method dial hijacker hijack =
     (if method \<noteq> ''CONNECT'' then ([WroteStatus StatusBadRequest], NotConnect)
      else case dial of
        Inl err \<Rightarrow> ([WroteStatus StatusBadGateway], DialFailed err)
      | Inr _ \<Rightarrow>
          if \<not> hijacker then ([DialedUpstream, WroteStatus StatusOK, ClosedUpstream], NoHijacker)
          else case hijack of
            None \<Rightarrow> ([DialedUpstream, WroteStatus StatusOK, ClosedUpstream], HijackFailed)
          | Some buffered \<Rightarrow> ([DialedUpstream, WroteStatus StatusOK, Hijacked], Piped buffered))"

section \<open>Connections that replay buffered bytes\<close>

text \<open>A reader with some bytes buffered in front of the connection. One \<open>Read\<close> of at most
  \<open>n\<close> bytes returns buffered bytes as long as there are any; otherwise it reads the connection,
  which returns some number of bytes up to \<open>n\<close>, here \<open>min n k\<close>.\<close>

record replay_conn =
  rp_buffered :: bytes
  rp_conn :: bytes

definition conn_read :: "nat \<Rightarrow> nat \<Rightarrow> replay_conn \<Rightarrow> bytes \<times> replay_conn" where
  "conn_read n k d = (take (min n k) (rp_conn d), d\<lparr>rp_conn := drop (min n k) (rp_conn d)\<rparr>)"

definition bufio_read :: "nat \<Rightarrow> replay_conn \<Rightarrow> bytes \<times> replay_conn" where
  "bufio_read n d = (take n (rp_buffered d), d\<lparr>rp_buffered := drop n (rp_buffered d)\<rparr>)"

definition drainConn_Read :: "nat \<Rightarrow> nat \<Rightarrow> replay_conn \<Rightarrow> bytes \<times> replay_conn" where
  "drainConn_Read n k d = (if rp_buffered d \<noteq> [] then bufio_read n d else conn_read n k d)"

definition DrainedReadWriteCloser_Read :: "nat \<Rightarrow> nat \<Rightarrow> replay_conn \<Rightarrow> bytes \<times> replay_conn" where
  "DrainedReadWriteCloser_Read n k d = (if rp_buffered d \<noteq> [] then bufio_read n d else conn_read n k d)"

definition upgradeBody_Read :: "nat \<Rightarrow> nat \<Rightarrow> replay_conn \<Rightarrow> bytes \<times> replay_conn" where
  "upgradeBody_Read n k u = (if rp_buffered u \<noteq> [] then bufio_read n u else conn_read n k u)"

text \<open>The interface the byte pump relies on: what a reader still has to deliver, and that a read
  takes its result off the front.\<close>

fun read_all :: "(nat \<Rightarrow> nat \<Rightarrow> 's \<Rightarrow> bytes \<times> 's) \<Rightarrow> (nat \<times> nat) list \<Rightarrow> 's \<Rightarrow> bytes \<times> 's" where
  "read_all rd [] s = ([], s)"
| "read_all rd ((n, k) # rs) s =
     (case rd n k s of (b, s') \<Rightarrow> case read_all rd rs s' of (bs, s'') \<Rightarrow> (b @ bs, s''))"

locale stream_reader =
  fixes to_come :: "'s \<Rightarrow> bytes" and rd :: "nat \<Rightarrow> nat \<Rightarrow> 's \<Rightarrow> bytes \<times> 's"
  assumes rd_takes: "to_come s = fst (rd n k s) @ to_come (snd (rd n k s))"
    and rd_bound: "length (fst (rd n k s)) \<le> n"
    and rd_progress: "to_come s \<noteq> [] \<Longrightarrow> 0 < n \<Longrightarrow> 0 < k \<Longrightarrow> fst (rd n k s) \<noteq> []"
begin

lemma read_all_takes: "to_come s = fst (read_all rd rs s) @ to_come (snd (read_all rd rs s))"
proof (induction rs arbitrary: s)
  case (Cons r rs)
  obtain n k where r: "r = (n, k)" by fastforce
  show ?case
    using rd_takes [of s n k] Cons.IH [of "snd (rd n k s)"] r by (auto split: prod.splits)
qed simp

text \<open>Enough reads deliver everything.\<close>

lemma read_all_complete:
  "length (to_come s) \<le> m \<Longrightarrow> 0 < n \<Longrightarrow> 0 < k \<Longrightarrow>
   fst (read_all rd (replicate m (n, k)) s) = to_come s"
proof (induction m arbitrary: s)
  case (Suc m)
  let ?b = "fst (rd n k s)" and ?s = "snd (rd n k s)"
  have eq: "fst (read_all rd (replicate (Suc m) (n, k)) s)
      = ?b @ fst (read_all rd (replicate m (n, k)) ?s)"
    by (simp split: prod.split)
  have len: "length (to_come s) = length ?b + length (to_come ?s)"
    using rd_takes [of s n k] by (metis length_append)
  have "length (to_come ?s) \<le> m"
  proof (cases "to_come s = []")
    case True
    with len show ?thesis by simp
  next
    case False
    then have "0 < length ?b" using rd_progress [of s n k] Suc.prems(2,3) by simp
    with len Suc.prems(1) show ?thesis by linarith
  qed
  then have "fst (read_all rd (replicate m (n, k)) ?s) = to_come ?s"
    using Suc.IH Suc.prems by blast
  then show ?case unfolding eq using rd_takes [of s n k] by simp
qed simp

end

definition replay_to_come :: "replay_conn \<Rightarrow> bytes" where
  "replay_to_come d = rp_buffered d @ rp_conn d"

lemmas replay_defs = replay_to_come_def conn_read_def bufio_read_def drainConn_Read_def
  DrainedReadWriteCloser_Read_def upgradeBody_Read_def

interpretation drain: stream_reader replay_to_come drainConn_Read
  by unfold_locales (auto simp: replay_defs)

interpretation drained_rwc: stream_reader replay_to_come DrainedReadWriteCloser_Read
  by unfold_locales (auto simp: replay_defs)

interpretation upgrade: stream_reader replay_to_come upgradeBody_Read
  by unfold_locales (auto simp: replay_defs)

section \<open>Properties\<close>

text \<open>A line without its newline, and a header line that is not the blank one.\<close>

definition plain_line :: "string \<Rightarrow> bool" where
  "plain_line l \<longleftrightarrow> lf \<notin> set l"

definition header_line :: "string \<Rightarrow> bool" where
  "header_line l \<longleftrightarrow> plain_line l \<and> l \<noteq> [] \<and> l \<noteq> [CHR 0x0D]"

definition header_block :: "string list \<Rightarrow> bytes" where
  "header_block hs = concat (map (\<lambda>h. h @ [lf]) hs) @ crlf"

lemma read_line_plain [simp]: "plain_line l \<Longrightarrow> read_line (l @ lf # r) = Some (l @ [lf], r)"
  by (induction l) (auto simp: plain_line_def)

lemma drop_headers_block:
  "list_all header_line hs \<Longrightarrow> drop_headers (header_block hs @ rest) = Some rest"
proof (induction hs)
  case Nil
  have "read_line (crlf @ rest) = Some (crlf, rest)"
    by (simp add: crlf_def lf_def)
  then show ?case
    by (simp add: header_block_def drop_headers.simps [of "crlf @ rest"])
next
  case (Cons h hs)
  have h: "plain_line h" "h @ [lf] \<noteq> crlf" "h @ [lf] \<noteq> [lf]"
    using Cons.prems by (auto simp: header_line_def crlf_def lf_def append_eq_Cons_conv)
  have s: "header_block (h # hs) @ rest = h @ lf # (header_block hs @ rest)"
    by (simp add: header_block_def)
  show ?case
    unfolding s drop_headers.simps [of "h @ lf # (header_block hs @ rest)"]
    using h Cons by simp
qed

lemma reply_parse:
  assumes "plain_line s" and "list_all header_line hs"
  shows "readHandshakeResponse (s @ lf # header_block hs @ rest)
      = (if status_ok (s @ [lf]) then Inr rest else Inl (Rejected (trim_space (s @ [lf]))))"
  using assms by (simp add: readHandshakeResponse_def drop_headers_block)

text \<open>the handshake hands the stream over at the right byte. For every reply with a status
  line and headers, the parser stops exactly behind the blank line, whatever follows, and reading
  on through the replaying connection delivers exactly the bytes that follow, wherever the
  buffered reader had stopped: the multiplexer's first frame is neither eaten nor reordered.\<close>

theorem handshake_hands_over:
  assumes "plain_line s" and "status_ok (s @ [lf])" and "list_all header_line hs"
    and "length rest \<le> m" and "0 < n" and "0 < k"
  shows "readHandshakeResponse (s @ lf # header_block hs @ rest) = Inr rest
    \<and> fst (read_all drainConn_Read (replicate m (n, k))
          \<lparr>rp_buffered = take j rest, rp_conn = drop j rest\<rparr>) = rest"
  using assms reply_parse [OF assms(1,3)]
    drain.read_all_complete [of "\<lparr>rp_buffered = take j rest, rp_conn = drop j rest\<rparr>" m n k]
  by (simp add: replay_to_come_def)

theorem handshake_hands_over_witness:
  "readHandshakeResponse (''HTTP/1.1 200 OK'' @ [CHR 0x0D] @ lf # header_block [''Content-Length: 0'' @ [CHR 0x0D]] @ ''yamux'')
     = Inr ''yamux''
   \<and> fst (read_all drainConn_Read (replicate 5 (4, 2)) \<lparr>rp_buffered = ''yam'', rp_conn = ''ux''\<rparr>) = ''yamux''"
proof -
  have h: "plain_line (''HTTP/1.1 200 OK'' @ [CHR 0x0D])"
    "status_ok ((''HTTP/1.1 200 OK'' @ [CHR 0x0D]) @ [lf])"
    "list_all header_line [''Content-Length: 0'' @ [CHR 0x0D]]"
    by (simp_all add: plain_line_def lf_def status_ok_def go_strings header_line_def)
  show ?thesis
    using handshake_hands_over [OF h, of "''yamux''" 5 4 2 3] by simp
qed

text \<open>the acceptance test is only that the status line contains the text 200 between
  spaces. A reply that refuses the device, with a reason phrase in which that text occurs, is
  taken for success, although anything but a 200 status is meant to be a rejection.\<close>

theorem handshake_accepts_refusal:
  "readHandshakeResponse (''HTTP/1.1 403 only 200 devices'' @ crlf @ crlf) = Inr []
   \<and> ReadConnectResponse (''HTTP/1.1 502 upstream sent 200 bytes'' @ crlf @ crlf) = Inr []"
  by (simp add: readHandshakeResponse_def ReadConnectResponse_def crlf_def lf_def
      drop_headers.simps status_ok_def go_strings)

text \<open>accepting a CONNECT never leaks the upstream connection. It is closed in exactly the
  outcomes where it was dialed and is not handed on, the client sees 200 in exactly the outcomes
  where the dial succeeded, and every outcome writes exactly one status.\<close>

theorem accept_connect_no_leak:
  "case AcceptConnect method dial hijacker hijack of (effs, res) \<Rightarrow>
     (ClosedUpstream \<in> set effs \<longleftrightarrow> DialedUpstream \<in> set effs \<and> \<not> is_Piped res)
     \<and> (WroteStatus StatusOK \<in> set effs \<longleftrightarrow> DialedUpstream \<in> set effs)
     \<and> length (filter (\<lambda>e. case e of WroteStatus _ \<Rightarrow> True | _ \<Rightarrow> False) effs) = 1"
  by (simp add: AcceptConnect_def split: sum.split option.split)

end
