(* ===== verification/Tunnel_Pump.thy ===== *)
theory Tunnel_Pump
  imports GoLib
begin

text \<open>
  The bidirectional byte pump (\<open>pkg/tunnel/copy.go\<close>) and the one-shot close hook
  (\<open>pkg/tunnel/wconn.go\<close>). \<open>CopyStreams\<close> runs four goroutines: two pumps, the one that
  refreshes deadlines and watches the context, and the caller that collects the two results.
  They interleave freely, so the program is a step relation whose state holds the program
  counter of each pump, the result channel, the close-once flag and the context. A direction is a
  \<open>bool\<close>: \<open>True\<close> from \<open>a\<close> to \<open>b\<close>.
\<close>

section \<open>Options and errors\<close>

record copy_options =
  co_BufSize :: int
  co_DeadlineRefresh :: duration
  co_IdleTimeout :: duration

definition withDefaults :: "copy_options \<Rightarrow> copy_options" where
  "withDefaults opts =
     \<lparr>co_BufSize = (if co_BufSize opts \<le> 0 then 32 * 1024 else co_BufSize opts),
      co_DeadlineRefresh = (if co_DeadlineRefresh opts \<le> 0 then 10 * 1000000000 else co_DeadlineRefresh opts),
      co_IdleTimeout = (if co_IdleTimeout opts \<le> 0 then 60 * 1000000000 else co_IdleTimeout opts)\<rparr>"

text \<open>How a copy ends: nil, an error that is end-of-file, or another error with its text.\<close>

datatype copy_err = NilErr | EOFErr | OtherErr string

definition isClosedConnErr :: "string \<Rightarrow> bool" where
  "isClosedConnErr s \<longleftrightarrow> s = ''use of closed network connection'' \<or> s = ''stream closed''
     \<or> s = ''session shutdown''"

definition benignFilter :: "copy_err \<Rightarrow> string option" where
  "benignFilter err =
     (case err of
        NilErr \<Rightarrow> None
      | EOFErr \<Rightarrow> None
      | OtherErr s \<Rightarrow> if isClosedConnErr s then None else Some s)"

section \<open>The goroutines\<close>

datatype pump_pc = PCopy | PSend copy_err | PCancel | PClose | PDone

record pump =
  pm_src :: "bool \<Rightarrow> bytes" \<comment> \<open>bytes still to be read in a direction\<close>
  pm_dst :: "bool \<Rightarrow> bytes" \<comment> \<open>bytes written in a direction\<close>
  pm_pc :: "bool \<Rightarrow> pump_pc"
  pm_res :: "bool \<Rightarrow> copy_err option" \<comment> \<open>how a pump ended\<close>
  pm_errs :: "string option list" \<comment> \<open>the channel, capacity 2\<close>
  pm_recv :: "string option list" \<comment> \<open>what the caller has received, in order\<close>
  pm_first :: "string option"
  pm_cancelled :: bool
  pm_once :: bool
  pm_closes :: nat \<comment> \<open>how often both ends were closed\<close>
  pm_ticker :: bool \<comment> \<open>the deadline goroutine is alive\<close>
  pm_returned :: bool

definition pump_init :: "(bool \<Rightarrow> bytes) \<Rightarrow> pump" where
  "pump_init input = \<lparr>pm_src = input, pm_dst = (\<lambda>_. []), pm_pc = (\<lambda>_. PCopy), pm_res = (\<lambda>_. None),
     pm_errs = [], pm_recv = [], pm_first = None, pm_cancelled = False, pm_once = False, pm_closes = 0,
     pm_ticker = True, pm_returned = False\<rparr>"

definition closeBoth :: "pump \<Rightarrow> pump" where
  "closeBoth s = (if pm_once s then s else s\<lparr>pm_once := True, pm_closes := pm_closes s + 1\<rparr>)"

text \<open>The steps of one pump: move some bytes while the ends are open; stop with a result
  (nil only at the end of the source); send the filtered result; cancel; close.\<close>

definition pump_move :: "pump \<Rightarrow> bool \<Rightarrow> nat \<Rightarrow> pump" where
  "pump_move s d n = s\<lparr>pm_dst := (pm_dst s)(d := pm_dst s d @ take n (pm_src s d)),
     pm_src := (pm_src s)(d := drop n (pm_src s d))\<rparr>"

definition pump_stop :: "pump \<Rightarrow> bool \<Rightarrow> copy_err \<Rightarrow> pump" where
  "pump_stop s d e = s\<lparr>pm_pc := (pm_pc s)(d := PSend e), pm_res := (pm_res s)(d \<mapsto> e)\<rparr>"

definition pump_send :: "pump \<Rightarrow> bool \<Rightarrow> copy_err \<Rightarrow> pump" where
  "pump_send s d e = s\<lparr>pm_pc := (pm_pc s)(d := PCancel), pm_errs := pm_errs s @ [benignFilter e]\<rparr>"

definition pump_cancel :: "pump \<Rightarrow> bool \<Rightarrow> pump" where
  "pump_cancel s d = s\<lparr>pm_pc := (pm_pc s)(d := PClose), pm_cancelled := True\<rparr>"

definition pump_close :: "pump \<Rightarrow> bool \<Rightarrow> pump" where
  "pump_close s d = (closeBoth s)\<lparr>pm_pc := (pm_pc s)(d := PDone)\<rparr>"

text \<open>The caller: receive one result, keeping the first that is not nil; after two, run the
  deferred close and cancel and return.\<close>

definition pump_recv :: "pump \<Rightarrow> pump" where
  "pump_recv s =
     (case pm_errs s of
        [] \<Rightarrow> s
      | e # es \<Rightarrow> s\<lparr>pm_errs := es, pm_recv := pm_recv s @ [e],
          pm_first := (if e \<noteq> None \<and> pm_first s = None then e else pm_first s)\<rparr>)"

definition pump_return :: "pump \<Rightarrow> pump" where
  "pump_return s = (closeBoth s)\<lparr>pm_cancelled := True, pm_returned := True\<rparr>"

inductive pump_step :: "pump \<Rightarrow> pump \<Rightarrow> bool" where
  move: "pm_pc s d = PCopy \<Longrightarrow> \<not> pm_once s \<Longrightarrow> pump_step s (pump_move s d n)"
| stop: "pm_pc s d = PCopy \<Longrightarrow> (e = NilErr \<Longrightarrow> pm_src s d = []) \<Longrightarrow> pump_step s (pump_stop s d e)"
| send: "pm_pc s d = PSend e \<Longrightarrow> pump_step s (pump_send s d e)"
| cancel: "pm_pc s d = PCancel \<Longrightarrow> pump_step s (pump_cancel s d)"
| close: "pm_pc s d = PClose \<Longrightarrow> pump_step s (pump_close s d)"
| external_cancel: "pump_step s (s\<lparr>pm_cancelled := True\<rparr>)"
| watch: "pm_ticker s \<Longrightarrow> pm_cancelled s \<Longrightarrow> pump_step s ((closeBoth s)\<lparr>pm_ticker := False\<rparr>)"
| recv: "\<not> pm_returned s \<Longrightarrow> length (pm_recv s) < 2 \<Longrightarrow> pm_errs s \<noteq> [] \<Longrightarrow> pump_step s (pump_recv s)"
| return: "\<not> pm_returned s \<Longrightarrow> length (pm_recv s) = 2 \<Longrightarrow> pump_step s (pump_return s)"

inductive pump_reachable :: "(bool \<Rightarrow> bytes) \<Rightarrow> pump \<Rightarrow> bool" for input where
  init: "pump_reachable input (pump_init input)"
| step: "pump_reachable input s \<Longrightarrow> pump_step s s' \<Longrightarrow> pump_reachable input s'"

section \<open>The invariant\<close>

definition past_send :: "pump_pc \<Rightarrow> bool" where
  "past_send pc \<longleftrightarrow> pc \<in> {PCancel, PClose, PDone}"

fun first_error :: "string option list \<Rightarrow> string option" where
  "first_error [] = None"
| "first_error (None # es) = first_error es"
| "first_error (Some e # es) = Some e"

definition pump_sent :: "pump \<Rightarrow> nat" where
  "pump_sent s = (if past_send (pm_pc s True) then 1 else 0) + (if past_send (pm_pc s False) then 1 else 0)"

definition pump_results :: "pump \<Rightarrow> string option set" where
  "pump_results s = (if past_send (pm_pc s True) then {benignFilter (the (pm_res s True))} else {})
     \<union> (if past_send (pm_pc s False) then {benignFilter (the (pm_res s False))} else {})"

definition pump_inv :: "(bool \<Rightarrow> bytes) \<Rightarrow> pump \<Rightarrow> bool" where
  "pump_inv input s \<longleftrightarrow>
     (\<forall>d. pm_dst s d @ pm_src s d = input d)
   \<and> pm_closes s = (if pm_once s then 1 else 0)
   \<and> length (pm_recv s) + length (pm_errs s) = pump_sent s
   \<and> pm_first s = first_error (pm_recv s)
   \<and> (\<forall>d. pm_pc s d \<noteq> PCopy \<longleftrightarrow> pm_res s d \<noteq> None)
   \<and> (\<forall>d e. pm_pc s d = PSend e \<longrightarrow> pm_res s d = Some e)
   \<and> (\<forall>d. pm_res s d = Some NilErr \<longrightarrow> pm_src s d = [])
   \<and> (pm_returned s \<longrightarrow> length (pm_recv s) = 2 \<and> pm_once s \<and> pm_cancelled s)
   \<and> set (pm_recv s @ pm_errs s) = pump_results s"

lemma first_error_snoc:
  "first_error (es @ [e]) = (if e \<noteq> None \<and> first_error es = None then e else first_error es)"
  by (induction es rule: first_error.induct) auto

lemma first_error_None: "first_error es = None \<longleftrightarrow> (\<forall>e \<in> set es. e = None)"
  by (induction es rule: first_error.induct) auto

lemma first_error_Some: "first_error es = Some e \<Longrightarrow> Some e \<in> set es"
  by (induction es rule: first_error.induct) auto

lemma closeBoth_simps [simp]:
  "pm_src (closeBoth s) = pm_src s" "pm_dst (closeBoth s) = pm_dst s" "pm_pc (closeBoth s) = pm_pc s"
  "pm_res (closeBoth s) = pm_res s" "pm_errs (closeBoth s) = pm_errs s"
  "pm_recv (closeBoth s) = pm_recv s" "pm_first (closeBoth s) = pm_first s"
  "pm_returned (closeBoth s) = pm_returned s" "pm_cancelled (closeBoth s) = pm_cancelled s"
  "pm_once (closeBoth s)" "pm_ticker (closeBoth s) = pm_ticker s"
  by (simp_all add: closeBoth_def)

lemma closeBoth_closes:
  "pm_closes s = (if pm_once s then 1 else 0) \<Longrightarrow> pm_closes (closeBoth s) = 1"
  by (simp add: closeBoth_def)

lemma past_send_simps [simp]:
  "\<not> past_send PCopy" "\<not> past_send (PSend e)" "past_send PCancel" "past_send PClose" "past_send PDone"
  by (simp_all add: past_send_def)

lemma pump_sent_upd:
  "pm_pc s' = (pm_pc s)(d := pc) \<Longrightarrow> pump_sent s' + (if past_send (pm_pc s d) then 1 else 0)
     = pump_sent s + (if past_send pc then 1 else 0)"
  by (cases d) (auto simp: pump_sent_def)

lemma pump_inv_init: "pump_inv input (pump_init input)"
  by (simp add: pump_inv_def pump_init_def pump_sent_def pump_results_def)

text \<open>The invariant in the parts the steps touch: the bytes, the closes, the results.\<close>

lemma pump_inv_move: "pump_inv input s \<Longrightarrow> pm_pc s d = PCopy \<Longrightarrow> pump_inv input (pump_move s d n)"
  by (auto simp: pump_inv_def pump_move_def pump_sent_def pump_results_def)

lemma pump_inv_stop:
  assumes "pump_inv input s" and "pm_pc s d = PCopy" and "e = NilErr \<Longrightarrow> pm_src s d = []"
  shows "pump_inv input (pump_stop s d e)"
proof -
  have "pump_sent (pump_stop s d e) = pump_sent s"
    using pump_sent_upd [of "pump_stop s d e" s d "PSend e"] assms(2) by (simp add: pump_stop_def)
  moreover have "pump_results (pump_stop s d e) = pump_results s"
    using assms(2) by (cases d) (simp_all add: pump_stop_def pump_results_def)
  ultimately show ?thesis
    using assms unfolding pump_inv_def by (simp add: pump_stop_def)
qed

lemma pump_inv_send:
  assumes "pump_inv input s" and "pm_pc s d = PSend e"
  shows "pump_inv input (pump_send s d e)"
proof -
  have r: "pm_res s d = Some e" using assms by (simp add: pump_inv_def)
  have "pump_sent (pump_send s d e) = pump_sent s + 1"
    using pump_sent_upd [of "pump_send s d e" s d PCancel] assms(2) by (simp add: pump_send_def)
  moreover have "pump_results (pump_send s d e) = insert (benignFilter e) (pump_results s)"
    using r assms(2) by (cases d) (auto simp: pump_send_def pump_results_def)
  ultimately show ?thesis
    using assms unfolding pump_inv_def by (simp add: pump_send_def)
qed

lemma pump_inv_pc:
  assumes "pump_inv input s" and "past_send (pm_pc s d)" and "past_send pc"
    and "pm_pc s' = (pm_pc s)(d := pc)" and "pm_src s' = pm_src s" and "pm_dst s' = pm_dst s"
    and "pm_res s' = pm_res s" and "pm_errs s' = pm_errs s" and "pm_recv s' = pm_recv s"
    and "pm_first s' = pm_first s" and "pm_closes s' = (if pm_once s' then 1 else 0)"
    and "pm_returned s' = pm_returned s" and "pm_once s \<Longrightarrow> pm_once s'"
    and "pm_cancelled s \<Longrightarrow> pm_cancelled s'"
  shows "pump_inv input s'"
proof -
  have "pump_sent s' = pump_sent s"
    using pump_sent_upd [OF assms(4)] assms(2,3) by simp
  moreover have "pump_results s' = pump_results s"
    using assms(2,3,4,7) by (cases d) (simp_all add: pump_results_def)
  moreover have "pm_pc s d \<noteq> PCopy" "pc \<noteq> PCopy" "\<And>e. pc \<noteq> PSend e"
    using assms(2,3) by (auto simp: past_send_def)
  ultimately show ?thesis
    using assms(1) assms(4-14) unfolding pump_inv_def by (auto split: if_splits)
qed

lemma pump_inv_flags:
  assumes "pump_inv input s"
    and "pm_pc s' = pm_pc s" and "pm_src s' = pm_src s" and "pm_dst s' = pm_dst s"
    and "pm_res s' = pm_res s" and "pm_errs s' = pm_errs s" and "pm_recv s' = pm_recv s"
    and "pm_first s' = pm_first s" and "pm_closes s' = (if pm_once s' then 1 else 0)"
    and "pm_returned s' \<Longrightarrow> length (pm_recv s) = 2 \<and> pm_once s' \<and> pm_cancelled s'"
  shows "pump_inv input s'"
  using assms unfolding pump_inv_def by (simp add: pump_sent_def pump_results_def)

lemma pump_inv_recv:
  assumes "pump_inv input s" and "\<not> pm_returned s" and "pm_errs s \<noteq> []"
  shows "pump_inv input (pump_recv s)"
proof -
  obtain e es where e: "pm_errs s = e # es" using assms(3) by (cases "pm_errs s") auto
  have "pump_sent (pump_recv s) = pump_sent s" "pump_results (pump_recv s) = pump_results s"
    using e by (simp_all add: pump_recv_def pump_sent_def pump_results_def)
  then show ?thesis
    using assms(1,2) e unfolding pump_inv_def by (auto simp: pump_recv_def first_error_snoc)
qed

lemma pump_inv_step: "pump_step s s' \<Longrightarrow> pump_inv input s \<Longrightarrow> pump_inv input s'"
proof (induction rule: pump_step.induct)
  case (cancel s d)
  then show ?case
    by (intro pump_inv_pc [of input s d PClose "pump_cancel s d"])
      (auto simp: pump_cancel_def pump_inv_def)
next
  case (close s d)
  then have "pm_closes (closeBoth s) = 1" by (intro closeBoth_closes) (simp add: pump_inv_def)
  with close show ?case
    by (intro pump_inv_pc [of input s d PDone "pump_close s d"]) (auto simp: pump_close_def)
next
  case (external_cancel s)
  then show ?case
    by (intro pump_inv_flags [of input s "s\<lparr>pm_cancelled := True\<rparr>"]) (auto simp: pump_inv_def)
next
  case (watch s)
  then have "pm_closes (closeBoth s) = 1" by (intro closeBoth_closes) (simp add: pump_inv_def)
  with watch show ?case
    by (intro pump_inv_flags [of input s "(closeBoth s)\<lparr>pm_ticker := False\<rparr>"]) (auto simp: pump_inv_def)
next
  case (return s)
  then have "pm_closes (closeBoth s) = 1" by (intro closeBoth_closes) (simp add: pump_inv_def)
  with return show ?case
    by (intro pump_inv_flags [of input s "pump_return s"]) (auto simp: pump_return_def)
qed (auto intro: pump_inv_move pump_inv_stop pump_inv_send pump_inv_recv)

lemma pump_reachable_inv: "pump_reachable input s \<Longrightarrow> pump_inv input s"
  by (induction rule: pump_reachable.induct) (auto intro: pump_inv_init pump_inv_step)

section \<open>Properties\<close>

text \<open>C17: whatever the interleaving of the goroutines, when \<open>CopyStreams\<close> has returned both
  pumps have ended and both streams have been closed exactly once; the result is nil exactly when
  both ended normally (end of file or a closed connection), else it is the error of one of them;
  each side received, in order, a prefix of what the other sent, and all of it where the copy
  ended at the end of its source.\<close>

theorem copy_streams_result:
  assumes "pump_reachable input s" and "pm_returned s"
  shows "pm_closes s = 1 \<and> pm_res s d \<noteq> None
    \<and> (pm_first s = None \<longleftrightarrow> benignFilter (the (pm_res s True)) = None
          \<and> benignFilter (the (pm_res s False)) = None)
    \<and> (pm_first s = None \<or> pm_first s \<in> {benignFilter (the (pm_res s True)), benignFilter (the (pm_res s False))})
    \<and> (\<exists>rest. pm_dst s d @ rest = input d) \<and> (pm_res s d = Some NilErr \<longrightarrow> pm_dst s d = input d)"
proof -
  have inv: "pump_inv input s" using assms(1) by (rule pump_reachable_inv)
  have r: "length (pm_recv s) = 2" "pm_once s" using inv assms(2) by (simp_all add: pump_inv_def)
  with inv have sent: "pump_sent s = 2" "pm_errs s = []"
    by (auto simp: pump_inv_def pump_sent_def split: if_splits)
  then have ps: "past_send (pm_pc s d')" for d'
    by (cases d') (auto simp: pump_sent_def split: if_splits)
  then have pc: "pm_pc s d' \<noteq> PCopy" for d' by (metis past_send_simps(1))
  have res: "pm_res s d' \<noteq> None" for d' using inv pc [of d'] by (simp add: pump_inv_def)
  have set: "set (pm_recv s) = {benignFilter (the (pm_res s True)), benignFilter (the (pm_res s False))}"
    using inv sent ps unfolding pump_inv_def by (simp add: pump_results_def insert_commute)
  have first: "pm_first s = first_error (pm_recv s)" using inv by (simp add: pump_inv_def)
  have "pm_first s = None \<or> pm_first s \<in> set (pm_recv s)"
    unfolding first by (cases "first_error (pm_recv s)") (auto dest: first_error_Some)
  moreover have "pm_first s = None \<longleftrightarrow> (\<forall>e \<in> set (pm_recv s). e = None)"
    unfolding first by (rule first_error_None)
  moreover have "pm_dst s d @ pm_src s d = input d" "pm_res s d = Some NilErr \<Longrightarrow> pm_src s d = []"
    using inv by (simp_all add: pump_inv_def)
  moreover have "pm_closes s = 1" using inv r by (simp add: pump_inv_def)
  ultimately show ?thesis using res [of d] unfolding set by auto
qed

definition pump_example :: pump where
  "pump_example =
     (let s = pump_move (pump_init (\<lambda>d. if d then ''hello'' else [])) True 5;
          s = pump_cancel (pump_send (pump_stop s True NilErr) True NilErr) True;
          s = pump_close s True;
          e = OtherErr ''stream closed'';
          s = pump_send (pump_stop s False e) False e
      in pump_return (pump_recv (pump_recv s)))"

lemmas pump_step_defs = pump_move_def pump_stop_def pump_send_def pump_cancel_def pump_close_def
  pump_recv_def pump_return_def closeBoth_def pump_init_def

lemma pump_example_reachable: "pump_reachable (\<lambda>d. if d then ''hello'' else []) pump_example"
proof -
  let ?in = "\<lambda>d. if d then ''hello'' else []" and ?e = "OtherErr ''stream closed''"
  let ?s1 = "pump_move (pump_init ?in) True 5"
  let ?s2 = "pump_stop ?s1 True NilErr"
  let ?s3 = "pump_send ?s2 True NilErr"
  let ?s4 = "pump_cancel ?s3 True"
  let ?s5 = "pump_close ?s4 True"
  let ?s6 = "pump_stop ?s5 False ?e"
  let ?s7 = "pump_send ?s6 False ?e"
  let ?s8 = "pump_recv ?s7"
  let ?s9 = "pump_recv ?s8"
  have "pump_reachable ?in ?s1"
    by (rule pump_reachable.step [OF pump_reachable.init], rule pump_step.move) (simp_all add: pump_step_defs)
  then have "pump_reachable ?in ?s2"
    by (rule pump_reachable.step, intro pump_step.stop) (simp_all add: pump_step_defs)
  then have "pump_reachable ?in ?s3"
    by (rule pump_reachable.step, intro pump_step.send) (simp_all add: pump_step_defs)
  then have "pump_reachable ?in ?s4"
    by (rule pump_reachable.step, intro pump_step.cancel) (simp_all add: pump_step_defs)
  then have "pump_reachable ?in ?s5"
    by (rule pump_reachable.step, intro pump_step.close) (simp_all add: pump_step_defs)
  then have "pump_reachable ?in ?s6"
    by (rule pump_reachable.step, intro pump_step.stop) (simp_all add: pump_step_defs)
  then have "pump_reachable ?in ?s7"
    by (rule pump_reachable.step, intro pump_step.send) (simp_all add: pump_step_defs)
  then have "pump_reachable ?in ?s8"
    by (rule pump_reachable.step, intro pump_step.recv) (simp_all add: pump_step_defs)
  then have "pump_reachable ?in ?s9"
    by (rule pump_reachable.step, intro pump_step.recv) (simp_all add: pump_step_defs)
  then have "pump_reachable ?in (pump_return ?s9)"
    by (rule pump_reachable.step, intro pump_step.return) (simp_all add: pump_step_defs)
  then show ?thesis by (simp add: pump_example_def Let_def)
qed

theorem copy_streams_result_witness:
  "pump_reachable (\<lambda>d. if d then ''hello'' else []) pump_example \<and> pm_returned pump_example
   \<and> pm_first pump_example = None \<and> pm_closes pump_example = 1 \<and> pm_dst pump_example True = ''hello''"
proof -
  have r: "pm_returned pump_example" "pm_res pump_example True = Some NilErr" "pm_first pump_example = None"
    by (simp_all add: pump_example_def Let_def pump_step_defs benignFilter_def isClosedConnErr_def)
  show ?thesis
    using copy_streams_result [OF pump_example_reachable r(1), of True] pump_example_reachable r
    by simp
qed

section \<open>The close hook of a wrapped connection\<close>

text \<open>\<open>WConn.Close\<close> closes the connection every time and runs the hook the first time; the
  error of the underlying close is what it returns.\<close>

record wconn =
  wc_hook :: bool \<comment> \<open>\<open>onClose\<close> is not nil\<close>
  wc_once :: bool
  wc_hookRuns :: nat
  wc_connCloses :: nat

definition NewWConn :: "bool \<Rightarrow> wconn" where
  "NewWConn hook = \<lparr>wc_hook = hook, wc_once = False, wc_hookRuns = 0, wc_connCloses = 0\<rparr>"

definition WConn_Close :: "wconn \<Rightarrow> string option \<Rightarrow> wconn \<times> string option" where
  "WConn_Close w err =
     (let w1 = w\<lparr>wc_connCloses := wc_connCloses w + 1\<rparr> in
      (if wc_once w1 then w1
       else w1\<lparr>wc_once := True, wc_hookRuns := wc_hookRuns w1 + (if wc_hook w1 then 1 else 0)\<rparr>, err))"

lemma WConn_Close_hook:
  "wc_hookRuns (((\<lambda>w. fst (WConn_Close w err)) ^^ n) (NewWConn hook)) = (if hook \<and> 0 < n then 1 else 0)
   \<and> wc_connCloses (((\<lambda>w. fst (WConn_Close w err)) ^^ n) (NewWConn hook)) = n
   \<and> (wc_once (((\<lambda>w. fst (WConn_Close w err)) ^^ n) (NewWConn hook)) \<longleftrightarrow> 0 < n)
   \<and> wc_hook (((\<lambda>w. fst (WConn_Close w err)) ^^ n) (NewWConn hook)) = hook"
  by (induction n) (auto simp: NewWConn_def WConn_Close_def Let_def)

end
