(* ===== verification/Bridge_Deploy.thy ===== *)
theory Bridge_Deploy
  imports Http Utf8
begin

text \<open>
  The deployment side of the bridge that does not need the session tables
  (\<open>pkg/bridge/deploy_routes.go\<close>): the route registry, the cookie filter, and the badge that is
  spliced into public preview pages.
\<close>

section \<open>The route registry\<close>

record deploy_route =
  dr_Hostname :: string
  dr_Kind :: string
  dr_ClusterID :: string
  dr_OrgID :: string
  dr_AuthMode :: string
  dr_SandboxID :: string
  dr_Port :: int
  dr_DeploymentID :: string
  dr_PasswordHashB64 :: string
  dr_PasswordPrefix :: nat

type_synonym registry = "string \<rightharpoonup> deploy_route"

definition NewDeployRegistry :: registry where
  "NewDeployRegistry = Map.empty"

definition reg_Lookup :: "registry \<Rightarrow> string \<Rightarrow> deploy_route option" where
  "reg_Lookup r hostname = r (to_lower hostname)"

definition reg_Set :: "registry \<Rightarrow> deploy_route \<Rightarrow> registry" where
  "reg_Set r route = r(to_lower (dr_Hostname route) \<mapsto> route)"

definition reg_Delete :: "registry \<Rightarrow> string \<Rightarrow> registry" where
  "reg_Delete r hostname = r(to_lower hostname := None)"

definition reg_ReplaceAll :: "registry \<Rightarrow> deploy_route list \<Rightarrow> registry" where
  "reg_ReplaceAll r routes =
     fold (\<lambda>rt next. next(to_lower (dr_Hostname rt) \<mapsto> rt)) routes Map.empty"

text \<open>\<open>All\<close>, in the order in which the map is iterated.\<close>

definition reg_All :: "registry \<Rightarrow> string list \<Rightarrow> deploy_route list" where
  "reg_All r order = map (\<lambda>k. the (r k)) order"

section \<open>Filtering the dashboard's cookies\<close>

definition isClerkCookieName :: "string \<Rightarrow> bool" where
  "isClerkCookieName name \<longleftrightarrow>
     name = ''__session'' \<or> name = ''__client_uat'' \<or> has_prefix name ''__client_''"

definition cookie_name :: "string \<Rightarrow> string" where
  "cookie_name p = (case index_byte p (CHR ''='') of None \<Rightarrow> p | Some eq \<Rightarrow> take eq p)"

definition filterClerkCookies :: "string \<Rightarrow> string" where
  "filterClerkCookies raw =
     (if raw = [] then []
      else join_str ''; ''
        (filter (\<lambda>p. p \<noteq> [] \<and> \<not> isClerkCookieName (cookie_name p))
          (map trim_space (split_on (CHR '';'') raw))))"

text \<open>The cookies of a header, as a server reads them: the parts between semicolons, trimmed,
  the empty ones dropped.\<close>

definition cookie_parts :: "string \<Rightarrow> string list" where
  "cookie_parts raw = filter (\<lambda>p. p \<noteq> []) (map trim_space (split_on (CHR '';'') raw))"

lemma trim_space_cons_space: "is_space c \<Longrightarrow> trim_space (c # s) = trim_space s"
  by (simp add: go_strings)

lemma set_trim_space: "set (trim_space s) \<subseteq> set s"
  by (auto simp: go_strings dest!: set_dropWhileD)

lemma split_join_trimmed:
  assumes "\<forall>p \<in> set ps. CHR '';'' \<notin> set p \<and> trim_space p = p" and "ps \<noteq> []"
  shows "map trim_space (split_on (CHR '';'') (join_str ''; '' ps)) = ps"
  using assms
proof (induction "''; ''" ps rule: join_str.induct)
  case (3 w v ws)
  from 3 have w: "CHR '';'' \<notin> set w" "trim_space w = w" by auto
  have "split_on (CHR '';'') (CHR '' '' # join_str ''; '' (v # ws))
      = (CHR '' '' # hd (split_on (CHR '';'') (join_str ''; '' (v # ws))))
        # tl (split_on (CHR '';'') (join_str ''; '' (v # ws)))"
    by (simp split: list.splits)
  moreover have "map trim_space (split_on (CHR '';'') (join_str ''; '' (v # ws))) = v # ws"
    using 3 by simp
  ultimately show ?case
    using w by (cases "split_on (CHR '';'') (join_str ''; '' (v # ws))")
      (auto simp: split_on_append trim_space_cons_space is_space_def)
qed (auto simp: split_on_no_sep)

lemma cookie_parts_elem: "p \<in> set (cookie_parts raw) \<Longrightarrow>
  CHR '';'' \<notin> set p \<and> trim_space p = p \<and> p \<noteq> []"
  using set_trim_space split_on_elem_no_sep by (fastforce simp: cookie_parts_def)

lemma filterClerkCookies_parts:
  "filterClerkCookies raw
     = join_str ''; '' (filter (\<lambda>p. \<not> isClerkCookieName (cookie_name p)) (cookie_parts raw))"
proof (cases "raw = []")
  case True
  then show ?thesis by (simp add: filterClerkCookies_def cookie_parts_def go_strings)
next
  case False
  then show ?thesis
    by (simp add: filterClerkCookies_def cookie_parts_def conj_commute filter_filter)
qed

lemma filterClerkCookies_cookies:
  "cookie_parts (filterClerkCookies raw)
     = filter (\<lambda>p. \<not> isClerkCookieName (cookie_name p)) (cookie_parts raw)"
proof (cases "filter (\<lambda>p. \<not> isClerkCookieName (cookie_name p)) (cookie_parts raw) = []")
  case True
  then show ?thesis
    by (simp add: filterClerkCookies_parts) (simp add: cookie_parts_def go_strings)
next
  case False
  then have "map trim_space (split_on (CHR '';'') (filterClerkCookies raw))
      = filter (\<lambda>p. \<not> isClerkCookieName (cookie_name p)) (cookie_parts raw)"
    unfolding filterClerkCookies_parts
    by (intro split_join_trimmed) (auto dest: cookie_parts_elem)
  then show ?thesis
    by (auto simp: cookie_parts_def [of "filterClerkCookies raw"] dest: cookie_parts_elem
        intro!: filter_cong)
qed

text \<open>No dashboard cookie crosses the bridge, and no other cookie is lost. Whatever the header,
  the cookies a server reads from the filtered header are exactly those of the original header
  whose name is not one of Clerk's, in their order; \<open>__session\<close> with any padding around it,
  empty parts and a header with nothing left in it are included.\<close>

theorem filterClerkCookies_exact:
  "cookie_parts (filterClerkCookies raw)
     = filter (\<lambda>p. \<not> isClerkCookieName (cookie_name p)) (cookie_parts raw)"
  by (rule filterClerkCookies_cookies)

section \<open>The badge on public preview pages\<close>

text \<open>\<open>bytes.ToLower\<close>: ASCII input byte by byte, any other input rune by rune through
  \<open>unicode.ToLower\<close>, whose table above ASCII is the parameter \<open>ul\<close> (the replacement rune has no
  lower case).\<close>

definition rune_lower :: "(nat \<Rightarrow> nat) \<Rightarrow> nat \<Rightarrow> nat" where
  "rune_lower ul r = (if r < 0x80 then (if 65 \<le> r \<and> r \<le> 90 then r + 32 else r)
     else if r = RuneError then r else ul r)"

function map_runes :: "(nat \<Rightarrow> nat) \<Rightarrow> nat list \<Rightarrow> nat list" where
  "map_runes ul [] = []"
| "map_runes ul (a # rest) =
     (let (r, wid) = decode_rune (a # rest) in
      encode_rune (rune_lower ul r) @ map_runes ul (drop wid (a # rest)))"
  by pat_completeness auto
termination
proof (relation "measure (\<lambda>(ul, xs). length xs)", goal_cases)
  case (2 ul a rest x r wid)
  then have "0 < wid" using decode_rune_width [of a rest] by (metis snd_conv)
  then show ?case by simp
qed simp

definition bytes_lower :: "(nat \<Rightarrow> nat) \<Rightarrow> bytes \<Rightarrow> bytes" where
  "bytes_lower ul s =
     (if list_all (\<lambda>c. (of_char c :: nat) < 0x80) s then map lower_char s
      else map char_of (map_runes ul (map of_char s)))"

definition lastIndexFold :: "(nat \<Rightarrow> nat) \<Rightarrow> bytes \<Rightarrow> bytes \<Rightarrow> nat option" where
  "lastIndexFold ul haystack needle = last_index (bytes_lower ul haystack) (bytes_lower ul needle)"

text \<open>A response on its way back to the browser: what the upstream's body holds, and whether reading
  it ends in an error instead of the end of the stream.\<close>

record response =
  rs_Status :: int
  rs_Header :: header
  rs_ContentLength :: int \<comment> \<open>-1 when the length is not known, as for a chunked response\<close>
  rs_Body :: bytes
  rs_Fails :: bool

definition builtWithBadge :: bytes where
  \<open>builtWithBadge =
     ''<div style="position:fixed;bottom:12px;right:12px;z-index:2147483647;font-family:system-ui,-apple-system,sans-serif">'' @
     ''<a href="https://agentry.run?utm_source=preview_badge" target="_blank" rel="noopener noreferrer" '' @
     ''style="display:inline-flex;align-items:center;gap:6px;background:#18181b;color:#fff;text-decoration:none;'' @
     ''font-size:12px;font-weight:500;line-height:1;padding:6px 12px;border-radius:9999px;box-shadow:0 4px 14px rgba(0,0,0,.18)">'' @
     ''<span style="width:7px;height:7px;border-radius:9999px;background:#10b981"></span>Built with agentry</a></div>''\<close>

definition maxInject :: nat where
  "maxInject = 8388608"

text \<open>\<open>io.ReadAll\<close> of the body behind an \<open>io.LimitReader\<close>: what was read, and the error.\<close>

definition read_limited :: "nat \<Rightarrow> response \<Rightarrow> bytes \<times> bool" where
  "read_limited n resp = (take n (rs_Body resp), rs_Fails resp \<and> length (rs_Body resp) < n)"

definition page_with_length :: "bytes \<Rightarrow> response \<Rightarrow> response" where
  "page_with_length body resp = resp\<lparr>rs_Body := body, rs_Fails := False,
     rs_ContentLength := int (length body),
     rs_Header := hset (rs_Header resp) ''Content-Length'' (format_int (int (length body)))\<rparr>"

text \<open>\<open>None\<close> is the panic of a slice expression whose bounds are out of order. \<open>ul\<close> is the table
  of \<open>unicode.ToLower\<close>.\<close>

definition injectBuiltWithBadge :: "(nat \<Rightarrow> nat) \<Rightarrow> response \<Rightarrow> response option" where
  "injectBuiltWithBadge ul resp =
     (if rs_Status resp < 200 \<or> 300 \<le> rs_Status resp then Some resp
      else if \<not> has_prefix (to_lower (hget (rs_Header resp) ''Content-Type'')) ''text/html'' then Some resp
      else if hget (rs_Header resp) ''Content-Encoding'' \<noteq> [] then Some resp
      else if rs_ContentLength resp > int maxInject then Some resp
      else (let (body, err) = read_limited (maxInject + 1) resp in
        if err then Some (resp\<lparr>rs_Body := body, rs_Fails := False\<rparr>)
        else if length body > maxInject then Some (page_with_length body resp)
        else (case lastIndexFold ul body ''</body>'' of
            Some i \<Rightarrow> if length body < i then None
              else Some (page_with_length (take i body @ builtWithBadge @ drop i body) resp)
          | None \<Rightarrow> Some (page_with_length (body @ builtWithBadge) resp))))"

definition html_page :: "bytes \<Rightarrow> int \<Rightarrow> response" where
  "html_page body len = \<lparr>rs_Status = 200, rs_Header = [''Content-Type'' \<mapsto> [''text/html'']],
     rs_ContentLength = len, rs_Body = body, rs_Fails = False\<rparr>"

lemma last_index_Some:
  "last_index s p = Some i \<Longrightarrow> i \<le> length s \<and> has_prefix (drop i s) p
     \<and> (\<forall>j. i < j \<and> j \<le> length s \<longrightarrow> \<not> has_prefix (drop j s) p)"
proof (induction s p arbitrary: i rule: last_index.induct)
  case (1 p)
  then show ?case by (auto simp: has_prefix_def split: if_splits)
next
  case (2 x xs p)
  have none: "last_index t p = None \<Longrightarrow> j \<le> length t \<Longrightarrow> \<not> has_prefix (drop j t) p" for t j
    by (induction t p arbitrary: j rule: last_index.induct)
      (auto simp: has_prefix_def drop_Cons split: option.splits if_splits nat.splits)
  show ?case
  proof (cases "last_index xs p")
    case None
    with 2 have "i = 0" "has_prefix (x # xs) p" by (auto split: if_splits)
    with none [OF None] show ?thesis by (auto simp: drop_Cons split: nat.splits)
  next
    case (Some k)
    with 2 show ?thesis by (auto simp: drop_Cons split: nat.splits)
  qed
qed

lemma last_index_None: "last_index s p = None \<Longrightarrow> j \<le> length s \<Longrightarrow> \<not> has_prefix (drop j s) p"
  by (induction s p arbitrary: j rule: last_index.induct)
    (auto simp: has_prefix_def drop_Cons split: option.splits if_splits nat.splits)

definition ascii :: "bytes \<Rightarrow> bool" where
  "ascii s \<longleftrightarrow> list_all (\<lambda>c. (of_char c :: nat) < 0x80) s"

lemma bytes_lower_ascii: "ascii s \<Longrightarrow> bytes_lower ul s = to_lower s"
  by (simp add: bytes_lower_def ascii_def to_lower_def)

lemma lastIndexFold_ascii: "ascii s \<Longrightarrow> lastIndexFold ul s ''</body>'' = last_index (to_lower s) ''</body>''"
proof -
  have "to_lower ''</body>'' = ''</body>''" by code_simp
  moreover have "ascii ''</body>''" by code_simp
  ultimately show "ascii s \<Longrightarrow> ?thesis" by (simp add: lastIndexFold_def bytes_lower_ascii)
qed

definition body_end_at :: "bytes \<Rightarrow> nat \<Rightarrow> bool" where
  "body_end_at page i \<longleftrightarrow> has_prefix (to_lower (drop i page)) ''</body>''"

definition badge_spliced :: "response \<Rightarrow> response \<Rightarrow> bool" where
  "badge_spliced resp out \<longleftrightarrow>
     (\<exists>pre post. rs_Body resp = pre @ post \<and> rs_Body out = pre @ builtWithBadge @ post
        \<and> (if post = [] then \<forall>j \<le> length pre. \<not> body_end_at pre j
           else body_end_at post 0 \<and> (\<forall>j. 0 < j \<and> j \<le> length post \<longrightarrow> \<not> body_end_at post j))
        \<and> rs_ContentLength out = int (length (rs_Body out))
        \<and> rs_Header out = hset (rs_Header resp) ''Content-Length'' (format_int (rs_ContentLength out)))"

lemma badge_splicedI:
  assumes "rs_Body resp = pre @ post"
    and "if post = [] then \<forall>j \<le> length pre. \<not> body_end_at pre j
         else body_end_at post 0 \<and> (\<forall>j. 0 < j \<and> j \<le> length post \<longrightarrow> \<not> body_end_at post j)"
  shows "badge_spliced resp (page_with_length (pre @ builtWithBadge @ post) resp)"
  unfolding badge_spliced_def using assms
  by (intro exI [of _ pre] exI [of _ post] conjI) (simp_all add: page_with_length_def)

lemma body_end_at_position:
  assumes "last_index (to_lower b) ''</body>'' = Some i"
  shows "i \<le> length b" and "drop i b \<noteq> []" and "body_end_at (drop i b) 0"
    and "\<forall>j. 0 < j \<and> j \<le> length (drop i b) \<longrightarrow> \<not> body_end_at (drop i b) j"
proof -
  note li = last_index_Some [OF assms]
  have dl: "to_lower (drop j s) = drop j (to_lower s)" for j s by (simp add: to_lower_def drop_map)
  show le: "i \<le> length b" using li by (simp add: to_lower_def)
  show "drop i b \<noteq> []" using li by (auto simp: has_prefix_def to_lower_def)
  show "body_end_at (drop i b) 0" using li by (simp add: body_end_at_def dl)
  show "\<forall>j. 0 < j \<and> j \<le> length (drop i b) \<longrightarrow> \<not> body_end_at (drop i b) j"
  proof (intro allI impI)
    fix j assume "0 < j \<and> j \<le> length (drop i b)"
    then have "\<not> has_prefix (drop (i + j) (to_lower b)) ''</body>''"
      using li le by (auto simp: to_lower_def)
    then show "\<not> body_end_at (drop i b) j"
      by (simp add: body_end_at_def dl add.commute)
  qed
qed

definition badge_eligible :: "response \<Rightarrow> bool" where
  "badge_eligible resp \<longleftrightarrow> 200 \<le> rs_Status resp \<and> rs_Status resp < 300
     \<and> has_prefix (to_lower (hget (rs_Header resp) ''Content-Type'')) ''text/html''
     \<and> hget (rs_Header resp) ''Content-Encoding'' = [] \<and> rs_ContentLength resp \<le> int maxInject"

text \<open>The badge changes a page in one place only. For an ASCII page within the size cap whose
  body can be read, a response that is not a plain 2xx HTML page is left as it is, and a page is
  delivered whole with the badge spliced in immediately before the last \<open></body>\<close> (in any mixture of cases), or after its
  last byte when it has none; the content length and its header then count the new body, and the
  other headers are untouched. The splice never fails.\<close>

theorem badge_spliced_once:
  assumes "ascii (rs_Body resp)" and "length (rs_Body resp) \<le> maxInject" and "\<not> rs_Fails resp"
  shows "\<exists>out. injectBuiltWithBadge ul resp = Some out \<and>
    (if badge_eligible resp then badge_spliced resp out else out = resp)"
proof -
  let ?b = "rs_Body resp"
  have r: "read_limited (Suc maxInject) resp = (?b, False)"
    using assms by (simp add: read_limited_def)
  have lf: "lastIndexFold ul ?b ''</body>'' = last_index (to_lower ?b) ''</body>''"
    using assms(1) by (rule lastIndexFold_ascii)
  define i where "i = (case last_index (to_lower ?b) ''</body>'' of Some i \<Rightarrow> i | None \<Rightarrow> length ?b)"
  have "injectBuiltWithBadge ul resp = (if badge_eligible resp
      then Some (page_with_length (take i ?b @ builtWithBadge @ drop i ?b) resp) else Some resp)"
    using assms(2) body_end_at_position(1) [of ?b]
    by (auto simp: injectBuiltWithBadge_def badge_eligible_def r lf i_def split: option.split)
  moreover have "badge_spliced resp (page_with_length (take i ?b @ builtWithBadge @ drop i ?b) resp)"
  proof (cases "last_index (to_lower ?b) ''</body>''")
    case None
    then show ?thesis
      using last_index_None [OF None]
      by (intro badge_splicedI) (auto simp: i_def body_end_at_def to_lower_def drop_map)
  next
    case (Some k)
    then show ?thesis
      using body_end_at_position [OF Some] by (intro badge_splicedI) (auto simp: i_def)
  qed
  ultimately show ?thesis by simp
qed

lemma badge_spliced_once_witness:
  "\<exists>out. injectBuiltWithBadge id (html_page ''<p></BODY>'' 10) = Some out \<and>
    (if badge_eligible (html_page ''<p></BODY>'' 10) then badge_spliced (html_page ''<p></BODY>'' 10) out
     else out = html_page ''<p></BODY>'' 10)"
proof (rule badge_spliced_once)
  have "ascii ''<p></BODY>''" by code_simp
  then show "ascii (rs_Body (html_page ''<p></BODY>'' 10))" by (simp add: html_page_def)
qed (simp_all add: html_page_def maxInject_def)

text \<open>A page that is sent in chunks, without a content length, and is longer than the cap of
  8 MiB is not left as it is: the browser gets its first 8388609 bytes and nothing more, under a
  content length that says the page is complete.\<close>

theorem badge_truncates_chunked_page:
  "injectBuiltWithBadge ul (html_page (replicate (maxInject + 2 + n) (CHR ''a'')) (- 1))
     = Some (page_with_length (replicate (maxInject + 1) (CHR ''a'')) (html_page [] 0))"
proof -
  have h: "hget [''Content-Type'' \<mapsto> [''text/html'']] ''Content-Type'' = ''text/html''"
    "hget [''Content-Type'' \<mapsto> [''text/html'']] ''Content-Encoding'' = []"
    by code_simp+
  have "has_prefix (to_lower ''text/html'') ''text/html''" by code_simp
  moreover have "take (Suc maxInject) (replicate (maxInject + 2 + n) (CHR ''a''))
      = replicate (Suc maxInject) (CHR ''a'')"
    by (simp only: take_replicate) simp
  ultimately show ?thesis
    by (simp add: injectBuiltWithBadge_def html_page_def h read_limited_def page_with_length_def
        del: replicate_Suc take_Suc_Cons)
qed

lemma map_runes_ascii:
  "a < 0x80 \<Longrightarrow> map_runes ul (a # rest) = rune_lower ul a # map_runes ul rest"
  by (auto simp: encode_rune_def rune_lower_def)

lemma map_runes_bad:
  "0xE0 \<le> a \<and> a \<le> 0xEF \<Longrightarrow> \<not> cont_byte b \<Longrightarrow>
   map_runes ul (a # b # rest) = [0xEF, 0xBF, 0xBD] @ map_runes ul (b # rest)"
  by (subst map_runes.simps)
    (simp add: encode_rune_def rune_lower_def RuneError_def Let_def split: list.split del: map_runes.simps)

text \<open>A page that is not valid UTF-8 can make the splice fail: the case folding replaces every
  invalid byte by the three bytes of the replacement rune, so the position found in the folded copy
  may lie beyond the end of the page, and slicing the page there panics. Five Latin-1 letters
  before the closing tag are enough, whatever the table of \<open>unicode.ToLower\<close> says.\<close>

theorem badge_panics_on_latin1:
  "injectBuiltWithBadge ul (html_page (replicate 5 (CHR 0xE9) @ ''</body>'') 12) = None"
proof -
  have h: "hget [''Content-Type'' \<mapsto> [''text/html'']] ''Content-Type'' = ''text/html''"
    "hget [''Content-Type'' \<mapsto> [''text/html'']] ''Content-Encoding'' = []"
    by code_simp+
  have p: "has_prefix (to_lower ''text/html'') ''text/html''" by code_simp
  have "map_runes ul ([233, 233, 233, 233, 233] @ [60, 47, 98, 111, 100, 121, 62])
      = concat (replicate 5 [0xEF, 0xBF, 0xBD]) @ [60, 47, 98, 111, 100, 121, 62]"
    by (simp add: map_runes_bad map_runes_ascii cont_byte_def rune_lower_def numeral_eq_Suc
        del: map_runes.simps(2))
  moreover have "map of_char (replicate 5 (CHR 0xE9) @ ''</body>'')
      = ([233, 233, 233, 233, 233] @ [60, 47, 98, 111, 100, 121, 62] :: nat list)"
    by code_simp
  moreover have "\<not> ascii (replicate 5 (CHR 0xE9) @ ''</body>'')"
    by code_simp
  moreover have "map char_of (concat (replicate 5 [0xEF, 0xBF, 0xBD]) @ [60, 47, 98, 111, 100, 121, 62 :: nat])
      = concat (replicate 5 [CHR 0xEF, CHR 0xBF, CHR 0xBD]) @ ''</body>''"
    by code_simp
  ultimately have "bytes_lower ul (replicate 5 (CHR 0xE9) @ ''</body>'')
      = concat (replicate 5 [CHR 0xEF, CHR 0xBF, CHR 0xBD]) @ ''</body>''"
    by (simp only: bytes_lower_def ascii_def if_False)
  moreover have "bytes_lower ul ''</body>'' = ''</body>''"
    by (subst bytes_lower_ascii) code_simp+
  moreover have "last_index (concat (replicate 5 [CHR 0xEF, CHR 0xBF, CHR 0xBD]) @ ''</body>'') ''</body>''
      = Some 15"
    by code_simp
  ultimately have "lastIndexFold ul (replicate 5 (CHR 0xE9) @ ''</body>'') ''</body>'' = Some 15"
    by (simp only: lastIndexFold_def)
  then show ?thesis
    by (simp add: injectBuiltWithBadge_def html_page_def h p read_limited_def maxInject_def)
qed

end
