(* ===== verification/Bridge_Broker.thy ===== *)
theory Bridge_Broker
  imports Bridge_Deploy Tunnel_Wire
begin

text \<open>
  The broker (\<open>pkg/bridge/bridge.go\<close>, \<open>revocation.go\<close>, and the handlers of
  \<open>deploy_routes.go\<close>): who may open a tunnel, the tables of connected devices and clusters, the
  routing of API requests, of device requests and of deployment requests, and the life cycle of
  the connections as a step relation over the broker's state.

  A session is a number, fresh for every accepted tunnel, and a \<open>deviceConn\<close> pointer is told from
  its siblings by its session. The goroutines that serve a connection are part of the state: the
  connections whose \<open>serveDevice\<close> or \<open>serveCluster\<close> has not returned.
\<close>

section \<open>State\<close>

record device_conn =
  dc_id :: string
  dc_orgID :: string
  dc_admin :: bool
  dc_sess :: nat
  dc_connected :: instant

record cluster_conn =
  cc_id :: string
  cc_orgID :: string
  cc_sess :: nat
  cc_connected :: instant

record broker =
  br_DevMode :: bool
  br_devices :: "string \<rightharpoonup> device_conn list"
  br_clusters :: "string \<rightharpoonup> cluster_conn"
  br_deploy :: "registry option"
  br_revocation :: "string set"
  br_closed :: "nat set" \<comment> \<open>the sessions that are closed\<close>
  br_next :: nat \<comment> \<open>the next session\<close>
  br_serveD :: "device_conn set" \<comment> \<open>calls of \<open>serveDevice\<close> that have not returned\<close>
  br_serveC :: "cluster_conn set"

definition NewWithConfig :: "bool \<Rightarrow> broker" where
  "NewWithConfig dev = \<lparr>br_DevMode = dev, br_devices = Map.empty, br_clusters = Map.empty,
     br_deploy = None, br_revocation = {}, br_closed = {}, br_next = 0, br_serveD = {}, br_serveC = {}\<rparr>"

definition AttachDeploy :: "broker \<Rightarrow> registry \<Rightarrow> broker" where
  "AttachDeploy b reg = b\<lparr>br_deploy := Some reg\<rparr>"

definition device_list :: "broker \<Rightarrow> string \<Rightarrow> device_conn list" where
  "device_list b key = (case br_devices b key of Some l \<Rightarrow> l | None \<Rightarrow> [])"

section \<open>Identity of the peer\<close>

definition orgPrefix :: string where "orgPrefix = ''urn:agentry:org:''"
definition adminURN :: string where "adminURN = ''urn:agentry:admin''"

fun org_of_uris :: "string list \<Rightarrow> string \<times> bool" where
  "org_of_uris [] = ([], False)"
| "org_of_uris (s # us) =
     (if s = adminURN then ([], True)
      else if length s > length orgPrefix \<and> take (length orgPrefix) s = orgPrefix
        then (drop (length orgPrefix) s, False)
      else org_of_uris us)"

definition peer_cert :: "request \<Rightarrow> cert option" where
  "peer_cert r = (case rq_TLS r of Some (c # _) \<Rightarrow> Some c | _ \<Rightarrow> None)"

definition peerOrgIdentity :: "request \<Rightarrow> string \<times> bool" where
  "peerOrgIdentity r = (case peer_cert r of None \<Rightarrow> ([], False) | Some c \<Rightarrow> org_of_uris (cert_URIs c))"

definition peerCNHasPrefix :: "request \<Rightarrow> string \<Rightarrow> bool" where
  "peerCNHasPrefix r p = (case peer_cert r of None \<Rightarrow> False
     | Some c \<Rightarrow> \<not> length (cert_CN c) < length p \<and> take (length p) (cert_CN c) = p)"

definition peerCNEquals :: "request \<Rightarrow> string \<Rightarrow> bool" where
  "peerCNEquals r want = (case peer_cert r of None \<Rightarrow> False | Some c \<Rightarrow> cert_CN c = want)"

definition requireAdmin :: "broker \<Rightarrow> request \<Rightarrow> bool" where
  "requireAdmin b r \<longleftrightarrow> br_DevMode b \<or> snd (peerOrgIdentity r)"

section \<open>The denylist\<close>

definition revocation_Replace :: "string list \<Rightarrow> string set" where
  "revocation_Replace cns = set (filter (\<lambda>c. c \<noteq> []) cns)"

definition IsRevoked :: "broker \<Rightarrow> string \<Rightarrow> bool" where
  "IsRevoked b cn \<longleftrightarrow> cn \<noteq> [] \<and> cn \<in> br_revocation b"

text \<open>The JSON body of a push is decoded by the standard library: \<open>None\<close> when that fails.\<close>

definition handleRevokedCNsPut :: "broker \<Rightarrow> request \<Rightarrow> string list option \<Rightarrow> nat \<times> broker" where
  "handleRevokedCNsPut b r body =
     (if \<not> requireAdmin b r then (StatusForbidden, b)
      else case body of
        None \<Rightarrow> (StatusBadRequest, b)
      | Some cns \<Rightarrow> (StatusNoContent, b\<lparr>br_revocation := revocation_Replace cns\<rparr>))"

definition handleDeployRoutesGet :: "broker \<Rightarrow> request \<Rightarrow> string list \<Rightarrow> nat + deploy_route list" where
  "handleDeployRoutesGet b r order =
     (case br_deploy b of
        None \<Rightarrow> Inl StatusServiceUnavailable
      | Some reg \<Rightarrow> if \<not> requireAdmin b r then Inl StatusForbidden else Inr (reg_All reg order))"

definition handleDeployRoutesPut :: "broker \<Rightarrow> request \<Rightarrow> deploy_route list option \<Rightarrow> nat \<times> broker" where
  "handleDeployRoutesPut b r body =
     (case br_deploy b of
        None \<Rightarrow> (StatusServiceUnavailable, b)
      | Some reg \<Rightarrow>
          if \<not> requireAdmin b r then (StatusForbidden, b)
          else case body of
            None \<Rightarrow> (StatusBadRequest, b)
          | Some routes \<Rightarrow> (StatusNoContent, b\<lparr>br_deploy := Some (reg_ReplaceAll reg routes)\<rparr>))"

section \<open>Opening a tunnel\<close>

datatype tunnel_role = AsDevice string string bool | AsCluster string string

text \<open>\<open>handleTunnel\<close> up to the call of \<open>tunnel.Accept\<close>: the refusal, or the arguments of the serve
  loop.\<close>

definition handleTunnel :: "broker \<Rightarrow> request \<Rightarrow> tunnel_role verdict" where
  "handleTunnel b r = (
     let role = hget (rq_Header r) HandshakeHeader in
     if role = RoleDevice then
       (if \<not> br_DevMode b \<and> \<not> peerCNHasPrefix r ''device-'' then
          Reply StatusForbidden ''device role requires a cert with CN device-*''
        else
          let deviceID = hget (rq_Header r) HeaderDeviceID in
          if deviceID = [] then Reply StatusBadRequest (''missing '' @ HeaderDeviceID)
          else
            let (orgID, admin) = peerOrgIdentity r in
            if \<not> br_DevMode b \<and> \<not> admin \<and> orgID = [] then
              Reply StatusForbidden ''device cert missing org SAN''
            else Pass (AsDevice deviceID orgID admin))
     else if role = RoleCluster then
       (let clusterID = hget (rq_Header r) HeaderClusterID in
        if clusterID = [] then Reply StatusBadRequest (''missing '' @ HeaderClusterID)
        else if \<not> br_DevMode b \<and> \<not> peerCNEquals r (''cluster-'' @ clusterID) then
          Reply StatusForbidden (''cluster role requires a cert with CN cluster-'' @ clusterID)
        else
          let (orgID, _) = peerOrgIdentity r in
          if \<not> br_DevMode b \<and> orgID = [] then
            Reply StatusForbidden ''cluster cert missing org SAN''
          else Pass (AsCluster clusterID orgID))
     else Reply StatusBadRequest (''unknown or missing '' @ HandshakeHeader))"

text \<open>\<open>serveDevice\<close> and \<open>serveCluster\<close>: what they do before they block, on a fresh session, and
  what their deferred functions do once the session has ended.\<close>

definition serveDevice_enter :: "broker \<Rightarrow> string \<Rightarrow> string \<Rightarrow> bool \<Rightarrow> instant \<Rightarrow> broker" where
  "serveDevice_enter b key orgID admin now = (
     let dc = \<lparr>dc_id = key, dc_orgID = orgID, dc_admin = admin, dc_sess = br_next b, dc_connected = now\<rparr> in
     b\<lparr>br_devices := (br_devices b)(key \<mapsto> device_list b key @ [dc]),
       br_next := br_next b + 1, br_serveD := insert dc (br_serveD b)\<rparr>)"

fun remove_conn :: "nat \<Rightarrow> device_conn list \<Rightarrow> device_conn list" where
  "remove_conn s [] = []"
| "remove_conn s (cur # list) = (if dc_sess cur = s then list else cur # remove_conn s list)"

definition serveDevice_leave :: "broker \<Rightarrow> device_conn \<Rightarrow> broker" where
  "serveDevice_leave b dc = (
     let key = dc_id dc;
         left = remove_conn (dc_sess dc) (device_list b key);
         devices = (if left = [] then (br_devices b)(key := None) else (br_devices b)(key \<mapsto> left)) in
     b\<lparr>br_devices := devices, br_serveD := br_serveD b - {dc}\<rparr>)"

definition serveCluster_enter :: "broker \<Rightarrow> string \<Rightarrow> string \<Rightarrow> instant \<Rightarrow> broker" where
  "serveCluster_enter b key orgID now = (
     let cc = \<lparr>cc_id = key, cc_orgID = orgID, cc_sess = br_next b, cc_connected = now\<rparr>;
         closed = (case br_clusters b key of Some old \<Rightarrow> insert (cc_sess old) (br_closed b)
                   | None \<Rightarrow> br_closed b) in
     b\<lparr>br_clusters := (br_clusters b)(key \<mapsto> cc), br_closed := closed,
       br_next := br_next b + 1, br_serveC := insert cc (br_serveC b)\<rparr>)"

definition serveCluster_leave :: "broker \<Rightarrow> cluster_conn \<Rightarrow> broker" where
  "serveCluster_leave b cc =
     b\<lparr>br_clusters := (if br_clusters b (cc_id cc) = Some cc then (br_clusters b)(cc_id cc := None)
                       else br_clusters b),
       br_serveC := br_serveC b - {cc}\<rparr>"

definition tunnel_enter :: "broker \<Rightarrow> tunnel_role \<Rightarrow> instant \<Rightarrow> broker" where
  "tunnel_enter b role now =
     (case role of AsDevice key org admin \<Rightarrow> serveDevice_enter b key org admin now
      | AsCluster key org \<Rightarrow> serveCluster_enter b key org now)"

text \<open>\<open>isCleanSessionEnd\<close>, on the errors it tells apart.\<close>

datatype serve_error = NoError | SessionShutdown | StreamEOF | OtherError string

definition isCleanSessionEnd :: "serve_error \<Rightarrow> bool" where
  "isCleanSessionEnd e = (case e of OtherError s \<Rightarrow> s = ''use of closed network connection'' | _ \<Rightarrow> True)"

text \<open>\<open>Broker.Shutdown\<close>.\<close>

definition br_Shutdown :: "broker \<Rightarrow> broker" where
  "br_Shutdown b = b\<lparr>
     br_closed := br_closed b \<union> {dc_sess d |d key. d \<in> set (device_list b key)}
       \<union> {cc_sess c |c key. br_clusters b key = Some c},
     br_devices := Map.empty, br_clusters := Map.empty\<rparr>"

section \<open>Forwarding\<close>

text \<open>The request the reverse proxy sends over a cluster's session: what a \<open>Director\<close> leaves in
  it. \<open>httputil.ReverseProxy\<close> carries the method and the body over.\<close>

record upstream =
  up_Scheme :: string
  up_Host :: string
  up_Path :: string
  up_RawQuery :: string
  up_Method :: string
  up_Header :: header

definition quoted_offline :: "string \<Rightarrow> string" where
  "quoted_offline key = ''cluster '' @ key @ '' is offline''"

definition proxyToCluster :: "broker \<Rightarrow> request \<Rightarrow> string \<Rightarrow> string \<Rightarrow> (cluster_conn \<times> upstream) verdict" where
  "proxyToCluster b r key upstreamPath = (
     let (reqOrg, reqAdmin) = peerOrgIdentity r in
     case br_clusters b key of
       None \<Rightarrow> Reply StatusBadGateway (quoted_offline key)
     | Some cluster \<Rightarrow>
         if \<not> reqAdmin \<and> \<not> br_DevMode b \<and> cc_orgID cluster \<noteq> reqOrg then
           Reply StatusBadGateway (quoted_offline key)
         else Pass (cluster, \<lparr>up_Scheme = ''http'', up_Host = ''cluster-'' @ key, up_Path = upstreamPath,
                up_RawQuery = rq_RawQuery r, up_Method = rq_Method r, up_Header = rq_Header r\<rparr>))"

text \<open>\<open>ErrorHandler\<close> of the proxies.\<close>

datatype transport_error = ErrSessionClosed | OtherTransport string

definition proxy_error :: "transport_error \<Rightarrow> nat \<times> string" where
  "proxy_error e = (case e of
     ErrSessionClosed \<Rightarrow> (StatusBadGateway, ''cluster session closed mid-request'')
   | OtherTransport s \<Rightarrow> (StatusBadGateway, ''upstream error: '' @ s))"

section \<open>The API\<close>

definition sandbox_path :: "string \<Rightarrow> string \<Rightarrow> string" where
  "sandbox_path sid tail = ''/api/sandboxes/'' @ sid @ tail"

definition handleClusterSandboxes where
  "handleClusterSandboxes b r key = proxyToCluster b r key ''/api/sandboxes''"
definition handleClusterSandboxRuntime where
  "handleClusterSandboxRuntime b r key sid rest = proxyToCluster b r key (sandbox_path sid (''/runtime/'' @ rest))"
definition handleClusterSandboxDelete where
  "handleClusterSandboxDelete b r key sid = proxyToCluster b r key (sandbox_path sid [])"
definition handleClusterSandboxGet where
  "handleClusterSandboxGet b r key sid = proxyToCluster b r key (sandbox_path sid [])"
definition handleClusterSandboxRenew where
  "handleClusterSandboxRenew b r key sid = proxyToCluster b r key (sandbox_path sid ''/renew'')"
definition handleClusterDeployBuild where
  "handleClusterDeployBuild b r key sid = proxyToCluster b r key (sandbox_path sid ''/deploy-build'')"
definition handleClusterDeployPush where
  "handleClusterDeployPush b r key sid = proxyToCluster b r key (sandbox_path sid ''/deploy-push'')"
definition handleClusterSandboxBindings where
  "handleClusterSandboxBindings b r key sid = proxyToCluster b r key (sandbox_path sid ''/bindings'')"
definition handleClusterSandboxBindingsEnv where
  "handleClusterSandboxBindingsEnv b r key sid = proxyToCluster b r key (sandbox_path sid ''/bindings/env'')"
definition handleClusterSandboxSecretsList where
  "handleClusterSandboxSecretsList b r key sid = proxyToCluster b r key (sandbox_path sid ''/secrets'')"
definition handleClusterSandboxSecretSet where
  "handleClusterSandboxSecretSet b r key sid = proxyToCluster b r key (sandbox_path sid ''/secrets'')"
definition handleClusterDeploymentsRoot where
  "handleClusterDeploymentsRoot b r key = proxyToCluster b r key ''/api/deployments''"
definition handleClusterDeployments where
  "handleClusterDeployments b r key rest =
     (if rest = [] then proxyToCluster b r key ''/api/deployments''
      else proxyToCluster b r key (''/api/deployments/'' @ rest))"
definition handleClusterGCCandidates where
  "handleClusterGCCandidates b r key = proxyToCluster b r key ''/api/gc/candidates''"
definition handleClusterGC where
  "handleClusterGC b r key = proxyToCluster b r key ''/api/gc''"
definition handleClusterVersion where
  "handleClusterVersion b r key = proxyToCluster b r key ''/api/version''"
definition handleClusterUpdate where
  "handleClusterUpdate b r key = proxyToCluster b r key ''/api/update''"

lemmas api_handlers = handleClusterSandboxes_def handleClusterSandboxRuntime_def
  handleClusterSandboxDelete_def handleClusterSandboxGet_def handleClusterSandboxRenew_def
  handleClusterDeployBuild_def handleClusterDeployPush_def handleClusterSandboxBindings_def
  handleClusterSandboxBindingsEnv_def handleClusterSandboxSecretsList_def
  handleClusterSandboxSecretSet_def handleClusterDeploymentsRoot_def handleClusterDeployments_def
  handleClusterGCCandidates_def handleClusterGC_def handleClusterVersion_def handleClusterUpdate_def

text \<open>The mux of \<open>Handler\<close>, on the segments of a clean path: a pattern without a method serves all
  methods, a GET pattern serves HEAD too, a path that only other methods serve is 405, and
  \<open>runtime\<close> without its slash is redirected to the path with it.\<close>

datatype api_call = CallTunnel | CallClusters | CallProxy "(cluster_conn \<times> upstream) verdict"
  | CallRoutesGet | CallRoutesPut | CallRevokedPut | CallHealthz
  | CallRedirect | CallNotAllowed | CallNotFound

definition is_get :: "string \<Rightarrow> bool" where
  "is_get m \<longleftrightarrow> m = ''GET'' \<or> m = ''HEAD''"

definition on_method :: "bool \<Rightarrow> api_call \<Rightarrow> api_call" where
  "on_method served call = (if served then call else CallNotAllowed)"

definition sandbox_route :: "broker \<Rightarrow> request \<Rightarrow> string \<Rightarrow> string \<Rightarrow> string list \<Rightarrow> api_call" where
  "sandbox_route b r key sid tail_segs = (let m = rq_Method r in
     if tail_segs = [] then
       (if is_get m then CallProxy (handleClusterSandboxGet b r key sid)
        else if m = ''DELETE'' then CallProxy (handleClusterSandboxDelete b r key sid)
        else CallNotAllowed)
     else if tail_segs = [''renew''] then on_method (m = ''POST'') (CallProxy (handleClusterSandboxRenew b r key sid))
     else if tail_segs = [''runtime''] then CallRedirect
     else if hd tail_segs = ''runtime'' then
       CallProxy (handleClusterSandboxRuntime b r key sid (join_str ''/'' (tl tail_segs)))
     else if tail_segs = [''deploy-build''] then CallProxy (handleClusterDeployBuild b r key sid)
     else if tail_segs = [''deploy-push''] then CallProxy (handleClusterDeployPush b r key sid)
     else if tail_segs = [''bindings''] then on_method (is_get m) (CallProxy (handleClusterSandboxBindings b r key sid))
     else if tail_segs = [''bindings'', ''env''] then
       on_method (is_get m) (CallProxy (handleClusterSandboxBindingsEnv b r key sid))
     else if tail_segs = [''secrets''] then
       (if is_get m then CallProxy (handleClusterSandboxSecretsList b r key sid)
        else if m = ''POST'' then CallProxy (handleClusterSandboxSecretSet b r key sid)
        else CallNotAllowed)
     else CallNotFound)"

definition cluster_route :: "broker \<Rightarrow> request \<Rightarrow> string \<Rightarrow> string list \<Rightarrow> api_call" where
  "cluster_route b r key tail_segs = (let m = rq_Method r in
     if tail_segs = [''sandboxes''] then on_method (is_get m) (CallProxy (handleClusterSandboxes b r key))
     else if tail_segs = [''deployments''] then CallProxy (handleClusterDeploymentsRoot b r key)
     else if tail_segs = [''gc''] then on_method (m = ''POST'') (CallProxy (handleClusterGC b r key))
     else if tail_segs = [''gc'', ''candidates''] then
       on_method (is_get m) (CallProxy (handleClusterGCCandidates b r key))
     else if tail_segs = [''version''] then on_method (is_get m) (CallProxy (handleClusterVersion b r key))
     else if tail_segs = [''update''] then on_method (m = ''POST'') (CallProxy (handleClusterUpdate b r key))
     else (case tail_segs of
         kind # sid # rest \<Rightarrow>
           if kind = ''sandboxes'' then sandbox_route b r key sid rest
           else if kind = ''deployments'' then
             CallProxy (handleClusterDeployments b r key (join_str ''/'' (sid # rest)))
           else CallNotFound
       | _ \<Rightarrow> CallNotFound))"

definition Handler :: "broker \<Rightarrow> request \<Rightarrow> string list \<Rightarrow> api_call" where
  "Handler b r segs = (let m = rq_Method r in
     if segs = [''tunnel''] then on_method (m = ''PUT'') CallTunnel
     else if segs = [''healthz''] then on_method (is_get m) CallHealthz
     else if segs = [''api'', ''clusters''] then on_method (is_get m) CallClusters
     else if segs = [''api'', ''deploy-routes''] then
       (if is_get m then CallRoutesGet else if m = ''PUT'' then CallRoutesPut else CallNotAllowed)
     else if segs = [''api'', ''revoked-cns''] then on_method (m = ''PUT'') CallRevokedPut
     else (case segs of
         x # y # key # tail_segs \<Rightarrow>
           if x = ''api'' \<and> y = ''clusters'' \<and> tail_segs \<noteq> [] then cluster_route b r key tail_segs
           else CallNotFound
       | _ \<Rightarrow> CallNotFound))"

text \<open>\<open>handleClustersList\<close>: the identifiers of the census, over the connections in the order in
  which the table is iterated.\<close>

definition handleClustersList :: "broker \<Rightarrow> request \<Rightarrow> cluster_conn list \<Rightarrow> string list" where
  "handleClustersList b r conns = (let (reqOrg, reqAdmin) = peerOrgIdentity r in
     map cc_id (filter (\<lambda>c. \<not> (\<not> br_DevMode b \<and> \<not> reqAdmin \<and> cc_orgID c \<noteq> reqOrg)) conns))"

text \<open>\<open>Snapshot\<close>, likewise over an iteration of the two tables.\<close>

record conn_info =
  ci_ID :: string
  ci_Ago :: duration

definition br_Snapshot :: "instant \<Rightarrow> device_conn list list \<Rightarrow> cluster_conn list \<Rightarrow> conn_info list \<times> conn_info list" where
  "br_Snapshot now devices clusters =
     (concat (map (map (\<lambda>d. \<lparr>ci_ID = dc_id d, ci_Ago = now - dc_connected d\<rparr>)) devices),
      map (\<lambda>c. \<lparr>ci_ID = cc_id c, ci_Ago = now - cc_connected c\<rparr>) clusters)"

section \<open>Requests from a device\<close>

definition HeaderTargetCluster :: string where "HeaderTargetCluster = ''X-Cluster''"

text \<open>A CONNECT is answered here or dialled to the cluster: the target of the request line and the
  bytes written on the fresh stream.\<close>

definition handleDeviceConnect :: "request \<Rightarrow> string \<Rightarrow> (string \<times> string) verdict" where
  "handleDeviceConnect r deviceID = (
     let target = (if rq_RequestURI r = [] then rq_URLHost r else rq_RequestURI r) in
     if target = [] then Reply StatusBadRequest ''CONNECT target required''
     else Pass (target, WriteConnect target [(''X-Forwarded-Device'', [deviceID])]))"

datatype device_dispatch = DProxy cluster_conn upstream | DConnect cluster_conn "(string \<times> string) verdict"

definition deviceHandler :: "broker \<Rightarrow> string \<Rightarrow> request \<Rightarrow> device_dispatch verdict" where
  "deviceHandler b deviceID r = (
     let target = hget (rq_Header r) HeaderTargetCluster in
     if target = [] then Reply StatusBadRequest (''missing '' @ HeaderTargetCluster)
     else case br_clusters b target of
       None \<Rightarrow> Reply StatusBadGateway (quoted_offline target)
     | Some cluster \<Rightarrow>
         if rq_Method r = ''CONNECT'' then Pass (DConnect cluster (handleDeviceConnect r deviceID))
         else Pass (DProxy cluster \<lparr>up_Scheme = ''http'', up_Host = ''cluster-'' @ target,
                up_Path = rq_Path r, up_RawQuery = rq_RawQuery r, up_Method = rq_Method r,
                up_Header = hset (hdel (rq_Header r) HeaderTargetCluster) ''X-Forwarded-Device'' deviceID\<rparr>))"

section \<open>Deployment requests\<close>

definition deploy_header :: "bool \<Rightarrow> request \<Rightarrow> header" where
  "deploy_header injectBadge r = (
     let h0 = rq_Header r;
         h1 = (if injectBadge then hset h0 ''Accept-Encoding'' ''identity'' else h0);
         h2 = (if hget h1 ''X-Forwarded-Host'' = [] then hset h1 ''X-Forwarded-Host'' (rq_Host r) else h1);
         h3 = (if hget h2 ''X-Forwarded-Proto'' = [] then hset h2 ''X-Forwarded-Proto'' ''https'' else h2);
         filtered = filterClerkCookies (hget h3 ''Cookie'');
         h4 = (if filtered \<noteq> [] then hset h3 ''Cookie'' filtered else hdel h3 ''Cookie'')
     in hdel h4 ''Authorization'')"

definition deploy_upstream_path :: "deploy_route \<Rightarrow> string \<Rightarrow> string + string" where
  "deploy_upstream_path route rest =
     (if dr_Kind route = ''deployment'' then
        (if dr_DeploymentID route = [] then Inl ''deployment route missing deployment_id''
         else Inr (''/api/deployments/'' @ dr_DeploymentID route @ ''/proxy'' @ rest))
      else if dr_SandboxID route = [] \<or> dr_Port route = 0 then Inl ''share route missing sandbox_id/port''
      else Inr (''/api/sandboxes/'' @ dr_SandboxID route @ ''/runtime/v1/proxy/''
                 @ format_int (dr_Port route) @ rest))"

text \<open>The third component tells whether the badge is injected into the response.\<close>

definition HandleDeployment :: "broker \<Rightarrow> request \<Rightarrow> (cluster_conn \<times> upstream \<times> bool) verdict" where
  "HandleDeployment b r =
     (case br_deploy b of
        None \<Rightarrow> Reply StatusServiceUnavailable ''deploy routing not configured on this bridge''
      | Some reg \<Rightarrow>
     (case reg_Lookup reg (cut_port (rq_Host r)) of
        None \<Rightarrow> Reply StatusNotFound ''404 page not found''
      | Some route \<Rightarrow>
     (case br_clusters b (dr_ClusterID route) of
        None \<Rightarrow> Reply StatusBadGateway (quoted_offline (dr_ClusterID route))
      | Some cluster \<Rightarrow>
        if \<not> br_DevMode b \<and> dr_OrgID route \<noteq> [] \<and> dr_OrgID route \<noteq> cc_orgID cluster then
          Reply StatusBadGateway ''deployment route is inconsistent with cluster ownership''
        else case deploy_upstream_path route (rq_Path r) of
          Inl msg \<Rightarrow> Reply StatusInternalServerError msg
        | Inr path \<Rightarrow>
            let injectBadge = dr_Kind route \<noteq> ''deployment'' \<and> equal_fold (dr_AuthMode route) ''public'' in
            Pass (cluster, \<lparr>up_Scheme = ''http'', up_Host = ''cluster-'' @ dr_ClusterID route,
                up_Path = path, up_RawQuery = rq_RawQuery r, up_Method = rq_Method r,
                up_Header = deploy_header injectBadge r\<rparr>, injectBadge))))"

section \<open>The life of the connections\<close>

text \<open>An event is a request that reaches one of the handlers that change the state, the end of a
  session, or the return of a serve loop whose session has ended.\<close>

datatype br_event =
    EvTunnel request instant
  | EvClose nat
  | EvDeviceLeave device_conn
  | EvClusterLeave cluster_conn
  | EvRevoked request "string list option"
  | EvRoutes request "deploy_route list option"
  | EvShutdown

inductive br_step :: "broker \<Rightarrow> br_event \<Rightarrow> broker \<Rightarrow> bool" where
  tunnel: "handleTunnel b r = Pass role \<Longrightarrow> br_step b (EvTunnel r now) (tunnel_enter b role now)"
| close: "s < br_next b \<Longrightarrow> br_step b (EvClose s) (b\<lparr>br_closed := insert s (br_closed b)\<rparr>)"
| device_leave: "d \<in> br_serveD b \<Longrightarrow> dc_sess d \<in> br_closed b \<Longrightarrow>
    br_step b (EvDeviceLeave d) (serveDevice_leave b d)"
| cluster_leave: "c \<in> br_serveC b \<Longrightarrow> cc_sess c \<in> br_closed b \<Longrightarrow>
    br_step b (EvClusterLeave c) (serveCluster_leave b c)"
| revoked: "br_step b (EvRevoked r body) (snd (handleRevokedCNsPut b r body))"
| routes: "br_step b (EvRoutes r body) (snd (handleDeployRoutesPut b r body))"
| shutdown: "br_step b EvShutdown (br_Shutdown b)"

inductive_cases br_step_cases: "br_step b e b'"
inductive_simps br_step_routes_iff: "br_step b (EvRoutes r body) b'"
inductive_simps br_step_tunnel_iff: "br_step b (EvTunnel r now) b'"

text \<open>A run from a fresh broker, with a registry attached or not.\<close>

inductive br_trace :: "bool \<Rightarrow> br_event list \<Rightarrow> broker \<Rightarrow> bool" for dev where
  start: "br_trace dev [] (NewWithConfig dev)"
| start_deploy: "br_trace dev [] (AttachDeploy (NewWithConfig dev) NewDeployRegistry)"
| step: "br_trace dev evs b \<Longrightarrow> br_step b e b' \<Longrightarrow> br_trace dev (evs @ [e]) b'"

lemmas br_state_defs = NewWithConfig_def AttachDeploy_def serveDevice_enter_def serveDevice_leave_def
  serveCluster_enter_def serveCluster_leave_def tunnel_enter_def br_Shutdown_def

lemma device_list_upd [simp]: "device_list (b\<lparr>br_devices := m(k \<mapsto> l)\<rparr>) k' =
    (if k' = k then l else device_list (b\<lparr>br_devices := m\<rparr>) k')"
  by (simp add: device_list_def)

definition br_inv_clusters :: "broker \<Rightarrow> bool" where
  "br_inv_clusters b \<longleftrightarrow>
     (\<forall>k c. br_clusters b k = Some c \<longrightarrow> cc_id c = k \<and> c \<in> br_serveC b)
   \<and> (\<forall>c \<in> br_serveC b. cc_sess c \<notin> br_closed b \<longrightarrow> br_clusters b (cc_id c) = Some c)
   \<and> (\<forall>c \<in> br_serveC b. cc_sess c < br_next b)"

definition br_inv_devices :: "broker \<Rightarrow> bool" where
  "br_inv_devices b \<longleftrightarrow>
     (\<forall>k. \<forall>d \<in> set (device_list b k). dc_id d = k \<and> d \<in> br_serveD b)
   \<and> (\<forall>d \<in> br_serveD b. dc_sess d \<notin> br_closed b \<longrightarrow> d \<in> set (device_list b (dc_id d)))
   \<and> (\<forall>d \<in> br_serveD b. dc_sess d < br_next b)
   \<and> inj_on dc_sess (br_serveD b)
   \<and> (\<forall>k. distinct (map dc_sess (device_list b k)) \<and> br_devices b k \<noteq> Some [])"

lemma remove_conn_filter:
  "distinct (map dc_sess l) \<Longrightarrow> remove_conn s l = filter (\<lambda>d. dc_sess d \<noteq> s) l"
proof (induction l)
  case (Cons a l)
  then have "\<forall>x \<in> set l. dc_sess x \<noteq> dc_sess a" by (auto simp: image_iff)
  with Cons show ?case by auto
qed simp

lemma admin_puts [simp]:
  "br_clusters (snd (handleRevokedCNsPut b r body)) = br_clusters b"
  "br_clusters (snd (handleDeployRoutesPut b r body2)) = br_clusters b"
  "br_devices (snd (handleRevokedCNsPut b r body)) = br_devices b"
  "br_devices (snd (handleDeployRoutesPut b r body2)) = br_devices b"
  "br_serveC (snd (handleRevokedCNsPut b r body)) = br_serveC b"
  "br_serveC (snd (handleDeployRoutesPut b r body2)) = br_serveC b"
  "br_serveD (snd (handleRevokedCNsPut b r body)) = br_serveD b"
  "br_serveD (snd (handleDeployRoutesPut b r body2)) = br_serveD b"
  "br_closed (snd (handleRevokedCNsPut b r body)) = br_closed b"
  "br_closed (snd (handleDeployRoutesPut b r body2)) = br_closed b"
  "br_next (snd (handleRevokedCNsPut b r body)) = br_next b"
  "br_next (snd (handleDeployRoutesPut b r body2)) = br_next b"
  "br_DevMode (snd (handleRevokedCNsPut b r body)) = br_DevMode b"
  "br_DevMode (snd (handleDeployRoutesPut b r body2)) = br_DevMode b"
  by (simp_all add: handleRevokedCNsPut_def handleDeployRoutesPut_def split: option.split)

lemma serveCluster_enter_inv:
  assumes "br_inv_clusters b"
  shows "br_inv_clusters (serveCluster_enter b key org now)"
proof -
  define cc where "cc = \<lparr>cc_id = key, cc_orgID = org, cc_sess = br_next b, cc_connected = now\<rparr>"
  define b' where "b' = serveCluster_enter b key org now"
  have f: "br_clusters b' = (br_clusters b)(key \<mapsto> cc)" "br_serveC b' = insert cc (br_serveC b)"
    "br_next b' = br_next b + 1"
    "br_closed b' = (case br_clusters b key of Some old \<Rightarrow> insert (cc_sess old) (br_closed b)
        | None \<Rightarrow> br_closed b)"
    by (simp_all add: b'_def serveCluster_enter_def cc_def Let_def)
  have cc: "cc_id cc = key" "cc_sess cc = br_next b" by (simp_all add: cc_def)
  have 1: "\<forall>k c. br_clusters b' k = Some c \<longrightarrow> cc_id c = k \<and> c \<in> br_serveC b'"
    using assms cc by (simp add: f br_inv_clusters_def)
  have 2: "br_clusters b' (cc_id c) = Some c" if "c \<in> br_serveC b'" "cc_sess c \<notin> br_closed b'" for c
  proof (cases "c = cc")
    case False
    with that have "c \<in> br_serveC b" "cc_sess c \<notin> br_closed b"
      by (auto simp: f split: option.splits)
    then have tab: "br_clusters b (cc_id c) = Some c" using assms by (simp add: br_inv_clusters_def)
    then have "cc_id c \<noteq> key" using that(2) by (auto simp: f(4))
    with tab show ?thesis by (simp add: f)
  qed (simp add: f cc)
  have 3: "\<forall>c \<in> br_serveC b'. cc_sess c < br_next b'"
    using assms cc by (simp add: f br_inv_clusters_def less_Suc_eq)
  show ?thesis using 1 2 3 by (simp add: br_inv_clusters_def b'_def)
qed

lemma serveCluster_leave_inv:
  assumes "br_inv_clusters b"
  shows "br_inv_clusters (serveCluster_leave b c)"
proof -
  define b' where "b' = serveCluster_leave b c"
  have f: "br_serveC b' = br_serveC b - {c}" "br_next b' = br_next b" "br_closed b' = br_closed b"
    "br_clusters b' = (if br_clusters b (cc_id c) = Some c then (br_clusters b)(cc_id c := None)
        else br_clusters b)"
    by (simp_all add: b'_def serveCluster_leave_def)
  have tab: "br_clusters b' k = Some c' \<longleftrightarrow> br_clusters b k = Some c' \<and> c' \<noteq> c" for k c'
  proof (cases "br_clusters b k = Some c'")
    case True
    then have "cc_id c' = k" using assms by (simp add: br_inv_clusters_def)
    with True show ?thesis by (cases "c' = c") (auto simp: f(4))
  qed (simp add: f(4))
  have "cc_id c' = k \<and> c' \<in> br_serveC b'" if "br_clusters b' k = Some c'" for k c'
    using assms that unfolding br_inv_clusters_def f(1) tab by blast
  moreover have "br_clusters b' (cc_id c') = Some c'"
    if "c' \<in> br_serveC b'" "cc_sess c' \<notin> br_closed b'" for c'
    using assms that by (simp add: f(1,3) tab br_inv_clusters_def)
  moreover have "\<forall>c' \<in> br_serveC b'. cc_sess c' < br_next b'"
    using assms by (simp add: f(1,2) br_inv_clusters_def)
  ultimately show ?thesis by (simp add: br_inv_clusters_def b'_def [symmetric])
qed

lemma br_inv_clusters_step: "br_step b e b' \<Longrightarrow> br_inv_clusters b \<Longrightarrow> br_inv_clusters b'"
proof (induction rule: br_step.induct)
  case (tunnel b r role now)
  then show ?case
    by (cases role)
      (simp_all add: tunnel_enter_def serveCluster_enter_inv, simp add: serveDevice_enter_def
        br_inv_clusters_def Let_def less_Suc_eq)
next
  case (cluster_leave c b)
  then show ?case by (simp add: serveCluster_leave_inv)
next
  case (shutdown b)
  then show ?case by (auto simp: br_inv_clusters_def br_Shutdown_def)
qed (simp_all add: br_inv_clusters_def serveDevice_leave_def Let_def)

lemma serveDevice_enter_inv:
  assumes "br_inv_devices b"
  shows "br_inv_devices (serveDevice_enter b key org admin now)"
proof -
  define d where "d = \<lparr>dc_id = key, dc_orgID = org, dc_admin = admin, dc_sess = br_next b, dc_connected = now\<rparr>"
  define b' where "b' = serveDevice_enter b key org admin now"
  have f: "br_devices b' = (br_devices b)(key \<mapsto> device_list b key @ [d])"
    "br_serveD b' = insert d (br_serveD b)" "br_next b' = br_next b + 1" "br_closed b' = br_closed b"
    by (simp_all add: b'_def serveDevice_enter_def d_def Let_def)
  have l: "device_list b' k = (if k = key then device_list b key @ [d] else device_list b k)" for k
    by (simp add: device_list_def f)
  have d: "dc_id d = key" "dc_sess d = br_next b" by (simp_all add: d_def)
  have fresh: "\<forall>x \<in> br_serveD b. dc_sess x \<noteq> br_next b"
    using assms by (auto simp: br_inv_devices_def)
  then have fresh': "\<forall>k. \<forall>x \<in> set (device_list b k). dc_sess x \<noteq> br_next b"
    using assms by (auto simp: br_inv_devices_def)
  have "inj_on dc_sess (insert d (br_serveD b))"
    using assms fresh d by (auto simp: br_inv_devices_def)
  moreover have "\<forall>k. distinct (map dc_sess (device_list b' k)) \<and> br_devices b' k \<noteq> Some []"
    using assms fresh' d by (auto simp: l f br_inv_devices_def)
  moreover have "\<forall>k. \<forall>x \<in> set (device_list b' k). dc_id x = k \<and> x \<in> br_serveD b'"
    using assms d by (simp add: l f br_inv_devices_def)
  moreover have "x \<in> set (device_list b' (dc_id x))" if "x \<in> br_serveD b'" "dc_sess x \<notin> br_closed b'" for x
  proof (cases "x = d")
    case False
    with that assms have "x \<in> set (device_list b (dc_id x))" by (simp add: f br_inv_devices_def)
    then show ?thesis by (cases "dc_id x = key") (auto simp: l)
  qed (simp add: l d)
  moreover have "\<forall>x \<in> br_serveD b'. dc_sess x < br_next b'"
    using assms d by (simp add: f br_inv_devices_def less_Suc_eq)
  ultimately show ?thesis by (simp add: br_inv_devices_def f(2) b'_def [symmetric])
qed

lemma device_list_leave:
  assumes "br_inv_devices b"
  shows "device_list (serveDevice_leave b d) k
    = (if k = dc_id d then filter (\<lambda>x. dc_sess x \<noteq> dc_sess d) (device_list b k) else device_list b k)"
  using assms
  by (auto simp: serveDevice_leave_def Let_def device_list_def br_inv_devices_def remove_conn_filter
      split: option.split)

lemma serveDevice_leave_inv:
  assumes i: "br_inv_devices b" and d: "d \<in> br_serveD b"
  shows "br_inv_devices (serveDevice_leave b d)"
proof -
  define b' where "b' = serveDevice_leave b d"
  note l = device_list_leave [OF i, of d, folded b'_def]
  have f: "br_serveD b' = br_serveD b - {d}" "br_next b' = br_next b" "br_closed b' = br_closed b"
    by (simp_all add: b'_def serveDevice_leave_def Let_def)
  have i1: "dc_id x = k" "x \<in> br_serveD b" if "x \<in> set (device_list b k)" for x k
    using i that by (auto simp: br_inv_devices_def)
  have inj: "inj_on dc_sess (br_serveD b)" using i by (simp add: br_inv_devices_def)
  have other: "x = d" if "x \<in> br_serveD b" "dc_sess x = dc_sess d" for x
    using inj d that by (auto dest: inj_onD)
  have "br_devices b' k \<noteq> Some []" for k
    using i by (simp add: b'_def serveDevice_leave_def Let_def br_inv_devices_def)
  moreover have "distinct (map dc_sess (device_list b' k))" for k
    using i by (simp add: l br_inv_devices_def distinct_map_filter)
  moreover have "dc_id x = k \<and> x \<in> br_serveD b'" if "x \<in> set (device_list b' k)" for x k
  proof -
    from that have "x \<in> set (device_list b k)" by (simp add: l split: if_splits)
    moreover from this that i1(1) have "x \<noteq> d" by (auto simp: l)
    ultimately show ?thesis using i1 by (simp add: f)
  qed
  moreover have "x \<in> set (device_list b' (dc_id x))"
    if "x \<in> br_serveD b'" "dc_sess x \<notin> br_closed b'" for x
  proof -
    have "x \<in> set (device_list b (dc_id x))" "dc_sess x \<noteq> dc_sess d"
      using i other that by (auto simp: f br_inv_devices_def)
    then show ?thesis by (cases "dc_id x = dc_id d") (auto simp: l)
  qed
  moreover have "inj_on dc_sess (br_serveD b')" using inj by (simp add: f inj_on_diff)
  moreover have "\<forall>x \<in> br_serveD b'. dc_sess x < br_next b'" using i by (simp add: f br_inv_devices_def)
  ultimately show ?thesis by (simp add: br_inv_devices_def b'_def [symmetric])
qed

lemma br_inv_devices_step: "br_step b e b' \<Longrightarrow> br_inv_devices b \<Longrightarrow> br_inv_devices b'"
proof (induction rule: br_step.induct)
  case (tunnel b r role now)
  then show ?case
    by (cases role)
      (simp_all add: tunnel_enter_def serveDevice_enter_inv, simp add: serveCluster_enter_def
        br_inv_devices_def Let_def device_list_def less_Suc_eq split: option.split)
next
  case (shutdown b)
  have "dc_sess d \<in> br_closed (br_Shutdown b)" if "d \<in> br_serveD b" for d
  proof (cases "dc_sess d \<in> br_closed b")
    case False
    with shutdown that have "d \<in> set (device_list b (dc_id d))" by (simp add: br_inv_devices_def)
    then show ?thesis by (auto simp: br_Shutdown_def)
  qed (simp add: br_Shutdown_def)
  moreover have "br_serveD (br_Shutdown b) = br_serveD b" "br_next (br_Shutdown b) = br_next b"
    "br_devices (br_Shutdown b) = Map.empty"
    by (simp_all add: br_Shutdown_def)
  ultimately show ?case
    using shutdown by (simp add: br_inv_devices_def device_list_def)
qed (simp_all add: serveDevice_leave_inv, simp_all add: br_inv_devices_def serveCluster_leave_def
  Let_def device_list_def)

lemma br_trace_inv: "br_trace dev evs b \<Longrightarrow> br_inv_clusters b \<and> br_inv_devices b"
proof (induction rule: br_trace.induct)
  case (step evs b e b')
  then show ?case using br_inv_clusters_step br_inv_devices_step by blast
qed (auto simp: br_inv_clusters_def br_inv_devices_def NewWithConfig_def AttachDeploy_def device_list_def)

end
