(* ===== verification/Bridge_Tenancy.thy ===== *)
theory Bridge_Tenancy
  imports Bridge_Broker
begin

text \<open>
  What the broker promises about tenants and connections, over every run of it: which certificate
  stands behind a connection, which requests are forwarded to which cluster, what the census shows,
  and who may change the routes and the denylist. The last section states three places where the
  code falls short of its comments.
\<close>

section \<open>Identities\<close>

lemma org_of_uris_org: "org_of_uris us = (org, adm) \<Longrightarrow> org \<noteq> [] \<Longrightarrow> \<not> adm \<and> orgPrefix @ org \<in> set us"
  by (induction us) (auto split: if_splits, metis append_take_drop_id)

lemma org_of_uris_admin: "org_of_uris us = (org, True) \<Longrightarrow> org = [] \<and> adminURN \<in> set us"
  by (induction us) (auto split: if_splits)

lemma peerOrg_cert:
  assumes "peerOrgIdentity r = (org, adm)" and "adm \<or> org \<noteq> []"
  shows "\<exists>c. peer_cert r = Some c \<and> (if adm then adminURN \<in> set (cert_URIs c)
    else orgPrefix @ org \<in> set (cert_URIs c))"
  using assms org_of_uris_org org_of_uris_admin
  by (fastforce simp: peerOrgIdentity_def split: option.splits)

lemma tunnel_certificate:
  assumes "\<not> br_DevMode b" and "handleTunnel b r = Pass role"
  shows "\<exists>c. peer_cert r = Some c \<and> (case role of
      AsDevice key org adm \<Rightarrow> has_prefix (cert_CN c) ''device-'' \<and> key \<noteq> []
        \<and> (if adm then adminURN \<in> set (cert_URIs c) else org \<noteq> [] \<and> orgPrefix @ org \<in> set (cert_URIs c))
    | AsCluster key org \<Rightarrow> cert_CN c = ''cluster-'' @ key \<and> key \<noteq> []
        \<and> org \<noteq> [] \<and> orgPrefix @ org \<in> set (cert_URIs c))"
proof (cases role)
  case (AsDevice key org adm)
  then have "peerCNHasPrefix r ''device-''" "peerOrgIdentity r = (org, adm)" "adm \<or> org \<noteq> []" "key \<noteq> []"
    using assms by (auto simp: handleTunnel_def Let_def split: if_splits prod.splits)
  then show ?thesis
    using peerOrg_cert [of r org adm] AsDevice
    by (auto simp: peerCNHasPrefix_def has_prefix_def split: option.splits)
next
  case (AsCluster key org)
  then obtain adm where p: "peerCNEquals r (''cluster-'' @ key)" "peerOrgIdentity r = (org, adm)" "org \<noteq> []" "key \<noteq> []"
    using assms by (auto simp: handleTunnel_def Let_def split: if_splits prod.splits)
  then have "\<not> adm" using org_of_uris_admin [of _ org] by (auto simp: peerOrgIdentity_def split: option.splits)
  then show ?thesis
    using p peerOrg_cert [of r org adm] AsCluster
    by (auto simp: peerCNEquals_def split: option.splits)
qed

text \<open>C3: Outside development mode a tunnel is accepted only on the strength of the verified
  certificate. A device tunnel needs a certificate whose common name starts with \<open>device-\<close> and that
  carries either an organisation or the admin name; a cluster tunnel for the identifier \<open>i\<close> needs
  the common name \<open>cluster-i\<close> exactly and an organisation. The organisation under which the
  connection is registered is the one in the certificate.\<close>

theorem tunnel_needs_certificate:
  assumes "\<not> br_DevMode b" and "handleTunnel b r = Pass role"
  shows "\<exists>c. peer_cert r = Some c \<and> (case role of
      AsDevice key org adm \<Rightarrow> has_prefix (cert_CN c) ''device-'' \<and> key \<noteq> []
        \<and> (if adm then adminURN \<in> set (cert_URIs c) else org \<noteq> [] \<and> orgPrefix @ org \<in> set (cert_URIs c))
    | AsCluster key org \<Rightarrow> cert_CN c = ''cluster-'' @ key \<and> key \<noteq> []
        \<and> org \<noteq> [] \<and> orgPrefix @ org \<in> set (cert_URIs c))"
  using assms by (rule tunnel_certificate)

definition sample_cert :: "string \<Rightarrow> string \<Rightarrow> cert" where
  "sample_cert cn org = \<lparr>cert_CN = cn, cert_URIs = [orgPrefix @ org]\<rparr>"

definition cluster_request :: "string \<Rightarrow> string \<Rightarrow> request" where
  "cluster_request key org = blank_request\<lparr>
     rq_Method := ''PUT'', rq_TLS := Some [sample_cert (''cluster-'' @ key) org],
     rq_Header := hset (hset Map.empty HandshakeHeader RoleCluster) HeaderClusterID key\<rparr>"

definition device_request :: "string \<Rightarrow> string \<Rightarrow> string \<Rightarrow> request" where
  "device_request cn key org = blank_request\<lparr>
     rq_Method := ''PUT'', rq_TLS := Some [sample_cert cn org],
     rq_Header := hset (hset Map.empty HandshakeHeader RoleDevice) HeaderDeviceID key\<rparr>"

lemma handshake_keys [simp]:
  "canon_key HandshakeHeader \<noteq> canon_key HeaderClusterID"
  "canon_key HeaderClusterID \<noteq> canon_key HandshakeHeader"
  "canon_key HandshakeHeader \<noteq> canon_key HeaderDeviceID"
  "canon_key HeaderDeviceID \<noteq> canon_key HandshakeHeader"
  by code_simp+

lemma org_not_admin [simp]: "orgPrefix @ org \<noteq> adminURN"
  by (simp add: adminURN_def orgPrefix_def)

lemma peer_sample [simp]:
  "org \<noteq> [] \<Longrightarrow> org_of_uris [orgPrefix @ org] = (org, False)"
  by (simp add: adminURN_def orgPrefix_def)

lemma handleTunnel_cluster_request:
  "key \<noteq> [] \<Longrightarrow> org \<noteq> [] \<Longrightarrow> handleTunnel b (cluster_request key org) = Pass (AsCluster key org)"
  by (simp add: handleTunnel_def cluster_request_def RoleCluster_def RoleDevice_def
    peerCNEquals_def peerOrgIdentity_def peer_cert_def sample_cert_def)

lemma handleTunnel_device_request:
  "has_prefix cn ''device-'' \<Longrightarrow> key \<noteq> [] \<Longrightarrow> org \<noteq> [] \<Longrightarrow>
   handleTunnel b (device_request cn key org) = Pass (AsDevice key org False)"
  by (auto simp: handleTunnel_def device_request_def RoleCluster_def RoleDevice_def has_prefix_iff
    peerCNHasPrefix_def peerOrgIdentity_def peer_cert_def sample_cert_def)

lemma tunnel_needs_certificate_witness:
  "\<exists>c. peer_cert (cluster_request ''c1'' ''acme'') = Some c \<and> cert_CN c = ''cluster-'' @ ''c1''
     \<and> orgPrefix @ ''acme'' \<in> set (cert_URIs c)"
  using tunnel_needs_certificate [of "NewWithConfig False" "cluster_request ''c1'' ''acme''"
      "AsCluster ''c1'' ''acme''"] handleTunnel_cluster_request [of "''c1''" "''acme''"]
  by (auto simp: NewWithConfig_def)

section \<open>Where a cluster in the table comes from\<close>

lemma br_trace_DevMode: "br_trace dev evs b \<Longrightarrow> br_DevMode b = dev"
proof (induction rule: br_trace.induct)
  case (step evs b e b')
  from step(2) have "br_DevMode b' = br_DevMode b"
    by cases (simp_all add: br_state_defs Let_def split: tunnel_role.split)
  with step show ?case by simp
qed (simp_all add: br_state_defs)

definition cluster_vouched :: "br_event list \<Rightarrow> string \<Rightarrow> string \<Rightarrow> bool" where
  "cluster_vouched evs key org \<longleftrightarrow> org \<noteq> [] \<and>
     (\<exists>r now c. EvTunnel r now \<in> set evs \<and> peer_cert r = Some c \<and> cert_CN c = ''cluster-'' @ key
        \<and> orgPrefix @ org \<in> set (cert_URIs c))"

lemma cluster_vouched_mono: "cluster_vouched evs key org \<Longrightarrow> cluster_vouched (evs @ more_evs) key org"
  by (auto simp: cluster_vouched_def)

lemma br_clusters_step:
  assumes "br_step b e b'" and "br_clusters b' key = Some c"
  shows "br_clusters b key = Some c \<or> (\<exists>r now org. e = EvTunnel r now \<and>
    handleTunnel b r = Pass (AsCluster key org) \<and> cc_orgID c = org)"
  using assms(1)
proof cases
  case (tunnel r role now)
  with assms(2) show ?thesis
    by (cases role)
      (auto simp: tunnel_enter_def serveDevice_enter_def serveCluster_enter_def Let_def split: if_splits)
qed (use assms(2) in \<open>auto simp: serveDevice_leave_def serveCluster_leave_def br_Shutdown_def Let_def
      split: if_splits\<close>)

lemma br_trace_vouched:
  "br_trace False evs b \<Longrightarrow> br_clusters b key = Some c \<Longrightarrow> cluster_vouched evs key (cc_orgID c)"
proof (induction arbitrary: key c rule: br_trace.induct)
  case (step evs b e b')
  from br_clusters_step [OF step(2,4)] show ?case
  proof
    assume "br_clusters b key = Some c"
    with step(3) show ?thesis by (intro cluster_vouched_mono)
  next
    assume "\<exists>r now org. e = EvTunnel r now \<and> handleTunnel b r = Pass (AsCluster key org) \<and> cc_orgID c = org"
    then obtain r now where e: "e = EvTunnel r now" and h: "handleTunnel b r = Pass (AsCluster key (cc_orgID c))"
      by blast
    from tunnel_certificate [OF _ h] br_trace_DevMode [OF step(1)] e show ?thesis
      by (auto simp: cluster_vouched_def)
  qed
qed (simp_all add: NewWithConfig_def AttachDeploy_def)

section \<open>Forwarded API requests\<close>

lemma proxy_pass:
  "proxyToCluster b r key path = Pass (c, u) \<Longrightarrow>
   br_clusters b key = Some c \<and> up_Host u = ''cluster-'' @ key \<and> up_Path u = path
   \<and> (snd (peerOrgIdentity r) \<or> br_DevMode b \<or> cc_orgID c = fst (peerOrgIdentity r))"
  by (auto simp: proxyToCluster_def Let_def split: prod.splits option.splits if_splits)

definition proxied :: "broker \<Rightarrow> request \<Rightarrow> (cluster_conn \<times> upstream) verdict \<Rightarrow> bool" where
  "proxied b r v \<longleftrightarrow> (\<exists>key path. v = proxyToCluster b r key path \<and> has_prefix path ''/api/'')"

lemma proxiedI: "v = proxyToCluster b r key path \<Longrightarrow> has_prefix path ''/api/'' \<Longrightarrow> proxied b r v"
  unfolding proxied_def by blast

lemma proxied_handlers:
  "proxied b r (handleClusterSandboxes b r key)"
  "proxied b r (handleClusterSandboxRuntime b r key sid rest)"
  "proxied b r (handleClusterSandboxDelete b r key sid)"
  "proxied b r (handleClusterSandboxGet b r key sid)"
  "proxied b r (handleClusterSandboxRenew b r key sid)"
  "proxied b r (handleClusterDeployBuild b r key sid)"
  "proxied b r (handleClusterDeployPush b r key sid)"
  "proxied b r (handleClusterSandboxBindings b r key sid)"
  "proxied b r (handleClusterSandboxBindingsEnv b r key sid)"
  "proxied b r (handleClusterSandboxSecretsList b r key sid)"
  "proxied b r (handleClusterSandboxSecretSet b r key sid)"
  "proxied b r (handleClusterDeploymentsRoot b r key)"
  "proxied b r (handleClusterGCCandidates b r key)"
  "proxied b r (handleClusterGC b r key)"
  "proxied b r (handleClusterVersion b r key)"
  "proxied b r (handleClusterUpdate b r key)"
  by (rule proxiedI, rule api_handlers, simp add: has_prefix_def sandbox_path_def)+

lemma proxied_deployments: "proxied b r (handleClusterDeployments b r key rest)"
  unfolding handleClusterDeployments_def
  by (cases "rest = []") (auto intro!: proxiedI simp: has_prefix_def)

lemma branchE: "(if P then X else Y) = Z \<Longrightarrow> (X = Z \<Longrightarrow> Q) \<Longrightarrow> (Y = Z \<Longrightarrow> Q) \<Longrightarrow> Q"
  by (cases P) auto

lemma on_methodE: "on_method s X = CallProxy v \<Longrightarrow> (X = CallProxy v \<Longrightarrow> Q) \<Longrightarrow> Q"
  by (cases s) (auto simp: on_method_def)

lemma sandbox_route_proxied: "sandbox_route b r key sid segs = CallProxy v \<Longrightarrow> proxied b r v"
  unfolding sandbox_route_def Let_def
  by (elim branchE on_methodE) (auto simp: proxied_handlers)

lemma cluster_route_proxied: "cluster_route b r key segs = CallProxy v \<Longrightarrow> proxied b r v"
  unfolding cluster_route_def Let_def
  by (elim branchE on_methodE)
    (auto simp: proxied_handlers proxied_deployments sandbox_route_proxied split: list.splits elim!: branchE)

lemma Handler_proxied: "Handler b r segs = CallProxy v \<Longrightarrow> proxied b r v"
  unfolding Handler_def Let_def
  by (elim branchE on_methodE) (auto simp: cluster_route_proxied split: list.splits elim!: branchE)

text \<open>C1: In production, a request to the bridge's API is forwarded to a cluster only when its
  client certificate is the administrator's or names the organisation that owns the cluster, and
  that ownership was itself established by a certificate: somewhere in the run a tunnel was opened
  with the common name \<open>cluster-<id>\<close> and that organisation. Whatever the method and the path, what
  reaches the cluster is a path under \<open>/api/\<close>.\<close>

theorem api_tenancy:
  assumes "br_trace False evs b" and "Handler b r segs = CallProxy (Pass (c, u))"
  shows "(snd (peerOrgIdentity r) \<or> fst (peerOrgIdentity r) = cc_orgID c)
    \<and> cluster_vouched evs (cc_id c) (cc_orgID c)
    \<and> up_Host u = ''cluster-'' @ cc_id c \<and> has_prefix (up_Path u) ''/api/''"
proof -
  from Handler_proxied [OF assms(2)] obtain key path
    where p: "proxyToCluster b r key path = Pass (c, u)" "has_prefix path ''/api/''"
    by (auto simp: proxied_def)
  note pp = proxy_pass [OF p(1)]
  have "cc_id c = key" using pp br_trace_inv [OF assms(1)] by (simp add: br_inv_clusters_def)
  then show ?thesis
    using pp p(2) br_trace_vouched [OF assms(1)] br_trace_DevMode [OF assms(1)] by auto
qed

lemma acme_trace:
  "br_trace False [EvTunnel (cluster_request ''c1'' ''acme'') 5]
     (serveCluster_enter (NewWithConfig False) ''c1'' ''acme'' 5)"
  using br_trace.step [OF br_trace.start [of False]
      br_step.tunnel [OF handleTunnel_cluster_request [of "''c1''" "''acme''"]], of 5]
  by (simp add: tunnel_enter_def)

definition acme_user :: request where
  "acme_user = blank_request\<lparr>rq_TLS := Some [sample_cert ''device-ann'' ''acme'']\<rparr>"

definition acme_conn :: cluster_conn where
  "acme_conn = \<lparr>cc_id = ''c1'', cc_orgID = ''acme'', cc_sess = 0, cc_connected = 5\<rparr>"

lemma api_tenancy_witness:
  "\<exists>u. Handler (serveCluster_enter (NewWithConfig False) ''c1'' ''acme'' 5) acme_user
      [''api'', ''clusters'', ''c1'', ''version''] = CallProxy (Pass (acme_conn, u))
    \<and> (snd (peerOrgIdentity acme_user) \<or> fst (peerOrgIdentity acme_user) = cc_orgID acme_conn)
    \<and> has_prefix (up_Path u) ''/api/''"
proof -
  let ?b = "serveCluster_enter (NewWithConfig False) ''c1'' ''acme'' 5"
  have "Handler ?b acme_user [''api'', ''clusters'', ''c1'', ''version'']
      = CallProxy (handleClusterVersion ?b acme_user ''c1'')"
    by (simp add: Handler_def cluster_route_def on_method_def is_get_def acme_user_def blank_request_def)
  moreover have "\<exists>u. handleClusterVersion ?b acme_user ''c1'' = Pass (acme_conn, u)"
    by (simp add: handleClusterVersion_def proxyToCluster_def serveCluster_enter_def NewWithConfig_def
        acme_user_def acme_conn_def peerOrgIdentity_def peer_cert_def sample_cert_def Let_def)
  ultimately show ?thesis using api_tenancy [OF acme_trace] by metis
qed

section \<open>Deployment requests\<close>

lemma deploy_header_clean:
  "hget (deploy_header badge r) ''Authorization'' = []"
  "hget (deploy_header badge r) ''Cookie'' = filterClerkCookies (hget (rq_Header r) ''Cookie'')"
proof -
  have k: "canon_key ''Accept-Encoding'' \<noteq> canon_key ''Cookie''"
    "canon_key ''X-Forwarded-Host'' \<noteq> canon_key ''Cookie''"
    "canon_key ''X-Forwarded-Proto'' \<noteq> canon_key ''Cookie''"
    "canon_key ''Authorization'' \<noteq> canon_key ''Cookie''"
    by code_simp+
  show "hget (deploy_header badge r) ''Authorization'' = []"
    by (simp add: deploy_header_def Let_def)
  show "hget (deploy_header badge r) ''Cookie'' = filterClerkCookies (hget (rq_Header r) ''Cookie'')"
    by (simp add: deploy_header_def Let_def k)
qed

lemma deployment_pass:
  assumes "HandleDeployment b r = Pass (c, u, badge)"
  obtains reg route where "br_deploy b = Some reg" and "reg_Lookup reg (cut_port (rq_Host r)) = Some route"
    and "br_clusters b (dr_ClusterID route) = Some c"
    and "br_DevMode b \<or> dr_OrgID route = [] \<or> dr_OrgID route = cc_orgID c"
    and "deploy_upstream_path route (rq_Path r) = Inr (up_Path u)"
    and "up_Header u = deploy_header badge r"
    and "badge \<longleftrightarrow> dr_Kind route \<noteq> ''deployment'' \<and> equal_fold (dr_AuthMode route) ''public''"
proof -
  from assms obtain reg where reg: "br_deploy b = Some reg"
    by (auto simp: HandleDeployment_def split: option.splits)
  with assms obtain route where route: "reg_Lookup reg (cut_port (rq_Host r)) = Some route"
    by (auto simp: HandleDeployment_def split: option.splits)
  with assms reg obtain conn where conn: "br_clusters b (dr_ClusterID route) = Some conn"
    by (auto simp: HandleDeployment_def split: option.splits)
  note h = assms [unfolded HandleDeployment_def reg route conn option.case Let_def]
  then have guard: "br_DevMode b \<or> dr_OrgID route = [] \<or> dr_OrgID route = cc_orgID conn"
    by (auto split: if_split_asm)
  with h obtain path where "deploy_upstream_path route (rq_Path r) = Inr path"
    by (auto split: if_split_asm sum.split_asm)
  with h guard show thesis
    by (intro that [of reg route]) (use reg route conn in \<open>auto split: if_split_asm\<close>)
qed

text \<open>C8: A visitor's request to a deployment is forwarded only along a registered route for its
  host, to the connected cluster the route names, and when the route belongs to an organisation
  that organisation owns the cluster by certificate. What is forwarded carries no Authorization
  header and exactly the cookies that are not the dashboard's, in order; the badge is asked for only on public
  previews, never on deployments.\<close>

theorem deployment_isolated:
  assumes "br_trace False evs b" and "HandleDeployment b r = Pass (c, u, badge)"
  shows "\<exists>reg route. br_deploy b = Some reg \<and> reg_Lookup reg (cut_port (rq_Host r)) = Some route
    \<and> cc_id c = dr_ClusterID route \<and> cluster_vouched evs (cc_id c) (cc_orgID c)
    \<and> (dr_OrgID route = [] \<or> dr_OrgID route = cc_orgID c)
    \<and> deploy_upstream_path route (rq_Path r) = Inr (up_Path u)
    \<and> hget (up_Header u) ''Authorization'' = []
    \<and> cookie_parts (hget (up_Header u) ''Cookie'')
        = filter (\<lambda>p. \<not> isClerkCookieName (cookie_name p)) (cookie_parts (hget (rq_Header r) ''Cookie''))
    \<and> (badge \<longrightarrow> dr_Kind route \<noteq> ''deployment'' \<and> equal_fold (dr_AuthMode route) ''public'')"
proof -
  from assms(2) obtain reg route where d: "br_deploy b = Some reg"
    "reg_Lookup reg (cut_port (rq_Host r)) = Some route"
    "br_clusters b (dr_ClusterID route) = Some c"
    "br_DevMode b \<or> dr_OrgID route = [] \<or> dr_OrgID route = cc_orgID c"
    "deploy_upstream_path route (rq_Path r) = Inr (up_Path u)"
    "up_Header u = deploy_header badge r"
    "badge \<longleftrightarrow> dr_Kind route \<noteq> ''deployment'' \<and> equal_fold (dr_AuthMode route) ''public''"
    by (rule deployment_pass)
  have "cc_id c = dr_ClusterID route"
    using d(3) br_trace_inv [OF assms(1)] by (simp add: br_inv_clusters_def)
  moreover have "cluster_vouched evs (cc_id c) (cc_orgID c)"
    using br_trace_vouched [OF assms(1) d(3)] calculation by simp
  ultimately show ?thesis
    using d br_trace_DevMode [OF assms(1)]
    by (auto simp: deploy_header_clean filterClerkCookies_cookies)
qed

definition acme_route :: deploy_route where
  "acme_route = \<lparr>dr_Hostname = ''a.dev'', dr_Kind = ''share'', dr_ClusterID = ''c1'', dr_OrgID = ''acme'',
     dr_AuthMode = ''public'', dr_SandboxID = ''s'', dr_Port = 80, dr_DeploymentID = [],
     dr_PasswordHashB64 = [], dr_PasswordPrefix = 0\<rparr>"

definition admin_request :: request where
  "admin_request = blank_request\<lparr>rq_TLS := Some [\<lparr>cert_CN = ''syncer'', cert_URIs = [adminURN]\<rparr>]\<rparr>"

definition acme_broker :: broker where
  "acme_broker = (snd (handleDeployRoutesPut
     (serveCluster_enter (AttachDeploy (NewWithConfig False) NewDeployRegistry) ''c1'' ''acme'' 5)
     admin_request (Some [acme_route])))"

lemma acme_broker_trace: "br_trace False [EvTunnel (cluster_request ''c1'' ''acme'') 5,
    EvRoutes admin_request (Some [acme_route])] acme_broker"
  using br_trace.step [OF br_trace.step [OF br_trace.start_deploy [of False]
      br_step.tunnel [OF handleTunnel_cluster_request [of "''c1''" "''acme''"]], of 5] br_step.routes]
  by (simp add: tunnel_enter_def acme_broker_def)

lemma acme_broker_fields:
  "br_deploy acme_broker = Some [''a.dev'' \<mapsto> acme_route]"
  "br_clusters acme_broker = [''c1'' \<mapsto> acme_conn]"
  "br_DevMode acme_broker = False"
proof -
  have "to_lower ''a.dev'' = ''a.dev''" by code_simp
  moreover have "requireAdmin b admin_request" for b
    by (simp add: requireAdmin_def admin_request_def peerOrgIdentity_def peer_cert_def)
  ultimately show "br_deploy acme_broker = Some [''a.dev'' \<mapsto> acme_route]"
    "br_clusters acme_broker = [''c1'' \<mapsto> acme_conn]" "br_DevMode acme_broker = False"
    by (simp_all add: acme_broker_def handleDeployRoutesPut_def serveCluster_enter_def AttachDeploy_def
        NewWithConfig_def NewDeployRegistry_def reg_ReplaceAll_def acme_route_def acme_conn_def Let_def)
qed

lemma deployment_isolated_witness:
  "\<exists>u. HandleDeployment acme_broker (blank_request\<lparr>rq_Host := ''a.dev''\<rparr>) = Pass (acme_conn, u, True)
     \<and> hget (up_Header u) ''Authorization'' = []"
proof -
  have l: "to_lower ''a.dev'' = ''a.dev''" and p: "equal_fold ''public'' ''public''"
    and c: "cut_port ''a.dev'' = ''a.dev''" by code_simp+
  have "\<exists>u. HandleDeployment acme_broker (blank_request\<lparr>rq_Host := ''a.dev''\<rparr>) = Pass (acme_conn, u, True)"
    by (simp add: HandleDeployment_def acme_broker_fields reg_Lookup_def l c p acme_route_def
        acme_conn_def deploy_upstream_path_def Let_def)
  then show ?thesis using deployment_isolated [OF acme_broker_trace] by blast
qed

section \<open>Connections\<close>

text \<open>The tables show the connections as they are, in every reachable state. A connection in a
  table still has its serve loop, which will take it out again, so nothing stale is routed to once
  the loops have returned; and a connection whose session is open is in its table: a late return
  of the loop of a replaced cluster session does not evict its successor, and the end of one device session
  leaves its siblings under the same name alone. No name is left with an empty list.\<close>

theorem connections_tracked:
  assumes "br_trace dev evs b"
  shows "(\<forall>key c. br_clusters b key = Some c \<longrightarrow> cc_id c = key \<and> c \<in> br_serveC b)
    \<and> (\<forall>c \<in> br_serveC b. cc_sess c \<notin> br_closed b \<longrightarrow> br_clusters b (cc_id c) = Some c)
    \<and> (\<forall>key. \<forall>d \<in> set (device_list b key). dc_id d = key \<and> d \<in> br_serveD b)
    \<and> (\<forall>d \<in> br_serveD b. dc_sess d \<notin> br_closed b \<longrightarrow> d \<in> set (device_list b (dc_id d)))
    \<and> (\<forall>key. br_devices b key \<noteq> Some [])"
  using br_trace_inv [OF assms] unfolding br_inv_clusters_def br_inv_devices_def by blast

lemma connections_tracked_witness:
  "br_clusters acme_broker ''c1'' = Some acme_conn \<and> acme_conn \<in> br_serveC acme_broker \<and> cc_id acme_conn = ''c1''"
  using conjunct1 [OF connections_tracked [OF acme_broker_trace], THEN spec, THEN spec, of "''c1''" acme_conn]
  by (simp add: acme_broker_fields)

text \<open>The census and the proxy agree. For any requester and any cluster name, the name is in
  the list \<open>GET /api/clusters\<close> returns exactly when a request for that cluster would be forwarded,
  so the list neither reveals a cluster of another organisation nor hides a usable one.\<close>

theorem census_is_proxyable:
  assumes "br_trace dev evs b" and "set conns = ran (br_clusters b)"
  shows "key \<in> set (handleClustersList b r conns)
    \<longleftrightarrow> (\<exists>c u. proxyToCluster b r key path = Pass (c, u))"
proof -
  have keys: "br_clusters b k = Some c \<Longrightarrow> cc_id c = k" for k c
    using br_trace_inv [OF assms(1)] by (simp add: br_inv_clusters_def)
  obtain org adm where p: "peerOrgIdentity r = (org, adm)" by fastforce
  have "key \<in> set (handleClustersList b r conns)
      \<longleftrightarrow> (\<exists>c \<in> ran (br_clusters b). cc_id c = key \<and> (br_DevMode b \<or> adm \<or> cc_orgID c = org))"
    using assms(2) by (auto simp: handleClustersList_def p)
  also have "\<dots> \<longleftrightarrow> (\<exists>c. br_clusters b key = Some c \<and> (br_DevMode b \<or> adm \<or> cc_orgID c = org))"
    using keys by (fastforce simp: ran_def)
  also have "\<dots> \<longleftrightarrow> (\<exists>c u. proxyToCluster b r key path = Pass (c, u))"
    by (auto simp: proxyToCluster_def p split: option.splits)
  finally show ?thesis .
qed

lemma census_is_proxyable_witness:
  "''c1'' \<in> set (handleClustersList acme_broker acme_user [acme_conn])
    \<longleftrightarrow> (\<exists>c u. proxyToCluster acme_broker acme_user ''c1'' ''/api/version'' = Pass (c, u))"
  by (rule census_is_proxyable [OF acme_broker_trace]) (simp add: acme_broker_fields ran_def)

section \<open>Configuration\<close>

text \<open>In production only the administrator's certificate changes what the bridge routes and
  whom it denies. Any step that changes the deployment routes or the denylist is one of the two
  pushes, made with a client certificate that carries the admin name and a body that decodes; a
  device or cluster certificate, a refused push and every tunnel event leave both unchanged.\<close>

theorem only_admin_reconfigures:
  assumes "br_trace False evs b" and "br_step b e b'"
    and "br_deploy b' \<noteq> br_deploy b \<or> br_revocation b' \<noteq> br_revocation b"
  shows "\<exists>r c. ((\<exists>cns. e = EvRevoked r (Some cns)) \<or> (\<exists>routes. e = EvRoutes r (Some routes)))
    \<and> peer_cert r = Some c \<and> adminURN \<in> set (cert_URIs c)"
proof -
  have admin: "\<exists>c. peer_cert r = Some c \<and> adminURN \<in> set (cert_URIs c)" if "requireAdmin b r" for r
    using that br_trace_DevMode [OF assms(1)] peerOrg_cert [of r "fst (peerOrgIdentity r)" True]
    by (auto simp: requireAdmin_def prod_eq_iff)
  from assms(2) show ?thesis
  proof cases
    case (tunnel r role now)
    with assms(3) show ?thesis
      by (cases role) (auto simp: tunnel_enter_def serveDevice_enter_def serveCluster_enter_def Let_def)
  next
    case (revoked r body)
    with assms(3) admin show ?thesis
      by (cases body) (auto simp: handleRevokedCNsPut_def split: if_splits)
  next
    case (routes r body)
    with assms(3) admin show ?thesis
      by (cases body) (auto simp: handleDeployRoutesPut_def split: if_splits option.splits)
  qed (use assms(3) in \<open>auto simp: serveDevice_leave_def serveCluster_leave_def br_Shutdown_def Let_def\<close>)
qed

lemma only_admin_reconfigures_witness:
  "\<exists>c. peer_cert admin_request = Some c \<and> adminURN \<in> set (cert_URIs c)"
proof -
  have a: "requireAdmin acme_broker admin_request"
    by (simp add: requireAdmin_def admin_request_def peerOrgIdentity_def peer_cert_def)
  have "br_step acme_broker (EvRevoked admin_request (Some [''device-x'']))
      (acme_broker\<lparr>br_revocation := {''device-x''}\<rparr>)"
    using br_step.revoked [of acme_broker admin_request "Some [''device-x'']"] a
    by (simp add: handleRevokedCNsPut_def revocation_Replace_def)
  moreover have "br_revocation acme_broker = {}"
    by (simp add: acme_broker_def handleDeployRoutesPut_def serveCluster_enter_def AttachDeploy_def
        NewWithConfig_def Let_def)
  ultimately show ?thesis using only_admin_reconfigures [OF acme_broker_trace] by fastforce
qed

section \<open>Where the code and its comments part\<close>

definition mixed_trace :: "br_event list" where
  "mixed_trace = [EvTunnel (cluster_request ''c1'' ''acme'') 5,
     EvTunnel (device_request ''device-bob'' ''device-ann'' ''rival'') 6]"

definition mixed_broker :: broker where
  "mixed_broker = serveDevice_enter (serveCluster_enter (NewWithConfig False) ''c1'' ''acme'' 5)
     ''device-ann'' ''rival'' False 6"

definition rival_device :: device_conn where
  "rival_device = \<lparr>dc_id = ''device-ann'', dc_orgID = ''rival'', dc_admin = False, dc_sess = 1, dc_connected = 6\<rparr>"

lemma mixed_broker_trace: "br_trace False mixed_trace mixed_broker"
proof -
  have "has_prefix ''device-bob'' ''device-''" by code_simp
  then show ?thesis
    using br_trace.step [OF acme_trace
        br_step.tunnel [OF handleTunnel_device_request [of "''device-bob''" "''device-ann''" "''rival''"]], of 6]
    by (simp add: tunnel_enter_def mixed_trace_def mixed_broker_def)
qed

lemma mixed_broker_fields:
  "br_clusters mixed_broker ''c1'' = Some acme_conn"
  "br_serveD mixed_broker = {rival_device}" "br_closed mixed_broker = {}"
  by (simp_all add: mixed_broker_def serveDevice_enter_def serveCluster_enter_def NewWithConfig_def
      acme_conn_def rival_device_def Let_def)

definition to_c1 :: request where
  "to_c1 = blank_request\<lparr>rq_Header := hset Map.empty HeaderTargetCluster ''c1''\<rparr>"

text \<open>A request that comes in over a device's own tunnel is not checked for its tenant. There is
  a production run in which a live device of one organisation, without the admin name, has its
  request forwarded to the cluster of another organisation, although the broker's comment promises
  to refuse exactly that; only the API handlers make the check.\<close>

theorem device_requests_cross_tenants:
  "\<exists>evs b d c u r. br_trace False evs b \<and> d \<in> br_serveD b \<and> dc_sess d \<notin> br_closed b
     \<and> \<not> dc_admin d \<and> dc_orgID d \<noteq> cc_orgID c \<and> cluster_vouched evs (cc_id c) (cc_orgID c)
     \<and> deviceHandler b (dc_id d) r = Pass (DProxy c u)"
proof -
  have "\<exists>u. deviceHandler mixed_broker (dc_id rival_device) to_c1 = Pass (DProxy acme_conn u)"
    by (simp add: deviceHandler_def to_c1_def mixed_broker_fields blank_request_def Let_def)
  moreover have "cluster_vouched mixed_trace (cc_id acme_conn) (cc_orgID acme_conn)"
    using br_trace_vouched [OF mixed_broker_trace mixed_broker_fields(1)] by (simp add: acme_conn_def)
  moreover have "dc_orgID rival_device \<noteq> cc_orgID acme_conn" "\<not> dc_admin rival_device"
    by (simp_all add: rival_device_def acme_conn_def)
  ultimately show ?thesis
    using mixed_broker_trace mixed_broker_fields by blast
qed

text \<open>The device name that a cluster is told is not the one in the certificate. In production a
  device whose certificate says \<open>device-bob\<close> may register as \<open>device-ann\<close>, and the requests it
  sends then carry \<open>X-Forwarded-Device: device-ann\<close>, the header the code calls verified.\<close>

theorem forwarded_device_unverified:
  "\<exists>evs b r cert d c u. br_trace False (evs @ [EvTunnel r 6]) b \<and> peer_cert r = Some cert
     \<and> cert_CN cert = ''device-bob'' \<and> br_serveD b = {d} \<and> dc_id d = ''device-ann''
     \<and> deviceHandler b (dc_id d) to_c1 = Pass (DProxy c u)
     \<and> hget (up_Header u) ''X-Forwarded-Device'' = ''device-ann''"
proof -
  let ?r = "device_request ''device-bob'' ''device-ann'' ''rival''"
  obtain u where u: "deviceHandler mixed_broker (dc_id rival_device) to_c1 = Pass (DProxy acme_conn u)"
    "hget (up_Header u) ''X-Forwarded-Device'' = ''device-ann''"
    by (simp add: deviceHandler_def to_c1_def mixed_broker_fields blank_request_def Let_def rival_device_def)
  have "br_trace False ([EvTunnel (cluster_request ''c1'' ''acme'') 5] @ [EvTunnel ?r 6]) mixed_broker"
    using mixed_broker_trace by (simp add: mixed_trace_def)
  moreover have "peer_cert ?r = Some (sample_cert ''device-bob'' ''rival'')"
    "cert_CN (sample_cert ''device-bob'' ''rival'') = ''device-bob''" "dc_id rival_device = ''device-ann''"
    by (simp_all add: peer_cert_def device_request_def sample_cert_def rival_device_def)
  ultimately show ?thesis using u mixed_broker_fields(2) by blast
qed

text \<open>The cluster table is keyed by the name alone, not by organisation and name. In production
  a cluster of another organisation that has the same name takes the place of a connected one:
  its session is closed and requests of its own organisation no longer reach it.\<close>

theorem cluster_name_shared_across_tenants:
  "\<exists>evs b mine theirs. br_trace False evs b \<and> mine \<in> br_serveC b \<and> theirs \<in> br_serveC b
     \<and> cc_id mine = cc_id theirs \<and> cc_orgID mine \<noteq> cc_orgID theirs
     \<and> cluster_vouched evs (cc_id mine) (cc_orgID mine)
     \<and> cc_sess mine \<in> br_closed b \<and> br_clusters b (cc_id mine) = Some theirs"
proof -
  define b where "b = serveCluster_enter (serveCluster_enter (NewWithConfig False) ''c1'' ''acme'' 5) ''c1'' ''rival'' 6"
  define theirs where "theirs = \<lparr>cc_id = ''c1'', cc_orgID = ''rival'', cc_sess = 1, cc_connected = 6\<rparr>"
  let ?evs = "[EvTunnel (cluster_request ''c1'' ''acme'') 5] @ [EvTunnel (cluster_request ''c1'' ''rival'') 6]"
  have "br_trace False ?evs b"
    using br_trace.step [OF acme_trace
        br_step.tunnel [OF handleTunnel_cluster_request [of "''c1''" "''rival''"]], of 6]
    by (simp add: tunnel_enter_def b_def)
  moreover have "cluster_vouched ?evs (cc_id acme_conn) (cc_orgID acme_conn)"
    using br_trace_vouched [OF acme_trace, of "''c1''" acme_conn]
    by (intro cluster_vouched_mono) (simp add: serveCluster_enter_def NewWithConfig_def acme_conn_def Let_def)
  moreover have "acme_conn \<in> br_serveC b" "theirs \<in> br_serveC b" "br_clusters b (cc_id acme_conn) = Some theirs"
    "cc_sess acme_conn \<in> br_closed b" "cc_id acme_conn = cc_id theirs" "cc_orgID acme_conn \<noteq> cc_orgID theirs"
    by (simp_all add: b_def theirs_def acme_conn_def serveCluster_enter_def NewWithConfig_def Let_def)
  ultimately show ?thesis by blast
qed

end
