(* ===== verification/Tokens.thy ===== *)
theory Tokens
  imports GoLib
begin

text \<open>
  What the signed values of the bridge and of the auth proxy share: Go's base64 encodings, the
  contract of a token that is minted and verified under a secret, and the contract of a rate
  limiter. The message authentication code (HMAC-SHA256) is a parameter wherever it is used.
\<close>

section \<open>Base64\<close>

text \<open>\<open>base64.RawURLEncoding\<close> and \<open>base64.StdEncoding\<close> of \<open>encoding/base64\<close>: a decoder drops
  carriage returns and newlines and does not check the bits left over at the end.\<close>

definition b64_char :: "bool \<Rightarrow> nat \<Rightarrow> char" where
  "b64_char url n =
     (if n < 26 then char_of (65 + n) else if n < 52 then char_of (71 + n)
      else if n < 62 then char_of (n - 4)
      else if n = 62 then (if url then CHR ''-'' else CHR ''+'')
      else (if url then CHR ''_'' else CHR ''/''))"

definition b64_val :: "bool \<Rightarrow> char \<Rightarrow> nat option" where
  "b64_val url c = (let n = (of_char c :: nat) in
     if 65 \<le> n \<and> n \<le> 90 then Some (n - 65)
     else if 97 \<le> n \<and> n \<le> 122 then Some (n - 71)
     else if 48 \<le> n \<and> n \<le> 57 then Some (n + 4)
     else if n = (if url then 45 else 43) then Some 62
     else if n = (if url then 95 else 47) then Some 63
     else None)"

fun b64_groups :: "nat list \<Rightarrow> nat list" where
  "b64_groups [] = []"
| "b64_groups [a] = [a div 4, a mod 4 * 16]"
| "b64_groups [a, b] = [a div 4, a mod 4 * 16 + b div 16, b mod 16 * 4]"
| "b64_groups (a # b # c # r) =
     [a div 4, a mod 4 * 16 + b div 16, b mod 16 * 4 + c div 64, c mod 64] @ b64_groups r"

fun b64_ungroup :: "nat list \<Rightarrow> nat list option" where
  "b64_ungroup [] = Some []"
| "b64_ungroup [a] = None"
| "b64_ungroup [a, b] = Some [a * 4 + b div 16]"
| "b64_ungroup [a, b, c] = Some [a * 4 + b div 16, b mod 16 * 16 + c div 4]"
| "b64_ungroup (a # b # c # d # r) =
     map_option (\<lambda>t. [a * 4 + b div 16, b mod 16 * 16 + c div 4, c mod 4 * 64 + d] @ t) (b64_ungroup r)"

fun opt_all :: "'a option list \<Rightarrow> 'a list option" where
  "opt_all [] = Some []"
| "opt_all (None # r) = None"
| "opt_all (Some x # r) = map_option (Cons x) (opt_all r)"

definition b64_raw_encode :: "bytes \<Rightarrow> string" where
  "b64_raw_encode b = map (b64_char True) (b64_groups (map of_char b))"

definition no_newlines :: "string \<Rightarrow> string" where
  "no_newlines s = filter (\<lambda>c. c \<noteq> CHR 0x0A \<and> c \<noteq> CHR 0x0D) s"

definition b64_values :: "bool \<Rightarrow> string \<Rightarrow> bytes option" where
  "b64_values url s =
     (case opt_all (map (b64_val url) s) of None \<Rightarrow> None | Some vs \<Rightarrow> map_option (map char_of) (b64_ungroup vs))"

definition b64_raw_decode :: "string \<Rightarrow> bytes option" where
  "b64_raw_decode s = b64_values True (no_newlines s)"

definition b64_std_decode :: "string \<Rightarrow> bytes option" where
  "b64_std_decode s = (let t = no_newlines s in
     if length t mod 4 \<noteq> 0 then None
     else b64_values False (if has_suffix t ''=='' then take (length t - 2) t
                            else if has_suffix t ''='' then take (length t - 1) t else t))"

lemma b64_val_char: "n < 64 \<Longrightarrow> b64_val url (b64_char url n) = Some n"
  by (auto simp: b64_val_def b64_char_def Let_def)

lemma b64_char_plain: "n < 64 \<Longrightarrow> b64_char url n \<noteq> CHR ''.'' \<and> b64_char url n \<noteq> CHR 0x0A \<and> b64_char url n \<noteq> CHR 0x0D"
proof -
  assume n: "n < 64"
  have "(of_char (b64_char url n) :: nat) \<noteq> 46 \<and> (of_char (b64_char url n) :: nat) \<noteq> 10
      \<and> (of_char (b64_char url n) :: nat) \<noteq> 13"
    using n by (auto simp: b64_char_def)
  then show ?thesis by auto
qed

lemma b64_groups_range: "\<forall>x \<in> set bs. x < 256 \<Longrightarrow> \<forall>g \<in> set (b64_groups bs). g < 64"
  by (induction bs rule: b64_groups.induct) (auto simp: less_mult_imp_div_less)

lemma b64_ungroup_groups: "\<forall>x \<in> set bs. x < 256 \<Longrightarrow> b64_ungroup (b64_groups bs) = Some bs"
proof (induction bs rule: b64_groups.induct)
  case (4 a b c r)
  have "(a mod 4 * 16 + b div 16) div 16 = a mod 4" "(b mod 16 * 4 + c div 64) div 4 = b mod 16"
    "(a mod 4 * 16 + b div 16) mod 16 = b div 16" "(b mod 16 * 4 + c div 64) mod 4 = c div 64"
    using 4 by auto
  then show ?case using 4 by simp
next
  case (3 a b)
  have "(a mod 4 * 16 + b div 16) div 16 = a mod 4" "(a mod 4 * 16 + b div 16) mod 16 = b div 16"
    using 3 by auto
  then show ?case using 3 by simp
qed auto

lemma opt_all_map: "\<forall>x \<in> set xs. f (g x) = Some x \<Longrightarrow> opt_all (map f (map g xs)) = Some xs"
  by (induction xs) auto

lemma b64_bytes_range: "\<forall>x \<in> set (map (of_char :: char \<Rightarrow> nat) b). x < 256"
  by (auto simp: of_char_less)

lemma b64_raw_decode_encode [roundtrip]: "b64_raw_decode (b64_raw_encode b) = Some b"
proof -
  let ?g = "b64_groups (map of_char b)"
  have g: "\<forall>x \<in> set ?g. x < 64" by (rule b64_groups_range [OF b64_bytes_range])
  then have "no_newlines (b64_raw_encode b) = b64_raw_encode b"
    using b64_char_plain by (auto simp: no_newlines_def b64_raw_encode_def intro!: filter_True)
  moreover have "opt_all (map (b64_val True) (b64_raw_encode b)) = Some ?g"
    unfolding b64_raw_encode_def using g b64_val_char by (intro opt_all_map) blast
  ultimately show ?thesis
    by (simp add: b64_raw_decode_def b64_values_def b64_ungroup_groups [OF b64_bytes_range] comp_def)
qed

lemma b64_raw_encode_no_dot [simp]: "CHR ''.'' \<notin> set (b64_raw_encode b)"
  using b64_char_plain b64_groups_range [OF b64_bytes_range, of b]
  by (fastforce simp: b64_raw_encode_def)

section \<open>Signed tokens\<close>

type_synonym mac = "bytes \<Rightarrow> bytes \<Rightarrow> bytes" \<comment> \<open>secret, message\<close>

text \<open>A token names a claim and an expiry, and ends in the code of its body under the secret. The
  interface asks three things of a pair of routines: a minted token verifies to its claim exactly
  while it lives; a string that verifies carries the code of its own body, and the claim is read
  from that body alone; and time only ever turns acceptance into rejection.\<close>

locale signed_token =
  fixes mint :: "mac \<Rightarrow> bytes \<Rightarrow> 'c \<Rightarrow> int \<Rightarrow> string"
    and verify :: "mac \<Rightarrow> bytes \<Rightarrow> int \<Rightarrow> string \<Rightarrow> 'c option"
    and claim_ok :: "'c \<Rightarrow> bool"
    and live :: "int \<Rightarrow> int \<Rightarrow> bool" \<comment> \<open>at an instant, for an expiry\<close>
    and body_of :: "string \<Rightarrow> bytes"
    and signature_of :: "string \<Rightarrow> bytes option"
    and read_body :: "bytes \<Rightarrow> ('c \<times> int) option"
  assumes verify_mint: "key \<noteq> [] \<Longrightarrow> claim_ok c \<Longrightarrow> 0 \<le> exp \<Longrightarrow> exp < 2 ^ 63 \<Longrightarrow>
      verify mac key now (mint mac key c exp) = (if live now exp then Some c else None)"
    and verify_authentic: "verify mac key now v = Some c \<Longrightarrow>
      signature_of v = Some (mac key (body_of v)) \<and> (\<exists>exp. read_body (body_of v) = Some (c, exp) \<and> live now exp)"
    and verify_complete: "signature_of v = Some (mac key (body_of v)) \<Longrightarrow> read_body (body_of v) = Some (c, exp)
      \<Longrightarrow> live now exp \<Longrightarrow> verify mac key now v = Some c"
    and live_mono: "live later exp \<Longrightarrow> now \<le> later \<Longrightarrow> live now exp"
begin

lemma verify_iff: "verify mac key now v = Some c \<longleftrightarrow> signature_of v = Some (mac key (body_of v))
    \<and> (\<exists>exp. read_body (body_of v) = Some (c, exp) \<and> live now exp)"
  using verify_authentic verify_complete by blast

lemma verify_earlier: "verify mac key later v = Some c \<Longrightarrow> now \<le> later \<Longrightarrow> verify mac key now v = Some c"
  using live_mono unfolding verify_iff by blast

lemma expired_stays_expired:
  "verify mac key now v = None \<Longrightarrow> now \<le> later \<Longrightarrow> verify mac key later v = None"
  by (cases "verify mac key later v") (auto dest: verify_earlier [of mac key later v _ now])

lemma no_forgery:
  "\<forall>body. signature_of v \<noteq> Some (mac key body) \<Longrightarrow> verify mac key now v = None"
  by (cases "verify mac key now v") (auto dest: verify_authentic)

end

section \<open>Rate limiters\<close>

text \<open>A limiter keeps what it needs of the past. \<open>used s k t\<close> is the budget that key \<open>k\<close> has used
  up at time \<open>t\<close>, and \<open>counts t t'\<close> says that a grant at \<open>t\<close> still counts at \<open>t'\<close>. The contract:
  a request is granted only with budget left, and a grant is charged for as long as it counts.\<close>

locale rate_limiter =
  fixes allow :: "'s \<Rightarrow> 'k \<Rightarrow> int \<Rightarrow> bool \<times> 's"
    and used :: "'s \<Rightarrow> 'k \<Rightarrow> int \<Rightarrow> nat"
    and counts :: "int \<Rightarrow> int \<Rightarrow> bool"
    and budget :: "'s \<Rightarrow> nat"
    and ok :: "'s \<Rightarrow> int \<Rightarrow> bool"
  assumes grant_needs_budget: "ok s t \<Longrightarrow> fst (allow s k t) \<Longrightarrow> used s k t < budget s"
    and grant_charged: "ok s t \<Longrightarrow> t \<le> t' \<Longrightarrow>
      used (snd (allow s k t)) k' t' \<ge> used s k' t' + (if k' = k \<and> fst (allow s k t) \<and> counts t t' then 1 else 0)"
    and budget_fixed: "budget (snd (allow s k t)) = budget s"
    and ok_allow: "ok s t \<Longrightarrow> ok (snd (allow s k t)) t"
    and ok_later: "ok s t \<Longrightarrow> t \<le> t' \<Longrightarrow> ok s t'"
begin

text \<open>A run of requests: the grants, as key and time, and the state.\<close>

fun run :: "'s \<Rightarrow> ('k \<times> int) list \<Rightarrow> ('k \<times> int) list \<times> 's" where
  "run s [] = ([], s)"
| "run s ((k, t) # es) =
     (let (gs, s') = run (snd (allow s k t)) es in
      ((if fst (allow s k t) then (k, t) # gs else gs), s'))"

lemma run_budget: "budget (snd (run s es)) = budget s"
proof (induction es arbitrary: s)
  case (Cons e es)
  obtain k t where e: "e = (k, t)" by fastforce
  show ?case using Cons [of "snd (allow s k t)"] budget_fixed [of s k t] by (simp add: e split_beta Let_def)
qed simp

lemma run_used:
  "ok s t0 \<Longrightarrow> sorted (t0 # map snd es @ [t]) \<Longrightarrow>
   ok (snd (run s es)) t \<and>
   used s k t + length (filter (\<lambda>(k', t'). k' = k \<and> counts t' t) (fst (run s es))) \<le> used (snd (run s es)) k t"
proof (induction es arbitrary: s t0)
  case Nil
  then show ?case using ok_later by simp
next
  case (Cons e es)
  obtain k1 t1 where e: "e = (k1, t1)" by fastforce
  let ?s = "snd (allow s k1 t1)"
  have t: "t0 \<le> t1" "t1 \<le> t" "sorted (t1 # map snd es @ [t])"
    using Cons.prems(2) by (auto simp: e sorted_append)
  have ok1: "ok s t1" using Cons.prems(1) t ok_later by blast
  have "used s k t + (if k = k1 \<and> fst (allow s k1 t1) \<and> counts t1 t then 1 else 0) \<le> used ?s k t"
    using grant_charged [OF ok1 t(2)] by simp
  moreover note Cons.IH [OF ok_allow [OF ok1] t(3), of k1]
  ultimately show ?case by (auto simp: e split_beta Let_def)
qed

text \<open>At any grant, the grants of the same key that still count, this one included, are within the
  budget.\<close>

lemma grants_within_budget:
  assumes "ok s t0" and "sorted (t0 # map snd es @ [t])" and "fst (allow (snd (run s es)) k t)"
  shows "length (filter (\<lambda>(k', t'). k' = k \<and> counts t' t) (fst (run s es))) < budget s"
  using run_used [OF assms(1,2), of k] grant_needs_budget [OF _ assms(3)] run_budget [of s es] by simp

end

end
