(* ===== verification/Bridge_Gate.thy ===== *)
theory Bridge_Gate
  imports Bridge_Tenancy Tokens
begin

text \<open>
  The front of the bridge (\<open>cmd/bridge\<close>): the choice between deployment traffic and the API, the
  client-certificate gate, the two browser gates of a deployment (organisation and password) with
  their signed values, the rate limiter of the unlock form, and the start-up checks of \<open>main\<close>.

  The message authentication code, Argon2 and the tables of the TLS library are parameters.
  Times are Unix seconds.
\<close>

section \<open>Configuration\<close>

definition envBool :: "string \<Rightarrow> bool" where
  "envBool v \<longleftrightarrow> to_lower v \<in> {''1'', ''true'', ''yes'', ''on''}"

definition envOr :: "string \<Rightarrow> string \<Rightarrow> string" where
  "envOr v dflt = (if v \<noteq> [] then v else dflt)"

definition decodeHexSecret :: "string \<Rightarrow> bytes option" where
  "decodeHexSecret s = (case hex_decode (trim_space s) of
     None \<Rightarrow> None | Some b \<Rightarrow> if length b < 32 then None else Some b)"

record env_config =
  en_devMode :: bool
  en_tlsDomain :: string
  en_tlsCacheDir :: string
  en_httpsListen :: string
  en_httpListen :: string
  en_caCertURL :: string
  en_caCertPath :: string
  en_deployDomain :: string
  en_deployCertCacheDir :: string
  en_cfAPIToken :: string
  en_deployAuthSecret :: bytes
  en_appURL :: string

text \<open>\<open>loadEnv\<close> over the environment, an unset variable being the empty string; \<open>None\<close> is the fatal
  exit on a bad secret.\<close>

definition loadEnv :: "(string \<Rightarrow> string) \<Rightarrow> env_config option" where
  "loadEnv getenv = (
     let cfg = \<lparr>en_devMode = envBool (getenv ''DEV_MODE''),
       en_tlsDomain = getenv ''TLS_DOMAIN'',
       en_tlsCacheDir = envOr (getenv ''TLS_CACHE_DIR'') ''/var/lib/agentry-bridge/autocert'',
       en_httpsListen = envOr (getenv ''HTTPS_LISTEN'') '':443'',
       en_httpListen = envOr (getenv ''HTTP_LISTEN'') '':80'',
       en_caCertURL = getenv ''CA_CERT_URL'',
       en_caCertPath = getenv ''CA_CERT_PATH'',
       en_deployDomain = getenv ''DEPLOY_DOMAIN'',
       en_deployCertCacheDir = envOr (getenv ''DEPLOY_CERT_CACHE_DIR'') ''/var/lib/agentry-bridge/deploy-certs'',
       en_cfAPIToken = getenv ''CF_API_TOKEN'',
       en_deployAuthSecret = [],
       en_appURL = envOr (getenv ''APP_URL'') ''https://app.agentry.run''\<rparr>;
       secret = getenv ''AGENTRY_DEPLOY_HANDOFF_SECRET''
     in if secret = [] then Some cfg
        else map_option (\<lambda>b. cfg\<lparr>en_deployAuthSecret := b\<rparr>) (decodeHexSecret secret))"

datatype ca_source = CAFromURL string | CAFromFile string

definition loadCA :: "env_config \<Rightarrow> ca_source option" where
  "loadCA env =
     (if en_caCertURL env \<noteq> [] then Some (CAFromURL (en_caCertURL env))
      else if en_caCertPath env \<noteq> [] then Some (CAFromFile (en_caCertPath env))
      else None)"

text \<open>What \<open>main\<close> starts: nothing (a fatal exit), the plain server, or the TLS server. \<open>ca\<close> tells
  whether the certificate at a source can be loaded.\<close>

datatype start_up = RefuseToStart | RunPlain | RunTLS

definition bridge_main :: "(string \<Rightarrow> string) \<Rightarrow> (ca_source \<Rightarrow> bool) \<Rightarrow> start_up" where
  "bridge_main getenv ca = (case loadEnv getenv of
     None \<Rightarrow> RefuseToStart
   | Some env \<Rightarrow>
       if en_devMode env \<and> (en_tlsDomain env \<noteq> [] \<or> en_deployDomain env \<noteq> []) then RefuseToStart
       else if en_devMode env then RunPlain
       else case loadCA env of None \<Rightarrow> RefuseToStart
         | Some src \<Rightarrow> if ca src then RunTLS else RefuseToStart)"

section \<open>Hosts\<close>

definition stripPort :: "string \<Rightarrow> string" where
  "stripPort host = cut_port host"

definition hostMatchesDeployDomain :: "string \<Rightarrow> string \<Rightarrow> bool" where
  "hostMatchesDeployDomain host deployDomain = (
     let host = to_lower (trim_suffix (cut_port host) ''.'');
         domain = to_lower deployDomain in
     if host = domain then False else has_suffix host (''.'' @ domain))"

text \<open>The subdomain the placeholder page shows.\<close>

definition deploymentPlaceholder :: "request \<Rightarrow> string \<Rightarrow> string" where
  "deploymentPlaceholder r deployDomain = trim_suffix (cut_port (rq_Host r)) (''.'' @ deployDomain)"

definition redirectToHTTPS :: "string \<Rightarrow> request \<Rightarrow> string" where
  "redirectToHTTPS domain r = ''https://'' @ domain @ rq_RequestURI r"

text \<open>The certificate presented for a server name; \<open>manager\<close> says whether the wildcard manager is
  configured.\<close>

datatype server_cert = WildcardFor string | NoCertManager | AutocertFor string

definition GetCertificate :: "env_config \<Rightarrow> bool \<Rightarrow> registry \<Rightarrow> string \<Rightarrow> server_cert" where
  "GetCertificate env manager reg sni =
     (if en_deployDomain env \<noteq> [] \<and> hostMatchesDeployDomain sni (en_deployDomain env) then
        (if manager then WildcardFor sni else NoCertManager)
      else if manager \<and> reg_Lookup reg sni \<noteq> None then WildcardFor (''origin.'' @ en_deployDomain env)
      else AutocertFor sni)"

section \<open>Signed values\<close>

definition mintDeploySignedValue :: "mac \<Rightarrow> bytes \<Rightarrow> string \<Rightarrow> int \<Rightarrow> string" where
  "mintDeploySignedValue mac secret orgID exp = (
     let body = orgID @ ''.'' @ format_int exp in body @ ''.'' @ b64_raw_encode (mac secret body))"

definition verifyDeploySignedValue :: "mac \<Rightarrow> bytes \<Rightarrow> int \<Rightarrow> string \<Rightarrow> string option" where
  "verifyDeploySignedValue mac secret now v =
     (case split_n (CHR ''.'') v 3 of
        [p0, p1, p2] \<Rightarrow>
          (case b64_raw_decode p2 of
             None \<Rightarrow> None
           | Some expectSig \<Rightarrow>
               if mac secret (p0 @ ''.'' @ p1) \<noteq> expectSig then None
               else (case parse_int p1 of
                   None \<Rightarrow> None
                 | Some exp \<Rightarrow> if now > exp then None else Some p0))
      | _ \<Rightarrow> None)"

definition mintUnlockCookie :: "mac \<Rightarrow> bytes \<Rightarrow> nat \<Rightarrow> int \<Rightarrow> string" where
  "mintUnlockCookie mac secret prefix exp = (
     let body = format_uint prefix 16 @ ''.'' @ format_int exp in body @ ''.'' @ b64_raw_encode (mac secret body))"

definition verifyUnlockCookie :: "mac \<Rightarrow> bytes \<Rightarrow> int \<Rightarrow> string \<Rightarrow> nat option" where
  "verifyUnlockCookie mac secret now v =
     (case split_n (CHR ''.'') v 3 of
        [p0, p1, p2] \<Rightarrow>
          (case b64_raw_decode p2 of
             None \<Rightarrow> None
           | Some got \<Rightarrow>
               if got \<noteq> mac secret (p0 @ ''.'' @ p1) then None
               else (case parse_int p1 of
                   None \<Rightarrow> None
                 | Some exp \<Rightarrow> if now \<ge> exp then None else parse_uint 16 p0))
      | _ \<Rightarrow> None)"

text \<open>Both are tokens: the parts a token consists of.\<close>

definition token_body :: "string \<Rightarrow> bytes" where
  "token_body v = (case split_n (CHR ''.'') v 3 of [p0, p1, p2] \<Rightarrow> p0 @ ''.'' @ p1 | _ \<Rightarrow> [])"

definition token_signature :: "string \<Rightarrow> bytes option" where
  "token_signature v = (case split_n (CHR ''.'') v 3 of [p0, p1, p2] \<Rightarrow> b64_raw_decode p2 | _ \<Rightarrow> None)"

definition deploy_claim :: "bytes \<Rightarrow> (string \<times> int) option" where
  "deploy_claim body = (case split_n (CHR ''.'') body 2 of
     [p0, p1] \<Rightarrow> map_option (Pair p0) (parse_int p1) | _ \<Rightarrow> None)"

definition unlock_claim :: "bytes \<Rightarrow> (nat \<times> int) option" where
  "unlock_claim body = (case split_n (CHR ''.'') body 2 of
     [p0, p1] \<Rightarrow> (case parse_int p1 of None \<Rightarrow> None | Some e \<Rightarrow> map_option (\<lambda>p. (p, e)) (parse_uint 16 p0))
   | _ \<Rightarrow> None)"

lemma split_n_3_cases:
  "split_n c v 3 = [p0, p1, p2] \<longleftrightarrow> v = p0 @ c # p1 @ c # p2 \<and> c \<notin> set p0 \<and> c \<notin> set p1"
proof
  assume h: "split_n c v 3 = [p0, p1, p2]"
  then obtain i where i: "index_byte v c = Some i" "p0 = take i v"
    "split_n c (drop (Suc i) v) (Suc (Suc 0)) = [p1, p2]"
    by (auto simp: numeral_3_eq_3 split: option.splits)
  then obtain j where j: "index_byte (drop (Suc i) v) c = Some j" "p1 = take j (drop (Suc i) v)"
    "p2 = drop (Suc j) (drop (Suc i) v)"
    by (auto split: option.splits)
  note vi = index_byte_Some [OF i(1)] and vj = index_byte_Some [OF j(1)]
  have "v = p0 @ c # drop (Suc i) v" using vi i(2) by (metis id_take_nth_drop)
  moreover have "drop (Suc i) v = p1 @ c # p2" using vj j by (metis id_take_nth_drop)
  ultimately show "v = p0 @ c # p1 @ c # p2 \<and> c \<notin> set p0 \<and> c \<notin> set p1"
    using vi vj i(2) j(2) by metis
next
  assume "v = p0 @ c # p1 @ c # p2 \<and> c \<notin> set p0 \<and> c \<notin> set p1"
  then show "split_n c v 3 = [p0, p1, p2]" using split_n_3 by metis
qed

lemma token_cases:
  obtains (token) p0 p1 p2 where "split_n (CHR ''.'') v 3 = [p0, p1, p2]"
    and "token_body v = p0 @ ''.'' @ p1" and "token_signature v = b64_raw_decode p2"
    and "split_n (CHR ''.'') (token_body v) 2 = [p0, p1]"
  | (other) "token_signature v = None" and "\<forall>p0 p1 p2. split_n (CHR ''.'') v 3 \<noteq> [p0, p1, p2]"
proof (cases "\<exists>p0 p1 p2. split_n (CHR ''.'') v 3 = [p0, p1, p2]")
  case True
  then obtain p0 p1 p2 where s: "split_n (CHR ''.'') v 3 = [p0, p1, p2]" by blast
  then have "CHR ''.'' \<notin> set p0" by (simp add: split_n_3_cases)
  then show thesis using s by (intro token [of p0 p1 p2]) (simp_all add: token_body_def token_signature_def split_n_2)
next
  case False
  then show thesis by (intro other) (auto simp: token_signature_def split: list.splits)
qed

lemma verifyDeploySignedValue_iff:
  "verifyDeploySignedValue mac secret now v = Some c \<longleftrightarrow>
     token_signature v = Some (mac secret (token_body v))
     \<and> (\<exists>exp. deploy_claim (token_body v) = Some (c, exp) \<and> now \<le> exp)"
proof (cases v rule: token_cases)
  case (token p0 p1 p2)
  then show ?thesis
    by (auto simp: verifyDeploySignedValue_def deploy_claim_def split: option.splits)
qed (auto simp: verifyDeploySignedValue_def split: list.splits)

lemma verifyUnlockCookie_iff:
  "verifyUnlockCookie mac secret now v = Some c \<longleftrightarrow>
     token_signature v = Some (mac secret (token_body v))
     \<and> (\<exists>exp. unlock_claim (token_body v) = Some (c, exp) \<and> now < exp)"
proof (cases v rule: token_cases)
  case (token p0 p1 p2)
  then show ?thesis
    by (auto simp: verifyUnlockCookie_def unlock_claim_def split: option.splits)
qed (auto simp: verifyUnlockCookie_def split: list.splits)

lemma token_of_body:
  fixes a b :: string and sig :: bytes
  assumes "CHR ''.'' \<notin> set a" and "CHR ''.'' \<notin> set b"
    and "v = a @ ''.'' @ b @ ''.'' @ b64_raw_encode sig"
  shows "token_body v = a @ ''.'' @ b" and "token_signature v = Some sig"
    and "split_n (CHR ''.'') (token_body v) 2 = [a, b]"
proof -
  have s: "split_n (CHR ''.'') v 3 = [a, b, b64_raw_encode sig]"
    unfolding split_n_3_cases using assms by simp
  show "token_body v = a @ ''.'' @ b" "token_signature v = Some sig"
    by (simp_all add: token_body_def token_signature_def s b64_raw_decode_encode)
  then show "split_n (CHR ''.'') (token_body v) 2 = [a, b]"
    using assms by (simp add: split_n_2)
qed

lemma mintDeploySignedValue_token:
  assumes "CHR ''.'' \<notin> set orgID"
  shows "token_body (mintDeploySignedValue mac secret orgID exp) = orgID @ ''.'' @ format_int exp"
    and "token_signature (mintDeploySignedValue mac secret orgID exp) = Some (mac secret (orgID @ ''.'' @ format_int exp))"
    and "split_n (CHR ''.'') (orgID @ ''.'' @ format_int exp) 2 = [orgID, format_int exp]"
  using token_of_body [OF assms format_int_no_dot [of exp] refl]
  by (simp_all add: mintDeploySignedValue_def)

lemma mintUnlockCookie_token:
  shows "token_body (mintUnlockCookie mac secret p exp) = format_uint p 16 @ ''.'' @ format_int exp"
    and "token_signature (mintUnlockCookie mac secret p exp) = Some (mac secret (format_uint p 16 @ ''.'' @ format_int exp))"
    and "split_n (CHR ''.'') (format_uint p 16 @ ''.'' @ format_int exp) 2 = [format_uint p 16, format_int exp]"
  using token_of_body [OF format_uint_no_dot [of 16 p] format_int_no_dot [of exp] refl]
  by (simp_all add: mintUnlockCookie_def)

interpretation deploy_token: signed_token mintDeploySignedValue verifyDeploySignedValue
  "\<lambda>orgID. CHR ''.'' \<notin> set orgID" "\<lambda>now exp. now \<le> exp" token_body token_signature deploy_claim
proof (unfold_locales, goal_cases)
  case (1 key c exp mac now)
  then have "deploy_claim (token_body (mintDeploySignedValue mac key c exp)) = Some (c, exp)"
    by (simp add: mintDeploySignedValue_token deploy_claim_def parse_int_format split_n_2)
  then show ?case
    using verifyDeploySignedValue_iff [of mac key now "mintDeploySignedValue mac key c exp"] 1
    by (cases "verifyDeploySignedValue mac key now (mintDeploySignedValue mac key c exp)")
      (auto simp: mintDeploySignedValue_token)
qed (auto simp: verifyDeploySignedValue_iff)

interpretation unlock_token: signed_token mintUnlockCookie verifyUnlockCookie
  "\<lambda>p. p < 2 ^ 64" "\<lambda>now exp. now < exp" token_body token_signature unlock_claim
proof (unfold_locales, goal_cases)
  case (1 key c exp mac now)
  then have "unlock_claim (token_body (mintUnlockCookie mac key c exp)) = Some (c, exp)"
    by (simp add: mintUnlockCookie_token unlock_claim_def parse_int_format parse_uint_format split_n_2)
  then show ?case
    using verifyUnlockCookie_iff [of mac key now "mintUnlockCookie mac key c exp"] 1
    by (cases "verifyUnlockCookie mac key now (mintUnlockCookie mac key c exp)")
      (auto simp: mintUnlockCookie_token)
qed (auto simp: verifyUnlockCookie_iff)

section \<open>The organisation gate\<close>

text \<open>What a gate does with a request: it lets it through, or it has answered with a status and a
  text, a redirect with the cookies set, or the unlock form with a status and a note.\<close>

datatype gate = Proceed | Refuse nat string | Redirect "set_cookie list" string
  | UnlockForm nat string string

definition deploySessCookieName :: string where "deploySessCookieName = ''_agentry_sess''"
definition deploySessTTL :: int where "deploySessTTL = 24 * 3600"
definition deployHandoffQueryParam :: string where "deployHandoffQueryParam = ''_agentry_token''"

definition deploy_session_cookie :: "mac \<Rightarrow> bytes \<Rightarrow> int \<Rightarrow> string \<Rightarrow> set_cookie" where
  "deploy_session_cookie mac secret now orgID =
     \<lparr>sc_Name = deploySessCookieName, sc_Value = mintDeploySignedValue mac secret orgID (now + deploySessTTL),
      sc_Path = ''/'', sc_Secure = True, sc_HttpOnly = True, sc_SameSite = ''Lax'', sc_MaxAge = deploySessTTL\<rparr>"

definition checkDeployAuth :: "mac \<Rightarrow> int \<Rightarrow> request \<Rightarrow> deploy_route \<Rightarrow> bytes \<Rightarrow> string \<Rightarrow> gate" where
  "checkDeployAuth mac now r route secret appURL =
     (if dr_AuthMode route \<noteq> ''org'' then Proceed
      else if secret = [] \<or> appURL = [] then
        Refuse StatusServiceUnavailable ''deploy auth not configured on this bridge''
      else
        let host = cut_port (rq_Host r);
            tok = values_get (rq_Query r) deployHandoffQueryParam in
        if tok \<noteq> [] then
          (case verifyDeploySignedValue mac secret now tok of
             None \<Rightarrow> Refuse StatusUnauthorized ''deploy auth: invalid or expired handoff token''
           | Some orgID \<Rightarrow>
               if orgID \<noteq> dr_OrgID route then
                 Refuse StatusForbidden ''deploy auth: token org does not match this deployment''
               else
                 let rest = values_encode (filter (\<lambda>(k, v). k \<noteq> deployHandoffQueryParam) (rq_Query r)) in
                 Redirect [deploy_session_cookie mac secret now (dr_OrgID route)]
                   (rq_Path r @ (if rest \<noteq> [] then ''?'' @ rest else [])))
        else
          let valid = (case cookie_of r deploySessCookieName of
                None \<Rightarrow> False
              | Some c \<Rightarrow> verifyDeploySignedValue mac secret now c = Some (dr_OrgID route)) in
          if valid then Proceed
          else Redirect [] (trim_right_by (\<lambda>c. c = CHR ''/'') appURL @ ''/auth/handoff?return=''
                 @ query_escape (''https://'' @ host @ rq_RequestURI r)))"

section \<open>The password gate\<close>

text \<open>The limiter of unlock attempts: attempts per key within one minute of Unix time.\<close>

record minute_bucket =
  mb_count :: int
  mb_at :: int

record minute_limiter =
  rl_buckets :: "string \<rightharpoonup> minute_bucket"
  rl_max :: int
  rl_maxKeys :: nat

definition rlMaxKeys :: nat where "rlMaxKeys = 4096"

definition newRateLimiter :: "int \<Rightarrow> minute_limiter" where
  "newRateLimiter maxPerMin = \<lparr>rl_buckets = Map.empty, rl_max = maxPerMin, rl_maxKeys = rlMaxKeys\<rparr>"

definition minute_Allow :: "minute_limiter \<Rightarrow> string \<Rightarrow> int \<Rightarrow> bool \<times> minute_limiter" where
  "minute_Allow rl key time = (
     let now = time div 60;
         b = (case rl_buckets rl key of Some b \<Rightarrow> b | None \<Rightarrow> \<lparr>mb_count = 0, mb_at = 0\<rparr>);
         b = (if mb_at b \<noteq> now then \<lparr>mb_count = 0, mb_at = now\<rparr> else b) in
     if mb_count b \<ge> rl_max rl then (False, rl\<lparr>rl_buckets := (rl_buckets rl)(key \<mapsto> b)\<rparr>)
     else
       let buckets = (rl_buckets rl)(key \<mapsto> b\<lparr>mb_count := mb_count b + 1\<rparr>);
           buckets = (if card (dom buckets) > rl_maxKeys rl
             then (\<lambda>k. case buckets k of Some v \<Rightarrow> if mb_at v \<noteq> now then None else Some v | None \<Rightarrow> None)
             else buckets)
       in (True, rl\<lparr>rl_buckets := buckets\<rparr>))"

definition unlockCookieName :: string where "unlockCookieName = ''_agentry_unlock''"
definition unlockCookieTTL :: int where "unlockCookieTTL = 7 * 24 * 3600"
definition unlockSubmitPath :: string where "unlockSubmitPath = ''/__agentry_unlock_submit''"
definition unlockMaxPerMinPerIP :: int where "unlockMaxPerMinPerIP = 30"

definition clientIPForRateLimit :: "request \<Rightarrow> string" where
  "clientIPForRateLimit r = (case split_host_port (rq_RemoteAddr r) of Some h \<Rightarrow> h | None \<Rightarrow> rq_RemoteAddr r)"

text \<open>\<open>verifyArgon2id\<close>; \<open>argon\<close> is \<open>argon2.IDKey\<close> at the fixed costs.\<close>

definition argonSaltLen :: nat where "argonSaltLen = 16"
definition storedLen :: nat where "storedLen = argonSaltLen + 32"

definition verifyArgon2id :: "(bytes \<Rightarrow> bytes \<Rightarrow> bytes) \<Rightarrow> string \<Rightarrow> bytes \<Rightarrow> bool option" where
  "verifyArgon2id argon attempt stored =
     (if attempt = [] then Some False
      else if length stored \<noteq> storedLen then None
      else Some (argon attempt (take argonSaltLen stored) = drop argonSaltLen stored))"

definition unlock_cookie :: "mac \<Rightarrow> bytes \<Rightarrow> int \<Rightarrow> nat \<Rightarrow> set_cookie" where
  "unlock_cookie mac secret now prefix =
     \<lparr>sc_Name = unlockCookieName, sc_Value = mintUnlockCookie mac secret prefix (now + unlockCookieTTL),
      sc_Path = ''/'', sc_Secure = True, sc_HttpOnly = True, sc_SameSite = ''Lax'', sc_MaxAge = unlockCookieTTL\<rparr>"

definition handleUnlockSubmit ::
  "mac \<Rightarrow> (bytes \<Rightarrow> bytes \<Rightarrow> bytes) \<Rightarrow> int \<Rightarrow> minute_limiter \<Rightarrow> request \<Rightarrow> deploy_route \<Rightarrow> string \<Rightarrow> bytes
    \<Rightarrow> gate \<times> minute_limiter" where
  "handleUnlockSubmit mac argon now rl r route host secret = (
     let (allowed, rl') = minute_Allow rl (clientIPForRateLimit r) now in
     (if \<not> allowed then UnlockForm StatusTooManyRequests host ''Too many attempts. Try again in a minute.''
      else if rq_Form r = None then UnlockForm StatusBadRequest host ''Could not read the form.''
      else
        let attempt = trim_space (form_value r ''p'') in
        if attempt = [] then UnlockForm StatusBadRequest host ''Enter the password.''
        else (case b64_std_decode (dr_PasswordHashB64 route) of
            None \<Rightarrow> Refuse StatusServiceUnavailable ''preview password is misconfigured''
          | Some stored \<Rightarrow>
              if verifyArgon2id argon attempt stored \<noteq> Some True then
                UnlockForm StatusUnauthorized host ''Wrong password.''
              else
                let target = form_value r ''return'' in
                Redirect [unlock_cookie mac secret now (dr_PasswordPrefix route)]
                  (if target = [] \<or> \<not> has_prefix target ''/'' then ''/'' else target)), rl'))"

definition checkDeployAuthPassword ::
  "mac \<Rightarrow> (bytes \<Rightarrow> bytes \<Rightarrow> bytes) \<Rightarrow> int \<Rightarrow> minute_limiter \<Rightarrow> request \<Rightarrow> deploy_route \<Rightarrow> bytes
    \<Rightarrow> gate \<times> minute_limiter" where
  "checkDeployAuthPassword mac argon now rl r route secret =
     (if dr_AuthMode route \<noteq> ''password'' then (Proceed, rl)
      else if secret = [] then (Refuse StatusServiceUnavailable ''deploy auth not configured on this bridge'', rl)
      else if dr_PasswordHashB64 route = [] \<or> dr_PasswordPrefix route = 0 then
        (Refuse StatusServiceUnavailable ''this preview's password isn't set yet'', rl)
      else
        let host = stripPort (rq_Host r) in
        if rq_Method r = ''POST'' \<and> rq_Path r = unlockSubmitPath then
          handleUnlockSubmit mac argon now rl r route host secret
        else
          let valid = (case cookie_of r unlockCookieName of
                None \<Rightarrow> False
              | Some c \<Rightarrow> verifyUnlockCookie mac secret now c = Some (dr_PasswordPrefix route)) in
          if valid then (Proceed, rl) else (UnlockForm StatusUnauthorized host [], rl))"

section \<open>The form\<close>

definition htmlEscape_char :: "char \<Rightarrow> string" where
  "htmlEscape_char c =
     (if c = CHR ''&'' then ''&amp;'' else if c = CHR ''<'' then ''&lt;''
      else if c = CHR ''>'' then ''&gt;'' else if c = CHR 0x22 then ''&quot;''
      else if c = CHR 0x27 then ''&#39;'' else [c])"

definition htmlEscape :: "string \<Rightarrow> string" where
  "htmlEscape s = concat (map htmlEscape_char s)"

text \<open>\<open>renderUnlockForm\<close>: the text of the page around the two values, its style sheet and line breaks left out.\<close>

definition renderUnlockForm :: "string \<Rightarrow> string \<Rightarrow> string" where
  \<open>renderUnlockForm host note = (
     let noteBlock = (if note \<noteq> [] then ''<p class="note">'' @ htmlEscape note @ ''</p>'' else []) in
     ''<!doctype html><html lang="en"><head><title>Password required '' @ [CHR 0xE2, CHR 0x80, CHR 0x94] @ '' '' @ htmlEscape host @ ''</title></head><body>''
     @ ''<form class="card" method="post" action="'' @ unlockSubmitPath @ ''"><h1>Password required</h1><p class="host">''
     @ htmlEscape host @ ''</p>'' @ noteBlock
     @ ''<label for="p">Password</label><input id="p" name="p" type="password" autofocus required autocomplete="current-password" />''
     @ ''<input type="hidden" name="return" value="/" /><button type="submit">Unlock</button>''
     @ ''<div class="footer">Shared with agentry</div></form></body></html>'')\<close>

lemma htmlEscape_no_markup:
  "set (htmlEscape s) \<inter> {CHR ''<'', CHR ''>'', CHR 0x22, CHR 0x27} = {}"
proof -
  have "set (htmlEscape_char c) \<inter> {CHR ''<'', CHR ''>'', CHR 0x22, CHR 0x27} = {}" for c
    by (auto simp: htmlEscape_char_def)
  then show ?thesis by (auto simp: htmlEscape_def)
qed

section \<open>Dispatch\<close>

text \<open>\<open>mtlsGate\<close>: the refusal, or the request is passed to the broker's handler.\<close>

definition mtlsGate :: "broker \<Rightarrow> request \<Rightarrow> unit verdict" where
  "mtlsGate b r =
     (if rq_Path r = ''/healthz'' then Pass ()
      else case peer_cert r of
        None \<Rightarrow> Reply StatusUnauthorized ''client certificate required''
      | Some c \<Rightarrow> if IsRevoked b (cert_CN c) then Reply StatusForbidden ''client certificate revoked''
                  else Pass ())"

datatype dispatch =
    Placeholder string
  | Gated gate
  | Deployment "(cluster_conn \<times> upstream \<times> bool) verdict"
  | API "unit verdict"

definition dispatcher ::
  "mac \<Rightarrow> (bytes \<Rightarrow> bytes \<Rightarrow> bytes) \<Rightarrow> env_config \<Rightarrow> int \<Rightarrow> minute_limiter \<Rightarrow> broker \<Rightarrow> request
    \<Rightarrow> dispatch \<times> minute_limiter" where
  "dispatcher mac argon env now rl b r = (
     let host = cut_port (rq_Host r);
         found = (case br_deploy b of None \<Rightarrow> None | Some reg \<Rightarrow> reg_Lookup reg host);
         under = en_deployDomain env \<noteq> [] \<and> hostMatchesDeployDomain (rq_Host r) (en_deployDomain env) in
     case found of
       Some route \<Rightarrow>
         let (g, rl') = (if dr_AuthMode route = ''password''
               then checkDeployAuthPassword mac argon now rl r route (en_deployAuthSecret env)
               else (checkDeployAuth mac now r route (en_deployAuthSecret env) (en_appURL env), rl)) in
         (if g = Proceed then Deployment (HandleDeployment b r) else Gated g, rl')
     | None \<Rightarrow>
         if under then (Placeholder (deploymentPlaceholder r (en_deployDomain env)), rl)
         else (API (mtlsGate b r), rl))"

section \<open>The unlock limiter keeps its contract\<close>

definition minute_used :: "minute_limiter \<Rightarrow> string \<Rightarrow> int \<Rightarrow> nat" where
  "minute_used rl key t = (case rl_buckets rl key of
     Some b \<Rightarrow> if mb_at b = t div 60 then nat (mb_count b) else 0 | None \<Rightarrow> 0)"

definition minute_ok :: "minute_limiter \<Rightarrow> int \<Rightarrow> bool" where
  "minute_ok rl t \<longleftrightarrow> 60 \<le> t \<and> (\<forall>k b. rl_buckets rl k = Some b \<longrightarrow> mb_at b \<le> t div 60 \<and> 0 \<le> mb_count b)"

lemma minute_ok_later: "minute_ok rl t \<Longrightarrow> t \<le> t' \<Longrightarrow> minute_ok rl t'"
  unfolding minute_ok_def by (meson order_trans zdiv_mono1 zero_less_numeral)

lemma minute_grant: "fst (minute_Allow rl k t) \<longleftrightarrow> int (minute_used rl k t) < rl_max rl \<and> 0 < rl_max rl"
  if "minute_ok rl t"
proof (cases "rl_buckets rl k")
  case None
  with that show ?thesis
    by (auto simp: minute_Allow_def minute_used_def minute_ok_def Let_def)
next
  case (Some b)
  with that have "0 \<le> mb_count b" by (auto simp: minute_ok_def)
  with Some show ?thesis
    by (auto simp: minute_Allow_def minute_used_def Let_def)
qed

lemma minute_charge:
  assumes ok: "minute_ok rl t" and le: "t \<le> t'"
  shows "minute_used (snd (minute_Allow rl k t)) k' t' \<ge> minute_used rl k' t' +
    (if k' = k \<and> fst (minute_Allow rl k t) \<and> t div 60 = t' div 60 then 1 else 0)"
proof -
  have bd: "\<And>q b. rl_buckets rl q = Some b \<Longrightarrow> mb_at b \<le> t div 60 \<and> 0 \<le> mb_count b"
    using ok by (auto simp: minute_ok_def)
  have le': "t div 60 \<le> t' div 60" using le by (simp add: zdiv_mono1)
  have pos: "1 \<le> t div 60" using ok zdiv_mono1 [of 60 t 60] by (simp add: minute_ok_def)
  show ?thesis
    using bd [of k] bd [of k'] le' pos
    by (auto simp: minute_Allow_def minute_used_def Let_def split: option.split)
qed

interpretation unlock_limiter: rate_limiter minute_Allow minute_used
  "\<lambda>t t'. t div 60 = t' div 60" "\<lambda>rl. nat (rl_max rl)" minute_ok
proof (unfold_locales, goal_cases)
  case (1 s t k)
  then show ?case using minute_grant by auto
next
  case (2 s t t' k' k)
  then show ?case by (rule minute_charge)
next
  case (3 s k t)
  then show ?case by (simp add: minute_Allow_def Let_def)
next
  case (4 s t k)
  then show ?case
    by (auto simp: minute_ok_def minute_Allow_def Let_def split: option.splits if_splits)
next
  case (5 s t t')
  then show ?case by (rule minute_ok_later)
qed

end
