(* ===== verification/Bridge_Access.thy ===== *)
theory Bridge_Access
  imports Bridge_Gate
begin

text \<open>
  What the front of the bridge promises: who reaches the API, who reaches a deployment behind an
  organisation or a password, how many passwords an address may try; and where its checks are
  weaker than the comments say.
\<close>

section \<open>The API\<close>

text \<open>The denylist that a run leaves behind: the names of the administrator's last push.\<close>

definition denylist_after :: "br_event \<Rightarrow> string set \<Rightarrow> string set" where
  "denylist_after e acc = (case e of
     EvRevoked r (Some cns) \<Rightarrow> if snd (peerOrgIdentity r) then set cns else acc | _ \<Rightarrow> acc)"

definition denylist_of :: "br_event list \<Rightarrow> string set" where
  "denylist_of evs = fold denylist_after evs {}"

lemma br_revocation_trace: "br_trace False evs b \<Longrightarrow> br_revocation b = denylist_of evs - {[]}"
proof (induction rule: br_trace.induct)
  case (step evs b e b')
  note dev = br_trace_DevMode [OF step(1)]
  have "br_revocation b' = denylist_after e (denylist_of evs) - {[]}"
    using step(2)
  proof cases
    case (tunnel r role now)
    then show ?thesis
      using step.IH by (cases role)
        (simp_all add: denylist_after_def tunnel_enter_def serveDevice_enter_def serveCluster_enter_def Let_def)
  next
    case (revoked r body)
    then show ?thesis
      using step.IH dev
      by (auto simp: denylist_after_def handleRevokedCNsPut_def requireAdmin_def revocation_Replace_def
          split: option.split)
  next
    case (routes r body)
    then show ?thesis
      using step.IH by (simp add: denylist_after_def handleDeployRoutesPut_def split: option.split)
  qed (use step.IH in \<open>simp_all add: denylist_after_def serveDevice_leave_def serveCluster_leave_def
      br_Shutdown_def Let_def\<close>)
  then show ?case by (simp add: denylist_of_def)
qed (simp_all add: denylist_of_def NewWithConfig_def AttachDeploy_def)

text \<open>A request for a host that is not deployment traffic reaches the broker's handlers exactly
  when it is the health check or comes with a verified client certificate whose common name is not
  on the denylist the administrator pushed last; a name pushed once stays refused through every
  other event until the next push. The refusals are 401 without a certificate and 403 for a
  revoked one.\<close>

theorem api_needs_live_certificate:
  assumes "br_trace False evs b"
  shows "mtlsGate b r =
    (if rq_Path r = ''/healthz'' then Pass ()
     else case peer_cert r of
       None \<Rightarrow> Reply StatusUnauthorized ''client certificate required''
     | Some c \<Rightarrow> if cert_CN c \<noteq> [] \<and> cert_CN c \<in> denylist_of evs
         then Reply StatusForbidden ''client certificate revoked'' else Pass ())"
  using br_revocation_trace [OF assms]
  by (auto simp: mtlsGate_def IsRevoked_def split: option.split)

lemma api_needs_live_certificate_witness:
  "mtlsGate acme_broker acme_user = Pass ()"
proof -
  have "peer_cert acme_user = Some (sample_cert ''device-ann'' ''acme'')"
    by (simp add: peer_cert_def acme_user_def)
  then show ?thesis
    using api_needs_live_certificate [OF acme_broker_trace, of acme_user]
    by (simp add: denylist_of_def denylist_after_def sample_cert_def)
qed

section \<open>The gates of a deployment\<close>

text \<open>C10: The organisation gate is exact. A route in organisation mode lets a request through if and
  only if the bridge has the secret and the application's address, the request is not a handoff,
  and its session cookie carries the code of its own body under the secret, names the organisation
  of the route, and has not expired. Nothing else about the request matters, so without the code
  of such a body no request passes.\<close>

theorem org_gate_exact:
  assumes "dr_AuthMode route = ''org''"
  shows "checkDeployAuth mac now r route secret appURL = Proceed \<longleftrightarrow>
    secret \<noteq> [] \<and> appURL \<noteq> [] \<and> values_get (rq_Query r) deployHandoffQueryParam = [] \<and>
    (\<exists>c exp. cookie_of r deploySessCookieName = Some c
       \<and> token_signature c = Some (mac secret (token_body c))
       \<and> deploy_claim (token_body c) = Some (dr_OrgID route, exp) \<and> now \<le> exp)"
  using assms
  by (auto simp: checkDeployAuth_def Let_def deploy_token.verify_iff split: option.splits)

definition one_mac :: mac where "one_mac key body = [CHR ''m'']"

definition org_route :: deploy_route where
  "org_route = acme_route\<lparr>dr_AuthMode := ''org''\<rparr>"

definition acme_token :: string where
  "acme_token = mintDeploySignedValue one_mac ''k'' ''acme'' 9"

lemma acme_token:
  "token_signature acme_token = Some (one_mac ''k'' (token_body acme_token))"
  "deploy_claim (token_body acme_token) = Some (''acme'', 9)"
proof -
  have d: "CHR ''.'' \<notin> set ''acme''" by simp
  note t = mintDeploySignedValue_token(1,2) [OF d, of one_mac "''k''" 9]
  note sp = mintDeploySignedValue_token(3) [OF d, of 9]
  show "token_signature acme_token = Some (one_mac ''k'' (token_body acme_token))"
    unfolding acme_token_def t ..
  show "deploy_claim (token_body acme_token) = Some (''acme'', 9)"
    unfolding acme_token_def t(1) deploy_claim_def sp by (simp add: parse_int_format)
qed

lemma org_gate_exact_witness:
  "checkDeployAuth one_mac 5 (blank_request\<lparr>rq_Cookies := [(deploySessCookieName, acme_token)]\<rparr>) org_route ''k'' ''u''
     = Proceed"
proof -
  have r: "dr_AuthMode org_route = ''org''" "dr_OrgID org_route = ''acme''"
    by (simp_all add: org_route_def acme_route_def)
  show ?thesis
    unfolding org_gate_exact [OF r(1)] r(2)
    using acme_token by (simp add: values_get_def blank_request_def cookie_of_def)
qed

text \<open>The password gate is exact, and rotation is revocation. A route in password mode lets a
  request through if and only if the bridge has the secret, the route has a password, the request
  is not the form's own submission, and its unlock cookie carries the code of its body under the
  secret, has not expired, and names the prefix of the password in force now: every cookie issued
  under another prefix is refused from the moment the route is replaced.\<close>

theorem password_gate_exact:
  assumes "dr_AuthMode route = ''password''"
  shows "fst (checkDeployAuthPassword mac argon now rl r route secret) = Proceed \<longleftrightarrow>
    secret \<noteq> [] \<and> dr_PasswordHashB64 route \<noteq> [] \<and> dr_PasswordPrefix route \<noteq> 0
    \<and> \<not> (rq_Method r = ''POST'' \<and> rq_Path r = unlockSubmitPath)
    \<and> (\<exists>c exp. cookie_of r unlockCookieName = Some c
       \<and> token_signature c = Some (mac secret (token_body c))
       \<and> unlock_claim (token_body c) = Some (dr_PasswordPrefix route, exp) \<and> now < exp)"
proof -
  have "fst (handleUnlockSubmit mac argon now rl r route host secret) \<noteq> Proceed" for host
    by (auto simp: handleUnlockSubmit_def Let_def split: prod.split option.split)
  then show ?thesis
    using assms
    by (auto simp: checkDeployAuthPassword_def Let_def unlock_token.verify_iff split: option.splits)
qed

definition password_route :: deploy_route where
  "password_route = acme_route\<lparr>dr_AuthMode := ''password'', dr_PasswordHashB64 := ''aa'', dr_PasswordPrefix := 26\<rparr>"

lemma password_gate_exact_witness:
  "fst (checkDeployAuthPassword one_mac (\<lambda>_ _. []) 5 (newRateLimiter 30)
     (blank_request\<lparr>rq_Cookies := [(unlockCookieName, mintUnlockCookie one_mac ''k'' 26 9)]\<rparr>) password_route ''k'') = Proceed"
proof -
  note t = mintUnlockCookie_token(1,2) [of one_mac "''k''" 26 9]
  note sp = mintUnlockCookie_token(3) [of 26 9]
  have c: "token_signature (mintUnlockCookie one_mac ''k'' 26 9)
      = Some (one_mac ''k'' (token_body (mintUnlockCookie one_mac ''k'' 26 9)))"
    unfolding t ..
  have d: "unlock_claim (token_body (mintUnlockCookie one_mac ''k'' 26 9)) = Some (26, 9)"
    unfolding t(1) unlock_claim_def sp by (simp add: parse_int_format parse_uint_format)
  have r: "dr_AuthMode password_route = ''password''" "dr_PasswordPrefix password_route = 26"
    "dr_PasswordHashB64 password_route = ''aa''"
    by (simp_all add: password_route_def)
  show ?thesis
    unfolding password_gate_exact [OF r(1)] r(2,3)
    using c d by (simp add: blank_request_def cookie_of_def)
qed

text \<open>Guessing is bounded. However the requests of a run are spread over addresses and time, when
  the limiter admits an attempt from an address, fewer than thirty attempts from that address have
  been admitted in the same minute, eviction of idle addresses included; and an attempt it does
  not admit gets the 429 form without its password being looked at.\<close>

theorem unlock_attempts_bounded:
  assumes "sorted (60 # map snd es @ [t])"
    and "fst (minute_Allow (snd (unlock_limiter.run (newRateLimiter unlockMaxPerMinPerIP) es)) ip t)"
  shows "length (filter (\<lambda>(ip', t'). ip' = ip \<and> t' div 60 = t div 60)
      (fst (unlock_limiter.run (newRateLimiter unlockMaxPerMinPerIP) es))) < 30
    \<and> (\<not> fst (minute_Allow rl (clientIPForRateLimit r) now) \<longrightarrow>
        fst (handleUnlockSubmit mac argon now rl r route host secret)
          = UnlockForm StatusTooManyRequests host ''Too many attempts. Try again in a minute.'')"
proof -
  have "minute_ok (newRateLimiter unlockMaxPerMinPerIP) 60"
    by (simp add: minute_ok_def newRateLimiter_def)
  from unlock_limiter.grants_within_budget [OF this assms] show ?thesis
    by (auto simp: newRateLimiter_def unlockMaxPerMinPerIP_def handleUnlockSubmit_def split: prod.split)
qed

lemma unlock_attempts_bounded_witness:
  "length (filter (\<lambda>(ip', t'). ip' = ''a'' \<and> t' div 60 = 121 div 60)
      (fst (unlock_limiter.run (newRateLimiter unlockMaxPerMinPerIP) [(''a'', 120)]))) < 30"
proof -
  have "fst (minute_Allow (snd (unlock_limiter.run (newRateLimiter unlockMaxPerMinPerIP) [(''a'', 120)])) ''a'' 121)"
    by (simp add: minute_Allow_def newRateLimiter_def unlockMaxPerMinPerIP_def rlMaxKeys_def)
  from unlock_attempts_bounded [OF _ this] show ?thesis by simp
qed

section \<open>Where the checks are weaker than they look\<close>

text \<open>An organisation session can be renewed for ever without the control plane. Whoever holds any
  signed value that is still valid, an ordinary session cookie among them, may send it as the
  handoff token and receives a cookie that is valid for another day; the five minutes of the
  handoff and the day of the session bound nothing, and a member who has left the organisation
  keeps the deployment open.\<close>

theorem session_renews_itself:
  assumes "verifyDeploySignedValue mac secret now v = Some (dr_OrgID route)"
    and "dr_AuthMode route = ''org''" and "secret \<noteq> []" and "appURL \<noteq> []" and "v \<noteq> []"
    and "CHR ''.'' \<notin> set (dr_OrgID route)" and "0 \<le> now" and "now + deploySessTTL < 2 ^ 63"
  shows "\<exists>ck loc. checkDeployAuth mac now (r\<lparr>rq_Query := [(deployHandoffQueryParam, v)]\<rparr>) route secret appURL
      = Redirect [ck] loc
    \<and> (\<forall>later \<le> now + deploySessTTL.
        verifyDeploySignedValue mac secret later (sc_Value ck) = Some (dr_OrgID route))"
proof -
  let ?ck = "deploy_session_cookie mac secret now (dr_OrgID route)"
  have "verifyDeploySignedValue mac secret later (sc_Value ?ck) = Some (dr_OrgID route)"
    if "later \<le> now + deploySessTTL" for later
    using deploy_token.verify_mint [OF assms(3,6), of "now + deploySessTTL" mac later] assms(7,8) that
    by (simp add: deploy_session_cookie_def deploySessTTL_def)
  moreover have "\<exists>loc. checkDeployAuth mac now (r\<lparr>rq_Query := [(deployHandoffQueryParam, v)]\<rparr>) route secret appURL
      = Redirect [?ck] loc"
    using assms(1-5) by (simp add: checkDeployAuth_def values_get_def Let_def)
  ultimately show ?thesis by blast
qed

lemma session_renews_itself_witness:
  "\<exists>ck loc. checkDeployAuth one_mac 5 (blank_request\<lparr>rq_Query := [(deployHandoffQueryParam, acme_token)]\<rparr>)
      org_route ''k'' ''u'' = Redirect [ck] loc
    \<and> verifyDeploySignedValue one_mac ''k'' (5 + deploySessTTL) (sc_Value ck) = Some ''acme''"
proof -
  have v: "verifyDeploySignedValue one_mac ''k'' 5 acme_token = Some ''acme''"
    unfolding deploy_token.verify_iff using acme_token by simp
  have o: "dr_OrgID org_route = ''acme''" "dr_AuthMode org_route = ''org''"
    by (simp_all add: org_route_def acme_route_def)
  have "acme_token \<noteq> []" by (simp add: acme_token_def mintDeploySignedValue_def)
  then show ?thesis
    using session_renews_itself [of one_mac "''k''" 5 acme_token org_route "''u''" blank_request] v o
    by (fastforce simp: deploySessTTL_def)
qed

text \<open>The access modes fail open. A route whose mode is not spelled exactly \<open>org\<close> or \<open>password\<close>,
  such as \<open>Org\<close>, is served to anyone by both gates, although the badge on the same page compares
  modes without regard to case.\<close>

theorem misspelled_mode_is_public:
  "checkDeployAuth mac now r (route\<lparr>dr_AuthMode := ''Org''\<rparr>) secret appURL = Proceed
   \<and> fst (checkDeployAuthPassword mac argon now rl r (route\<lparr>dr_AuthMode := ''Password''\<rparr>) secret) = Proceed"
  by (simp add: checkDeployAuth_def checkDeployAuthPassword_def)

definition flood :: "nat \<Rightarrow> (string \<times> int) list" where
  "flood n = map (\<lambda>i. (replicate i (CHR ''a''), 120)) [0..<n]"

lemma flood_step:
  assumes "rl_buckets rl = (\<lambda>k. if \<exists>i < n. k = replicate i (CHR ''a'') then Some \<lparr>mb_count = 1, mb_at = 2\<rparr> else None)"
    and "0 < rl_max rl"
  shows "rl_buckets (snd (minute_Allow rl (replicate n (CHR ''a'')) 120))
    = (\<lambda>k. if \<exists>i < Suc n. k = replicate i (CHR ''a'') then Some \<lparr>mb_count = 1, mb_at = 2\<rparr> else None)"
proof -
  have "\<not> (\<exists>i < n. replicate n (CHR ''a'') = replicate i (CHR ''a''))"
    by (metis length_replicate less_irrefl)
  then show ?thesis
    using assms by (auto simp: minute_Allow_def less_Suc_eq fun_eq_iff Let_def)
qed

lemma run_append: "snd (unlock_limiter.run s (xs @ ys)) = snd (unlock_limiter.run (snd (unlock_limiter.run s xs)) ys)"
  by (induction xs arbitrary: s) (auto simp: split_beta Let_def)

text \<open>The limiter's table is not bounded. Within one minute every new address adds an entry and
  none is evicted, whatever the cap: after \<open>n\<close> addresses the table holds \<open>n\<close> entries.\<close>

theorem limiter_table_unbounded:
  "card (dom (rl_buckets (snd (unlock_limiter.run (newRateLimiter unlockMaxPerMinPerIP) (flood n))))) = n"
proof -
  let ?s = "\<lambda>n. snd (unlock_limiter.run (newRateLimiter unlockMaxPerMinPerIP) (flood n))"
  have max: "rl_max (?s n) = 30" for n
  proof -
    have "rl_max (snd (unlock_limiter.run s es)) = rl_max s" for s es
      by (induction es arbitrary: s) (auto simp: split_beta Let_def minute_Allow_def)
    then show ?thesis by (simp add: newRateLimiter_def unlockMaxPerMinPerIP_def)
  qed
  have "rl_buckets (?s n)
    = (\<lambda>k. if \<exists>i < n. k = replicate i (CHR ''a'') then Some \<lparr>mb_count = 1, mb_at = 2\<rparr> else None)"
  proof (induction n)
    case 0
    then show ?case by (simp add: flood_def newRateLimiter_def fun_eq_iff)
  next
    case (Suc n)
    have "flood (Suc n) = flood n @ [(replicate n (CHR ''a''), 120)]" by (simp add: flood_def)
    then have "?s (Suc n) = snd (minute_Allow (?s n) (replicate n (CHR ''a'')) 120)"
      by (simp add: run_append split_beta Let_def)
    with flood_step [OF Suc] max show ?case by simp
  qed
  then have "dom (rl_buckets (?s n)) = (\<lambda>i. replicate i (CHR ''a'')) ` {..<n}"
    by (auto simp: dom_def image_def)
  moreover have "inj_on (\<lambda>i. replicate i (CHR ''a'')) {..<n}"
    by (rule inj_onI) (metis length_replicate)
  ultimately show ?thesis by (simp add: card_image)
qed

end
