(* ===== verification/Json.thy ===== *)
theory Json
  imports GoLib
begin

text \<open>
  The part of \<open>encoding/json\<close> that the auth proxy's sealed blobs use: flat objects whose values are
  strings and integers, written the way \<open>json.Marshal\<close> writes a struct and read the way
  \<open>json.Unmarshal\<close> fills one (unknown keys are skipped, missing keys leave the zero value, keys
  match without regard to case). Bytes from 128 upwards are copied, as in valid UTF-8.
\<close>

datatype json = JStr string | JInt int

definition quote :: char where "quote = CHR 0x22"
definition backslash :: char where "backslash = CHR 0x5C"

definition hex4 :: "nat \<Rightarrow> string" where
  "hex4 n = [digit_char (n div 4096 mod 16), digit_char (n div 256 mod 16), digit_char (n div 16 mod 16),
     digit_char (n mod 16)]"

definition escape_char :: "char \<Rightarrow> string" where
  "escape_char c =
     (if c = quote \<or> c = backslash then [backslash, c]
      else if c = CHR 0x0A then [backslash, CHR ''n'']
      else if c = CHR 0x0D then [backslash, CHR ''r'']
      else if c = CHR 0x09 then [backslash, CHR ''t'']
      else if c = CHR 0x08 then [backslash, CHR ''b'']
      else if c = CHR 0x0C then [backslash, CHR ''f'']
      else if (of_char c :: nat) < 0x20 \<or> c \<in> {CHR ''<'', CHR ''>'', CHR ''&''}
        then [backslash, CHR ''u''] @ hex4 (of_char c)
      else [c])"

definition json_string :: "string \<Rightarrow> string" where
  "json_string s = [quote] @ concat (map escape_char s) @ [quote]"

fun json_value :: "json \<Rightarrow> string" where
  "json_value (JStr s) = json_string s"
| "json_value (JInt i) = format_int i"

definition json_field :: "string \<times> json \<Rightarrow> string" where
  "json_field kv = json_string (fst kv) @ '':'' @ json_value (snd kv)"

definition json_marshal :: "(string \<times> json) list \<Rightarrow> string" where
  "json_marshal fields = ''{'' @ join_str '','' (map json_field fields) @ ''}''"

text \<open>Reading: a string up to its closing quote, with what follows.\<close>

definition unescape :: "char \<Rightarrow> char option" where
  "unescape c = map_of [(quote, quote), (backslash, backslash), (CHR ''/'', CHR ''/''),
     (CHR ''n'', CHR 0x0A), (CHR ''r'', CHR 0x0D), (CHR ''t'', CHR 0x09), (CHR ''b'', CHR 0x08),
     (CHR ''f'', CHR 0x0C)] c"

definition unhex4 :: "char \<Rightarrow> char \<Rightarrow> char \<Rightarrow> char \<Rightarrow> nat option" where
  "unhex4 a b c d = (case (hex_val a, hex_val b, hex_val c, hex_val d) of
     (Some a, Some b, Some c, Some d) \<Rightarrow> Some (a * 4096 + b * 256 + c * 16 + d) | _ \<Rightarrow> None)"

fun read_string :: "string \<Rightarrow> (string \<times> string) option" where
  "read_string [] = None"
| "read_string (c # cs) =
     (if c = quote then Some ([], cs)
      else if c = backslash then
        (case cs of
           e # ds \<Rightarrow>
             (if e = CHR ''u'' then
                (case ds of h1 # h2 # h3 # h4 # rest \<Rightarrow>
                   (case unhex4 h1 h2 h3 h4 of
                      Some n \<Rightarrow> if n < 0x80 then map_option (\<lambda>(s, r). (char_of n # s, r)) (read_string rest) else None
                    | None \<Rightarrow> None)
                 | _ \<Rightarrow> None)
              else (case unescape e of
                  Some x \<Rightarrow> map_option (\<lambda>(s, r). (x # s, r)) (read_string ds)
                | None \<Rightarrow> None))
         | [] \<Rightarrow> None)
      else if (of_char c :: nat) < 0x20 then None
      else map_option (\<lambda>(s, r). (c # s, r)) (read_string cs))"

definition int_char :: "char \<Rightarrow> bool" where
  "int_char c \<longleftrightarrow> c = CHR ''-'' \<or> CHR ''0'' \<le> c \<and> c \<le> CHR ''9''"

definition read_value :: "string \<Rightarrow> (json \<times> string) option" where
  "read_value s = (case s of
     [] \<Rightarrow> None
   | c # cs \<Rightarrow>
       if c = quote then map_option (\<lambda>(x, r). (JStr x, r)) (read_string cs)
       else (case parse_int (takeWhile int_char s) of
           Some i \<Rightarrow> Some (JInt i, dropWhile int_char s)
         | None \<Rightarrow> None))"

text \<open>The members of an object after its opening brace; the fuel is the length of the text.\<close>

fun read_members :: "nat \<Rightarrow> string \<Rightarrow> (string \<times> json) list option" where
  "read_members 0 s = None"
| "read_members (Suc n) s =
     (case s of
        q # s1 \<Rightarrow>
          if q \<noteq> quote then None
          else (case read_string s1 of
            None \<Rightarrow> None
          | Some (k, s2) \<Rightarrow>
            (case s2 of
               colon # s3 \<Rightarrow>
                 if colon \<noteq> CHR '':'' then None
                 else (case read_value s3 of
                   None \<Rightarrow> None
                 | Some (v, s4) \<Rightarrow>
                   (case s4 of
                      e # s5 \<Rightarrow>
                        if e = CHR ''}'' then (if s5 = [] then Some [(k, v)] else None)
                        else if e = CHR '','' then map_option (Cons (k, v)) (read_members n s5)
                        else None
                    | [] \<Rightarrow> None))
             | [] \<Rightarrow> None))
      | [] \<Rightarrow> None)"

definition json_unmarshal :: "string \<Rightarrow> (string \<times> json) list option" where
  "json_unmarshal s = (case s of
     b # rest \<Rightarrow> if b = CHR ''{'' then (if rest = ''}'' then Some [] else read_members (length s) rest) else None
   | [] \<Rightarrow> None)"

text \<open>Filling a field: the last member whose key matches, its zero value when there is none, and an
  error on the wrong type.\<close>

definition json_member :: "(string \<times> json) list \<Rightarrow> string \<Rightarrow> json option" where
  "json_member fields k = map_option snd (find (\<lambda>(k', _). equal_fold k' k) (rev fields))"

definition str_field :: "(string \<times> json) list \<Rightarrow> string \<Rightarrow> string option" where
  "str_field fields k = (case json_member fields k of
     None \<Rightarrow> Some [] | Some (JStr s) \<Rightarrow> Some s | Some (JInt _) \<Rightarrow> None)"

definition int_field :: "(string \<times> json) list \<Rightarrow> string \<Rightarrow> int option" where
  "int_field fields k = (case json_member fields k of
     None \<Rightarrow> Some 0 | Some (JInt i) \<Rightarrow> Some i | Some (JStr _) \<Rightarrow> None)"

section \<open>What is written can be read\<close>

lemma unhex4_hex4: "n < 128 \<Longrightarrow> (case hex4 n of [a, b, c, d] \<Rightarrow> unhex4 a b c d | _ \<Rightarrow> None) = Some n"
  by (simp add: hex4_def unhex4_def hex_val_def digit_val_char)

lemma read_string_escape:
  "read_string (escape_char c @ rest) = map_option (\<lambda>(s, r). (c # s, r)) (read_string rest)"
proof (cases "c \<in> {quote, backslash, CHR 0x0A, CHR 0x0D, CHR 0x09, CHR 0x08, CHR 0x0C}")
  case True
  then show ?thesis by (auto simp: escape_char_def quote_def backslash_def unescape_def)
next
  case False
  show ?thesis
  proof (cases "(of_char c :: nat) < 0x20 \<or> c \<in> {CHR ''<'', CHR ''>'', CHR ''&''}")
    case True
    then have "(of_char c :: nat) < 128" by auto
    then have "unhex4 (digit_char (of_char c div 4096 mod 16)) (digit_char (of_char c div 256 mod 16))
        (digit_char (of_char c div 16 mod 16)) (digit_char (of_char c mod 16)) = Some (of_char c)"
      using unhex4_hex4 [of "of_char c"] by (simp add: hex4_def)
    moreover have "escape_char c = [backslash, CHR ''u''] @ hex4 (of_char c)"
      using True False by (simp add: escape_char_def)
    ultimately show ?thesis
      using \<open>of_char c < 128\<close> by (simp add: hex4_def quote_def backslash_def)
  next
    case plain: False
    then have "escape_char c = [c]" using False by (simp add: escape_char_def)
    with plain False show ?thesis by simp
  qed
qed

lemma read_string_json_string:
  "read_string (concat (map escape_char s) @ quote # rest) = Some (s, rest)"
  by (induction s) (simp_all add: read_string_escape)

lemma int_char_digit: "d < 10 \<Longrightarrow> int_char (digit_char d)"
  by (auto simp: int_char_def digit_char_def less_eq_char_def)

lemma format_int_chars: "\<forall>c \<in> set (format_int i). int_char c"
proof -
  have "\<forall>c \<in> set (format_nat 10 n). int_char c" for n
    using format_nat_digits [of 10 _ n] int_char_digit by fastforce
  then show ?thesis by (simp add: format_int_def int_char_def)
qed

lemma format_int_hd: "format_int i \<noteq> [] \<and> hd (format_int i) \<noteq> quote"
proof -
  have "format_int i \<noteq> []" by (simp add: format_int_def)
  moreover from this have "int_char (hd (format_int i))" using format_int_chars [of i] by simp
  moreover have "\<not> int_char quote" by (simp add: int_char_def quote_def less_eq_char_def)
  ultimately show ?thesis by metis
qed

lemma read_value_json_value:
  assumes "\<forall>i. v = JInt i \<longrightarrow> - (2 ^ 63) \<le> i \<and> i < 2 ^ 63" and "rest \<noteq> []" and "\<not> int_char (hd rest)"
  shows "read_value (json_value v @ rest) = Some (v, rest)"
proof (cases v)
  case (JStr s)
  then show ?thesis by (simp add: read_value_def json_string_def read_string_json_string)
next
  case (JInt i)
  then have p: "parse_int (format_int i) = Some i" using assms(1) by (simp add: parse_int_format)
  obtain r rs where r: "rest = r # rs" "\<not> int_char r" using assms(2,3) by (cases rest) auto
  have t: "takeWhile int_char (format_int i @ rest) = format_int i" "dropWhile int_char (format_int i @ rest) = rest"
    using format_int_chars [of i] r by (simp_all add: takeWhile_append2 dropWhile_append2)
  obtain c cs where c: "format_int i = c # cs" "c \<noteq> quote" using format_int_hd [of i] by (cases "format_int i") auto
  show ?thesis using t p c by (simp add: read_value_def JInt)
qed

definition json_ok :: "json \<Rightarrow> bool" where
  "json_ok v \<longleftrightarrow> (\<forall>i. v = JInt i \<longrightarrow> - (2 ^ 63) \<le> i \<and> i < 2 ^ 63)"

lemma read_members_marshal:
  "fields \<noteq> [] \<Longrightarrow> \<forall>kv \<in> set fields. json_ok (snd kv) \<Longrightarrow> length fields \<le> n \<Longrightarrow>
   read_members n (join_str '','' (map json_field fields) @ ''}'') = Some fields"
proof (induction fields arbitrary: n)
  case (Cons kv fields)
  obtain k v where kv: "kv = (k, v)" by fastforce
  obtain m where n: "n = Suc m" using Cons.prems(3) by (cases n) auto
  have v: "read_value (json_value v @ r) = Some (v, r)" if "r \<noteq> [] \<and> hd r \<in> {CHR '','', CHR ''}''}" for r
    using that Cons.prems(2)
    by (intro read_value_json_value) (auto simp: kv json_ok_def int_char_def less_eq_char_def)
  show ?case
  proof (cases fields)
    case Nil
    then show ?thesis
      using v [of "''}''"] by (simp add: n kv json_field_def json_string_def read_string_json_string)
  next
    case (Cons kv' fields')
    then have "read_members m (join_str '','' (map json_field fields) @ ''}'') = Some fields"
      using Cons.IH [of m] Cons.prems n by simp
    then show ?thesis
      using v [of "CHR '','' # join_str '','' (map json_field fields) @ ''}''"] Cons
      by (simp add: n kv json_field_def [of "(k, v)"] json_string_def read_string_json_string)
  qed
qed simp

lemma json_roundtrip [roundtrip]:
  assumes "\<forall>kv \<in> set fields. json_ok (snd kv)"
  shows "json_unmarshal (json_marshal fields) = Some fields"
proof (cases "fields = []")
  case False
  have len: "length fields \<le> length (join_str '','' (map json_field fields))"
  proof (induction fields)
    case (Cons kv fields)
    have "1 \<le> length (json_field kv)" by (simp add: json_field_def json_string_def)
    then show ?case using Cons by (cases fields) auto
  qed simp
  have "join_str '','' (map json_field fields) @ ''}'' \<noteq> ''}''"
    using False len by (cases fields) auto
  then show ?thesis
    using read_members_marshal [OF False assms, of "length (json_marshal fields)"] len
    by (simp add: json_unmarshal_def json_marshal_def)
qed (simp add: json_unmarshal_def json_marshal_def)

end
