(* ===== verification/Auth_Session.thy ===== *)
theory Auth_Session
  imports Http Tokens Json
begin

text \<open>
  The stateless half of the auth proxy (\<open>cmd/authproxy\<close>): sealed sessions and OAuth states, form
  tokens, the same-origin check, and the reverse proxy that strips and injects identity headers
  (\<open>session.go\<close>, \<open>oauth.go\<close>, \<open>csrf.go\<close>, \<open>same_origin.go\<close>, \<open>tokens.go\<close>, \<open>proxy.go\<close>). Times are Unix
  seconds; the message authentication code is a parameter; random bytes are arguments.
\<close>

section \<open>Where a request comes from\<close>

definition requestIsHTTPS :: "request \<Rightarrow> bool" where
  "requestIsHTTPS r = (let proto = hget (rq_Header r) ''X-Forwarded-Proto'' in
     if proto \<noteq> [] then equal_fold proto ''https'' else rq_TLS r \<noteq> None)"

definition originForRedirect :: "request \<Rightarrow> string" where
  "originForRedirect r = (
     let scheme = (if requestIsHTTPS r then ''https'' else ''http'');
         host = (if rq_Host r = [] then ''localhost'' else rq_Host r)
     in trim_right_by (\<lambda>c. c = CHR ''/'') (scheme @ ''://'' @ host))"

definition publicHost :: "request \<Rightarrow> string" where
  "publicHost r = (let h = hget (rq_Header r) ''X-Forwarded-Host'' in if h \<noteq> [] then h else rq_Host r)"

definition publicBaseURL :: "request \<Rightarrow> string" where
  "publicBaseURL r = (
     let proto = hget (rq_Header r) ''X-Forwarded-Proto'';
         proto = (if proto = [] then (if rq_TLS r \<noteq> None then ''https'' else ''http'') else proto);
         host = hget (rq_Header r) ''X-Forwarded-Host'';
         host = (if host = [] then rq_Host r else host)
     in proto @ ''://'' @ trim_right_by (\<lambda>c. c = CHR ''/'') host)"

definition remoteIP :: "request \<Rightarrow> string" where
  "remoteIP r = (case split_host_port (rq_RemoteAddr r) of Some h \<Rightarrow> h | None \<Rightarrow> rq_RemoteAddr r)"

text \<open>The host of a URL, as \<open>url.Parse\<close> finds it; percent-encoding and brackets in the host are
  not looked at.\<close>

definition before :: "char set \<Rightarrow> string \<Rightarrow> string" where
  "before cs s = takeWhile (\<lambda>c. c \<notin> cs) s"

definition url_scheme_rest :: "string \<Rightarrow> string" where
  "url_scheme_rest s = (case index_byte s (CHR '':'') of
     Some i \<Rightarrow> if 0 < i \<and> list_all (\<lambda>c. is_alnum c \<or> c \<in> set ''+-.'') (take i s)
               then drop (Suc i) s else s
   | None \<Rightarrow> s)"

definition url_host :: "string \<Rightarrow> string option" where
  "url_host raw =
     (if \<not> list_all (\<lambda>c. 0x20 \<le> (of_char c :: nat) \<and> (of_char c :: nat) \<noteq> 0x7F) raw then None
      else let rest = before {CHR ''?''} (url_scheme_rest (before {CHR ''#''} raw)) in
        if has_prefix rest ''//'' then
          (let authority = before {CHR ''/''} (drop 2 rest) in
           Some (case last_index authority ''@'' of Some i \<Rightarrow> drop (Suc i) authority | None \<Rightarrow> authority))
        else Some [])"

datatype origin_error = ErrNoOriginOrReferer | ErrOriginMismatch

definition checkOriginHost :: "string \<Rightarrow> string \<Rightarrow> origin_error option" where
  "checkOriginHost raw expected = (case url_host raw of
     None \<Rightarrow> Some ErrOriginMismatch
   | Some host \<Rightarrow> if to_lower host \<noteq> expected then Some ErrOriginMismatch else None)"

definition validateSameOrigin :: "request \<Rightarrow> origin_error option" where
  "validateSameOrigin r = (
     let expected = to_lower (publicHost r);
         origin = hget (rq_Header r) ''Origin'';
         referer = hget (rq_Header r) ''Referer'' in
     if expected = [] then Some ErrNoOriginOrReferer
     else if origin \<noteq> [] \<and> to_lower origin \<noteq> ''null'' then checkOriginHost origin expected
     else if referer \<noteq> [] then checkOriginHost referer expected
     else Some ErrNoOriginOrReferer)"

section \<open>Form tokens\<close>

datatype csrf_error = CSRFMissing | CSRFMalformed | CSRFBadSig | CSRFExpired

definition csrfTokenTTL :: int where "csrfTokenTTL = 30 * 60"

definition csrfSign :: "mac \<Rightarrow> bytes \<Rightarrow> string \<Rightarrow> int \<Rightarrow> string" where
  "csrfSign mac secret nonce exp = b64_raw_encode (mac secret (nonce @ ''|'' @ format_int exp))"

definition mintCSRFToken :: "mac \<Rightarrow> bytes \<Rightarrow> bytes \<Rightarrow> int \<Rightarrow> string" where
  "mintCSRFToken mac secret nonce now = (
     let n = b64_raw_encode nonce; exp = now + csrfTokenTTL
     in n @ ''.'' @ format_int exp @ ''.'' @ csrfSign mac secret n exp)"

definition validateCSRF :: "mac \<Rightarrow> int \<Rightarrow> request \<Rightarrow> bytes \<Rightarrow> csrf_error option" where
  "validateCSRF mac now r secret = (
     let tok = any_form_value r ''csrf_token'' in
     if tok = [] then Some CSRFMissing
     else case split_on (CHR ''.'') tok of
       [n, expStr, gotSig] \<Rightarrow>
         (case parse_int expStr of
            None \<Rightarrow> Some CSRFMalformed
          | Some exp \<Rightarrow>
              if gotSig \<noteq> csrfSign mac secret n exp then Some CSRFBadSig
              else if now > exp then Some CSRFExpired else None)
     | _ \<Rightarrow> Some CSRFMalformed)"

section \<open>Sealed sessions and OAuth states\<close>

record session_payload =
  sp_UID :: string
  sp_Email :: string
  sp_Name :: string
  sp_Provider :: string
  sp_Exp :: int

record oauth_state =
  os_Provider :: string
  os_PKCEVerifier :: string
  os_Nonce :: string
  os_Exp :: int

datatype session_error = SessionMissing | SessionMalformed | SessionTampered | SessionExpired

text \<open>The JSON of the two structs: tags, order, and \<open>omitempty\<close> on the name.\<close>

definition session_fields :: "session_payload \<Rightarrow> (string \<times> json) list" where
  "session_fields p = [(''u'', JStr (sp_UID p)), (''e'', JStr (sp_Email p))]
     @ (if sp_Name p = [] then [] else [(''n'', JStr (sp_Name p))])
     @ [(''p'', JStr (sp_Provider p)), (''x'', JInt (sp_Exp p))]"

definition session_of_fields :: "(string \<times> json) list \<Rightarrow> session_payload option" where
  "session_of_fields fs =
     (case (str_field fs ''u'', str_field fs ''e'', str_field fs ''n'', str_field fs ''p'', int_field fs ''x'') of
        (Some u, Some e, Some n, Some p, Some x) \<Rightarrow>
          Some \<lparr>sp_UID = u, sp_Email = e, sp_Name = n, sp_Provider = p, sp_Exp = x\<rparr>
      | _ \<Rightarrow> None)"

definition oauth_fields :: "oauth_state \<Rightarrow> (string \<times> json) list" where
  "oauth_fields st = [(''p'', JStr (os_Provider st)), (''v'', JStr (os_PKCEVerifier st)),
     (''n'', JStr (os_Nonce st)), (''x'', JInt (os_Exp st))]"

definition oauth_of_fields :: "(string \<times> json) list \<Rightarrow> oauth_state option" where
  "oauth_of_fields fs =
     (case (str_field fs ''p'', str_field fs ''v'', str_field fs ''n'', int_field fs ''x'') of
        (Some p, Some v, Some n, Some x) \<Rightarrow>
          Some \<lparr>os_Provider = p, os_PKCEVerifier = v, os_Nonce = n, os_Exp = x\<rparr>
      | _ \<Rightarrow> None)"

definition sealSession :: "mac \<Rightarrow> session_payload \<Rightarrow> bytes \<Rightarrow> string option" where
  "sealSession mac p secret =
     (if secret = [] then None
      else let body = b64_raw_encode (json_marshal (session_fields p))
           in Some (body @ ''.'' @ b64_raw_encode (mac secret body)))"

definition openSession :: "mac \<Rightarrow> int \<Rightarrow> string \<Rightarrow> bytes \<Rightarrow> session_error + session_payload" where
  "openSession mac now cookieValue secret =
     (if cookieValue = [] then Inl SessionMissing
      else case split_n (CHR ''.'') cookieValue 2 of
        [body, sig] \<Rightarrow>
          (case b64_raw_decode sig of
             None \<Rightarrow> Inl SessionMalformed
           | Some gotSig \<Rightarrow>
               if gotSig \<noteq> mac secret body then Inl SessionTampered
               else case b64_raw_decode body of
                 None \<Rightarrow> Inl SessionMalformed
               | Some raw \<Rightarrow>
                   (case Option.bind (json_unmarshal raw) session_of_fields of
                      None \<Rightarrow> Inl SessionMalformed
                    | Some p \<Rightarrow> if sp_Exp p > 0 \<and> now > sp_Exp p then Inl SessionExpired else Inr p))
      | _ \<Rightarrow> Inl SessionMalformed)"

definition sealOAuthState :: "mac \<Rightarrow> oauth_state \<Rightarrow> bytes \<Rightarrow> string" where
  "sealOAuthState mac st secret = (
     let body = b64_raw_encode (json_marshal (oauth_fields st))
     in body @ ''.'' @ b64_raw_encode (mac secret body))"

definition openOAuthState :: "mac \<Rightarrow> string \<Rightarrow> bytes \<Rightarrow> oauth_state option" where
  "openOAuthState mac s secret =
     (case split_n (CHR ''.'') s 2 of
        [body, sig] \<Rightarrow>
          (case b64_raw_decode sig of
             None \<Rightarrow> None
           | Some gotSig \<Rightarrow>
               if gotSig \<noteq> mac secret body then None
               else Option.bind (Option.bind (b64_raw_decode body) json_unmarshal) oauth_of_fields)
      | _ \<Rightarrow> None)"

definition sessionCookieName :: string where "sessionCookieName = ''agentry_session''"
definition sessionMaxAge :: int where "sessionMaxAge = 30 * 24 * 3600"

definition setSessionCookie :: "mac \<Rightarrow> int \<Rightarrow> request \<Rightarrow> session_payload \<Rightarrow> bytes \<Rightarrow> set_cookie option" where
  "setSessionCookie mac now r p secret =
     map_option (\<lambda>v. \<lparr>sc_Name = sessionCookieName, sc_Value = v, sc_Path = ''/'',
         sc_Secure = requestIsHTTPS r, sc_HttpOnly = True, sc_SameSite = ''Lax'', sc_MaxAge = sessionMaxAge\<rparr>)
       (sealSession mac (p\<lparr>sp_Exp := now + sessionMaxAge\<rparr>) secret)"

definition clearSessionCookie :: "request \<Rightarrow> set_cookie" where
  "clearSessionCookie r = \<lparr>sc_Name = sessionCookieName, sc_Value = [], sc_Path = ''/'',
     sc_Secure = requestIsHTTPS r, sc_HttpOnly = True, sc_SameSite = ''Lax'', sc_MaxAge = - 1\<rparr>"

definition readSession :: "mac \<Rightarrow> int \<Rightarrow> request \<Rightarrow> bytes \<Rightarrow> session_payload option" where
  "readSession mac now r secret =
     (case cookie_of r sessionCookieName of
        None \<Rightarrow> None
      | Some v \<Rightarrow> (case openSession mac now v secret of Inl _ \<Rightarrow> None | Inr p \<Rightarrow> Some p))"

section \<open>The proxy\<close>

definition stripIdentityHeaders :: "header \<Rightarrow> header" where
  "stripIdentityHeaders h = hdel (hdel (hdel (hdel (hdel h ''X-Forwarded-User'') ''X-Forwarded-Email'')
     ''X-Forwarded-Name'') ''X-Forwarded-Provider'') ''X-Forwarded-Sig''"

definition signIdentity :: "mac \<Rightarrow> session_payload \<Rightarrow> bytes \<Rightarrow> string" where
  "signIdentity mac p secret = hex_encode (mac secret (sp_UID p @ ''|'' @ sp_Email p @ ''|'' @ sp_Provider p))"

definition injectIdentityHeaders :: "mac \<Rightarrow> header \<Rightarrow> session_payload \<Rightarrow> bytes \<Rightarrow> header" where
  "injectIdentityHeaders mac h p secret =
     hset (hset (hset (hset (hset h ''X-Forwarded-User'' (sp_UID p)) ''X-Forwarded-Email'' (sp_Email p))
       ''X-Forwarded-Name'' (sp_Name p)) ''X-Forwarded-Provider'' (sp_Provider p))
       ''X-Forwarded-Sig'' (signIdentity mac p secret)"

definition setForwardingMetadata :: "request \<Rightarrow> header \<Rightarrow> header" where
  "setForwardingMetadata r h = (
     let h1 = (if hget h ''X-Forwarded-Host'' = [] then hset h ''X-Forwarded-Host'' (rq_Host r) else h);
         h2 = (if hget h1 ''X-Forwarded-Proto'' = []
               then hset h1 ''X-Forwarded-Proto'' (if requestIsHTTPS r then ''https'' else ''http'') else h1);
         ip = remoteIP r
     in if hget h2 ''X-Forwarded-For'' = [] \<and> ip \<noteq> [] then hset h2 ''X-Forwarded-For'' ip else h2)"

definition isBrowserAsset :: "string \<Rightarrow> bool" where
  "isBrowserAsset path \<longleftrightarrow>
     path \<in> {''/favicon.ico'', ''/robots.txt'', ''/manifest.json'', ''/site.webmanifest'',
       ''/apple-touch-icon.png'', ''/apple-touch-icon-precomposed.png''}
     \<or> list_ex (has_suffix path) [''.ico'', ''.png'', ''.svg'', ''.webmanifest'', ''.map'']"

definition isXHR :: "request \<Rightarrow> bool" where
  "isXHR r \<longleftrightarrow> hget (rq_Header r) ''X-Requested-With'' = ''XMLHttpRequest''
     \<or> contains_str (hget (rq_Header r) ''Accept'') ''application/json''
        \<and> \<not> contains_str (hget (rq_Header r) ''Accept'') ''text/html''"

datatype proxied_request = PxForward header string | PxStatus nat | PxLogin

text \<open>\<open>proxyHandler\<close>: the header and the host that go upstream, or the answer.\<close>

definition proxyHandler :: "mac \<Rightarrow> int \<Rightarrow> bool \<Rightarrow> bytes \<Rightarrow> bytes \<Rightarrow> request \<Rightarrow> proxied_request" where
  "proxyHandler mac now passthrough identitySecret secret r = (
     let h = stripIdentityHeaders (rq_Header r);
         forward = (\<lambda>h. PxForward h (let f = hget h ''X-Forwarded-Host'' in if f \<noteq> [] then f else rq_Host r)) in
     if passthrough then forward h
     else case readSession mac now r secret of
       None \<Rightarrow>
         if isXHR (r\<lparr>rq_Header := h\<rparr>) then PxStatus StatusUnauthorized
         else if isBrowserAsset (rq_Path r) then PxStatus StatusNotFound
         else PxLogin
     | Some p \<Rightarrow>
         let key = (if identitySecret = [] then secret else identitySecret)
         in forward (setForwardingMetadata r (injectIdentityHeaders mac h p key)))"

end
