(* ===== verification/Auth_OAuth.thy ===== *)
theory Auth_OAuth
  imports Auth_Session
begin

text \<open>
  The OAuth client of the auth proxy (\<open>oauth.go\<close>): the table of providers, the redirect that starts
  a login, the exchange of the code and the profile. The providers are outside: an HTTP client is
  a function from a call to its status and the members of the JSON object in its body, \<open>None\<close> when the call
  fails and \<open>None\<close> for a body that is no JSON object. Random bytes and SHA-256 are arguments.
\<close>

record provider_config =
  pc_ClientID :: string
  pc_ClientSecret :: string
  pc_Issuer :: string
  pc_Scopes :: "string list"

record provider_spec =
  ps_authorizeURL :: string
  ps_tokenURL :: string
  ps_userinfoURL :: string
  ps_defaultScopes :: "string list"
  ps_idField :: string
  ps_emailField :: string
  ps_nameField :: string
  ps_extra :: "(string \<times> string) list"

definition oidc_spec :: "string \<Rightarrow> string \<Rightarrow> string \<Rightarrow> string list \<Rightarrow> (string \<times> string) list \<Rightarrow> provider_spec" where
  "oidc_spec auth tok ui scopes extra = \<lparr>ps_authorizeURL = auth, ps_tokenURL = tok, ps_userinfoURL = ui,
     ps_defaultScopes = scopes, ps_idField = ''sub'', ps_emailField = ''email'', ps_nameField = ''name'',
     ps_extra = extra\<rparr>"

definition providerSpec :: "string \<Rightarrow> provider_config \<Rightarrow> provider_spec option" where
  "providerSpec name pcfg = (
     let trim = trim_right_by (\<lambda>c. c = CHR ''/'') in
     if name = ''google'' then
       Some (oidc_spec ''https://accounts.google.com/o/oauth2/v2/auth'' ''https://oauth2.googleapis.com/token''
         ''https://openidconnect.googleapis.com/v1/userinfo'' [''openid'', ''email'', ''profile'']
         [(''access_type'', ''online''), (''prompt'', ''select_account'')])
     else if name = ''github'' then
       Some ((oidc_spec ''https://github.com/login/oauth/authorize'' ''https://github.com/login/oauth/access_token''
         ''https://api.github.com/user'' [''read:user'', ''user:email''] [])\<lparr>ps_idField := ''id''\<rparr>)
     else if name = ''microsoft'' then
       (let issuer = (if pc_Issuer pcfg = [] then ''https://login.microsoftonline.com/common/v2.0''
          else pc_Issuer pcfg) in
        Some (oidc_spec (trim issuer @ ''/oauth2/v2.0/authorize'') (trim issuer @ ''/oauth2/v2.0/token'')
          ''https://graph.microsoft.com/oidc/userinfo'' [''openid'', ''email'', ''profile''] []))
     else if name = ''apple'' then
       Some (oidc_spec ''https://appleid.apple.com/auth/authorize'' ''https://appleid.apple.com/auth/token''
         [] [''name'', ''email''] [(''response_mode'', ''form_post'')])
     else if name = ''generic-oidc'' then
       (if pc_Issuer pcfg = [] then None
        else let issuer = trim (pc_Issuer pcfg) in
          Some (oidc_spec (issuer @ ''/protocol/openid-connect/auth'') (issuer @ ''/protocol/openid-connect/token'')
            (issuer @ ''/protocol/openid-connect/userinfo'') [''openid'', ''email'', ''profile''] []))
     else None)"

text \<open>\<open>url.Values.Set\<close>.\<close>

definition values_set :: "(string \<times> string) list \<Rightarrow> string \<times> string \<Rightarrow> (string \<times> string) list" where
  "values_set q kv = filter (\<lambda>p. fst p \<noteq> fst kv) q @ [kv]"

definition oauthStateCookieName :: string where "oauthStateCookieName = ''agentry_oauth_state''"
definition oauthStateMaxAge :: int where "oauthStateMaxAge = 600"

definition mintPKCE :: "(bytes \<Rightarrow> bytes) \<Rightarrow> bytes \<Rightarrow> string \<times> string" where
  "mintPKCE sha256 rand = (let v = hex_encode rand in (v, b64_raw_encode (sha256 v)))"

definition start_query ::
  "request \<Rightarrow> string \<Rightarrow> provider_spec \<Rightarrow> provider_config \<Rightarrow> string \<Rightarrow> string \<Rightarrow> (string \<times> string) list" where
  "start_query r name spec pcfg stateVal challenge =
     foldl values_set [] ([(''client_id'', pc_ClientID pcfg),
       (''redirect_uri'', originForRedirect r @ ''/auth/oauth/'' @ name @ ''/callback''),
       (''response_type'', ''code''),
       (''scope'', join_str '' '' (if pc_Scopes pcfg \<noteq> [] then pc_Scopes pcfg else ps_defaultScopes spec)),
       (''state'', stateVal), (''code_challenge'', challenge), (''code_challenge_method'', ''S256'')]
       @ ps_extra spec)"

definition nonce_cookie :: "request \<Rightarrow> string \<Rightarrow> int \<Rightarrow> set_cookie" where
  "nonce_cookie r v age = \<lparr>sc_Name = oauthStateCookieName, sc_Value = v, sc_Path = ''/'',
     sc_Secure = requestIsHTTPS r, sc_HttpOnly = True, sc_SameSite = ''Lax'', sc_MaxAge = age\<rparr>"

text \<open>\<open>start\<close>: the cookie, where it redirects, and with which query.\<close>

definition oauth_start ::
  "mac \<Rightarrow> (bytes \<Rightarrow> bytes) \<Rightarrow> int \<Rightarrow> bytes \<Rightarrow> (string \<rightharpoonup> provider_config) \<Rightarrow> bytes \<Rightarrow> bytes \<Rightarrow> string \<Rightarrow> request
    \<Rightarrow> (set_cookie \<times> string \<times> (string \<times> string) list) verdict" where
  "oauth_start mac sha256 now secret providers rand48 rand16 name r =
     (case providers name of
        None \<Rightarrow> Reply StatusNotFound ''404 page not found''
      | Some pcfg \<Rightarrow>
     (case providerSpec name pcfg of
        None \<Rightarrow> Reply StatusInternalServerError ''provider misconfigured''
      | Some spec \<Rightarrow>
          let (verifier, challenge) = mintPKCE sha256 rand48;
              nonce = hex_encode rand16;
              st = \<lparr>os_Provider = name, os_PKCEVerifier = verifier, os_Nonce = nonce, os_Exp = now + oauthStateMaxAge\<rparr>;
              stateVal = sealOAuthState mac st secret
          in Pass (nonce_cookie r nonce oauthStateMaxAge, ps_authorizeURL spec,
               start_query r name spec pcfg stateVal challenge)))"

definition start_location :: "string \<Rightarrow> (string \<times> string) list \<Rightarrow> string" where
  "start_location authorizeURL q = authorizeURL @ ''?'' @ values_encode q"

section \<open>Talking to the provider\<close>

record http_call =
  hc_Method :: string
  hc_URL :: string
  hc_Header :: "(string \<times> string) list"
  hc_Body :: bytes

text \<open>The dynamic type of a member as \<open>map[string]any\<close> holds it; a number is given as the integer its
  float converts to.\<close>

datatype dyn = DynStr string | DynNum int | DynNull | DynOther

type_synonym http_client = "http_call \<Rightarrow> (nat \<times> (string \<times> dyn) list option) option"

text \<open>A string field of a struct filled by \<open>json.Unmarshal\<close>.\<close>

definition dyn_field :: "(string \<times> dyn) list \<Rightarrow> string \<Rightarrow> string option" where
  "dyn_field fs k = (case find (\<lambda>(k', _). equal_fold k' k) (rev fs) of
     None \<Rightarrow> Some [] | Some (_, DynStr s) \<Rightarrow> Some s | Some (_, DynNull) \<Rightarrow> Some [] | Some _ \<Rightarrow> None)"

record user_info =
  ui_ID :: string
  ui_Email :: string
  ui_Name :: string

definition exchangeCode ::
  "http_client \<Rightarrow> provider_spec \<Rightarrow> provider_config \<Rightarrow> string \<Rightarrow> string \<Rightarrow> string \<Rightarrow> string option" where
  "exchangeCode http spec pcfg code verifier redirectURI = (
     let form = [(''grant_type'', ''authorization_code''), (''code'', code), (''redirect_uri'', redirectURI),
           (''client_id'', pc_ClientID pcfg), (''client_secret'', pc_ClientSecret pcfg), (''code_verifier'', verifier)];
         call = \<lparr>hc_Method = ''POST'', hc_URL = ps_tokenURL spec,
           hc_Header = [(''Content-Type'', ''application/x-www-form-urlencoded''), (''Accept'', ''application/json'')],
           hc_Body = values_encode form\<rparr> in
     case http call of
       None \<Rightarrow> None
     | Some (status, body) \<Rightarrow>
         if status \<ge> 400 then None
         else (case body of
             None \<Rightarrow> None
           | Some fs \<Rightarrow>
               (case (dyn_field fs ''access_token'', dyn_field fs ''id_token'', dyn_field fs ''token_type'') of
                  (Some t, Some _, Some _) \<Rightarrow> if t = [] then None else Some t
                | _ \<Rightarrow> None)))"

definition coerceString :: "dyn option \<Rightarrow> string" where
  "coerceString v = (case v of Some (DynStr s) \<Rightarrow> s | Some (DynNum i) \<Rightarrow> format_int i | _ \<Rightarrow> [])"

definition fetchUserInfo :: "http_client \<Rightarrow> provider_spec \<Rightarrow> string \<Rightarrow> user_info option" where
  "fetchUserInfo http spec accessToken =
     (if ps_userinfoURL spec = [] then None
      else case http \<lparr>hc_Method = ''GET'', hc_URL = ps_userinfoURL spec,
             hc_Header = [(''Authorization'', ''Bearer '' @ accessToken), (''Accept'', ''application/json'')],
             hc_Body = []\<rparr> of
        None \<Rightarrow> None
      | Some (status, body) \<Rightarrow>
          if status \<ge> 400 then None
          else map_option (\<lambda>fs. \<lparr>ui_ID = coerceString (map_of (rev fs) (ps_idField spec)),
              ui_Email = coerceString (map_of (rev fs) (ps_emailField spec)),
              ui_Name = coerceString (map_of (rev fs) (ps_nameField spec))\<rparr>)
            body)"

section \<open>What a start hands out\<close>

lemma start_query_state:
  assumes "providerSpec name pcfg = Some spec"
  shows "map_of (start_query r name spec pcfg v challenge) ''state'' = Some v"
proof -
  have "ps_extra spec \<in> {[], [(''access_type'', ''online''), (''prompt'', ''select_account'')],
      [(''response_mode'', ''form_post'')]}"
    using assms by (auto simp: providerSpec_def oidc_spec_def Let_def split: if_splits)
  then show ?thesis by (auto simp: start_query_def values_set_def)
qed

lemma oauth_start_pass:
  assumes "oauth_start mac sha256 now secret providers rand48 rand16 name r = Pass (ck, url, q)"
  shows "map_of q ''state'' = Some (sealOAuthState mac \<lparr>os_Provider = name, os_PKCEVerifier = hex_encode rand48,
      os_Nonce = hex_encode rand16, os_Exp = now + oauthStateMaxAge\<rparr> secret)"
    and "ck = nonce_cookie r (hex_encode rand16) oauthStateMaxAge"
proof -
  from assms obtain pcfg where p: "providers name = Some pcfg"
    by (auto simp: oauth_start_def split: option.splits)
  with assms obtain spec where s: "providerSpec name pcfg = Some spec"
    by (auto simp: oauth_start_def split: option.splits)
  show "map_of q ''state'' = Some (sealOAuthState mac \<lparr>os_Provider = name, os_PKCEVerifier = hex_encode rand48,
      os_Nonce = hex_encode rand16, os_Exp = now + oauthStateMaxAge\<rparr> secret)"
    "ck = nonce_cookie r (hex_encode rand16) oauthStateMaxAge"
    using assms start_query_state [OF s] by (auto simp: oauth_start_def p s mintPKCE_def Let_def)
qed

end
