(* ===== verification/Auth_Identity.thy ===== *)
theory Auth_Identity
  imports Auth_OAuth
begin

text \<open>
  What the sealed cookies and the proxy of the auth sidecar establish: a session cookie is a signed
  token, the upstream sees an identity only out of one; and the two kinds of sealed blob are not
  told apart.
\<close>

section \<open>Sessions as signed tokens\<close>

lemma lower_tags [simp]:
  "lower_char (CHR ''u'') = CHR ''u''" "lower_char (CHR ''e'') = CHR ''e''" "lower_char (CHR ''n'') = CHR ''n''"
  "lower_char (CHR ''p'') = CHR ''p''" "lower_char (CHR ''x'') = CHR ''x''" "lower_char (CHR ''v'') = CHR ''v''"
  by code_simp+

lemma session_fields_roundtrip: "session_of_fields (session_fields p) = Some p"
  by (cases p) (simp add: session_fields_def session_of_fields_def str_field_def int_field_def json_member_def
      equal_fold_def to_lower_def)

lemma oauth_fields_roundtrip: "oauth_of_fields (oauth_fields st) = Some st"
  by (cases st) (simp add: oauth_fields_def oauth_of_fields_def str_field_def int_field_def json_member_def
      equal_fold_def to_lower_def)

definition blob_body :: "string \<Rightarrow> bytes" where
  "blob_body v = (case split_n (CHR ''.'') v 2 of [body, sig] \<Rightarrow> body | _ \<Rightarrow> [])"

definition blob_signature :: "string \<Rightarrow> bytes option" where
  "blob_signature v = (case split_n (CHR ''.'') v 2 of [body, sig] \<Rightarrow> b64_raw_decode sig | _ \<Rightarrow> None)"

definition read_session_body :: "bytes \<Rightarrow> session_payload option" where
  "read_session_body body = Option.bind (Option.bind (b64_raw_decode body) json_unmarshal) session_of_fields"

lemma openSession_iff:
  "openSession mac now v secret = Inr p \<longleftrightarrow>
     blob_signature v = Some (mac secret (blob_body v)) \<and> read_session_body (blob_body v) = Some p
     \<and> (sp_Exp p \<le> 0 \<or> now \<le> sp_Exp p)"
proof -
  have "split_n (CHR ''.'') [] 2 = [[]]" by (simp add: numeral_2_eq_2)
  then have empty: "v = [] \<Longrightarrow> blob_signature v = None" by (simp add: blob_signature_def)
  show ?thesis
  proof (cases "\<exists>body sig. split_n (CHR ''.'') v 2 = [body, sig]")
    case True
    then obtain body sig where s: "split_n (CHR ''.'') v 2 = [body, sig]" by blast
    then have "v \<noteq> []" using \<open>split_n (CHR ''.'') [] 2 = [[]]\<close> by auto
    then show ?thesis
      by (auto simp: openSession_def blob_body_def blob_signature_def read_session_body_def s
          split: option.splits)
  next
    case False
    then have "blob_signature v = None" "openSession mac now v secret \<noteq> Inr p"
      by (auto simp: blob_signature_def openSession_def split: list.splits)
    then show ?thesis by simp
  qed
qed

lemma blob_of_body:
  assumes "CHR ''.'' \<notin> set body" and "v = body @ ''.'' @ b64_raw_encode sig"
  shows "blob_body v = body" and "blob_signature v = Some sig"
proof -
  have "split_n (CHR ''.'') v 2 = [body, b64_raw_encode sig]"
    using assms by (simp add: split_n_2)
  then show "blob_body v = body" "blob_signature v = Some sig"
    by (simp_all add: blob_body_def blob_signature_def b64_raw_decode_encode)
qed

lemma session_fields_ok: "- (2 ^ 63) \<le> sp_Exp p \<Longrightarrow> sp_Exp p < 2 ^ 63 \<Longrightarrow> \<forall>kv \<in> set (session_fields p). json_ok (snd kv)"
  by (auto simp: session_fields_def json_ok_def)

lemma sealSession_blob:
  assumes "sealSession mac p secret = Some v" and "- (2 ^ 63) \<le> sp_Exp p" and "sp_Exp p < 2 ^ 63"
  shows "blob_signature v = Some (mac secret (blob_body v))" and "read_session_body (blob_body v) = Some p"
proof -
  let ?body = "b64_raw_encode (json_marshal (session_fields p))"
  have v: "v = ?body @ ''.'' @ b64_raw_encode (mac secret ?body)"
    using assms(1) by (auto simp: sealSession_def Let_def split: if_splits)
  note b = blob_of_body [OF b64_raw_encode_no_dot v]
  show "blob_signature v = Some (mac secret (blob_body v))" by (simp add: b)
  show "read_session_body (blob_body v) = Some p"
    by (simp add: b read_session_body_def b64_raw_decode_encode json_roundtrip [OF session_fields_ok [OF assms(2,3)]]
        session_fields_roundtrip)
qed

definition session_mint :: "mac \<Rightarrow> bytes \<Rightarrow> session_payload \<Rightarrow> int \<Rightarrow> string" where
  "session_mint mac key p exp = (case sealSession mac (p\<lparr>sp_Exp := exp\<rparr>) key of Some v \<Rightarrow> v | None \<Rightarrow> [])"

definition session_verify :: "mac \<Rightarrow> bytes \<Rightarrow> int \<Rightarrow> string \<Rightarrow> session_payload option" where
  "session_verify mac key now v =
     (case openSession mac now v key of Inr p \<Rightarrow> Some (p\<lparr>sp_Exp := 0\<rparr>) | Inl _ \<Rightarrow> None)"

definition session_claim :: "bytes \<Rightarrow> (session_payload \<times> int) option" where
  "session_claim body = map_option (\<lambda>p. (p\<lparr>sp_Exp := 0\<rparr>, sp_Exp p)) (read_session_body body)"

lemma session_verify_iff:
  "session_verify mac key now v = Some c \<longleftrightarrow>
     blob_signature v = Some (mac key (blob_body v))
     \<and> (\<exists>exp. session_claim (blob_body v) = Some (c, exp) \<and> (exp \<le> 0 \<or> now \<le> exp))"
proof -
  have "session_verify mac key now v = Some c \<longleftrightarrow> (\<exists>p. openSession mac now v key = Inr p \<and> c = p\<lparr>sp_Exp := 0\<rparr>)"
    by (auto simp: session_verify_def split: sum.splits)
  then show ?thesis by (auto simp: openSession_iff session_claim_def)
qed

interpretation session_token: signed_token session_mint session_verify "\<lambda>p. sp_Exp p = 0"
  "\<lambda>now exp. exp \<le> 0 \<or> now \<le> exp" blob_body blob_signature session_claim
proof (unfold_locales, goal_cases)
  case (1 key p exp mac now)
  let ?v = "session_mint mac key p exp"
  have s: "sealSession mac (p\<lparr>sp_Exp := exp\<rparr>) key = Some ?v"
    using 1 by (simp add: session_mint_def sealSession_def Let_def)
  have "session_claim (blob_body ?v) = Some (p, exp)"
    using sealSession_blob(2) [OF s] 1 by (cases p) (simp add: session_claim_def)
  moreover have "blob_signature ?v = Some (mac key (blob_body ?v))"
    using sealSession_blob(1) [OF s] 1 by simp
  ultimately show ?case
    using session_verify_iff [of mac key now ?v] by (cases "session_verify mac key now ?v") auto
qed (auto simp: session_verify_iff)

section \<open>The identity the upstream sees\<close>

definition identity_keys :: "string list" where
  "identity_keys = [''X-Forwarded-User'', ''X-Forwarded-Email'', ''X-Forwarded-Name'', ''X-Forwarded-Provider'',
     ''X-Forwarded-Sig'']"

lemma canon_forwarded:
  "canon_key ''X-Forwarded-User'' = ''X-Forwarded-User''"
  "canon_key ''X-Forwarded-Email'' = ''X-Forwarded-Email''"
  "canon_key ''X-Forwarded-Name'' = ''X-Forwarded-Name''"
  "canon_key ''X-Forwarded-Provider'' = ''X-Forwarded-Provider''"
  "canon_key ''X-Forwarded-Sig'' = ''X-Forwarded-Sig''"
  "canon_key ''X-Forwarded-Host'' = ''X-Forwarded-Host''"
  "canon_key ''X-Forwarded-Proto'' = ''X-Forwarded-Proto''"
  "canon_key ''X-Forwarded-For'' = ''X-Forwarded-For''"
  by code_simp+

lemma strip_identity: "k \<in> set identity_keys \<Longrightarrow> hget (stripIdentityHeaders h) k = []"
  by (auto simp: identity_keys_def stripIdentityHeaders_def canon_forwarded http_header)

lemma inject_identity:
  "map (hget (injectIdentityHeaders mac h p key)) identity_keys
     = [sp_UID p, sp_Email p, sp_Name p, sp_Provider p, signIdentity mac p key]"
  by (simp add: identity_keys_def injectIdentityHeaders_def canon_forwarded)

lemma metadata_identity: "k \<in> set identity_keys \<Longrightarrow> hget (setForwardingMetadata r h) k = hget h k"
  by (auto simp: identity_keys_def setForwardingMetadata_def Let_def canon_forwarded)


definition ann :: session_payload where
  "ann = \<lparr>sp_UID = ''1'', sp_Email = ''a@x'', sp_Name = ''Ann'', sp_Provider = ''password'', sp_Exp = 0\<rparr>"

definition len_mac :: mac where "len_mac key body = map (\<lambda>_. CHR ''m'') key"

definition ann_request :: request where
  "ann_request = blank_request\<lparr>rq_Cookies := [(sessionCookieName, session_mint len_mac ''k'' ann 9)]\<rparr>"

lemma ann_session: "readSession len_mac 5 ann_request ''k'' = Some (ann\<lparr>sp_Exp := 9\<rparr>)"
proof -
  have s: "sealSession len_mac (ann\<lparr>sp_Exp := 9\<rparr>) ''k'' = Some (session_mint len_mac ''k'' ann 9)"
    by (simp add: session_mint_def sealSession_def Let_def)
  have "openSession len_mac 5 (session_mint len_mac ''k'' ann 9) ''k'' = Inr (ann\<lparr>sp_Exp := 9\<rparr>)"
    using sealSession_blob [OF s] by (simp add: openSession_iff)
  then show ?thesis by (simp add: readSession_def ann_request_def cookie_of_def)
qed


section \<open>States and sessions are not told apart\<close>

lemma sealed_state_opens:
  assumes "now \<le> os_Exp st" and "0 \<le> os_Exp st" and "os_Exp st < 2 ^ 63"
  shows "openSession mac now (sealOAuthState mac st secret) secret
      = Inr \<lparr>sp_UID = [], sp_Email = [], sp_Name = os_Nonce st, sp_Provider = os_Provider st, sp_Exp = os_Exp st\<rparr>
    \<and> (\<exists>h host. proxyHandler mac now False identitySecret secret
        (r\<lparr>rq_Cookies := [(sessionCookieName, sealOAuthState mac st secret)]\<rparr>) = PxForward h host)"
proof -
  let ?p = "\<lparr>sp_UID = [], sp_Email = [], sp_Name = os_Nonce st, sp_Provider = os_Provider st, sp_Exp = os_Exp st\<rparr>"
  let ?body = "b64_raw_encode (json_marshal (oauth_fields st))"
  have v: "sealOAuthState mac st secret = ?body @ ''.'' @ b64_raw_encode (mac secret ?body)"
    by (simp add: sealOAuthState_def Let_def)
  note b = blob_of_body [OF b64_raw_encode_no_dot v]
  have ok: "\<forall>kv \<in> set (oauth_fields st). json_ok (snd kv)"
    using assms by (auto simp: oauth_fields_def json_ok_def)
  have "session_of_fields (oauth_fields st) = Some ?p"
    by (simp add: oauth_fields_def session_of_fields_def str_field_def int_field_def json_member_def
        equal_fold_def to_lower_def)
  then have "read_session_body ?body = Some ?p"
    by (simp add: read_session_body_def b64_raw_decode_encode json_roundtrip [OF ok])
  then have o: "openSession mac now (sealOAuthState mac st secret) secret = Inr ?p"
    using assms b by (simp add: openSession_iff)
  then show ?thesis
    by (simp add: proxyHandler_def readSession_def cookie_of_def Let_def)
qed

text \<open>The value that the start of an OAuth login puts into its redirect, which anyone may ask for without an
  account, is itself accepted as a session. It is sealed under the same secret in the same shape,
  and the tags of its JSON overlap: put into the session cookie it opens as a session without user
  and email, named by its nonce, until the state expires ten minutes later; the proxy then forwards any request to the
  protected upstream as authenticated.\<close>

theorem oauth_state_opens_session:
  assumes "oauth_start mac sha256 started secret providers rand48 rand16 name r0 = Pass (ck, url, q)"
    and "0 \<le> started" and "started < 2 ^ 62" and "now \<le> started + oauthStateMaxAge"
  shows "\<exists>v. map_of q ''state'' = Some v
    \<and> openSession mac now v secret = Inr \<lparr>sp_UID = [], sp_Email = [], sp_Name = hex_encode rand16,
        sp_Provider = name, sp_Exp = started + oauthStateMaxAge\<rparr>
    \<and> (\<exists>h host. proxyHandler mac now False identitySecret secret
        (r\<lparr>rq_Cookies := [(sessionCookieName, v)]\<rparr>) = PxForward h host)"
proof -
  let ?st = "\<lparr>os_Provider = name, os_PKCEVerifier = hex_encode rand48, os_Nonce = hex_encode rand16,
    os_Exp = started + oauthStateMaxAge\<rparr>"
  have "map_of q ''state'' = Some (sealOAuthState mac ?st secret)"
    by (rule oauth_start_pass(1) [OF assms(1)])
  moreover note sealed_state_opens [of now ?st mac secret identitySecret r]
  ultimately show ?thesis using assms(2-4) by (simp add: oauthStateMaxAge_def)
qed

lemma oauth_state_opens_session_witness:
  "\<exists>ck url q v p. oauth_start len_mac id 0 ''k'' [''google'' \<mapsto> \<lparr>pc_ClientID = ''c'', pc_ClientSecret = ''s'',
      pc_Issuer = [], pc_Scopes = []\<rparr>] ''vv'' ''nn'' ''google'' blank_request = Pass (ck, url, q)
    \<and> map_of q ''state'' = Some v \<and> openSession len_mac 5 v ''k'' = Inr p"
proof -
  obtain ck url q where s: "oauth_start len_mac id 0 ''k'' [''google'' \<mapsto> \<lparr>pc_ClientID = ''c'', pc_ClientSecret = ''s'',
      pc_Issuer = [], pc_Scopes = []\<rparr>] ''vv'' ''nn'' ''google'' blank_request = Pass (ck, url, q)"
    by (simp add: oauth_start_def providerSpec_def mintPKCE_def Let_def)
  from oauth_state_opens_session [OF s, of 5] s show ?thesis by (fastforce simp: oauthStateMaxAge_def)
qed

end
