(* ===== verification/Auth_Store.thy ===== *)
theory Auth_Store
  imports Auth_Session Utf8
begin

text \<open>
  The stateful half of the auth proxy below its handlers (\<open>cmd/authproxy\<close>): the login limiter, the
  lockout policy, the password policy, and the user and token tables with the statements that
  \<open>store.go\<close> and \<open>store_security.go\<close> run on them. Times are Unix seconds. A table is a list of rows;
  bcrypt, the SHA-256 of a token and the random identifiers are parameters.
\<close>

section \<open>The login limiter\<close>

record slide_limiter =
  sl_hits :: "string \<rightharpoonup> int list"
  sl_max :: int
  sl_window :: int

definition newSlideLimiter :: "int \<Rightarrow> int \<Rightarrow> slide_limiter" where
  "newSlideLimiter m window = \<lparr>sl_hits = Map.empty, sl_max = m, sl_window = window\<rparr>"

definition slide_allow :: "slide_limiter \<Rightarrow> string \<Rightarrow> int \<Rightarrow> bool \<times> slide_limiter" where
  "slide_allow r key now =
     (if sl_max r \<le> 0 then (True, r)
      else
        let cutoff = now - sl_window r;
            times = (case sl_hits r key of Some ts \<Rightarrow> ts | None \<Rightarrow> []);
            kept = filter (\<lambda>t. t > cutoff) times in
        if int (length kept) \<ge> sl_max r then (False, r\<lparr>sl_hits := (sl_hits r)(key \<mapsto> kept)\<rparr>)
        else
          let hits = (sl_hits r)(key \<mapsto> kept @ [now]);
              hits = (if card (dom hits) > 1024
                then (\<lambda>k. case hits k of Some ts \<Rightarrow> if ts = [] \<or> last ts < cutoff then None else Some ts
                          | None \<Rightarrow> None)
                else hits)
          in (True, r\<lparr>sl_hits := hits\<rparr>))"

definition slide_used :: "slide_limiter \<Rightarrow> string \<Rightarrow> int \<Rightarrow> nat" where
  "slide_used r key t = (case sl_hits r key of
     Some ts \<Rightarrow> length (filter (\<lambda>h. h > t - sl_window r) ts) | None \<Rightarrow> 0)"

definition slide_ok :: "int \<Rightarrow> slide_limiter \<Rightarrow> int \<Rightarrow> bool" where
  "slide_ok w r t \<longleftrightarrow> 0 < sl_max r \<and> sl_window r = w \<and> 0 \<le> w
     \<and> (\<forall>k ts. sl_hits r k = Some ts \<longrightarrow> sorted ts \<and> (\<forall>h \<in> set ts. h \<le> t))"

lemma filter_filter_gt:
  "c \<le> (d :: int) \<Longrightarrow> filter (\<lambda>h. d < h) (filter (\<lambda>h. c < h) ts) = filter (\<lambda>h. d < h) ts"
  by (induction ts) auto

lemma sorted_le_last: "sorted ts \<Longrightarrow> x \<in> set ts \<Longrightarrow> x \<le> last (ts :: int list)"
  by (induction ts) (auto intro: last_in_set)

lemma filter_stale:
  "sorted ts \<Longrightarrow> ts = [] \<or> last ts < c \<Longrightarrow> c \<le> (d :: int) \<Longrightarrow> filter (\<lambda>h. d < h) ts = []"
  using sorted_le_last by (fastforce simp: filter_empty_conv)

lemma slide_charge:
  assumes ok: "slide_ok w r t" and le: "t \<le> t'"
  shows "slide_used (snd (slide_allow r k t)) k' t' \<ge> slide_used r k' t' +
    (if k' = k \<and> fst (slide_allow r k t) \<and> t > t' - w then 1 else 0)"
proof -
  have w: "sl_window r = w" "0 < sl_max r" "0 \<le> w" using ok by (auto simp: slide_ok_def)
  let ?d = "t' - w"
  have cd: "t - w \<le> ?d" using le by simp
  have stale: "filter (\<lambda>h. ?d < h) ts = []" if "sl_hits r q = Some ts" "ts = [] \<or> last ts < t - w" for q ts
    using that ok by (intro filter_stale [OF _ _ cd]) (auto simp: slide_ok_def)
  show ?thesis
    using w stale [of k'] filter_filter_gt [OF cd]
    by (auto simp: slide_allow_def slide_used_def Let_def split: option.split)
qed

interpretation login_limiter: rate_limiter slide_allow slide_used "\<lambda>t t'. t > t' - w"
  "\<lambda>r. nat (sl_max r)" "slide_ok w" for w
proof (unfold_locales, goal_cases)
  case (1 s t k)
  then show ?case
    by (auto simp: slide_allow_def slide_used_def slide_ok_def Let_def split: option.split if_splits)
next
  case (2 s t t' k' k)
  then show ?case by (rule slide_charge)
next
  case (3 s k t)
  then show ?case by (simp add: slide_allow_def Let_def)
next
  case (4 s t k)
  then show ?case
    by (auto simp: slide_ok_def slide_allow_def Let_def sorted_append split: option.splits if_splits
        intro: sorted_wrt_filter)
next
  case (5 s t t')
  then show ?case by (fastforce simp: slide_ok_def)
qed

section \<open>The lockout policy\<close>

definition lockoutThreshold :: int where "lockoutThreshold = 5"
definition lockoutBaseDelay :: int where "lockoutBaseDelay = 60"
definition lockoutMaxDelay :: int where "lockoutMaxDelay = 30 * 60"

fun lockout_double :: "int \<Rightarrow> nat \<Rightarrow> int" where
  "lockout_double d 0 = d"
| "lockout_double d (Suc n) =
     (let d = d * 2 in if d \<ge> lockoutMaxDelay then lockoutMaxDelay else lockout_double d n)"

definition lockoutUntil :: "int \<Rightarrow> int \<Rightarrow> int option" where
  "lockoutUntil now attempts =
     (if attempts < lockoutThreshold then None
      else
        let over = attempts - lockoutThreshold;
            d = lockout_double lockoutBaseDelay (nat over);
            d = (if d \<le> 0 \<or> d > lockoutMaxDelay then lockoutMaxDelay else d)
        in Some (now + d))"

definition isLocked :: "int option \<Rightarrow> int \<Rightarrow> bool" where
  "isLocked lockedUntil now = (case lockedUntil of None \<Rightarrow> False | Some u \<Rightarrow> u > now)"

section \<open>The password policy\<close>

datatype password_error = TooShort | TooCommon | Repeated

definition commonPasswords :: "string list" where
  "commonPasswords = [''password'', ''password1'', ''password123'', ''12345678'', ''123456789'', ''1234567890'',
     ''qwerty123'', ''qwertyuiop'', ''letmein'', ''welcome1'', ''admin123'', ''iloveyou'', ''changeme'',
     ''passw0rd'', ''1q2w3e4r'', ''abc12345'', ''football'', ''baseball'', ''trustno1'', ''sunshine'']"

definition allSameRune :: "string \<Rightarrow> bool" where
  "allSameRune s = (case runes_of (map of_char s) of
     [] \<Rightarrow> False
   | first # rs \<Rightarrow> list_all (\<lambda>r. r = first) rs \<and> \<not> unicode_space first)"

definition validatePassword :: "string \<Rightarrow> password_error option" where
  "validatePassword pw =
     (if length pw < 8 then Some TooShort
      else if to_lower pw \<in> set commonPasswords then Some TooCommon
      else if allSameRune pw then Some Repeated
      else None)"

section \<open>The tables\<close>

record user =
  us_ID :: string
  us_Email :: string
  us_PasswordHash :: string
  us_Name :: string
  us_Provider :: string
  us_ProviderID :: string
  us_CreatedAt :: int
  us_EmailVerified :: bool
  us_FailedAttempts :: int
  us_LockedUntil :: "int option"

record email_token =
  et_Hash :: string
  et_User :: string
  et_Purpose :: string
  et_Expires :: int
  et_Used :: "int option"

record user_store =
  st_users :: "user list"
  st_tokens :: "email_token list"

datatype store_error = InvalidEmail | PasswordTooShort | HashFailed | ErrEmailTaken | NoRows | ErrTokenInvalid

definition norm_email :: "string \<Rightarrow> string" where
  "norm_email email = to_lower (trim_space email)"

text \<open>\<open>UPDATE agentry_users ... WHERE id = ?\<close>.\<close>

definition update_user :: "user_store \<Rightarrow> string \<Rightarrow> (user \<Rightarrow> user) \<Rightarrow> user_store" where
  "update_user s uid f = s\<lparr>st_users := map (\<lambda>u. if us_ID u = uid then f u else u) (st_users s)\<rparr>"

definition GetUserByEmail :: "user_store \<Rightarrow> string \<Rightarrow> user option" where
  "GetUserByEmail s email = find (\<lambda>u. us_Email u = norm_email email) (st_users s)"

definition CreateUserPassword ::
  "(bytes \<Rightarrow> string option) \<Rightarrow> string \<Rightarrow> int \<Rightarrow> user_store \<Rightarrow> string \<Rightarrow> string \<Rightarrow> string
    \<Rightarrow> store_error + user \<times> user_store" where
  "CreateUserPassword bcrypt uid now s email0 password name = (
     let email = norm_email email0 in
     if email = [] \<or> CHR ''@'' \<notin> set email then Inl InvalidEmail
     else if length password < 8 then Inl PasswordTooShort
     else case bcrypt password of None \<Rightarrow> Inl HashFailed
     | Some hash \<Rightarrow>
         let u = \<lparr>us_ID = uid, us_Email = email, us_PasswordHash = hash, us_Name = trim_space name,
           us_Provider = ''password'', us_ProviderID = [], us_CreatedAt = now, us_EmailVerified = False,
           us_FailedAttempts = 0, us_LockedUntil = None\<rparr> in
         if list_ex (\<lambda>v. us_Email v = email) (st_users s) then Inl ErrEmailTaken
         else Inr (u, s\<lparr>st_users := st_users s @ [u]\<rparr>))"

text \<open>The columns that the OAuth lookups select; the rest of the struct stays zero.\<close>

definition oauth_columns :: "user \<Rightarrow> user" where
  "oauth_columns u = u\<lparr>us_EmailVerified := False, us_FailedAttempts := 0, us_LockedUntil := None\<rparr>"

definition UpsertUserFromOAuth ::
  "string \<Rightarrow> int \<Rightarrow> user_store \<Rightarrow> string \<Rightarrow> string \<Rightarrow> string \<Rightarrow> string \<Rightarrow> user \<times> user_store" where
  "UpsertUserFromOAuth uid now s provider providerID email0 name = (
     let email = norm_email email0 in
     case find (\<lambda>u. us_Provider u = provider \<and> us_ProviderID u = providerID) (st_users s) of
       Some u \<Rightarrow>
         if name \<noteq> [] \<and> name \<noteq> us_Name u
         then (oauth_columns u\<lparr>us_Name := name\<rparr>, update_user s (us_ID u) (\<lambda>v. v\<lparr>us_Name := name\<rparr>))
         else (oauth_columns u, s)
     | None \<Rightarrow>
     (case find (\<lambda>u. us_Email u = email) (st_users s) of
       Some u \<Rightarrow>
         (oauth_columns u\<lparr>us_Provider := provider, us_ProviderID := providerID,
            us_Name := (if name \<noteq> [] then name else us_Name u)\<rparr>,
          update_user s (us_ID u) (\<lambda>v. v\<lparr>us_Provider := provider, us_ProviderID := providerID, us_Name := name\<rparr>))
     | None \<Rightarrow>
         let u = \<lparr>us_ID = uid, us_Email = email, us_PasswordHash = [], us_Name = trim_space name,
           us_Provider = provider, us_ProviderID = providerID, us_CreatedAt = now, us_EmailVerified = False,
           us_FailedAttempts = 0, us_LockedUntil = None\<rparr>
         in (u, s\<lparr>st_users := st_users s @ [u]\<rparr>)))"

definition UpdatePassword ::
  "(bytes \<Rightarrow> string option) \<Rightarrow> user_store \<Rightarrow> string \<Rightarrow> string \<Rightarrow> store_error + user_store" where
  "UpdatePassword bcrypt s uid password =
     (if length password < 8 then Inl PasswordTooShort
      else case bcrypt password of None \<Rightarrow> Inl HashFailed
      | Some hash \<Rightarrow>
          if \<not> list_ex (\<lambda>u. us_ID u = uid) (st_users s) then Inl NoRows
          else Inr (update_user s uid (\<lambda>u. u\<lparr>us_PasswordHash := hash, us_FailedAttempts := 0, us_LockedUntil := None\<rparr>)))"

definition MarkEmailVerified :: "user_store \<Rightarrow> string \<Rightarrow> user_store" where
  "MarkEmailVerified s uid = update_user s uid (\<lambda>u. u\<lparr>us_EmailVerified := True\<rparr>)"

definition RecordLoginFailure :: "user_store \<Rightarrow> string \<Rightarrow> int \<Rightarrow> int option \<Rightarrow> user_store" where
  "RecordLoginFailure s uid attempts lockedUntil =
     update_user s uid (\<lambda>u. u\<lparr>us_FailedAttempts := attempts, us_LockedUntil := lockedUntil\<rparr>)"

definition ResetLoginAttempts :: "user_store \<Rightarrow> string \<Rightarrow> user_store" where
  "ResetLoginAttempts s uid = update_user s uid (\<lambda>u. u\<lparr>us_FailedAttempts := 0, us_LockedUntil := None\<rparr>)"

text \<open>The old tokens go even when the new one cannot be inserted.\<close>

definition CreateEmailToken :: "user_store \<Rightarrow> string \<Rightarrow> string \<Rightarrow> string \<Rightarrow> int \<Rightarrow> bool \<times> user_store" where
  "CreateEmailToken s uid purpose hash expires = (
     let kept = filter (\<lambda>t. \<not> (et_User t = uid \<and> et_Purpose t = purpose)) (st_tokens s) in
     if list_ex (\<lambda>t. et_Hash t = hash) kept then (False, s\<lparr>st_tokens := kept\<rparr>)
     else (True, s\<lparr>st_tokens := kept @ [\<lparr>et_Hash = hash, et_User = uid, et_Purpose = purpose,
            et_Expires = expires, et_Used = None\<rparr>]\<rparr>))"

definition token_usable :: "int \<Rightarrow> string \<Rightarrow> string \<Rightarrow> email_token \<Rightarrow> bool" where
  "token_usable now purpose hash t \<longleftrightarrow>
     et_Hash t = hash \<and> et_Purpose t = purpose \<and> et_Used t = None \<and> et_Expires t > now"

definition ConsumeEmailToken :: "user_store \<Rightarrow> int \<Rightarrow> string \<Rightarrow> string \<Rightarrow> store_error + string \<times> user_store" where
  "ConsumeEmailToken s now purpose hash =
     (if \<not> list_ex (token_usable now purpose hash) (st_tokens s) then Inl ErrTokenInvalid
      else
        let s' = s\<lparr>st_tokens := map (\<lambda>t. if token_usable now purpose hash t then t\<lparr>et_Used := Some now\<rparr> else t)
                (st_tokens s)\<rparr> in
        case find (\<lambda>t. et_Hash t = hash) (st_tokens s') of
          Some t \<Rightarrow> Inr (et_User t, s')
        | None \<Rightarrow> Inl NoRows)"

end
