(* ===== verification/Auth_Handlers.thy ===== *)
theory Auth_Handlers
  imports Auth_Identity Auth_Store Auth_OAuth
begin

text \<open>
  The handlers of the auth proxy (\<open>handlers.go\<close>, \<open>handlers_reset.go\<close>, \<open>callback\<close> of \<open>oauth.go\<close>) over
  the store, the limiter and the mails sent. A run of a handler is a function of the request and
  of what the outside gives it, gathered in a record: the time, the codes and hashes, the random
  values, and whether the database answers. The texts shown to a visitor are shortened where only
  their wording would be lost.
\<close>

record auth_env =
  ae_now :: int
  ae_mac :: mac
  ae_bcrypt :: "bytes \<Rightarrow> string option" \<comment> \<open>\<open>GenerateFromPassword\<close>\<close>
  ae_compare :: "string \<Rightarrow> bytes \<Rightarrow> bool" \<comment> \<open>\<open>CompareHashAndPassword\<close> succeeds\<close>
  ae_sha :: "string \<Rightarrow> string" \<comment> \<open>\<open>hashToken\<close>\<close>
  ae_uid :: string \<comment> \<open>the next \<open>newUserID\<close>\<close>
  ae_raw :: string \<comment> \<open>the next \<open>newRawToken\<close>\<close>
  ae_db :: bool \<comment> \<open>the database answers\<close>

record auth_cfg =
  ac_Secret :: bytes
  ac_Email :: bool \<comment> \<open>a mailer is bound\<close>
  ac_RequireVerification :: bool

record auth_state =
  as_store :: user_store
  as_limiter :: slide_limiter
  as_outbox :: "(string \<times> string) list" \<comment> \<open>address and link of the mails sent\<close>

datatype auth_reply =
    TooMany
  | CrossOrigin
  | FormAgain nat string
  | Notice nat string
  | SignedIn set_cookie
  | GoTo string
  | SignedOut set_cookie
  | ServerError

definition purposeReset :: string where "purposeReset = ''reset''"
definition purposeVerify :: string where "purposeVerify = ''verify''"
definition resetTokenTTL :: int where "resetTokenTTL = 3600"
definition verifyTokenTTL :: int where "verifyTokenTTL = 24 * 3600"

definition rateLimited :: "auth_env \<Rightarrow> request \<Rightarrow> auth_state \<Rightarrow> bool \<times> auth_state" where
  "rateLimited env r st = (let (ok, l) = slide_allow (as_limiter st) (remoteIP r) (ae_now env)
     in (\<not> ok, st\<lparr>as_limiter := l\<rparr>))"

definition send_link :: "auth_env \<Rightarrow> auth_cfg \<Rightarrow> request \<Rightarrow> user \<Rightarrow> string \<Rightarrow> int \<Rightarrow> string \<Rightarrow> auth_state \<Rightarrow> auth_state" where
  "send_link env cfg r u purpose ttl path st =
     (if \<not> ac_Email cfg \<or> \<not> ae_db env then st
      else case CreateEmailToken (as_store st) (us_ID u) purpose (ae_sha env (ae_raw env)) (ae_now env + ttl) of
        (False, s) \<Rightarrow> st\<lparr>as_store := s\<rparr>
      | (True, s) \<Rightarrow> st\<lparr>as_store := s, as_outbox := as_outbox st @ [(us_Email u, publicBaseURL r @ path @ ae_raw env)]\<rparr>)"

definition sendResetEmail :: "auth_env \<Rightarrow> auth_cfg \<Rightarrow> request \<Rightarrow> user \<Rightarrow> auth_state \<Rightarrow> auth_state" where
  "sendResetEmail env cfg r u st = send_link env cfg r u purposeReset resetTokenTTL ''/auth/reset?token='' st"

definition sendVerifyEmail :: "auth_env \<Rightarrow> auth_cfg \<Rightarrow> request \<Rightarrow> user \<Rightarrow> auth_state \<Rightarrow> auth_state" where
  "sendVerifyEmail env cfg r u st = send_link env cfg r u purposeVerify verifyTokenTTL ''/auth/verify?token='' st"

definition sign_in :: "auth_env \<Rightarrow> auth_cfg \<Rightarrow> request \<Rightarrow> user \<Rightarrow> auth_reply" where
  "sign_in env cfg r u =
     (case setSessionCookie (ae_mac env) (ae_now env) r
        \<lparr>sp_UID = us_ID u, sp_Email = us_Email u, sp_Name = us_Name u, sp_Provider = us_Provider u, sp_Exp = 0\<rparr>
        (ac_Secret cfg) of
        None \<Rightarrow> ServerError | Some c \<Rightarrow> SignedIn c)"

definition recordLoginFailure :: "auth_env \<Rightarrow> user \<Rightarrow> auth_state \<Rightarrow> auth_state" where
  "recordLoginFailure env u st = (
     let attempts = us_FailedAttempts u + 1 in
     if ae_db env then st\<lparr>as_store := RecordLoginFailure (as_store st) (us_ID u) attempts (lockoutUntil (ae_now env) attempts)\<rparr>
     else st)"

definition loginError :: "string \<Rightarrow> auth_reply" where
  "loginError msg = FormAgain StatusUnauthorized msg"

definition signupError :: "string \<Rightarrow> auth_reply" where
  "signupError msg = FormAgain StatusBadRequest msg"

definition postLogin :: "auth_env \<Rightarrow> auth_cfg \<Rightarrow> request \<Rightarrow> auth_state \<Rightarrow> auth_reply \<times> auth_state" where
  "postLogin env cfg r st0 = (
     let (limited, st) = rateLimited env r st0;
         email = norm_email (any_form_value r ''email'');
         password = any_form_value r ''password'' in
     if limited then (TooMany, st)
     else if validateSameOrigin r \<noteq> None then (CrossOrigin, st)
     else if validateCSRF (ae_mac env) (ae_now env) r (ac_Secret cfg) \<noteq> None then
       (loginError ''Your sign-in session expired'', st)
     else if email = [] \<or> password = [] then (loginError ''Email and password are required'', st)
     else if \<not> ae_db env then (loginError ''Sign-in is temporarily unavailable'', st)
     else case GetUserByEmail (as_store st) email of
       None \<Rightarrow> (loginError ''Invalid email or password'', st)
     | Some u \<Rightarrow>
         if isLocked (us_LockedUntil u) (ae_now env) then
           (loginError ''Too many failed attempts. Try again in a few minutes.'', st)
         else if us_PasswordHash u = [] then (loginError ''This account uses another sign-in'', st)
         else if \<not> ae_compare env (us_PasswordHash u) password then
           (loginError ''Invalid email or password'', recordLoginFailure env u st)
         else if ac_RequireVerification cfg \<and> \<not> us_EmailVerified u then
           (loginError ''Please verify your email'', sendVerifyEmail env cfg r u st)
         else (sign_in env cfg r u, st\<lparr>as_store := ResetLoginAttempts (as_store st) (us_ID u)\<rparr>))"

definition postSignup :: "auth_env \<Rightarrow> auth_cfg \<Rightarrow> request \<Rightarrow> auth_state \<Rightarrow> auth_reply \<times> auth_state" where
  "postSignup env cfg r st0 = (
     let (limited, st) = rateLimited env r st0;
         email = norm_email (any_form_value r ''email'');
         password = any_form_value r ''password'';
         name = trim_space (any_form_value r ''name'') in
     if limited then (TooMany, st)
     else if validateSameOrigin r \<noteq> None then (CrossOrigin, st)
     else if validateCSRF (ae_mac env) (ae_now env) r (ac_Secret cfg) \<noteq> None then
       (signupError ''Your sign-up session expired'', st)
     else if email = [] \<or> password = [] then (signupError ''Email and password are required'', st)
     else if length password < 8 then (signupError ''Password must be at least 8 characters'', st)
     else if \<not> ae_db env then (signupError ''Sign-up is temporarily unavailable'', st)
     else case CreateUserPassword (ae_bcrypt env) (ae_uid env) (ae_now env) (as_store st) email password name of
       Inl ErrEmailTaken \<Rightarrow> (signupError ''An account with that email already exists. Try signing in instead.'', st)
     | Inl _ \<Rightarrow> (signupError ''Sign-up is temporarily unavailable'', st)
     | Inr (u, s) \<Rightarrow>
         let st = st\<lparr>as_store := s\<rparr> in
         if ac_RequireVerification cfg then
           (Notice StatusOK ''Check your email'', sendVerifyEmail env cfg r u st)
         else (sign_in env cfg r u, st))"

definition postLogout :: "request \<Rightarrow> auth_reply" where
  "postLogout r = (if validateSameOrigin r \<noteq> None then CrossOrigin else SignedOut (clearSessionCookie r))"

definition getMe :: "auth_env \<Rightarrow> auth_cfg \<Rightarrow> request \<Rightarrow> nat + session_payload" where
  "getMe env cfg r = (case readSession (ae_mac env) (ae_now env) r (ac_Secret cfg) of
     None \<Rightarrow> Inl StatusUnauthorized | Some p \<Rightarrow> Inr p)"

text \<open>\<open>getLogin\<close>, \<open>getSignup\<close>, \<open>getForgot\<close>: a signed-in visitor is sent home, others get the form with a
  fresh token.\<close>

definition getLogin :: "auth_env \<Rightarrow> auth_cfg \<Rightarrow> bytes \<Rightarrow> request \<Rightarrow> auth_reply + string" where
  "getLogin env cfg nonce r =
     (if readSession (ae_mac env) (ae_now env) r (ac_Secret cfg) \<noteq> None then Inl (GoTo ''/'')
      else Inr (mintCSRFToken (ae_mac env) (ac_Secret cfg) nonce (ae_now env)))"

definition postForgot :: "auth_env \<Rightarrow> auth_cfg \<Rightarrow> request \<Rightarrow> auth_state \<Rightarrow> auth_reply \<times> auth_state" where
  "postForgot env cfg r st0 = (
     let (limited, st) = rateLimited env r st0;
         email = norm_email (any_form_value r ''email'');
         notice = Notice StatusOK ''If an account exists for that address, we've sent a password reset link. Check your inbox.'' in
     if limited then (TooMany, st)
     else if validateSameOrigin r \<noteq> None then (CrossOrigin, st)
     else if email = [] \<or> \<not> ae_db env then (notice, st)
     else case GetUserByEmail (as_store st) email of
       None \<Rightarrow> (notice, st)
     | Some u \<Rightarrow> (notice, sendResetEmail env cfg r u st))"

definition password_error_msg :: "password_error \<Rightarrow> string" where
  "password_error_msg e = (case e of TooShort \<Rightarrow> ''Password must be at least 8 characters.''
     | TooCommon \<Rightarrow> ''That password is too common. Choose something harder to guess.''
     | Repeated \<Rightarrow> ''Password can't be a single repeated character.'')"

definition postReset :: "auth_env \<Rightarrow> auth_cfg \<Rightarrow> request \<Rightarrow> auth_state \<Rightarrow> auth_reply \<times> auth_state" where
  "postReset env cfg r st0 = (
     let (limited, st) = rateLimited env r st0;
         raw = trim_space (any_form_value r ''token'');
         password = any_form_value r ''password'';
         confirm = any_form_value r ''confirm'' in
     if limited then (TooMany, st)
     else if validateSameOrigin r \<noteq> None then (CrossOrigin, st)
     else if validateCSRF (ae_mac env) (ae_now env) r (ac_Secret cfg) \<noteq> None then
       (FormAgain StatusBadRequest ''Your session expired'', st)
     else if raw = [] then (Notice StatusBadRequest ''Invalid link'', st)
     else if password \<noteq> confirm then (FormAgain StatusBadRequest ''The two passwords don't match.'', st)
     else case validatePassword password of
       Some e \<Rightarrow> (FormAgain StatusBadRequest (password_error_msg e), st)
     | None \<Rightarrow>
         if \<not> ae_db env then (ServerError, st)
         else (case ConsumeEmailToken (as_store st) (ae_now env) purposeReset (ae_sha env raw) of
             Inl ErrTokenInvalid \<Rightarrow> (Notice StatusBadRequest ''Link expired'', st)
           | Inl _ \<Rightarrow> (ServerError, st)
           | Inr (uid, s) \<Rightarrow>
               (case UpdatePassword (ae_bcrypt env) s uid password of
                  Inl _ \<Rightarrow> (ServerError, st\<lparr>as_store := s\<rparr>)
                | Inr s' \<Rightarrow> (GoTo ''/auth/login?reset=1'', st\<lparr>as_store := s'\<rparr>))))"

definition getVerify :: "auth_env \<Rightarrow> request \<Rightarrow> auth_state \<Rightarrow> auth_reply \<times> auth_state" where
  "getVerify env r st = (
     let raw = trim_space (values_get (rq_Query r) ''token'') in
     if raw = [] then (Notice StatusBadRequest ''Invalid link'', st)
     else if \<not> ae_db env then (Notice StatusBadRequest ''Link expired'', st)
     else case ConsumeEmailToken (as_store st) (ae_now env) purposeVerify (ae_sha env raw) of
       Inl _ \<Rightarrow> (Notice StatusBadRequest ''Link expired'', st)
     | Inr (uid, s) \<Rightarrow> (GoTo ''/auth/login?verified=1'', st\<lparr>as_store := MarkEmailVerified s uid\<rparr>))"

text \<open>\<open>callback\<close>: with a session the nonce's cookie is cleared.\<close>

datatype callback_reply = CbStatus nat string | CbLogin | CbSignedIn set_cookie set_cookie

definition oauth_callback ::
  "auth_env \<Rightarrow> auth_cfg \<Rightarrow> (string \<rightharpoonup> provider_config) \<Rightarrow> http_client \<Rightarrow> string \<Rightarrow> request \<Rightarrow> auth_state
    \<Rightarrow> callback_reply \<times> auth_state" where
  "oauth_callback env cfg providers http name r st =
     (case providers name of
        None \<Rightarrow> (CbStatus StatusNotFound ''404 page not found'', st)
      | Some pcfg \<Rightarrow>
     (case providerSpec name pcfg of
        None \<Rightarrow> (CbStatus StatusInternalServerError ''provider misconfigured'', st)
      | Some spec \<Rightarrow>
     let code = values_get (rq_Query r) ''code''; stateRaw = values_get (rq_Query r) ''state'' in
     if values_get (rq_Query r) ''error'' \<noteq> [] then (CbLogin, st)
     else if code = [] \<or> stateRaw = [] then (CbStatus StatusBadRequest ''missing code/state'', st)
     else case openOAuthState (ae_mac env) stateRaw (ac_Secret cfg) of
       None \<Rightarrow> (CbStatus StatusBadRequest ''state invalid'', st)
     | Some s \<Rightarrow>
         if os_Provider s \<noteq> name then (CbStatus StatusBadRequest ''state/provider mismatch'', st)
         else if cookie_of r oauthStateCookieName \<noteq> Some (os_Nonce s) then
           (CbStatus StatusBadRequest ''state nonce mismatch'', st)
         else if ae_now env > os_Exp s then (CbStatus StatusBadRequest ''state expired'', st)
         else (case exchangeCode http spec pcfg code (os_PKCEVerifier s)
                 (originForRedirect r @ ''/auth/oauth/'' @ name @ ''/callback'') of
             None \<Rightarrow> (CbStatus StatusBadGateway ''token exchange failed'', st)
           | Some token \<Rightarrow>
               (case fetchUserInfo http spec token of
                  None \<Rightarrow> (CbStatus StatusBadGateway ''userinfo failed'', st)
                | Some info \<Rightarrow>
                    if ui_Email info = [] then
                      (CbStatus StatusBadGateway ''provider did not return an email; cannot create account'', st)
                    else if \<not> ae_db env then (CbStatus StatusInternalServerError ''internal error'', st)
                    else (case UpsertUserFromOAuth (ae_uid env) (ae_now env) (as_store st) name (ui_ID info)
                              (ui_Email info) (ui_Name info) of
                        (u, store) \<Rightarrow>
                          (case sign_in env cfg r u of
                             SignedIn c \<Rightarrow> CbSignedIn c (nonce_cookie r [] (- 1))
                           | _ \<Rightarrow> CbStatus StatusInternalServerError ''internal error'',
                           st\<lparr>as_store := store\<rparr>))))))"

end
