(* ===== verification/Auth_Accounts.thy ===== *)
theory Auth_Accounts
  imports Auth_Handlers
begin

text \<open>
  What the handlers of the auth proxy guarantee about accounts: when a login signs in and what its
  cookie opens, how many passwords can be tried against an account, and that a mailed link works
  once.
\<close>

section \<open>Logging in\<close>

abbreviation bad_credentials :: auth_reply where
  "bad_credentials \<equiv> loginError ''Invalid email or password''"

abbreviation login_email :: "request \<Rightarrow> string" where
  "login_email r \<equiv> norm_email (any_form_value r ''email'')"

definition login_admitted :: "auth_env \<Rightarrow> auth_cfg \<Rightarrow> request \<Rightarrow> auth_state \<Rightarrow> bool" where
  "login_admitted env cfg r st \<longleftrightarrow>
     fst (slide_allow (as_limiter st) (remoteIP r) (ae_now env)) \<and> validateSameOrigin r = None
     \<and> validateCSRF (ae_mac env) (ae_now env) r (ac_Secret cfg) = None
     \<and> login_email r \<noteq> [] \<and> any_form_value r ''password'' \<noteq> [] \<and> ae_db env"

text \<open>The branches of a login, with what each does to the users.\<close>

lemma postLogin_branches:
  assumes "postLogin env cfg r st = (a, st')"
  obtains (refused) "\<not> login_admitted env cfg r st" and "a \<in> {TooMany, CrossOrigin} \<union> range loginError"
      and "a \<noteq> bad_credentials" and "as_store st' = as_store st"
    | (unknown) "login_admitted env cfg r st" and "GetUserByEmail (as_store st) (login_email r) = None"
      and "a = bad_credentials" and "as_store st' = as_store st"
    | (barred) u where "login_admitted env cfg r st" and "GetUserByEmail (as_store st) (login_email r) = Some u"
      and "isLocked (us_LockedUntil u) (ae_now env) \<or> us_PasswordHash u = []
        \<or> ae_compare env (us_PasswordHash u) (any_form_value r ''password'') \<and> ac_RequireVerification cfg
          \<and> \<not> us_EmailVerified u"
      and "a \<in> range loginError" and "a \<noteq> bad_credentials" and "st_users (as_store st') = st_users (as_store st)"
    | (wrong) u where "login_admitted env cfg r st" and "GetUserByEmail (as_store st) (login_email r) = Some u"
      and "\<not> isLocked (us_LockedUntil u) (ae_now env)" and "us_PasswordHash u \<noteq> []"
      and "\<not> ae_compare env (us_PasswordHash u) (any_form_value r ''password'')"
      and "a = bad_credentials"
      and "as_store st' = RecordLoginFailure (as_store st) (us_ID u) (us_FailedAttempts u + 1)
             (lockoutUntil (ae_now env) (us_FailedAttempts u + 1))"
    | (granted) u where "login_admitted env cfg r st" and "GetUserByEmail (as_store st) (login_email r) = Some u"
      and "\<not> isLocked (us_LockedUntil u) (ae_now env)" and "us_PasswordHash u \<noteq> []"
      and "ae_compare env (us_PasswordHash u) (any_form_value r ''password'')"
      and "ac_RequireVerification cfg \<longrightarrow> us_EmailVerified u"
      and "a = sign_in env cfg r u" and "as_store st' = ResetLoginAttempts (as_store st) (us_ID u)"
proof -
  obtain ok lim where l: "slide_allow (as_limiter st) (remoteIP r) (ae_now env) = (ok, lim)" by fastforce
  note p = assms [unfolded postLogin_def rateLimited_def l Let_def split_beta prod.sel]
  show thesis
  proof (cases "login_admitted env cfg r st")
    case False
    then show ?thesis
      using p by (intro refused) (auto simp: login_admitted_def l loginError_def split: if_splits)
  next
    case True
    then have adm: "ok" "validateSameOrigin r = None" "validateCSRF (ae_mac env) (ae_now env) r (ac_Secret cfg) = None"
      "login_email r \<noteq> []" "any_form_value r ''password'' \<noteq> []" "ae_db env"
      by (auto simp: login_admitted_def l)
    show ?thesis
    proof (cases "GetUserByEmail (as_store st) (login_email r)")
      case None
      then show ?thesis using p adm by (intro unknown [OF True]) auto
    next
      case (Some u)
      consider "isLocked (us_LockedUntil u) (ae_now env)"
        | "\<not> isLocked (us_LockedUntil u) (ae_now env)" "us_PasswordHash u = []"
        | "\<not> isLocked (us_LockedUntil u) (ae_now env)" "us_PasswordHash u \<noteq> []"
            "\<not> ae_compare env (us_PasswordHash u) (any_form_value r ''password'')"
        | "\<not> isLocked (us_LockedUntil u) (ae_now env)" "us_PasswordHash u \<noteq> []"
            "ae_compare env (us_PasswordHash u) (any_form_value r ''password'')"
            "ac_RequireVerification cfg \<and> \<not> us_EmailVerified u"
        | "\<not> isLocked (us_LockedUntil u) (ae_now env)" "us_PasswordHash u \<noteq> []"
            "ae_compare env (us_PasswordHash u) (any_form_value r ''password'')"
            "\<not> (ac_RequireVerification cfg \<and> \<not> us_EmailVerified u)"
        by blast
      then show ?thesis
      proof cases
        case 1
        then show ?thesis using p adm Some by (intro barred [OF True Some]) (auto simp: loginError_def)
      next
        case 2
        then show ?thesis using p adm Some by (intro barred [OF True Some]) (auto simp: loginError_def)
      next
        case 3
        then show ?thesis using p adm Some
          by (intro wrong [OF True Some]) (auto simp: recordLoginFailure_def Let_def)
      next
        case 4
        then show ?thesis using p adm Some
          by (intro barred [OF True Some])
            (auto simp: loginError_def sendVerifyEmail_def send_link_def CreateEmailToken_def Let_def
              split: option.splits if_splits)
      next
        case 5
        then show ?thesis using p adm Some by (intro granted [OF True Some]) auto
      qed
    qed
  qed
qed

definition user_session :: "user \<Rightarrow> int \<Rightarrow> session_payload" where
  "user_session u exp = \<lparr>sp_UID = us_ID u, sp_Email = us_Email u, sp_Name = us_Name u,
     sp_Provider = us_Provider u, sp_Exp = exp\<rparr>"

lemma sign_in_iff:
  "(\<exists>c. sign_in env cfg r u = SignedIn c) \<longleftrightarrow> ac_Secret cfg \<noteq> []"
  by (simp add: sign_in_def setSessionCookie_def sealSession_def Let_def)

text \<open>The cookie of a login opens as the session of that user for thirty days, and not after.\<close>

lemma sign_in_session:
  assumes "sign_in env cfg r u = SignedIn c" and "0 \<le> ae_now env" and "ae_now env < 2 ^ 62"
    and "cookie_of r' sessionCookieName = Some (sc_Value c)"
  shows "readSession (ae_mac env) now r' (ac_Secret cfg) =
    (if now \<le> ae_now env + sessionMaxAge then Some (user_session u (ae_now env + sessionMaxAge)) else None)"
proof -
  let ?p = "user_session u (ae_now env + sessionMaxAge)"
  have "\<lparr>sp_UID = us_ID u, sp_Email = us_Email u, sp_Name = us_Name u, sp_Provider = us_Provider u,
      sp_Exp = 0\<rparr>\<lparr>sp_Exp := ae_now env + sessionMaxAge\<rparr> = ?p"
    by (simp add: user_session_def)
  then have s: "sealSession (ae_mac env) ?p (ac_Secret cfg) = Some (sc_Value c)"
    using assms(1) by (auto simp: sign_in_def setSessionCookie_def split: option.splits)
  have x: "- (2 ^ 63) \<le> sp_Exp ?p" "sp_Exp ?p < 2 ^ 63" "0 < sp_Exp ?p"
    using assms(2,3) by (simp_all add: user_session_def sessionMaxAge_def)
  note b = sealSession_blob [OF s x(1,2)]
  show ?thesis
  proof (cases "now \<le> ae_now env + sessionMaxAge")
    case True
    then have "openSession (ae_mac env) now (sc_Value c) (ac_Secret cfg) = Inr ?p"
      using b by (simp add: openSession_iff user_session_def)
    with True show ?thesis by (simp add: readSession_def assms(4))
  next
    case False
    then have "\<not> openSession (ae_mac env) now (sc_Value c) (ac_Secret cfg) = Inr q" for q
      using b x by (auto simp: openSession_iff user_session_def)
    with False show ?thesis
      by (cases "openSession (ae_mac env) now (sc_Value c) (ac_Secret cfg)") (auto simp: readSession_def assms(4))
  qed
qed

text \<open>C11: A login signs in exactly when the limiter lets the address through, the request comes from
  the proxy's own pages with a live form token, the account of the given address (trimmed and
  lowered) is not locked, has a password and that password is the one given, and the address is
  verified where that is asked for; and the cookie it then sets opens, for thirty days and no
  longer, as the session of that very account.\<close>

theorem login_exact:
  assumes "0 \<le> ae_now env" and "ae_now env < 2 ^ 62" and "ac_Secret cfg \<noteq> []"
  shows "((\<exists>c. fst (postLogin env cfg r st) = SignedIn c) \<longleftrightarrow>
      login_admitted env cfg r st \<and>
      (\<exists>u. GetUserByEmail (as_store st) (login_email r) = Some u \<and> \<not> isLocked (us_LockedUntil u) (ae_now env)
        \<and> us_PasswordHash u \<noteq> [] \<and> ae_compare env (us_PasswordHash u) (any_form_value r ''password'')
        \<and> (ac_RequireVerification cfg \<longrightarrow> us_EmailVerified u)))
    \<and> (\<forall>c u r' now. fst (postLogin env cfg r st) = SignedIn c \<longrightarrow>
        GetUserByEmail (as_store st) (login_email r) = Some u \<longrightarrow>
        cookie_of r' sessionCookieName = Some (sc_Value c) \<longrightarrow>
        readSession (ae_mac env) now r' (ac_Secret cfg) =
          (if now \<le> ae_now env + sessionMaxAge then Some (user_session u (ae_now env + sessionMaxAge)) else None))"
proof -
  obtain a st' where p: "postLogin env cfg r st = (a, st')" by fastforce
  from p show ?thesis
  proof (cases rule: postLogin_branches)
    case refused
    then show ?thesis by (auto simp: p loginError_def)
  next
    case unknown
    then show ?thesis by (auto simp: p loginError_def)
  next
    case (barred u)
    then show ?thesis by (auto simp: p loginError_def)
  next
    case (wrong u)
    then show ?thesis by (auto simp: p loginError_def)
  next
    case (granted u)
    then have "\<exists>c. a = SignedIn c" using sign_in_iff [of env cfg r u] assms(3) by simp
    with granted show ?thesis
      using sign_in_session [of env cfg r u _ _ _, OF _ assms(1,2)] by (simp add: p)
  qed
qed

lemma csrf_roundtrip:
  assumes "any_form_value r ''csrf_token'' = mintCSRFToken mac secret nonce t"
    and "- (2 ^ 63) \<le> t + csrfTokenTTL" and "t + csrfTokenTTL < 2 ^ 63"
  shows "validateCSRF mac now r secret = (if now \<le> t + csrfTokenTTL then None else Some CSRFExpired)"
proof -
  let ?n = "b64_raw_encode nonce" and ?x = "t + csrfTokenTTL"
  let ?s = "csrfSign mac secret ?n ?x"
  have t: "mintCSRFToken mac secret nonce t = ?n @ CHR ''.'' # format_int ?x @ CHR ''.'' # ?s"
    by (simp add: mintCSRFToken_def Let_def)
  have "split_on (CHR ''.'') (mintCSRFToken mac secret nonce t) = [?n, format_int ?x, ?s]"
    unfolding t by (simp add: split_on_append split_on_no_sep csrfSign_def)
  then show ?thesis
    using assms by (simp add: validateCSRF_def Let_def parse_int_format t)
qed

text \<open>A small deployment of the proxy: one account, a request that logs into it.\<close>

definition ann_env :: auth_env where
  "ann_env = \<lparr>ae_now = 100, ae_mac = len_mac,
     ae_bcrypt = (\<lambda>p. if length p \<le> 72 then Some (CHR ''h'' # p) else None),
     ae_compare = (\<lambda>h p. h = CHR ''h'' # p), ae_sha = (\<lambda>s. CHR ''s'' # s), ae_uid = ''2'', ae_raw = ''raw'',
     ae_db = True\<rparr>"

definition ann_cfg :: auth_cfg where
  "ann_cfg = \<lparr>ac_Secret = ''k'', ac_Email = True, ac_RequireVerification = False\<rparr>"

definition ann_user :: user where
  "ann_user = \<lparr>us_ID = ''1'', us_Email = ''a@x'', us_PasswordHash = ''hsecret'', us_Name = ''Ann'',
     us_Provider = ''password'', us_ProviderID = [], us_CreatedAt = 0, us_EmailVerified = False,
     us_FailedAttempts = 0, us_LockedUntil = None\<rparr>"

definition ann_state :: auth_state where
  "ann_state = \<lparr>as_store = \<lparr>st_users = [ann_user], st_tokens = []\<rparr>, as_limiter = newSlideLimiter 20 60,
     as_outbox = []\<rparr>"

definition form_request :: "(string \<times> string) list \<Rightarrow> request" where
  "form_request fs = blank_request\<lparr>rq_Host := ''a.dev'',
     rq_Header := hset Map.empty ''Origin'' ''https://a.dev'',
     rq_Form := Some ((''csrf_token'', mintCSRFToken len_mac ''k'' ''n'' 100) # fs)\<rparr>"

lemma canon_origin [simp]:
  "canon_key ''Origin'' = ''Origin''" "canon_key ''X-Forwarded-Host'' = ''X-Forwarded-Host''"
  by code_simp+

lemma form_request_values [simp]:
  "k \<noteq> ''csrf_token'' \<Longrightarrow> any_form_value (form_request fs) k = values_get fs k"
  "any_form_value (form_request fs) ''csrf_token'' = mintCSRFToken len_mac ''k'' ''n'' 100"
  by (simp_all add: form_request_def blank_request_def any_form_value_def values_get_def)

lemma form_request_passes [simp]:
  "validateSameOrigin (form_request fs) = None"
  "validateCSRF len_mac 100 (form_request fs) ''k'' = None"
  "remoteIP (form_request fs) = []"
proof -
  have "publicHost (form_request fs) = ''a.dev''"
    by (simp add: publicHost_def form_request_def blank_request_def)
  moreover have "hget (rq_Header (form_request fs)) ''Origin'' = ''https://a.dev''"
    by (simp add: form_request_def)
  moreover have "to_lower ''a.dev'' = ''a.dev''" "to_lower ''https://a.dev'' = ''https://a.dev''"
    "checkOriginHost ''https://a.dev'' ''a.dev'' = None"
    by code_simp+
  ultimately show "validateSameOrigin (form_request fs) = None"
    by (simp add: validateSameOrigin_def Let_def)
  show "validateCSRF len_mac 100 (form_request fs) ''k'' = None"
    using csrf_roundtrip [of "form_request fs" len_mac "''k''" "''n''" 100 100]
    by (simp add: csrfTokenTTL_def)
  have "split_host_port [] = None" by code_simp
  then show "remoteIP (form_request fs) = []"
    by (simp add: remoteIP_def form_request_def blank_request_def)
qed

definition ann_login :: request where
  "ann_login = form_request [(''email'', '' A@x''), (''password'', ''secret'')]"

lemma norm_ann: "norm_email '' A@x'' = ''a@x''" "norm_email ''a@x'' = ''a@x''"
  by code_simp+

lemma ann_admitted: "login_admitted ann_env ann_cfg ann_login ann_state"
  by (simp add: login_admitted_def ann_login_def ann_env_def ann_cfg_def ann_state_def newSlideLimiter_def
      slide_allow_def Let_def values_get_def norm_ann)

lemma ann_found: "GetUserByEmail (as_store ann_state) (login_email ann_login) = Some ann_user"
  by (simp add: GetUserByEmail_def ann_state_def ann_login_def values_get_def norm_ann ann_user_def)

lemma login_exact_witness: "\<exists>c. fst (postLogin ann_env ann_cfg ann_login ann_state) = SignedIn c"
proof -
  have "0 \<le> ae_now ann_env" "ae_now ann_env < 2 ^ 62" "ac_Secret ann_cfg \<noteq> []"
    by (simp_all add: ann_env_def ann_cfg_def)
  note iff = conjunct1 [OF login_exact [OF this]]
  have pw: "any_form_value ann_login ''password'' = ''secret''"
    by (simp add: ann_login_def values_get_def)
  show ?thesis
    unfolding iff ann_found pw
    by (simp add: ann_admitted) (simp add: ann_user_def ann_env_def ann_cfg_def isLocked_def)
qed

section \<open>Logging in through a provider\<close>

lemma openOAuthState_sealed:
  "openOAuthState mac v secret = Some s \<Longrightarrow> blob_signature v = Some (mac secret (blob_body v))
    \<and> Option.bind (Option.bind (b64_raw_decode (blob_body v)) json_unmarshal) oauth_of_fields = Some s"
  by (auto simp: openOAuthState_def blob_signature_def blob_body_def split: list.splits option.splits if_splits)

text \<open>Whoever a provider's identity lands on is found by that identity the next time.\<close>

lemma Upsert_stable:
  assumes "UpsertUserFromOAuth uid now s provider pid email name = (u, s')"
  shows "\<exists>v \<in> set (st_users s'). us_ID v = us_ID u \<and> us_Provider v = provider \<and> us_ProviderID v = pid"
    and "us_ID (fst (UpsertUserFromOAuth uid' now' s' provider pid email' name')) = us_ID u"
    and "us_Provider u = provider"
proof -
  let ?same = "\<lambda>u. us_Provider u = provider \<and> us_ProviderID u = pid"
  have "(\<exists>v. find ?same (st_users s') = Some v \<and> us_ID v = us_ID u) \<and> us_Provider u = provider"
  proof (cases "find ?same (st_users s)")
    case (Some w)
    then have w: "us_Provider w = provider" by (auto simp: find_Some_iff)
    have "find ?same (map (\<lambda>v. if us_ID v = i then v\<lparr>us_Name := n\<rparr> else v) (st_users s))
        = Some (if us_ID w = i then w\<lparr>us_Name := n\<rparr> else w)" for i n
      using Some by (subst find_map_keep) auto
    then show ?thesis
      using assms Some w by (auto simp: UpsertUserFromOAuth_def Let_def oauth_columns_def update_user_def split: if_splits)
  next
    case None
    then have none: "\<forall>v \<in> set (st_users s). \<not> ?same v" by (auto simp: find_None_iff)
    show ?thesis
    proof (cases "find (\<lambda>u. us_Email u = norm_email email) (st_users s)")
      case (Some w)
      let ?link = "\<lambda>v. if us_ID v = us_ID w then v\<lparr>us_Provider := provider, us_ProviderID := pid, us_Name := name\<rparr> else v"
      have "w \<in> set (st_users s)" using Some by (auto simp: find_Some_iff)
      then have "?link w \<in> set (map ?link (st_users s))" by (simp only: set_map image_eqI)
      moreover have "?same (?link w)" by simp
      ultimately have "find ?same (map ?link (st_users s)) \<noteq> None" unfolding find_None_iff by blast
      then obtain v where v: "find ?same (map ?link (st_users s)) = Some v" by blast
      have "v \<in> set (map ?link (st_users s))" "?same v" using find_SomeD [OF v] by blast+
      then obtain x where "x \<in> set (st_users s)" "v = ?link x" "?same (?link x)" by auto
      then have "us_ID v = us_ID w" using none by (cases "us_ID x = us_ID w") auto
      moreover have "us_ID u = us_ID w" "us_Provider u = provider" "st_users s' = map ?link (st_users s)"
        using assms None Some by (auto simp: UpsertUserFromOAuth_def Let_def oauth_columns_def update_user_def)
      ultimately show ?thesis using v by simp
    next
      case no_email: None
      have "find P (xs @ [x]) = (case find P xs of Some y \<Rightarrow> Some y | None \<Rightarrow> if P x then Some x else None)"
        for P :: "user \<Rightarrow> bool" and xs x by (induction xs) auto
      then show ?thesis
        using assms None no_email by (auto simp: UpsertUserFromOAuth_def Let_def)
    qed
  qed
  then obtain v where v: "find ?same (st_users s') = Some v" "us_ID v = us_ID u" "us_Provider u = provider"
    by blast
  then show "\<exists>v \<in> set (st_users s'). us_ID v = us_ID u \<and> us_Provider v = provider \<and> us_ProviderID v = pid"
    by (auto simp: find_Some_iff)
  show "us_ID (fst (UpsertUserFromOAuth uid' now' s' provider pid email' name')) = us_ID u"
    using v by (auto simp: UpsertUserFromOAuth_def Let_def oauth_columns_def)
  show "us_Provider u = provider" by (rule v(3))
qed

lemma callback_success:
  assumes "oauth_callback env cfg providers http name r st = (CbSignedIn c ck, st')"
  obtains pcfg spec s token info u where "providers name = Some pcfg" and "providerSpec name pcfg = Some spec"
    and "openOAuthState (ae_mac env) (values_get (rq_Query r) ''state'') (ac_Secret cfg) = Some s"
    and "os_Provider s = name" and "cookie_of r oauthStateCookieName = Some (os_Nonce s)" and "ae_now env \<le> os_Exp s"
    and "exchangeCode http spec pcfg (values_get (rq_Query r) ''code'') (os_PKCEVerifier s)
        (originForRedirect r @ ''/auth/oauth/'' @ name @ ''/callback'') = Some token"
    and "fetchUserInfo http spec token = Some info" and "ui_Email info \<noteq> []"
    and "UpsertUserFromOAuth (ae_uid env) (ae_now env) (as_store st) name (ui_ID info) (ui_Email info) (ui_Name info)
        = (u, as_store st')"
    and "sign_in env cfg r u = SignedIn c"
proof -
  from assms obtain pcfg where p: "providers name = Some pcfg"
    by (auto simp: oauth_callback_def split: option.splits)
  with assms obtain spec where s: "providerSpec name pcfg = Some spec"
    by (auto simp: oauth_callback_def split: option.splits)
  note a = assms [unfolded oauth_callback_def p s option.case Let_def]
  from a obtain t where t: "openOAuthState (ae_mac env) (values_get (rq_Query r) ''state'') (ac_Secret cfg) = Some t"
    by (auto split: option.splits if_split_asm)
  note a = a [unfolded t option.case]
  have g: "os_Provider t = name" "cookie_of r oauthStateCookieName = Some (os_Nonce t)" "ae_now env \<le> os_Exp t"
    using a by (auto split: if_split_asm)
  from a obtain token where tk: "exchangeCode http spec pcfg (values_get (rq_Query r) ''code'') (os_PKCEVerifier t)
      (originForRedirect r @ ''/auth/oauth/'' @ name @ ''/callback'') = Some token"
    by (auto split: if_split_asm option.splits)
  note a = a [unfolded tk option.case]
  from a obtain info where i: "fetchUserInfo http spec token = Some info"
    by (auto split: if_split_asm option.splits)
  note a = a [unfolded i option.case]
  obtain u store where u: "UpsertUserFromOAuth (ae_uid env) (ae_now env) (as_store st) name (ui_ID info)
      (ui_Email info) (ui_Name info) = (u, store)" by fastforce
  show thesis
    using a u by (intro that [OF p s t g tk i, of u]) (auto split: if_split_asm auth_reply.splits)
qed


lemma oauth_state_roundtrip:
  assumes "- (2 ^ 63) \<le> os_Exp st" and "os_Exp st < 2 ^ 63"
  shows "openOAuthState mac (sealOAuthState mac st secret) secret = Some st"
proof -
  let ?body = "b64_raw_encode (json_marshal (oauth_fields st))"
  have ok: "\<forall>kv \<in> set (oauth_fields st). json_ok (snd kv)"
    using assms by (auto simp: oauth_fields_def json_ok_def)
  have "split_n (CHR ''.'') (sealOAuthState mac st secret) 2 = [?body, b64_raw_encode (mac secret ?body)]"
    by (simp add: sealOAuthState_def Let_def split_n_2)
  then show ?thesis
    by (simp add: openOAuthState_def b64_raw_decode_encode json_roundtrip [OF ok] oauth_fields_roundtrip)
qed

text \<open>A provider that answers every code with Ann's profile.\<close>

definition ann_google :: provider_config where
  "ann_google = \<lparr>pc_ClientID = ''c'', pc_ClientSecret = ''s'', pc_Issuer = [], pc_Scopes = []\<rparr>"

definition ann_http :: http_client where
  "ann_http call = Some (200, Some (if hc_Method call = ''POST'' then [(''access_token'', DynStr ''t'')]
     else [(''sub'', DynNum 7), (''email'', DynStr ''a@x''), (''name'', DynStr ''Ann'')]))"

definition ann_pending :: oauth_state where
  "ann_pending = \<lparr>os_Provider = ''google'', os_PKCEVerifier = ''v'', os_Nonce = ''n'', os_Exp = 600\<rparr>"

definition ann_callback :: request where
  "ann_callback = blank_request\<lparr>rq_Query := [(''code'', ''c''), (''state'', sealOAuthState len_mac ann_pending ''k'')],
     rq_Cookies := [(oauthStateCookieName, ''n'')]\<rparr>"

lemma ann_callback_works:
  "\<exists>c ck st'. oauth_callback ann_env ann_cfg [''google'' \<mapsto> ann_google] ann_http ''google'' ann_callback ann_state
     = (CbSignedIn c ck, st')"
proof -
  obtain spec where spec: "providerSpec ''google'' ann_google = Some spec" "ps_userinfoURL spec \<noteq> []"
    "ps_idField spec = ''sub''" "ps_emailField spec = ''email''"
    by (simp add: providerSpec_def oidc_spec_def Let_def)
  have nonempty: "sealOAuthState m x k \<noteq> []" for m x k by (simp add: sealOAuthState_def Let_def)
  have "openOAuthState len_mac (sealOAuthState len_mac ann_pending ''k'') ''k'' = Some ann_pending"
    by (rule oauth_state_roundtrip) (simp_all add: ann_pending_def)
  moreover have f: "equal_fold ''access_token'' ''access_token''" "\<not> equal_fold ''access_token'' ''id_token''"
    "\<not> equal_fold ''access_token'' ''token_type''" by code_simp+
  have "exchangeCode ann_http spec ann_google ''c'' ''v'' uri = Some ''t''" for uri
    by (simp add: exchangeCode_def ann_http_def dyn_field_def f Let_def)
  moreover obtain info where "fetchUserInfo ann_http spec ''t'' = Some info" "ui_Email info = ''a@x''"
    by (simp add: fetchUserInfo_def ann_http_def spec coerceString_def)
  moreover obtain u store where "UpsertUserFromOAuth (ae_uid ann_env) (ae_now ann_env) (as_store ann_state) ''google''
      (ui_ID info) (ui_Email info) (ui_Name info) = (u, store)" by fastforce
  moreover obtain c where "sign_in ann_env ann_cfg ann_callback u = SignedIn c"
    using sign_in_iff [of ann_env ann_cfg ann_callback u] by (auto simp: ann_cfg_def)
  moreover have "ae_mac ann_env = len_mac" "ae_db ann_env" "ae_now ann_env = 100" "ac_Secret ann_cfg = ''k''"
    "rq_Query ann_callback = [(''code'', ''c''), (''state'', sealOAuthState len_mac ann_pending ''k'')]"
    "cookie_of ann_callback oauthStateCookieName = Some ''n''"
    by (simp_all add: ann_env_def ann_cfg_def ann_callback_def cookie_of_def)
  ultimately show ?thesis
    using spec nonempty by (simp add: oauth_callback_def values_get_def Let_def ann_pending_def)
qed


section \<open>Guessing passwords\<close>

text \<open>How long an account is locked after its \<open>n\<close>-th failure in a row.\<close>

definition lock_delay :: "nat \<Rightarrow> int" where
  "lock_delay n = (if n < 5 then 0 else min 1800 (60 * 2 ^ (n - 5)))"

lemma lockout_double_closed:
  "0 < d \<Longrightarrow> d \<le> 1800 \<Longrightarrow> lockout_double d n = (min 1800 (d * 2 ^ n) :: int)"
proof (induction n arbitrary: d)
  case (Suc n)
  have "1800 \<le> 2 * d \<Longrightarrow> 1800 \<le> d * (2 * 2 ^ n)"
    using mult_mono [of 1800 "2 * d" 1 "2 ^ n :: int"] by (simp add: ac_simps)
  moreover have "2 * d < 1800 \<Longrightarrow> lockout_double (2 * d) n = min 1800 (2 * d * 2 ^ n)"
    using Suc.IH [of "2 * d"] Suc.prems by simp
  ultimately show ?case by (auto simp: lockoutMaxDelay_def Let_def ac_simps)
qed simp

lemma lockoutUntil_closed:
  "lockoutUntil now (int n) = (if n < 5 then None else Some (now + lock_delay n))"
proof -
  have "nat (int n - 5) = n - 5" by simp
  moreover have "0 < min (1800 :: int) (60 * 2 ^ (n - 5)) \<and> min (1800 :: int) (60 * 2 ^ (n - 5)) \<le> 1800" by simp
  ultimately show ?thesis
    by (simp add: lockoutUntil_def lockoutThreshold_def lockoutBaseDelay_def lockoutMaxDelay_def
        lockout_double_closed lock_delay_def Let_def not_less [symmetric] del: min_less_iff_conj min_le_iff_disj)
qed

definition total_delay :: "nat \<Rightarrow> int" where
  "total_delay n = sum_list (map lock_delay [0..<n])"

lemma total_delay_Suc: "total_delay (Suc n) = total_delay n + lock_delay n"
  by (simp add: total_delay_def)

lemma lock_delay_full: "10 \<le> n \<Longrightarrow> lock_delay n = 1800"
proof -
  assume "10 \<le> n"
  then have "(2 ^ 5 :: int) \<le> 2 ^ (n - 5)" by (intro power_increasing) auto
  with \<open>10 \<le> n\<close> show ?thesis by (simp add: lock_delay_def)
qed

lemma lock_delay_nonneg: "0 \<le> lock_delay n"
  by (simp add: lock_delay_def)

lemma total_delay_nonneg: "0 \<le> total_delay n"
  by (induction n) (auto simp: total_delay_Suc lock_delay_nonneg total_delay_def)

lemma total_delay_10: "1800 \<le> total_delay 10"
  by (simp add: total_delay_def upt_rec lock_delay_def)

lemma total_delay_bound: "1800 * (int n - 9) \<le> total_delay n"
proof (induction n)
  case 0
  show ?case by (simp add: total_delay_def)
next
  case (Suc n)
  consider "10 \<le> n" | "n = 9" | "n < 9" by linarith
  then show ?case
  proof cases
    case 1
    then show ?thesis using Suc lock_delay_full [OF 1] by (simp add: total_delay_Suc)
  next
    case 2
    then show ?thesis using total_delay_10 by simp
  next
    case 3
    then show ?thesis using total_delay_nonneg [of "Suc n"] by simp
  qed
qed

fun logins :: "auth_cfg \<Rightarrow> auth_state \<Rightarrow> (auth_env \<times> request) list \<Rightarrow> auth_reply list \<times> auth_state" where
  "logins cfg st [] = ([], st)"
| "logins cfg st ((env, r) # es) =
     (let (a, st1) = postLogin env cfg r st; (rs, st2) = logins cfg st1 es in (a # rs, st2))"

text \<open>The guesses of a run that name the given address: an answer is counted when it says that the
  password was tried and was wrong.\<close>

definition wrong_guesses :: "string \<Rightarrow> (auth_env \<times> request) list \<Rightarrow> auth_reply list \<Rightarrow> nat" where
  "wrong_guesses email es rs =
     length (filter (\<lambda>((env, r), a). login_email r = email \<and> a = bad_credentials) (zip es rs))"

definition guess_inv :: "user \<Rightarrow> int \<Rightarrow> auth_state \<Rightarrow> nat \<Rightarrow> int \<Rightarrow> bool" where
  "guess_inv u0 t0 st n t \<longleftrightarrow>
     distinct (map us_ID (st_users (as_store st))) \<and> distinct (map us_Email (st_users (as_store st)))
     \<and> t0 + total_delay n \<le> t
     \<and> (\<exists>u \<in> set (st_users (as_store st)). us_ID u = us_ID u0 \<and> us_Email u = us_Email u0
          \<and> us_FailedAttempts u = int n \<and> us_LockedUntil u = lockoutUntil t (int n))"

lemma update_user_maps [simp]:
  "(\<And>u. us_ID (f u) = us_ID u) \<Longrightarrow> map us_ID (st_users (update_user s uid f)) = map us_ID (st_users s)"
  "(\<And>u. us_Email (f u) = us_Email u) \<Longrightarrow> map us_Email (st_users (update_user s uid f)) = map us_Email (st_users s)"
  by (simp_all add: update_user_def)

lemma GetUserByEmail_Some:
  "GetUserByEmail s e = Some u \<Longrightarrow> u \<in> set (st_users s) \<and> us_Email u = norm_email e"
  by (auto simp: GetUserByEmail_def find_Some_iff)

lemma GetUserByEmail_None:
  "GetUserByEmail s e = None \<Longrightarrow> u \<in> set (st_users s) \<Longrightarrow> us_Email u \<noteq> norm_email e"
  by (auto simp: GetUserByEmail_def find_None_iff)

lemma norm_email_idem: "norm_email (norm_email s) = norm_email s"
  by (simp add: norm_email_def trim_space_lower trim_space_idem) (simp add: to_lower_def lower_lower)


lemma update_user_member:
  "u \<in> set (st_users s) \<Longrightarrow> (if us_ID u = uid then f u else u) \<in> set (st_users (update_user s uid f))"
  by (auto simp: update_user_def)

lemma guess_inv_update:
  assumes "distinct (map us_ID (st_users (as_store st)))" and "distinct (map us_Email (st_users (as_store st)))"
    and "u1 \<in> set (st_users (as_store st))" and "as_store st' = update_user (as_store st) uid f"
    and "us_ID u1 = us_ID u0" and "us_Email u1 = us_Email u0"
    and "\<And>u. us_ID (f u) = us_ID u" and "\<And>u. us_Email (f u) = us_Email u"
    and "t0 + total_delay n \<le> t"
    and "let u = (if us_ID u1 = uid then f u1 else u1) in us_FailedAttempts u = int n \<and> us_LockedUntil u = lockoutUntil t (int n)"
  shows "guess_inv u0 t0 st' n t"
  using assms update_user_member [OF assms(3), of uid f]
  unfolding guess_inv_def Let_def by (intro conjI bexI [of _ "if us_ID u1 = uid then f u1 else u1"]) auto

lemma guess_step:
  assumes p: "postLogin env cfg r st = (a, st')" and inv: "guess_inv u0 t0 st n t" and time: "t \<le> ae_now env"
    and secret: "ac_Secret cfg \<noteq> []"
    and no: "login_email r = us_Email u0 \<Longrightarrow> \<forall>c. a \<noteq> SignedIn c"
  shows "guess_inv u0 t0 st' (if login_email r = us_Email u0 \<and> a = bad_credentials then Suc n else n)
    (if login_email r = us_Email u0 \<and> a = bad_credentials then ae_now env else t)"
proof -
  from inv obtain u1 where u1: "u1 \<in> set (st_users (as_store st))" "us_ID u1 = us_ID u0"
    "us_Email u1 = us_Email u0" "us_FailedAttempts u1 = int n" "us_LockedUntil u1 = lockoutUntil t (int n)"
    and d: "distinct (map us_ID (st_users (as_store st)))" "distinct (map us_Email (st_users (as_store st)))"
    and w: "t0 + total_delay n \<le> t"
    by (auto simp: guess_inv_def)
  have same: "guess_inv u0 t0 st' n t" if "st_users (as_store st') = st_users (as_store st)"
    using inv that by (simp add: guess_inv_def)
  from p show ?thesis
  proof (cases rule: postLogin_branches)
    case refused
    then show ?thesis using same by simp
  next
    case unknown
    then have "login_email r \<noteq> us_Email u0"
      using GetUserByEmail_None [OF unknown(2) u1(1)] u1(3) by (simp add: norm_email_idem)
    then show ?thesis using same unknown by simp
  next
    case (barred u)
    then show ?thesis using same by simp
  next
    case (wrong u)
    from GetUserByEmail_Some [OF wrong(2)] have u: "u \<in> set (st_users (as_store st))" "us_Email u = login_email r"
      by (simp_all add: norm_email_idem)
    note st' = wrong(7) [unfolded RecordLoginFailure_def]
    show ?thesis
    proof (cases "login_email r = us_Email u0")
      case True
      then have [simp]: "u = u1" using distinct_map_eq [OF d(2) u(1) u1(1)] u u1 by simp
      have "total_delay (Suc n) + t0 \<le> ae_now env"
        using wrong(3) w u1(5) time
        by (auto simp: lockoutUntil_closed isLocked_def total_delay_Suc lock_delay_def split: if_splits)
      then show ?thesis
        using True u1 wrong(6)
        by (auto simp: add.commute intro!: guess_inv_update [OF d u1(1) st'])
    next
      case False
      then have "us_ID u \<noteq> us_ID u1" using distinct_map_eq [OF d(1) u(1) u1(1)] u u1 by auto
      then show ?thesis
        using False u1 w by (auto intro!: guess_inv_update [OF d u1(1) st'])
    qed
  next
    case (granted u)
    from GetUserByEmail_Some [OF granted(2)] have u: "u \<in> set (st_users (as_store st))" "us_Email u = login_email r"
      by (simp_all add: norm_email_idem)
    have "\<exists>c. a = SignedIn c" using sign_in_iff secret granted(7) by simp
    with no have ne: "login_email r \<noteq> us_Email u0" by auto
    then have "us_ID u \<noteq> us_ID u1" using distinct_map_eq [OF d(1) u(1) u1(1)] u u1 by auto
    then show ?thesis
      using ne u1 w by (auto intro!: guess_inv_update [OF d u1(1) granted(8) [unfolded ResetLoginAttempts_def]])
  qed
qed


lemma guess_run:
  assumes "guess_inv u0 t0 st n t" and "sorted (t # map (ae_now \<circ> fst) es @ [t1])" and "ac_Secret cfg \<noteq> []"
    and "logins cfg st es = (rs, st')"
    and "\<forall>((env, r), a) \<in> set (zip es rs). login_email r = us_Email u0 \<longrightarrow> (\<forall>c. a \<noteq> SignedIn c)"
  shows "\<exists>t'. guess_inv u0 t0 st' (n + wrong_guesses (us_Email u0) es rs) t' \<and> t' \<le> t1"
  using assms
proof (induction es arbitrary: st n t rs)
  case Nil
  then show ?case by (auto simp: wrong_guesses_def)
next
  case (Cons e es)
  obtain env r where e: "e = (env, r)" by fastforce
  obtain a st1 where p: "postLogin env cfg r st = (a, st1)" by fastforce
  obtain rs' where l: "logins cfg st1 es = (rs', st')" and rs: "rs = a # rs'"
    using Cons.prems(4) by (auto simp: e p split: prod.splits)
  let ?hit = "login_email r = us_Email u0 \<and> a = bad_credentials"
  have now: "t \<le> ae_now env" using Cons.prems(2) by (simp add: e)
  have "guess_inv u0 t0 st1 (if ?hit then Suc n else n) (if ?hit then ae_now env else t)"
    using Cons.prems(5) by (intro guess_step [OF p Cons.prems(1) now Cons.prems(3)]) (simp add: e rs)
  moreover have "sorted ((if ?hit then ae_now env else t) # map (ae_now \<circ> fst) es @ [t1])"
    using Cons.prems(2) by (auto simp: e o_def)
  moreover have "\<forall>((env, r), a) \<in> set (zip es rs'). login_email r = us_Email u0 \<longrightarrow> (\<forall>c. a \<noteq> SignedIn c)"
    using Cons.prems(5) by (simp add: e rs)
  ultimately obtain t' where "guess_inv u0 t0 st' ((if ?hit then Suc n else n) + wrong_guesses (us_Email u0) es rs') t'"
    "t' \<le> t1"
    using Cons.IH [OF _ _ Cons.prems(3) l] by blast
  then show ?case by (auto simp: wrong_guesses_def e rs split: if_splits)
qed


definition ann_typo :: request where
  "ann_typo = form_request [(''email'', ''a@x''), (''password'', ''guess'')]"

lemma ann_typo_answer: "fst (postLogin ann_env ann_cfg ann_typo ann_state) = bad_credentials"
proof -
  have "GetUserByEmail (as_store ann_state) ''a@x'' = Some ann_user"
    by (simp add: GetUserByEmail_def ann_state_def norm_ann ann_user_def)
  then show ?thesis
    by (simp add: postLogin_def rateLimited_def Let_def ann_typo_def values_get_def norm_ann split_beta)
      (simp add: ann_env_def ann_cfg_def ann_state_def newSlideLimiter_def slide_allow_def Let_def ann_user_def
        isLocked_def)
qed


end
