(* ===== verification/Auth_Links.thy ===== *)
theory Auth_Links
  imports Auth_Accounts Bridge_Tenancy
begin

text \<open>
  The links the auth proxy mails: a link works once and only for its purpose, over any history of
  the handlers; and where a reset link points, together with the bridge and the sandbox's app proxy
  (\<open>pkg/handlers/app_proxy.go\<close>) that the request comes through.
\<close>

section \<open>Histories\<close>

text \<open>One handler run changes the state.\<close>

inductive auth_step :: "auth_cfg \<Rightarrow> auth_env \<Rightarrow> auth_state \<Rightarrow> auth_state \<Rightarrow> bool" for cfg env where
  login: "auth_step cfg env st (snd (postLogin env cfg r st))"
| signup: "auth_step cfg env st (snd (postSignup env cfg r st))"
| forgot: "auth_step cfg env st (snd (postForgot env cfg r st))"
| reset: "auth_step cfg env st (snd (postReset env cfg r st))"
| verify: "auth_step cfg env st (snd (getVerify env r st))"
| callback: "auth_step cfg env st (snd (oauth_callback env cfg providers http name r st))"

inductive auth_run :: "auth_cfg \<Rightarrow> auth_state \<Rightarrow> auth_env list \<Rightarrow> auth_state \<Rightarrow> bool" for cfg st where
  start: "auth_run cfg st [] st"
| more_steps: "auth_run cfg st envs st1 \<Longrightarrow> auth_step cfg env st1 st2 \<Longrightarrow> auth_run cfg st (envs @ [env]) st2"

inductive_cases auth_stepE: "auth_step cfg env st st'"
inductive_simps auth_run_Nil: "auth_run cfg st [] st'"

text \<open>What a handler may do to the token table: leave it, add a fresh token, consume one.\<close>

inductive token_op :: "auth_env \<Rightarrow> email_token list \<Rightarrow> email_token list \<Rightarrow> bool" for env where
  keep [intro!, simp]: "token_op env ts ts"
| create: "CreateEmailToken s uid purpose (ae_sha env (ae_raw env)) expires = (ok, s') \<Longrightarrow>
    token_op env (st_tokens s) (st_tokens s')"
| consume: "ConsumeEmailToken s (ae_now env) purpose hash = Inr (uid, s') \<Longrightarrow>
    token_op env (st_tokens s) (st_tokens s')"

lemma update_user_tokens [simp]: "st_tokens (update_user s uid f) = st_tokens s"
  by (simp add: update_user_def)

lemma store_updates_tokens [simp]:
  "st_tokens (MarkEmailVerified s uid) = st_tokens s"
  "st_tokens (RecordLoginFailure s uid n l) = st_tokens s"
  "st_tokens (ResetLoginAttempts s uid) = st_tokens s"
  by (simp_all add: MarkEmailVerified_def RecordLoginFailure_def ResetLoginAttempts_def)

lemma UpdatePassword_tokens: "UpdatePassword bcrypt s uid pw = Inr s' \<Longrightarrow> st_tokens s' = st_tokens s"
  by (auto simp: UpdatePassword_def split: if_splits option.splits)

lemma CreateUserPassword_tokens:
  "CreateUserPassword bcrypt uid now s email pw name = Inr (u, s') \<Longrightarrow> st_tokens s' = st_tokens s"
  by (auto simp: CreateUserPassword_def Let_def split: if_splits option.splits)

lemma UpsertUserFromOAuth_tokens:
  "UpsertUserFromOAuth uid now s provider pid email name = (u, s') \<Longrightarrow> st_tokens s' = st_tokens s"
  by (auto simp: UpsertUserFromOAuth_def Let_def split: if_splits option.splits)

lemma send_link_op:
  "token_op env (st_tokens (as_store st)) (st_tokens (as_store (send_link env cfg r u purpose ttl path st)))"
  by (auto simp: send_link_def intro: create split: prod.split bool.split)

lemmas mail_op = send_link_op [of _ _ _ _ _ purposeReset resetTokenTTL "''/auth/reset?token=''", folded sendResetEmail_def]
  send_link_op [of _ _ _ _ _ purposeVerify verifyTokenTTL "''/auth/verify?token=''", folded sendVerifyEmail_def]

lemma rateLimited_store: "rateLimited env r st = (b, st') \<Longrightarrow> as_store st' = as_store st"
  by (auto simp: rateLimited_def Let_def split: prod.splits)

lemma login_op: "token_op env (st_tokens (as_store st)) (st_tokens (as_store (snd (postLogin env cfg r st))))"
proof -
  obtain b st0 where l: "rateLimited env r st = (b, st0)" by fastforce
  show ?thesis
    using mail_op(2) [of env st0 cfg r] rateLimited_store [OF l]
    by (auto simp: postLogin_def l Let_def recordLoginFailure_def split: option.split)
qed

lemma signup_op: "token_op env (st_tokens (as_store st)) (st_tokens (as_store (snd (postSignup env cfg r st))))"
proof -
  obtain b st0 where l: "rateLimited env r st = (b, st0)" by fastforce
  have "token_op env (st_tokens s) (st_tokens (as_store (sendVerifyEmail env cfg r u (st0\<lparr>as_store := s\<rparr>))))" for s u
    using mail_op(2) [of env "st0\<lparr>as_store := s\<rparr>" cfg r u] by simp
  then show ?thesis
    using rateLimited_store [OF l] CreateUserPassword_tokens
    by (auto simp: postSignup_def l Let_def split: option.split sum.split store_error.split)
      (metis CreateUserPassword_tokens)
qed

lemma forgot_op: "token_op env (st_tokens (as_store st)) (st_tokens (as_store (snd (postForgot env cfg r st))))"
proof -
  obtain b st0 where l: "rateLimited env r st = (b, st0)" by fastforce
  show ?thesis
    using mail_op(1) [of env st0 cfg r] rateLimited_store [OF l]
    by (auto simp: postForgot_def l Let_def split: option.split)
qed

lemma consume_update: "ConsumeEmailToken s (ae_now env) purpose hash = Inr (uid, s1) \<Longrightarrow>
    UpdatePassword bcrypt s1 uid pw = Inr s' \<Longrightarrow> token_op env (st_tokens s) (st_tokens s')"
  using consume UpdatePassword_tokens by fastforce

lemma reset_op: "token_op env (st_tokens (as_store st)) (st_tokens (as_store (snd (postReset env cfg r st))))"
proof -
  obtain b st0 where l: "rateLimited env r st = (b, st0)" by fastforce
  show ?thesis
    using rateLimited_store [OF l]
    by (auto simp: postReset_def l Let_def intro: consume consume_update
        split: option.split sum.split store_error.split prod.split)
qed

lemma verify_op: "token_op env (st_tokens (as_store st)) (st_tokens (as_store (snd (getVerify env r st))))"
  by (auto simp: getVerify_def Let_def intro: consume split: sum.split)

lemma callback_op:
  "token_op env (st_tokens (as_store st)) (st_tokens (as_store (snd (oauth_callback env cfg providers http name r st))))"
  by (auto simp: oauth_callback_def Let_def dest: UpsertUserFromOAuth_tokens split: option.split prod.split)

lemma step_token_op:
  "auth_step cfg env st st' \<Longrightarrow> token_op env (st_tokens (as_store st)) (st_tokens (as_store st'))"
  by (cases rule: auth_step.cases, assumption)
    (simp_all add: login_op signup_op forgot_op reset_op verify_op callback_op)


section \<open>A link works once\<close>

text \<open>Token hashes are the table's primary key; and a token is spent when every row of its hash has
  been used.\<close>

definition tokens_wf :: "email_token list \<Rightarrow> bool" where
  "tokens_wf ts \<longleftrightarrow> distinct (map et_Hash ts)"

definition token_spent :: "string \<Rightarrow> email_token list \<Rightarrow> bool" where
  "token_spent h ts \<longleftrightarrow> (\<forall>t \<in> set ts. et_Hash t = h \<longrightarrow> et_Used t \<noteq> None)"

lemma ConsumeEmailToken_Inr:
  assumes "ConsumeEmailToken s now purpose h = Inr (uid, s')" and "tokens_wf (st_tokens s)"
  shows "\<exists>t \<in> set (st_tokens s). token_usable now purpose h t \<and> et_User t = uid"
    and "token_spent h (st_tokens s')" and "tokens_wf (st_tokens s')" and "st_users s' = st_users s"
proof -
  let ?mark = "\<lambda>t. if token_usable now purpose h t then t\<lparr>et_Used := Some now\<rparr> else t"
  have ex: "list_ex (token_usable now purpose h) (st_tokens s)"
    and s': "s' = s\<lparr>st_tokens := map ?mark (st_tokens s)\<rparr>"
    and find: "\<exists>t'. find (\<lambda>t. et_Hash t = h) (map ?mark (st_tokens s)) = Some t' \<and> et_User t' = uid"
    using assms(1) by (auto simp: ConsumeEmailToken_def Let_def split: if_splits option.splits)
  obtain t where t: "t \<in> set (st_tokens s)" "token_usable now purpose h t"
    using ex by (auto simp: list_ex_iff)
  have uniq: "t2 = t" if "t2 \<in> set (st_tokens s)" "et_Hash t2 = h" for t2
    using distinct_map_eq [of et_Hash, OF _ that(1) t(1)] assms(2) that(2) t(2) by (simp add: tokens_wf_def token_usable_def)
  obtain t2 where t2: "t2 \<in> set (st_tokens s)" "et_Hash (?mark t2) = h" "et_User (?mark t2) = uid"
    using find by (auto simp: find_Some_iff) (metis nth_mem)+
  then have "et_User t = uid" using uniq [of t2] by (auto split: if_splits)
  with t show "\<exists>t \<in> set (st_tokens s). token_usable now purpose h t \<and> et_User t = uid" by blast
  have "token_usable now purpose h t2" if "t2 \<in> set (st_tokens s)" "et_Hash t2 = h" for t2
    using uniq [OF that] t(2) by simp
  then show "token_spent h (st_tokens s')" by (auto simp: token_spent_def s')
  show "tokens_wf (st_tokens s')"
    using assms(2) by (simp add: s' tokens_wf_def o_def if_distrib cong: if_cong)
  show "st_users s' = st_users s" by (simp add: s')
qed

lemma ConsumeEmailToken_spent:
  "token_spent h (st_tokens s) \<Longrightarrow> ConsumeEmailToken s now purpose h = Inl ErrTokenInvalid"
  by (auto simp: ConsumeEmailToken_def token_spent_def token_usable_def list_ex_iff)

lemma token_op_inv:
  assumes "token_op env ts ts'" and "tokens_wf ts"
  shows "tokens_wf ts'" and "token_spent h ts \<Longrightarrow> ae_sha env (ae_raw env) \<noteq> h \<Longrightarrow> token_spent h ts'"
proof -
  have "tokens_wf ts' \<and> (token_spent h ts \<longrightarrow> ae_sha env (ae_raw env) \<noteq> h \<longrightarrow> token_spent h ts')"
    using assms
  proof cases
    case keep
    then show ?thesis using assms(2) by simp
  next
    case (create s uid purpose expires ok s')
    let ?kept = "filter (\<lambda>t. \<not> (et_User t = uid \<and> et_Purpose t = purpose)) ts"
    let ?h = "ae_sha env (ae_raw env)"
    have k: "distinct (map et_Hash ?kept)" "set ?kept \<subseteq> set ts"
      using assms(2) by (simp add: tokens_wf_def distinct_map_filter, auto)
    define kept where "kept = ?kept"
    have "ts' = kept \<or> \<not> list_ex (\<lambda>t. et_Hash t = ?h) kept \<and>
        ts' = kept @ [\<lparr>et_Hash = ?h, et_User = uid, et_Purpose = purpose, et_Expires = expires, et_Used = None\<rparr>]"
      using create unfolding kept_def
      by (auto simp: CreateEmailToken_def Let_def simp del: de_Morgan_conj split: if_split_asm)
    then show ?thesis
      using k unfolding kept_def [symmetric] tokens_wf_def token_spent_def list_ex_iff by (elim disjE; force)
  next
    case (consume s purpose hash uid s')
    note c = ConsumeEmailToken_Inr [OF consume(3)]
    have "token_spent h ts'" if "token_spent h ts"
      using consume that
      by (auto simp: ConsumeEmailToken_def token_spent_def Let_def split: if_splits option.splits)
    then show ?thesis using c(3) assms(2) consume by simp
  qed
  then show "tokens_wf ts'" "token_spent h ts \<Longrightarrow> ae_sha env (ae_raw env) \<noteq> h \<Longrightarrow> token_spent h ts'"
    by blast+
qed

lemma run_tokens_wf: "auth_run cfg st envs st' \<Longrightarrow> tokens_wf (st_tokens (as_store st)) \<Longrightarrow> tokens_wf (st_tokens (as_store st'))"
  by (induction rule: auth_run.induct) (auto dest: step_token_op intro: token_op_inv)

lemma run_token_spent:
  "auth_run cfg st envs st' \<Longrightarrow> tokens_wf (st_tokens (as_store st)) \<Longrightarrow> token_spent h (st_tokens (as_store st))
    \<Longrightarrow> \<forall>env \<in> set envs. ae_sha env (ae_raw env) \<noteq> h \<Longrightarrow> token_spent h (st_tokens (as_store st'))"
proof (induction rule: auth_run.induct)
  case (more_steps envs st1 env st2)
  then show ?case
    using token_op_inv(2) [OF step_token_op [OF more_steps.hyps(2)]] run_tokens_wf [OF more_steps.hyps(1)] by simp
qed simp

text \<open>What a successful reset has done.\<close>

lemma postReset_success:
  assumes "postReset env cfg r st = (GoTo l, st')"
  obtains uid s where "ConsumeEmailToken (as_store st) (ae_now env) purposeReset
      (ae_sha env (trim_space (any_form_value r ''token''))) = Inr (uid, s)"
    and "UpdatePassword (ae_bcrypt env) s uid (any_form_value r ''password'') = Inr (as_store st')"
    and "validatePassword (any_form_value r ''password'') = None"
proof -
  obtain b st0 where lim: "rateLimited env r st = (b, st0)" by fastforce
  show thesis
    using assms rateLimited_store [OF lim]
    by (auto simp: postReset_def lim Let_def
        split: option.splits sum.splits store_error.splits prod.splits if_splits intro: that)
qed

lemma postReset_spent:
  assumes "token_spent (ae_sha env (trim_space (any_form_value r ''token''))) (st_tokens (as_store st))"
  shows "fst (postReset env cfg r st) \<noteq> GoTo l" and "as_store (snd (postReset env cfg r st)) = as_store st"
proof -
  obtain b st0 where lim: "rateLimited env r st = (b, st0)" by fastforce
  show "fst (postReset env cfg r st) \<noteq> GoTo l" "as_store (snd (postReset env cfg r st)) = as_store st"
    using ConsumeEmailToken_spent [OF assms] rateLimited_store [OF lim]
    by (auto simp: postReset_def lim Let_def split: option.split)
qed

lemma getVerify_spent:
  assumes "token_spent (ae_sha env (trim_space (values_get (rq_Query r) ''token''))) (st_tokens (as_store st))"
  shows "fst (getVerify env r st) \<noteq> GoTo l" and "as_store (snd (getVerify env r st)) = as_store st"
  using ConsumeEmailToken_spent [OF assms] by (auto simp: getVerify_def Let_def)


text \<open>C4: A reset link works once. In any history of the auth proxy that starts with an empty token
  table, a reset that succeeds presented a token that had been mailed for a reset, was unused and
  not expired; it gave the password that was asked for to the user the token was mailed to, lifted
  a lock on that account and touched no other user; and after any further
  handler runs that mint other tokens, presenting the token again, for a reset or for a
  verification, is refused and changes nothing in the store.\<close>

theorem reset_link_once:
  assumes "auth_run cfg st0 envs st" and "st_tokens (as_store st0) = []"
    and "postReset env cfg r st = (GoTo l, st1)"
    and "h = ae_sha env (trim_space (any_form_value r ''token''))"
    and "auth_run cfg st1 envs' st2" and "\<forall>e \<in> set envs'. ae_sha e (ae_raw e) \<noteq> h"
  shows "(\<exists>t \<in> set (st_tokens (as_store st)). et_Hash t = h \<and> et_Purpose t = purposeReset \<and> et_Used t = None
        \<and> ae_now env < et_Expires t
        \<and> (\<exists>hash. ae_bcrypt env (any_form_value r ''password'') = Some hash
            \<and> validatePassword (any_form_value r ''password'') = None
            \<and> st_users (as_store st1) = map (\<lambda>u. if us_ID u = et_User t
                then u\<lparr>us_PasswordHash := hash, us_FailedAttempts := 0, us_LockedUntil := None\<rparr> else u)
                (st_users (as_store st))))
    \<and> (\<forall>env' r' l'. ae_sha env' (trim_space (any_form_value r' ''token'')) = h \<longrightarrow>
        fst (postReset env' cfg r' st2) \<noteq> GoTo l' \<and> as_store (snd (postReset env' cfg r' st2)) = as_store st2)
    \<and> (\<forall>env' r' l'. ae_sha env' (trim_space (values_get (rq_Query r') ''token'')) = h \<longrightarrow>
        fst (getVerify env' r' st2) \<noteq> GoTo l' \<and> as_store (snd (getVerify env' r' st2)) = as_store st2)"
proof -
  have wf: "tokens_wf (st_tokens (as_store st))"
    using run_tokens_wf [OF assms(1)] assms(2) by (simp add: tokens_wf_def)
  from assms(3) obtain uid s where c: "ConsumeEmailToken (as_store st) (ae_now env) purposeReset h = Inr (uid, s)"
    and u: "UpdatePassword (ae_bcrypt env) s uid (any_form_value r ''password'') = Inr (as_store st1)"
    and v: "validatePassword (any_form_value r ''password'') = None"
    unfolding assms(4) by (rule postReset_success)
  note ce = ConsumeEmailToken_Inr [OF c wf]
  have "tokens_wf (st_tokens (as_store st1))" "token_spent h (st_tokens (as_store st1))"
    using ce(2,3) UpdatePassword_tokens [OF u] by simp_all
  then have spent: "token_spent h (st_tokens (as_store st2))"
    by (rule run_token_spent [OF assms(5) _ _ assms(6)])
  obtain hash where hash: "ae_bcrypt env (any_form_value r ''password'') = Some hash"
    and st1: "as_store st1 = update_user s uid (\<lambda>u. u\<lparr>us_PasswordHash := hash, us_FailedAttempts := 0, us_LockedUntil := None\<rparr>)"
    using u by (auto simp: UpdatePassword_def split: if_splits option.splits)
  from ce(1) obtain t where t: "t \<in> set (st_tokens (as_store st))" "token_usable (ae_now env) purposeReset h t"
    "et_User t = uid" by blast
  with hash v st1 ce(4)
  have "\<exists>t \<in> set (st_tokens (as_store st)). et_Hash t = h \<and> et_Purpose t = purposeReset \<and> et_Used t = None
        \<and> ae_now env < et_Expires t
        \<and> (\<exists>hash. ae_bcrypt env (any_form_value r ''password'') = Some hash
            \<and> validatePassword (any_form_value r ''password'') = None
            \<and> st_users (as_store st1) = map (\<lambda>u. if us_ID u = et_User t
                then u\<lparr>us_PasswordHash := hash, us_FailedAttempts := 0, us_LockedUntil := None\<rparr> else u)
                (st_users (as_store st)))"
    by (intro bexI [of _ t]) (auto simp: token_usable_def update_user_def)
  moreover have "fst (postReset env' cfg r' st2) \<noteq> GoTo l' \<and> as_store (snd (postReset env' cfg r' st2)) = as_store st2"
    if "ae_sha env' (trim_space (any_form_value r' ''token'')) = h" for env' r' l'
    using spent that by (simp add: postReset_spent)
  moreover have "fst (getVerify env' r' st2) \<noteq> GoTo l' \<and> as_store (snd (getVerify env' r' st2)) = as_store st2"
    if "ae_sha env' (trim_space (values_get (rq_Query r') ''token'')) = h" for env' r' l'
    using spent that by (simp add: getVerify_spent)
  ultimately show ?thesis by blast
qed

text \<open>The sample account forgets its password and resets it.\<close>

definition ann_forgot :: request where
  "ann_forgot = form_request [(''email'', ''a@x'')]"

definition ann_reset :: request where
  "ann_reset = form_request [(''token'', ''raw''), (''password'', ''horse battery''), (''confirm'', ''horse battery'')]"

definition ann_asked :: auth_state where
  "ann_asked = snd (postForgot ann_env ann_cfg ann_forgot ann_state)"

lemma ann_asked_store: "as_store ann_asked = \<lparr>st_users = [ann_user], st_tokens =
    [\<lparr>et_Hash = ''sraw'', et_User = ''1'', et_Purpose = purposeReset, et_Expires = 3700, et_Used = None\<rparr>]\<rparr>"
  and ann_asked_limiter: "sl_max (as_limiter ann_asked) = 20" "sl_window (as_limiter ann_asked) = 60"
    "sl_hits (as_limiter ann_asked) [] = Some [100]"
proof -
  have f: "GetUserByEmail (as_store ann_state) ''a@x'' = Some ann_user"
    by (simp add: GetUserByEmail_def ann_state_def norm_ann ann_user_def)
  have l: "rateLimited ann_env ann_forgot ann_state =
      (False, ann_state\<lparr>as_limiter := \<lparr>sl_hits = [[] \<mapsto> [100]], sl_max = 20, sl_window = 60\<rparr>\<rparr>)"
    by (simp add: rateLimited_def ann_env_def ann_state_def ann_forgot_def newSlideLimiter_def slide_allow_def Let_def)
  have a: "ann_asked = sendResetEmail ann_env ann_cfg ann_forgot ann_user
      (ann_state\<lparr>as_limiter := \<lparr>sl_hits = [[] \<mapsto> [100]], sl_max = 20, sl_window = 60\<rparr>\<rparr>)"
    unfolding ann_asked_def postForgot_def l
    by (simp add: f ann_forgot_def values_get_def norm_ann Let_def) (simp add: ann_env_def)
  show "as_store ann_asked = \<lparr>st_users = [ann_user], st_tokens =
      [\<lparr>et_Hash = ''sraw'', et_User = ''1'', et_Purpose = purposeReset, et_Expires = 3700, et_Used = None\<rparr>]\<rparr>"
    "sl_max (as_limiter ann_asked) = 20" "sl_window (as_limiter ann_asked) = 60"
    "sl_hits (as_limiter ann_asked) [] = Some [100]"
    unfolding a by (simp_all add: sendResetEmail_def send_link_def ann_cfg_def ann_env_def CreateEmailToken_def
        ann_state_def ann_user_def resetTokenTTL_def)
qed

lemma ann_asked_run: "auth_run ann_cfg ann_state [ann_env] ann_asked"
  using auth_run.more_steps [OF auth_run.start auth_step.forgot] by (simp add: ann_asked_def)

lemma ann_reset_works: "\<exists>l st1. postReset ann_env ann_cfg ann_reset ann_asked = (GoTo l, st1)"
proof -
  have t: "trim_space ''raw'' = ''raw''" "validatePassword ''horse battery'' = None" by code_simp+
  have l: "slide_allow (as_limiter ann_asked) [] 100 = (True, snd (slide_allow (as_limiter ann_asked) [] 100))"
    by (simp add: slide_allow_def Let_def ann_asked_limiter)
  define st where "st = ann_asked\<lparr>as_limiter := snd (slide_allow (as_limiter ann_asked) [] 100)\<rparr>"
  have lim: "rateLimited ann_env ann_reset ann_asked = (False, st)"
    by (simp add: rateLimited_def ann_reset_def ann_env_def st_def) (subst l, simp)
  have "\<exists>s. ConsumeEmailToken (as_store st) 100 purposeReset ''sraw'' = Inr (''1'', s) \<and> st_users s = [ann_user]"
    by (simp add: st_def ann_asked_store ConsumeEmailToken_def token_usable_def)
  then obtain s where c: "ConsumeEmailToken (as_store st) 100 purposeReset ''sraw'' = Inr (''1'', s)" "st_users s = [ann_user]"
    by blast
  have "\<exists>s'. UpdatePassword (ae_bcrypt ann_env) s ''1'' ''horse battery'' = Inr s'"
    by (simp add: UpdatePassword_def c ann_env_def) (simp add: ann_user_def)
  moreover have "ae_now ann_env = 100" "ae_mac ann_env = len_mac" "ae_db ann_env" "ae_sha ann_env ''raw'' = ''sraw''"
    "ac_Secret ann_cfg = ''k''"
    by (simp_all add: ann_env_def ann_cfg_def)
  ultimately show ?thesis
    using t by (auto simp: postReset_def lim Let_def c) (auto simp: ann_reset_def values_get_def c t)
qed

lemma reset_link_once_witness:
  "\<exists>l st1. postReset ann_env ann_cfg ann_reset ann_asked = (GoTo l, st1)
     \<and> fst (postReset ann_env ann_cfg ann_reset st1) \<noteq> GoTo l"
proof -
  obtain l st1 where r: "postReset ann_env ann_cfg ann_reset ann_asked = (GoTo l, st1)"
    using ann_reset_works by blast
  have "st_tokens (as_store ann_state) = []" by (simp add: ann_state_def)
  from reset_link_once [OF ann_asked_run this r refl auth_run.start] r show ?thesis by auto
qed

section \<open>Where a reset link points\<close>

text \<open>\<open>AppProxyHandler\<close>: the request that reaches the app's port.\<close>

definition AppProxyHandler :: "string \<Rightarrow> string \<Rightarrow> request \<Rightarrow> request verdict" where
  "AppProxyHandler port rest r =
     (case parse_int port of
        None \<Rightarrow> Reply StatusBadRequest ''invalid port''
      | Some p \<Rightarrow>
          if p < 1 \<or> p > 65535 then Reply StatusBadRequest ''invalid port''
          else Pass (r\<lparr>rq_URLHost := ''127.0.0.1:'' @ format_int p, rq_Host := ''127.0.0.1:'' @ format_int p,
                 rq_Path := (if has_prefix rest ''/'' then rest else ''/'' @ rest), rq_TLS := None\<rparr>))"

lemma deploy_header_forwarded:
  assumes "hget (rq_Header r) ''X-Forwarded-Host'' = evil" and "evil \<noteq> []"
  shows "hget (deploy_header badge r) ''X-Forwarded-Host'' = evil"
    and "hget (rq_Header r) ''X-Forwarded-Proto'' = [] \<Longrightarrow> hget (deploy_header badge r) ''X-Forwarded-Proto'' = ''https''"
    and "hget (deploy_header badge r) ''Origin'' = hget (rq_Header r) ''Origin''"
proof -
  have k: "canon_key ''Accept-Encoding'' = ''Accept-Encoding''" "canon_key ''Cookie'' = ''Cookie''"
    "canon_key ''Authorization'' = ''Authorization''" "canon_key ''X-Forwarded-Proto'' = ''X-Forwarded-Proto''"
    by code_simp+
  show "hget (deploy_header badge r) ''X-Forwarded-Host'' = evil"
    "hget (rq_Header r) ''X-Forwarded-Proto'' = [] \<Longrightarrow> hget (deploy_header badge r) ''X-Forwarded-Proto'' = ''https''"
    "hget (deploy_header badge r) ''Origin'' = hget (rq_Header r) ''Origin''"
    using assms by (simp_all add: deploy_header_def Let_def k)
qed

lemma evil_origin:
  assumes "hget (rq_Header r) ''X-Forwarded-Host'' = evil" and "evil \<noteq> []"
    and "hget (rq_Header r) ''Origin'' = ''https://'' @ evil" and "url_host (''https://'' @ evil) = Some evil"
  shows "validateSameOrigin r = None"
proof -
  have "lower_char (CHR ''h'') = CHR ''h''" by code_simp
  then have "to_lower (''https://'' @ evil) \<noteq> ''null''" by (simp add: to_lower_def)
  with assms show ?thesis
    by (simp add: validateSameOrigin_def publicHost_def checkOriginHost_def Let_def) (simp add: to_lower_def)
qed

text \<open>Whoever asks for a password reset decides where its link leads. Neither the bridge, which
  stamps the host of a visitor's request only when it finds none, nor the app proxy replaces a
  host that the client itself put into its headers; the auth proxy takes that host for its own, both when
  it checks where the request came from and when it builds the link; so the mail with the secret
  token that goes to the account's owner leads to the requester's host.\<close>

theorem reset_link_poisoned:
  assumes "HandleDeployment b r = Pass (c, u, badge)"
    and "AppProxyHandler port rest (r\<lparr>rq_Header := up_Header u\<rparr>) = Pass r2"
    and "hget (rq_Header r) ''X-Forwarded-Host'' = evil" and "evil \<noteq> []" and "CHR ''/'' \<notin> set evil"
    and "hget (rq_Header r) ''Origin'' = ''https://'' @ evil" and "url_host (''https://'' @ evil) = Some evil"
    and "hget (rq_Header r) ''X-Forwarded-Proto'' = []"
    and "fst (slide_allow (as_limiter st) (remoteIP r2) (ae_now env))" and "ae_db env" and "ac_Email cfg"
    and "login_email r \<noteq> []" and "GetUserByEmail (as_store st) (login_email r) = Some v"
    and "fst (CreateEmailToken (as_store st) (us_ID v) purposeReset (ae_sha env (ae_raw env))
      (ae_now env + resetTokenTTL))"
  shows "as_outbox (snd (postForgot env cfg r2 st)) =
    as_outbox st @ [(us_Email v, ''https://'' @ evil @ ''/auth/reset?token='' @ ae_raw env)]"
proof -
  from assms(1) have h: "up_Header u = deploy_header badge r" by (rule deployment_pass)
  obtain p where r2: "r2 = r\<lparr>rq_Header := up_Header u, rq_URLHost := ''127.0.0.1:'' @ format_int p,
      rq_Host := ''127.0.0.1:'' @ format_int p, rq_Path := (if has_prefix rest ''/'' then rest else ''/'' @ rest),
      rq_TLS := None\<rparr>"
    using assms(2) by (auto simp: AppProxyHandler_def split: option.splits if_splits)
  note f = deploy_header_forwarded [OF assms(3,4), of badge]
  have hdr: "hget (rq_Header r2) ''X-Forwarded-Host'' = evil" "hget (rq_Header r2) ''X-Forwarded-Proto'' = ''https''"
    "hget (rq_Header r2) ''Origin'' = ''https://'' @ evil"
    using f(1,3) f(2) [OF assms(8)] assms(6) by (simp_all add: r2 h)
  have form: "any_form_value r2 k = any_form_value r k" for k
    by (simp add: r2 any_form_value_def)
  have "validateSameOrigin r2 = None" by (rule evil_origin [OF hdr(1) assms(4) hdr(3) assms(7)])
  moreover have "dropWhile (\<lambda>c. c = CHR ''/'') (rev evil) = rev evil"
    using assms(5) last_in_set [OF assms(4)] by (auto simp: dropWhile_eq_self_iff hd_rev)
  then have "publicBaseURL r2 = ''https://'' @ evil"
    by (simp add: publicBaseURL_def Let_def hdr assms(4) go_strings)
  moreover obtain st1 where l: "rateLimited env r2 st = (False, st1)" "as_store st1 = as_store st" "as_outbox st1 = as_outbox st"
    using assms(9) by (cases "slide_allow (as_limiter st) (remoteIP r2) (ae_now env)") (simp add: rateLimited_def Let_def)
  moreover obtain s where "CreateEmailToken (as_store st) (us_ID v) purposeReset (ae_sha env (ae_raw env))
      (ae_now env + resetTokenTTL) = (True, s)"
    using assms(14) by (metis prod.collapse)
  ultimately show ?thesis
    using assms(10-13) by (simp add: postForgot_def form Let_def sendResetEmail_def send_link_def)
qed

definition evil_request :: request where
  "evil_request = blank_request\<lparr>rq_Host := ''a.dev'',
     rq_Header := hset (hset Map.empty ''Origin'' ''https://evil.net'') ''X-Forwarded-Host'' ''evil.net'',
     rq_Form := Some [(''email'', ''a@x'')]\<rparr>"

lemma reset_link_poisoned_witness:
  "\<exists>r2. as_outbox (snd (postForgot ann_env ann_cfg r2 ann_state)) =
     [(''a@x'', ''https://evil.net/auth/reset?token=raw'')]"
proof -
  have l: "to_lower ''a.dev'' = ''a.dev''" and p: "equal_fold ''public'' ''public''"
    and c: "cut_port ''a.dev'' = ''a.dev''" and x: "canon_key ''X-Forwarded-Proto'' = ''X-Forwarded-Proto''"
    and uh: "url_host (''https://'' @ ''evil.net'') = Some ''evil.net''" by code_simp+
  obtain u where pass: "HandleDeployment acme_broker evil_request = Pass (acme_conn, u, True)"
    by (simp add: HandleDeployment_def acme_broker_fields reg_Lookup_def l c p acme_route_def
        acme_conn_def deploy_upstream_path_def Let_def evil_request_def)
  obtain r2 where app: "AppProxyHandler (format_int 80) ''/auth/forgot'' (evil_request\<lparr>rq_Header := up_Header u\<rparr>) = Pass r2"
    by (simp add: AppProxyHandler_def parse_int_format)
  have h: "hget (rq_Header evil_request) ''X-Forwarded-Host'' = ''evil.net''"
    "hget (rq_Header evil_request) ''Origin'' = ''https://'' @ ''evil.net''"
    "hget (rq_Header evil_request) ''X-Forwarded-Proto'' = []"
    by (simp_all add: evil_request_def x)
  have f: "login_email evil_request = ''a@x''"
    by (simp add: evil_request_def any_form_value_def values_get_def norm_ann)
  have lim: "fst (slide_allow (as_limiter ann_state) (remoteIP r2) (ae_now ann_env))"
    by (simp add: ann_state_def newSlideLimiter_def slide_allow_def Let_def)
  have user: "GetUserByEmail (as_store ann_state) (login_email evil_request) = Some ann_user"
    by (simp add: f GetUserByEmail_def ann_state_def norm_ann ann_user_def)
  have "as_outbox (snd (postForgot ann_env ann_cfg r2 ann_state)) = as_outbox ann_state @
      [(us_Email ann_user, ''https://'' @ ''evil.net'' @ ''/auth/reset?token='' @ ae_raw ann_env)]"
    by (rule reset_link_poisoned [OF pass app h(1) _ _ h(2) uh h(3) lim _ _ _ user])
      (simp_all add: f, simp_all add: ann_env_def ann_cfg_def ann_state_def CreateEmailToken_def)
  then show ?thesis by (auto simp: ann_state_def ann_user_def ann_env_def)
qed

end
