(* ===== verification/Paths.thy ===== *)
theory Paths
  imports GoLib
begin

text \<open>
  Go's lexical paths (\<open>path\<close> and, on Unix, \<open>path/filepath\<close>): a path is cleaned by walking its
  segments with a stack. Facts about cleaned paths that the components share.
\<close>

definition is_abs :: "string \<Rightarrow> bool" where
  "is_abs p \<longleftrightarrow> has_prefix p ''/''"

text \<open>The stack holds the segments kept so far, the last on top.\<close>

fun clean_segs :: "bool \<Rightarrow> string list \<Rightarrow> string list \<Rightarrow> string list" where
  "clean_segs rooted st [] = rev st"
| "clean_segs rooted st (s # ss) =
     (if s = [] \<or> s = ''.'' then clean_segs rooted st ss
      else if s = ''..'' then
        (case st of
           [] \<Rightarrow> clean_segs rooted (if rooted then [] else [s]) ss
         | t # ts \<Rightarrow> if t = ''..'' then clean_segs rooted (s # st) ss else clean_segs rooted ts ss)
      else clean_segs rooted (s # st) ss)"

definition path_clean :: "string \<Rightarrow> string" where
  "path_clean p = (
     let segs = clean_segs (is_abs p) [] (split_on (CHR ''/'') p);
         body = join_str ''/'' segs in
     if is_abs p then ''/'' @ body
     else if segs = [] then ''.'' else body)"

text \<open>\<open>path.Join\<close>: empty elements are left out.\<close>

definition path_join :: "string list \<Rightarrow> string" where
  "path_join ps = (let qs = filter (\<lambda>p. p \<noteq> []) ps in
     if qs = [] then [] else path_clean (join_str ''/'' qs))"

definition segments :: "string \<Rightarrow> string list" where
  "segments p = filter (\<lambda>s. s \<noteq> []) (split_on (CHR ''/'') p)"

definition plain_seg :: "string \<Rightarrow> bool" where
  "plain_seg s \<longleftrightarrow> s \<noteq> [] \<and> s \<noteq> ''.'' \<and> s \<noteq> ''..'' \<and> CHR ''/'' \<notin> set s"

section \<open>Rooted paths\<close>

lemma clean_segs_rooted_plain:
  "list_all plain_seg st \<Longrightarrow> list_all (\<lambda>s. CHR ''/'' \<notin> set s) ss \<Longrightarrow> list_all plain_seg (clean_segs True st ss)"
proof (induction ss arbitrary: st)
  case (Cons s ss)
  then show ?case
    by (cases st) (auto simp: plain_seg_def)
qed (simp add: list_all_iff)

lemma clean_segs_id: "list_all plain_seg ss \<Longrightarrow> clean_segs r st ss = rev st @ ss"
  by (induction ss arbitrary: st) (auto simp: plain_seg_def)

lemma split_on_no_slash: "list_all (\<lambda>s. c \<notin> set s) (split_on c p)"
  by (auto simp: list_all_iff dest: split_on_elem_no_sep)

lemma split_join_segs:
  "list_all (\<lambda>s. c \<notin> set s) ss \<Longrightarrow> ss \<noteq> [] \<Longrightarrow> split_on c (join_str [c] ss) = ss"
proof (induction ss)
  case (Cons s ss)
  then show ?case
    by (cases ss) (auto simp: split_on_no_sep split_on_append)
qed simp

lemma is_abs_slash [simp]: "is_abs (''/'' @ p)" "is_abs (CHR ''/'' # p)"
  by (simp_all add: is_abs_def has_prefix_def)

lemma is_abs_iff: "is_abs p \<longleftrightarrow> (\<exists>q. p = CHR ''/'' # q)"
  by (cases p) (auto simp: is_abs_def has_prefix_def)

lemma clean_rooted_segs:
  assumes "is_abs p"
  obtains segs where "list_all plain_seg segs" and "path_clean p = ''/'' @ join_str ''/'' segs"
proof
  show "list_all plain_seg (clean_segs True [] (split_on (CHR ''/'') p))"
    by (rule clean_segs_rooted_plain) (simp_all add: split_on_no_slash)
  show "path_clean p = ''/'' @ join_str ''/'' (clean_segs True [] (split_on (CHR ''/'') p))"
    using assms by (simp add: path_clean_def)
qed

lemma plain_no_slash: "list_all plain_seg segs \<Longrightarrow> list_all (\<lambda>s. CHR ''/'' \<notin> set s) segs"
  by (auto simp: list_all_iff plain_seg_def)

lemma split_rooted:
  "list_all plain_seg segs \<Longrightarrow> split_on (CHR ''/'') (''/'' @ join_str ''/'' segs) = [] # (if segs = [] then [[]] else segs)"
  using split_join_segs [OF plain_no_slash, of segs] split_on_append [of "CHR ''/''" "[]"] by auto

lemma clean_rooted_id:
  assumes "list_all plain_seg segs"
  shows "path_clean (''/'' @ join_str ''/'' segs) = ''/'' @ join_str ''/'' segs"
  using assms by (auto simp: path_clean_def split_rooted clean_segs_id simp del: append_Cons)

lemma path_clean_idem_abs: "is_abs p \<Longrightarrow> path_clean (path_clean p) = path_clean p"
  using clean_rooted_id by (metis clean_rooted_segs)

text \<open>A clean rooted path is a slash and plain segments.\<close>

lemma clean_abs_iff:
  "is_abs p \<and> path_clean p = p \<longleftrightarrow> (\<exists>segs. list_all plain_seg segs \<and> p = ''/'' @ join_str ''/'' segs)"
  using clean_rooted_segs clean_rooted_id is_abs_slash by metis

end
