(* ===== verification/Prov_Volumes.thy ===== *)
theory Prov_Volumes
  imports Paths
begin

text \<open>
  What a caller may ask of a sandbox (\<open>pkg/provisioner/volumes.go\<close>, \<open>resources.go\<close>): the volumes, their validation
  and their translation, and the resource quantities. Kubernetes' parser of quantities is a
  parameter: \<open>None\<close> when it accepts, else its error.
\<close>

type_synonym quantity_parser = "string \<Rightarrow> string option"

section \<open>Volumes\<close>

record named_source =
  ns_Name :: string
  ns_DefaultMode :: "int option"
  ns_Optional :: "bool option"

record volume =
  vo_Name :: string
  vo_MountPath :: string
  vo_SubPath :: string
  vo_ReadOnly :: bool
  vo_PVC :: "string option" \<comment> \<open>claim name\<close>
  vo_HostPath :: "(string \<times> string) option" \<comment> \<open>path and type\<close>
  vo_ConfigMap :: "named_source option"
  vo_Secret :: "named_source option"
  vo_EmptyDir :: "(string \<times> string) option" \<comment> \<open>medium and size limit\<close>

datatype volume_error =
    NameRequired | NotDNSLabel string | NameTooLong string
  | MountRequired | MountRelative string | MountNotCanonical string string | MountReserved string
  | SubPathAbsolute string | SubPathDotDot string
  | ClaimRequired | HostPathRequired | HostPathRelative string | ConfigMapRequired | SecretRequired
  | BadMedium string | BadSizeLimit string string
  | SourceRequired | TooManySources nat
  | DuplicateName string | DuplicateMount string

definition label_char :: "char \<Rightarrow> bool" where
  "label_char c \<longleftrightarrow> char_within (CHR ''a'') (CHR ''z'') c \<or> is_digit c"

definition dns1123Label :: "string \<Rightarrow> bool" where
  "dns1123Label s \<longleftrightarrow> s \<noteq> [] \<and> list_all (\<lambda>c. label_char c \<or> c = CHR ''-'') s
     \<and> label_char (hd s) \<and> label_char (last s)"

definition reservedMountPaths :: "string set" where
  "reservedMountPaths = {''/'', ''/proc'', ''/sys'', ''/dev''}"

text \<open>The appended defaults are not compared with each other.\<close>

definition mergeDefaultVolumes :: "volume list \<Rightarrow> volume list \<Rightarrow> volume list" where
  "mergeDefaultVolumes req defaults =
     (if defaults = [] then req
      else req @ filter (\<lambda>d. vo_Name d \<notin> set (map vo_Name req) \<and> vo_MountPath d \<notin> set (map vo_MountPath req)) defaults)"

text \<open>Checks in order: the first that objects decides.\<close>

fun first_refusal :: "'e option list \<Rightarrow> 'e option" where
  "first_refusal [] = None"
| "first_refusal (c # cs) = (case c of Some e \<Rightarrow> Some e | None \<Rightarrow> first_refusal cs)"

lemma first_refusal_None [simp]: "first_refusal cs = None \<longleftrightarrow> list_all (\<lambda>c. c = None) cs"
  by (induction cs) (auto split: option.split)

definition sources_set :: "volume \<Rightarrow> nat" where
  "sources_set v = length (filter (\<lambda>b. b) [vo_PVC v \<noteq> None, vo_HostPath v \<noteq> None, vo_ConfigMap v \<noteq> None,
     vo_Secret v \<noteq> None, vo_EmptyDir v \<noteq> None])"

definition hostPath_error :: "string \<Rightarrow> volume_error option" where
  "hostPath_error p = (if p = [] then Some HostPathRequired
     else if \<not> is_abs p then Some (HostPathRelative p) else None)"

definition emptyDir_error :: "quantity_parser \<Rightarrow> string \<Rightarrow> string \<Rightarrow> volume_error option" where
  "emptyDir_error quantity medium limit =
     (if medium \<noteq> [] \<and> medium \<noteq> ''Memory'' then Some (BadMedium medium)
      else if limit \<noteq> [] then map_option (BadSizeLimit limit) (quantity limit) else None)"

definition validateVolumeSource :: "quantity_parser \<Rightarrow> volume \<Rightarrow> volume_error option" where
  "validateVolumeSource quantity v = first_refusal
     [case vo_PVC v of None \<Rightarrow> None | Some c \<Rightarrow> if c = [] then Some ClaimRequired else None,
      case vo_HostPath v of None \<Rightarrow> None | Some (p, t) \<Rightarrow> hostPath_error p,
      case vo_ConfigMap v of None \<Rightarrow> None | Some c \<Rightarrow> if ns_Name c = [] then Some ConfigMapRequired else None,
      case vo_Secret v of None \<Rightarrow> None | Some c \<Rightarrow> if ns_Name c = [] then Some SecretRequired else None,
      case vo_EmptyDir v of None \<Rightarrow> None | Some (medium, limit) \<Rightarrow> emptyDir_error quantity medium limit,
      if sources_set v = 0 then Some SourceRequired else None,
      if sources_set v > 1 then Some (TooManySources (sources_set v)) else None]"

definition validateVolume :: "quantity_parser \<Rightarrow> volume \<Rightarrow> volume_error option" where
  "validateVolume quantity v =
     (if vo_Name v = [] then Some NameRequired
      else if \<not> dns1123Label (vo_Name v) then Some (NotDNSLabel (vo_Name v))
      else if length (vo_Name v) > 63 then Some (NameTooLong (vo_Name v))
      else if vo_MountPath v = [] then Some MountRequired
      else if \<not> is_abs (vo_MountPath v) then Some (MountRelative (vo_MountPath v))
      else if path_clean (vo_MountPath v) \<noteq> vo_MountPath v then
        Some (MountNotCanonical (vo_MountPath v) (path_clean (vo_MountPath v)))
      else if vo_MountPath v \<in> reservedMountPaths then Some (MountReserved (vo_MountPath v))
      else if vo_SubPath v \<noteq> [] \<and> is_abs (vo_SubPath v) then Some (SubPathAbsolute (vo_SubPath v))
      else if vo_SubPath v \<noteq> [] \<and> (has_prefix (vo_SubPath v) ''../'' \<or> vo_SubPath v = ''..''
        \<or> contains_str (vo_SubPath v) ''/../'' \<or> has_suffix (vo_SubPath v) ''/..'') then
        Some (SubPathDotDot (vo_SubPath v))
      else validateVolumeSource quantity v)"

text \<open>The loop over the volumes, with the names and the mounts seen and the index.\<close>

fun validate_loop :: "quantity_parser \<Rightarrow> string set \<Rightarrow> string set \<Rightarrow> nat \<Rightarrow> volume list \<Rightarrow> (nat \<times> volume_error) option" where
  "validate_loop quantity names mounts i [] = None"
| "validate_loop quantity names mounts i (v # vs) =
     (case validateVolume quantity v of
        Some e \<Rightarrow> Some (i, e)
      | None \<Rightarrow>
          if vo_Name v \<in> names then Some (i, DuplicateName (vo_Name v))
          else if vo_MountPath v \<in> mounts then Some (i, DuplicateMount (vo_MountPath v))
          else validate_loop quantity (insert (vo_Name v) names) (insert (vo_MountPath v) mounts) (Suc i) vs)"

definition validateVolumes :: "quantity_parser \<Rightarrow> volume list \<Rightarrow> (nat \<times> volume_error) option" where
  "validateVolumes quantity vols = validate_loop quantity {} {} 0 vols"

text \<open>\<open>buildVolumes\<close>: the Kubernetes volume and the mount of each.\<close>

datatype k8s_source =
    K8sPVC string bool
  | K8sHostPath string string
  | K8sConfigMap named_source
  | K8sSecret named_source
  | K8sEmptyDir string "string option"

record volume_mount =
  vm_Name :: string
  vm_MountPath :: string
  vm_SubPath :: string
  vm_ReadOnly :: bool

definition buildVolumeSource :: "quantity_parser \<Rightarrow> volume \<Rightarrow> volume_error + k8s_source" where
  "buildVolumeSource quantity v =
     (case vo_PVC v of Some c \<Rightarrow> Inr (K8sPVC c (vo_ReadOnly v))
      | None \<Rightarrow> (case vo_HostPath v of Some (p, t) \<Rightarrow> Inr (K8sHostPath p t)
      | None \<Rightarrow> (case vo_ConfigMap v of Some c \<Rightarrow> Inr (K8sConfigMap c)
      | None \<Rightarrow> (case vo_Secret v of Some c \<Rightarrow> Inr (K8sSecret c)
      | None \<Rightarrow> (case vo_EmptyDir v of
          Some (medium, limit) \<Rightarrow>
            if limit = [] then Inr (K8sEmptyDir medium None)
            else (case quantity limit of
                Some e \<Rightarrow> Inl (BadSizeLimit limit e)
              | None \<Rightarrow> Inr (K8sEmptyDir medium (Some limit)))
        | None \<Rightarrow> Inl SourceRequired)))))"

fun buildVolumes :: "quantity_parser \<Rightarrow> volume list \<Rightarrow> volume_error + ((string \<times> k8s_source) \<times> volume_mount) list" where
  "buildVolumes quantity [] = Inr []"
| "buildVolumes quantity (v # vs) =
     (case buildVolumeSource quantity v of
        Inl e \<Rightarrow> Inl e
      | Inr src \<Rightarrow> map_sum id (Cons ((vo_Name v, src),
          \<lparr>vm_Name = vo_Name v, vm_MountPath = vo_MountPath v, vm_SubPath = vo_SubPath v, vm_ReadOnly = vo_ReadOnly v\<rparr>))
          (buildVolumes quantity vs))"

section \<open>Resources\<close>

record resource_list =
  rl_CPU :: string
  rl_Memory :: string
  rl_EphemeralStorage :: string
  rl_GPU :: string

record resources =
  rs_Requests :: "resource_list option"
  rs_Limits :: "resource_list option"

datatype resource_name = ResourceCPU | ResourceMemory | ResourceEphemeralStorage | GPUResource

type_synonym requirements = "(resource_name \<rightharpoonup> string) \<times> (resource_name \<rightharpoonup> string)"

definition prov_envOr :: "(string \<Rightarrow> string) \<Rightarrow> string \<Rightarrow> string \<Rightarrow> string" where
  "prov_envOr env key fallback = (if env key \<noteq> [] then env key else fallback)"

text \<open>\<open>None\<close>: \<open>resource.MustParse\<close> panics.\<close>

definition defaultResources :: "quantity_parser \<Rightarrow> (string \<Rightarrow> string) \<Rightarrow> requirements option" where
  "defaultResources quantity env =
     (let req = [prov_envOr env ''SANDBOX_DEFAULT_CPU_REQUEST'' ''1'', prov_envOr env ''SANDBOX_DEFAULT_MEMORY_REQUEST'' ''2Gi'',
            prov_envOr env ''SANDBOX_DEFAULT_STORAGE_REQUEST'' ''8Gi''];
          lim = [prov_envOr env ''SANDBOX_DEFAULT_CPU_LIMIT'' ''8'', prov_envOr env ''SANDBOX_DEFAULT_MEMORY_LIMIT'' ''12Gi'',
            prov_envOr env ''SANDBOX_DEFAULT_STORAGE_LIMIT'' ''32Gi'']
      in if list_all (\<lambda>q. quantity q = None) (req @ lim) then
           Some (map_of (zip [ResourceCPU, ResourceMemory, ResourceEphemeralStorage] req),
                 map_of (zip [ResourceCPU, ResourceMemory, ResourceEphemeralStorage] lim))
         else None)"

text \<open>The error names the field, the text and what the parser said.\<close>

fun apply_fields :: "quantity_parser \<Rightarrow> (resource_name \<rightharpoonup> string) \<Rightarrow> (resource_name \<times> string) list
    \<Rightarrow> (resource_name \<times> string \<times> string) + (resource_name \<rightharpoonup> string)" where
  "apply_fields quantity dst [] = Inr dst"
| "apply_fields quantity dst ((k, v) # fs) =
     (if v = [] then apply_fields quantity dst fs
      else (case quantity v of Some e \<Rightarrow> Inl (k, v, e) | None \<Rightarrow> apply_fields quantity (dst(k \<mapsto> v)) fs))"

definition applyResourceList :: "quantity_parser \<Rightarrow> (resource_name \<rightharpoonup> string) \<Rightarrow> resource_list
    \<Rightarrow> (resource_name \<times> string \<times> string) + (resource_name \<rightharpoonup> string)" where
  "applyResourceList quantity dst src = apply_fields quantity dst
     [(ResourceCPU, rl_CPU src), (ResourceMemory, rl_Memory src),
      (ResourceEphemeralStorage, rl_EphemeralStorage src), (GPUResource, rl_GPU src)]"

text \<open>The requests first; \<open>None\<close> is the panic of the defaults.\<close>

definition buildResourceRequirements :: "quantity_parser \<Rightarrow> (string \<Rightarrow> string) \<Rightarrow> resources option
    \<Rightarrow> ((resource_name \<times> string \<times> string) + requirements) option" where
  "buildResourceRequirements quantity env user =
     (case defaultResources quantity env of
        None \<Rightarrow> None
      | Some (req, lim) \<Rightarrow> Some (case user of
          None \<Rightarrow> Inr (req, lim)
        | Some u \<Rightarrow>
            (case (case rs_Requests u of None \<Rightarrow> Inr req | Some l \<Rightarrow> applyResourceList quantity req l) of
               Inl e \<Rightarrow> Inl e
             | Inr req' \<Rightarrow>
                 (case (case rs_Limits u of None \<Rightarrow> Inr lim | Some l \<Rightarrow> applyResourceList quantity lim l) of
                    Inl e \<Rightarrow> Inl e
                  | Inr lim' \<Rightarrow> Inr (req', lim')))))"

section \<open>What validation admits\<close>

lemma split_on_append_gen: "split_on c (u @ c # v) = split_on c u @ split_on c v"
  by (induction u) (auto split: list.split)

lemma contains_str_iff: "contains_str s p \<longleftrightarrow> (\<exists>u v. s = u @ p @ v)"
proof (induction s)
  case Nil
  then show ?case by (auto simp: contains_str_def)
next
  case (Cons x s)
  have "contains_str (x # s) p \<longleftrightarrow> has_prefix (x # s) p \<or> contains_str s p"
    by (auto simp: contains_str_def)
  moreover have "(\<exists>u v. x # s = u @ p @ v) \<longleftrightarrow> has_prefix (x # s) p \<or> (\<exists>u v. s = u @ p @ v)"
    unfolding has_prefix_iff by (auto simp: Cons_eq_append_conv intro: exI [of _ "[]"])
  ultimately show ?case using Cons by simp
qed

lemma join_split_slash: "join_str ''/'' (split_on (CHR ''/'') s) = s"
  by (rule join_split_on)

lemma join_str_snoc_append:
  "xs \<noteq> [] \<Longrightarrow> ys \<noteq> [] \<Longrightarrow> join_str sep (xs @ ys) = join_str sep xs @ sep @ join_str sep ys"
proof (induction xs)
  case (Cons x xs)
  then show ?case by (cases xs; cases ys) auto
qed simp

text \<open>The four textual tests of a sub-path find exactly the paths with a parent segment.\<close>

lemma dotdot_tests:
  "has_prefix s ''../'' \<or> s = ''..'' \<or> contains_str s ''/../'' \<or> has_suffix s ''/..''
    \<longleftrightarrow> ''..'' \<in> set (split_on (CHR ''/'') s)"
proof
  have dd: "split_on (CHR ''/'') ''..'' = [''..'']" by code_simp
  assume "has_prefix s ''../'' \<or> s = ''..'' \<or> contains_str s ''/../'' \<or> has_suffix s ''/..''"
  then consider v where "s = ''..'' @ CHR ''/'' # v" | "s = ''..''"
    | u v where "s = u @ CHR ''/'' # ''..'' @ CHR ''/'' # v" | u where "s = u @ CHR ''/'' # ''..''"
    by (auto simp: has_prefix_iff has_suffix_iff contains_str_iff)
  then show "''..'' \<in> set (split_on (CHR ''/'') s)"
    by cases (simp_all only: split_on_append_gen dd set_append, auto)
next
  assume "''..'' \<in> set (split_on (CHR ''/'') s)"
  then obtain xs ys where xy: "split_on (CHR ''/'') s = xs @ ''..'' # ys" by (auto simp: in_set_conv_decomp)
  have s: "s = join_str ''/'' (xs @ ''..'' # ys)" using join_split_slash [of s] xy by simp
  show "has_prefix s ''../'' \<or> s = ''..'' \<or> contains_str s ''/../'' \<or> has_suffix s ''/..''"
  proof (cases "xs = []"; cases "ys = []")
    assume "xs = []" "ys = []"
    then show ?thesis using s by simp
  next
    assume "xs = []" "ys \<noteq> []"
    then have "s = ''../'' @ join_str ''/'' ys" using s join_str_snoc_append [of "[''..'']" ys] by simp
    then have "has_prefix s ''../''" by (simp only: has_prefix_append)
    then show ?thesis by blast
  next
    assume "xs \<noteq> []" "ys = []"
    then have "s = join_str ''/'' xs @ ''/..''" using s join_str_snoc_append [of xs "[''..'']"] by simp
    then have "has_suffix s ''/..''" by (simp only: has_suffix_append)
    then show ?thesis by blast
  next
    assume n: "xs \<noteq> []" "ys \<noteq> []"
    then have "s = join_str ''/'' xs @ ''/../'' @ join_str ''/'' ys"
      using s join_str_snoc_append [of xs "''..'' # ys"] join_str_snoc_append [of "[''..'']" ys] by simp
    then show ?thesis unfolding contains_str_iff by blast
  qed
qed


text \<open>The contract, independent of the order of the checks.\<close>

definition mount_ok :: "string \<Rightarrow> bool" where
  "mount_ok p \<longleftrightarrow> (\<exists>segs. list_all plain_seg segs \<and> p = ''/'' @ join_str ''/'' segs
     \<and> segs \<notin> {[], [''proc''], [''sys''], [''dev'']})"

definition source_ok :: "quantity_parser \<Rightarrow> volume \<Rightarrow> bool" where
  "source_ok quantity v \<longleftrightarrow> sources_set v = 1 \<and> vo_PVC v \<noteq> Some []
     \<and> pred_option (\<lambda>(p, t). is_abs p) (vo_HostPath v)
     \<and> pred_option (\<lambda>c. ns_Name c \<noteq> []) (vo_ConfigMap v) \<and> pred_option (\<lambda>c. ns_Name c \<noteq> []) (vo_Secret v)
     \<and> pred_option (\<lambda>(m, l). m \<in> {[], ''Memory''} \<and> (l = [] \<or> quantity l = None)) (vo_EmptyDir v)"

definition volume_ok :: "quantity_parser \<Rightarrow> volume \<Rightarrow> bool" where
  "volume_ok quantity v \<longleftrightarrow> dns1123Label (vo_Name v) \<and> length (vo_Name v) \<le> 63 \<and> mount_ok (vo_MountPath v)
     \<and> (vo_SubPath v = [] \<or> \<not> is_abs (vo_SubPath v) \<and> ''..'' \<notin> set (split_on (CHR ''/'') (vo_SubPath v)))
     \<and> source_ok quantity v"

definition volumes_ok :: "quantity_parser \<Rightarrow> volume list \<Rightarrow> bool" where
  "volumes_ok quantity vols \<longleftrightarrow> list_all (volume_ok quantity) vols
     \<and> distinct (map vo_Name vols) \<and> distinct (map vo_MountPath vols)"

lemma join_plain_inj:
  "list_all plain_seg xs \<Longrightarrow> list_all plain_seg ys \<Longrightarrow> join_str ''/'' xs = join_str ''/'' ys \<Longrightarrow> xs = ys"
proof -
  assume p: "list_all plain_seg xs" "list_all plain_seg ys" and e: "join_str ''/'' xs = join_str ''/'' ys"
  have ne: "zs \<noteq> [] \<Longrightarrow> list_all plain_seg zs \<Longrightarrow> join_str ''/'' zs \<noteq> []" for zs
    by (cases zs rule: remdups_adj.cases) (auto simp: plain_seg_def)
  show "xs = ys"
  proof (cases "xs = [] \<or> ys = []")
    case True
    then show ?thesis using ne p e by (metis join_str.simps(1))
  next
    case False
    then show ?thesis
      using split_join_segs [OF plain_no_slash [OF p(1)]] split_join_segs [OF plain_no_slash [OF p(2)]] e by metis
  qed
qed

lemma plain_reserved: "list_all plain_seg [''proc'']" "list_all plain_seg [''sys'']" "list_all plain_seg [''dev'']"
  by (simp_all add: plain_seg_def)

lemma mount_ok_iff:
  "mount_ok p \<longleftrightarrow> is_abs p \<and> path_clean p = p \<and> p \<notin> reservedMountPaths"
proof -
  have r: "p \<in> reservedMountPaths \<longleftrightarrow> segs \<in> {[], [''proc''], [''sys''], [''dev'']}"
    if "list_all plain_seg segs" "p = ''/'' @ join_str ''/'' segs" for segs
    using that join_plain_inj [OF that(1), of "[]"] join_plain_inj [OF that(1) plain_reserved(1)]
      join_plain_inj [OF that(1) plain_reserved(2)] join_plain_inj [OF that(1) plain_reserved(3)]
    by (auto simp: reservedMountPaths_def)
  show ?thesis
    unfolding conj_assoc [symmetric] clean_abs_iff mount_ok_def using r by blast
qed

lemma validateVolumeSource_iff: "validateVolumeSource quantity v = None \<longleftrightarrow> source_ok quantity v"
proof -
  have one: "sources_set v \<noteq> 0 \<and> \<not> sources_set v > 1 \<longleftrightarrow> sources_set v = 1" by auto
  have h: "is_abs p \<Longrightarrow> p \<noteq> []" for p by (auto simp: is_abs_iff)
  show ?thesis
    using h one
    by (auto simp: validateVolumeSource_def source_ok_def hostPath_error_def emptyDir_error_def
        split: option.splits if_splits)
qed

lemma validateVolume_iff: "validateVolume quantity v = None \<longleftrightarrow> volume_ok quantity v"
proof -
  have "dns1123Label n \<Longrightarrow> n \<noteq> []" for n by (simp add: dns1123Label_def)
  moreover have "mount_ok p \<Longrightarrow> p \<noteq> []" for p by (auto simp: mount_ok_def)
  ultimately show ?thesis
    by (auto simp: validateVolume_def volume_ok_def validateVolumeSource_iff [symmetric] mount_ok_iff dotdot_tests
        split: if_splits)
qed

lemma validate_loop_None:
  "validate_loop quantity N M i vols = None \<longleftrightarrow>
     volumes_ok quantity vols \<and> set (map vo_Name vols) \<inter> N = {} \<and> set (map vo_MountPath vols) \<inter> M = {}"
  by (induction vols arbitrary: N M i)
    (auto simp: volumes_ok_def validateVolume_iff [symmetric] split: option.splits)

lemma validate_loop_Some:
  "validate_loop quantity N M i vols = Some (j, e) \<Longrightarrow> \<exists>k. j = i + k \<and> k < length vols
     \<and> validate_loop quantity N M i (take k vols) = None \<and> validate_loop quantity N M i (take (Suc k) vols) = Some (j, e)"
proof (induction vols arbitrary: N M i)
  case (Cons v vols)
  show ?case
  proof (cases "validateVolume quantity v = None \<and> vo_Name v \<notin> N \<and> vo_MountPath v \<notin> M")
    case True
    then obtain k where "j = Suc i + k" "k < length vols"
      "validate_loop quantity (insert (vo_Name v) N) (insert (vo_MountPath v) M) (Suc i) (take k vols) = None"
      "validate_loop quantity (insert (vo_Name v) N) (insert (vo_MountPath v) M) (Suc i) (take (Suc k) vols) = Some (j, e)"
      using Cons.IH [of "insert (vo_Name v) N" "insert (vo_MountPath v) M" "Suc i"] Cons.prems by auto
    then show ?thesis using True by (intro exI [of _ "Suc k"]) auto
  next
    case False
    then show ?thesis using Cons.prems by (intro exI [of _ 0]) (auto split: option.splits)
  qed
qed simp

lemma buildVolumes_ok:
  "volumes_ok quantity vols \<Longrightarrow> \<exists>out. buildVolumes quantity vols = Inr out \<and> map (fst \<circ> fst) out = map vo_Name vols
    \<and> map (vm_MountPath \<circ> snd) out = map vo_MountPath vols"
proof (induction vols)
  case (Cons v vols)
  then have "source_ok quantity v" by (simp add: volumes_ok_def volume_ok_def)
  then have "\<exists>src. buildVolumeSource quantity v = Inr src"
    by (auto simp: source_ok_def buildVolumeSource_def sources_set_def split: option.splits if_splits)
  with Cons show ?case by (auto simp: volumes_ok_def)
qed simp

lemma merge_ok:
  assumes "volumes_ok quantity req" and "volumes_ok quantity defaults"
  shows "volumes_ok quantity (mergeDefaultVolumes req defaults)"
proof -
  have disj: "f ` set (filter (\<lambda>d. f d \<notin> f ` set req \<and> P d) defaults) \<inter> f ` set req = {}" for f :: "volume \<Rightarrow> string" and P
    by auto
  show ?thesis
    using assms disj [of vo_Name "\<lambda>d. vo_MountPath d \<notin> vo_MountPath ` set req"]
      disj [of vo_MountPath "\<lambda>d. vo_Name d \<notin> vo_Name ` set req"]
    by (auto simp: volumes_ok_def mergeDefaultVolumes_def list_all_iff distinct_map_filter conj_commute)
qed

text \<open>The volumes that validation admits are exactly those of the contract: names are DNS labels of at most 63
  bytes and pairwise different; mount paths are rooted and canonical, pairwise different and not the root or one of the
  three system trees; a sub-path is relative without a parent segment; exactly one well-formed source is
  set. A refusal names the first volume with which the list breaks the contract. What is admitted can be built into
  a pod, volume by volume; and merging valid defaults into valid volumes gives valid volumes, the caller's
  own first and unchanged.\<close>

theorem validateVolumes_exact:
  "(validateVolumes quantity vols = None \<longleftrightarrow> volumes_ok quantity vols)
   \<and> (\<forall>i e. validateVolumes quantity vols = Some (i, e) \<longrightarrow>
        i < length vols \<and> volumes_ok quantity (take i vols) \<and> \<not> volumes_ok quantity (take (Suc i) vols))
   \<and> (validateVolumes quantity vols = None \<longrightarrow> (\<exists>out. buildVolumes quantity vols = Inr out
        \<and> map (fst \<circ> fst) out = map vo_Name vols \<and> map (vm_MountPath \<circ> snd) out = map vo_MountPath vols))
   \<and> (validateVolumes quantity vols = None \<and> validateVolumes quantity defaults = None \<longrightarrow>
        validateVolumes quantity (mergeDefaultVolumes vols defaults) = None
        \<and> take (length vols) (mergeDefaultVolumes vols defaults) = vols)"
proof -
  have iff: "validateVolumes quantity vs = None \<longleftrightarrow> volumes_ok quantity vs" for vs
    by (simp add: validateVolumes_def validate_loop_None)
  have first: "i < length vols \<and> volumes_ok quantity (take i vols) \<and> \<not> volumes_ok quantity (take (Suc i) vols)"
    if "validateVolumes quantity vols = Some (i, e)" for i e
    using validate_loop_Some [OF that [unfolded validateVolumes_def]] iff [of "take i vols"] iff [of "take (Suc i) vols"]
    by (auto simp: validateVolumes_def)
  have "take (length vols) (mergeDefaultVolumes vols defaults) = vols"
    by (simp add: mergeDefaultVolumes_def)
  then show ?thesis using iff first buildVolumes_ok merge_ok by auto
qed

definition scratch_volume :: volume where
  "scratch_volume = \<lparr>vo_Name = ''scratch'', vo_MountPath = ''/data/tmp'', vo_SubPath = ''a/b'', vo_ReadOnly = False,
     vo_PVC = None, vo_HostPath = None, vo_ConfigMap = None, vo_Secret = None, vo_EmptyDir = Some (''Memory'', [])\<rparr>"

lemma validateVolumes_exact_witness:
  "validateVolumes (\<lambda>_. None) [scratch_volume] = None
   \<and> volumes_ok (\<lambda>_. None) [scratch_volume] \<and> \<not> volumes_ok (\<lambda>_. None) [scratch_volume, scratch_volume]"
proof -
  have "validateVolumes (\<lambda>_. None) [scratch_volume] = None"
    "validateVolumes (\<lambda>_. None) [scratch_volume, scratch_volume] \<noteq> None" by code_simp+
  then show ?thesis
    using conjunct1 [OF validateVolumes_exact [of "\<lambda>_. None" "[scratch_volume]" "[]"]]
      conjunct1 [OF validateVolumes_exact [of "\<lambda>_. None" "[scratch_volume, scratch_volume]" "[]"]] by simp
qed

end
