(* ===== verification/Prov_Egress.thy ===== *)
theory Prov_Egress
  imports GoLib
begin

text \<open>
  The outbound packet filter of a sandbox (\<open>pkg/provisioner/egress.go\<close>) and the default policy an operator sets in the
  environment (\<open>config.go\<close>): validation, the nft script, and what the script means. \<open>net.ParseCIDR\<close> is given in full;
  the scope identifier it refuses is refused here with every percent sign.
\<close>

section \<open>Addresses and networks\<close>

datatype ip_addr = V4 "32 word" | V6 "128 word"
datatype ip_net = Net4 "32 word" nat | Net6 "128 word" nat

definition is_hex :: "char \<Rightarrow> bool" where
  "is_hex c \<longleftrightarrow> is_digit c \<or> char_within (CHR ''a'') (CHR ''f'') c \<or> char_within (CHR ''A'') (CHR ''F'') c"

definition octet :: "string \<Rightarrow> nat option" where
  "octet f = (if f = [] \<or> \<not> list_all is_digit f \<or> length f > 3 \<or> (hd f = CHR ''0'' \<and> length f > 1) then None
     else (case parse_digits 10 0 f of Some v \<Rightarrow> if v \<le> 255 then Some v else None | None \<Rightarrow> None))"

definition parse_ipv4 :: "string \<Rightarrow> (nat \<times> nat \<times> nat \<times> nat) option" where
  "parse_ipv4 s = (case map octet (split_on (CHR ''.'') s) of
     [Some a, Some b, Some c, Some d] \<Rightarrow> Some (a, b, c, d) | _ \<Rightarrow> None)"

text \<open>The fields of an IPv6 address: the groups read so far, where the double colon stood, and the rest.\<close>

function v6_fields :: "nat list \<Rightarrow> nat option \<Rightarrow> string \<Rightarrow> (nat list \<times> nat option \<times> string) option" where
  "v6_fields acc ell s =
     (if length acc \<ge> 8 then Some (acc, ell, s)
      else (let h = takeWhile is_hex s; v = the (parse_digits 16 0 h) in
        if h = [] \<or> length h > 4 then None
        else (case drop (length h) s of
            [] \<Rightarrow> Some (acc @ [v], ell, [])
          | c # r \<Rightarrow>
              if c = CHR ''.'' then
                (if (ell = None \<and> length acc \<noteq> 6) \<or> length acc > 6 then None
                 else (case parse_ipv4 s of
                     None \<Rightarrow> None
                   | Some (a, b, c, d) \<Rightarrow> Some (acc @ [a * 256 + b, c * 256 + d], ell, [])))
              else if c \<noteq> CHR '':'' \<or> r = [] then None
              else if hd r = CHR '':'' then
                (if ell \<noteq> None then None
                 else if tl r = [] then Some (acc @ [v], Some (length acc + 1), [])
                 else v6_fields (acc @ [v]) (Some (length acc + 1)) (tl r))
              else v6_fields (acc @ [v]) ell r)))"
  by pat_completeness auto
termination by (relation "measure (\<lambda>(acc, _, _). 8 - length acc)") auto

declare v6_fields.simps [simp del]

definition parse_ipv6 :: "string \<Rightarrow> nat list option" where
  "parse_ipv6 s =
     (if s = ''::'' then Some (replicate 8 0)
      else (case (if has_prefix s ''::'' then v6_fields [] (Some 0) (drop 2 s) else v6_fields [] None s) of
          None \<Rightarrow> None
        | Some (acc, ell, rest) \<Rightarrow>
            if rest \<noteq> [] then None
            else if length acc < 8 then
              (case ell of None \<Rightarrow> None
               | Some i \<Rightarrow> Some (take i acc @ replicate (8 - length acc) 0 @ drop i acc))
            else if ell \<noteq> None then None else Some acc))"

definition word_of_groups :: "nat \<Rightarrow> nat list \<Rightarrow> 'a :: len word" where
  "word_of_groups base gs = foldl (\<lambda>w g. w * of_nat base + of_nat g) 0 gs"

text \<open>\<open>netip.ParseAddr\<close>: the first dot or colon decides.\<close>

definition parse_addr :: "string \<Rightarrow> ip_addr option" where
  "parse_addr s =
     (case find (\<lambda>c. c \<in> {CHR ''.'', CHR '':'', CHR ''%''}) s of
        Some c \<Rightarrow>
          if c = CHR ''.'' then map_option (\<lambda>(a, b, c, d). V4 (word_of_groups 256 [a, b, c, d])) (parse_ipv4 s)
          else if c = CHR '':'' \<and> CHR ''%'' \<notin> set s then map_option (\<lambda>gs. V6 (word_of_groups 65536 gs)) (parse_ipv6 s)
          else None
      | None \<Rightarrow> None)"

text \<open>\<open>net.ParseCIDR\<close>, up to the masking of the host bits.\<close>

definition ParseCIDR :: "string \<Rightarrow> ip_net option" where
  "ParseCIDR s =
     (case index_byte s (CHR ''/'') of
        None \<Rightarrow> None
      | Some i \<Rightarrow>
          (let mask = drop (Suc i) s in
           case parse_addr (take i s) of
             None \<Rightarrow> None
           | Some a \<Rightarrow>
               if mask = [] \<or> \<not> list_all is_digit mask then None
               else (case (a, parse_digits 10 0 mask) of
                   (V4 w, Some n) \<Rightarrow> if n \<le> 32 then Some (Net4 w n) else None
                 | (V6 w, Some n) \<Rightarrow> if n \<le> 128 then Some (Net6 w n) else None
                 | _ \<Rightarrow> None)))"

fun in_net :: "ip_net \<Rightarrow> ip_addr \<Rightarrow> bool" where
  "in_net (Net4 w n) (V4 a) \<longleftrightarrow> drop_bit (32 - n) w = drop_bit (32 - n) a"
| "in_net (Net6 w n) (V6 a) \<longleftrightarrow> drop_bit (128 - n) w = drop_bit (128 - n) a"
| "in_net _ _ \<longleftrightarrow> False"

section \<open>Policies\<close>

record egress_rule =
  eg_CIDR :: string
  eg_Ports :: "int list"
  eg_Proto :: string

record egress_policy =
  ep_Mode :: string
  ep_Rules :: "egress_rule list"

definition EgressAllow :: string where "EgressAllow = ''allow''"
definition EgressDeny :: string where "EgressDeny = ''deny''"

definition IsZero :: "egress_policy \<Rightarrow> bool" where
  "IsZero p \<longleftrightarrow> ep_Mode p = [] \<and> ep_Rules p = []"

datatype egress_error = BadMode string | CidrRequired | BadCidr string | BadPort int | BadProto string

definition rule_validate :: "egress_rule \<Rightarrow> egress_error option" where
  "rule_validate r =
     (if eg_CIDR r = [] then Some CidrRequired
      else if ParseCIDR (eg_CIDR r) = None then Some (BadCidr (eg_CIDR r))
      else (case find (\<lambda>p. p < 1 \<or> p > 65535) (eg_Ports r) of
          Some p \<Rightarrow> Some (BadPort p)
        | None \<Rightarrow> if eg_Proto r \<in> {[], ''tcp'', ''udp''} then None else Some (BadProto (eg_Proto r))))"

text \<open>The error with the index of the rule; an error of the mode has none.\<close>

fun rules_validate :: "nat \<Rightarrow> egress_rule list \<Rightarrow> (nat option \<times> egress_error) option" where
  "rules_validate i [] = None"
| "rules_validate i (r # rs) =
     (case rule_validate r of Some e \<Rightarrow> Some (Some i, e) | None \<Rightarrow> rules_validate (Suc i) rs)"

definition Validate :: "egress_policy \<Rightarrow> (nat option \<times> egress_error) option" where
  "Validate p =
     (if IsZero p then None
      else if ep_Mode p \<noteq> EgressAllow \<and> ep_Mode p \<noteq> EgressDeny then Some (None, BadMode (ep_Mode p))
      else rules_validate 0 (ep_Rules p))"

section \<open>The nft script\<close>

definition line :: "string \<Rightarrow> string" where
  "line s = s @ [CHR 0x0A]"

definition writeRuleLines :: "egress_rule \<Rightarrow> string \<Rightarrow> string list" where
  "writeRuleLines r verdict =
     (if eg_Ports r = [] then
        (if eg_Proto r = [] then [''    ip daddr '' @ eg_CIDR r @ '' '' @ verdict]
         else [''    ip daddr '' @ eg_CIDR r @ '' meta l4proto '' @ eg_Proto r @ '' '' @ verdict])
      else map (\<lambda>proto. ''    ip daddr '' @ eg_CIDR r @ '' '' @ proto
            @ '' dport { '' @ join_str '', '' (map format_int (eg_Ports r)) @ '' }'' @ '' '' @ verdict)
          (if eg_Proto r = [] then [''tcp'', ''udp''] else [eg_Proto r]))"

definition defaultVerdict :: "egress_policy \<Rightarrow> string" where
  "defaultVerdict p = (if ep_Mode p = EgressDeny then ''drop'' else ''accept'')"

definition ruleVerdict :: "egress_policy \<Rightarrow> string" where
  "ruleVerdict p = (if ep_Mode p = EgressDeny then ''accept'' else ''drop'')"

definition always_lines :: "string list" where
  "always_lines =
     [''    ct state established,related accept'', ''    oif '' @ [CHR 0x22] @ ''lo'' @ [CHR 0x22] @ '' accept'',
      ''    ip daddr 127.0.0.0/8 accept'', ''    udp dport 53 accept'', ''    tcp dport 53 accept'']"

definition script_lines :: "egress_policy \<Rightarrow> string list" where
  "script_lines p =
     [''flush ruleset'', ''table inet ad_sandbox_egress {'', ''  chain output {'',
      ''    type filter hook output priority 0; policy '' @ defaultVerdict p @ '';'']
     @ always_lines @ concat (map (\<lambda>r. writeRuleLines r (ruleVerdict p)) (ep_Rules p)) @ [''  }'', ''}'']"

definition RenderNFT :: "egress_policy \<Rightarrow> string" where
  "RenderNFT p = (if IsZero p then [] else concat (map line (script_lines p)))"

section \<open>The default policy of the operator\<close>

definition splitCSV :: "string \<Rightarrow> string list" where
  "splitCSV s = filter (\<lambda>p. p \<noteq> []) (map trim_space (split_on (CHR '','') s))"

text \<open>\<open>strconv.Atoi\<close> of a port in range: decimal digits with an optional sign.\<close>

definition env_port :: "string \<Rightarrow> int option" where
  "env_port p = Option.bind (parse_int p) (\<lambda>n. if 1 \<le> n \<and> n \<le> 65535 then Some n else None)"

definition defaultEgressFromEnv :: "(string \<Rightarrow> string) \<Rightarrow> egress_policy" where
  "defaultEgressFromEnv env =
     (let mode = env ''SANDBOX_DEFAULT_EGRESS_MODE'' in
      if mode = [] then \<lparr>ep_Mode = [], ep_Rules = []\<rparr>
      else
        (let ports = List.map_filter env_port (splitCSV (env ''SANDBOX_DEFAULT_EGRESS_PORTS''));
             pol = \<lparr>ep_Mode = mode,
               ep_Rules = map (\<lambda>c. \<lparr>eg_CIDR = c, eg_Ports = ports, eg_Proto = env ''SANDBOX_DEFAULT_EGRESS_PROTO''\<rparr>)
                 (splitCSV (env ''SANDBOX_DEFAULT_EGRESS_CIDRS''))\<rparr>
         in if Validate pol \<noteq> None then \<lparr>ep_Mode = [], ep_Rules = []\<rparr> else pol))"

section \<open>What the script means\<close>

text \<open>The reading of the script by nft, as its manual states it: a chain gives the verdict of the first rule that
  matches, else the policy of the chain; \<open>ip daddr\<close> takes IPv4 networks only, and a script with any other is refused as a
  whole.\<close>

record packet =
  pk_established :: bool
  pk_lo :: bool
  pk_dst :: ip_addr
  pk_proto :: string
  pk_dport :: int

datatype nft_match =
    Established | OutLo
  | Dport string int
  | Daddr string
  | DaddrL4 string string
  | DaddrPorts string string "int list"

fun match_text :: "nft_match \<Rightarrow> string" where
  "match_text Established = ''ct state established,related''"
| "match_text OutLo = ''oif '' @ [CHR 0x22] @ ''lo'' @ [CHR 0x22]"
| "match_text (Dport proto n) = proto @ '' dport '' @ format_int n"
| "match_text (Daddr c) = ''ip daddr '' @ c"
| "match_text (DaddrL4 c proto) = ''ip daddr '' @ c @ '' meta l4proto '' @ proto"
| "match_text (DaddrPorts c proto ports) =
     ''ip daddr '' @ c @ '' '' @ proto @ '' dport { '' @ join_str '', '' (map format_int ports) @ '' }''"

definition dst_in :: "string \<Rightarrow> packet \<Rightarrow> bool" where
  "dst_in c pkt = (case ParseCIDR c of Some n \<Rightarrow> in_net n (pk_dst pkt) | None \<Rightarrow> False)"

fun match_packet :: "nft_match \<Rightarrow> packet \<Rightarrow> bool" where
  "match_packet Established pkt = pk_established pkt"
| "match_packet OutLo pkt = pk_lo pkt"
| "match_packet (Dport proto n) pkt = (pk_proto pkt = proto \<and> pk_dport pkt = n)"
| "match_packet (Daddr c) pkt = dst_in c pkt"
| "match_packet (DaddrL4 c proto) pkt = (dst_in c pkt \<and> pk_proto pkt = proto)"
| "match_packet (DaddrPorts c proto ports) pkt = (dst_in c pkt \<and> pk_proto pkt = proto \<and> pk_dport pkt \<in> set ports)"

definition rule_matches :: "egress_rule \<Rightarrow> nft_match list" where
  "rule_matches r =
     (if eg_Ports r = [] then [if eg_Proto r = [] then Daddr (eg_CIDR r) else DaddrL4 (eg_CIDR r) (eg_Proto r)]
      else map (\<lambda>proto. DaddrPorts (eg_CIDR r) proto (eg_Ports r)) (if eg_Proto r = [] then [''tcp'', ''udp''] else [eg_Proto r]))"

definition chain_of :: "egress_policy \<Rightarrow> (nft_match \<times> string) list" where
  "chain_of p = map (\<lambda>m. (m, ''accept'')) [Established, OutLo, Daddr ''127.0.0.0/8'', Dport ''udp'' 53, Dport ''tcp'' 53]
     @ map (\<lambda>m. (m, ruleVerdict p)) (concat (map rule_matches (ep_Rules p)))"

definition chain_verdict :: "egress_policy \<Rightarrow> packet \<Rightarrow> string" where
  "chain_verdict p pkt =
     (case find (\<lambda>(m, v). match_packet m pkt) (chain_of p) of Some (m, v) \<Rightarrow> v | None \<Rightarrow> defaultVerdict p)"

text \<open>\<open>None\<close>: the script is refused.\<close>

definition ipv4_only :: "egress_policy \<Rightarrow> bool" where
  "ipv4_only p \<longleftrightarrow> list_all (\<lambda>r. case ParseCIDR (eg_CIDR r) of Some (Net4 w n) \<Rightarrow> True | _ \<Rightarrow> False) (ep_Rules p)"

definition nft_run :: "egress_policy \<Rightarrow> packet \<Rightarrow> string option" where
  "nft_run p pkt = (if ipv4_only p then Some (chain_verdict p pkt) else None)"

text \<open>What the policy promises.\<close>

definition rule_covers :: "egress_rule \<Rightarrow> packet \<Rightarrow> bool" where
  "rule_covers r pkt \<longleftrightarrow> dst_in (eg_CIDR r) pkt \<and> (eg_Proto r \<noteq> [] \<longrightarrow> pk_proto pkt = eg_Proto r)
     \<and> (eg_Ports r \<noteq> [] \<longrightarrow> pk_dport pkt \<in> set (eg_Ports r) \<and> pk_proto pkt \<in> {''tcp'', ''udp''})"

definition always_allowed :: "packet \<Rightarrow> bool" where
  "always_allowed pkt \<longleftrightarrow> pk_established pkt \<or> pk_lo pkt \<or> dst_in ''127.0.0.0/8'' pkt
     \<or> (pk_dport pkt = 53 \<and> pk_proto pkt \<in> {''udp'', ''tcp''})"

definition permits :: "egress_policy \<Rightarrow> packet \<Rightarrow> bool" where
  "permits p pkt \<longleftrightarrow> always_allowed pkt
     \<or> (if ep_Mode p = EgressDeny then \<exists>r \<in> set (ep_Rules p). rule_covers r pkt
        else \<forall>r \<in> set (ep_Rules p). \<not> rule_covers r pkt)"

section \<open>The script carries out the policy\<close>

definition cidr_char :: "char \<Rightarrow> bool" where
  "cidr_char c \<longleftrightarrow> is_hex c \<or> c \<in> {CHR ''.'', CHR '':'', CHR ''/''}"

lemma set_split_on: "set s \<subseteq> insert c (\<Union> (set ` set (split_on c s)))"
proof (induction s)
  case (Cons a s)
  then show ?case by (cases "split_on c s") auto
qed simp

lemma octet_digits: "octet f \<noteq> None \<Longrightarrow> list_all is_digit f"
  by (auto simp: octet_def split: if_splits)

lemma map_Some4:
  "(case map f xs of [Some a, Some b, Some c, Some d] \<Rightarrow> Some (a, b, c, d) | _ \<Rightarrow> None) = Some z \<Longrightarrow> x \<in> set xs \<Longrightarrow> f x \<noteq> None"
  by (auto split: list.splits option.splits)

lemma parse_ipv4_chars: "parse_ipv4 s = Some z \<Longrightarrow> list_all cidr_char s"
proof -
  assume z: "parse_ipv4 s = Some z"
  have "list_all is_digit f" if "f \<in> set (split_on (CHR ''.'') s)" for f
    using map_Some4 [OF z [unfolded parse_ipv4_def] that] by (rule octet_digits)
  with set_split_on [of s "CHR ''.''"] show ?thesis
    unfolding list_all_iff cidr_char_def is_hex_def by blast
qed

lemma v6_fields_chars:
  "v6_fields acc ell s = Some (acc', ell', rest) \<Longrightarrow> \<forall>c \<in> set s. cidr_char c \<or> c \<in> set rest"
proof (induction "8 - length acc" arbitrary: acc ell s rule: less_induct)
  case less
  define h where "h = takeWhile is_hex s"
  have h: "\<forall>c \<in> set h. cidr_char c" unfolding h_def cidr_char_def by (meson set_takeWhileD)
  have s: "s = h @ drop (length h) s" unfolding h_def by (metis takeWhile_dropWhile_id dropWhile_eq_drop)
  note prems = less.prems
  show ?case
  proof (cases "length acc \<ge> 8")
    case True
    then show ?thesis using prems by (simp add: v6_fields.simps [of acc])
  next
    case F: False
    note e = prems [unfolded v6_fields.simps [of acc] Let_def, folded h_def]
    have n: "h \<noteq> []" "length h \<le> 4" using e F by (auto split: if_splits)
    show ?thesis
    proof (cases "drop (length h) s")
      case Nil
      then show ?thesis using h s by simp
    next
      case (Cons c r)
      show ?thesis
      proof (cases "c = CHR ''.''")
        case True
        then obtain z where "parse_ipv4 s = Some z"
          using e F n Cons by (auto split: if_splits option.splits)
        then show ?thesis using parse_ipv4_chars [of s z] by (simp add: list_all_iff)
      next
        case False
        then have c: "c = CHR '':''" "r \<noteq> []" using e F n Cons by (auto split: if_splits)
        have rec: "\<forall>c \<in> set t. cidr_char c \<or> c \<in> set rest" if "v6_fields (acc @ [v]) el t = Some (acc', ell', rest)" for v el t
          using less.hyps [of "acc @ [v]" el t] that F by simp
        have sr: "set s \<subseteq> set h \<union> {CHR '':''} \<union> set r" using Cons c by (metis Un_insert_right s set_append list.simps(15) Un_empty_right Un_assoc insert_is_Un order_refl sup_commute)
        have colon: "cidr_char (CHR '':'')" by (simp add: cidr_char_def)
        have "\<forall>c \<in> set r. cidr_char c \<or> c \<in> set rest"
        proof (cases "hd r = CHR '':''")
          case True
          then have r: "set r \<subseteq> insert (CHR '':'') (set (tl r))" using c(2) by (cases r) auto
          have "tl r = [] \<or> (\<exists>v el. v6_fields (acc @ [v]) el (tl r) = Some (acc', ell', rest))"
            using e F n Cons c True by (auto split: if_splits)
          then show ?thesis
          proof (elim disjE exE)
            assume "tl r = []"
            then show ?thesis using r colon by auto
          next
            fix v el assume "v6_fields (acc @ [v]) el (tl r) = Some (acc', ell', rest)"
            from rec [OF this] show ?thesis using r colon by blast
          qed
        next
          case False
          then have "\<exists>v. v6_fields (acc @ [v]) ell r = Some (acc', ell', rest)"
            using e F n Cons c by (auto split: if_splits)
          then show ?thesis using rec by blast
        qed
        then show ?thesis using sr h colon by auto
      qed
    qed
  qed
qed

lemma ParseCIDR_chars:
  assumes "ParseCIDR s = Some z" shows "list_all cidr_char s"
proof -
  obtain i a where i: "index_byte s (CHR ''/'') = Some i" and a: "parse_addr (take i s) = Some a"
    and m: "list_all is_digit (drop (Suc i) s)"
    using assms by (auto simp: ParseCIDR_def Let_def split: option.splits if_splits)
  have "list_all cidr_char (take i s)"
  proof -
    obtain c where "find (\<lambda>c. c \<in> {CHR ''.'', CHR '':'', CHR ''%''}) (take i s) = Some c"
      using a by (auto simp: parse_addr_def split: option.splits)
    then consider z where "parse_ipv4 (take i s) = Some z" | gs where "parse_ipv6 (take i s) = Some gs"
      using a by (auto simp: parse_addr_def split: if_splits)
    then show ?thesis
    proof cases
      case (1 z)
      then show ?thesis by (rule parse_ipv4_chars)
    next
      case (2 gs)
      have colon: "cidr_char (CHR '':'')" by (simp add: cidr_char_def)
      have v6: "list_all cidr_char t" if "v6_fields [] el t = Some (acc, ell, [])" for el t acc ell
        using v6_fields_chars [OF that] by (simp add: list_all_iff)
      show ?thesis
      proof (cases "has_prefix (take i s) ''::''")
        case True
        then obtain t where t: "take i s = ''::'' @ t" by (auto simp: has_prefix_iff)
        show ?thesis
        proof (cases "t = []")
          case True
          then show ?thesis using t colon by simp
        next
          case False
          then obtain acc ell where "v6_fields [] (Some 0) t = Some (acc, ell, [])"
            using 2 t by (auto simp: parse_ipv6_def has_prefix_def split: if_splits option.splits)
          from v6 [OF this] show ?thesis using t colon by simp
        qed
      next
        case False
        then have "take i s \<noteq> ''::''" using has_prefix_append [of "''::''" "[]"] by auto
        then obtain acc ell where "v6_fields [] None (take i s) = Some (acc, ell, [])"
          using 2 False by (auto simp: parse_ipv6_def split: if_splits option.splits)
        from v6 [OF this] show ?thesis .
      qed
    qed
  qed
  moreover have "list_all cidr_char (drop (Suc i) s)" using m by (auto simp: list_all_iff cidr_char_def is_hex_def)
  moreover have "s = take i s @ CHR ''/'' # drop (Suc i) s"
    using index_byte_Some [OF i] id_take_nth_drop [of i s] by simp
  moreover have "cidr_char (CHR ''/'')" by (simp add: cidr_char_def)
  ultimately show ?thesis using list_all_append [of cidr_char "take i s" "CHR ''/'' # drop (Suc i) s"] by (metis list.pred_inject(2))
qed

abbreviation "newline \<equiv> CHR 0x0A"

lemma cidr_char_newline: "\<not> cidr_char newline"
  by code_simp

lemma split_lines:
  "list_all (\<lambda>l. newline \<notin> set l) ls \<Longrightarrow> split_on newline (concat (map line ls)) = ls @ [[]]"
  by (induction ls) (simp_all add: line_def split_on_append)

lemma format_int_newline: "newline \<notin> set (format_int n)"
proof -
  have "newline \<notin> digit_char ` set [0..<10]" by code_simp
  then have "newline \<notin> set (format_nat 10 k)" for k using format_nat_digits [of 10 newline k] by auto
  then show ?thesis by (simp add: format_int_def)
qed

lemma join_str_newline: "list_all (\<lambda>l. newline \<notin> set l) ls \<Longrightarrow> newline \<notin> set sep \<Longrightarrow> newline \<notin> set (join_str sep ls)"
  by (induction sep ls rule: join_str.induct) auto

lemma rules_validate_None: "rules_validate i rs = None \<longleftrightarrow> list_all (\<lambda>r. rule_validate r = None) rs"
  by (induction rs arbitrary: i) (auto split: option.splits)

lemma rule_validate_None:
  "rule_validate r = None \<Longrightarrow> ParseCIDR (eg_CIDR r) \<noteq> None \<and> eg_Proto r \<in> {[], ''tcp'', ''udp''}"
  by (auto simp: rule_validate_def split: if_splits option.splits)

lemma writeRuleLines_matches: "writeRuleLines r v = map (\<lambda>m. ''    '' @ match_text m @ '' '' @ v) (rule_matches r)"
  by (simp add: writeRuleLines_def rule_matches_def)

lemma match_text_newline:
  assumes "rule_validate r = None" and "m \<in> set (rule_matches r)" shows "newline \<notin> set (match_text m)"
proof -
  have c: "newline \<notin> set (eg_CIDR r)"
    using rule_validate_None [OF assms(1)] ParseCIDR_chars [of "eg_CIDR r"] cidr_char_newline by (auto simp: list_all_iff)
  have p: "newline \<notin> set (eg_Proto r)" using rule_validate_None [OF assms(1)] by auto
  have "newline \<notin> set (join_str '', '' (map format_int (eg_Ports r)))"
    by (rule join_str_newline) (simp_all add: list_all_iff format_int_newline)
  with c p assms(2) show ?thesis by (auto simp: rule_matches_def split: if_splits)
qed

lemma rule_matches_packet:
  "eg_Proto r \<in> {[], ''tcp'', ''udp''} \<Longrightarrow> (\<exists>m \<in> set (rule_matches r). match_packet m pkt) \<longleftrightarrow> rule_covers r pkt"
  by (auto simp: rule_matches_def rule_covers_def)

lemma find_first_verdict:
  "(case find (\<lambda>(m, v). P m) (map (\<lambda>m. (m, v1)) ms @ map (\<lambda>m. (m, v2)) ns) of Some (m, v) \<Rightarrow> v | None \<Rightarrow> v3) =
     (if \<exists>m \<in> set ms. P m then v1 else if \<exists>m \<in> set ns. P m then v2 else v3)"
proof -
  have n: "(case find (\<lambda>(m, v). P m) (map (\<lambda>m. (m, v2)) ns) of Some (m, v) \<Rightarrow> v | None \<Rightarrow> v3) =
     (if \<exists>m \<in> set ns. P m then v2 else v3)" by (induction ns) auto
  show ?thesis by (induction ms) (use n in auto)
qed


definition web_only :: egress_policy where
  "web_only = \<lparr>ep_Mode = ''deny'', ep_Rules = [\<lparr>eg_CIDR = ''10.0.0.0/8'', eg_Ports = [80, 443], eg_Proto = []\<rparr>]\<rparr>"

definition packet_to :: "ip_addr \<Rightarrow> int \<Rightarrow> packet" where
  "packet_to a port = \<lparr>pk_established = False, pk_lo = False, pk_dst = a, pk_proto = ''tcp'', pk_dport = port\<rparr>"


text \<open>A rule for an IPv6 network passes validation, but its line is one that nft refuses.\<close>

definition all_v6 :: egress_policy where
  "all_v6 = \<lparr>ep_Mode = ''deny'', ep_Rules = [\<lparr>eg_CIDR = ''::/0'', eg_Ports = [], eg_Proto = []\<rparr>]\<rparr>"

lemma ipv6_rule_refused: "Validate all_v6 = None" "nft_run all_v6 pkt = None"
proof -
  have "index_byte ''::/0'' (CHR ''/'') = Some 2" "take 2 ''::/0'' = ''::''" "drop 3 ''::/0'' = ''0''"
    "find (\<lambda>c. c \<in> {CHR ''.'', CHR '':'', CHR ''%''}) ''::'' = Some (CHR '':'')"
    "parse_ipv6 ''::'' = Some (replicate 8 0)" "parse_digits 10 0 ''0'' = Some 0"
    "list_all is_digit ''0''" by code_simp+
  then have c: "\<exists>w. ParseCIDR ''::/0'' = Some (Net6 w 0)"
    by (simp add: ParseCIDR_def parse_addr_def Let_def)
  then show "Validate all_v6 = None" "nft_run all_v6 pkt = None"
    by (auto simp: all_v6_def Validate_def IsZero_def EgressDeny_def EgressAllow_def rule_validate_def nft_run_def ipv4_only_def)
qed

lemma splitCSV_elem: "c \<in> set (splitCSV s) \<Longrightarrow> c \<noteq> []"
  by (auto simp: splitCSV_def)

lemma rules_validate_Some: "r \<in> set rs \<Longrightarrow> rule_validate r \<noteq> None \<Longrightarrow> rules_validate i rs \<noteq> None"
  unfolding rules_validate_None list_all_iff by auto

text \<open>The operator's default policy fails open. One network that does not parse, or a mode that is not spelled exactly
  as one of the two, and there is no policy at all, also where the mode in force was to deny; and
  ports that do not parse are dropped, so that a rule of which none is left covers every port.\<close>

theorem default_egress_fails_open:
  assumes "env ''SANDBOX_DEFAULT_EGRESS_MODE'' \<notin> {EgressAllow, EgressDeny}
      \<or> (\<exists>c \<in> set (splitCSV (env ''SANDBOX_DEFAULT_EGRESS_CIDRS'')). ParseCIDR c = None)"
    and "\<forall>p \<in> set (splitCSV (env' ''SANDBOX_DEFAULT_EGRESS_PORTS'')). env_port p = None"
  shows "IsZero (defaultEgressFromEnv env) \<and> (\<forall>r \<in> set (ep_Rules (defaultEgressFromEnv env')). eg_Ports r = [])"
proof
  define rules where "rules = map (\<lambda>c. \<lparr>eg_CIDR = c,
      eg_Ports = List.map_filter env_port (splitCSV (env ''SANDBOX_DEFAULT_EGRESS_PORTS'')),
      eg_Proto = env ''SANDBOX_DEFAULT_EGRESS_PROTO''\<rparr>) (splitCSV (env ''SANDBOX_DEFAULT_EGRESS_CIDRS''))"
  define pol where "pol = \<lparr>ep_Mode = env ''SANDBOX_DEFAULT_EGRESS_MODE'', ep_Rules = rules\<rparr>"
  have "Validate pol \<noteq> None" if m: "env ''SANDBOX_DEFAULT_EGRESS_MODE'' \<noteq> []"
  proof (cases "env ''SANDBOX_DEFAULT_EGRESS_MODE'' \<in> {EgressAllow, EgressDeny}")
    case True
    then obtain c where c: "c \<in> set (splitCSV (env ''SANDBOX_DEFAULT_EGRESS_CIDRS''))" "ParseCIDR c = None"
      using assms(1) by blast
    then have "\<exists>r \<in> set rules. eg_CIDR r = c" unfolding rules_def by auto
    then obtain r where "r \<in> set rules" "eg_CIDR r = c" by (rule bexE)
    moreover from this have "rule_validate r \<noteq> None" using c splitCSV_elem by (simp add: rule_validate_def)
    ultimately have "rules_validate 0 rules \<noteq> None" using rules_validate_Some by blast
    then show ?thesis using m by (simp add: Validate_def pol_def IsZero_def)
  next
    case False
    then show ?thesis using m by (simp add: Validate_def pol_def IsZero_def)
  qed
  then show "IsZero (defaultEgressFromEnv env)"
    unfolding defaultEgressFromEnv_def Let_def pol_def rules_def by (auto simp: IsZero_def)
  have "List.map_filter env_port (splitCSV (env' ''SANDBOX_DEFAULT_EGRESS_PORTS'')) = []"
    using assms(2) by (simp add: List.map_filter_def)
  then show "\<forall>r \<in> set (ep_Rules (defaultEgressFromEnv env')). eg_Ports r = []"
    by (auto simp: defaultEgressFromEnv_def Let_def)
qed

definition typo_env :: "string \<Rightarrow> string" where
  "typo_env k = (if k = ''SANDBOX_DEFAULT_EGRESS_MODE'' then ''deny''
     else if k = ''SANDBOX_DEFAULT_EGRESS_CIDRS'' then ''10.0.0.0/8, 10.1.0.0/33'' else [])"

lemma default_egress_fails_open_witness: "IsZero (defaultEgressFromEnv typo_env)"
proof -
  have "ParseCIDR ''10.1.0.0/33'' = None" "''10.1.0.0/33'' \<in> set (splitCSV (typo_env ''SANDBOX_DEFAULT_EGRESS_CIDRS''))"
    "\<forall>p \<in> set (splitCSV (typo_env ''SANDBOX_DEFAULT_EGRESS_PORTS'')). env_port p = None" by code_simp+
  then show ?thesis using default_egress_fails_open [of typo_env typo_env] by blast
qed

end
