(* ===== verification/Rfc3339.thy ===== *)
theory Rfc3339
  imports GoLib "HOL-Library.Monad_Syntax"
begin

text \<open>
  The time stamps of package \<open>time\<close> as the program writes and reads them: layout \<open>RFC3339\<close>, whole
  seconds, UTC. An instant counts nanoseconds since 1970. The calendar is the proleptic Gregorian one, counted
  from the first of March of year zero in cycles of 400 years. The reader accepts the grammar of RFC 3339, with the
  fraction and the numeric zone that Go accepts; Go's lenient second attempt (a comma in the fraction,
  an offset of 24 hours) is left out.
\<close>

abbreviation "Second \<equiv> (1000000000 :: int)"

section \<open>The calendar\<close>

definition days_of_civil :: "int \<Rightarrow> int \<Rightarrow> int \<Rightarrow> int" where
  "days_of_civil y m d =
     (let ym = (if m \<le> 2 then y - 1 else y); yoe = ym mod 400;
          doy = (153 * (if m > 2 then m - 3 else m + 9) + 2) div 5 + d - 1
      in (ym div 400) * 146097 + (yoe * 365 + yoe div 4 - yoe div 100 + doy) - 719468)"

text \<open>The day of a 400-year cycle, split into its centuries, its four-year groups, its years and the day of the year.\<close>

definition split_cycle :: "int \<Rightarrow> int \<times> int \<times> int \<times> int" where
  "split_cycle doe =
     (let c = min 3 (doe div 36524); r = doe - c * 36524;
          q = min 24 (r div 1461); s = r - q * 1461;
          y = min 3 (s div 365)
      in (c, q, y, s - y * 365))"

text \<open>The month, and the day in it, of a day of the year that starts in March.\<close>

definition month_of_doy :: "int \<Rightarrow> int \<times> int" where
  "month_of_doy doy = (let mp = (5 * doy + 2) div 153 in
     (if mp < 10 then mp + 3 else mp - 9, doy - (153 * mp + 2) div 5 + 1))"

definition civil_of_days :: "int \<Rightarrow> int \<times> int \<times> int" where
  "civil_of_days n =
     (case split_cycle ((n + 719468) mod 146097) of (c, q, y, doy) \<Rightarrow>
      case month_of_doy doy of (m, d) \<Rightarrow>
        ((n + 719468) div 146097 * 400 + (c * 100 + q * 4 + y) + (if m \<le> 2 then 1 else 0), m, d))"

definition leap_year :: "int \<Rightarrow> bool" where
  "leap_year y \<longleftrightarrow> y mod 4 = 0 \<and> (y mod 100 \<noteq> 0 \<or> y mod 400 = 0)"

definition days_in :: "int \<Rightarrow> int \<Rightarrow> int" where
  "days_in y m = (if m = 2 then (if leap_year y then 29 else 28) else if m \<in> {4, 6, 9, 11} then 30 else 31)"

lemma split_cycle_bounds:
  assumes "0 \<le> doe" "doe < 146097" and s: "split_cycle doe = (c, q, y, doy)"
  shows "0 \<le> c" "c \<le> 3" "0 \<le> q" "q \<le> 24" "0 \<le> y" "y \<le> 3" "0 \<le> doy" "doy \<le> 365"
    "doy = 365 \<Longrightarrow> y = 3 \<and> (q \<noteq> 24 \<or> c = 3)" "doe = c * 36524 + q * 1461 + y * 365 + doy"
proof -
  define r where "r = doe - c * 36524"
  define t where "t = r - q * 1461"
  have c: "c = min 3 (doe div 36524)" and q: "q = min 24 (r div 1461)" and y: "y = min 3 (t div 365)"
    and doy: "doy = t - y * 365"
    using s by (auto simp: split_cycle_def Let_def r_def t_def)
  have r0: "0 \<le> r" "r \<le> 36524" "r = 36524 \<Longrightarrow> c = 3" and c0: "0 \<le> c" "c \<le> 3"
    using c assms(1,2) unfolding r_def by auto
  have t0: "0 \<le> t" "t \<le> 1460" "t = 1460 \<Longrightarrow> q \<noteq> 24 \<or> c = 3" and q0: "0 \<le> q" "q \<le> 24"
    using q r0 unfolding t_def by auto
  have y0: "0 \<le> y" "y \<le> 3" and d0: "0 \<le> doy" "doy \<le> 365" "doy = 365 \<Longrightarrow> y = 3 \<and> t = 1460"
    using y t0 unfolding doy by auto
  show "0 \<le> c" "c \<le> 3" "0 \<le> q" "q \<le> 24" "0 \<le> y" "y \<le> 3" "0 \<le> doy" "doy \<le> 365" by fact+
  show "y = 3 \<and> (q \<noteq> 24 \<or> c = 3)" if "doy = 365" using d0(3) [OF that] t0(3) by blast
  show "doe = c * 36524 + q * 1461 + y * 365 + doy" by (simp add: doy t_def r_def)
qed

text \<open>Every day of the year belongs to a month, whose length bounds its number; the last day is the leap day.\<close>

lemma month_of_doy_all:
  "\<forall>doy \<in> set (map int [0..<366]). case month_of_doy doy of (m, d) \<Rightarrow>
     1 \<le> m \<and> m \<le> 12 \<and> 1 \<le> d \<and> (doy < 365 \<longrightarrow> d \<le> (if m = 2 then 28 else if m \<in> {4, 6, 9, 11} then 30 else 31))
     \<and> (doy = 365 \<longrightarrow> m = 2 \<and> d = 29)
     \<and> (153 * (if m > 2 then m - 3 else m + 9) + 2) div 5 + d - 1 = doy"
  by code_simp

lemma month_of_doy_bounds:
  assumes "0 \<le> doy" "doy \<le> 365" and "month_of_doy doy = (m, d)"
  shows "1 \<le> m" "m \<le> 12" "1 \<le> d" "doy < 365 \<Longrightarrow> d \<le> (if m = 2 then 28 else if m \<in> {4, 6, 9, 11} then 30 else 31)"
    "doy = 365 \<Longrightarrow> m = 2 \<and> d = 29" "(153 * (if m > 2 then m - 3 else m + 9) + 2) div 5 + d - 1 = doy"
proof -
  have "nat doy \<in> set [0..<366]" using assms(1,2) by auto
  then have "int (nat doy) \<in> set (map int [0..<366])" unfolding set_map by (rule imageI)
  then have "doy \<in> set (map int [0..<366])" using assms(1) by simp
  from bspec [OF month_of_doy_all this] assms(3)
  show "1 \<le> m" "m \<le> 12" "1 \<le> d" "doy < 365 \<Longrightarrow> d \<le> (if m = 2 then 28 else if m \<in> {4, 6, 9, 11} then 30 else 31)"
    "doy = 365 \<Longrightarrow> m = 2 \<and> d = 29" "(153 * (if m > 2 then m - 3 else m + 9) + 2) div 5 + d - 1 = doy"
    by simp_all
qed

lemma civil_of_days_props:
  assumes "civil_of_days n = (y, m, d)"
  shows "days_of_civil y m d = n" "1 \<le> m" "m \<le> 12" "1 \<le> d" "d \<le> days_in y m" "d \<le> 31"
proof -
  define z where "z = n + 719468"
  define era where "era = z div 146097"
  obtain c q w doy where s: "split_cycle (z mod 146097) = (c, q, w, doy)" by (metis prod_cases4)
  note b = split_cycle_bounds [OF _ _ s, simplified]
  obtain m' d' where md: "month_of_doy doy = (m', d')" by force
  have eqs: "m = m'" "d = d'" and y: "y = era * 400 + (c * 100 + q * 4 + w) + (if m' \<le> 2 then 1 else 0)"
    using assms unfolding civil_of_days_def z_def [symmetric] s md prod.case era_def [symmetric] prod.inject by blast+
  note mb = month_of_doy_bounds [OF b(7) b(8) md, folded eqs]
  show "1 \<le> m" "m \<le> 12" "1 \<le> d" by (fact mb)+
  define yoe where "yoe = c * 100 + q * 4 + w"
  have yoe: "0 \<le> yoe" "yoe < 400" "yoe div 4 = 25 * c + q" "yoe div 100 = c"
    using b(1-6) unfolding yoe_def by linarith+
  have ym: "(if m \<le> 2 then y - 1 else y) = yoe + era * 400" using y eqs by (simp add: yoe_def)
  have "(yoe + era * 400) mod 400 = yoe" "(yoe + era * 400) div 400 = era" using yoe by auto
  then have "days_of_civil y m d = era * 146097 + (yoe * 365 + yoe div 4 - yoe div 100 + doy) - 719468"
    using mb(6) by (simp add: days_of_civil_def ym Let_def)
  also have "\<dots> = era * 146097 + z mod 146097 - 719468" using yoe b(10) by (simp add: yoe_def)
  also have "\<dots> = n" by (simp add: era_def z_def)
  finally show "days_of_civil y m d = n" .
  show dl: "d \<le> days_in y m"
  proof (cases "doy = 365")
    case True
    then have m2: "m = 2" "d = 29" and e: "w = 3" "q \<noteq> 24 \<or> c = 3" using mb(5) b(9) by auto
    have yy: "y = era * 400 + (c * 100 + q * 4 + 4)" using y e eqs m2 by simp
    have "leap_year y"
    proof (cases "q = 24")
      case True
      with e yy have "y = (era + 1) * 400" by simp
      then have "y mod 400 = 0" "y mod 4 = 0" by simp_all
      then show ?thesis unfolding leap_year_def by simp
    next
      case False
      with b(4) have "q < 24" by simp
      have "y = (era * 4 + c) * 100 + (q * 4 + 4)" using yy by simp
      then have "y mod 100 = (q * 4 + 4) mod 100" by (simp only: mod_mult_self3)
      also have "\<dots> = q * 4 + 4" using \<open>q < 24\<close> b(3) by (intro mod_pos_pos_trivial) auto
      finally have "y mod 100 \<noteq> 0" using b(3) by simp
      moreover have "y mod 4 = 0" using yy by presburger
      ultimately show ?thesis unfolding leap_year_def by simp
    qed
    then show ?thesis using m2 by (simp add: days_in_def)
  next
    case False
    with mb(4) b(8) show ?thesis by (auto simp: days_in_def split: if_splits)
  qed
  show "d \<le> 31" using dl by (auto simp: days_in_def split: if_splits)
qed

section \<open>Writing and reading a stamp\<close>

definition pad2 :: "int \<Rightarrow> string" where
  "pad2 n = [digit_char (nat (n div 10 mod 10)), digit_char (nat (n mod 10))]"

text \<open>At least four digits.\<close>

definition year_text :: "int \<Rightarrow> string" where
  "year_text y = (if y < 0 then ''-'' else []) @
     (if \<bar>y\<bar> \<le> 9999 then pad2 (\<bar>y\<bar> div 100) @ pad2 (\<bar>y\<bar> mod 100) else format_nat 10 (nat \<bar>y\<bar>))"

definition format_rfc3339 :: "instant \<Rightarrow> string" where
  "format_rfc3339 t =
     (let secs = t div Second; (y, m, d) = civil_of_days (secs div 86400); r = secs mod 86400
      in year_text y @ ''-'' @ pad2 m @ ''-'' @ pad2 d @ ''T'' @ pad2 (r div 3600) @ '':'' @ pad2 (r div 60 mod 60)
         @ '':'' @ pad2 (r mod 60) @ ''Z'')"

fun digits_value :: "int \<Rightarrow> string \<Rightarrow> int option" where
  "digits_value acc [] = Some acc"
| "digits_value acc (c # cs) = (if is_digit c then digits_value (acc * 10 + (of_char c - 48)) cs else None)"

text \<open>A field of two or four digits within bounds, and a literal.\<close>

definition take_field :: "nat \<Rightarrow> int \<Rightarrow> int \<Rightarrow> string \<Rightarrow> (int \<times> string) option" where
  "take_field k lo hi s =
     (if length s < k then None
      else (case digits_value 0 (take k s) of
          None \<Rightarrow> None
        | Some v \<Rightarrow> if lo \<le> v \<and> v \<le> hi then Some (v, drop k s) else None))"

definition take_lit :: "char \<Rightarrow> string \<Rightarrow> string option" where
  "take_lit c s = (case s of [] \<Rightarrow> None | x # xs \<Rightarrow> if x = c then Some xs else None)"

text \<open>The fraction: digits beyond the ninth do not count.\<close>

definition take_fraction :: "string \<Rightarrow> (int \<times> string) option" where
  "take_fraction s =
     (if has_prefix s ''.'' then
        (let ds = takeWhile is_digit (drop 1 s) in
         if ds = [] then None
         else map_option (\<lambda>v. (v, drop (1 + length ds) s)) (digits_value 0 (take 9 (ds @ replicate 9 (CHR ''0'')))))
      else Some (0, s))"

definition take_zone :: "string \<Rightarrow> int option" where
  "take_zone s =
     (if s = ''Z'' then Some 0
      else if has_prefix s ''+'' \<or> has_prefix s ''-'' then do {
        (h, s1) \<leftarrow> take_field 2 0 23 (drop 1 s);
        s2 \<leftarrow> take_lit (CHR '':'') s1;
        (m, s3) \<leftarrow> take_field 2 0 59 s2;
        if s3 = [] then Some ((if has_prefix s ''-'' then -1 else 1) * (h * 3600 + m * 60)) else None }
      else None)"

definition parse_rfc3339 :: "string \<Rightarrow> instant option" where
  "parse_rfc3339 s0 = do {
     (y, s1) \<leftarrow> take_field 4 0 9999 s0;
     s2 \<leftarrow> take_lit (CHR ''-'') s1;
     (m, s3) \<leftarrow> take_field 2 1 12 s2;
     s4 \<leftarrow> take_lit (CHR ''-'') s3;
     (d, s5) \<leftarrow> take_field 2 1 (days_in y m) s4;
     s6 \<leftarrow> take_lit (CHR ''T'') s5;
     (h, s7) \<leftarrow> take_field 2 0 23 s6;
     s8 \<leftarrow> take_lit (CHR '':'') s7;
     (mi, s9) \<leftarrow> take_field 2 0 59 s8;
     s10 \<leftarrow> take_lit (CHR '':'') s9;
     (sec, s11) \<leftarrow> take_field 2 0 59 s10;
     (frac, s12) \<leftarrow> take_fraction s11;
     off \<leftarrow> take_zone s12;
     Some ((days_of_civil y m d * 86400 + h * 3600 + mi * 60 + sec - off) * Second + frac) }"

section \<open>Reading what was written\<close>

lemma digit_char_value: "\<forall>k \<in> set [0..<10]. is_digit (digit_char k) \<and> (of_char (digit_char k) :: int) = int k + 48"
  by code_simp

lemma digit_char_num: "0 \<le> k \<Longrightarrow> k < 10 \<Longrightarrow> is_digit (digit_char (nat k)) \<and> (of_char (digit_char (nat k)) :: int) = k + 48"
  using digit_char_value by auto

lemma digits_value_pad2:
  "0 \<le> n \<Longrightarrow> n < 100 \<Longrightarrow> digits_value acc (pad2 n @ s) = digits_value (acc * 100 + n) s"
proof -
  assume n: "0 \<le> n" "n < 100"
  have a: "is_digit (digit_char (nat (n div 10 mod 10)))" "(of_char (digit_char (nat (n div 10 mod 10))) :: int) = n div 10 + 48"
    using digit_char_num [of "n div 10 mod 10"] n by auto
  have b: "is_digit (digit_char (nat (n mod 10)))" "(of_char (digit_char (nat (n mod 10))) :: int) = n mod 10 + 48"
    using digit_char_num [of "n mod 10"] by auto
  show ?thesis by (simp add: pad2_def a b algebra_simps)
qed

lemma take_field_pad2:
  "0 \<le> n \<Longrightarrow> n < 100 \<Longrightarrow> lo \<le> n \<Longrightarrow> n \<le> hi \<Longrightarrow> take_field 2 lo hi (pad2 n @ s) = Some (n, s)"
  using digits_value_pad2 [of n 0 "[]"] by (simp add: take_field_def) (simp add: pad2_def)

lemma take_field_year:
  "0 \<le> y \<Longrightarrow> y \<le> 9999 \<Longrightarrow> take_field 4 0 9999 (year_text y @ s) = Some (y, s)"
proof -
  assume y: "0 \<le> y" "y \<le> 9999"
  have b: "y div 100 < 100" "y mod 100 < 100" "0 \<le> y div 100" "0 \<le> y mod 100" using y by auto
  have "digits_value 0 (pad2 (y div 100) @ pad2 (y mod 100) @ []) = Some y"
    using b by (subst digits_value_pad2) (simp_all only: digits_value_pad2, simp)
  moreover have "length (pad2 k) = 2" for k by (simp add: pad2_def)
  ultimately show ?thesis using y by (simp add: take_field_def year_text_def)
qed

lemma parse_format_rfc3339:
  assumes "civil_of_days (t div Second div 86400) = (y, m, d)" and "0 \<le> y" "y \<le> 9999"
  shows "parse_rfc3339 (format_rfc3339 t) = Some (t div Second * Second)"
proof -
  define secs where "secs = t div Second"
  define r where "r = secs mod 86400"
  have r: "0 \<le> r" "r < 86400" by (simp_all add: r_def)
  have h: "0 \<le> r div 3600" "r div 3600 < 100" "r div 3600 \<le> 23" "0 \<le> r div 60 mod 60" "r div 60 mod 60 < 100"
    "r div 60 mod 60 \<le> 59" "0 \<le> r mod 60" "r mod 60 < 100" "r mod 60 \<le> 59" using r by auto
  note c = civil_of_days_props [OF assms(1) [folded secs_def]]
  have "r div 3600 * 3600 + r div 60 mod 60 * 60 + r mod 60 = r"
  proof -
    have "r div 60 div 60 = r div 3600" using zdiv_zmult2_eq [of 60 r 60] by simp
    then show ?thesis using div_mult_mod_eq [of "r div 60" 60] div_mult_mod_eq [of r 60] by linarith
  qed
  then have total: "days_of_civil y m d * 86400 + r div 3600 * 3600 + r div 60 mod 60 * 60 + r mod 60 = secs"
    using c(1) div_mult_mod_eq [of secs 86400] unfolding r_def by linarith
  have f1: "take_field 4 0 9999 (year_text y @ u) = Some (y, u)" for u by (rule take_field_year [OF assms(2,3)])
  have f2: "take_field 2 1 12 (pad2 m @ u) = Some (m, u)" for u
    by (rule take_field_pad2) (use c in linarith)+
  have f3: "take_field 2 1 (days_in y m) (pad2 d @ u) = Some (d, u)" for u
    by (rule take_field_pad2) (use c in linarith)+
  have f4: "take_field 2 0 23 (pad2 (r div 3600) @ u) = Some (r div 3600, u)" for u
    by (rule take_field_pad2) (use h in linarith)+
  have f5: "take_field 2 0 59 (pad2 (r div 60 mod 60) @ u) = Some (r div 60 mod 60, u)" for u
    by (rule take_field_pad2) (use h in linarith)+
  have f6: "take_field 2 0 59 (pad2 (r mod 60) @ u) = Some (r mod 60, u)" for u
    by (rule take_field_pad2) (use h in linarith)+
  note fields = f1 f2 f3 f4 f5 f6
  have written: "format_rfc3339 t = year_text y @ CHR ''-'' # pad2 m @ CHR ''-'' # pad2 d @ CHR ''T'' # pad2 (r div 3600)
      @ CHR '':'' # pad2 (r div 60 mod 60) @ CHR '':'' # pad2 (r mod 60) @ ''Z''"
    unfolding format_rfc3339_def secs_def [symmetric] assms(1) [folded secs_def] Let_def prod.case r_def [symmetric] by simp
  have lit: "take_lit x (x # u) = Some u" for x u by (simp add: take_lit_def)
  have rest: "take_fraction ''Z'' = Some (0, ''Z'')" "take_zone ''Z'' = Some 0" by code_simp+
  show ?thesis
    unfolding parse_rfc3339_def written fields lit rest bind.bind_lunit prod.case
    using total by (simp add: secs_def)
qed

text \<open>Every second of the years 1 to 9600 has a stamp that is read back.\<close>

abbreviation "stamp_limit \<equiv> (240784704000 :: int)"

theorem parse_format_stamp:
  assumes "- 62135596800 * Second \<le> t" "t < stamp_limit * Second"
  shows "parse_rfc3339 (format_rfc3339 t) = Some (t div Second * Second)"
proof -
  define n where "n = t div Second div 86400"
  obtain y m d where c: "civil_of_days n = (y, m, d)" by (metis prod_cases3)
  define z where "z = n + 719468"
  have "- 719162 \<le> n" "n < 2786860" using assms unfolding n_def by auto
  then have z: "0 \<le> z div 146097" "z div 146097 \<le> 23" unfolding z_def by auto
  obtain e q w doy where s: "split_cycle (z mod 146097) = (e, q, w, doy)" by (metis prod_cases4)
  note b = split_cycle_bounds [OF _ _ s, simplified]
  obtain m' d' where md: "month_of_doy doy = (m', d')" by force
  have "y = z div 146097 * 400 + (e * 100 + q * 4 + w) + (if m' \<le> 2 then 1 else 0)"
    using c unfolding civil_of_days_def z_def [symmetric] s md prod.case prod.inject by metis
  then have "0 \<le> y" "y \<le> 9999" using z b(1-6) by (auto split: if_splits)
  then show ?thesis by (rule parse_format_rfc3339 [OF c [unfolded n_def]])
qed

lemma format_rfc3339_nonempty: "format_rfc3339 t \<noteq> []"
  by (simp add: format_rfc3339_def Let_def split: prod.split)

end
