(* ===== verification/Prov_Ttl.thy ===== *)
theory Prov_Ttl
  imports Rfc3339
begin

text \<open>
  The lifetime of a sandbox (\<open>pkg/provisioner/ttl.go\<close>): two annotations, the deadline as a stamp and the
  lifetime in seconds, both strings. A lifetime is an \<open>int64\<close>; its product with a second wraps.
\<close>

definition AnnotationExpiresAt :: string where
  "AnnotationExpiresAt = ''ad-sandbox.io/expires-at''"

definition AnnotationTTLSec :: string where
  "AnnotationTTLSec = ''ad-sandbox.io/ttl-seconds''"

lemma annotation_keys_differ [simp]: "AnnotationExpiresAt \<noteq> AnnotationTTLSec" "AnnotationTTLSec \<noteq> AnnotationExpiresAt"
  by (simp_all add: AnnotationExpiresAt_def AnnotationTTLSec_def)

definition wrap64 :: "int \<Rightarrow> int" where
  "wrap64 i = (i + 2 ^ 63) mod 2 ^ 64 - 2 ^ 63"

lemma wrap64_over: "2 ^ 63 \<le> i \<Longrightarrow> i < 2 ^ 63 + 2 ^ 64 \<Longrightarrow> wrap64 i = i - 2 ^ 64"
proof -
  assume i: "2 ^ 63 \<le> i" "i < 2 ^ 63 + 2 ^ 64"
  have "(i + 2 ^ 63) mod 2 ^ 64 = (i + 2 ^ 63 - 2 ^ 64) mod 2 ^ 64" by (rule minus_mod_self2 [symmetric])
  also have "\<dots> = i + 2 ^ 63 - 2 ^ 64" using i by (intro mod_pos_pos_trivial) simp_all
  finally show ?thesis unfolding wrap64_def by simp
qed

lemma wrap64_id: "- (2 ^ 63) \<le> i \<Longrightarrow> i < 2 ^ 63 \<Longrightarrow> wrap64 i = i"
  unfolding wrap64_def by (subst mod_pos_pos_trivial) simp_all

definition expiresAtFromTTL :: "instant \<Rightarrow> int \<Rightarrow> string" where
  "expiresAtFromTTL now ttlSeconds =
     (if ttlSeconds \<le> 0 then [] else format_rfc3339 (now + wrap64 (ttlSeconds * Second)))"

text \<open>Go's zero time: the first of January of year one.\<close>

definition zeroTime :: instant where
  "zeroTime = - 62135596800 * Second"

text \<open>\<open>None\<close>: not a stamp.\<close>

definition parseExpiresAt :: "string \<Rightarrow> instant option" where
  "parseExpiresAt v = (if v = [] then Some zeroTime else parse_rfc3339 v)"

definition isExpired :: "instant \<Rightarrow> instant \<Rightarrow> bool" where
  "isExpired expiresAt now \<longleftrightarrow> expiresAt \<noteq> zeroTime \<and> \<not> now < expiresAt"

type_synonym annotations = "string \<rightharpoonup> string"

text \<open>\<open>nil\<close> for no lifetime.\<close>

definition ttlAnnotations :: "instant \<Rightarrow> int \<Rightarrow> annotations option" where
  "ttlAnnotations now ttlSeconds =
     (if ttlSeconds \<le> 0 then None
      else Some [AnnotationExpiresAt \<mapsto> expiresAtFromTTL now ttlSeconds, AnnotationTTLSec \<mapsto> format_int ttlSeconds])"

text \<open>\<open>parseInt64\<close> of \<open>provisioner.go\<close>: \<open>fmt.Sscanf\<close> with \<open>%d\<close> skips blanks, reads a sign and digits, and leaves
  what follows.\<close>

definition scan_d :: "string \<Rightarrow> int option" where
  "scan_d s =
     (let s1 = dropWhile is_space s;
          neg = has_prefix s1 ''-'';
          s2 = (if neg \<or> has_prefix s1 ''+'' then drop 1 s1 else s1);
          ds = takeWhile is_digit s2
      in if ds = [] then None
         else Option.bind (parse_digits 10 0 ds) (\<lambda>v. let i = (if neg then - int v else int v) in
           if - (2 ^ 63) \<le> i \<and> i < 2 ^ 63 then Some i else None))"

text \<open>What the reaper concludes from the annotation.\<close>

definition deadline_passed :: "string \<Rightarrow> instant \<Rightarrow> bool" where
  "deadline_passed v now \<longleftrightarrow> (\<exists>t. parseExpiresAt v = Some t \<and> isExpired t now)"

lemma deadline_passed_code [code]:
  "deadline_passed v now = (case parseExpiresAt v of None \<Rightarrow> False | Some t \<Rightarrow> isExpired t now)"
  by (simp add: deadline_passed_def split: option.split)

lemma deadline_passed_empty [simp]: "\<not> deadline_passed [] now"
  by (simp add: deadline_passed_def parseExpiresAt_def isExpired_def)

section \<open>Lifetimes\<close>

abbreviation "max_lifetime \<equiv> (9223372036 :: int)" \<comment> \<open>the seconds that fit a \<open>Duration\<close>\<close>

lemma deadline_of_stamp:
  assumes "zeroTime + Second \<le> t" "t < stamp_limit * Second"
  shows "deadline_passed (format_rfc3339 t) now \<longleftrightarrow> t div Second * Second \<le> now"
proof -
  have "t div Second * Second \<noteq> zeroTime" using assms by (auto simp: zeroTime_def)
  moreover have "parse_rfc3339 (format_rfc3339 t) = Some (t div Second * Second)"
    by (rule parse_format_stamp) (use assms in \<open>simp_all add: zeroTime_def\<close>)
  ultimately show ?thesis
    by (auto simp: deadline_passed_def parseExpiresAt_def isExpired_def format_rfc3339_nonempty)
qed

lemma lifetime_honoured:
  assumes "0 < ttl" "ttl \<le> max_lifetime" "0 \<le> now" "now + ttl * Second < stamp_limit * Second"
  shows "deadline_passed (expiresAtFromTTL now ttl) later \<longleftrightarrow> (now div Second + ttl) * Second \<le> later"
proof -
  have "wrap64 (ttl * Second) = ttl * Second" using assms(1,2) by (intro wrap64_id) simp_all
  then have "expiresAtFromTTL now ttl = format_rfc3339 (now + ttl * Second)"
    using assms(1) unfolding expiresAtFromTTL_def by simp
  moreover have "(now + ttl * Second) div Second = now div Second + ttl" by simp
  moreover have "zeroTime + Second \<le> now + ttl * Second" using assms by (simp add: zeroTime_def)
  ultimately show ?thesis using deadline_of_stamp [of "now + ttl * Second" later] assms(4) by metis
qed

lemma lifetime_wraps:
  assumes "max_lifetime < ttl" "ttl \<le> 2 * max_lifetime" "0 \<le> now" "now < stamp_limit * Second"
  shows "deadline_passed (expiresAtFromTTL now ttl) now"
proof -
  define t where "t = now + (ttl * Second - 2 ^ 64)"
  have "wrap64 (ttl * Second) = ttl * Second - 2 ^ 64" using assms(1,2) by (intro wrap64_over) simp_all
  then have e: "expiresAtFromTTL now ttl = format_rfc3339 t"
    using assms(1) unfolding expiresAtFromTTL_def t_def by simp
  have "ttl * Second < 2 ^ 64" "- (2 ^ 63) \<le> ttl * Second - 2 ^ 64" using assms(1,2) by simp_all
  then have t: "zeroTime + Second \<le> t" "t \<le> now" unfolding t_def using assms(3) by (simp_all add: zeroTime_def)
  have "t div Second * Second \<le> t" using div_mult_mod_eq [of t Second] pos_mod_sign [of Second t] by linarith
  then show ?thesis unfolding e using deadline_of_stamp [of t now] t assms(4) by linarith
qed

text \<open>The recorded lifetime is read back.\<close>

lemma decimal_chars:
  "\<forall>d \<in> set [0..<10]. is_digit (digit_char d) \<and> \<not> is_space (digit_char d) \<and> digit_char d \<notin> {CHR ''-'', CHR ''+''}"
  by code_simp

lemma scan_d_format_int:
  assumes "0 < n" "n < 2 ^ 63" shows "scan_d (format_int n) = Some n"
proof -
  define s where "s = format_nat 10 (nat n)"
  have dig: "is_digit c \<and> \<not> is_space c \<and> c \<notin> {CHR ''-'', CHR ''+''}" if c: "c \<in> set s" for c
  proof -
    obtain d where d: "d < 10" "c = digit_char d" using format_nat_digits [of 10 c "nat n"] c by (auto simp: s_def)
    then show ?thesis using decimal_chars by simp
  qed
  obtain x xs where x: "s = x # xs" using format_nat_nonempty [of 10 "nat n"] by (cases s) (auto simp: s_def)
  then have first: "\<not> is_space x" "x \<noteq> CHR ''-''" "x \<noteq> CHR ''+''" using dig [of x] by auto
  have "takeWhile is_digit s = s" using dig by simp
  moreover have "dropWhile is_space s = s" "\<not> has_prefix s ''-''" "\<not> has_prefix s ''+''"
    using first by (simp_all add: x has_prefix_def)
  moreover have "parse_digits 10 0 s = Some (nat n)" unfolding s_def by (rule parse_digits_format) simp_all
  moreover have "format_int n = s" using assms by (simp add: format_int_def s_def)
  moreover have "s \<noteq> []" by (simp add: x)
  ultimately show ?thesis using assms by (simp add: scan_d_def Let_def del: takeWhile_eq_all_conv)
qed

end
