(* ===== verification/Prov_Backend.thy ===== *)
theory Prov_Backend
  imports Prov_Volumes Prov_Egress Prov_Ttl
begin

text \<open>
  The seam between the provisioner and a sandbox mechanism (\<open>pkg/provisioner/provisioner.go\<close>: \<open>Backend\<close>,
  \<open>SandboxSpec\<close>), the laws the provisioner relies on, and the in-memory backend (\<open>mock_backend.go\<close>),
  which is shown to keep them. An error is its text, since the callers look for words in it; the phase of a pod comes without
  its error, which every caller discards. The namespace is fixed. What the backend does by itself while a handler sleeps
  is an operation of its own.
\<close>

section \<open>Sandboxes\<close>

record sandbox_spec =
  ss_SandboxID :: string
  ss_ThreadID :: string
  ss_Image :: string
  ss_Labels :: "string \<rightharpoonup> string"
  ss_NodeHost :: string
  ss_Resources :: "resources option"
  ss_RuntimeClass :: string
  ss_Annotations :: "annotations option" \<comment> \<open>a nil map is \<open>None\<close>\<close>
  ss_Volumes :: "volume list"
  ss_Egress :: egress_policy
  ss_RuntimeAPIKey :: string

record sandbox_info =
  si_SandboxID :: string
  si_SandboxURL :: string
  si_Status :: string
  si_ExpiresAt :: string

definition pod_name :: "string \<Rightarrow> string" where "pod_name sid = ''sandbox-'' @ sid"
definition svc_of_pod :: "string \<Rightarrow> string" where "svc_of_pod name = name @ ''-svc''"

abbreviation "svc_name sid \<equiv> svc_of_pod (pod_name sid)"

lemma pod_name_inj [simp]: "pod_name a = pod_name b \<longleftrightarrow> a = b"
  by (simp add: pod_name_def)

lemma svc_of_pod_inj [simp]: "svc_of_pod a = svc_of_pod b \<longleftrightarrow> a = b"
  by (simp add: svc_of_pod_def)

definition annotation :: "annotations \<Rightarrow> string \<Rightarrow> string" where
  "annotation a k = (case a k of Some v \<Rightarrow> v | None \<Rightarrow> [])"

definition spec_annotations :: "sandbox_spec \<Rightarrow> annotations" where
  "spec_annotations spec = (case ss_Annotations spec of Some a \<Rightarrow> a | None \<Rightarrow> Map.empty)"

record 's backend =
  be_CreatePod :: "sandbox_spec \<Rightarrow> 's \<Rightarrow> string option \<times> 's"
  be_DeletePod :: "string \<Rightarrow> int \<Rightarrow> 's \<Rightarrow> string option \<times> 's"
  be_GetPodPhase :: "string \<Rightarrow> 's \<Rightarrow> string"
  be_CreateService :: "sandbox_spec \<Rightarrow> 's \<Rightarrow> string option \<times> 's"
  be_DeleteService :: "string \<Rightarrow> 's \<Rightarrow> string option \<times> 's"
  be_GetNodePort :: "string \<Rightarrow> 's \<Rightarrow> string + int"
  be_ListSandboxes :: "'s \<Rightarrow> string + sandbox_info list"
  be_ExecInPod :: "string \<Rightarrow> string list \<Rightarrow> 's \<Rightarrow> (string + string) \<times> 's"
  be_GetPodAnnotations :: "string \<Rightarrow> 's \<Rightarrow> string + annotations"
  be_SetPodAnnotations :: "string \<Rightarrow> annotations \<Rightarrow> 's \<Rightarrow> string option \<times> 's"
  be_Sleep :: "'s \<Rightarrow> 's"

section \<open>The laws\<close>

text \<open>A pod is seen as the spec it was made from and its annotations. \<open>good\<close> is the backend's own invariant.\<close>

type_synonym pod_view = "string \<rightharpoonup> sandbox_spec \<times> annotations"

definition view_change :: "pod_view \<Rightarrow> pod_view \<Rightarrow> string set \<Rightarrow> bool" where
  "view_change v v' names \<longleftrightarrow> (\<forall>n. n \<notin> names \<longrightarrow> v' n = v n)"

locale sandbox_backend =
  fixes B :: "'s backend" and pods :: "'s \<Rightarrow> pod_view" and good :: "'s \<Rightarrow> bool"
  assumes create_pod: "good s \<Longrightarrow> be_CreatePod B spec s = (e, s') \<Longrightarrow> good s' \<and>
      (pods s' = pods s \<or> pods s (pod_name (ss_SandboxID spec)) = None
         \<and> pods s' = (pods s)(pod_name (ss_SandboxID spec) \<mapsto> (spec, spec_annotations spec)))"
    and create_pod_ok: "good s \<Longrightarrow> be_CreatePod B spec s = (None, s') \<Longrightarrow> pods s (pod_name (ss_SandboxID spec)) = None
      \<Longrightarrow> pods s' (pod_name (ss_SandboxID spec)) = Some (spec, spec_annotations spec)"
    and create_pod_exists: "good s \<Longrightarrow> be_CreatePod B spec s = (Some msg, s') \<Longrightarrow> contains_str msg ''already exists''
      \<Longrightarrow> pods s (pod_name (ss_SandboxID spec)) \<noteq> None"
    and delete_pod: "good s \<Longrightarrow> be_DeletePod B n g s = (e, s') \<Longrightarrow> good s' \<and> (pods s' = pods s \<or> pods s' = (pods s)(n := None))"
    and delete_pod_ok: "good s \<Longrightarrow> be_DeletePod B n g s = (None, s') \<Longrightarrow> pods s' n = None"
    and delete_pod_missing: "good s \<Longrightarrow> be_DeletePod B n g s = (Some msg, s') \<Longrightarrow> contains_str msg ''not found'' \<Longrightarrow> pods s' n = None"
    and services: "good s \<Longrightarrow> be_CreateService B spec s = (e, s') \<Longrightarrow> good s' \<and> pods s' = pods s"
      "good s \<Longrightarrow> be_DeleteService B m s = (e', s'') \<Longrightarrow> good s'' \<and> pods s'' = pods s"
    and exec: "good s \<Longrightarrow> be_ExecInPod B n cmd s = (r, s') \<Longrightarrow> good s' \<and> pods s' = pods s"
    and sleep: "good s \<Longrightarrow> good (be_Sleep B s) \<and> pods (be_Sleep B s) = pods s"
    and get_annotations: "good s \<Longrightarrow> be_GetPodAnnotations B n s = Inr a \<Longrightarrow> \<exists>spec. pods s n = Some (spec, a)"
    and set_annotations: "good s \<Longrightarrow> be_SetPodAnnotations B n a s = (e, s') \<Longrightarrow> good s' \<and>
      (pods s' = pods s \<or> (\<exists>spec a0. pods s n = Some (spec, a0) \<and> pods s' = (pods s)(n \<mapsto> (spec, a0 ++ a))))"
    and set_annotations_ok: "good s \<Longrightarrow> be_SetPodAnnotations B n a s = (None, s') \<Longrightarrow> pods s n = Some (spec, a0)
      \<Longrightarrow> pods s' n = Some (spec, a0 ++ a)"
    and listed: "good s \<Longrightarrow> be_ListSandboxes B s = Inr infos \<Longrightarrow> info \<in> set infos \<Longrightarrow>
      \<exists>spec a. pods s (pod_name (si_SandboxID info)) = Some (spec, a) \<and> si_ExpiresAt info = annotation a AnnotationExpiresAt"
    and list_complete: "good s \<Longrightarrow> be_ListSandboxes B s = Inr infos \<Longrightarrow> pods s (pod_name sid) = Some p
      \<Longrightarrow> be_GetNodePort B (svc_name sid) s = Inr port \<Longrightarrow> port \<noteq> 0 \<Longrightarrow> \<exists>info \<in> set infos. si_SandboxID info = sid"

section \<open>The backend in memory\<close>

record pod_record =
  pr_spec :: sandbox_spec
  pr_phase :: string
  pr_annotations :: annotations

text \<open>The maps are association lists with distinct keys, in an order of the reader's choosing. The ports count up as an
  \<open>int32\<close>.\<close>

record mock =
  mb_pods :: "(string \<times> pod_record) list"
  mb_services :: "(string \<times> int) list"
  mb_nextPort :: int
  mb_CreatePodErr :: "string option"

definition NewMockBackend :: mock where
  "NewMockBackend = \<lparr>mb_pods = [], mb_services = [], mb_nextPort = 30000, mb_CreatePodErr = None\<rparr>"

definition al_put :: "'k \<Rightarrow> 'v \<Rightarrow> ('k \<times> 'v) list \<Rightarrow> ('k \<times> 'v) list" where
  "al_put k v xs = (k, v) # filter (\<lambda>(k', _). k' \<noteq> k) xs"

definition al_del :: "'k \<Rightarrow> ('k \<times> 'v) list \<Rightarrow> ('k \<times> 'v) list" where
  "al_del k xs = filter (\<lambda>(k', _). k' \<noteq> k) xs"

definition wrap32 :: "int \<Rightarrow> int" where
  "wrap32 i = (i + 2 ^ 31) mod 2 ^ 32 - 2 ^ 31"

definition mock_CreatePod :: "sandbox_spec \<Rightarrow> mock \<Rightarrow> string option \<times> mock" where
  "mock_CreatePod spec m =
     (case mb_CreatePodErr m of
        Some e \<Rightarrow> (Some e, m\<lparr>mb_CreatePodErr := None\<rparr>)
      | None \<Rightarrow>
          (let n = pod_name (ss_SandboxID spec) in
           if map_of (mb_pods m) n \<noteq> None then (Some ''already exists'', m)
           else (None, m\<lparr>mb_pods := al_put n \<lparr>pr_spec = spec, pr_phase = ''Running'', pr_annotations = spec_annotations spec\<rparr>
              (mb_pods m)\<rparr>)))"

definition mock_DeletePod :: "string \<Rightarrow> int \<Rightarrow> mock \<Rightarrow> string option \<times> mock" where
  "mock_DeletePod n grace m =
     (if map_of (mb_pods m) n = None then (Some ''not found'', m) else (None, m\<lparr>mb_pods := al_del n (mb_pods m)\<rparr>))"

definition mock_GetPodPhase :: "string \<Rightarrow> mock \<Rightarrow> string" where
  "mock_GetPodPhase n m = (case map_of (mb_pods m) n of None \<Rightarrow> ''NotFound'' | Some p \<Rightarrow> pr_phase p)"

definition mock_CreateService :: "sandbox_spec \<Rightarrow> mock \<Rightarrow> string option \<times> mock" where
  "mock_CreateService spec m =
     (let n = svc_name (ss_SandboxID spec) in
      if map_of (mb_services m) n \<noteq> None then (Some ''already exists'', m)
      else (None, m\<lparr>mb_services := al_put n (mb_nextPort m) (mb_services m), mb_nextPort := wrap32 (mb_nextPort m + 1)\<rparr>))"

definition mock_DeleteService :: "string \<Rightarrow> mock \<Rightarrow> string option \<times> mock" where
  "mock_DeleteService n m =
     (if map_of (mb_services m) n = None then (Some ''not found'', m)
      else (None, m\<lparr>mb_services := al_del n (mb_services m)\<rparr>))"

definition mock_GetNodePort :: "string \<Rightarrow> mock \<Rightarrow> string + int" where
  "mock_GetNodePort n m =
     (case map_of (mb_services m) n of Some p \<Rightarrow> Inr p | None \<Rightarrow> Inl (''service '' @ n @ '' not found''))"

definition mock_ListSandboxes :: "mock \<Rightarrow> string + sandbox_info list" where
  "mock_ListSandboxes m = Inr (List.map_filter (\<lambda>(n, p).
     (case map_of (mb_services m) (svc_of_pod n) of
        None \<Rightarrow> None
      | Some port \<Rightarrow>
          if port = 0 then None
          else Some \<lparr>si_SandboxID = ss_SandboxID (pr_spec p),
            si_SandboxURL = ''http://'' @ ss_NodeHost (pr_spec p) @ '':'' @ format_int port,
            si_Status = pr_phase p, si_ExpiresAt = annotation (pr_annotations p) AnnotationExpiresAt\<rparr>)) (mb_pods m))"

definition mock_GetPodAnnotations :: "string \<Rightarrow> mock \<Rightarrow> string + annotations" where
  "mock_GetPodAnnotations n m =
     (case map_of (mb_pods m) n of Some p \<Rightarrow> Inr (pr_annotations p) | None \<Rightarrow> Inl (''pod '' @ n @ '' not found''))"

definition mock_SetPodAnnotations :: "string \<Rightarrow> annotations \<Rightarrow> mock \<Rightarrow> string option \<times> mock" where
  "mock_SetPodAnnotations n a m =
     (case map_of (mb_pods m) n of
        None \<Rightarrow> (Some (''pod '' @ n @ '' not found''), m)
      | Some p \<Rightarrow> (None, m\<lparr>mb_pods := al_put n (p\<lparr>pr_annotations := pr_annotations p ++ a\<rparr>) (mb_pods m)\<rparr>))"

definition mock_ExecInPod :: "string \<Rightarrow> string list \<Rightarrow> mock \<Rightarrow> (string + string) \<times> mock" where
  "mock_ExecInPod n cmd m = (Inr [], m)"

definition mock_backend :: "mock backend" where
  "mock_backend = \<lparr>be_CreatePod = mock_CreatePod, be_DeletePod = mock_DeletePod, be_GetPodPhase = mock_GetPodPhase,
     be_CreateService = mock_CreateService, be_DeleteService = mock_DeleteService, be_GetNodePort = mock_GetNodePort,
     be_ListSandboxes = mock_ListSandboxes, be_ExecInPod = mock_ExecInPod,
     be_GetPodAnnotations = mock_GetPodAnnotations, be_SetPodAnnotations = mock_SetPodAnnotations, be_Sleep = id\<rparr>"

definition mock_pods :: "mock \<Rightarrow> pod_view" where
  "mock_pods m = map_option (\<lambda>p. (pr_spec p, pr_annotations p)) \<circ> map_of (mb_pods m)"

text \<open>A pod is filed under its own name, and an injected failure does not pose as an existing pod.\<close>

definition mock_good :: "mock \<Rightarrow> bool" where
  "mock_good m \<longleftrightarrow> distinct (map fst (mb_pods m))
     \<and> list_all (\<lambda>(n, p). n = pod_name (ss_SandboxID (pr_spec p))) (mb_pods m)
     \<and> (case mb_CreatePodErr m of None \<Rightarrow> True | Some e \<Rightarrow> \<not> contains_str e ''already exists'')"

lemma map_of_al_put [simp]: "map_of (al_put k v xs) = (map_of xs)(k \<mapsto> v)"
proof -
  have "map_of (filter (\<lambda>(k', _). k' \<noteq> k) xs) k' = map_of xs k'" if "k' \<noteq> k" for k'
    using that by (induction xs) auto
  then show ?thesis by (auto simp: al_put_def fun_eq_iff)
qed

lemma map_of_al_del [simp]: "map_of (al_del k xs) = (map_of xs)(k := None)"
  by (induction xs) (auto simp: al_del_def fun_eq_iff)

lemma distinct_al [simp]:
  "distinct (map fst xs) \<Longrightarrow> distinct (map fst (al_put k v xs))" "distinct (map fst xs) \<Longrightarrow> distinct (map fst (al_del k xs))"
  by (auto simp: al_put_def al_del_def distinct_map_filter)

lemma set_al: "x \<in> set (al_put k v xs) \<longleftrightarrow> x = (k, v) \<or> x \<in> set xs \<and> fst x \<noteq> k"
  "x \<in> set (al_del k xs) \<longleftrightarrow> x \<in> set xs \<and> fst x \<noteq> k"
  by (cases x; auto simp: al_put_def al_del_def)+

lemmas mock_ops = mock_CreatePod_def mock_DeletePod_def mock_CreateService_def mock_DeleteService_def mock_ExecInPod_def
  mock_GetNodePort_def mock_GetPodAnnotations_def mock_SetPodAnnotations_def

lemma mock_good_pod: "mock_good m \<Longrightarrow> map_of (mb_pods m) n = Some p \<Longrightarrow> n = pod_name (ss_SandboxID (pr_spec p))"
  by (auto simp: mock_good_def list_all_iff dest: map_of_SomeD)

lemma mock_pods_upd [simp]:
  "mock_pods (m\<lparr>mb_pods := al_put n p (mb_pods m)\<rparr>) = (mock_pods m)(n \<mapsto> (pr_spec p, pr_annotations p))"
  "mock_pods (m\<lparr>mb_pods := al_del n (mb_pods m)\<rparr>) = (mock_pods m)(n := None)"
  "mock_pods (m\<lparr>mb_services := ss\<rparr>) = mock_pods m" "mock_pods (m\<lparr>mb_nextPort := np\<rparr>) = mock_pods m"
  "mock_pods (m\<lparr>mb_CreatePodErr := e\<rparr>) = mock_pods m"
  by (auto simp: mock_pods_def fun_eq_iff)

lemma mock_pods_None [simp]: "mock_pods m n = None \<longleftrightarrow> map_of (mb_pods m) n = None"
  by (simp add: mock_pods_def)

lemma mock_good_upd [simp]:
  "mock_good m \<Longrightarrow> n = pod_name (ss_SandboxID (pr_spec p)) \<Longrightarrow> mock_good (m\<lparr>mb_pods := al_put n p (mb_pods m)\<rparr>)"
  "mock_good m \<Longrightarrow> mock_good (m\<lparr>mb_pods := al_del n (mb_pods m)\<rparr>)"
  "mock_good (m\<lparr>mb_services := ss\<rparr>) = mock_good m" "mock_good (m\<lparr>mb_nextPort := np\<rparr>) = mock_good m"
  "mock_good m \<Longrightarrow> mock_good (m\<lparr>mb_CreatePodErr := None\<rparr>)"
  by (auto simp: mock_good_def list_all_iff set_al)

lemma mock_pods_Some: "mock_pods m n = Some (spec, a) \<longleftrightarrow> (\<exists>p. map_of (mb_pods m) n = Some p \<and> pr_spec p = spec \<and> pr_annotations p = a)"
  by (auto simp: mock_pods_def)

lemma mock_listed:
  assumes "mock_good m" and "mock_ListSandboxes m = Inr infos"
  shows "info \<in> set infos \<Longrightarrow> \<exists>p port. map_of (mb_pods m) (pod_name (si_SandboxID info)) = Some p
      \<and> map_of (mb_services m) (svc_name (si_SandboxID info)) = Some port \<and> port \<noteq> 0
      \<and> si_ExpiresAt info = annotation (pr_annotations p) AnnotationExpiresAt"
    and "map_of (mb_pods m) (pod_name sid) = Some p \<Longrightarrow> map_of (mb_services m) (svc_name sid) = Some port \<Longrightarrow> port \<noteq> 0
      \<Longrightarrow> \<exists>info \<in> set infos. si_SandboxID info = sid"
proof -
  have d: "distinct (map fst (mb_pods m))" using assms(1) by (simp add: mock_good_def)
  show "\<exists>p port. map_of (mb_pods m) (pod_name (si_SandboxID info)) = Some p
      \<and> map_of (mb_services m) (svc_name (si_SandboxID info)) = Some port \<and> port \<noteq> 0
      \<and> si_ExpiresAt info = annotation (pr_annotations p) AnnotationExpiresAt" if i: "info \<in> set infos"
  proof -
    obtain n p port where np: "(n, p) \<in> set (mb_pods m)" "map_of (mb_services m) (svc_of_pod n) = Some port" "port \<noteq> 0"
      and info: "si_SandboxID info = ss_SandboxID (pr_spec p)" "si_ExpiresAt info = annotation (pr_annotations p) AnnotationExpiresAt"
      using assms(2) i by (auto simp: mock_ListSandboxes_def List.map_filter_def split: option.splits if_splits)
    have "map_of (mb_pods m) n = Some p" using np(1) d by simp
    moreover from this have "n = pod_name (si_SandboxID info)" using mock_good_pod assms(1) info by simp
    ultimately show ?thesis using np info by blast
  qed
  show "\<exists>info \<in> set infos. si_SandboxID info = sid"
    if p: "map_of (mb_pods m) (pod_name sid) = Some p" "map_of (mb_services m) (svc_name sid) = Some port" "port \<noteq> 0"
  proof -
    have "ss_SandboxID (pr_spec p) = sid" using mock_good_pod [OF assms(1) p(1)] by simp
    then show ?thesis
      using map_of_SomeD [OF p(1)] p(2,3) assms(2) by (force simp: mock_ListSandboxes_def List.map_filter_def)
  qed
qed

interpretation mock: sandbox_backend mock_backend mock_pods mock_good
proof (unfold_locales, unfold mock_backend_def backend.simps, goal_cases)
  case (3 s spec msg s')
  then show ?case by (auto simp: mock_CreatePod_def mock_good_def Let_def split: option.splits if_splits)
next
  case (11 s n a)
  then show ?case by (auto simp: mock_GetPodAnnotations_def mock_pods_Some split: option.splits)
next
  case (12 s n a e s')
  then show ?case
    by (auto simp: mock_SetPodAnnotations_def mock_pods_Some mock_good_pod split: option.splits)
next
  case (13 s n a s' spec a0)
  then show ?case by (auto simp: mock_SetPodAnnotations_def mock_pods_Some split: option.splits)
next
  case (14 s infos info)
  then show ?case using mock_listed(1) [OF 14(1,2,3)] by (auto simp: mock_pods_Some)
next
  case (15 s infos sid p port)
  then show ?case
    using mock_listed(2) [OF 15(1,2)] by (auto simp: mock_pods_def mock_GetNodePort_def split: option.splits)
qed (auto simp: mock_ops Let_def split: option.splits if_splits)

end
