(* ===== verification/Prov_Sandbox.thy ===== *)
theory Prov_Sandbox
  imports Prov_Backend
begin

text \<open>
  The life of a sandbox (\<open>pkg/provisioner/provisioner.go\<close>): create, get, list, renew, delete, evict, snapshot, restore,
  each as a function of the backend's state that makes the calls of the code in their order. The decoded request body is an
  argument (\<open>None\<close> when it does not decode); the readiness probe and the random bytes are parameters. The stamp of the
  application's name is a file inside the sandbox, written on a best-effort basis: it is no part of the backend's
  state and decides nothing.
\<close>

record prov_config =
  pc_SandboxImage :: string
  pc_Labels :: "string \<rightharpoonup> string"
  pc_NodeHost :: string
  pc_BridgeURL :: string
  pc_DefaultVolumes :: "volume list"
  pc_DefaultEgress :: egress_policy
  pc_RuntimeAPIKey :: string

record create_request =
  cr_SandboxID :: string
  cr_ThreadID :: string
  cr_Resources :: "resources option"
  cr_RuntimeClass :: string
  cr_TTLSeconds :: int
  cr_Volumes :: "volume list"
  cr_Egress :: egress_policy
  cr_ReuseExisting :: bool

datatype refusal =
    InvalidBody | IDRequired
  | BadResources "resource_name \<times> string \<times> string" | BadVolumes "nat \<times> volume_error" | BadEgress "nat option \<times> egress_error"
  | CollisionUnresolved | PodFailed string | ServiceFailed string | NodePortTimeout | NotReady string
  | NotFound string | NegativeTTL | NoPriorTTL | BadStoredTTL string | RenewFailed string
  | ListFailed string | PartialCleanup "string list" | EvictFailed string
  | NotRunning string string | SnapshotFailed string | MissingSnapshot | RestoreFailed "nat option" string

datatype prov_reply =
    Refused nat refusal
  | Info sandbox_info
  | Renewed string string int
  | Listing "sandbox_info list"
  | Done string
  | Action string string
  | Snapshot string string nat
  | Panicked

section \<open>Names\<close>

definition dash_char :: "char \<Rightarrow> bool" where
  "dash_char c \<longleftrightarrow> c \<in> {CHR ''-'', CHR ''_'', CHR ''.''}"

text \<open>The loop of \<open>sanitizeSandboxID\<close>: the bytes so far, reversed. A byte of 128 or more belongs to a rune that is
  dropped.\<close>

fun sanitize_loop :: "string \<Rightarrow> string \<Rightarrow> string" where
  "sanitize_loop b [] = b"
| "sanitize_loop b (r # rs) =
     (let b' = (if label_char r then r # b
                else if char_within (CHR ''A'') (CHR ''Z'') r then lower_char r # b
                else if dash_char r \<and> b \<noteq> [] \<and> hd b \<noteq> CHR ''-'' then CHR ''-'' # b
                else b)
      in if length b' \<ge> 40 then b' else sanitize_loop b' rs)"

definition sanitizeSandboxID :: "string \<Rightarrow> string" where
  "sanitizeSandboxID s = rev (dropWhile (\<lambda>c. c = CHR ''-'') (sanitize_loop [] s))"

text \<open>\<open>None\<close>: the random source failed; then the suffix is zero bytes.\<close>

definition randomHexSuffix :: "nat \<Rightarrow> bytes option \<Rightarrow> string" where
  "randomHexSuffix n buf =
     (case buf of None \<Rightarrow> replicate n (CHR 0x00)
      | Some bs \<Rightarrow> map (\<lambda>b. ''0123456789abcdef'' ! ((of_char b :: nat) mod 16)) (take n bs))"

fun alloc_loop :: "'s backend \<Rightarrow> 's \<Rightarrow> string \<Rightarrow> string list \<Rightarrow> string option" where
  "alloc_loop B s clean [] = None"
| "alloc_loop B s clean (x # xs) =
     (let candidate = clean @ ''-'' @ x in
      case be_GetNodePort B (svc_name candidate) s of
        Inl e \<Rightarrow> Some candidate
      | Inr port \<Rightarrow> if port = 0 then Some candidate else alloc_loop B s clean xs)"

text \<open>\<open>rnd i\<close>: what the random source yields at the attempt \<open>i\<close>.\<close>

definition allocFreshSandboxID :: "'s backend \<Rightarrow> (nat \<Rightarrow> bytes option) \<Rightarrow> string \<Rightarrow> 's \<Rightarrow> string option" where
  "allocFreshSandboxID B rnd base s =
     (let clean = sanitizeSandboxID base in
      alloc_loop B s (if clean = [] then ''sandbox'' else clean) (map (\<lambda>i. randomHexSuffix 4 (rnd i)) [0..<8]))"

definition sandboxURL :: "prov_config \<Rightarrow> string \<Rightarrow> int \<Rightarrow> string" where
  "sandboxURL cfg sid port =
     (if pc_BridgeURL cfg \<noteq> [] then ''http://bridge.invalid/api/sandboxes/'' @ sid @ ''/runtime''
      else ''http://'' @ pc_NodeHost cfg @ '':'' @ format_int port)"

section \<open>Create\<close>

text \<open>\<open>err == nil && port > 0\<close>\<close>

definition live_port :: "'s backend \<Rightarrow> string \<Rightarrow> 's \<Rightarrow> int option" where
  "live_port B svc s = (case be_GetNodePort B svc s of Inr p \<Rightarrow> if p > 0 then Some p else None | Inl e \<Rightarrow> None)"

text \<open>The checks before anything is touched: the request with its defaults, or a refusal.\<close>

definition create_checks :: "quantity_parser \<Rightarrow> (string \<Rightarrow> string) \<Rightarrow> prov_config \<Rightarrow> create_request option
    \<Rightarrow> prov_reply + create_request" where
  "create_checks quantity env cfg body =
     (case body of
        None \<Rightarrow> Inl (Refused StatusBadRequest InvalidBody)
      | Some req0 \<Rightarrow>
          if cr_SandboxID req0 = [] then Inl (Refused StatusBadRequest IDRequired)
          else (let req = (if cr_ThreadID req0 = [] then req0\<lparr>cr_ThreadID := cr_SandboxID req0\<rparr> else req0) in
            case buildResourceRequirements quantity env (cr_Resources req) of
              None \<Rightarrow> Inl Panicked
            | Some (Inl e) \<Rightarrow> Inl (Refused StatusBadRequest (BadResources e))
            | Some (Inr _) \<Rightarrow>
                (let req = req\<lparr>cr_Volumes := mergeDefaultVolumes (cr_Volumes req) (pc_DefaultVolumes cfg)\<rparr> in
                 case validateVolumes quantity (cr_Volumes req) of
                   Some e \<Rightarrow> Inl (Refused StatusBadRequest (BadVolumes e))
                 | None \<Rightarrow>
                     (let req = (if IsZero (cr_Egress req) then req\<lparr>cr_Egress := pc_DefaultEgress cfg\<rparr> else req) in
                      case Validate (cr_Egress req) of
                        Some e \<Rightarrow> Inl (Refused StatusBadRequest (BadEgress e))
                      | None \<Rightarrow> Inr req))))"

text \<open>The collision policy: a reply at once, or the name to create.\<close>

definition create_name :: "'s backend \<Rightarrow> prov_config \<Rightarrow> (nat \<Rightarrow> bytes option) \<Rightarrow> create_request \<Rightarrow> 's
    \<Rightarrow> prov_reply + string" where
  "create_name B cfg rnd req s =
     (case live_port B (svc_name (cr_SandboxID req)) s of
        None \<Rightarrow> Inr (cr_SandboxID req)
      | Some port \<Rightarrow>
          if cr_ReuseExisting req then
            Inl (Info \<lparr>si_SandboxID = cr_SandboxID req, si_SandboxURL = sandboxURL cfg (cr_SandboxID req) port,
              si_Status = be_GetPodPhase B (pod_name (cr_SandboxID req)) s, si_ExpiresAt = []\<rparr>)
          else (case allocFreshSandboxID B rnd (cr_SandboxID req) s of
              None \<Rightarrow> Inl (Refused StatusInternalServerError CollisionUnresolved)
            | Some sid \<Rightarrow> Inr sid))"

fun await_port :: "'s backend \<Rightarrow> string \<Rightarrow> nat \<Rightarrow> 's \<Rightarrow> int \<times> 's" where
  "await_port B svc 0 s = (0, s)"
| "await_port B svc (Suc k) s =
     (case live_port B svc s of Some p \<Rightarrow> (p, s) | None \<Rightarrow> await_port B svc k (be_Sleep B s))"

definition create_spec :: "prov_config \<Rightarrow> instant \<Rightarrow> create_request \<Rightarrow> string \<Rightarrow> sandbox_spec" where
  "create_spec cfg now req sid =
     \<lparr>ss_SandboxID = sid, ss_ThreadID = cr_ThreadID req, ss_Image = pc_SandboxImage cfg, ss_Labels = pc_Labels cfg,
      ss_NodeHost = pc_NodeHost cfg, ss_Resources = cr_Resources req, ss_RuntimeClass = cr_RuntimeClass req,
      ss_Annotations = ttlAnnotations now (cr_TTLSeconds req), ss_Volumes = cr_Volumes req, ss_Egress = cr_Egress req,
      ss_RuntimeAPIKey = pc_RuntimeAPIKey cfg\<rparr>"

text \<open>From the creation of the pod to the reply. \<open>ready\<close> is the probe: \<open>None\<close> when it succeeds.\<close>

definition create_pod_and_service :: "'s backend \<Rightarrow> prov_config \<Rightarrow> (string \<Rightarrow> string option) \<Rightarrow> instant
    \<Rightarrow> create_request \<Rightarrow> string \<Rightarrow> 's \<Rightarrow> prov_reply \<times> 's" where
  "create_pod_and_service B cfg ready now req sid s =
     (let spec = create_spec cfg now req sid;
          (e1, s1) = be_CreatePod B spec s
      in if (\<exists>e \<in> set_option e1. \<not> contains_str e ''already exists'') then
           (Refused StatusInternalServerError (PodFailed (the e1)), s1)
         else (let (e2, s2) = be_CreateService B spec s1 in
           if (\<exists>e \<in> set_option e2. \<not> contains_str e ''already exists'') then
             (Refused StatusInternalServerError (ServiceFailed (the e2)), snd (be_DeletePod B (pod_name sid) 0 s2))
           else (let (port, s3) = await_port B (svc_name sid) 20 s2 in
             if port = 0 then (Refused StatusInternalServerError NodePortTimeout, s3)
             else (case ready (''http://'' @ pc_NodeHost cfg @ '':'' @ format_int port) of
                 Some e \<Rightarrow> (Refused StatusInternalServerError (NotReady e), s3)
               | None \<Rightarrow>
                   (Info \<lparr>si_SandboxID = sid, si_SandboxURL = sandboxURL cfg sid port,
                      si_Status = be_GetPodPhase B (pod_name sid) s3,
                      si_ExpiresAt = (case ttlAnnotations now (cr_TTLSeconds req) of
                        None \<Rightarrow> [] | Some a \<Rightarrow> annotation a AnnotationExpiresAt)\<rparr>, s3)))))"

definition handleCreate :: "'s backend \<Rightarrow> quantity_parser \<Rightarrow> (string \<Rightarrow> string) \<Rightarrow> prov_config \<Rightarrow> (string \<Rightarrow> string option)
    \<Rightarrow> (nat \<Rightarrow> bytes option) \<Rightarrow> instant \<Rightarrow> create_request option \<Rightarrow> 's \<Rightarrow> prov_reply \<times> 's" where
  "handleCreate B quantity env cfg ready rnd now body s =
     (case create_checks quantity env cfg body of
        Inl r \<Rightarrow> (r, s)
      | Inr req \<Rightarrow>
          (case create_name B cfg rnd req s of
             Inl r \<Rightarrow> (r, s)
           | Inr sid \<Rightarrow> create_pod_and_service B cfg ready now req sid s))"

section \<open>The other operations\<close>

definition handleGet :: "'s backend \<Rightarrow> prov_config \<Rightarrow> string \<Rightarrow> 's \<Rightarrow> prov_reply" where
  "handleGet B cfg sid s =
     (case be_GetNodePort B (svc_name sid) s of
        Inl e \<Rightarrow> Refused StatusNotFound (NotFound sid)
      | Inr port \<Rightarrow>
          if port = 0 then Refused StatusNotFound (NotFound sid)
          else Info \<lparr>si_SandboxID = sid, si_SandboxURL = sandboxURL cfg sid port,
            si_Status = be_GetPodPhase B (pod_name sid) s,
            si_ExpiresAt = (case be_GetPodAnnotations B (pod_name sid) s of
              Inl e \<Rightarrow> [] | Inr a \<Rightarrow> annotation a AnnotationExpiresAt)\<rparr>)"

text \<open>The lifetime asked for, zero when there is no body; \<open>None\<close> when the body does not decode.\<close>

definition handleRenew :: "'s backend \<Rightarrow> instant \<Rightarrow> string \<Rightarrow> int option \<Rightarrow> 's \<Rightarrow> prov_reply \<times> 's" where
  "handleRenew B now sid body s =
     (case body of
        None \<Rightarrow> (Refused StatusBadRequest InvalidBody, s)
      | Some asked \<Rightarrow>
          if asked < 0 then (Refused StatusBadRequest NegativeTTL, s)
          else (case be_GetPodAnnotations B (pod_name sid) s of
              Inl e \<Rightarrow> (Refused StatusNotFound (NotFound sid), s)
            | Inr existing \<Rightarrow>
                (let stored = annotation existing AnnotationTTLSec;
                     ttl = (if asked \<noteq> 0 then Inr asked
                            else if stored = [] then Inl (Refused StatusBadRequest NoPriorTTL)
                            else (case scan_d stored of
                                None \<Rightarrow> Inl (Refused StatusInternalServerError (BadStoredTTL stored))
                              | Some n \<Rightarrow> if n \<le> 0 then Inl (Refused StatusInternalServerError (BadStoredTTL stored)) else Inr n))
                 in case ttl of
                   Inl r \<Rightarrow> (r, s)
                 | Inr n \<Rightarrow>
                     (let updated = the (ttlAnnotations now n) in
                      case be_SetPodAnnotations B (pod_name sid) updated s of
                        (Some e, s') \<Rightarrow> (Refused StatusInternalServerError (RenewFailed e), s')
                      | (None, s') \<Rightarrow> (Renewed sid (annotation updated AnnotationExpiresAt) n, s')))))"

definition handleList :: "'s backend \<Rightarrow> prov_config \<Rightarrow> 's \<Rightarrow> prov_reply" where
  "handleList B cfg s =
     (case be_ListSandboxes B s of
        Inl e \<Rightarrow> Refused StatusInternalServerError (ListFailed e)
      | Inr infos \<Rightarrow> Listing (if pc_BridgeURL cfg \<noteq> []
          then map (\<lambda>i. i\<lparr>si_SandboxURL := sandboxURL cfg (si_SandboxID i) 0\<rparr>) infos else infos))"

definition real_error :: "string \<Rightarrow> string option \<Rightarrow> string list" where
  "real_error what e = (case e of None \<Rightarrow> [] | Some m \<Rightarrow> if contains_str m ''not found'' then [] else [what @ '': '' @ m])"

definition handleDelete :: "'s backend \<Rightarrow> string \<Rightarrow> 's \<Rightarrow> prov_reply \<times> 's" where
  "handleDelete B sid s =
     (let (e1, s1) = be_DeleteService B (svc_name sid) s;
          (e2, s2) = be_DeletePod B (pod_name sid) 0 s1;
          errors = real_error ''service'' e1 @ real_error ''pod'' e2
      in (if errors \<noteq> [] then Refused StatusInternalServerError (PartialCleanup errors) else Done sid, s2))"

definition handleEvict :: "'s backend \<Rightarrow> string \<Rightarrow> 's \<Rightarrow> prov_reply \<times> 's" where
  "handleEvict B sid s =
     (if be_GetPodPhase B (pod_name sid) s \<notin> {''Running'', ''Pending''} then (Action sid ''already_gone'', s)
      else (case be_DeletePod B (pod_name sid) 30 s of
          (Some e, s1) \<Rightarrow>
            (if contains_str e ''not found'' then Action sid ''already_gone''
             else Refused StatusInternalServerError (EvictFailed e), s1)
        | (None, s1) \<Rightarrow> (Action sid ''evicted'', snd (be_DeleteService B (svc_name sid) s1))))"

definition snapshot_command :: string where
  "snapshot_command = ''cd /workspace && tar czf - --exclude=node_modules --exclude=.cache --exclude=dist --exclude=build --exclude=.npm . 2>/dev/null | base64''"

definition handleSnapshot :: "'s backend \<Rightarrow> string \<Rightarrow> 's \<Rightarrow> prov_reply \<times> 's" where
  "handleSnapshot B sid s =
     (let phase = be_GetPodPhase B (pod_name sid) s in
      if phase \<noteq> ''Running'' then (Refused StatusNotFound (NotRunning sid phase), s)
      else (case be_ExecInPod B (pod_name sid) [''bash'', ''-c'', snapshot_command] s of
          (Inl e, s1) \<Rightarrow> (Refused StatusInternalServerError (SnapshotFailed e), s1)
        | (Inr out, s1) \<Rightarrow> (Snapshot sid (trim_space out) (length out), s1)))"

section \<open>Restore\<close>

abbreviation "chunkSize \<equiv> (50000 :: nat)"

function chunks :: "nat \<Rightarrow> string \<Rightarrow> string list" where
  "chunks k s = (if s = [] \<or> k = 0 then [] else take k s # chunks k (drop k s))"
  by pat_completeness auto
termination by (relation "measure (length \<circ> snd)") auto

declare chunks.simps [simp del]

definition chunk_command :: "string \<Rightarrow> string" where
  "chunk_command chunk = ''echo '' @ [CHR 0x27] @ chunk @ [CHR 0x27] @ '' | base64 -d >> /tmp/snapshot.tar.gz''"

fun write_chunks :: "'s backend \<Rightarrow> string \<Rightarrow> nat \<Rightarrow> string list \<Rightarrow> 's \<Rightarrow> (nat \<times> string) option \<times> 's" where
  "write_chunks B pod i [] s = (None, s)"
| "write_chunks B pod i (c # cs) s =
     (case be_ExecInPod B pod [''bash'', ''-c'', chunk_command c] s of
        (Inl e, s1) \<Rightarrow> (Some (i, e), s1)
      | (Inr _, s1) \<Rightarrow> write_chunks B pod (Suc i) cs s1)"

definition handleRestore :: "'s backend \<Rightarrow> string \<Rightarrow> string option \<Rightarrow> 's \<Rightarrow> prov_reply \<times> 's" where
  "handleRestore B sid body s =
     (if body = None \<or> body = Some [] then (Refused StatusBadRequest MissingSnapshot, s)
      else (let phase = be_GetPodPhase B (pod_name sid) s in
        if phase \<noteq> ''Running'' then (Refused StatusNotFound (NotRunning sid phase), s)
        else (let (r0, s0) = be_ExecInPod B (pod_name sid) [''bash'', ''-c'', ''rm -f /tmp/snapshot.tar.gz''] s in
          case write_chunks B (pod_name sid) 0 (chunks chunkSize (the body)) s0 of
            (Some (i, e), s1) \<Rightarrow> (Refused StatusInternalServerError (RestoreFailed (Some i) e), s1)
          | (None, s1) \<Rightarrow>
              (case be_ExecInPod B (pod_name sid)
                  [''bash'', ''-c'', ''cd /workspace && tar xzf /tmp/snapshot.tar.gz 2>&1 && rm -f /tmp/snapshot.tar.gz''] s1 of
                 (Inl e, s2) \<Rightarrow> (Refused StatusInternalServerError (RestoreFailed None e), s2)
               | (Inr _, s2) \<Rightarrow> (Done sid, s2)))))"

section \<open>The reaper\<close>

text \<open>\<open>reaper.go\<close>: one sweep. The deletions run in parallel, at most eight at a time; their order is a parameter.\<close>

definition reapOne :: "'s backend \<Rightarrow> string \<Rightarrow> 's \<Rightarrow> 's" where
  "reapOne B sid s = snd (be_DeleteService B (svc_name sid) (snd (be_DeletePod B (pod_name sid) 10 s)))"

definition expired_ids :: "instant \<Rightarrow> sandbox_info list \<Rightarrow> string list" where
  "expired_ids now infos = map si_SandboxID (filter (\<lambda>i. deadline_passed (si_ExpiresAt i) now) infos)"

definition sweep :: "'s backend \<Rightarrow> instant \<Rightarrow> (string list \<Rightarrow> string list) \<Rightarrow> 's \<Rightarrow> 's" where
  "sweep B now order s =
     (case be_ListSandboxes B s of
        Inl e \<Rightarrow> s
      | Inr infos \<Rightarrow> fold (reapOne B) (order (expired_ids now infos)) s)"

end
