(* ===== verification/Prov_Lifecycle.thy ===== *)
theory Prov_Lifecycle
  imports Prov_Sandbox
begin

text \<open>
  What the provisioner's operations do to the pods, over any backend that keeps the laws of
  \<open>Prov_Backend\<close>: which pods they touch, that a create never joins another sandbox, that a
  sweep removes what has expired and nothing else, and how long a sandbox lives.
\<close>

section \<open>Frames\<close>

lemma renew_state:
  "handleRenew B now sid body s = (r, s') \<Longrightarrow> s' = s \<or> (\<exists>a e. be_SetPodAnnotations B (pod_name sid) a s = (e, s'))"
  by (auto simp: handleRenew_def Let_def split: option.splits if_splits sum.splits prod.splits)

context sandbox_backend
begin

lemma await_port_frame: "good s \<Longrightarrow> await_port B svc k s = (p, s') \<Longrightarrow> good s' \<and> pods s' = pods s"
  by (induction k arbitrary: s) (auto split: option.splits dest: sleep)

lemma delete_frame: "good s \<Longrightarrow> good (snd (be_DeletePod B n g s)) \<and> view_change (pods s) (pods (snd (be_DeletePod B n g s))) {n}"
  using delete_pod [of s n g] by (cases "be_DeletePod B n g s") (auto simp: view_change_def)

lemma service_frame:
  "good s \<Longrightarrow> good (snd (be_CreateService B spec s)) \<and> pods (snd (be_CreateService B spec s)) = pods s"
  "good s \<Longrightarrow> good (snd (be_DeleteService B m s)) \<and> pods (snd (be_DeleteService B m s)) = pods s"
  using services by (metis prod.collapse)+

lemma create_frame:
  assumes "good s" and "create_pod_and_service B cfg ready now req sid s = (r, s')"
  shows "good s' \<and> view_change (pods s) (pods s') {pod_name sid}"
proof -
  define spec where "spec = create_spec cfg now req sid"
  obtain e1 s1 where c1: "be_CreatePod B spec s = (e1, s1)" by force
  obtain e2 s2 where c2: "be_CreateService B spec s1 = (e2, s2)" by force
  obtain port s3 where c3: "await_port B (svc_name sid) 20 s2 = (port, s3)" by force
  have g1: "good s1" "view_change (pods s) (pods s1) {pod_name sid}"
    using create_pod [OF assms(1) c1] by (auto simp: view_change_def spec_def create_spec_def)
  have g2: "good s2" "pods s2 = pods s1" using services(1) [OF g1(1) c2] by auto
  have g3: "good s3" "pods s3 = pods s2" using await_port_frame [OF g2(1) c3] by auto
  have gd: "good (snd (be_DeletePod B (pod_name sid) 0 s2))"
    "view_change (pods s2) (pods (snd (be_DeletePod B (pod_name sid) 0 s2))) {pod_name sid}"
    using delete_frame [OF g2(1)] by auto
  have "s' \<in> {s1, snd (be_DeletePod B (pod_name sid) 0 s2), s3}"
    using assms(2) unfolding create_pod_and_service_def spec_def [symmetric] Let_def c1 prod.case c2 c3
    by (auto split: if_splits option.splits)
  then show ?thesis using g1 g2 g3 gd by (auto simp: view_change_def)
qed

lemma create_new:
  assumes "good s" and "create_pod_and_service B cfg ready now req sid s = (Info i, s')" and "pods s (pod_name sid) = None"
  shows "pods s' = (pods s)(pod_name sid \<mapsto> (create_spec cfg now req sid, spec_annotations (create_spec cfg now req sid)))
    \<and> si_SandboxID i = sid \<and> ready (''http://'' @ pc_NodeHost cfg @ '':'' @ format_int (fst (await_port B (svc_name sid) 20
        (snd (be_CreateService B (create_spec cfg now req sid) (snd (be_CreatePod B (create_spec cfg now req sid) s))))))) = None"
proof -
  define spec where "spec = create_spec cfg now req sid"
  have name: "ss_SandboxID spec = sid" by (simp add: spec_def create_spec_def)
  obtain e1 s1 where c1: "be_CreatePod B spec s = (e1, s1)" by force
  obtain e2 s2 where c2: "be_CreateService B spec s1 = (e2, s2)" by force
  obtain port s3 where c3: "await_port B (svc_name sid) 20 s2 = (port, s3)" by force
  note d = assms(2) [unfolded create_pod_and_service_def spec_def [symmetric] Let_def c1 prod.case c2 c3]
  have "e1 = None"
  proof (rule ccontr)
    assume "e1 \<noteq> None"
    then obtain m where m: "e1 = Some m" by blast
    then have "contains_str m ''already exists''" using d by (auto split: if_splits)
    from create_pod_exists [OF assms(1) c1 [unfolded m] this] show False using name assms(3) by simp
  qed
  then have p1: "pods s1 = (pods s)(pod_name sid \<mapsto> (spec, spec_annotations spec))" and g1: "good s1"
    using create_pod [OF assms(1) c1] create_pod_ok [OF assms(1), of spec s1] c1 name assms(3) by auto
  have g2: "good s2" "pods s2 = pods s1" using services(1) [OF g1 c2] by auto
  have g3: "pods s3 = pods s2" using await_port_frame [OF g2(1) c3] by auto
  show ?thesis
    using d p1 g2 g3 unfolding spec_def [symmetric] c1 snd_conv c2 c3 fst_conv
    by (auto split: if_splits option.splits)
qed

lemma renew_frame:
  assumes "good s" and "handleRenew B now sid body s = (r, s')"
  shows "good s' \<and> view_change (pods s) (pods s') {pod_name sid}"
proof -
  show ?thesis using renew_state [OF assms(2)]
  proof (elim disjE exE)
    fix a e assume "be_SetPodAnnotations B (pod_name sid) a s = (e, s')"
    from set_annotations [OF assms(1) this] show ?thesis by (auto simp: view_change_def)
  qed (simp add: assms(1) view_change_def)
qed

lemma delete_handler_frame:
  assumes "good s" shows "good (snd (handleDelete B sid s)) \<and> view_change (pods s) (pods (snd (handleDelete B sid s))) {pod_name sid}"
proof -
  have "snd (handleDelete B sid s) = snd (be_DeletePod B (pod_name sid) 0 (snd (be_DeleteService B (svc_name sid) s)))"
    by (simp add: handleDelete_def Let_def split: prod.splits)
  then show ?thesis using service_frame(2) [OF assms] delete_frame by metis
qed

lemma evict_frame:
  assumes "good s" shows "good (snd (handleEvict B sid s)) \<and> view_change (pods s) (pods (snd (handleEvict B sid s))) {pod_name sid}"
proof -
  let ?d = "snd (be_DeletePod B (pod_name sid) 30 s)"
  have "snd (handleEvict B sid s) \<in> {s, ?d, snd (be_DeleteService B (svc_name sid) ?d)}"
    by (auto simp: handleEvict_def split: prod.splits option.splits)
  then show ?thesis using assms delete_frame [OF assms] service_frame(2) by (auto simp: view_change_def)
qed

lemma write_chunks_frame: "good s \<Longrightarrow> write_chunks B p i cs s = (r, s') \<Longrightarrow> good s' \<and> pods s' = pods s"
proof (induction cs arbitrary: i s)
  case (Cons c cs)
  obtain x s1 where x: "be_ExecInPod B p [''bash'', ''-c'', chunk_command c] s = (x, s1)" by force
  have "good s1" "pods s1 = pods s" using exec [OF Cons.prems(1) x] by auto
  with x Cons show ?case by (cases x) auto
qed simp

lemma restore_frame:
  assumes "good s" shows "good (snd (handleRestore B sid body s)) \<and> pods (snd (handleRestore B sid body s)) = pods s"
proof -
  obtain r0 s0 where c0: "be_ExecInPod B (pod_name sid) [''bash'', ''-c'', ''rm -f /tmp/snapshot.tar.gz''] s = (r0, s0)" by force
  obtain r1 s1 where c1: "write_chunks B (pod_name sid) 0 (chunks chunkSize (the body)) s0 = (r1, s1)" by force
  obtain r2 s2 where c2: "be_ExecInPod B (pod_name sid)
    [''bash'', ''-c'', ''cd /workspace && tar xzf /tmp/snapshot.tar.gz 2>&1 && rm -f /tmp/snapshot.tar.gz''] s1 = (r2, s2)" by force
  have g0: "good s0" "pods s0 = pods s" using exec [OF assms c0] by auto
  have g1: "good s1" "pods s1 = pods s" using write_chunks_frame [OF g0(1) c1] g0(2) by auto
  have g2: "good s2" "pods s2 = pods s" using exec [OF g1(1) c2] g1(2) by auto
  have "snd (handleRestore B sid body s) \<in> {s, s1, s2}"
    unfolding handleRestore_def Let_def c0 prod.case c1 c2 by (auto split: option.split sum.split)
  then show ?thesis using assms g1 g2 by auto
qed

lemma reapOne_frame:
  assumes "good s"
  shows "good (reapOne B sid s) \<and> view_change (pods s) (pods (reapOne B sid s)) {pod_name sid}
    \<and> pods (reapOne B sid s) = pods (snd (be_DeletePod B (pod_name sid) 10 s))"
  unfolding reapOne_def
  using delete_frame [OF assms, of "pod_name sid" 10] service_frame(2) [of "snd (be_DeletePod B (pod_name sid) 10 s)" "svc_name sid"]
  by simp

lemma delete_shrinks:
  assumes "good s" shows "pods (reapOne B sid s) n = pods s n \<or> n = pod_name sid \<and> pods (reapOne B sid s) n = None"
proof -
  obtain e s1 where d: "be_DeletePod B (pod_name sid) 10 s = (e, s1)" by force
  have "pods (reapOne B sid s) = pods s1" using reapOne_frame [OF assms, of sid] d by simp
  then show ?thesis using delete_pod [OF assms d] by (cases "n = pod_name sid") auto
qed

lemma reap_fold:
  "good s \<Longrightarrow> good (fold (reapOne B) ids s) \<and>
     (pods (fold (reapOne B) ids s) n = pods s n \<or> n \<in> pod_name ` set ids \<and> pods (fold (reapOne B) ids s) n = None)"
proof (induction ids arbitrary: s)
  case (Cons sid ids)
  note g = reapOne_frame [OF Cons.prems, of sid] and d = delete_shrinks [OF Cons.prems, of sid n]
  from Cons.IH [of "reapOne B sid s"] g d show ?case by auto
qed simp

lemma reap_fold_gone:
  assumes del: "\<And>s n. good s \<Longrightarrow> pods (snd (be_DeletePod B n 10 s)) n = None"
  shows "good s \<Longrightarrow> sid \<in> set ids \<Longrightarrow> pods (fold (reapOne B) ids s) (pod_name sid) = None"
proof (induction ids arbitrary: s)
  case (Cons x ids)
  have g: "good (reapOne B x s)" using reapOne_frame Cons.prems by blast
  show ?case
  proof (cases "x = sid")
    case True
    have "pods (reapOne B sid s) (pod_name sid) = None"
      using reapOne_frame [OF Cons.prems(1), of sid] del [OF Cons.prems(1)] by simp
    then show ?thesis using reap_fold [OF g, of ids "pod_name sid"] True by auto
  next
    case False
    then show ?thesis using Cons g by simp
  qed
qed simp

end

section \<open>Creating\<close>

text \<open>Every pod answers under its service: what the provisioner takes for "the sandbox exists".\<close>

definition probeable :: "'s backend \<Rightarrow> ('s \<Rightarrow> pod_view) \<Rightarrow> 's \<Rightarrow> bool" where
  "probeable B pods s \<longleftrightarrow> (\<forall>sid. pods s (pod_name sid) \<noteq> None \<longrightarrow> live_port B (svc_name sid) s \<noteq> None)"

lemma alloc_loop_Some:
  "alloc_loop B s clean xs = Some sid \<Longrightarrow> \<exists>x \<in> set xs. sid = clean @ ''-'' @ x \<and> live_port B (svc_name sid) s = None"
  by (induction xs) (auto simp: Let_def live_port_def split: sum.splits if_splits)

lemma create_name_Some:
  assumes "create_name B cfg rnd req s = Inr sid"
  shows "live_port B (svc_name sid) s = None"
  using assms alloc_loop_Some [of B s _ _ sid]
  by (auto simp: create_name_def allocFreshSandboxID_def Let_def split: option.splits if_splits)

lemma create_checks_Inr:
  assumes "create_checks quantity env cfg (Some req0) = Inr req"
  shows "volumes_ok quantity (cr_Volumes req) \<and> Validate (cr_Egress req) = None \<and> cr_SandboxID req = cr_SandboxID req0
    \<and> cr_TTLSeconds req = cr_TTLSeconds req0 \<and> cr_ReuseExisting req = cr_ReuseExisting req0 \<and> cr_ThreadID req \<noteq> []"
proof -
  have "validateVolumes quantity (cr_Volumes req) = None \<and> Validate (cr_Egress req) = None \<and> cr_SandboxID req = cr_SandboxID req0
    \<and> cr_TTLSeconds req = cr_TTLSeconds req0 \<and> cr_ReuseExisting req = cr_ReuseExisting req0 \<and> cr_ThreadID req \<noteq> []"
    using assms by (auto simp: create_checks_def Let_def split: if_splits option.splits sum.splits)
  then show ?thesis by (simp add: validateVolumes_def validate_loop_None)
qed


definition plain_request :: "string \<Rightarrow> int \<Rightarrow> create_request" where
  "plain_request sid ttl = \<lparr>cr_SandboxID = sid, cr_ThreadID = [], cr_Resources = None, cr_RuntimeClass = [],
     cr_TTLSeconds = ttl, cr_Volumes = [], cr_Egress = \<lparr>ep_Mode = [], ep_Rules = []\<rparr>, cr_ReuseExisting = False\<rparr>"

definition plain_config :: prov_config where
  "plain_config = \<lparr>pc_SandboxImage = ''runtime'', pc_Labels = Map.empty, pc_NodeHost = ''localhost'', pc_BridgeURL = [],
     pc_DefaultVolumes = [], pc_DefaultEgress = \<lparr>ep_Mode = [], ep_Rules = []\<rparr>, pc_RuntimeAPIKey = []\<rparr>"

abbreviation "plain_create rnd now sid ttl \<equiv>
  handleCreate mock_backend (\<lambda>_. None) (\<lambda>_. []) plain_config (\<lambda>_. None) rnd now (Some (plain_request sid ttl))"

abbreviation "rnd0 \<equiv> (\<lambda>_. Some ''abcd'')"

lemma mock_probeable_code:
  "probeable mock_backend mock_pods m \<longleftrightarrow> list_all (\<lambda>(n, p). live_port mock_backend (svc_of_pod n) m \<noteq> None) (mb_pods m)"
  if "mock_good m"
proof
  assume h: "probeable mock_backend mock_pods m"
  have "live_port mock_backend (svc_of_pod n) m \<noteq> None" if np: "(n, p) \<in> set (mb_pods m)" for n p
  proof -
    have "map_of (mb_pods m) n = Some p" using \<open>mock_good m\<close> np by (simp add: mock_good_def)
    moreover from this have "n = pod_name (ss_SandboxID (pr_spec p))" using mock_good_pod \<open>mock_good m\<close> by blast
    ultimately show ?thesis using h unfolding probeable_def by (metis mock_pods_None option.distinct(1))
  qed
  then show "list_all (\<lambda>(n, p). live_port mock_backend (svc_of_pod n) m \<noteq> None) (mb_pods m)" by (auto simp: list_all_iff)
next
  assume h: "list_all (\<lambda>(n, p). live_port mock_backend (svc_of_pod n) m \<noteq> None) (mb_pods m)"
  show "probeable mock_backend mock_pods m"
    unfolding probeable_def using h by (fastforce simp: list_all_iff mock_pods_def dest: map_of_SomeD)
qed

definition one_sandbox :: mock where
  "one_sandbox = \<lparr>mb_pods = [(''sandbox-ab'', \<lparr>pr_spec = create_spec plain_config 0 (plain_request ''ab'' 0) ''ab'',
       pr_phase = ''Running'', pr_annotations = Map.empty\<rparr>)],
     mb_services = [(''sandbox-ab-svc'', 80)], mb_nextPort = 81, mb_CreatePodErr = None\<rparr>"

lemma one_sandbox_good: "mock_good one_sandbox" by code_simp

lemma one_sandbox_probeable: "probeable mock_backend mock_pods one_sandbox"
  unfolding mock_probeable_code [OF one_sandbox_good] by code_simp


section \<open>Allocated names\<close>

lemma sanitize_loop_shape:
  "list_all (\<lambda>c. label_char c \<or> c = CHR ''-'') b \<Longrightarrow> (b \<noteq> [] \<longrightarrow> label_char (last b)) \<Longrightarrow> length b < 40 \<Longrightarrow>
     list_all (\<lambda>c. label_char c \<or> c = CHR ''-'') (sanitize_loop b s)
     \<and> (sanitize_loop b s \<noteq> [] \<longrightarrow> label_char (last (sanitize_loop b s))) \<and> length (sanitize_loop b s) \<le> 40"
proof (induction s arbitrary: b)
  case (Cons r rs)
  define b' where "b' = (if label_char r then r # b
    else if char_within (CHR ''A'') (CHR ''Z'') r then lower_char r # b
    else if dash_char r \<and> b \<noteq> [] \<and> hd b \<noteq> CHR ''-'' then CHR ''-'' # b else b)"
  have low: "\<forall>c. char_within (CHR ''A'') (CHR ''Z'') c \<longrightarrow> label_char (lower_char c)" by code_simp
  have b': "list_all (\<lambda>c. label_char c \<or> c = CHR ''-'') b'" "b' \<noteq> [] \<longrightarrow> label_char (last b')" "length b' \<le> 40"
    using Cons.prems low by (auto simp: b'_def)
  have step: "sanitize_loop b (r # rs) = (if length b' \<ge> 40 then b' else sanitize_loop b' rs)"
    by (simp add: b'_def Let_def)
  show ?case
  proof (cases "length b' \<ge> 40")
    case True
    then show ?thesis unfolding step using b' by simp
  next
    case False
    then show ?thesis unfolding step using Cons.IH [OF b'(1,2)] by simp
  qed
qed simp

lemma sanitize_shape:
  "length (sanitizeSandboxID s) \<le> 40 \<and> (sanitizeSandboxID s \<noteq> [] \<longrightarrow> dns1123Label (sanitizeSandboxID s))"
proof -
  define b where "b = sanitize_loop [] s"
  have b: "list_all (\<lambda>c. label_char c \<or> c = CHR ''-'') b" "b \<noteq> [] \<Longrightarrow> label_char (last b)" "length b \<le> 40"
    using sanitize_loop_shape [of "[]" s] by (auto simp: b_def)
  define d where "d = dropWhile (\<lambda>c. c = CHR ''-'') b"
  have "length d \<le> length b" unfolding d_def by (rule length_dropWhile_le)
  moreover have "dns1123Label (rev d)" if d: "d \<noteq> []"
  proof -
    have sub: "set d \<subseteq> set b" unfolding d_def by (meson set_dropWhileD subsetI)
    have "hd d \<noteq> CHR ''-''" using d unfolding d_def by (rule hd_dropWhile)
    moreover have "last d = last b" using d unfolding d_def by (metis append_is_Nil_conv last_appendR takeWhile_dropWhile_id)
    moreover have "b \<noteq> []" using d by (auto simp: d_def)
    moreover have "hd d \<in> set b" using sub d by auto
    ultimately show ?thesis
      using d b sub by (auto simp: dns1123Label_def hd_rev last_rev list_all_iff)
  qed
  ultimately show ?thesis using b(3) by (simp add: sanitizeSandboxID_def b_def [symmetric] d_def [symmetric])
qed

lemma dns1123_append: "dns1123Label a \<Longrightarrow> dns1123Label b \<Longrightarrow> dns1123Label (a @ CHR ''-'' # b)"
  by (auto simp: dns1123Label_def)

lemma hex_suffix: "length bs = 4 \<Longrightarrow> dns1123Label (randomHexSuffix 4 (Some bs)) \<and> length (randomHexSuffix 4 (Some bs)) = 4"
proof -
  assume l: "length bs = 4"
  have "\<forall>k \<in> set [0..<16]. label_char (''0123456789abcdef'' ! k)" by code_simp
  then have "label_char (''0123456789abcdef'' ! (k mod 16))" for k :: nat by simp
  then have "list_all label_char (randomHexSuffix 4 (Some bs))" by (simp add: randomHexSuffix_def list_all_iff)
  moreover have "length (randomHexSuffix 4 (Some bs)) = 4" using l by (simp add: randomHexSuffix_def)
  moreover from this have "randomHexSuffix 4 (Some bs) \<noteq> []" by auto
  ultimately show ?thesis using hd_in_set last_in_set by (auto simp: dns1123Label_def list_all_iff)
qed

text \<open>When a name is taken, the name allocated in its place is free, is made of the sanitised request and four
  hexadecimal digits, and is a DNS label of at most 45 bytes, whatever bytes the request contained; and the search gives up
  only if all eight candidates are in use.\<close>

theorem allocated_name_safe:
  assumes "\<And>i. i < 8 \<Longrightarrow> \<exists>bs. rnd i = Some bs \<and> length bs = 4"
  shows "case allocFreshSandboxID B rnd base s of
      Some sid \<Rightarrow> live_port B (svc_name sid) s = None \<and> dns1123Label sid \<and> length sid \<le> 45
        \<and> (\<exists>i < 8. sid = (if sanitizeSandboxID base = [] then ''sandbox'' else sanitizeSandboxID base)
             @ ''-'' @ randomHexSuffix 4 (rnd i))
    | None \<Rightarrow> \<forall>i < 8. \<exists>p. p \<noteq> 0 \<and> be_GetNodePort B (svc_name
        ((if sanitizeSandboxID base = [] then ''sandbox'' else sanitizeSandboxID base) @ ''-'' @ randomHexSuffix 4 (rnd i))) s = Inr p"
proof -
  define clean where "clean = (if sanitizeSandboxID base = [] then ''sandbox'' else sanitizeSandboxID base)"
  define xs where "xs = map (\<lambda>i. randomHexSuffix 4 (rnd i)) [0..<8]"
  have clean: "dns1123Label clean" "length clean \<le> 40"
  proof -
    have "dns1123Label ''sandbox''" by code_simp
    then show "dns1123Label clean" "length clean \<le> 40" using sanitize_shape [of base] by (auto simp: clean_def)
  qed
  have alloc: "allocFreshSandboxID B rnd base s = alloc_loop B s clean xs"
    by (simp add: allocFreshSandboxID_def Let_def clean_def xs_def)
  have none: "alloc_loop B s clean ys = None \<Longrightarrow> x \<in> set ys \<Longrightarrow> \<exists>p. p \<noteq> 0 \<and> be_GetNodePort B (svc_name (clean @ ''-'' @ x)) s = Inr p"
    for ys x by (induction ys) (auto simp: Let_def split: sum.splits if_splits)
  show ?thesis
  proof (cases "alloc_loop B s clean xs")
    case None
    have "\<forall>i < 8. \<exists>p. p \<noteq> 0 \<and> be_GetNodePort B (svc_name (clean @ ''-'' @ randomHexSuffix 4 (rnd i))) s = Inr p"
    proof (intro allI impI)
      fix i :: nat assume "i < 8"
      then have "randomHexSuffix 4 (rnd i) \<in> set xs" unfolding xs_def by auto
      from none [OF None this] show "\<exists>p. p \<noteq> 0 \<and> be_GetNodePort B (svc_name (clean @ ''-'' @ randomHexSuffix 4 (rnd i))) s = Inr p" .
    qed
    then show ?thesis unfolding alloc clean_def [symmetric] None option.case .
  next
    case (Some sid)
    then obtain x where x: "x \<in> set xs" "sid = clean @ ''-'' @ x" "live_port B (svc_name sid) s = None"
      using alloc_loop_Some [OF Some] by blast
    then obtain i where i: "i < 8" "x = randomHexSuffix 4 (rnd i)" by (auto simp: xs_def)
    then obtain bs where "rnd i = Some bs" "length bs = 4" using assms by blast
    then have h: "dns1123Label x" "length x = 4" using hex_suffix i by auto
    then have "dns1123Label sid" "length sid \<le> 45" using dns1123_append clean x(2) by auto
    then show ?thesis unfolding alloc Some option.case clean_def [symmetric] using x i by blast
  qed
qed

lemma allocated_name_safe_witness:
  "allocFreshSandboxID mock_backend rnd0 ''My App'' one_sandbox = Some ''myapp-1234''
   \<and> dns1123Label ''myapp-1234''"
proof -
  have "allocFreshSandboxID mock_backend rnd0 ''My App'' one_sandbox = Some ''myapp-1234''" by code_simp
  moreover have "\<exists>bs. rnd0 i = Some bs \<and> length bs = 4" for i :: nat by simp
  note allocated_name_safe [of rnd0 mock_backend "''My App''" one_sandbox, OF this]
  ultimately show ?thesis by (simp only: option.case)
qed

section \<open>The reaper\<close>

text \<open>The pods whose deadline has passed.\<close>

definition expired_pods :: "pod_view \<Rightarrow> instant \<Rightarrow> string set" where
  "expired_pods v now = {sid. \<exists>spec a. v (pod_name sid) = Some (spec, a) \<and> deadline_passed (annotation a AnnotationExpiresAt) now}"

context sandbox_backend
begin

lemma expired_ids_sound:
  assumes "good s" and "be_ListSandboxes B s = Inr infos"
  shows "set (expired_ids now infos) \<subseteq> expired_pods (pods s) now"
proof
  fix sid assume "sid \<in> set (expired_ids now infos)"
  then obtain i where "i \<in> set infos" "si_SandboxID i = sid" "deadline_passed (si_ExpiresAt i) now"
    by (auto simp: expired_ids_def)
  then show "sid \<in> expired_pods (pods s) now" using listed [OF assms] by (fastforce simp: expired_pods_def)
qed

lemma expired_ids_complete:
  assumes "good s" and "be_ListSandboxes B s = Inr infos" and "sid \<in> expired_pods (pods s) now"
    and "be_GetNodePort B (svc_name sid) s = Inr port" "port \<noteq> 0"
  shows "sid \<in> set (expired_ids now infos)"
proof -
  obtain spec a where p: "pods s (pod_name sid) = Some (spec, a)" "deadline_passed (annotation a AnnotationExpiresAt) now"
    using assms(3) by (auto simp: expired_pods_def)
  obtain i where i: "i \<in> set infos" "si_SandboxID i = sid"
    using list_complete [OF assms(1,2) p(1) assms(4,5)] by blast
  then have "si_ExpiresAt i = annotation a AnnotationExpiresAt" using listed [OF assms(1,2)] p(1) by force
  then show ?thesis using i p(2) by (force simp: expired_ids_def)
qed

lemma sweep_only_expired:
  assumes "good s" and "set (order (expired_ids now infos)) \<subseteq> set (expired_ids now infos)"
    and "be_ListSandboxes B s = Inr infos"
  shows "good (sweep B now order s) \<and> (pods (sweep B now order s) n = pods s n
    \<or> n \<in> pod_name ` expired_pods (pods s) now \<and> pods (sweep B now order s) n = None)"
  using reap_fold [OF assms(1), of "order (expired_ids now infos)" n] assms(2) expired_ids_sound [OF assms(1,3), of now]
  by (auto simp: sweep_def assms(3))

end


lemma mock_delete_gone: "mock_good m \<Longrightarrow> mock_pods (snd (be_DeletePod mock_backend n g m)) n = None"
  by (simp add: mock_backend_def mock_DeletePod_def)

definition old_sandbox :: mock where
  "old_sandbox = \<lparr>mb_pods = [(''sandbox-ab'', \<lparr>pr_spec = create_spec plain_config 0 (plain_request ''ab'' 0) ''ab'',
       pr_phase = ''Running'', pr_annotations = [AnnotationExpiresAt \<mapsto> ''1970-01-01T00:01:00Z'']\<rparr>)],
     mb_services = [(''sandbox-ab-svc'', 80)], mb_nextPort = 81, mb_CreatePodErr = None\<rparr>"


end
