(* ===== verification/Prov_Lifetime.thy ===== *)
theory Prov_Lifetime
  imports Prov_Lifecycle
begin

text \<open>
  How long a sandbox lives, and the reachable states of the backend in memory: pods and services in pairs, each
  pair on a port of its own.
\<close>

section \<open>Deadlines\<close>

lemma annotation_ttl:
  "0 < ttl \<Longrightarrow> annotation (a ++ the (ttlAnnotations now ttl)) AnnotationExpiresAt = expiresAtFromTTL now ttl"
  "0 < ttl \<Longrightarrow> annotation (a ++ the (ttlAnnotations now ttl)) AnnotationTTLSec = format_int ttl"
  by (simp_all add: ttlAnnotations_def annotation_def map_add_def)

context sandbox_backend
begin

lemma renewed_pod:
  assumes "good s" and "handleRenew B now sid (Some asked) s = (Renewed sid' v ttl, s')"
  shows "0 < ttl \<and> (asked \<noteq> 0 \<longrightarrow> ttl = asked) \<and> (\<exists>spec a. pods s (pod_name sid) = Some (spec, a)
    \<and> pods s' (pod_name sid) = Some (spec, a ++ the (ttlAnnotations now ttl))
    \<and> (asked = 0 \<longrightarrow> scan_d (annotation a AnnotationTTLSec) = Some ttl))"
proof -
  obtain a where a: "be_GetPodAnnotations B (pod_name sid) s = Inr a"
    using assms(2) by (cases "be_GetPodAnnotations B (pod_name sid) s") (auto simp: handleRenew_def split: if_splits)
  then obtain spec where p: "pods s (pod_name sid) = Some (spec, a)" using get_annotations [OF assms(1)] by blast
  have u: "0 < ttl \<and> (asked \<noteq> 0 \<longrightarrow> ttl = asked) \<and> (asked = 0 \<longrightarrow> scan_d (annotation a AnnotationTTLSec) = Some ttl)
    \<and> be_SetPodAnnotations B (pod_name sid) (the (ttlAnnotations now ttl)) s = (None, s')"
    using assms(2) a by (auto simp: handleRenew_def Let_def split: if_splits option.splits prod.splits)
  then show ?thesis using set_annotations_ok [OF assms(1) _ p] p by blast
qed

end

lemma created_pod:
  assumes "sandbox_backend B pods good" and "good s" and "probeable B pods s" and "\<not> cr_ReuseExisting req0"
    and "handleCreate B quantity env cfg ready rnd now (Some req0) s = (Info i, s')" and "0 < cr_TTLSeconds req0"
  shows "\<exists>spec. pods s' (pod_name (si_SandboxID i)) = Some (spec, the (ttlAnnotations now (cr_TTLSeconds req0)))"
proof -
  obtain req where r: "create_checks quantity env cfg (Some req0) = Inr req"
    using assms(5) by (cases "create_checks quantity env cfg (Some req0)")
      (auto simp: handleCreate_def create_checks_def Let_def split: if_splits option.splits sum.splits)
  note c = create_checks_Inr [OF r]
  obtain sid where n: "create_name B cfg rnd req s = Inr sid"
    using assms(4,5) r c by (cases "create_name B cfg rnd req s") (auto simp: handleCreate_def create_name_def split: option.splits)
  have p: "create_pod_and_service B cfg ready now req sid s = (Info i, s')"
    using assms(5) r n by (simp add: handleCreate_def)
  have none: "pods s (pod_name sid) = None" using create_name_Some [OF n] assms(3) unfolding probeable_def by blast
  have "spec_annotations (create_spec cfg now req sid) = the (ttlAnnotations now (cr_TTLSeconds req0))"
    using c assms(6) by (simp add: spec_annotations_def create_spec_def ttlAnnotations_def)
  then show ?thesis using sandbox_backend.create_new [OF assms(1,2) p none] by auto
qed

text \<open>The lifetime of a sandbox counts from the second in which it was created or renewed last. Afterwards it is among the
  expired pods, which is what a sweep removes, exactly from that second plus the lifetime on, for every lifetime
  that fits a \<open>Duration\<close>.\<close>

theorem lifetime_exact:
  assumes "sandbox_backend B pods good" and "good s"
    and "0 < ttl" "ttl \<le> max_lifetime" "0 \<le> now" "now + ttl * Second < stamp_limit * Second"
    and "(\<exists>i. probeable B pods s \<and> \<not> cr_ReuseExisting req0 \<and> cr_TTLSeconds req0 = ttl \<and> si_SandboxID i = sid
          \<and> handleCreate B quantity env cfg ready rnd now (Some req0) s = (Info i, s'))
      \<or> (\<exists>v asked. handleRenew B now sid (Some asked) s = (Renewed sid v ttl, s'))"
  shows "sid \<in> expired_pods (pods s') later \<longleftrightarrow> (now div Second + ttl) * Second \<le> later"
proof -
  have "\<exists>spec a. pods s' (pod_name sid) = Some (spec, a ++ the (ttlAnnotations now ttl))"
    using assms(7)
  proof (elim disjE exE conjE)
    fix i assume i: "probeable B pods s" "\<not> cr_ReuseExisting req0" "cr_TTLSeconds req0 = ttl" "si_SandboxID i = sid"
      "handleCreate B quantity env cfg ready rnd now (Some req0) s = (Info i, s')"
    from created_pod [OF assms(1,2) i(1,2,5)] obtain spec where
      "pods s' (pod_name sid) = Some (spec, the (ttlAnnotations now ttl))" using i assms(3) by auto
    then have "pods s' (pod_name sid) = Some (spec, Map.empty ++ the (ttlAnnotations now ttl))" by simp
    then show ?thesis by blast
  next
    fix v asked assume "handleRenew B now sid (Some asked) s = (Renewed sid v ttl, s')"
    from sandbox_backend.renewed_pod [OF assms(1,2) this] show ?thesis by blast
  qed
  then obtain spec a where p: "pods s' (pod_name sid) = Some (spec, a ++ the (ttlAnnotations now ttl))" by blast
  show ?thesis
    using p annotation_ttl(1) [OF assms(3), of a now] lifetime_honoured [OF assms(3-6), of later]
    by (simp add: expired_pods_def)
qed

lemma lifetime_exact_witness:
  "\<exists>s'. handleRenew mock_backend 0 ''ab'' (Some 60) one_sandbox = (Renewed ''ab'' (expiresAtFromTTL 0 60) 60, s')
     \<and> ''ab'' \<in> expired_pods (mock_pods s') (60 * Second) \<and> ''ab'' \<notin> expired_pods (mock_pods s') (59 * Second)"
proof -
  obtain s' where s': "handleRenew mock_backend 0 ''ab'' (Some 60) one_sandbox = (Renewed ''ab'' (expiresAtFromTTL 0 60) 60, s')"
    by (simp add: handleRenew_def mock_backend_def mock_GetPodAnnotations_def mock_SetPodAnnotations_def one_sandbox_def
        pod_name_def Let_def ttlAnnotations_def annotation_def)
  have d: "(\<exists>i. probeable mock_backend mock_pods one_sandbox \<and> \<not> cr_ReuseExisting (plain_request ''ab'' 0) \<and> cr_TTLSeconds (plain_request ''ab'' 0) = 60
      \<and> si_SandboxID i = ''ab'' \<and> handleCreate mock_backend (\<lambda>_. None) (\<lambda>_. []) plain_config (\<lambda>_. None) rnd0 0 (Some (plain_request ''ab'' 0)) one_sandbox = (Info i, s'))
    \<or> (\<exists>v asked. handleRenew mock_backend 0 ''ab'' (Some asked) one_sandbox = (Renewed ''ab'' v 60, s'))"
    using s' by blast
  note l = lifetime_exact [OF mock.sandbox_backend_axioms one_sandbox_good, of 60 0, OF _ _ _ _ d]
  show ?thesis using s' l [of "60 * Second"] l [of "59 * Second"] by auto
qed

text \<open>A lifetime of more seconds than a \<open>Duration\<close> holds wraps around: up to twice that many, the sandbox is
  among the expired ones in the moment it is created, and the next sweep removes it.\<close>

theorem long_lifetime_expires_at_once:
  assumes "sandbox_backend B pods good" and "good s" and "probeable B pods s" and "\<not> cr_ReuseExisting req0"
    and "max_lifetime < cr_TTLSeconds req0" "cr_TTLSeconds req0 \<le> 2 * max_lifetime" "0 \<le> now" "now < stamp_limit * Second"
    and "handleCreate B quantity env cfg ready rnd now (Some req0) s = (Info i, s')"
  shows "si_SandboxID i \<in> expired_pods (pods s') now"
proof -
  have t: "0 < cr_TTLSeconds req0" using assms(5) by simp
  obtain spec where "pods s' (pod_name (si_SandboxID i)) = Some (spec, the (ttlAnnotations now (cr_TTLSeconds req0)))"
    using created_pod [OF assms(1-4,9) t] by blast
  moreover have "annotation (the (ttlAnnotations now (cr_TTLSeconds req0))) AnnotationExpiresAt = expiresAtFromTTL now (cr_TTLSeconds req0)"
    using annotation_ttl(1) [OF t, of Map.empty now] by simp
  ultimately show ?thesis using lifetime_wraps [OF assms(5-8)] by (simp add: expired_pods_def)
qed

section \<open>The reachable states of the backend in memory\<close>

lemma mock_await: "await_port mock_backend svc k m = (case live_port mock_backend svc m of Some p \<Rightarrow> if k = 0 then 0 else p | None \<Rightarrow> 0, m)"
  by (induction k) (auto simp: mock_backend_def split: option.split)

lemma mock_phase: "be_GetPodPhase mock_backend = mock_GetPodPhase"
  by (simp add: mock_backend_def)

lemma mock_live: "live_port mock_backend svc m = (case map_of (mb_services m) svc of Some p \<Rightarrow> if 0 < p then Some p else None | None \<Rightarrow> None)"
  by (simp add: live_port_def mock_backend_def mock_GetNodePort_def split: option.split)

definition mock_with :: "sandbox_spec \<Rightarrow> mock \<Rightarrow> mock" where
  "mock_with spec m = m\<lparr>mb_pods := al_put (pod_name (ss_SandboxID spec))
       \<lparr>pr_spec = spec, pr_phase = ''Running'', pr_annotations = spec_annotations spec\<rparr> (mb_pods m),
     mb_services := al_put (svc_name (ss_SandboxID spec)) (mb_nextPort m) (mb_services m),
     mb_nextPort := wrap32 (mb_nextPort m + 1)\<rparr>"

text \<open>Pods and services come in pairs, on ports that were given out once.\<close>

definition paired :: "mock \<Rightarrow> bool" where
  "paired m \<longleftrightarrow> mock_good m \<and> mb_CreatePodErr m = None
     \<and> (\<forall>sid. map_of (mb_pods m) (pod_name sid) = None \<longleftrightarrow> map_of (mb_services m) (svc_name sid) = None)
     \<and> (\<forall>n p. map_of (mb_services m) n = Some p \<longrightarrow> 0 < p \<and> p < mb_nextPort m)
     \<and> (\<forall>n n' p. map_of (mb_services m) n = Some p \<and> map_of (mb_services m) n' = Some p \<longrightarrow> n = n')
     \<and> 0 < mb_nextPort m"

lemma paired_with:
  assumes "paired m" and "mb_nextPort m < 2 ^ 31 - 1" shows "paired (mock_with spec m)"
proof -
  have w: "wrap32 (mb_nextPort m + 1) = mb_nextPort m + 1"
    using assms unfolding wrap32_def paired_def by (subst mod_pos_pos_trivial) auto
  have g: "mock_good (mock_with spec m)" using assms(1) by (auto simp: mock_with_def paired_def mock_good_def list_all_iff set_al)
  have ne: "p < mb_nextPort m" if "map_of (mb_services m) n = Some p" for n p using assms(1) that by (auto simp: paired_def)
  show ?thesis
    unfolding paired_def
  proof (intro conjI allI impI g)
    show "mb_CreatePodErr (mock_with spec m) = None" "0 < mb_nextPort (mock_with spec m)"
      using assms(1) w by (auto simp: paired_def mock_with_def)
    fix sid show "map_of (mb_pods (mock_with spec m)) (pod_name sid) = None \<longleftrightarrow> map_of (mb_services (mock_with spec m)) (svc_name sid) = None"
      using assms(1) by (auto simp: paired_def mock_with_def)
  next
    fix n p assume "map_of (mb_services (mock_with spec m)) n = Some p"
    then show "0 < p" "p < mb_nextPort (mock_with spec m)"
      using assms(1) w ne [of n p] by (cases "n = svc_name (ss_SandboxID spec)"; force simp: paired_def mock_with_def)+
  next
    fix n n' p assume "map_of (mb_services (mock_with spec m)) n = Some p \<and> map_of (mb_services (mock_with spec m)) n' = Some p"
    then show "n = n'" using assms(1) ne [of n p] ne [of n' p] by (auto simp: paired_def mock_with_def split: if_splits)
  qed
qed

lemma mock_create_run:
  assumes "paired m"
  shows "create_pod_and_service mock_backend cfg ready now req sid m =
    (let m' = (if map_of (mb_pods m) (pod_name sid) = None then mock_with (create_spec cfg now req sid) m else m);
         port = the (map_of (mb_services m') (svc_name sid))
     in (case ready (''http://'' @ pc_NodeHost cfg @ '':'' @ format_int port) of
         Some e \<Rightarrow> Refused StatusInternalServerError (NotReady e)
       | None \<Rightarrow> Info \<lparr>si_SandboxID = sid, si_SandboxURL = sandboxURL cfg sid port,
           si_Status = mock_GetPodPhase (pod_name sid) m',
           si_ExpiresAt = (case ttlAnnotations now (cr_TTLSeconds req) of None \<Rightarrow> [] | Some a \<Rightarrow> annotation a AnnotationExpiresAt)\<rparr>, m'))"
proof -
  let ?spec = "create_spec cfg now req sid"
  have n: "ss_SandboxID ?spec = sid" by (simp add: create_spec_def)
  have e: "mb_CreatePodErr m = None" and both: "map_of (mb_pods m) (pod_name sid) = None \<longleftrightarrow> map_of (mb_services m) (svc_name sid) = None"
    and pos: "0 < mb_nextPort m" "\<And>p. map_of (mb_services m) (svc_name sid) = Some p \<Longrightarrow> 0 < p"
    using assms by (auto simp: paired_def)
  have ae: "contains_str ''already exists'' ''already exists''" by code_simp
  note ops = mock_backend_def mock_CreatePod_def mock_CreateService_def
  show ?thesis
  proof (cases "map_of (mb_pods m) (pod_name sid)")
    case None
    have cp: "be_CreatePod mock_backend ?spec m = (None, m\<lparr>mb_pods := al_put (pod_name sid)
        \<lparr>pr_spec = ?spec, pr_phase = ''Running'', pr_annotations = spec_annotations ?spec\<rparr> (mb_pods m)\<rparr>)"
      using None e n by (simp add: ops Let_def)
    have cs: "be_CreateService mock_backend ?spec (m\<lparr>mb_pods := al_put (pod_name sid)
        \<lparr>pr_spec = ?spec, pr_phase = ''Running'', pr_annotations = spec_annotations ?spec\<rparr> (mb_pods m)\<rparr>) = (None, mock_with ?spec m)"
      using None both n by (simp add: ops Let_def mock_with_def)
    have port: "map_of (mb_services (mock_with ?spec m)) (svc_name sid) = Some (mb_nextPort m)" by (simp add: mock_with_def n)
    show ?thesis
      unfolding create_pod_and_service_def Let_def cp prod.case cs mock_await
      using None port pos(1) by (simp add: mock_live mock_phase split: option.split)
  next
    case (Some p)
    then obtain port where port: "map_of (mb_services m) (svc_name sid) = Some port" "0 < port" using both pos(2) by auto
    have cp: "be_CreatePod mock_backend ?spec m = (Some ''already exists'', m)" using Some e n by (simp add: ops Let_def)
    have cs: "be_CreateService mock_backend ?spec m = (Some ''already exists'', m)" using port n by (simp add: ops Let_def)
    show ?thesis
      unfolding create_pod_and_service_def Let_def cp prod.case cs mock_await
      using Some port ae by (simp add: mock_live mock_phase split: option.split)
  qed
qed

inductive mock_run :: "nat \<Rightarrow> mock \<Rightarrow> bool" where
  start: "mock_run 0 NewMockBackend"
| create: "mock_run k m \<Longrightarrow> mock_run (Suc k) (snd (handleCreate mock_backend quantity env cfg ready rnd now body m))"
| renew: "mock_run k m \<Longrightarrow> mock_run (Suc k) (snd (handleRenew mock_backend now sid asked m))"
| delete: "mock_run k m \<Longrightarrow> mock_run (Suc k) (snd (handleDelete mock_backend sid m))"
| evict: "mock_run k m \<Longrightarrow> mock_run (Suc k) (snd (handleEvict mock_backend sid m))"
| snapshot: "mock_run k m \<Longrightarrow> mock_run (Suc k) (snd (handleSnapshot mock_backend sid m))"
| restore: "mock_run k m \<Longrightarrow> mock_run (Suc k) (snd (handleRestore mock_backend sid snap m))"
| sweep: "mock_run k m \<Longrightarrow> mock_run (Suc k) (sweep mock_backend now order m)"

text \<open>Taking a pod and its service away.\<close>

definition mock_without :: "string \<Rightarrow> mock \<Rightarrow> mock" where
  "mock_without sid m = m\<lparr>mb_pods := al_del (pod_name sid) (mb_pods m), mb_services := al_del (svc_name sid) (mb_services m)\<rparr>"

lemma al_del_id: "map_of xs k = None \<Longrightarrow> al_del k xs = xs"
  by (induction xs) (auto simp: al_del_def split: if_splits)

lemma paired_without: "paired m \<Longrightarrow> paired (mock_without sid m)"
  by (auto simp: paired_def mock_without_def mock_good_def list_all_iff set_al split: if_splits)

lemma mock_removals:
  assumes "paired m"
  shows "reapOne mock_backend sid m = mock_without sid m" "snd (handleDelete mock_backend sid m) = mock_without sid m"
    "snd (handleEvict mock_backend sid m) \<in> {m, mock_without sid m}"
proof -
  have both: "map_of (mb_pods m) (pod_name sid) = None \<longleftrightarrow> map_of (mb_services m) (svc_name sid) = None"
    using assms by (auto simp: paired_def)
  have none: "mock_without sid m = m" if "map_of (mb_pods m) (pod_name sid) = None"
    using that both by (simp add: mock_without_def al_del_id)
  show "reapOne mock_backend sid m = mock_without sid m" "snd (handleDelete mock_backend sid m) = mock_without sid m"
    using both none by (auto simp: reapOne_def handleDelete_def mock_backend_def mock_DeletePod_def mock_DeleteService_def
        mock_without_def Let_def split: prod.splits)
  show "snd (handleEvict mock_backend sid m) \<in> {m, mock_without sid m}"
    using both none by (auto simp: handleEvict_def mock_backend_def mock_DeletePod_def mock_DeleteService_def mock_without_def)
qed

lemma nextPort_without [simp]: "mb_nextPort (mock_without sid m) = mb_nextPort m"
  by (simp add: mock_without_def)

lemma mock_exec_id: "snd (be_ExecInPod mock_backend n cmd m) = m"
  by (simp add: mock_backend_def mock_ExecInPod_def)

lemma mock_write_chunks: "snd (write_chunks mock_backend n i cs m) = m"
  by (induction cs arbitrary: i) (auto simp: mock_backend_def mock_ExecInPod_def)

lemma mock_snapshot_restore: "snd (handleSnapshot mock_backend sid m) = m" "snd (handleRestore mock_backend sid snap m) = m"
  using mock_write_chunks [of "pod_name sid" 0 "chunks chunkSize (the snap)" m]
  by (auto simp: handleSnapshot_def handleRestore_def mock_backend_def mock_ExecInPod_def Let_def split: prod.splits option.splits)

lemma paired_renew:
  assumes "paired m"
  shows "paired (snd (handleRenew mock_backend now sid asked m)) \<and> mb_nextPort (snd (handleRenew mock_backend now sid asked m)) = mb_nextPort m"
proof -
  obtain r m' where h: "handleRenew mock_backend now sid asked m = (r, m')" by force
  then have m'_def: "m' = snd (handleRenew mock_backend now sid asked m)" by simp
  have "m' = m \<or> (\<exists>a. m' = snd (mock_SetPodAnnotations (pod_name sid) a m))"
    using renew_state [OF h] unfolding mock_backend_def by (metis backend.select_convs(10) snd_conv)
  then show ?thesis
  proof (elim disjE exE)
    fix a assume a: "m' = snd (mock_SetPodAnnotations (pod_name sid) a m)"
    show ?thesis
    proof (cases "map_of (mb_pods m) (pod_name sid)")
      case None
      then show ?thesis using a assms by (simp add: mock_SetPodAnnotations_def m'_def [symmetric])
    next
      case (Some p)
      then have m': "m' = m\<lparr>mb_pods := al_put (pod_name sid) (p\<lparr>pr_annotations := pr_annotations p ++ a\<rparr>) (mb_pods m)\<rparr>"
        using a by (simp add: mock_SetPodAnnotations_def)
      have "mock_good m" using assms by (simp add: paired_def)
      then have "mock_good m'" unfolding m' using mock_good_pod [OF _ Some] by (intro mock_good_upd) simp_all
      moreover have "map_of (mb_pods m) (pod_name sid) = None \<longleftrightarrow> map_of (mb_services m) (svc_name sid) = None"
        using assms unfolding paired_def by blast
      then have "map_of (mb_services m) (svc_name sid) \<noteq> None" using Some by simp
      ultimately show ?thesis using assms Some unfolding m'_def [symmetric] m' paired_def by auto
    qed
  qed (simp add: assms m'_def [symmetric])
qed

lemma paired_sweep: "paired m \<Longrightarrow> paired (sweep mock_backend now order m) \<and> mb_nextPort (sweep mock_backend now order m) = mb_nextPort m"
proof -
  have "paired m \<Longrightarrow> paired (fold (reapOne mock_backend) ids m) \<and> mb_nextPort (fold (reapOne mock_backend) ids m) = mb_nextPort m" for ids
    by (induction ids arbitrary: m) (simp_all add: mock_removals(1) paired_without)
  then show "paired m \<Longrightarrow> ?thesis" by (simp add: sweep_def mock_backend_def [symmetric] split: sum.split)
qed

lemma paired_create:
  assumes "paired m" and "mb_nextPort m < 2 ^ 31 - 1"
  shows "paired (snd (handleCreate mock_backend quantity env cfg ready rnd now body m))
    \<and> mb_nextPort (snd (handleCreate mock_backend quantity env cfg ready rnd now body m)) \<le> mb_nextPort m + 1"
proof -
  have w: "wrap32 (mb_nextPort m + 1) = mb_nextPort m + 1"
    using assms unfolding wrap32_def paired_def by (subst mod_pos_pos_trivial) auto
  have "snd (handleCreate mock_backend quantity env cfg ready rnd now body m) \<in> {m} \<union> range (\<lambda>spec. mock_with spec m)"
    by (auto simp: handleCreate_def mock_create_run [OF assms(1)] Let_def split: sum.splits)
  then consider "snd (handleCreate mock_backend quantity env cfg ready rnd now body m) = m"
    | spec where "snd (handleCreate mock_backend quantity env cfg ready rnd now body m) = mock_with spec m" by blast
  then show ?thesis
  proof cases
    case (2 spec)
    have "mb_nextPort (mock_with spec m) = mb_nextPort m + 1" using w by (simp add: mock_with_def)
    then show ?thesis unfolding 2 using paired_with [OF assms] by simp
  qed (simp add: assms)
qed

lemma mock_run_paired: "mock_run k m \<Longrightarrow> int k \<le> 2 ^ 31 - 30001 \<Longrightarrow> paired m \<and> mb_nextPort m \<le> 30000 + int k"
proof (induction rule: mock_run.induct)
  case start
  then show ?case by (simp add: paired_def NewMockBackend_def mock_good_def)
next
  case (create k m quantity env cfg ready rnd now body)
  then have "paired m" "mb_nextPort m \<le> 30000 + int k" "mb_nextPort m < 2 ^ 31 - 1" by auto
  then show ?case using paired_create [of m quantity env cfg ready rnd now body] by auto
next
  case (renew k m now sid asked)
  then show ?case using paired_renew [of m now sid asked] by auto
next
  case (delete k m sid)
  then show ?case by (simp add: mock_removals(2) paired_without)
next
  case (evict k m sid)
  then have "paired m" "mb_nextPort m \<le> 30000 + int k" by auto
  with mock_removals(3) [of m sid] show ?case by (auto simp: paired_without)
next
  case (snapshot k m sid)
  then show ?case by (simp add: mock_snapshot_restore)
next
  case (restore k m sid snap)
  then show ?case by (simp add: mock_snapshot_restore)
next
  case (sweep k m now order)
  then show ?case using paired_sweep [of m now order] by auto
qed

lemma paired_new: "paired NewMockBackend"
  using mock_run_paired [OF mock_run.start] by simp

lemma plain_create_new:
  "\<exists>i. plain_create rnd now ''ab'' ttl NewMockBackend =
     (Info i, mock_with (create_spec plain_config now ((plain_request ''ab'' ttl)\<lparr>cr_ThreadID := ''ab''\<rparr>) ''ab'') NewMockBackend)
     \<and> si_SandboxID i = ''ab''"
proof -
  have c: "create_checks (\<lambda>_. None) (\<lambda>_. []) plain_config (Some (plain_request ''ab'' ttl)) = Inr ((plain_request ''ab'' ttl)\<lparr>cr_ThreadID := ''ab''\<rparr>)"
    by code_simp
  have n: "create_name mock_backend plain_config rnd ((plain_request ''ab'' ttl)\<lparr>cr_ThreadID := ''ab''\<rparr>) NewMockBackend = Inr ''ab''"
    by code_simp
  have none: "map_of (mb_pods NewMockBackend) (pod_name ''ab'') = None" by (simp add: NewMockBackend_def)
  show ?thesis
    unfolding handleCreate_def c sum.case n mock_create_run [OF paired_new] Let_def if_P [OF none] option.case
    by (intro exI conjI) (rule refl, simp)
qed



section \<open>Two creates at once\<close>

text \<open>The check for a taken name and the creation of the pod are separate calls, and a pod that exists already is taken for
  success. So when two independent callers ask for the same name at once, both are told that they have it: the
  second gets the first one's sandbox, made from the first one's request, although neither asked to reuse one.\<close>

theorem concurrent_creates_share:
  assumes "paired m" and "mb_nextPort m < 2 ^ 31 - 1" and "map_of (mb_pods m) (pod_name sid) = None"
    and "cr_SandboxID req1 = sid" "cr_SandboxID req2 = sid" "\<not> cr_ReuseExisting req1" "\<not> cr_ReuseExisting req2"
    and "\<And>url. ready url = None"
  shows "create_name mock_backend cfg rnd1 req1 m = Inr sid \<and> create_name mock_backend cfg rnd2 req2 m = Inr sid
    \<and> (\<exists>i1 i2 m1. create_pod_and_service mock_backend cfg ready now1 req1 sid m = (Info i1, m1)
       \<and> create_pod_and_service mock_backend cfg ready now2 req2 sid m1 = (Info i2, m1)
       \<and> si_SandboxID i1 = sid \<and> si_SandboxID i2 = sid \<and> si_SandboxURL i1 = si_SandboxURL i2
       \<and> map_option fst (mock_pods m1 (pod_name sid)) = Some (create_spec cfg now1 req1 sid))"
proof -
  define m1 where "m1 = mock_with (create_spec cfg now1 req1 sid) m"
  have "live_port mock_backend (svc_name sid) m = None" using assms(1,3) by (simp add: mock_live paired_def)
  then have n: "create_name mock_backend cfg rnd1 req1 m = Inr sid" "create_name mock_backend cfg rnd2 req2 m = Inr sid"
    using assms(4,5) by (simp_all add: create_name_def)
  have p1: "paired m1" unfolding m1_def by (rule paired_with [OF assms(1,2)])
  have "map_of (mb_pods m1) (pod_name sid) \<noteq> None" "map_option fst (mock_pods m1 (pod_name sid)) = Some (create_spec cfg now1 req1 sid)"
    by (simp_all add: m1_def mock_with_def create_spec_def mock_pods_def)
  moreover obtain i1 where "create_pod_and_service mock_backend cfg ready now1 req1 sid m = (Info i1, m1)" "si_SandboxID i1 = sid"
      "si_SandboxURL i1 = sandboxURL cfg sid (the (map_of (mb_services m1) (svc_name sid)))"
    unfolding mock_create_run [OF assms(1)] using assms(3,8) by (simp add: Let_def m1_def)
  moreover obtain i2 where "create_pod_and_service mock_backend cfg ready now2 req2 sid m1 = (Info i2, m1)" "si_SandboxID i2 = sid"
      "si_SandboxURL i2 = sandboxURL cfg sid (the (map_of (mb_services m1) (svc_name sid)))"
    unfolding mock_create_run [OF p1] using calculation(1) assms(8) by (auto simp: Let_def)
  ultimately show ?thesis using n by metis
qed

lemma concurrent_creates_share_witness:
  "\<exists>i1 i2 m1. create_pod_and_service mock_backend plain_config (\<lambda>_. None) 0 (plain_request ''ab'' 0) ''ab'' NewMockBackend = (Info i1, m1)
     \<and> create_pod_and_service mock_backend plain_config (\<lambda>_. None) 0 (plain_request ''ab'' 60) ''ab'' m1 = (Info i2, m1)"
proof -
  have "mb_nextPort NewMockBackend < 2 ^ 31 - 1" "map_of (mb_pods NewMockBackend) (pod_name ''ab'') = None"
    "cr_SandboxID (plain_request ''ab'' 0) = ''ab''" "cr_SandboxID (plain_request ''ab'' 60) = ''ab''"
    "\<not> cr_ReuseExisting (plain_request ''ab'' 0)" "\<not> cr_ReuseExisting (plain_request ''ab'' 60)"
    by (simp_all add: NewMockBackend_def plain_request_def)
  from concurrent_creates_share [OF paired_new this, of "\<lambda>_. None" plain_config rnd0 rnd0 0 0] show ?thesis by blast
qed

lemma long_lifetime_expires_at_once_witness: "\<exists>m. ''ab'' \<in> expired_pods (mock_pods m) 0"
proof -
  let ?t = "10000000000 :: int"
  obtain i m where c: "plain_create rnd0 0 ''ab'' ?t NewMockBackend = (Info i, m)" "si_SandboxID i = ''ab''"
    using plain_create_new [of rnd0 0 ?t] by blast
  have g: "mock_good NewMockBackend" "probeable mock_backend mock_pods NewMockBackend"
    by (simp_all add: NewMockBackend_def mock_good_def probeable_def mock_pods_def)
  have "\<not> cr_ReuseExisting (plain_request ''ab'' ?t)" "max_lifetime < cr_TTLSeconds (plain_request ''ab'' ?t)"
    "cr_TTLSeconds (plain_request ''ab'' ?t) \<le> 2 * max_lifetime" "(0 :: int) \<le> 0" "0 < stamp_limit * Second"
    by (simp_all add: plain_request_def)
  from long_lifetime_expires_at_once [OF mock.sandbox_backend_axioms g this c(1)] c(2) show ?thesis by auto
qed

end
