(* ===== verification/Prov_Restore.thy ===== *)
theory Prov_Restore
  imports Prov_Sandbox
begin

text \<open>
  Restoring a snapshot (\<open>handleRestore\<close> of \<open>pkg/provisioner/provisioner.go\<close>): the pieces it writes, and what becomes of
  a snapshot that \<open>handleSnapshot\<close> took.
\<close>

lemma chunks_nonempty: "s \<noteq> [] \<Longrightarrow> 0 < k \<Longrightarrow> chunks k s = take k s # chunks k (drop k s)"
  by (subst chunks.simps) simp

lemma chunks_props:
  "0 < k \<Longrightarrow> concat (chunks k s) = s \<and> list_all (\<lambda>c. c \<noteq> [] \<and> length c \<le> k) (chunks k s)
     \<and> (s \<noteq> [] \<longrightarrow> list_all (\<lambda>c. length c = k) (butlast (chunks k s)))"
proof (induction k s rule: chunks.induct)
  case (1 k s)
  show ?case
  proof (cases "s = []")
    case False
    have c: "chunks k s = take k s # chunks k (drop k s)" using False 1(2) by (rule chunks_nonempty)
    have ne: "chunks k (drop k s) \<noteq> [] \<longleftrightarrow> drop k s \<noteq> []" using chunks_nonempty [of "drop k s" k] 1(2) by (cases "drop k s = []") (simp_all add: chunks.simps [of k "[]"])
    show ?thesis
      using 1 False ne unfolding c by (cases "drop k s = []") auto
  qed (simp add: chunks.simps)
qed

definition shell :: "string \<Rightarrow> string list" where
  "shell c = [''bash'', ''-c'', c]"

definition base64_line :: string where "base64_line = [CHR 0x0A]"

text \<open>\<open>base64\<close> prints lines of 76 characters, each ended by a newline.\<close>

definition base64_lines :: "string \<Rightarrow> string" where
  "base64_lines t = concat (map (\<lambda>l. l @ base64_line) (chunks 76 t))"

text \<open>The characters that count for a decoder: all but the newlines.\<close>

definition payload :: "string \<Rightarrow> string" where
  "payload s = filter (\<lambda>c. c \<noteq> CHR 0x0A) s"

lemma payload_append [simp]: "payload (a @ b) = payload a @ payload b"
  by (simp add: payload_def)

lemma base64_lines_line:
  "t \<noteq> [] \<Longrightarrow> base64_lines t = take 76 t @ CHR 0x0A # base64_lines (drop 76 t)"
  by (simp add: base64_lines_def base64_line_def chunks_nonempty)

lemma payload_id: "CHR 0x0A \<notin> set t \<Longrightarrow> payload t = t"
  unfolding payload_def by (rule filter_True) auto

text \<open>\<open>n\<close> full lines and the beginning of the next.\<close>

lemma payload_cut:
  "CHR 0x0A \<notin> set t \<Longrightarrow> 76 * n + k \<le> length t \<Longrightarrow> k \<le> 76 \<Longrightarrow> length (payload (take (77 * n + k) (base64_lines t))) = 76 * n + k"
proof (induction n arbitrary: t)
  case 0
  show ?case
  proof (cases "t = []")
    case False
    have "take k (base64_lines t) = take k t" unfolding base64_lines_line [OF False] using 0 by simp
    moreover have "payload (take k t) = take k t" using 0(1) by (intro payload_id) (auto dest: in_set_takeD)
    ultimately show ?thesis using 0 by simp
  qed (use 0 in \<open>simp add: payload_def\<close>)
next
  case (Suc n)
  have t: "t \<noteq> []" "76 \<le> length t" using Suc.prems by auto
  have d: "CHR 0x0A \<notin> set (drop 76 t)" "76 * n + k \<le> length (drop 76 t)" using Suc.prems by (auto dest: in_set_dropD)
  have "take (77 * Suc n + k) (base64_lines t) = take 76 t @ CHR 0x0A # take (77 * n + k) (base64_lines (drop 76 t))"
  proof -
    have "take (76 + Suc (77 * n + k)) (take 76 t @ CHR 0x0A # base64_lines (drop 76 t))
        = take 76 t @ CHR 0x0A # take (77 * n + k) (base64_lines (drop 76 t))" using t(2) by simp
    then show ?thesis unfolding base64_lines_line [OF t(1)] by (simp add: algebra_simps)
  qed
  moreover have "payload (take 76 t) = take 76 t" using Suc.prems(1) by (intro payload_id) (auto dest: in_set_takeD)
  moreover have "payload (CHR 0x0A # u) = payload u" for u by (simp add: payload_def)
  ultimately show ?case using Suc.IH [OF d Suc.prems(3)] t by simp
qed

lemma base64_lines_length: "length (base64_lines t) = length t + (length t + 75) div 76"
proof (induction "length t" arbitrary: t rule: less_induct)
  case less
  show ?case
  proof (cases "t = []")
    case False
    have "length (base64_lines t) = length (take 76 t) + 1 + length (base64_lines (drop 76 t))"
      unfolding base64_lines_line [OF False] by simp
    also have "length (base64_lines (drop 76 t)) = length (drop 76 t) + (length (drop 76 t) + 75) div 76"
      using False by (intro less) simp
    also have "length (take 76 t) + 1 + (length (drop 76 t) + (length (drop 76 t) + 75) div 76) = length t + (length t + 75) div 76"
      using False by (cases "76 \<le> length t") (auto simp: min_def le_div_geq Suc_le_eq)
    finally show ?thesis .
  qed (simp add: base64_lines_def chunks.simps)
qed

lemma trim_space_prefix:
  assumes "s = x # u" "\<not> is_space x" shows "\<exists>v. s = trim_space s @ v \<and> list_all is_space v"
proof -
  have "trim_space s = rev (dropWhile is_space (rev s))" using assms by (simp add: go_strings)
  then have "s = trim_space s @ rev (takeWhile is_space (rev s))"
    by (metis rev_append rev_rev_ident takeWhile_dropWhile_id)
  moreover have "list_all is_space (rev (takeWhile is_space (rev s)))"
    unfolding list_all_iff set_rev by (meson set_takeWhileD)
  ultimately show ?thesis by blast
qed

definition base64_char :: "char \<Rightarrow> bool" where
  "base64_char c \<longleftrightarrow> is_alnum c \<or> c \<in> {CHR ''+'', CHR ''/'', CHR ''=''}"

lemma base64_char_facts: "\<forall>c. base64_char c \<longrightarrow> \<not> is_space c \<and> c \<noteq> CHR 0x0A"
  by code_simp

lemma base64_lines_payload: "list_all base64_char t \<Longrightarrow> payload (base64_lines t) = t"
proof (induction "length t" arbitrary: t rule: less_induct)
  case less
  show ?case
  proof (cases "t = []")
    case False
    have "payload (take 76 t) = take 76 t"
      using less.prems base64_char_facts by (intro payload_id) (auto simp: list_all_iff dest: in_set_takeD)
    moreover have "payload (base64_lines (drop 76 t)) = drop 76 t"
      using False less.prems by (intro less) (auto simp: list_all_iff dest: in_set_dropD)
    moreover have "payload (CHR 0x0A # u) = payload u" for u by (simp add: payload_def)
    ultimately show ?thesis unfolding base64_lines_line [OF False] by simp
  qed (simp add: base64_lines_def chunks.simps payload_def)
qed

text \<open>What a handler returns as the snapshot: trimming takes the last newline away and no character that counts.\<close>

lemma trimmed_snapshot:
  assumes "list_all base64_char t" "t \<noteq> []"
  shows "\<exists>v. base64_lines t = trim_space (base64_lines t) @ v" "payload (trim_space (base64_lines t)) = t"
proof -
  obtain x t' where t: "t = x # t'" using assms(2) by (cases t) auto
  then have x: "\<not> is_space x" using assms(1) base64_char_facts by simp
  have "base64_lines t = x # (take 75 t' @ CHR 0x0A # base64_lines (drop 76 t))"
    using base64_lines_line [of t] t by simp
  from trim_space_prefix [OF this x] obtain v where
    v: "base64_lines t = trim_space (base64_lines t) @ v" "list_all is_space v" by blast
  then show "\<exists>v. base64_lines t = trim_space (base64_lines t) @ v" by blast
  have tr: "t = payload (trim_space (base64_lines t)) @ payload v"
    using arg_cong [OF v(1), of payload] base64_lines_payload [OF assms(1)] by simp
  have "c \<notin> set (payload v)" for c
  proof
    assume c: "c \<in> set (payload v)"
    then have "c \<in> set t" using arg_cong [OF tr, of set] by auto
    moreover have "is_space c" using c v(2) by (auto simp: payload_def list_all_iff)
    ultimately show False using assms(1) base64_char_facts by (auto simp: list_all_iff)
  qed
  then have "payload v = []" by (cases "payload v") auto
  then show "payload (trim_space (base64_lines t)) = t" using tr by simp
qed

text \<open>The first piece of a snapshot that needs more than one.\<close>

lemma first_piece:
  assumes "list_all base64_char t" "50000 < length (trim_space (base64_lines t))"
  shows "\<exists>rest. chunks chunkSize (trim_space (base64_lines t)) = take 50000 (base64_lines t) # rest"
    and "length (payload (take 50000 (base64_lines t))) mod 4 = 3"
proof -
  have ne: "t \<noteq> []" using assms(2) by (auto simp: base64_lines_def chunks.simps trim_space_def trim_left_by_def trim_right_by_def)
  obtain v where v: "base64_lines t = trim_space (base64_lines t) @ v" using trimmed_snapshot(1) [OF assms(1) ne] by blast
  have "50000 < length (base64_lines t)" using assms(2) arg_cong [OF v, of length] by simp
  then have "50000 < length t + (length t + 75) div 76" by (simp add: base64_lines_length)
  then have l: "49351 \<le> length t" by linarith
  have nl: "CHR 0x0A \<notin> set t" using assms(1) base64_char_facts by (auto simp: list_all_iff)
  show "length (payload (take 50000 (base64_lines t))) mod 4 = 3"
    using payload_cut [OF nl, of 649 27] l by simp
  have "take 50000 (base64_lines t) = take 50000 (trim_space (base64_lines t) @ v)" using v by (rule arg_cong)
  also have "\<dots> = take 50000 (trim_space (base64_lines t))" using assms(2) by simp
  finally have tk: "take 50000 (base64_lines t) = take 50000 (trim_space (base64_lines t))" .
  have "trim_space (base64_lines t) \<noteq> []" using assms(2) by auto
  from chunks_nonempty [OF this, of chunkSize]
  show "\<exists>rest. chunks chunkSize (trim_space (base64_lines t)) = take 50000 (base64_lines t) # rest" unfolding tk by simp
qed

lemma write_first_fails:
  "be_ExecInPod B p (shell (chunk_command c)) s = (Inl e, s1) \<Longrightarrow> write_chunks B p i (c # cs) s = (Some (i, e), s1)"
  by (simp add: shell_def)

definition extract_command :: string where
  "extract_command = ''cd /workspace && tar xzf /tmp/snapshot.tar.gz 2>&1 && rm -f /tmp/snapshot.tar.gz''"

lemma handleRestore_running:
  assumes "snap \<noteq> []" and "be_GetPodPhase B (pod_name sid) s = ''Running''"
    and "be_ExecInPod B (pod_name sid) (shell ''rm -f /tmp/snapshot.tar.gz'') s = (r0, s0)"
  shows "handleRestore B sid (Some snap) s =
    (case write_chunks B (pod_name sid) 0 (chunks chunkSize snap) s0 of
       (Some (i, e), s1) \<Rightarrow> (Refused StatusInternalServerError (RestoreFailed (Some i) e), s1)
     | (None, s1) \<Rightarrow>
         (case be_ExecInPod B (pod_name sid) (shell extract_command) s1 of
            (Inl e, s2) \<Rightarrow> (Refused StatusInternalServerError (RestoreFailed None e), s2)
          | (Inr _, s2) \<Rightarrow> (Done sid, s2)))"
  using assms unfolding handleRestore_def shell_def extract_command_def by (simp add: Let_def)

text \<open>A restore writes the snapshot in order, in pieces of 50000 bytes, but decodes every piece by itself. The
  snapshots the program takes are wrapped in lines of 76 characters, so that a piece of 50000 bytes holds 649 newlines and
  49351 characters, three too many for whole quanta. Where the decoder refuses what does not come in whole
  quanta, and otherwise everything succeeds, the program's own snapshots can be restored exactly up to 50000 bytes.\<close>

theorem restore_limited_to_one_piece:
  assumes "list_all base64_char t" "t \<noteq> []" "length t mod 4 = 0"
    and "be_GetPodPhase B (pod_name sid) s = ''Running''"
    and "\<And>c s. (\<exists>r s'. be_ExecInPod B (pod_name sid) (shell (chunk_command c)) s = (Inr r, s')) \<longleftrightarrow> length (payload c) mod 4 = 0"
    and "\<And>s. \<exists>r s'. be_ExecInPod B (pod_name sid) (shell extract_command) s = (Inr r, s')"
  shows "concat (chunks chunkSize (trim_space (base64_lines t))) = trim_space (base64_lines t)
    \<and> (fst (handleRestore B sid (Some (trim_space (base64_lines t))) s) = Done sid
       \<longleftrightarrow> length (trim_space (base64_lines t)) \<le> 50000)"
proof
  define snap where "snap = trim_space (base64_lines t)"
  show "concat (chunks chunkSize (trim_space (base64_lines t))) = trim_space (base64_lines t)"
    using chunks_props [of chunkSize] by simp
  have pay: "payload snap = t" unfolding snap_def by (rule trimmed_snapshot(2) [OF assms(1,2)])
  then have ne: "snap \<noteq> []" using assms(2) by (auto simp: payload_def)
  obtain r0 s0 where rm: "be_ExecInPod B (pod_name sid) (shell ''rm -f /tmp/snapshot.tar.gz'') s = (r0, s0)" by force
  note run = handleRestore_running [OF ne assms(4) rm]
  have "fst (handleRestore B sid (Some snap) s) = Done sid \<longleftrightarrow> length snap \<le> 50000"
  proof (cases "length snap \<le> 50000")
    case True
    then have c: "chunks chunkSize snap = [snap]" using chunks_nonempty [OF ne, of chunkSize] by (simp add: chunks.simps [of chunkSize "[]"])
    obtain r1 s1 where w: "be_ExecInPod B (pod_name sid) (shell (chunk_command snap)) s0 = (Inr r1, s1)"
      using assms(3) pay assms(5) [of snap s0] by auto
    obtain r2 s2 where x: "be_ExecInPod B (pod_name sid) (shell extract_command) s1 = (Inr r2, s2)" using assms(6) [of s1] by blast
    have "write_chunks B (pod_name sid) 0 [snap] s0 = (None, s1)" using w by (simp add: shell_def)
    then show ?thesis unfolding run c using x True by simp
  next
    case False
    then have l: "50000 < length (trim_space (base64_lines t))" by (simp add: snap_def)
    obtain rest where c: "chunks chunkSize snap = take 50000 (base64_lines t) # rest"
      using first_piece(1) [OF assms(1) l] unfolding snap_def by blast
    have "length (payload (take 50000 (base64_lines t))) mod 4 \<noteq> 0" using first_piece(2) [OF assms(1) l] by simp
    then have "\<not> (\<exists>r s'. be_ExecInPod B (pod_name sid) (shell (chunk_command (take 50000 (base64_lines t)))) s0 = (Inr r, s'))"
      unfolding assms(5) .
    then obtain e s1 where "be_ExecInPod B (pod_name sid) (shell (chunk_command (take 50000 (base64_lines t)))) s0 = (Inl e, s1)"
      by (metis old.sum.exhaust surj_pair)
    from write_first_fails [OF this, of 0 rest] show ?thesis unfolding run c using False by simp
  qed
  then show "fst (handleRestore B sid (Some (trim_space (base64_lines t))) s) = Done sid
       \<longleftrightarrow> length (trim_space (base64_lines t)) \<le> 50000" unfolding snap_def .
qed

text \<open>A backend whose shell knows the decoder.\<close>

definition chunk_of :: "string \<Rightarrow> string" where
  "chunk_of cmd = take (length cmd - length (chunk_command [])) (drop 6 cmd)"

lemma chunk_of_command [simp]: "chunk_of (chunk_command c) = c"
  by (simp add: chunk_of_def chunk_command_def)

definition decoding_exec :: "string \<Rightarrow> string list \<Rightarrow> mock \<Rightarrow> (string + string) \<times> mock" where
  "decoding_exec n cmd m =
     (if has_prefix (last cmd) ''echo '' \<and> length (payload (chunk_of (last cmd))) mod 4 \<noteq> 0
      then (Inl ''base64: invalid input'', m) else (Inr [], m))"

lemma restore_limited_to_one_piece_witness:
  "\<exists>t. length t = 60000 \<and> fst (handleRestore (mock_backend\<lparr>be_ExecInPod := decoding_exec, be_GetPodPhase := \<lambda>_ _. ''Running''\<rparr>) ''ab''
     (Some (trim_space (base64_lines t))) NewMockBackend) \<noteq> Done ''ab''"
proof -
  let ?B = "mock_backend\<lparr>be_ExecInPod := decoding_exec, be_GetPodPhase := \<lambda>_ _. ''Running''\<rparr>"
  have "base64_char (CHR ''A'')" by code_simp
  then have r: "list_all base64_char (replicate n (CHR ''A''))" for n by (simp add: list_all_iff)
  obtain t where t: "list_all base64_char t" "length t = 60000"
    by (rule that [OF r length_replicate])
  then have ne: "t \<noteq> []" "length t mod 4 = 0" by (metis list.size(3) zero_neq_numeral, simp)
  have p: "be_GetPodPhase ?B (pod_name ''ab'') NewMockBackend = ''Running''" by simp
  have "has_prefix (chunk_command c) ''echo ''" for c by (simp add: chunk_command_def has_prefix_def)
  then have d: "(\<exists>r s'. be_ExecInPod ?B (pod_name ''ab'') (shell (chunk_command c)) s = (Inr r, s')) \<longleftrightarrow> length (payload c) mod 4 = 0" for c s
    by (simp add: decoding_exec_def shell_def)
  have "\<not> has_prefix extract_command ''echo ''" by (simp add: extract_command_def has_prefix_def)
  then have x: "\<exists>r s'. be_ExecInPod ?B (pod_name ''ab'') (shell extract_command) s = (Inr r, s')" for s
    by (simp add: decoding_exec_def shell_def)
  have "length (payload (trim_space (base64_lines t))) = 60000" using trimmed_snapshot(2) [OF t(1) ne(1)] t(2) by simp
  moreover have "length (payload u) \<le> length u" for u by (simp add: payload_def)
  from this [of "trim_space (base64_lines t)"] calculation have "\<not> length (trim_space (base64_lines t)) \<le> 50000" by linarith
  with conjunct2 [OF restore_limited_to_one_piece [OF t(1) ne p d x]] t(2) show ?thesis by blast
qed

end
