(* ===== verification/Prov_Gc.thy ===== *)
theory Prov_Gc
  imports Prov_Ttl "HOL-Library.Multiset"
begin

text \<open>
  Garbage collection on the operator's order (\<open>pkg/provisioner/gc.go\<close>): the candidates, the plan, the removals. The
  Docker daemon is a parameter: its two lists, already filtered as the code asks (dangling images; containers with the
  deployment label), and its two removals, each with its error.
\<close>

record docker_image =
  di_ID :: string
  di_RepoTags :: "string list"
  di_Size :: int
  di_Created :: int

record docker_container =
  dc_ID :: string
  dc_Names :: "string list"
  dc_Image :: string
  dc_State :: string
  dc_Status :: string
  dc_Created :: int

record 's docker =
  dk_ImageList :: "'s \<Rightarrow> string + docker_image list"
  dk_ContainerList :: "'s \<Rightarrow> string + docker_container list"
  dk_ContainerRemove :: "string \<Rightarrow> 's \<Rightarrow> string option \<times> 's"
  dk_ImageRemove :: "string \<Rightarrow> 's \<Rightarrow> string option \<times> 's"

record gcImageCandidate =
  gi_ID :: string
  gi_ShortID :: string
  gi_Tags :: "string list"
  gi_SizeBytes :: int
  gi_Created :: int

record gcContainerCandidate =
  gk_ID :: string
  gk_ShortID :: string
  gk_Name :: string
  gk_Image :: string
  gk_State :: string
  gk_Status :: string
  gk_Created :: int

record gcCandidates =
  ga_Images :: "gcImageCandidate list"
  ga_Containers :: "gcContainerCandidate list"
  ga_ReclaimableBytes :: int

definition shortDockerID :: "string \<Rightarrow> string" where
  "shortDockerID dockerID = take 12 (trim_prefix dockerID ''sha256:'')"

definition firstName :: "string list \<Rightarrow> string" where
  "firstName names = (case names of [] \<Rightarrow> [] | n # _ \<Rightarrow> n)"

definition gcContainerReclaimable :: "string \<Rightarrow> bool" where
  "gcContainerReclaimable state \<longleftrightarrow> state \<in> {''exited'', ''created'', ''dead''}"

text \<open>A sum of \<open>int64\<close> values, as it is added up.\<close>

definition sum_bytes :: "int list \<Rightarrow> int" where
  "sum_bytes = foldl (\<lambda>a x. wrap64 (a + x)) 0"

definition gcCollectCandidates :: "'s docker \<Rightarrow> 's \<Rightarrow> string + gcCandidates" where
  "gcCollectCandidates D s =
     (case dk_ImageList D s of
        Inl e \<Rightarrow> Inl e
      | Inr imgs \<Rightarrow>
          (case dk_ContainerList D s of
             Inl e \<Rightarrow> Inl e
           | Inr ctrs \<Rightarrow> Inr \<lparr>
               ga_Images = sort_key (\<lambda>i. - gi_SizeBytes i)
                 (map (\<lambda>im. \<lparr>gi_ID = di_ID im, gi_ShortID = shortDockerID (di_ID im),
                    gi_Tags = (if di_RepoTags im = [] then [''<none>:<none>''] else di_RepoTags im),
                    gi_SizeBytes = di_Size im, gi_Created = di_Created im\<rparr>) imgs),
               ga_Containers = sort_key (\<lambda>c. - gk_Created c)
                 (map (\<lambda>c. \<lparr>gk_ID = dc_ID c, gk_ShortID = shortDockerID (dc_ID c),
                    gk_Name = trim_prefix (firstName (dc_Names c)) ''/'', gk_Image = dc_Image c, gk_State = dc_State c,
                    gk_Status = dc_Status c, gk_Created = dc_Created c\<rparr>)
                   (filter (\<lambda>c. gcContainerReclaimable (dc_State c)) ctrs)),
               ga_ReclaimableBytes = sum_bytes (map di_Size imgs)\<rparr>))"

record GCRequest =
  rq_ImageIDs :: "string list"
  rq_ContainerIDs :: "string list"

datatype gc_reason = NotReclaimableContainer | NotReclaimableImage | DaemonError string

record gcPlan =
  pl_images :: "(string \<times> int) list"
  pl_containerIDs :: "string list"
  pl_errors :: "(string \<times> gc_reason) list"

text \<open>The map from images to sizes is built in order: a later entry for the same image wins.\<close>

definition gcPlanRemovals :: "gcCandidates \<Rightarrow> GCRequest \<Rightarrow> gcPlan" where
  "gcPlanRemovals cands req =
     (let imgSize = map_of (rev (map (\<lambda>i. (gi_ID i, gi_SizeBytes i)) (ga_Images cands)));
          validContainer = set (map gk_ID (ga_Containers cands))
      in \<lparr>pl_images = List.map_filter (\<lambda>i. map_option (\<lambda>sz. (i, sz)) (imgSize i)) (rq_ImageIDs req),
          pl_containerIDs = filter (\<lambda>i. i \<in> validContainer) (rq_ContainerIDs req),
          pl_errors = map (\<lambda>i. (i, NotReclaimableContainer)) (filter (\<lambda>i. i \<notin> validContainer) (rq_ContainerIDs req))
            @ map (\<lambda>i. (i, NotReclaimableImage)) (filter (\<lambda>i. imgSize i = None) (rq_ImageIDs req))\<rparr>)"

record GCResult =
  gr_RemovedImages :: "string list"
  gr_RemovedContainers :: "string list"
  gr_ReclaimedBytes :: int
  gr_Errors :: "(string \<times> gc_reason) list"

fun remove_containers :: "'s docker \<Rightarrow> string list \<Rightarrow> GCResult \<Rightarrow> 's \<Rightarrow> GCResult \<times> 's" where
  "remove_containers D [] res s = (res, s)"
| "remove_containers D (i # ids) res s =
     (case dk_ContainerRemove D i s of
        (Some e, s') \<Rightarrow> remove_containers D ids (res\<lparr>gr_Errors := gr_Errors res @ [(i, DaemonError e)]\<rparr>) s'
      | (None, s') \<Rightarrow> remove_containers D ids (res\<lparr>gr_RemovedContainers := gr_RemovedContainers res @ [i]\<rparr>) s')"

fun remove_images :: "'s docker \<Rightarrow> (string \<times> int) list \<Rightarrow> GCResult \<Rightarrow> 's \<Rightarrow> GCResult \<times> 's" where
  "remove_images D [] res s = (res, s)"
| "remove_images D ((i, sz) # ims) res s =
     (case dk_ImageRemove D i s of
        (Some e, s') \<Rightarrow> remove_images D ims (res\<lparr>gr_Errors := gr_Errors res @ [(i, DaemonError e)]\<rparr>) s'
      | (None, s') \<Rightarrow> remove_images D ims (res\<lparr>gr_RemovedImages := gr_RemovedImages res @ [i],
          gr_ReclaimedBytes := wrap64 (gr_ReclaimedBytes res + sz)\<rparr>) s')"

datatype gc_reply =
    GCRefused nat string
  | GCListed gcCandidates
  | GCDone GCResult

text \<open>\<open>None\<close> for the daemon: no client; for the body: it does not decode.\<close>

definition handleGCCandidates :: "(string + 's docker) \<Rightarrow> 's \<Rightarrow> gc_reply" where
  "handleGCCandidates cli s =
     (case cli of
        Inl e \<Rightarrow> GCRefused StatusServiceUnavailable (''docker client unavailable: '' @ e)
      | Inr D \<Rightarrow>
          (case gcCollectCandidates D s of
             Inl e \<Rightarrow> GCRefused StatusInternalServerError (''collect gc candidates: '' @ e)
           | Inr c \<Rightarrow> GCListed c))"

definition handleGC :: "(string + 's docker) \<Rightarrow> (string + GCRequest) \<Rightarrow> 's \<Rightarrow> gc_reply \<times> 's" where
  "handleGC cli body s =
     (case cli of
        Inl e \<Rightarrow> (GCRefused StatusServiceUnavailable (''docker client unavailable: '' @ e), s)
      | Inr D \<Rightarrow>
          (case body of
             Inl e \<Rightarrow> (GCRefused StatusBadRequest (''bad body: '' @ e), s)
           | Inr req \<Rightarrow>
               if rq_ImageIDs req = [] \<and> rq_ContainerIDs req = [] then
                 (GCRefused StatusBadRequest ''nothing to collect: pass image_ids and/or container_ids'', s)
               else (case gcCollectCandidates D s of
                   Inl e \<Rightarrow> (GCRefused StatusInternalServerError (''revalidate gc candidates: '' @ e), s)
                 | Inr cands \<Rightarrow>
                     (let plan = gcPlanRemovals cands req;
                          (res1, s1) = remove_containers D (pl_containerIDs plan)
                            \<lparr>gr_RemovedImages = [], gr_RemovedContainers = [], gr_ReclaimedBytes = 0, gr_Errors = pl_errors plan\<rparr> s;
                          (res2, s2) = remove_images D (pl_images plan) res1 s1
                      in (GCDone res2, s2)))))"

section \<open>Nothing else is removed\<close>

text \<open>What may go: stopped containers among the deployments', and dangling images.\<close>

definition reclaimable_containers :: "'s docker \<Rightarrow> 's \<Rightarrow> string set" where
  "reclaimable_containers D s = (case dk_ContainerList D s of Inl e \<Rightarrow> {}
     | Inr ctrs \<Rightarrow> dc_ID ` set (filter (\<lambda>c. dc_State c \<in> {''exited'', ''created'', ''dead''}) ctrs))"

definition reclaimable_images :: "'s docker \<Rightarrow> 's \<Rightarrow> string set" where
  "reclaimable_images D s = (case dk_ImageList D s of Inl e \<Rightarrow> {} | Inr imgs \<Rightarrow> di_ID ` set imgs)"

lemma plan_sound:
  assumes "gcCollectCandidates D s = Inr cands"
  shows "set (pl_containerIDs (gcPlanRemovals cands req)) \<subseteq> set (rq_ContainerIDs req) \<inter> reclaimable_containers D s"
    and "fst ` set (pl_images (gcPlanRemovals cands req)) \<subseteq> set (rq_ImageIDs req) \<inter> reclaimable_images D s"
proof -
  obtain imgs ctrs where l: "dk_ImageList D s = Inr imgs" "dk_ContainerList D s = Inr ctrs"
    using assms by (auto simp: gcCollectCandidates_def split: sum.splits)
  have k: "gk_ID ` set (ga_Containers cands) = reclaimable_containers D s"
    using assms l
    by (simp add: gcCollectCandidates_def reclaimable_containers_def gcContainerReclaimable_def) (elim subst, simp add: image_image)
  have i: "gi_ID ` set (ga_Images cands) = reclaimable_images D s"
    using assms l by (auto simp: gcCollectCandidates_def reclaimable_images_def image_image)
  show "set (pl_containerIDs (gcPlanRemovals cands req)) \<subseteq> set (rq_ContainerIDs req) \<inter> reclaimable_containers D s"
    using k by (auto simp: gcPlanRemovals_def Let_def)
  have "map_of (rev (map (\<lambda>i. (gi_ID i, gi_SizeBytes i)) (ga_Images cands))) x = Some z \<Longrightarrow> x \<in> gi_ID ` set (ga_Images cands)" for x z
    by (drule map_of_SomeD) auto
  then show "fst ` set (pl_images (gcPlanRemovals cands req)) \<subseteq> set (rq_ImageIDs req) \<inter> reclaimable_images D s"
    using i by (force simp: gcPlanRemovals_def Let_def List.map_filter_def split: option.splits)
qed

lemma remove_containers_cong:
  "\<forall>i \<in> set ids. dk_ContainerRemove D i = dk_ContainerRemove D' i \<Longrightarrow> remove_containers D ids res s = remove_containers D' ids res s"
  by (induction ids arbitrary: res s) (auto split: prod.splits option.splits)

lemma remove_images_cong:
  "\<forall>i \<in> fst ` set ims. dk_ImageRemove D i = dk_ImageRemove D' i \<Longrightarrow> remove_images D ims res s = remove_images D' ims res s"
  by (induction ims arbitrary: res s) (auto split: prod.splits option.splits)

text \<open>What a result accounts for.\<close>

definition accounted :: "GCResult \<Rightarrow> string multiset" where
  "accounted res = mset (gr_RemovedImages res) + mset (gr_RemovedContainers res) + mset (map fst (gr_Errors res))"

lemma remove_containers_accounted:
  "accounted (fst (remove_containers D ids res s)) = accounted res + mset ids
   \<and> set (gr_RemovedContainers (fst (remove_containers D ids res s))) \<subseteq> set (gr_RemovedContainers res) \<union> set ids
   \<and> gr_RemovedImages (fst (remove_containers D ids res s)) = gr_RemovedImages res"
proof (induction ids arbitrary: res s)
  case (Cons i ids)
  obtain e s' where d: "dk_ContainerRemove D i s = (e, s')" by force
  show ?case
  proof (cases e)
    case None
    then show ?thesis using d Cons.IH [of "res\<lparr>gr_RemovedContainers := gr_RemovedContainers res @ [i]\<rparr>" s']
      by (auto simp: accounted_def)
  next
    case (Some m)
    then show ?thesis using d Cons.IH [of "res\<lparr>gr_Errors := gr_Errors res @ [(i, DaemonError m)]\<rparr>" s']
      by (auto simp: accounted_def)
  qed
qed simp

lemma remove_images_accounted:
  "accounted (fst (remove_images D ims res s)) = accounted res + mset (map fst ims)
   \<and> set (gr_RemovedImages (fst (remove_images D ims res s))) \<subseteq> set (gr_RemovedImages res) \<union> fst ` set ims
   \<and> gr_RemovedContainers (fst (remove_images D ims res s)) = gr_RemovedContainers res"
proof (induction ims arbitrary: res s)
  case (Cons im ims)
  obtain i sz where im: "im = (i, sz)" by force
  obtain e s' where d: "dk_ImageRemove D i s = (e, s')" by force
  show ?case
  proof (cases e)
    case None
    then show ?thesis
      using d im Cons.IH [of "res\<lparr>gr_RemovedImages := gr_RemovedImages res @ [i], gr_ReclaimedBytes := wrap64 (gr_ReclaimedBytes res + sz)\<rparr>" s']
      by (auto simp: accounted_def)
  next
    case (Some m)
    then show ?thesis using d im Cons.IH [of "res\<lparr>gr_Errors := gr_Errors res @ [(i, DaemonError m)]\<rparr>" s']
      by (auto simp: accounted_def)
  qed
qed simp

lemma plan_accounted:
  "mset (pl_containerIDs (gcPlanRemovals cands req)) + mset (map fst (pl_images (gcPlanRemovals cands req)))
     + mset (map fst (pl_errors (gcPlanRemovals cands req))) = mset (rq_ContainerIDs req) + mset (rq_ImageIDs req)"
proof -
  have f: "mset (map fst (List.map_filter (\<lambda>i. map_option (\<lambda>sz. (i, sz)) (f i)) xs)) + mset (filter (\<lambda>i. f i = None) xs) = mset xs"
    for f :: "string \<Rightarrow> int option" and xs by (induction xs) (auto simp: List.map_filter_simps)
  have c: "mset (filter P xs) + mset (filter (\<lambda>i. \<not> P i) xs) = mset xs" for P and xs :: "string list" by (induction xs) auto
  show ?thesis
    using f [of "map_of (rev (map (\<lambda>i. (gi_ID i, gi_SizeBytes i)) (ga_Images cands)))" "rq_ImageIDs req"]
      c [of "\<lambda>i. i \<in> set (map gk_ID (ga_Containers cands))" "rq_ContainerIDs req"]
    by (simp add: gcPlanRemovals_def Let_def comp_def ac_simps)
qed

text \<open>Whatever identifiers a client sends, a collection asks the daemon to remove only containers that are stopped
  deployments and only images that are dangling, at the time of the request: for any other identifier the daemon's
  answer makes no difference. Every requested identifier, as often as it was requested, is reported as removed or
  with an error, and nothing else is.\<close>

theorem gc_only_reclaimable:
  assumes "dk_ImageList D' = dk_ImageList D" "dk_ContainerList D' = dk_ContainerList D"
    and "\<forall>i \<in> set (rq_ContainerIDs req) \<inter> reclaimable_containers D s. dk_ContainerRemove D' i = dk_ContainerRemove D i"
    and "\<forall>i \<in> set (rq_ImageIDs req) \<inter> reclaimable_images D s. dk_ImageRemove D' i = dk_ImageRemove D i"
  shows "handleGC (Inr D') (Inr req) s = handleGC (Inr D) (Inr req) s
    \<and> (case fst (handleGC (Inr D) (Inr req) s) of
         GCDone res \<Rightarrow> accounted res = mset (rq_ContainerIDs req) + mset (rq_ImageIDs req)
           \<and> set (gr_RemovedContainers res) \<subseteq> set (rq_ContainerIDs req) \<inter> reclaimable_containers D s
           \<and> set (gr_RemovedImages res) \<subseteq> set (rq_ImageIDs req) \<inter> reclaimable_images D s
       | _ \<Rightarrow> snd (handleGC (Inr D) (Inr req) s) = s)"
proof -
  have same: "gcCollectCandidates D' s = gcCollectCandidates D s" unfolding gcCollectCandidates_def assms(1,2) ..
  show ?thesis
  proof (cases "(rq_ImageIDs req = [] \<and> rq_ContainerIDs req = []) \<or> (\<exists>e. gcCollectCandidates D s = Inl e)")
    case True
    then show ?thesis using same by (auto simp: handleGC_def)
  next
    case False
    then obtain cands where c: "gcCollectCandidates D s = Inr cands" by (cases "gcCollectCandidates D s") auto
    define plan where "plan = gcPlanRemovals cands req"
    define res0 where "res0 = \<lparr>gr_RemovedImages = [], gr_RemovedContainers = [], gr_ReclaimedBytes = 0, gr_Errors = pl_errors plan\<rparr>"
    obtain res1 s1 where r1: "remove_containers D (pl_containerIDs plan) res0 s = (res1, s1)" by force
    obtain res2 s2 where r2: "remove_images D (pl_images plan) res1 s1 = (res2, s2)" by force
    note sound = plan_sound [OF c, of req, folded plan_def]
    have "remove_containers D' (pl_containerIDs plan) res0 s = (res1, s1)"
      using remove_containers_cong [of "pl_containerIDs plan" D' D res0 s] sound(1) assms(3) r1 by auto
    moreover have "remove_images D' (pl_images plan) res1 s1 = (res2, s2)"
      using remove_images_cong [of "pl_images plan" D' D res1 s1] sound(2) assms(4) r2 by auto
    moreover have run: "handleGC (Inr X) (Inr req) s = (GCDone res2, s2)"
      if "gcCollectCandidates X s = Inr cands" "remove_containers X (pl_containerIDs plan) res0 s = (res1, s1)"
        "remove_images X (pl_images plan) res1 s1 = (res2, s2)" for X
      using False that by (auto simp: handleGC_def Let_def plan_def [symmetric] res0_def [symmetric])
    moreover have "accounted res2 = mset (rq_ContainerIDs req) + mset (rq_ImageIDs req)"
    proof -
      have "accounted res0 = mset (map fst (pl_errors plan))" by (simp add: accounted_def res0_def)
      moreover have "accounted res1 = accounted res0 + mset (pl_containerIDs plan)"
        using remove_containers_accounted [of D "pl_containerIDs plan" res0 s] unfolding r1 by simp
      moreover have "accounted res2 = accounted res1 + mset (map fst (pl_images plan))"
        using remove_images_accounted [of D "pl_images plan" res1 s1] unfolding r2 by simp
      ultimately show ?thesis
        unfolding plan_accounted [of cands req, folded plan_def, symmetric] by (simp add: ac_simps)
    qed
    moreover have "set (gr_RemovedContainers res2) \<subseteq> set (pl_containerIDs plan)" "set (gr_RemovedImages res2) \<subseteq> fst ` set (pl_images plan)"
      using remove_containers_accounted [of D "pl_containerIDs plan" res0 s] remove_images_accounted [of D "pl_images plan" res1 s1] r1 r2
      by (auto simp: res0_def)
    ultimately show ?thesis using c same r1 r2 sound by (auto simp: run)
  qed
qed

definition test_daemon :: "string set docker" where
  "test_daemon = \<lparr>dk_ImageList = \<lambda>_. Inr [],
     dk_ContainerList = \<lambda>_. Inr [\<lparr>dc_ID = ''a'', dc_Names = [''/old''], dc_Image = ''i'', dc_State = ''exited'', dc_Status = [], dc_Created = 1\<rparr>,
       \<lparr>dc_ID = ''b'', dc_Names = [''/live''], dc_Image = ''i'', dc_State = ''running'', dc_Status = [], dc_Created = 2\<rparr>],
     dk_ContainerRemove = \<lambda>i s. (None, s - {i}), dk_ImageRemove = \<lambda>i s. (None, s - {i})\<rparr>"

lemma gc_only_reclaimable_witness:
  "fst (handleGC (Inr test_daemon) (Inr \<lparr>rq_ImageIDs = [], rq_ContainerIDs = [''a'', ''b'']\<rparr>) {''a'', ''b''}) =
     GCDone \<lparr>gr_RemovedImages = [], gr_RemovedContainers = [''a''], gr_ReclaimedBytes = 0, gr_Errors = [(''b'', NotReclaimableContainer)]\<rparr>
   \<and> accounted \<lparr>gr_RemovedImages = [], gr_RemovedContainers = [''a''], gr_ReclaimedBytes = 0, gr_Errors = [(''b'', NotReclaimableContainer)]\<rparr>
     = mset [''a'', ''b'']"
proof -
  have r: "fst (handleGC (Inr test_daemon) (Inr \<lparr>rq_ImageIDs = [], rq_ContainerIDs = [''a'', ''b'']\<rparr>) {''a'', ''b''}) =
     GCDone \<lparr>gr_RemovedImages = [], gr_RemovedContainers = [''a''], gr_ReclaimedBytes = 0, gr_Errors = [(''b'', NotReclaimableContainer)]\<rparr>"
    by code_simp
  have "\<forall>i \<in> A. dk_ContainerRemove test_daemon i = dk_ContainerRemove test_daemon i"
    "\<forall>i \<in> A. dk_ImageRemove test_daemon i = dk_ImageRemove test_daemon i" for A by simp_all
  from gc_only_reclaimable [OF refl refl this, of "\<lparr>rq_ImageIDs = [], rq_ContainerIDs = [''a'', ''b'']\<rparr>" "{''a'', ''b''}"] r
  show ?thesis by simp
qed

end
