(* ===== verification/Auth_Mongo.thy ===== *)
theory Auth_Mongo
  imports Auth_Store
begin

text \<open>
  The account store over MongoDB (\<open>cmd/authproxy/store_mongo.go\<close>, \<open>store_mongo_security.go\<close>): documents, the
  indexes made at the first connection, and the same operations as the SQL store. The server is not part of the
  repository: its calls are a record, and what its documentation says of them is the predicate \<open>documented\<close>. Times are
  whole seconds, so the driver's rounding to milliseconds does not show.
\<close>

section \<open>Documents\<close>

datatype bson = BString string | BBool bool | BInt int | BDate int

type_synonym document = "string \<rightharpoonup> bson"

datatype condition = Equals bson | Absent | After int

type_synonym query = "(string \<times> condition) list"

record mongo_index =
  ix_keys :: "string list"
  ix_unique :: bool
  ix_sparse :: bool

datatype mongo_error = NoDocuments | DuplicateKey | ServerError string

record 'd mongo_coll =
  mc_FindOne :: "query \<Rightarrow> 'd \<Rightarrow> mongo_error + document"
  mc_InsertOne :: "document \<Rightarrow> 'd \<Rightarrow> mongo_error option \<times> 'd"
  mc_UpdateByID :: "string \<Rightarrow> (string \<times> bson) list \<Rightarrow> string list \<Rightarrow> 'd \<Rightarrow> (mongo_error + nat) \<times> 'd"
  mc_DeleteMany :: "query \<Rightarrow> 'd \<Rightarrow> 'd"
  mc_FindOneAndUpdate :: "query \<Rightarrow> (string \<times> bson) list \<Rightarrow> 'd \<Rightarrow> (mongo_error + document) \<times> 'd"

section \<open>The connection\<close>

definition mongoDefaultDB :: string where "mongoDefaultDB = ''agentry''"

definition databaseFromURI :: "string \<Rightarrow> string" where
  "databaseFromURI uri =
     (case index_str uri ''://'' of
        None \<Rightarrow> mongoDefaultDB
      | Some i \<Rightarrow>
          (let rest0 = drop (i + 3) uri; rest = (case index_byte rest0 (CHR ''?'') of Some q \<Rightarrow> take q rest0 | None \<Rightarrow> rest0)
           in case index_byte rest (CHR ''/'') of
                None \<Rightarrow> mongoDefaultDB
              | Some slash \<Rightarrow> if Suc slash = length rest then mongoDefaultDB else drop (Suc slash) rest))"

definition collection_names :: "string \<Rightarrow> string \<times> string" where
  "collection_names suffix = (if suffix = [] then (''agentry_users'', ''agentry_email_tokens'')
     else (''agentry_users'' @ ''_'' @ suffix, ''agentry_email_tokens'' @ ''_'' @ suffix))"

definition user_indexes :: "mongo_index list" where
  "user_indexes = [\<lparr>ix_keys = [''email''], ix_unique = True, ix_sparse = False\<rparr>,
     \<lparr>ix_keys = [''provider'', ''provider_id''], ix_unique = True, ix_sparse = True\<rparr>]"

definition token_indexes :: "mongo_index list" where
  "token_indexes = [\<lparr>ix_keys = [''user_id'', ''purpose''], ix_unique = False, ix_sparse = False\<rparr>,
     \<lparr>ix_keys = [''expires_at''], ix_unique = False, ix_sparse = False\<rparr>]"

section \<open>Accounts\<close>

datatype mongo_failure = Failed store_error | Server string

definition doc_string :: "document \<Rightarrow> string \<Rightarrow> string" where
  "doc_string d k = (case d k of Some (BString s) \<Rightarrow> s | _ \<Rightarrow> [])"

definition userFromDoc :: "document \<Rightarrow> user" where
  "userFromDoc d = \<lparr>us_ID = doc_string d ''_id'', us_Email = doc_string d ''email'', us_PasswordHash = doc_string d ''password_hash'',
     us_Name = doc_string d ''name'', us_Provider = doc_string d ''provider'', us_ProviderID = doc_string d ''provider_id'',
     us_CreatedAt = (case d ''created_at'' of Some (BDate t) \<Rightarrow> t | _ \<Rightarrow> 0),
     us_EmailVerified = (case d ''email_verified'' of Some (BBool b) \<Rightarrow> b | _ \<Rightarrow> False),
     us_FailedAttempts = (case d ''failed_attempts'' of Some (BInt n) \<Rightarrow> n | _ \<Rightarrow> 0),
     us_LockedUntil = (case d ''locked_until'' of Some (BDate t) \<Rightarrow> Some t | _ \<Rightarrow> None)\<rparr>"

definition password_doc :: "string \<Rightarrow> string \<Rightarrow> string \<Rightarrow> string \<Rightarrow> int \<Rightarrow> document" where
  "password_doc uid email hash name now = [''_id'' \<mapsto> BString uid, ''email'' \<mapsto> BString email, ''password_hash'' \<mapsto> BString hash,
     ''name'' \<mapsto> BString name, ''provider'' \<mapsto> BString ''password'', ''provider_id'' \<mapsto> BString [], ''created_at'' \<mapsto> BDate now,
     ''email_verified'' \<mapsto> BBool False, ''failed_attempts'' \<mapsto> BInt 0]"

definition oauth_doc :: "string \<Rightarrow> string \<Rightarrow> string \<Rightarrow> string \<Rightarrow> string \<Rightarrow> int \<Rightarrow> document" where
  "oauth_doc uid email name provider providerID now = [''_id'' \<mapsto> BString uid, ''email'' \<mapsto> BString email, ''password_hash'' \<mapsto> BString [],
     ''name'' \<mapsto> BString name, ''provider'' \<mapsto> BString provider, ''provider_id'' \<mapsto> BString providerID, ''created_at'' \<mapsto> BDate now]"

definition mongo_CreateUserPassword ::
  "(bytes \<Rightarrow> string option) \<Rightarrow> 'd mongo_coll \<Rightarrow> string \<Rightarrow> int \<Rightarrow> string \<Rightarrow> string \<Rightarrow> string \<Rightarrow> 'd \<Rightarrow> (mongo_failure + user) \<times> 'd" where
  "mongo_CreateUserPassword bcrypt C uid now email0 password name0 s = (
     let email = norm_email email0; name = trim_space name0 in
     if email = [] \<or> CHR ''@'' \<notin> set email then (Inl (Failed InvalidEmail), s)
     else if length password < 8 then (Inl (Failed PasswordTooShort), s)
     else (case bcrypt password of
         None \<Rightarrow> (Inl (Failed HashFailed), s)
       | Some hash \<Rightarrow>
           (case mc_InsertOne C (password_doc uid email hash name now) s of
              (Some DuplicateKey, s') \<Rightarrow> (Inl (Failed ErrEmailTaken), s')
            | (Some e, s') \<Rightarrow> (Inl (Server ''insert user''), s')
            | (None, s') \<Rightarrow> (Inr \<lparr>us_ID = uid, us_Email = email, us_PasswordHash = hash, us_Name = name, us_Provider = ''password'',
                us_ProviderID = [], us_CreatedAt = now, us_EmailVerified = False, us_FailedAttempts = 0, us_LockedUntil = None\<rparr>, s'))))"

definition mongo_GetUserByEmail :: "'d mongo_coll \<Rightarrow> string \<Rightarrow> 'd \<Rightarrow> mongo_failure + user" where
  "mongo_GetUserByEmail C email s =
     (case mc_FindOne C [(''email'', Equals (BString (norm_email email)))] s of
        Inr d \<Rightarrow> Inr (userFromDoc d)
      | Inl NoDocuments \<Rightarrow> Inl (Failed NoRows)
      | Inl e \<Rightarrow> Inl (Server ''find''))"

text \<open>The update of the name on a known identity may fail without a word.\<close>

definition mongo_UpsertUserFromOAuth ::
  "'d mongo_coll \<Rightarrow> string \<Rightarrow> int \<Rightarrow> string \<Rightarrow> string \<Rightarrow> string \<Rightarrow> string \<Rightarrow> 'd \<Rightarrow> (mongo_failure + user) \<times> 'd" where
  "mongo_UpsertUserFromOAuth C uid now provider providerID email0 name0 s = (
     let email = norm_email email0; name = trim_space name0 in
     case mc_FindOne C [(''provider'', Equals (BString provider)), (''provider_id'', Equals (BString providerID))] s of
       Inr d \<Rightarrow> (let u = userFromDoc d in
         if name \<noteq> [] \<and> name \<noteq> us_Name u then (Inr (u\<lparr>us_Name := name\<rparr>), snd (mc_UpdateByID C (us_ID u) [(''name'', BString name)] [] s))
         else (Inr u, s))
     | Inl NoDocuments \<Rightarrow>
         (case mc_FindOne C [(''email'', Equals (BString email))] s of
            Inr d \<Rightarrow> (let u = userFromDoc d;
                sets = [(''provider'', BString provider), (''provider_id'', BString providerID)] @ (if name \<noteq> [] then [(''name'', BString name)] else [])
              in case mc_UpdateByID C (us_ID u) sets [] s of
                   (Inl e, s') \<Rightarrow> (Inl (Server ''update''), s')
                 | (Inr n, s') \<Rightarrow> (Inr (u\<lparr>us_Provider := provider, us_ProviderID := providerID, us_Name := (if name \<noteq> [] then name else us_Name u)\<rparr>), s'))
          | Inl NoDocuments \<Rightarrow>
              (case mc_InsertOne C (oauth_doc uid email name provider providerID now) s of
                 (Some e, s') \<Rightarrow> (Inl (Server ''insert oauth user''), s')
               | (None, s') \<Rightarrow> (Inr \<lparr>us_ID = uid, us_Email = email, us_PasswordHash = [], us_Name = name, us_Provider = provider,
                   us_ProviderID = providerID, us_CreatedAt = now, us_EmailVerified = False, us_FailedAttempts = 0, us_LockedUntil = None\<rparr>, s'))
          | Inl e \<Rightarrow> (Inl (Server ''find''), s))
     | Inl e \<Rightarrow> (Inl (Server ''find''), s))"

section \<open>Passwords, lockout and mailed tokens\<close>

definition mongo_UpdatePassword :: "(bytes \<Rightarrow> string option) \<Rightarrow> 'd mongo_coll \<Rightarrow> string \<Rightarrow> string \<Rightarrow> 'd \<Rightarrow> mongo_failure option \<times> 'd" where
  "mongo_UpdatePassword bcrypt C uid password s =
     (if length password < 8 then (Some (Failed PasswordTooShort), s)
      else (case bcrypt password of
          None \<Rightarrow> (Some (Failed HashFailed), s)
        | Some hash \<Rightarrow>
            (case mc_UpdateByID C uid [(''password_hash'', BString hash), (''failed_attempts'', BInt 0)] [''locked_until''] s of
               (Inl e, s') \<Rightarrow> (Some (Server ''update password''), s')
             | (Inr n, s') \<Rightarrow> ((if n = 0 then Some (Failed NoRows) else None), s'))))"

definition plain_update :: "'d mongo_coll \<Rightarrow> string \<Rightarrow> string \<Rightarrow> (string \<times> bson) list \<Rightarrow> string list \<Rightarrow> 'd \<Rightarrow> mongo_failure option \<times> 'd" where
  "plain_update C what uid sets unsets s = (case mc_UpdateByID C uid sets unsets s of
     (Inl e, s') \<Rightarrow> (Some (Server what), s') | (Inr n, s') \<Rightarrow> (None, s'))"

definition mongo_MarkEmailVerified :: "'d mongo_coll \<Rightarrow> string \<Rightarrow> 'd \<Rightarrow> mongo_failure option \<times> 'd" where
  "mongo_MarkEmailVerified C uid = plain_update C ''mark verified'' uid [(''email_verified'', BBool True)] []"

definition mongo_RecordLoginFailure :: "'d mongo_coll \<Rightarrow> string \<Rightarrow> int \<Rightarrow> int option \<Rightarrow> 'd \<Rightarrow> mongo_failure option \<times> 'd" where
  "mongo_RecordLoginFailure C uid attempts lockedUntil = (case lockedUntil of
     None \<Rightarrow> plain_update C ''record login failure'' uid [(''failed_attempts'', BInt attempts)] [''locked_until'']
   | Some t \<Rightarrow> plain_update C ''record login failure'' uid [(''failed_attempts'', BInt attempts), (''locked_until'', BDate t)] [])"

definition mongo_ResetLoginAttempts :: "'d mongo_coll \<Rightarrow> string \<Rightarrow> 'd \<Rightarrow> mongo_failure option \<times> 'd" where
  "mongo_ResetLoginAttempts C uid = plain_update C ''reset login attempts'' uid [(''failed_attempts'', BInt 0)] [''locked_until'']"

definition mongo_CreateEmailToken :: "'d mongo_coll \<Rightarrow> int \<Rightarrow> string \<Rightarrow> string \<Rightarrow> string \<Rightarrow> int \<Rightarrow> 'd \<Rightarrow> mongo_failure option \<times> 'd" where
  "mongo_CreateEmailToken T now uid purpose hash expires s = (
     let s1 = mc_DeleteMany T [(''user_id'', Equals (BString uid)), (''purpose'', Equals (BString purpose))] s in
     case mc_InsertOne T [''_id'' \<mapsto> BString hash, ''user_id'' \<mapsto> BString uid, ''purpose'' \<mapsto> BString purpose, ''expires_at'' \<mapsto> BDate expires,
         ''created_at'' \<mapsto> BDate now] s1 of
       (Some e, s2) \<Rightarrow> (Some (Server ''create email token''), s2)
     | (None, s2) \<Rightarrow> (None, s2))"

definition mongo_ConsumeEmailToken :: "'d mongo_coll \<Rightarrow> int \<Rightarrow> string \<Rightarrow> string \<Rightarrow> 'd \<Rightarrow> (mongo_failure + string) \<times> 'd" where
  "mongo_ConsumeEmailToken T now purpose hash s =
     (case mc_FindOneAndUpdate T [(''_id'', Equals (BString hash)), (''purpose'', Equals (BString purpose)), (''used_at'', Absent),
         (''expires_at'', After now)] [(''used_at'', BDate now)] s of
        (Inl NoDocuments, s') \<Rightarrow> (Inl (Failed ErrTokenInvalid), s')
      | (Inl e, s') \<Rightarrow> (Inl (Server ''consume token''), s')
      | (Inr d, s') \<Rightarrow> (if doc_string d ''user_id'' = [] then (Inl (Failed ErrTokenInvalid), s') else (Inr (doc_string d ''user_id''), s')))"

section \<open>What the server's documentation says\<close>

definition mongo_match :: "query \<Rightarrow> document \<Rightarrow> bool" where
  "mongo_match q d = list_all (\<lambda>(k, c). case c of
     Equals v \<Rightarrow> d k = Some v | Absent \<Rightarrow> d k = None | After t \<Rightarrow> (case d k of Some (BDate x) \<Rightarrow> x > t | _ \<Rightarrow> False)) q"

definition updated :: "(string \<times> bson) list \<Rightarrow> string list \<Rightarrow> document \<Rightarrow> document" where
  "updated sets unsets d = (\<lambda>k. if k \<in> set unsets then None else case map_of sets k of Some v \<Rightarrow> Some v | None \<Rightarrow> d k)"

text \<open>A sparse index has the documents with at least one of its keys; a missing key counts as null.\<close>

definition indexed :: "mongo_index \<Rightarrow> document \<Rightarrow> bool" where
  "indexed ix d \<longleftrightarrow> ix_sparse ix \<longrightarrow> list_ex (\<lambda>k. d k \<noteq> None) (ix_keys ix)"

definition conflict :: "mongo_index list \<Rightarrow> document \<Rightarrow> document \<Rightarrow> bool" where
  "conflict ixs d e \<longleftrightarrow> list_ex (\<lambda>ix. ix_unique ix \<and> indexed ix d \<and> indexed ix e \<and> map d (ix_keys ix) = map e (ix_keys ix)) ixs"

definition insert_refused :: "mongo_index list \<Rightarrow> document list \<Rightarrow> document \<Rightarrow> bool" where
  "insert_refused ixs ds d \<longleftrightarrow> list_ex (\<lambda>e. e ''_id'' = d ''_id'' \<or> conflict ixs d e) ds"

definition update_refused :: "mongo_index list \<Rightarrow> document list \<Rightarrow> string \<Rightarrow> (document \<Rightarrow> document) \<Rightarrow> bool" where
  "update_refused ixs ds uid f \<longleftrightarrow> list_ex (\<lambda>d. d ''_id'' = Some (BString uid)
     \<and> list_ex (\<lambda>e. e ''_id'' \<noteq> Some (BString uid) \<and> conflict ixs (f d) e) ds) ds"

definition documented :: "mongo_index list \<Rightarrow> 'd mongo_coll \<Rightarrow> ('d \<Rightarrow> document list) \<Rightarrow> bool" where
  "documented ixs C view \<longleftrightarrow>
     (\<forall>q s. mc_FindOne C q s = (case find (mongo_match q) (view s) of None \<Rightarrow> Inl NoDocuments | Some d \<Rightarrow> Inr d))
   \<and> (\<forall>d s. if insert_refused ixs (view s) d then fst (mc_InsertOne C d s) = Some DuplicateKey \<and> view (snd (mc_InsertOne C d s)) = view s
        else fst (mc_InsertOne C d s) = None \<and> view (snd (mc_InsertOne C d s)) = view s @ [d])
   \<and> (\<forall>uid sets unsets s. if update_refused ixs (view s) uid (updated sets unsets)
        then fst (mc_UpdateByID C uid sets unsets s) = Inl DuplicateKey \<and> view (snd (mc_UpdateByID C uid sets unsets s)) = view s
        else fst (mc_UpdateByID C uid sets unsets s) = Inr (length (filter (\<lambda>d. d ''_id'' = Some (BString uid)) (view s)))
          \<and> view (snd (mc_UpdateByID C uid sets unsets s))
              = map (\<lambda>d. if d ''_id'' = Some (BString uid) then updated sets unsets d else d) (view s))
   \<and> (\<forall>q s. view (mc_DeleteMany C q s) = filter (\<lambda>d. \<not> mongo_match q d) (view s))
   \<and> (\<forall>q sets s. case find (mongo_match q) (view s) of
        None \<Rightarrow> fst (mc_FindOneAndUpdate C q sets s) = Inl NoDocuments \<and> view (snd (mc_FindOneAndUpdate C q sets s)) = view s
      | Some d \<Rightarrow> fst (mc_FindOneAndUpdate C q sets s) = Inr d
          \<and> view (snd (mc_FindOneAndUpdate C q sets s)) = map (\<lambda>e. if e ''_id'' = d ''_id'' then updated sets [] e else e) (view s))"

section \<open>Both stores on one call\<close>

datatype store_call =
    CallCreate string string string string
  | CallGet string
  | CallOAuth string string string string string
  | CallPassword string string
  | CallVerified string
  | CallFailure string int "int option"
  | CallReset string
  | CallToken string string string int
  | CallConsume string string

datatype store_reply = GaveUser user | GaveID string | Done | Refused mongo_failure

definition gave_user :: "mongo_failure + user \<Rightarrow> store_reply" where
  "gave_user r = (case r of Inl e \<Rightarrow> Refused e | Inr u \<Rightarrow> GaveUser u)"

definition gave_done :: "mongo_failure option \<Rightarrow> store_reply" where
  "gave_done r = (case r of None \<Rightarrow> Done | Some e \<Rightarrow> Refused e)"

fun sql_call :: "(bytes \<Rightarrow> string option) \<Rightarrow> int \<Rightarrow> store_call \<Rightarrow> user_store \<Rightarrow> store_reply \<times> user_store" where
  "sql_call bcrypt now (CallCreate uid email pw name) st = (case CreateUserPassword bcrypt uid now st email pw name of
     Inl e \<Rightarrow> (Refused (Failed e), st) | Inr (u, st') \<Rightarrow> (GaveUser u, st'))"
| "sql_call bcrypt now (CallGet email) st = ((case GetUserByEmail st email of None \<Rightarrow> Refused (Failed NoRows) | Some u \<Rightarrow> GaveUser u), st)"
| "sql_call bcrypt now (CallOAuth uid provider pid email name) st = map_prod GaveUser id (UpsertUserFromOAuth uid now st provider pid email name)"
| "sql_call bcrypt now (CallPassword uid pw) st = (case UpdatePassword bcrypt st uid pw of Inl e \<Rightarrow> (Refused (Failed e), st) | Inr st' \<Rightarrow> (Done, st'))"
| "sql_call bcrypt now (CallVerified uid) st = (Done, MarkEmailVerified st uid)"
| "sql_call bcrypt now (CallFailure uid n l) st = (Done, RecordLoginFailure st uid n l)"
| "sql_call bcrypt now (CallReset uid) st = (Done, ResetLoginAttempts st uid)"
| "sql_call bcrypt now (CallToken uid purpose hash expires) st = (case CreateEmailToken st uid purpose hash expires of
     (True, st') \<Rightarrow> (Done, st') | (False, st') \<Rightarrow> (Refused (Server ''create email token''), st'))"
| "sql_call bcrypt now (CallConsume purpose hash) st = (case ConsumeEmailToken st now purpose hash of
     Inl e \<Rightarrow> (Refused (Failed e), st) | Inr (i, st') \<Rightarrow> (GaveID i, st'))"

definition on_users :: "('r \<Rightarrow> store_reply) \<Rightarrow> ('d \<Rightarrow> 'r \<times> 'd) \<Rightarrow> 'd \<times> 'd \<Rightarrow> store_reply \<times> 'd \<times> 'd" where
  "on_users f op s = (case op (fst s) of (r, s') \<Rightarrow> (f r, s', snd s))"

definition on_tokens :: "('r \<Rightarrow> store_reply) \<Rightarrow> ('d \<Rightarrow> 'r \<times> 'd) \<Rightarrow> 'd \<times> 'd \<Rightarrow> store_reply \<times> 'd \<times> 'd" where
  "on_tokens f op s = (case op (snd s) of (r, t') \<Rightarrow> (f r, fst s, t'))"

fun mongo_call :: "'d mongo_coll \<Rightarrow> 'd mongo_coll \<Rightarrow> (bytes \<Rightarrow> string option) \<Rightarrow> int \<Rightarrow> store_call \<Rightarrow> 'd \<times> 'd \<Rightarrow> store_reply \<times> 'd \<times> 'd" where
  "mongo_call U T bcrypt now (CallCreate uid email pw name) = on_users gave_user (mongo_CreateUserPassword bcrypt U uid now email pw name)"
| "mongo_call U T bcrypt now (CallGet email) = on_users gave_user (\<lambda>s. (mongo_GetUserByEmail U email s, s))"
| "mongo_call U T bcrypt now (CallOAuth uid provider pid email name) = on_users gave_user (mongo_UpsertUserFromOAuth U uid now provider pid email name)"
| "mongo_call U T bcrypt now (CallPassword uid pw) = on_users gave_done (mongo_UpdatePassword bcrypt U uid pw)"
| "mongo_call U T bcrypt now (CallVerified uid) = on_users gave_done (mongo_MarkEmailVerified U uid)"
| "mongo_call U T bcrypt now (CallFailure uid n l) = on_users gave_done (mongo_RecordLoginFailure U uid n l)"
| "mongo_call U T bcrypt now (CallReset uid) = on_users gave_done (mongo_ResetLoginAttempts U uid)"
| "mongo_call U T bcrypt now (CallToken uid purpose hash expires) = on_tokens gave_done (mongo_CreateEmailToken T now uid purpose hash expires)"
| "mongo_call U T bcrypt now (CallConsume purpose hash) = on_tokens (\<lambda>r. case r of Inl e \<Rightarrow> Refused e | Inr i \<Rightarrow> GaveID i) (mongo_ConsumeEmailToken T now purpose hash)"

end
