(* ===== verification/Auth_Mongos.thy ===== *)
theory Auth_Mongos
  imports Auth_Mongo
begin

text \<open>
  The two account stores compared: documents and rows, call by call.
\<close>

section \<open>Documents as rows\<close>

definition doc_ok :: "document \<Rightarrow> bool" where
  "doc_ok d \<longleftrightarrow> list_all (\<lambda>k. d k = Some (BString (doc_string d k))) [''_id'', ''email'', ''provider'', ''provider_id'']"

definition identity_of :: "user \<Rightarrow> string \<times> string" where
  "identity_of u = (us_Provider u, us_ProviderID u)"

definition users_rel :: "document list \<Rightarrow> user list \<Rightarrow> bool" where
  "users_rel ds us \<longleftrightarrow> map userFromDoc ds = us \<and> list_all doc_ok ds \<and> distinct (map us_ID us) \<and> distinct (map us_Email us)
     \<and> distinct (map identity_of us)"

definition tokenFromDoc :: "document \<Rightarrow> email_token" where
  "tokenFromDoc d = \<lparr>et_Hash = doc_string d ''_id'', et_User = doc_string d ''user_id'', et_Purpose = doc_string d ''purpose'',
     et_Expires = (case d ''expires_at'' of Some (BDate t) \<Rightarrow> t | _ \<Rightarrow> 0), et_Used = (case d ''used_at'' of Some (BDate t) \<Rightarrow> Some t | _ \<Rightarrow> None)\<rparr>"

definition token_ok :: "document \<Rightarrow> bool" where
  "token_ok d \<longleftrightarrow> list_all (\<lambda>k. d k = Some (BString (doc_string d k))) [''_id'', ''user_id'', ''purpose''] \<and> doc_string d ''user_id'' \<noteq> []
     \<and> d ''expires_at'' = Some (BDate (et_Expires (tokenFromDoc d))) \<and> d ''used_at'' = map_option BDate (et_Used (tokenFromDoc d))"

text \<open>The server deletes expired tokens when it likes: those are \<open>gone\<close>.\<close>

definition tokens_rel :: "int \<Rightarrow> document list \<Rightarrow> email_token list \<Rightarrow> bool" where
  "tokens_rel now ds ts \<longleftrightarrow> (\<exists>gone. map tokenFromDoc ds = filter (\<lambda>t. et_Hash t \<notin> gone) ts
       \<and> (\<forall>t \<in> set ts. et_Hash t \<in> gone \<longrightarrow> et_Expires t \<le> now))
     \<and> list_all token_ok ds \<and> distinct (map et_Hash ts)"

lemma find_map_doc:
  assumes "\<And>d. d \<in> set ds \<Longrightarrow> P d = Q (f d)"
  shows "find Q (map f ds) = map_option f (find P ds)"
  using assms by (induction ds) auto

lemma doc_okD: "doc_ok d \<Longrightarrow> d ''_id'' = Some (BString (us_ID (userFromDoc d))) \<and> d ''email'' = Some (BString (us_Email (userFromDoc d)))
    \<and> d ''provider'' = Some (BString (us_Provider (userFromDoc d))) \<and> d ''provider_id'' = Some (BString (us_ProviderID (userFromDoc d)))"
  by (simp add: doc_ok_def userFromDoc_def)

lemma token_okD: "token_ok d \<Longrightarrow> d ''_id'' = Some (BString (et_Hash (tokenFromDoc d))) \<and> d ''user_id'' = Some (BString (et_User (tokenFromDoc d)))
    \<and> d ''purpose'' = Some (BString (et_Purpose (tokenFromDoc d)))"
  by (simp add: token_ok_def) (simp add: tokenFromDoc_def)

lemma conflict_users: "doc_ok d \<Longrightarrow> doc_ok e \<Longrightarrow> conflict user_indexes d e \<longleftrightarrow>
    us_Email (userFromDoc d) = us_Email (userFromDoc e) \<or> identity_of (userFromDoc d) = identity_of (userFromDoc e)"
  using doc_okD [of d] doc_okD [of e] by (auto simp: conflict_def user_indexes_def indexed_def identity_of_def)

lemma conflict_tokens [simp]: "\<not> conflict token_indexes d e"
  by (simp add: conflict_def token_indexes_def)

lemma match_email: "doc_ok d \<Longrightarrow> mongo_match [(''email'', Equals (BString e))] d \<longleftrightarrow> us_Email (userFromDoc d) = e"
  using doc_okD [of d] by (simp add: mongo_match_def)

lemma match_identity: "doc_ok d \<Longrightarrow> mongo_match [(''provider'', Equals (BString p)), (''provider_id'', Equals (BString i))] d
    \<longleftrightarrow> us_Provider (userFromDoc d) = p \<and> us_ProviderID (userFromDoc d) = i"
  using doc_okD [of d] by (simp add: mongo_match_def)

lemma users_find:
  assumes "users_rel ds us" "\<And>d. doc_ok d \<Longrightarrow> mongo_match q d \<longleftrightarrow> Q (userFromDoc d)"
  shows "find Q us = map_option userFromDoc (find (mongo_match q) ds)"
proof -
  have "us = map userFromDoc ds" "\<And>d. d \<in> set ds \<Longrightarrow> doc_ok d" using assms(1) by (auto simp: users_rel_def list_all_iff)
  then show ?thesis using find_map_doc [of ds "mongo_match q" Q userFromDoc] assms(2) by simp
qed

section \<open>Single statements\<close>

lemma documented_find: "documented ixs C view \<Longrightarrow>
    mc_FindOne C q s = (case find (mongo_match q) (view s) of None \<Rightarrow> Inl NoDocuments | Some d \<Rightarrow> Inr d)"
  by (simp add: documented_def)

lemma documented_insert: "documented ixs C view \<Longrightarrow> mc_InsertOne C d s = (r, s') \<Longrightarrow>
    if insert_refused ixs (view s) d then r = Some DuplicateKey \<and> view s' = view s else r = None \<and> view s' = view s @ [d]"
  unfolding documented_def by (drule conjunct2, drule conjunct1, drule spec [of _ d], drule spec [of _ s]) (simp split: if_splits)

lemma documented_update: "documented ixs C view \<Longrightarrow> mc_UpdateByID C uid sets unsets s = (r, s') \<Longrightarrow>
    \<not> update_refused ixs (view s) uid (updated sets unsets) \<Longrightarrow>
    r = Inr (length (filter (\<lambda>d. d ''_id'' = Some (BString uid)) (view s)))
    \<and> view s' = map (\<lambda>d. if d ''_id'' = Some (BString uid) then updated sets unsets d else d) (view s)"
  unfolding documented_def
  by (drule conjunct2, drule conjunct2, drule conjunct1, drule spec [of _ uid], drule spec [of _ sets], drule spec [of _ unsets], drule spec [of _ s]) simp

lemma documented_modify: "documented ixs C view \<Longrightarrow> mc_FindOneAndUpdate C q sets s = (r, s') \<Longrightarrow>
    (case find (mongo_match q) (view s) of None \<Rightarrow> r = Inl NoDocuments \<and> view s' = view s
      | Some d \<Rightarrow> r = Inr d \<and> view s' = map (\<lambda>e. if e ''_id'' = d ''_id'' then updated sets [] e else e) (view s))"
  unfolding documented_def
  by (drule conjunct2, drule conjunct2, drule conjunct2, drule conjunct2, drule spec [of _ q], drule spec [of _ sets], drule spec [of _ s])
    (simp split: option.splits)

lemma users_insert:
  assumes doc: "documented user_indexes U view" and rel: "users_rel (view s) us" and ok: "doc_ok d" and fresh: "us_ID (userFromDoc d) \<notin> us_ID ` set us"
    and ins: "mc_InsertOne U d s = (r, s')"
  shows "if us_Email (userFromDoc d) \<in> us_Email ` set us \<or> identity_of (userFromDoc d) \<in> identity_of ` set us
    then r = Some DuplicateKey \<and> view s' = view s else r = None \<and> users_rel (view s') (us @ [userFromDoc d])"
proof -
  have us: "us = map userFromDoc (view s)" and oks: "\<And>e. e \<in> set (view s) \<Longrightarrow> doc_ok e"
    using rel by (auto simp: users_rel_def list_all_iff)
  have "e ''_id'' \<noteq> d ''_id''" if "e \<in> set (view s)" for e
    using doc_okD [OF ok] doc_okD [OF oks [OF that]] fresh that by (force simp: us)
  then have "insert_refused user_indexes (view s) d \<longleftrightarrow>
      us_Email (userFromDoc d) \<in> us_Email ` set us \<or> identity_of (userFromDoc d) \<in> identity_of ` set us"
    using conflict_users [OF ok oks] by (auto simp: insert_refused_def list_ex_iff us image_iff)
  moreover have "users_rel (view s @ [d]) (us @ [userFromDoc d])"
    if "us_Email (userFromDoc d) \<notin> us_Email ` set us" "identity_of (userFromDoc d) \<notin> identity_of ` set us"
    using rel that ok fresh by (auto simp: users_rel_def)
  ultimately show ?thesis using documented_insert [OF doc ins] by (simp split: if_splits)
qed

lemma distinct_changed:
  assumes "distinct (map us_ID us)" "distinct (map h us)"
    "\<And>u v. u \<in> set us \<Longrightarrow> v \<in> set us \<Longrightarrow> us_ID u = uid \<Longrightarrow> us_ID v \<noteq> uid \<Longrightarrow> h (g u) \<noteq> h v"
  shows "distinct (map h (map (\<lambda>u. if us_ID u = uid then g u else u) us))"
proof -
  have d: "distinct us" and i: "inj_on us_ID (set us)" "inj_on h (set us)" using assms(1,2) by (auto simp: distinct_map)
  have "inj_on (\<lambda>u. h (if us_ID u = uid then g u else u)) (set us)"
  proof (rule inj_onI)
    fix u v assume uv: "u \<in> set us" "v \<in> set us" "h (if us_ID u = uid then g u else u) = h (if us_ID v = uid then g v else v)"
    show "u = v"
    proof (cases "us_ID u = uid"; cases "us_ID v = uid")
      assume "us_ID u = uid" "us_ID v = uid" then show ?thesis using i(1) uv by (auto dest: inj_onD)
    next
      assume "us_ID u = uid" "us_ID v \<noteq> uid" then show ?thesis using assms(3) uv by auto
    next
      assume "us_ID u \<noteq> uid" "us_ID v = uid" then show ?thesis using assms(3) uv by (metis (full_types))
    next
      assume "us_ID u \<noteq> uid" "us_ID v \<noteq> uid" then show ?thesis using i(2) uv by (auto dest: inj_onD)
    qed
  qed
  then show ?thesis using d by (simp add: distinct_map inj_on_def comp_def)
qed

lemma users_update:
  assumes doc: "documented user_indexes U view" and rel: "users_rel (view s) us" and upd: "mc_UpdateByID U uid sets unsets s = (r, s')"
    and keeps: "\<And>d. doc_ok d \<Longrightarrow> doc_ok (updated sets unsets d) \<and> userFromDoc (updated sets unsets d) = g (userFromDoc d)"
    and same: "\<And>u. us_ID (g u) = us_ID u \<and> us_Email (g u) = us_Email u"
    and free: "\<And>u v. u \<in> set us \<Longrightarrow> v \<in> set us \<Longrightarrow> us_ID u = uid \<Longrightarrow> us_ID v \<noteq> uid \<Longrightarrow> identity_of (g u) \<noteq> identity_of v"
  shows "(\<exists>n. r = Inr n \<and> (n = 0 \<longleftrightarrow> \<not> list_ex (\<lambda>u. us_ID u = uid) us)) \<and> users_rel (view s') (map (\<lambda>u. if us_ID u = uid then g u else u) us)"
proof -
  have us: "us = map userFromDoc (view s)" and oks: "\<And>e. e \<in> set (view s) \<Longrightarrow> doc_ok e"
    and dis: "distinct (map us_ID us)" "distinct (map us_Email us)" "distinct (map identity_of us)"
    using rel by (auto simp: users_rel_def list_all_iff)
  have idq: "e ''_id'' = Some (BString uid) \<longleftrightarrow> us_ID (userFromDoc e) = uid" if "e \<in> set (view s)" for e
    using doc_okD [OF oks [OF that]] by simp
  have no: "\<not> conflict user_indexes (updated sets unsets d) e"
    if "d \<in> set (view s)" "us_ID (userFromDoc d) = uid" "e \<in> set (view s)" "us_ID (userFromDoc e) \<noteq> uid" for d e
  proof -
    have "us_Email (userFromDoc d) \<noteq> us_Email (userFromDoc e)"
      using dis(2) that unfolding us by (auto simp: distinct_map inj_on_def)
    then show ?thesis
      using conflict_users [OF conjunct1 [OF keeps [OF oks [OF that(1)]]] oks [OF that(3)]] keeps [OF oks [OF that(1)]] same
        free [of "userFromDoc d" "userFromDoc e"] that by (auto simp: us)
  qed
  then have "\<not> update_refused user_indexes (view s) uid (updated sets unsets)"
    using idq by (auto simp: update_refused_def list_ex_iff)
  then have r: "r = Inr (length (filter (\<lambda>d. d ''_id'' = Some (BString uid)) (view s)))"
      and v: "view s' = map (\<lambda>d. if d ''_id'' = Some (BString uid) then updated sets unsets d else d) (view s)"
    using documented_update [OF doc upd] by blast+
  have mp: "map userFromDoc (view s') = map (\<lambda>u. if us_ID u = uid then g u else u) us"
    unfolding v us using keeps oks idq by auto
  have "list_all doc_ok (view s')" unfolding v using keeps oks by (auto simp: list_all_iff)
  moreover have "distinct (map us_ID (map (\<lambda>u. if us_ID u = uid then g u else u) us))"
    using distinct_changed [OF dis(1) dis(1), of uid g] same by auto
  moreover have "distinct (map us_Email (map (\<lambda>u. if us_ID u = uid then g u else u) us))"
    by (rule distinct_changed [OF dis(1,2)]) (use dis(2) same in \<open>force simp: distinct_map inj_on_def\<close>)
  moreover have "distinct (map identity_of (map (\<lambda>u. if us_ID u = uid then g u else u) us))"
    by (rule distinct_changed [OF dis(1,3)]) (rule free)
  ultimately have "users_rel (view s') (map (\<lambda>u. if us_ID u = uid then g u else u) us)"
    unfolding users_rel_def mp by blast
  moreover have "length (filter (\<lambda>d. d ''_id'' = Some (BString uid)) (view s)) = 0 \<longleftrightarrow> \<not> list_ex (\<lambda>u. us_ID u = uid) us"
    using idq by (auto simp: us filter_empty_conv list_ex_iff)
  ultimately show ?thesis using r by blast
qed

lemma keep_changed:
  assumes "\<And>d. doc_ok d \<Longrightarrow> doc_ok (updated sets unsets d) \<and> userFromDoc (updated sets unsets d) = g (userFromDoc d)"
    and "\<And>u. us_ID (g u) = us_ID u \<and> us_Email (g u) = us_Email u \<and> identity_of (g u) = identity_of u"
    and "documented user_indexes U view" "users_rel (view s) us" "mc_UpdateByID U uid sets unsets s = (r, s')"
  shows "(\<exists>n. r = Inr n \<and> (n = 0 \<longleftrightarrow> \<not> list_ex (\<lambda>u. us_ID u = uid) us)) \<and> users_rel (view s') (map (\<lambda>u. if us_ID u = uid then g u else u) us)"
proof (rule users_update [OF assms(3-5) assms(1)])
  show "identity_of (g u) \<noteq> identity_of v" if uv: "u \<in> set us" "v \<in> set us" "us_ID u = uid" "us_ID v \<noteq> uid" for u v
  proof -
    have "inj_on identity_of (set us)" using assms(4) by (simp add: users_rel_def distinct_map)
    moreover have "u \<noteq> v" using uv by blast
    ultimately have "identity_of u \<noteq> identity_of v" using uv(1,2) by (meson inj_onD)
    then show ?thesis using assms(2) [of u] by simp
  qed
  show "us_ID (g u) = us_ID u \<and> us_Email (g u) = us_Email u" for u using assms(2) [of u] by simp
qed

lemma tokens_create:
  assumes doc: "documented token_indexes T view" and rel: "tokens_rel now (view s) (st_tokens st)" and fresh: "hash \<notin> et_Hash ` set (st_tokens st)"
    and uid: "uid \<noteq> []" and m: "mongo_CreateEmailToken T now uid purpose hash expires s = (r, s')"
    and q: "CreateEmailToken st uid purpose hash expires = (ok, st')"
  shows "r = None \<and> ok \<and> st_users st' = st_users st \<and> tokens_rel now (view s') (st_tokens st')"
proof -
  let ?q = "[(''user_id'', Equals (BString uid)), (''purpose'', Equals (BString purpose))]"
  let ?p = "\<lambda>t. et_User t = uid \<and> et_Purpose t = purpose"
  let ?d = "[''_id'' \<mapsto> BString hash, ''user_id'' \<mapsto> BString uid, ''purpose'' \<mapsto> BString purpose, ''expires_at'' \<mapsto> BDate expires, ''created_at'' \<mapsto> BDate now]"
  define s1 where "s1 = mc_DeleteMany T ?q s"
  obtain gone where g: "map tokenFromDoc (view s) = filter (\<lambda>t. et_Hash t \<notin> gone) (st_tokens st)"
      "\<forall>t \<in> set (st_tokens st). et_Hash t \<in> gone \<longrightarrow> et_Expires t \<le> now"
    and oks: "list_all token_ok (view s)" and dis: "distinct (map et_Hash (st_tokens st))" using rel by (auto simp: tokens_rel_def)
  have mt: "mongo_match ?q d \<longleftrightarrow> ?p (tokenFromDoc d)" if "d \<in> set (view s)" for d
    using token_okD [of d] oks that by (auto simp: mongo_match_def list_all_iff)
  have v1: "view s1 = filter (\<lambda>d. \<not> mongo_match ?q d) (view s)" using doc unfolding documented_def s1_def by blast
  have mp: "map tokenFromDoc (view s1) = filter (\<lambda>t. \<not> ?p t) (map tokenFromDoc (view s))"
    unfolding v1 filter_map comp_def using mt by (auto intro!: arg_cong [where f = "map tokenFromDoc"] filter_cong)
  have "\<not> insert_refused token_indexes (view s1) ?d"
  proof -
    have "et_Hash (tokenFromDoc d) \<noteq> hash" if "d \<in> set (view s1)" for d
    proof -
      have "tokenFromDoc d \<in> set (map tokenFromDoc (view s))" using that v1 by auto
      then show ?thesis using g(1) fresh by auto
    qed
    moreover have "token_ok d" if "d \<in> set (view s1)" for d using that oks v1 by (auto simp: list_all_iff)
    ultimately show ?thesis using token_okD by (fastforce simp: insert_refused_def list_ex_iff)
  qed
  obtain r' s2 where i: "mc_InsertOne T ?d s1 = (r', s2)" by (metis surj_pair)
  then have ins: "r' = None" "view s2 = view s1 @ [?d]" using documented_insert [OF doc i] \<open>\<not> insert_refused token_indexes (view s1) ?d\<close> by simp_all
  have r: "r = None" "s' = s2" using m ins(1) i by (auto simp: mongo_CreateEmailToken_def s1_def)
  define kept where "kept = filter (\<lambda>t. \<not> ?p t) (st_tokens st)"
  have st': "ok" "st' = st\<lparr>st_tokens := kept @ [tokenFromDoc ?d]\<rparr>"
  proof -
    have "\<not> list_ex (\<lambda>t. et_Hash t = hash) kept" using fresh by (auto simp: kept_def list_ex_iff)
    then show "ok" "st' = st\<lparr>st_tokens := kept @ [tokenFromDoc ?d]\<rparr>"
      using q unfolding CreateEmailToken_def kept_def [symmetric] Let_def by (simp_all add: tokenFromDoc_def doc_string_def)
  qed
  have "map tokenFromDoc (view s') = filter (\<lambda>t. et_Hash t \<notin> gone - {hash}) (kept @ [tokenFromDoc ?d])"
  proof -
    have "filter (\<lambda>t. et_Hash t \<notin> gone) kept = filter (\<lambda>t. et_Hash t \<notin> gone - {hash}) kept"
      using fresh by (intro filter_cong) (auto simp: kept_def)
    moreover have "filter (\<lambda>t. \<not> ?p t) (filter (\<lambda>t. et_Hash t \<notin> gone) (st_tokens st)) = filter (\<lambda>t. et_Hash t \<notin> gone) kept"
      by (auto simp: kept_def intro!: filter_cong)
    ultimately show ?thesis using mp g(1) ins(2) r(2) by (simp add: tokenFromDoc_def doc_string_def)
  qed
  moreover have "list_all token_ok (view s')"
    using oks ins(2) r(2) uid v1 by (auto simp: list_all_iff token_ok_def tokenFromDoc_def doc_string_def)
  moreover have "distinct (map et_Hash (kept @ [tokenFromDoc ?d]))"
    using dis fresh by (auto simp: kept_def tokenFromDoc_def doc_string_def distinct_map intro: inj_on_subset)
  moreover have "\<forall>t \<in> set (kept @ [tokenFromDoc ?d]). et_Hash t \<in> gone - {hash} \<longrightarrow> et_Expires t \<le> now"
    using g(2) by (auto simp: kept_def tokenFromDoc_def doc_string_def)
  ultimately have "tokens_rel now (view s') (kept @ [tokenFromDoc ?d])" unfolding tokens_rel_def by blast
  moreover have "st_tokens st' = kept @ [tokenFromDoc ?d]" "st_users st' = st_users st" by (simp_all add: st'(2))
  ultimately show ?thesis using r(1) st'(1) by metis
qed

lemma tokens_later: "tokens_rel now ds ts \<Longrightarrow> now \<le> now' \<Longrightarrow> tokens_rel now' ds ts"
  unfolding tokens_rel_def by (meson order.trans)

text \<open>The server's own removal of expired tokens.\<close>

lemma tokens_purged:
  assumes "tokens_rel now ds ts"
  shows "tokens_rel now (filter (\<lambda>d. et_Expires (tokenFromDoc d) > now) ds) ts"
proof -
  obtain gone where g: "map tokenFromDoc ds = filter (\<lambda>t. et_Hash t \<notin> gone) ts" "\<forall>t \<in> set ts. et_Hash t \<in> gone \<longrightarrow> et_Expires t \<le> now"
    and oks: "list_all token_ok ds" and dis: "distinct (map et_Hash ts)" using assms by (auto simp: tokens_rel_def)
  let ?g = "gone \<union> et_Hash ` {t \<in> set ts. et_Expires t \<le> now}"
  have old: "et_Expires t \<le> now" if "t \<in> set ts" "et_Hash t \<in> ?g" for t
    using that g(2) dis by (auto simp: distinct_map dest: inj_onD)
  have "map tokenFromDoc (filter (\<lambda>d. et_Expires (tokenFromDoc d) > now) ds) = filter (\<lambda>t. et_Expires t > now) (map tokenFromDoc ds)"
    by (simp add: filter_map comp_def)
  also have "\<dots> = filter (\<lambda>t. et_Hash t \<notin> ?g) ts"
    unfolding g(1) filter_filter using old by (intro filter_cong) (auto simp: not_less, fastforce)
  finally have "map tokenFromDoc (filter (\<lambda>d. et_Expires (tokenFromDoc d) > now) ds) = filter (\<lambda>t. et_Hash t \<notin> ?g) ts" .
  moreover have "list_all token_ok (filter (\<lambda>d. et_Expires (tokenFromDoc d) > now) ds)" using oks by (simp add: list_all_iff)
  ultimately show ?thesis using old dis unfolding tokens_rel_def by blast
qed

lemma tokens_consume:
  assumes doc: "documented token_indexes T view" and rel: "tokens_rel now (view s) (st_tokens st)"
    and m: "mongo_ConsumeEmailToken T now purpose hash s = (r, s')"
  shows "case ConsumeEmailToken st now purpose hash of
      Inl e \<Rightarrow> r = Inl (Failed e) \<and> tokens_rel now (view s') (st_tokens st)
    | Inr (i, st') \<Rightarrow> r = Inr i \<and> st_users st' = st_users st \<and> tokens_rel now (view s') (st_tokens st')"
proof -
  let ?q = "[(''_id'', Equals (BString hash)), (''purpose'', Equals (BString purpose)), (''used_at'', Absent), (''expires_at'', After now)]"
  let ?u = "token_usable now purpose hash"
  let ?mark = "\<lambda>t. if ?u t then t\<lparr>et_Used := Some now\<rparr> else t"
  obtain gone where g: "map tokenFromDoc (view s) = filter (\<lambda>t. et_Hash t \<notin> gone) (st_tokens st)"
      "\<forall>t \<in> set (st_tokens st). et_Hash t \<in> gone \<longrightarrow> et_Expires t \<le> now"
    and oks: "list_all token_ok (view s)" and dis: "distinct (map et_Hash (st_tokens st))" using rel by (auto simp: tokens_rel_def)
  have ok: "token_ok d" if "d \<in> set (view s)" for d using oks that by (simp add: list_all_iff)
  have mt: "mongo_match ?q d \<longleftrightarrow> ?u (tokenFromDoc d)" if "d \<in> set (view s)" for d
    using token_okD [OF ok [OF that]] ok [OF that] by (auto simp: mongo_match_def token_usable_def token_ok_def)
  obtain r1 s1 where f: "mc_FindOneAndUpdate T ?q [(''used_at'', BDate now)] s = (r1, s1)" by (metis surj_pair)
  note d = documented_modify [OF doc f]
  have sub: "t \<in> tokenFromDoc ` set (view s) \<longleftrightarrow> t \<in> set (st_tokens st) \<and> et_Hash t \<notin> gone" for t
    using arg_cong [OF g(1), of set] by auto
  show ?thesis
  proof (cases "find (mongo_match ?q) (view s)")
    case None
    then have no: "\<not> ?u (tokenFromDoc d)" if "d \<in> set (view s)" for d using mt that by (auto simp: find_None_iff)
    have "\<not> ?u t" if "t \<in> set (st_tokens st)" for t
    proof
      assume u: "?u t"
      then have "et_Hash t \<notin> gone" using g(2) that by (auto simp: token_usable_def)
      then show False using sub [of t] that no u by auto
    qed
    then have "ConsumeEmailToken st now purpose hash = Inl ErrTokenInvalid" by (auto simp: ConsumeEmailToken_def list_ex_iff)
    then show ?thesis using d None f m rel by (simp add: mongo_ConsumeEmailToken_def)
  next
    case (Some d0)
    then have d0: "d0 \<in> set (view s)" "?u (tokenFromDoc d0)" using mt by (auto simp: find_Some_iff)
    let ?t = "tokenFromDoc d0"
    have t: "?t \<in> set (st_tokens st)" using sub d0(1) by blast
    have same: "?u t \<longleftrightarrow> t = ?t" if "t \<in> set (st_tokens st)" for t
      using that t d0(2) dis by (auto simp: token_usable_def distinct_map dest: inj_onD)
    have hash: "et_Hash t = hash \<longleftrightarrow> t = ?t" if "t \<in> set (st_tokens st)" for t
      using that t d0(2) dis by (auto simp: token_usable_def distinct_map dest: inj_onD)
    have s1: "view s1 = map (\<lambda>e. if e ''_id'' = d0 ''_id'' then updated [(''used_at'', BDate now)] [] e else e) (view s)" "r1 = Inr d0"
      using d Some by simp_all
    have same_id: "e ''_id'' = d0 ''_id'' \<longleftrightarrow> ?u (tokenFromDoc e)" if "e \<in> set (view s)" for e
    proof -
      have "tokenFromDoc e \<in> set (st_tokens st)" using sub that by blast
      then show ?thesis
        using token_okD [OF ok [OF that]] token_okD [OF ok [OF d0(1)]] hash same d0(2) by (auto simp: token_usable_def)
    qed
    have upd: "tokenFromDoc (updated [(''used_at'', BDate now)] [] e) = (tokenFromDoc e)\<lparr>et_Used := Some now\<rparr>" for e
      by (simp add: tokenFromDoc_def updated_def doc_string_def)
    have "map tokenFromDoc (view s1) = map ?mark (map tokenFromDoc (view s))"
      unfolding s1 using same_id upd by auto
    also have "\<dots> = filter (\<lambda>t. et_Hash t \<notin> gone) (map ?mark (st_tokens st))"
      unfolding g(1) filter_map comp_def by (auto intro!: arg_cong [where f = "map ?mark"] filter_cong)
    finally have mp: "map tokenFromDoc (view s1) = filter (\<lambda>t. et_Hash t \<notin> gone) (map ?mark (st_tokens st))" .
    have "list_all token_ok (view s1)"
    proof -
      have "token_ok (updated [(''used_at'', BDate now)] [] e)" if "token_ok e" for e
      proof -
        have "doc_string (updated [(''used_at'', BDate now)] [] e) k = doc_string e k" if "k \<noteq> ''used_at''" for k
          using that by (simp add: updated_def doc_string_def)
        then show ?thesis using that by (simp add: token_ok_def upd) (simp add: updated_def)
      qed
      then show ?thesis unfolding s1 using ok by (auto simp: list_all_iff)
    qed
    moreover have "map et_Hash (map ?mark (st_tokens st)) = map et_Hash (st_tokens st)" by auto
    then have "distinct (map et_Hash (map ?mark (st_tokens st)))" using dis by metis
    moreover have "\<forall>t \<in> set (map ?mark (st_tokens st)). et_Hash t \<in> gone \<longrightarrow> et_Expires t \<le> now" using g(2) by auto
    ultimately have rel': "tokens_rel now (view s1) (map ?mark (st_tokens st))"
      unfolding tokens_rel_def using mp by blast
    have "find (\<lambda>t. et_Hash t = hash) (map ?mark (st_tokens st)) = Some (?t\<lparr>et_Used := Some now\<rparr>)"
    proof -
      have "find (\<lambda>t. et_Hash t = hash) (map ?mark (st_tokens st)) = map_option ?mark (find (\<lambda>t. et_Hash t = hash) (st_tokens st))"
        by (rule find_map_doc) simp
      moreover have "find (\<lambda>t. et_Hash t = hash) (st_tokens st) = Some ?t"
      proof (cases "find (\<lambda>t. et_Hash t = hash) (st_tokens st)")
        case None then show ?thesis using t hash by (auto simp: find_None_iff)
      next
        case (Some t')
        then have "t' \<in> set (st_tokens st)" "et_Hash t' = hash" by (auto simp: find_Some_iff)
        then show ?thesis using Some hash by simp
      qed
      ultimately show ?thesis using d0(2) by simp
    qed
    moreover have "list_ex ?u (st_tokens st)" using t d0(2) by (auto simp: list_ex_iff)
    ultimately have "ConsumeEmailToken st now purpose hash = Inr (et_User ?t, st\<lparr>st_tokens := map ?mark (st_tokens st)\<rparr>)"
      by (simp add: ConsumeEmailToken_def)
    moreover have "doc_string d0 ''user_id'' = et_User ?t" "et_User ?t \<noteq> []"
      using ok [OF d0(1)] by (simp_all add: token_ok_def tokenFromDoc_def)
    ultimately show ?thesis using f m s1(2) rel' by (simp add: mongo_ConsumeEmailToken_def)
  qed
qed

section \<open>The calls\<close>

text \<open>The identifiers and hashes are random and new; a provider's name for its user has no spaces around it.\<close>

definition plain_call :: "store_call \<Rightarrow> user_store \<Rightarrow> bool" where
  "plain_call c st \<longleftrightarrow> (case c of
     CallCreate uid email pw name \<Rightarrow> uid \<notin> us_ID ` set (st_users st)
   | CallOAuth uid provider pid email name \<Rightarrow> uid \<notin> us_ID ` set (st_users st) \<and> name \<noteq> [] \<and> trim_space name = name
   | CallToken uid purpose hash expires \<Rightarrow> uid \<noteq> [] \<and> hash \<notin> et_Hash ` set (st_tokens st)
   | _ \<Rightarrow> True)"

definition stores_agree :: "int \<Rightarrow> document list \<Rightarrow> document list \<Rightarrow> user_store \<Rightarrow> bool" where
  "stores_agree now us ts st \<longleftrightarrow> users_rel us (st_users st) \<and> tokens_rel now ts (st_tokens st)"

text \<open>An account with a password and no provider is there, and another one is asked for.\<close>

definition second_password :: "(bytes \<Rightarrow> string option) \<Rightarrow> int \<Rightarrow> store_call \<Rightarrow> user_store \<Rightarrow> bool" where
  "second_password bcrypt now c st \<longleftrightarrow> (case c of
     CallCreate uid email pw name \<Rightarrow> list_ex (\<lambda>u. identity_of u = (''password'', [])) (st_users st)
       \<and> CreateUserPassword bcrypt uid now st email pw name \<in> range Inr
   | _ \<Rightarrow> False)"

text \<open>The SQL lookups of a provider's user leave three columns out.\<close>

definition sql_columns :: "store_call \<Rightarrow> store_reply \<Rightarrow> store_reply" where
  "sql_columns c r = (case c of CallOAuth _ _ _ _ _ \<Rightarrow> (case r of GaveUser u \<Rightarrow> GaveUser (oauth_columns u) | _ \<Rightarrow> r) | _ \<Rightarrow> r)"

lemma password_doc_row: "doc_ok (password_doc uid email hash name now)" "us_ID (userFromDoc (password_doc uid email hash name now)) = uid"
    "userFromDoc (password_doc uid email hash name now) = \<lparr>us_ID = uid, us_Email = email, us_PasswordHash = hash, us_Name = name,
      us_Provider = ''password'', us_ProviderID = [], us_CreatedAt = now, us_EmailVerified = False, us_FailedAttempts = 0, us_LockedUntil = None\<rparr>"
  by (simp_all add: password_doc_def doc_ok_def userFromDoc_def doc_string_def)

lemma oauth_doc_row: "doc_ok (oauth_doc uid email name provider pid now)"
    "userFromDoc (oauth_doc uid email name provider pid now) = \<lparr>us_ID = uid, us_Email = email, us_PasswordHash = [], us_Name = name,
      us_Provider = provider, us_ProviderID = pid, us_CreatedAt = now, us_EmailVerified = False, us_FailedAttempts = 0, us_LockedUntil = None\<rparr>"
  by (simp_all add: oauth_doc_def doc_ok_def userFromDoc_def doc_string_def)

lemma create_call:
  assumes U: "documented user_indexes U view" and rel: "users_rel (view s) (st_users st)" and new: "uid \<notin> us_ID ` set (st_users st)"
    and m: "mongo_CreateUserPassword bcrypt U uid now email pw name s = (r, s')"
  shows "case CreateUserPassword bcrypt uid now st email pw name of
      Inl e \<Rightarrow> r = Inl (Failed e) \<and> view s' = view s
    | Inr (u, st') \<Rightarrow> st_tokens st' = st_tokens st \<and>
        (if list_ex (\<lambda>u. identity_of u = (''password'', [])) (st_users st) then r = Inl (Failed ErrEmailTaken) \<and> view s' = view s
         else r = Inr u \<and> users_rel (view s') (st_users st'))"
proof (cases "norm_email email = [] \<or> CHR ''@'' \<notin> set (norm_email email) \<or> length pw < 8 \<or> bcrypt pw = None")
  case True
  then show ?thesis using m by (auto simp: mongo_CreateUserPassword_def CreateUserPassword_def Let_def)
next
  case False
  then obtain hash where h: "bcrypt pw = Some hash" by auto
  obtain r1 s1 where i: "mc_InsertOne U (password_doc uid (norm_email email) hash (trim_space name) now) s = (r1, s1)" by (metis surj_pair)
  note x = users_insert [OF U rel password_doc_row(1) _ i, unfolded password_doc_row(2), OF new, unfolded password_doc_row(3)]
  have taken: "list_ex (\<lambda>v. us_Email v = norm_email email) (st_users st) \<longleftrightarrow> norm_email email \<in> us_Email ` set (st_users st)"
    "list_ex (\<lambda>u. identity_of u = (''password'', [])) (st_users st) \<longleftrightarrow> (''password'', []) \<in> identity_of ` set (st_users st)"
    by (auto simp: list_ex_iff image_iff) metis+
  show ?thesis
    using m False h i x unfolding CreateUserPassword_def mongo_CreateUserPassword_def Let_def taken
    by (auto simp: identity_of_def split: if_splits)
qed

lemma get_call:
  assumes U: "documented user_indexes U view" and rel: "users_rel (view s) (st_users st)"
  shows "mongo_GetUserByEmail U email s = (case GetUserByEmail st email of None \<Rightarrow> Inl (Failed NoRows) | Some u \<Rightarrow> Inr u)"
proof -
  have "GetUserByEmail st email = map_option userFromDoc (find (mongo_match [(''email'', Equals (BString (norm_email email)))]) (view s))"
    unfolding GetUserByEmail_def by (rule users_find [OF rel match_email])
  then show ?thesis
    unfolding mongo_GetUserByEmail_def documented_find [OF U]
    by (cases "find (mongo_match [(''email'', Equals (BString (norm_email email)))]) (view s)") simp_all
qed

text \<open>The updates that leave the address and the identity alone.\<close>

lemma plain_update_call:
  assumes "documented user_indexes U view" "users_rel (view s) (st_users st)" "plain_update U what uid sets unsets s = (r, s')"
    "\<And>d. doc_ok d \<Longrightarrow> doc_ok (updated sets unsets d) \<and> userFromDoc (updated sets unsets d) = g (userFromDoc d)"
    "\<And>u. us_ID (g u) = us_ID u \<and> us_Email (g u) = us_Email u \<and> identity_of (g u) = identity_of u"
  shows "r = None \<and> users_rel (view s') (st_users (update_user st uid g))"
proof -
  obtain r1 s1 where u: "mc_UpdateByID U uid sets unsets s = (r1, s1)" by (metis surj_pair)
  from keep_changed [OF assms(4,5,1,2) u] show ?thesis using assms(3) u by (auto simp: plain_update_def update_user_def)
qed

lemma updated_at: "updated sets unsets d k = (if k \<in> set unsets then None else case map_of sets k of Some v \<Rightarrow> Some v | None \<Rightarrow> d k)"
  by (simp add: updated_def)

lemma doc_string_updated: "doc_string (updated sets unsets d) k =
    (if k \<in> set unsets then [] else case map_of sets k of Some v \<Rightarrow> (case v of BString x \<Rightarrow> x | _ \<Rightarrow> []) | None \<Rightarrow> doc_string d k)"
  by (simp add: doc_string_def updated_def split: option.split)

lemmas row_simps = doc_ok_def userFromDoc_def updated_at doc_string_updated identity_of_def

lemma verified_call:
  assumes "documented user_indexes U view" "users_rel (view s) (st_users st)" "mongo_MarkEmailVerified U uid s = (r, s')"
  shows "r = None \<and> users_rel (view s') (st_users (MarkEmailVerified st uid))"
  unfolding MarkEmailVerified_def
  by (rule plain_update_call [OF assms(1,2) assms(3) [unfolded mongo_MarkEmailVerified_def]]) (simp_all add: row_simps)

lemma reset_call:
  assumes "documented user_indexes U view" "users_rel (view s) (st_users st)" "mongo_ResetLoginAttempts U uid s = (r, s')"
  shows "r = None \<and> users_rel (view s') (st_users (ResetLoginAttempts st uid))"
  unfolding ResetLoginAttempts_def
  by (rule plain_update_call [OF assms(1,2) assms(3) [unfolded mongo_ResetLoginAttempts_def]]) (simp_all add: row_simps)

lemma failure_call:
  assumes "documented user_indexes U view" "users_rel (view s) (st_users st)" "mongo_RecordLoginFailure U uid n l s = (r, s')"
  shows "r = None \<and> users_rel (view s') (st_users (RecordLoginFailure st uid n l))"
proof (cases l)
  case None
  show ?thesis unfolding RecordLoginFailure_def
    by (rule plain_update_call [OF assms(1,2) assms(3) [unfolded mongo_RecordLoginFailure_def None option.case]]) (simp_all add: row_simps None)
next
  case (Some t)
  show ?thesis unfolding RecordLoginFailure_def
    by (rule plain_update_call [OF assms(1,2) assms(3) [unfolded mongo_RecordLoginFailure_def Some option.case]]) (simp_all add: row_simps Some)
qed

lemma password_call:
  assumes "documented user_indexes U view" "users_rel (view s) (st_users st)" "mongo_UpdatePassword bcrypt U uid pw s = (r, s')"
  shows "case UpdatePassword bcrypt st uid pw of
      Inl e \<Rightarrow> r = Some (Failed e) \<and> users_rel (view s') (st_users st)
    | Inr st' \<Rightarrow> r = None \<and> st_tokens st' = st_tokens st \<and> users_rel (view s') (st_users st')"
proof (cases "length pw < 8 \<or> bcrypt pw = None")
  case True
  then show ?thesis using assms by (auto simp: mongo_UpdatePassword_def UpdatePassword_def)
next
  case False
  then obtain hash where h: "bcrypt pw = Some hash" by auto
  obtain r1 s1 where u: "mc_UpdateByID U uid [(''password_hash'', BString hash), (''failed_attempts'', BInt 0)] [''locked_until''] s = (r1, s1)"
    by (metis surj_pair)
  note x = keep_changed [OF _ _ assms(1,2) u, where g = "\<lambda>u. u\<lparr>us_PasswordHash := hash, us_FailedAttempts := 0, us_LockedUntil := None\<rparr>"]
  have "(\<exists>n. r1 = Inr n \<and> (n = 0 \<longleftrightarrow> \<not> list_ex (\<lambda>u. us_ID u = uid) (st_users st)))
      \<and> users_rel (view s1) (map (\<lambda>u. if us_ID u = uid then u\<lparr>us_PasswordHash := hash, us_FailedAttempts := 0, us_LockedUntil := None\<rparr> else u) (st_users st))"
    by (rule x) (simp_all add: row_simps)
  then obtain n where n: "r1 = Inr n" "n = 0 \<longleftrightarrow> \<not> list_ex (\<lambda>u. us_ID u = uid) (st_users st)"
    and rel: "users_rel (view s1) (map (\<lambda>u. if us_ID u = uid then u\<lparr>us_PasswordHash := hash, us_FailedAttempts := 0, us_LockedUntil := None\<rparr> else u) (st_users st))"
    by blast
  have r: "r = (if n = 0 then Some (Failed NoRows) else None)" "s' = s1"
    using assms(3) False h u n(1) by (simp_all add: mongo_UpdatePassword_def)
  show ?thesis
  proof (cases "list_ex (\<lambda>u. us_ID u = uid) (st_users st)")
    case True
    then show ?thesis using False h n r rel by (simp add: UpdatePassword_def update_user_def)
  next
    case no: False
    then have "map (\<lambda>u. if us_ID u = uid then u\<lparr>us_PasswordHash := hash, us_FailedAttempts := 0, us_LockedUntil := None\<rparr> else u) (st_users st) = st_users st"
      by (auto simp: list_ex_iff intro: map_idI)
    then show ?thesis using False h n r rel no by (simp add: UpdatePassword_def)
  qed
qed

lemma oauth_call:
  assumes U: "documented user_indexes U view" and rel: "users_rel (view s) (st_users st)" and new: "uid \<notin> us_ID ` set (st_users st)"
    and name: "name \<noteq> []" "trim_space name = name"
    and m: "mongo_UpsertUserFromOAuth U uid now provider pid email name s = (r, s')"
    and q: "UpsertUserFromOAuth uid now st provider pid email name = (u, st')"
  shows "(\<exists>v. r = Inr v \<and> oauth_columns v = u) \<and> st_tokens st' = st_tokens st \<and> users_rel (view s') (st_users st')"
proof -
  let ?qi = "[(''provider'', Equals (BString provider)), (''provider_id'', Equals (BString pid))]"
  let ?qe = "[(''email'', Equals (BString (norm_email email)))]"
  have fi: "find (\<lambda>u. us_Provider u = provider \<and> us_ProviderID u = pid) (st_users st) = map_option userFromDoc (find (mongo_match ?qi) (view s))"
    by (rule users_find [OF rel match_identity])
  have fe: "find (\<lambda>u. us_Email u = norm_email email) (st_users st) = map_option userFromDoc (find (mongo_match ?qe) (view s))"
    by (rule users_find [OF rel match_email])
  show ?thesis
  proof (cases "find (mongo_match ?qi) (view s)")
    case (Some d)
    show ?thesis
    proof (cases "name = us_Name (userFromDoc d)")
      case True
      then show ?thesis using m q Some fi rel name
        by (auto simp: mongo_UpsertUserFromOAuth_def UpsertUserFromOAuth_def documented_find [OF U] Let_def)
    next
      case False
      obtain r1 s1 where u: "mc_UpdateByID U (us_ID (userFromDoc d)) [(''name'', BString name)] [] s = (r1, s1)" by (metis surj_pair)
      have "users_rel (view s1) (map (\<lambda>v. if us_ID v = us_ID (userFromDoc d) then v\<lparr>us_Name := name\<rparr> else v) (st_users st))"
        by (rule conjunct2 [OF keep_changed [OF _ _ U rel u]]) (simp_all add: row_simps)
      then show ?thesis using m q Some fi False name u
        by (auto simp: mongo_UpsertUserFromOAuth_def UpsertUserFromOAuth_def documented_find [OF U] Let_def update_user_def oauth_columns_def)
    qed
  next
    case None
    then have noi: "identity_of v \<noteq> (provider, pid)" if "v \<in> set (st_users st)" for v
    proof -
      have "find (\<lambda>u. us_Provider u = provider \<and> us_ProviderID u = pid) (st_users st) = None" using fi None by simp
      then show ?thesis using that by (auto simp: find_None_iff identity_of_def)
    qed
    show ?thesis
    proof (cases "find (mongo_match ?qe) (view s)")
      case (Some d)
      let ?sets = "[(''provider'', BString provider), (''provider_id'', BString pid), (''name'', BString name)]"
      let ?g = "\<lambda>v. v\<lparr>us_Provider := provider, us_ProviderID := pid, us_Name := name\<rparr>"
      obtain r1 s1 where u: "mc_UpdateByID U (us_ID (userFromDoc d)) ?sets [] s = (r1, s1)" by (metis surj_pair)
      have x: "(\<exists>n. r1 = Inr n \<and> (n = 0 \<longleftrightarrow> \<not> list_ex (\<lambda>v. us_ID v = us_ID (userFromDoc d)) (st_users st)))
          \<and> users_rel (view s1) (map (\<lambda>v. if us_ID v = us_ID (userFromDoc d) then ?g v else v) (st_users st))"
      proof (rule users_update [OF U rel u])
        show "identity_of (?g v) \<noteq> identity_of w" if "v \<in> set (st_users st)" "w \<in> set (st_users st)" for v w
          using noi [OF that(2)] by (auto simp: identity_of_def)
      qed (simp_all add: row_simps)
      then show ?thesis using m q Some None fi fe name u
        by (auto simp: mongo_UpsertUserFromOAuth_def UpsertUserFromOAuth_def documented_find [OF U] Let_def update_user_def oauth_columns_def)
    next
      case e: None
      then have noe: "norm_email email \<notin> us_Email ` set (st_users st)" using fe e by (auto simp: find_None_iff)
      let ?d = "oauth_doc uid (norm_email email) name provider pid now"
      obtain r1 s1 where i: "mc_InsertOne U ?d s = (r1, s1)" by (metis surj_pair)
      have "(provider, pid) \<notin> identity_of ` set (st_users st)" using noi by (metis imageE)
      then have "r1 = None \<and> users_rel (view s1) (st_users st @ [userFromDoc ?d])"
        using users_insert [OF U rel oauth_doc_row(1) _ i] new noe by (simp add: oauth_doc_row(2) identity_of_def)
      then show ?thesis using m q e None fi fe name i
        by (auto simp: mongo_UpsertUserFromOAuth_def UpsertUserFromOAuth_def documented_find [OF U] Let_def oauth_doc_row(2) oauth_columns_def)
    qed
  qed
qed


section \<open>A server that does what the documentation says\<close>

definition doc_coll :: "mongo_index list \<Rightarrow> document list mongo_coll" where
  "doc_coll ixs = \<lparr>mc_FindOne = (\<lambda>q s. case find (mongo_match q) s of None \<Rightarrow> Inl NoDocuments | Some d \<Rightarrow> Inr d),
     mc_InsertOne = (\<lambda>d s. if insert_refused ixs s d then (Some DuplicateKey, s) else (None, s @ [d])),
     mc_UpdateByID = (\<lambda>uid sets unsets s. if update_refused ixs s uid (updated sets unsets) then (Inl DuplicateKey, s)
       else (Inr (length (filter (\<lambda>d. d ''_id'' = Some (BString uid)) s)),
         map (\<lambda>d. if d ''_id'' = Some (BString uid) then updated sets unsets d else d) s)),
     mc_DeleteMany = (\<lambda>q s. filter (\<lambda>d. \<not> mongo_match q d) s),
     mc_FindOneAndUpdate = (\<lambda>q sets s. case find (mongo_match q) s of None \<Rightarrow> (Inl NoDocuments, s)
       | Some d \<Rightarrow> (Inr d, map (\<lambda>e. if e ''_id'' = d ''_id'' then updated sets [] e else e) s))\<rparr>"

lemma doc_coll_documented: "documented ixs (doc_coll ixs) (\<lambda>s. s)"
  by (simp add: documented_def doc_coll_def split: option.split)

definition first_account :: user where
  "first_account = userFromDoc (password_doc ''u1'' ''a@x'' ''h'' [] 0)"

lemma first_agrees: "stores_agree 0 [password_doc ''u1'' ''a@x'' ''h'' [] 0] [] \<lparr>st_users = [first_account], st_tokens = []\<rparr>"
  by (simp add: stores_agree_def users_rel_def tokens_rel_def first_account_def password_doc_row)


end
