(* ===== verification/Rt_Text.thy ===== *)
theory Rt_Text
  imports GoLib
begin

text \<open>
  The line scanner of \<open>bufio\<close> with the buffer limit that the runtime sets, and \<open>strings.Count\<close> and
  \<open>strings.ReplaceAll\<close> for a pattern that is not empty.
\<close>

abbreviation "newline \<equiv> CHR 0x0A"
abbreviation "carriage_return \<equiv> CHR 0x0D"

section \<open>Lines\<close>

text \<open>The pieces between newlines; what follows the last newline is a line only when it is not empty.\<close>

definition raw_lines :: "string \<Rightarrow> string list" where
  "raw_lines s = (let ls = split_on newline s in if last ls = [] then butlast ls else ls)"

definition drop_cr :: "string \<Rightarrow> string" where
  "drop_cr l = (if l \<noteq> [] \<and> last l = carriage_return then butlast l else l)"

text \<open>The scanner's buffer grows to \<open>1 << 20\<close> bytes; a line that fills it without its newline is too long
  (\<open>ErrTooLong\<close>), and nothing is read after it.\<close>

definition fits_buffer :: "string \<Rightarrow> bool" where
  "fits_buffer l \<longleftrightarrow> int (length l) < 1048576"

definition scan_lines :: "string \<Rightarrow> string list \<times> bool" where
  "scan_lines s = (let ls = raw_lines s in (map drop_cr (takeWhile fits_buffer ls), list_all fits_buffer ls))"

definition terminated :: "string list \<Rightarrow> string" where
  "terminated ls = concat (map (\<lambda>l. l @ [newline]) ls)"

lemma terminated_simps [simp]:
  "terminated [] = []" "terminated (l # ls) = l @ newline # terminated ls"
  "terminated (ls @ ls') = terminated ls @ terminated ls'"
  by (simp_all add: terminated_def)

lemma terminated_join: "ls \<noteq> [] \<Longrightarrow> terminated ls = join_str [newline] ls @ [newline]"
proof (induction ls)
  case (Cons l ls)
  then show ?case by (cases ls) auto
qed simp

lemma last_split_empty: "last (split_on c s) = [] \<longleftrightarrow> s = [] \<or> last s = c"
proof (induction s)
  case (Cons x xs)
  then show ?case
    using join_split_on [of c xs] by (cases "split_on c xs") (auto split: list.splits)
qed simp

lemma raw_lines_plain: "s = [] \<or> last s \<noteq> newline \<Longrightarrow> raw_lines s = (if s = [] then [] else split_on newline s)"
  using last_split_empty [of newline s] by (auto simp: raw_lines_def Let_def)

lemma join_raw_lines: "s = [] \<or> last s \<noteq> newline \<Longrightarrow> join_str [newline] (raw_lines s) = s"
  by (auto simp: raw_lines_plain join_split_on)

lemma raw_lines_no_newline: "l \<in> set (raw_lines s) \<Longrightarrow> newline \<notin> set l"
  by (auto simp: raw_lines_def Let_def split: if_splits dest: in_set_butlastD split_on_elem_no_sep)

lemma join_str_newline_last:
  "list_all (\<lambda>l. newline \<notin> set l) ls \<Longrightarrow> join_str [newline] ls \<noteq> [] \<Longrightarrow> last (join_str [newline] ls) = newline \<Longrightarrow> last ls = []"
proof (induction ls rule: induct_list012)
  case (2 l)
  then show ?case by (auto dest: last_in_set)
next
  case (3 l m ls)
  then show ?case
    by (cases "join_str [newline] (m # ls) = []") (auto simp: list_all_iff split: if_splits, (cases ls; auto)+)
qed simp

section \<open>Occurrences\<close>

lemma index_str_Some:
  "index_str s p = Some i \<Longrightarrow> s = take i s @ p @ drop (i + length p) s \<and> i + length p \<le> length s"
proof (induction s arbitrary: i)
  case Nil
  then show ?case by (simp split: if_splits)
next
  case (Cons x xs)
  show ?case
  proof (cases "has_prefix (x # xs) p")
    case True
    then obtain r where r: "x # xs = p @ r" by (auto simp: has_prefix_iff)
    moreover have "i = 0" using Cons.prems True by simp
    ultimately show ?thesis by simp
  next
    case False
    then obtain j where j: "index_str xs p = Some j" "i = Suc j" using Cons.prems by auto
    then show ?thesis using Cons.IH [OF j(1)] by simp
  qed
qed

lemma drop_occurrence_shorter: "index_str s p = Some i \<Longrightarrow> p \<noteq> [] \<Longrightarrow> length (drop (i + length p) s) < length s"
  using index_str_Some [of s p i] by (simp add: add.commute) (metis add_gr_0 diff_less length_greater_0_conv less_le_trans)

text \<open>Both functions look for the next occurrence behind the one before.\<close>

function split_str :: "string \<Rightarrow> string \<Rightarrow> string list" where
  "split_str p s =
     (case index_str s p of
        None \<Rightarrow> [s]
      | Some i \<Rightarrow> if p = [] then [s] else take i s # split_str p (drop (i + length p) s))"
  by pat_completeness auto

termination
  by (relation "measure (\<lambda>(p, s). length s)") (simp, simp only: in_measure split_conv drop_occurrence_shorter not_False_eq_True)

declare split_str.simps [simp del]

definition str_count :: "string \<Rightarrow> string \<Rightarrow> int" where
  "str_count s p = int (length (split_str p s)) - 1"

definition replace_all :: "string \<Rightarrow> string \<Rightarrow> string \<Rightarrow> string" where
  "replace_all s p q = join_str q (split_str p s)"

lemma split_str_nonempty [simp]: "split_str p s \<noteq> []"
  by (subst split_str.simps) (simp split: option.split)

lemma join_str_Cons: "ws \<noteq> [] \<Longrightarrow> join_str q (w # ws) = w @ q @ join_str q ws"
  by (cases ws) simp_all

lemma join_split_str: "join_str p (split_str p s) = s"
proof (induction p s rule: split_str.induct)
  case (1 p s)
  show ?case
  proof (cases "index_str s p")
    case (Some i)
    show ?thesis
    proof (cases "p = []")
      case False
      then have "join_str p (split_str p s) = take i s @ p @ drop (i + length p) s"
        using Some 1 [OF Some False] by (subst split_str.simps) (simp add: join_str_Cons)
      then show ?thesis using index_str_Some [OF Some] by simp
    qed (use Some in \<open>simp add: split_str.simps\<close>)
  qed (simp add: split_str.simps)
qed

lemma str_count_nonneg: "0 \<le> str_count s p"
  using split_str_nonempty [of p s] by (simp add: str_count_def Suc_leI int_one_le_iff_zero_less del: split_str_nonempty)

lemma str_count_zero: "p \<noteq> [] \<Longrightarrow> str_count s p = 0 \<longleftrightarrow> \<not> contains_str s p"
  by (subst (1) str_count_def, subst split_str.simps) (auto simp: contains_str_def split: option.split)

lemma str_count_step:
  assumes "p \<noteq> []" "index_str s p = Some i"
  shows "str_count s p = 1 + str_count (drop (i + length p) s) p"
    and "replace_all s p q = take i s @ q @ replace_all (drop (i + length p) s) p q"
  using assms by (simp_all add: str_count_def replace_all_def split_str.simps [of p s] join_str_Cons)

lemma replace_none: "p \<noteq> [] \<Longrightarrow> str_count s p = 0 \<Longrightarrow> replace_all s p q = s"
  by (simp add: str_count_zero contains_str_def replace_all_def split_str.simps)

text \<open>With one occurrence, the first one is replaced and the pattern does not occur behind it.\<close>

lemma replace_one:
  assumes "p \<noteq> []" "str_count s p = 1"
  obtains i where "index_str s p = Some i" and "s = take i s @ p @ drop (i + length p) s"
    and "replace_all s p q = take i s @ q @ drop (i + length p) s" and "\<not> contains_str (drop (i + length p) s) p"
proof -
  obtain i where i: "index_str s p = Some i"
    using assms str_count_zero [of p s] by (auto simp: contains_str_def)
  have z: "str_count (drop (i + length p) s) p = 0" using str_count_step(1) [OF assms(1) i] assms(2) by simp
  show ?thesis
    using that [OF i] index_str_Some [OF i] str_count_step(2) [OF assms(1) i] z replace_none [OF assms(1) z]
      str_count_zero [OF assms(1)] by simp
qed

end
