(* ===== verification/Rt_Files.thy ===== *)
theory Rt_Files
  imports Paths Rt_Text
begin

text \<open>
  The file handlers of the sandbox runtime (\<open>pkg/handlers/file.go\<close>, \<open>common.go\<close>): read, write, search, replace
  and multi-edit. The file system is a map from resolved paths to contents and permission bits. Any
  call of the operating system may be refused: \<open>os_env\<close> says which ones are, and a handler's result is its
  reply with the list of the file systems that it passes through, one after each call that writes.
\<close>

section \<open>The file system\<close>

record fsys =
  fs_cwd :: string
  fs_files :: "string \<rightharpoonup> bytes \<times> nat"

datatype os_call = MkdirCall | OpenCall | ReadCall | TempCall | WriteCall | ChmodCall | CloseCall | RenameCall | RemoveCall

text \<open>The calls refused, with the error; how much a refused write has written; the name that \<open>os.CreateTemp\<close> picks.\<close>

record os_env =
  os_fault :: "os_call \<Rightarrow> string option"
  os_partial :: nat
  os_temp :: string

definition resolve :: "fsys \<Rightarrow> string \<Rightarrow> string" where
  "resolve s p = path_clean (if is_abs p then p else fs_cwd s @ ''/'' @ p)"

definition put_file :: "string \<Rightarrow> bytes \<times> nat \<Rightarrow> fsys \<Rightarrow> fsys" where
  "put_file f c s = s\<lparr>fs_files := (fs_files s)(f \<mapsto> c)\<rparr>"

definition del_file :: "string \<Rightarrow> fsys \<Rightarrow> fsys" where
  "del_file f s = s\<lparr>fs_files := (fs_files s)(f := None)\<rparr>"

definition enoent :: string where "enoent = ''no such file or directory''"

text \<open>\<open>os.Open\<close>, or \<open>os.ReadFile\<close> when the read is included.\<close>

definition open_file :: "os_env \<Rightarrow> string \<Rightarrow> fsys \<Rightarrow> string + bytes" where
  "open_file os p s = (case os_fault os OpenCall of
     Some e \<Rightarrow> Inl e
   | None \<Rightarrow> (case fs_files s (resolve s p) of None \<Rightarrow> Inl enoent | Some c \<Rightarrow> Inr (fst c)))"

definition read_file :: "os_env \<Rightarrow> string \<Rightarrow> fsys \<Rightarrow> string + bytes" where
  "read_file os p s = (case open_file os p s of
     Inl e \<Rightarrow> Inl e
   | Inr c \<Rightarrow> (case os_fault os ReadCall of Some e \<Rightarrow> Inl e | None \<Rightarrow> Inr c))"

section \<open>Protected paths\<close>

definition credsMountPath :: string where
  "credsMountPath = ''/etc/sandbox/creds''"

definition isProtectedReadPath :: "string \<Rightarrow> bool" where
  "isProtectedReadPath p \<longleftrightarrow> p \<noteq> [] \<and> (path_clean p = credsMountPath \<or> has_prefix (path_clean p) (credsMountPath @ ''/''))"

section \<open>Requests and replies\<close>

record file_read_request =
  rq_File :: string
  rq_StartLine :: "int option"
  rq_EndLine :: "int option"
  rq_Format :: string

record file_write_request =
  wq_File :: string
  wq_Content :: string
  wq_Append :: "bool option"
  wq_LeadingNewline :: "bool option"
  wq_TrailingNewline :: "bool option"

record file_edit =
  ed_OldStr :: string
  ed_NewStr :: string
  ed_ExpectedMatches :: "int option"
  ed_ReplaceAll :: "bool option"

record file_read_data =
  rd_Content :: string
  rd_TotalLines :: int
  rd_StartLine :: int
  rd_EndLine :: int
  rd_Truncated :: bool

datatype file_refusal = InvalidRequestBody | FileRequired | PathProtected | CannotRead string | ScanFailed
  | CannotMkdir string | CannotOpen string | WriteFailed string | FileAndRegexRequired | InvalidRegex
  | FileAndOldRequired | OldNotFound | ExpectedMatchesDiffer int int | MatchesManyPlaces int
  | EditsRequired | TooManyEdits | EditOldRequired nat | EditNotFound nat | EditMatchesDiffer nat int int
  | EditMatchesMany nat int

datatype file_reply =
    FileError nat file_refusal
  | FileRead file_read_data
  | FileWritten int
  | Searched "(int \<times> string) list" "int list"
  | Replaced int
  | Edited "(string \<times> int) list"

abbreviation "StatusUnprocessableEntity \<equiv> (422::nat)"

definition flag :: "bool option \<Rightarrow> bool" where
  "flag b \<longleftrightarrow> b = Some True"

section \<open>Reading\<close>

definition defaultReadMaxBytes :: int where
  "defaultReadMaxBytes = 1048576"

text \<open>\<open>%6d\\t%s\<close>\<close>

definition numbered_line :: "int \<Rightarrow> string \<Rightarrow> string" where
  "numbered_line n t = (let d = format_int n in replicate (6 - length d) (CHR '' '') @ d @ [CHR 0x09] @ t)"

definition render_line :: "bool \<Rightarrow> int \<Rightarrow> string \<Rightarrow> string" where
  "render_line numbered n t = (if numbered then numbered_line n t else t)"

record read_state =
  rs_out :: string
  rs_bytes :: int
  rs_start :: int
  rs_end :: int
  rs_truncated :: bool
  rs_line :: int

text \<open>The scan: lines before the range are skipped, lines behind it only counted (the \<open>break\<close> and the loop
  that drains the rest), and lines over the limit counted as cut off.\<close>

fun read_loop :: "int \<Rightarrow> int \<Rightarrow> bool \<Rightarrow> string list \<Rightarrow> read_state \<Rightarrow> read_state" where
  "read_loop start en numbered [] a = a"
| "read_loop start en numbered (t # ts) a0 =
     (let a = a0\<lparr>rs_line := rs_line a0 + 1\<rparr>; n = rs_line a in
      if n < start then read_loop start en numbered ts a
      else if en \<noteq> 0 \<and> n > en then a\<lparr>rs_line := n + int (length ts)\<rparr>
      else if rs_bytes a \<ge> defaultReadMaxBytes then read_loop start en numbered ts (a\<lparr>rs_truncated := True\<rparr>)
      else read_loop start en numbered ts
        (a\<lparr>rs_start := (if rs_start a = 0 then n else rs_start a), rs_end := n,
           rs_out := rs_out a @ render_line numbered n t @ [newline],
           rs_bytes := rs_bytes a + int (length t) + 1\<rparr>))"

definition read_init :: read_state where
  "read_init = \<lparr>rs_out = [], rs_bytes = 0, rs_start = 0, rs_end = 0, rs_truncated = False, rs_line = 0\<rparr>"

definition FileReadHandler :: "os_env \<Rightarrow> file_read_request option \<Rightarrow> fsys \<Rightarrow> file_reply" where
  "FileReadHandler os body s =
     (case body of
        None \<Rightarrow> FileError StatusBadRequest InvalidRequestBody
      | Some req \<Rightarrow>
          if rq_File req = [] then FileError StatusBadRequest FileRequired
          else if isProtectedReadPath (rq_File req) then FileError StatusForbidden PathProtected
          else (case open_file os (rq_File req) s of
              Inl e \<Rightarrow> FileError StatusNotFound (CannotRead e)
            | Inr content \<Rightarrow>
                (let start = (case rq_StartLine req of Some n \<Rightarrow> if n > 1 then n else 1 | None \<Rightarrow> 1);
                     en = (case rq_EndLine req of Some n \<Rightarrow> if n > 0 then n else 0 | None \<Rightarrow> 0);
                     (ls, complete) = scan_lines content;
                     a = read_loop start en (rq_Format req = ''numbered'') ls read_init
                 in if \<not> complete \<or> os_fault os ReadCall \<noteq> None then FileError StatusInternalServerError ScanFailed
                    else FileRead \<lparr>rd_Content = trim_suffix (rs_out a) [newline], rd_TotalLines = rs_line a,
                      rd_StartLine = rs_start a, rd_EndLine = rs_end a, rd_Truncated = rs_truncated a\<rparr>)))"

text \<open>\<open>FileSearchHandler\<close>: the scanner's error is not looked at.\<close>

definition FileSearchHandler :: "os_env \<Rightarrow> (string \<Rightarrow> (string \<Rightarrow> bool) option) \<Rightarrow> (string \<times> string) option \<Rightarrow> fsys \<Rightarrow> file_reply" where
  "FileSearchHandler os compile body s =
     (case body of
        None \<Rightarrow> FileError StatusBadRequest InvalidRequestBody
      | Some (f, regex) \<Rightarrow>
          if f = [] \<or> regex = [] then FileError StatusBadRequest FileAndRegexRequired
          else if isProtectedReadPath f then FileError StatusForbidden PathProtected
          else (case compile regex of
              None \<Rightarrow> FileError StatusBadRequest InvalidRegex
            | Some matches \<Rightarrow>
                (case open_file os f s of
                   Inl e \<Rightarrow> FileError StatusNotFound (CannotOpen e)
                 | Inr content \<Rightarrow>
                     (let ls = (if os_fault os ReadCall = None then fst (scan_lines content) else []);
                          found = filter (\<lambda>(n, t). matches t) (zip (map int [1..<Suc (length ls)]) ls)
                      in Searched found (map fst found)))))"

section \<open>Writing\<close>

text \<open>\<open>atomicWriteFile\<close>: a temporary file in the same directory, renamed over the target. The result comes
  with the file systems after each call.\<close>

definition remove_temp :: "os_env \<Rightarrow> fsys \<Rightarrow> fsys" where
  "remove_temp os s = (if os_fault os RemoveCall = None then del_file (os_temp os) s else s)"

definition atomicWriteFile :: "os_env \<Rightarrow> string \<Rightarrow> bytes \<Rightarrow> nat \<Rightarrow> fsys \<Rightarrow> (string + int) \<times> fsys list" where
  "atomicWriteFile os path data perm s =
     (case os_fault os TempCall of
        Some e \<Rightarrow> (Inl e, [s])
      | None \<Rightarrow>
          (let s1 = put_file (os_temp os) ([], 384) s in
           case os_fault os WriteCall of
             Some e \<Rightarrow> (let s2 = put_file (os_temp os) (take (os_partial os) data, 384) s1
                        in (Inl e, [s, s1, s2, remove_temp os s2]))
           | None \<Rightarrow>
               (let s2 = put_file (os_temp os) (data, 384) s1 in
                case os_fault os ChmodCall of
                  Some e \<Rightarrow> (Inl e, [s, s1, s2, remove_temp os s2])
                | None \<Rightarrow>
                    (let s3 = put_file (os_temp os) (data, perm) s2 in
                     case os_fault os CloseCall of
                       Some e \<Rightarrow> (Inl e, [s, s1, s2, s3, remove_temp os s3])
                     | None \<Rightarrow>
                         (case os_fault os RenameCall of
                            Some e \<Rightarrow> (Inl e, [s, s1, s2, s3, remove_temp os s3])
                          | None \<Rightarrow> (Inr (int (length data)),
                              [s, s1, s2, s3, put_file (resolve s path) (data, perm) (del_file (os_temp os) s3)]))))))"

text \<open>\<open>0o644\<close>\<close>

abbreviation "mode_rw \<equiv> (420 :: nat)"

text \<open>Appending in place: a refused write may have written a part.\<close>

definition append_file :: "os_env \<Rightarrow> string \<Rightarrow> bytes \<Rightarrow> fsys \<Rightarrow> (file_reply \<times> fsys list)" where
  "append_file os path data s =
     (case os_fault os OpenCall of
        Some e \<Rightarrow> (FileError StatusInternalServerError (CannotOpen e), [s])
      | None \<Rightarrow>
          (let f = resolve s path;
               (old, mode) = (case fs_files s f of None \<Rightarrow> ([], mode_rw) | Some c \<Rightarrow> c);
               s1 = put_file f (old, mode) s
           in case os_fault os WriteCall of
                Some e \<Rightarrow> (FileError StatusInternalServerError (WriteFailed e),
                  [s, s1, put_file f (old @ take (os_partial os) data, mode) s1])
              | None \<Rightarrow> (FileWritten (int (length data)), [s, s1, put_file f (old @ data, mode) s1])))"

definition FileWriteHandler :: "os_env \<Rightarrow> file_write_request option \<Rightarrow> fsys \<Rightarrow> file_reply \<times> fsys list" where
  "FileWriteHandler os body s =
     (case body of
        None \<Rightarrow> (FileError StatusBadRequest InvalidRequestBody, [s])
      | Some req \<Rightarrow>
          if wq_File req = [] then (FileError StatusBadRequest FileRequired, [s])
          else (case os_fault os MkdirCall of
              Some e \<Rightarrow> (FileError StatusInternalServerError (CannotMkdir e), [s])
            | None \<Rightarrow>
                (let content = wq_Content req;
                     content = (if flag (wq_LeadingNewline req) then newline # content else content);
                     content = (if flag (wq_TrailingNewline req) then content @ [newline] else content)
                 in if flag (wq_Append req) then append_file os (wq_File req) content s
                    else (case atomicWriteFile os (wq_File req) content mode_rw s of
                        (Inl e, tr) \<Rightarrow> (FileError StatusInternalServerError (WriteFailed e), tr)
                      | (Inr n, tr) \<Rightarrow> (FileWritten n, tr)))))"

section \<open>Replacing\<close>

definition FileReplaceHandler :: "os_env \<Rightarrow> (string \<times> file_edit) option \<Rightarrow> fsys \<Rightarrow> file_reply \<times> fsys list" where
  "FileReplaceHandler os body s =
     (case body of
        None \<Rightarrow> (FileError StatusBadRequest InvalidRequestBody, [s])
      | Some (f, ed) \<Rightarrow>
          if f = [] \<or> ed_OldStr ed = [] then (FileError StatusBadRequest FileAndOldRequired, [s])
          else if isProtectedReadPath f then (FileError StatusForbidden PathProtected, [s])
          else (case read_file os f s of
              Inl e \<Rightarrow> (FileError StatusNotFound (CannotRead e), [s])
            | Inr content \<Rightarrow>
                (let n = str_count content (ed_OldStr ed) in
                 if n = 0 then (FileError StatusNotFound OldNotFound, [s])
                 else if ed_ExpectedMatches ed \<noteq> None \<and> ed_ExpectedMatches ed \<noteq> Some n then
                   (FileError StatusUnprocessableEntity (ExpectedMatchesDiffer (the (ed_ExpectedMatches ed)) n), [s])
                 else if ed_ExpectedMatches ed = None \<and> \<not> flag (ed_ReplaceAll ed) \<and> n > 1 then
                   (FileError StatusUnprocessableEntity (MatchesManyPlaces n), [s])
                 else (case atomicWriteFile os f (replace_all content (ed_OldStr ed) (ed_NewStr ed)) mode_rw s of
                     (Inl e, tr) \<Rightarrow> (FileError StatusInternalServerError (WriteFailed e), tr)
                   | (Inr _, tr) \<Rightarrow> (Replaced n, tr)))))"

text \<open>The loop over the edits: the first that cannot be made ends the request.\<close>

fun edit_loop :: "nat \<Rightarrow> file_edit list \<Rightarrow> string \<Rightarrow> (nat \<times> file_refusal) + (string \<times> (string \<times> int) list)" where
  "edit_loop i [] content = Inr (content, [])"
| "edit_loop i (ed # eds) content =
     (if ed_OldStr ed = [] then Inl (StatusBadRequest, EditOldRequired i)
      else (let n = str_count content (ed_OldStr ed) in
        if n = 0 then Inl (StatusUnprocessableEntity, EditNotFound i)
        else if ed_ExpectedMatches ed \<noteq> None \<and> ed_ExpectedMatches ed \<noteq> Some n then
          Inl (StatusUnprocessableEntity, EditMatchesDiffer i (the (ed_ExpectedMatches ed)) n)
        else if ed_ExpectedMatches ed = None \<and> \<not> flag (ed_ReplaceAll ed) \<and> n > 1 then
          Inl (StatusUnprocessableEntity, EditMatchesMany i n)
        else (case edit_loop (Suc i) eds (replace_all content (ed_OldStr ed) (ed_NewStr ed)) of
            Inl e \<Rightarrow> Inl e
          | Inr (content', rs) \<Rightarrow> Inr (content', (ed_OldStr ed, n) # rs))))"

definition FileMultiEditHandler :: "os_env \<Rightarrow> (string \<times> file_edit list) option \<Rightarrow> fsys \<Rightarrow> file_reply \<times> fsys list" where
  "FileMultiEditHandler os body s =
     (case body of
        None \<Rightarrow> (FileError StatusBadRequest InvalidRequestBody, [s])
      | Some (f, eds) \<Rightarrow>
          if f = [] then (FileError StatusBadRequest FileRequired, [s])
          else if eds = [] then (FileError StatusBadRequest EditsRequired, [s])
          else if length eds > 100 then (FileError StatusBadRequest TooManyEdits, [s])
          else if isProtectedReadPath f then (FileError StatusForbidden PathProtected, [s])
          else (case read_file os f s of
              Inl e \<Rightarrow> (FileError StatusNotFound (CannotRead e), [s])
            | Inr content \<Rightarrow>
                (case edit_loop 0 eds content of
                   Inl (status, e) \<Rightarrow> (FileError status e, [s])
                 | Inr (content', rs) \<Rightarrow>
                     (case atomicWriteFile os f content' mode_rw s of
                        (Inl e, tr) \<Rightarrow> (FileError StatusInternalServerError (WriteFailed e), tr)
                      | (Inr _, tr) \<Rightarrow> (Edited rs, tr)))))"

end
