(* ===== verification/Rt_Walk.thy ===== *)
theory Rt_Walk
  imports Rt_Files
begin

text \<open>
  Listing, finding and searching under a directory (\<open>pkg/handlers/file.go\<close>). The directory is a tree in the
  lexical order of \<open>filepath.WalkDir\<close>; what cannot be read is not in it. The walk hands its callback an entry
  with its path relative to the root and follows what the callback says.
\<close>

section \<open>Walking\<close>

record stat =
  st_size :: int
  st_mode :: string
  st_mtime :: string

datatype entry = FileE string stat bytes | DirE string stat "entry list"

datatype 'a walk_action = Continue 'a | SkipDir 'a | SkipAll 'a

fun entry_name :: "entry \<Rightarrow> string" where
  "entry_name (FileE n st c) = n"
| "entry_name (DirE n st es) = n"

fun is_dir :: "entry \<Rightarrow> bool" where
  "is_dir (FileE n st c) = False"
| "is_dir (DirE n st es) = True"

fun entry_stat :: "entry \<Rightarrow> stat" where
  "entry_stat (FileE n st c) = st"
| "entry_stat (DirE n st es) = st"

text \<open>The result says whether the walk was stopped.\<close>

fun walk :: "(string list \<Rightarrow> entry \<Rightarrow> 'a \<Rightarrow> 'a walk_action) \<Rightarrow> string list \<Rightarrow> entry list \<Rightarrow> 'a \<Rightarrow> 'a \<times> bool" where
  "walk cb rel [] a = (a, False)"
| "walk cb rel (FileE n st c # es) a =
     (case cb (rel @ [n]) (FileE n st c) a of
        Continue a' \<Rightarrow> walk cb rel es a'
      | SkipDir a' \<Rightarrow> (a', False)
      | SkipAll a' \<Rightarrow> (a', True))"
| "walk cb rel (DirE n st ds # es) a =
     (case cb (rel @ [n]) (DirE n st ds) a of
        Continue a' \<Rightarrow> (case walk cb (rel @ [n]) ds a' of
            (a'', True) \<Rightarrow> (a'', True)
          | (a'', False) \<Rightarrow> walk cb rel es a'')
      | SkipDir a' \<Rightarrow> walk cb rel es a'
      | SkipAll a' \<Rightarrow> (a', True))"

text \<open>The walk starts with the root itself, whose relative path is empty; a root that is missing is passed over.\<close>

definition walk_root :: "(string list \<Rightarrow> entry \<Rightarrow> 'a \<Rightarrow> 'a walk_action) \<Rightarrow> entry option \<Rightarrow> 'a \<Rightarrow> 'a" where
  "walk_root cb root a =
     (case root of
        None \<Rightarrow> a
      | Some (FileE n st c) \<Rightarrow>
          (case cb [] (FileE n st c) a of Continue a' \<Rightarrow> a' | SkipDir a' \<Rightarrow> a' | SkipAll a' \<Rightarrow> a')
      | Some (DirE n st es) \<Rightarrow>
          (case cb [] (DirE n st es) a of Continue a' \<Rightarrow> fst (walk cb [] es a') | SkipDir a' \<Rightarrow> a' | SkipAll a' \<Rightarrow> a'))"

definition rel_path :: "string list \<Rightarrow> string" where
  "rel_path rel = (if rel = [] then ''.'' else join_str ''/'' rel)"

definition full_path :: "string \<Rightarrow> string list \<Rightarrow> string" where
  "full_path root rel = (if rel = [] then root else path_join (root # rel))"

section \<open>Listing\<close>

record file_info =
  fi_Name :: string
  fi_Path :: string
  fi_IsDirectory :: bool
  fi_Size :: "int option"
  fi_ModifiedTime :: string
  fi_Permissions :: "string option"
  fi_Extension :: "string option"

record file_list_request =
  lq_Path :: string
  lq_ShowHidden :: "bool option"
  lq_MaxDepth :: "int option"
  lq_IncludeSize :: "bool option"
  lq_IncludePermissions :: "bool option"
  lq_SortBy :: "string option"
  lq_SortDesc :: "bool option"

record file_list_data =
  ld_Path :: string
  ld_Files :: "file_info list"
  ld_TotalCount :: int
  ld_DirectoryCount :: int
  ld_FileCount :: int
  ld_Truncated :: bool

definition defaultListMaxResults :: nat where
  "defaultListMaxResults = 500"

text \<open>\<open>filepath.Ext\<close> of a name without slashes.\<close>

definition name_ext :: "string \<Rightarrow> string" where
  "name_ext n = (case last_index n ''.'' of None \<Rightarrow> [] | Some i \<Rightarrow> drop i n)"

definition file_info_of :: "file_list_request \<Rightarrow> string \<Rightarrow> string list \<Rightarrow> entry \<Rightarrow> file_info" where
  "file_info_of req root rel e =
     \<lparr>fi_Name = entry_name e, fi_Path = full_path root rel, fi_IsDirectory = is_dir e,
      fi_Size = (if flag (lq_IncludeSize req) then Some (st_size (entry_stat e)) else None),
      fi_ModifiedTime = st_mtime (entry_stat e),
      fi_Permissions = (if flag (lq_IncludePermissions req) then Some (st_mode (entry_stat e)) else None),
      fi_Extension = (if is_dir e \<or> name_ext (entry_name e) = [] then None else Some (name_ext (entry_name e)))\<rparr>"

definition slashes :: "string \<Rightarrow> int" where
  "slashes p = int (length (filter (\<lambda>c. c = CHR ''/'') p))"

record list_state =
  ls_files :: "file_info list"
  ls_dirs :: int
  ls_count :: int
  ls_truncated :: bool

definition list_visit :: "file_list_request \<Rightarrow> string \<Rightarrow> string list \<Rightarrow> entry \<Rightarrow> list_state \<Rightarrow> list_state walk_action" where
  "list_visit req root rel e a =
     (let maxDepth = (case lq_MaxDepth req of Some n \<Rightarrow> n | None \<Rightarrow> 2);
          skip = (if is_dir e then SkipDir a else Continue a)
      in if rel = [] then Continue a
         else if slashes (rel_path rel) \<ge> maxDepth then skip
         else if \<not> flag (lq_ShowHidden req) \<and> has_prefix (entry_name e) ''.'' then skip
         else if length (ls_files a) \<ge> defaultListMaxResults then SkipAll (a\<lparr>ls_truncated := True\<rparr>)
         else Continue (a\<lparr>ls_files := ls_files a @ [file_info_of req root rel e],
                ls_dirs := (if is_dir e then ls_dirs a + 1 else ls_dirs a),
                ls_count := (if is_dir e then ls_count a else ls_count a + 1)\<rparr>))"

text \<open>The order of the sort; \<open>sort.Slice\<close> itself is the parameter \<open>slice_sort\<close>.\<close>

definition string_less :: "string \<Rightarrow> string \<Rightarrow> bool" where
  "string_less s t \<longleftrightarrow> (s, t) \<in> lexord {(a, b). a < b}"

definition list_less :: "string \<Rightarrow> bool \<Rightarrow> file_info \<Rightarrow> file_info \<Rightarrow> bool" where
  "list_less key desc x y =
     (let size = (\<lambda>i. case fi_Size i of Some n \<Rightarrow> n | None \<Rightarrow> 0) in
      if key = ''name'' then (if desc then string_less (fi_Name y) (fi_Name x) else string_less (fi_Name x) (fi_Name y))
      else if key = ''size'' then (if desc then size x > size y else size x < size y)
      else string_less (fi_Name x) (fi_Name y))"

definition FileListHandler :: "((file_info \<Rightarrow> file_info \<Rightarrow> bool) \<Rightarrow> file_info list \<Rightarrow> file_info list) \<Rightarrow>
    (string \<Rightarrow> entry option) \<Rightarrow> file_list_request option \<Rightarrow> file_refusal + file_list_data" where
  "FileListHandler slice_sort dir body =
     (case body of
        None \<Rightarrow> Inl InvalidRequestBody
      | Some req \<Rightarrow>
          (let root = (if lq_Path req = [] then ''.'' else lq_Path req);
               a = walk_root (list_visit req root) (dir root) \<lparr>ls_files = [], ls_dirs = 0, ls_count = 0, ls_truncated = False\<rparr>;
               files = (case lq_SortBy req of
                   None \<Rightarrow> ls_files a
                 | Some key \<Rightarrow> slice_sort (list_less key (flag (lq_SortDesc req))) (ls_files a))
           in Inr \<lparr>ld_Path = root, ld_Files = files, ld_TotalCount = int (length files), ld_DirectoryCount = ls_dirs a,
                ld_FileCount = ls_count a, ld_Truncated = ls_truncated a\<rparr>))"

section \<open>Finding\<close>

definition find_visit :: "(string \<Rightarrow> bool) \<Rightarrow> string \<Rightarrow> string list \<Rightarrow> entry \<Rightarrow> string list \<times> bool \<Rightarrow> (string list \<times> bool) walk_action" where
  "find_visit glob root rel e a =
     (if length (fst a) \<ge> defaultListMaxResults then SkipAll (fst a, True)
      else if rel \<noteq> [] \<and> glob (rel_path rel) then Continue (fst a @ [full_path root rel], snd a)
      else Continue a)"

text \<open>\<open>doublestar\<close> is a parameter: the matcher of a pattern, when it is valid.\<close>

definition FileFindHandler :: "(string \<Rightarrow> (string \<Rightarrow> bool) option) \<Rightarrow> (string \<Rightarrow> entry option) \<Rightarrow> (string \<times> string) option
    \<Rightarrow> string + (string list \<times> bool)" where
  "FileFindHandler doublestar dir body =
     (case body of
        None \<Rightarrow> Inl ''invalid request body''
      | Some (root, glob) \<Rightarrow>
          if root = [] \<or> glob = [] then Inl ''path and glob are required''
          else (case doublestar glob of
              None \<Rightarrow> Inl ''invalid glob pattern''
            | Some m \<Rightarrow> Inr (walk_root (find_visit m root) (dir root) ([], False))))"

section \<open>Searching\<close>

record grep_match =
  gm_File :: string
  gm_Line :: int
  gm_Text :: string
  gm_Before :: "string list"
  gm_After :: "string list"

record file_grep_request =
  gq_Path :: string
  gq_Regex :: string
  gq_Glob :: string
  gq_MaxResults :: "int option"
  gq_ContextBefore :: "int option"
  gq_ContextAfter :: "int option"

definition isBinary :: "bytes \<Rightarrow> bool" where
  "isBinary buf \<longleftrightarrow> CHR 0x00 \<in> set buf"

definition binaryDetectBytes :: nat where
  "binaryDetectBytes = 8192"

text \<open>The lines held in memory for the context: the first line that takes the sum over a mebibyte ends them.\<close>

fun capped_lines :: "int \<Rightarrow> string list \<Rightarrow> string list" where
  "capped_lines used [] = []"
| "capped_lines used (t # ts) =
     (let n = used + int (length t) + 1 in if n > defaultReadMaxBytes then [] else t # capped_lines n ts)"

text \<open>The matching lines in order, each with its lines before and behind.\<close>

definition line_matches :: "string \<Rightarrow> (string \<Rightarrow> bool) \<Rightarrow> nat \<Rightarrow> nat \<Rightarrow> string list \<Rightarrow> grep_match list" where
  "line_matches path re before after ls =
     map (\<lambda>i. \<lparr>gm_File = path, gm_Line = int i + 1, gm_Text = ls ! i,
          gm_Before = drop (i - before) (take i ls), gm_After = take after (drop (Suc i) ls)\<rparr>)
       (filter (\<lambda>i. re (ls ! i)) [0..<length ls])"

definition grepFile :: "string \<Rightarrow> bytes \<Rightarrow> (string \<Rightarrow> bool) \<Rightarrow> int \<Rightarrow> int \<Rightarrow> int \<Rightarrow> grep_match list \<times> int" where
  "grepFile path content re ctxBefore ctxAfter capRemaining =
     (if isBinary (take binaryDetectBytes content) then ([], 0)
      else (let scanned = fst (scan_lines content);
                ls = (if ctxBefore > 0 \<or> ctxAfter > 0 then capped_lines 0 scanned else scanned);
                found = line_matches path re (nat ctxBefore) (nat ctxAfter) ls
            in (take (nat capRemaining) found, int (length found))))"

record grep_state =
  gs_matches :: "grep_match list"
  gs_total :: int
  gs_truncated :: bool

definition defaultGrepMaxResults :: int where
  "defaultGrepMaxResults = 200"

definition positive_or :: "int option \<Rightarrow> int \<Rightarrow> int" where
  "positive_or x d = (case x of Some n \<Rightarrow> if n > 0 then n else d | None \<Rightarrow> d)"

definition grep_visit :: "(string \<Rightarrow> bool) \<Rightarrow> (string \<Rightarrow> bool) option \<Rightarrow> int \<Rightarrow> int \<Rightarrow> int \<Rightarrow> string \<Rightarrow> string list \<Rightarrow> entry \<Rightarrow> grep_state
    \<Rightarrow> grep_state walk_action" where
  "grep_visit re glob mx before after root rel e a =
     (case e of
        DirE n st es \<Rightarrow> Continue a
      | FileE n st content \<Rightarrow>
          if isProtectedReadPath (full_path root rel) then Continue a
          else if (case glob of None \<Rightarrow> False | Some m \<Rightarrow> \<not> m (rel_path rel)) then Continue a
          else (let (got, total) = grepFile (full_path root rel) content re before after (mx - int (length (gs_matches a)));
                    a' = a\<lparr>gs_total := gs_total a + total, gs_matches := gs_matches a @ got\<rparr>
                in if int (length (gs_matches a')) \<ge> mx then SkipAll (a'\<lparr>gs_truncated := True\<rparr>) else Continue a'))"

definition FileGrepHandler :: "(string \<Rightarrow> (string \<Rightarrow> bool) option) \<Rightarrow> (string \<Rightarrow> (string \<Rightarrow> bool) option) \<Rightarrow> (string \<Rightarrow> entry option)
    \<Rightarrow> file_grep_request option \<Rightarrow> string + grep_state" where
  "FileGrepHandler compile doublestar dir body =
     (case body of
        None \<Rightarrow> Inl ''invalid request body''
      | Some req \<Rightarrow>
          if gq_Path req = [] \<or> gq_Regex req = [] then Inl ''path and regex are required''
          else (case compile (gq_Regex req) of
              None \<Rightarrow> Inl ''invalid regex''
            | Some re \<Rightarrow>
                if gq_Glob req \<noteq> [] \<and> doublestar (gq_Glob req) = None then Inl ''invalid glob pattern''
                else Inr (walk_root (grep_visit re (if gq_Glob req = [] then None else doublestar (gq_Glob req))
                    (positive_or (gq_MaxResults req) defaultGrepMaxResults) (positive_or (gq_ContextBefore req) 0)
                    (positive_or (gq_ContextAfter req) 0) (gq_Path req)) (dir (gq_Path req))
                  \<lparr>gs_matches = [], gs_total = 0, gs_truncated = False\<rparr>)))"

end
