(* ===== verification/Rt_Listing.thy ===== *)
theory Rt_Listing
  imports Rt_Walk
begin

text \<open>
  What the walks return, over the plain preorder of the tree: pruning and stopping early do not lose an entry
  that belongs to the answer.
\<close>

section \<open>Walks and preorders\<close>

fun preorder :: "string list \<Rightarrow> entry list \<Rightarrow> (string list \<times> entry) list" where
  "preorder rel [] = []"
| "preorder rel (FileE n st c # es) = (rel @ [n], FileE n st c) # preorder rel es"
| "preorder rel (DirE n st ds # es) = (rel @ [n], DirE n st ds) # preorder (rel @ [n]) ds @ preorder rel es"

text \<open>Going through a list until told to stop.\<close>

fun run :: "('x \<Rightarrow> 'a \<Rightarrow> 'a walk_action) \<Rightarrow> 'x list \<Rightarrow> 'a \<Rightarrow> 'a \<times> bool" where
  "run f [] a = (a, False)"
| "run f (x # xs) a = (case f x a of Continue a' \<Rightarrow> run f xs a' | SkipDir a' \<Rightarrow> run f xs a' | SkipAll a' \<Rightarrow> (a', True))"

lemma run_through_append: "run f (xs @ ys) a = (case run f xs a of (a', True) \<Rightarrow> (a', True) | (a', False) \<Rightarrow> run f ys a')"
  by (induction xs arbitrary: a) (simp_all split: walk_action.split)

lemma preorder_prefix: "(r, e) \<in> set (preorder rel es) \<Longrightarrow> \<exists>n ns. r = rel @ n # ns"
  by (induction rel es rule: preorder.induct) fastforce+

text \<open>The preorder in which a directory that is not kept is left out with all below it.\<close>

fun pruned :: "(string list \<Rightarrow> bool) \<Rightarrow> string list \<Rightarrow> entry list \<Rightarrow> (string list \<times> entry) list" where
  "pruned keep rel [] = []"
| "pruned keep rel (FileE n st c # es) = (if keep (rel @ [n]) then [(rel @ [n], FileE n st c)] else []) @ pruned keep rel es"
| "pruned keep rel (DirE n st ds # es) =
     (if keep (rel @ [n]) then (rel @ [n], DirE n st ds) # pruned keep (rel @ [n]) ds else []) @ pruned keep rel es"

definition prunes :: "(string list \<Rightarrow> bool) \<Rightarrow> (string list \<Rightarrow> entry \<Rightarrow> 'a \<Rightarrow> 'a walk_action) \<Rightarrow> bool" where
  "prunes keep cb \<longleftrightarrow> (\<forall>rel e a. rel \<noteq> [] \<and> entry_name e = last rel \<longrightarrow>
     (if keep rel then (\<forall>a'. cb rel e a \<noteq> SkipDir a')
      else cb rel e a = (if is_dir e then SkipDir a else Continue a)))"

lemma prunesD:
  assumes "prunes keep cb" "rel \<noteq> []" "entry_name e = last rel"
  shows "keep rel \<Longrightarrow> cb rel e a \<noteq> SkipDir a'" "\<not> keep rel \<Longrightarrow> cb rel e a = (if is_dir e then SkipDir a else Continue a)"
  using assms unfolding prunes_def by metis+

lemma walk_run:
  assumes prunes: "prunes keep cb"
  shows "walk cb rel es a = run (\<lambda>(r, e). cb r e) (pruned keep rel es) a"
proof (induction rel es arbitrary: a rule: preorder.induct [case_names Nil File Dir])
  case (File rel n st c es)
  show ?case
    using File.IH prunesD [OF prunes, of "rel @ [n]" "FileE n st c" a]
    by (auto split: walk_action.split)
next
  case (Dir rel n st ds es)
  show ?case
    using Dir.IH prunesD [OF prunes, of "rel @ [n]" "DirE n st ds" a]
    by (auto simp: run_through_append split: walk_action.split prod.split)
qed simp

definition kept_from :: "(string list \<Rightarrow> bool) \<Rightarrow> nat \<Rightarrow> string list \<Rightarrow> bool" where
  "kept_from keep k r \<longleftrightarrow> (\<forall>j. k < j \<and> j \<le> length r \<longrightarrow> keep (take j r))"

lemma from_Suc: "Suc k \<le> m \<Longrightarrow> (\<forall>j. k < j \<and> j \<le> m \<longrightarrow> P j) \<longleftrightarrow> P (Suc k) \<and> (\<forall>j. Suc k < j \<and> j \<le> m \<longrightarrow> P j)"
  by (metis Suc_le_lessD Suc_lessI lessI less_trans)

lemma kept_from_Suc: "kept_from keep (length rel) (rel @ n # ns) \<longleftrightarrow> keep (rel @ [n]) \<and> kept_from keep (Suc (length rel)) (rel @ n # ns)"
proof -
  have "Suc (length rel) \<le> length (rel @ n # ns)" by simp
  from from_Suc [OF this] show ?thesis unfolding kept_from_def by simp
qed

lemma kept_from_end [simp]: "length r \<le> k \<Longrightarrow> kept_from keep k r"
  by (auto simp: kept_from_def)

lemma pruned_filter: "pruned keep rel es = filter (\<lambda>(r, e). kept_from keep (length rel) r) (preorder rel es)"
proof (induction rel es rule: preorder.induct [case_names Nil File Dir])
  case (File rel n st c es)
  then show ?case by (simp add: kept_from_Suc)
next
  case (Dir rel n st ds es)
  have "(r, e) \<in> set (preorder (rel @ [n]) ds) \<Longrightarrow>
      kept_from keep (length rel) r \<longleftrightarrow> keep (rel @ [n]) \<and> kept_from keep (Suc (length rel)) r" for r e
    using preorder_prefix [of r e "rel @ [n]" ds] by (auto simp: kept_from_Suc)
  then have "filter (\<lambda>(r, e). kept_from keep (length rel) r) (preorder (rel @ [n]) ds) =
      filter (\<lambda>(r, e). keep (rel @ [n]) \<and> kept_from keep (Suc (length rel)) r) (preorder (rel @ [n]) ds)"
    by (intro filter_cong) auto
  then show ?case using Dir by (cases "keep (rel @ [n])") (simp_all add: kept_from_Suc)
qed simp

section \<open>Listing\<close>

definition hidden :: "string \<Rightarrow> bool" where
  "hidden n \<longleftrightarrow> has_prefix n ''.''"

definition max_depth :: "file_list_request \<Rightarrow> int" where
  "max_depth req = (case lq_MaxDepth req of Some n \<Rightarrow> n | None \<Rightarrow> 2)"

definition listed :: "file_list_request \<Rightarrow> string list \<Rightarrow> bool" where
  "listed req rel \<longleftrightarrow> int (length rel) \<le> max_depth req \<and> (flag (lq_ShowHidden req) \<or> list_all (\<lambda>n. \<not> hidden n) rel)"

text \<open>Names of directory entries have no slash.\<close>

fun names_ok :: "entry \<Rightarrow> bool" where
  "names_ok (FileE n st c) \<longleftrightarrow> CHR ''/'' \<notin> set n"
| "names_ok (DirE n st es) \<longleftrightarrow> CHR ''/'' \<notin> set n \<and> list_all names_ok es"

lemma slashes_join: "list_all (\<lambda>n. CHR ''/'' \<notin> set n) rel \<Longrightarrow> rel \<noteq> [] \<Longrightarrow> slashes (join_str ''/'' rel) = int (length rel) - 1"
proof (induction rel rule: induct_list012)
  case (2 x)
  then show ?case by (auto simp: slashes_def filter_empty_conv)
next
  case (3 x y rel)
  have "filter (\<lambda>c. c = CHR ''/'') x = []" using "3.prems" by (auto simp: filter_empty_conv)
  then show ?case using "3.IH"(2) "3.prems" by (simp add: slashes_def)
qed simp

lemma preorder_names:
  assumes "list_all names_ok es" "list_all (\<lambda>n. CHR ''/'' \<notin> set n) rel" "(r, e) \<in> set (preorder rel es)"
  shows "list_all (\<lambda>n. CHR ''/'' \<notin> set n) r"
  using assms
proof (induction rel es rule: preorder.induct [case_names Nil File Dir])
  case (Dir rel n st ds es)
  from Dir.prems(3) consider "(r, e) = (rel @ [n], DirE n st ds)" | "(r, e) \<in> set (preorder (rel @ [n]) ds)" | "(r, e) \<in> set (preorder rel es)"
    by auto
  then show ?case using Dir.IH Dir.prems(1,2) by cases simp_all
next
  case (File rel n st c es)
  from File.prems(3) consider "(r, e) = (rel @ [n], FileE n st c)" | "(r, e) \<in> set (preorder rel es)" by auto
  then show ?case using File.IH File.prems(1,2) by cases simp_all
qed simp

definition list_keep :: "file_list_request \<Rightarrow> string list \<Rightarrow> bool" where
  "list_keep req rel \<longleftrightarrow> slashes (rel_path rel) < max_depth req \<and> (flag (lq_ShowHidden req) \<or> \<not> hidden (last rel))"

lemma list_prunes: "prunes (list_keep req) (list_visit req root)"
  by (auto simp: prunes_def list_visit_def list_keep_def max_depth_def hidden_def Let_def)

lemma list_kept:
  assumes "list_all (\<lambda>n. CHR ''/'' \<notin> set n) r" "r \<noteq> []"
  shows "kept_from (list_keep req) 0 r \<longleftrightarrow> listed req r"
proof -
  have depth: "slashes (rel_path (take j r)) = int j - 1" if "0 < j" "j \<le> length r" for j
    using that assms slashes_join [of "take j r"] by (auto simp: rel_path_def list_all_iff dest: in_set_takeD)
  have last: "last (take j r) = r ! (j - 1)" if "0 < j" "j \<le> length r" for j
    using that by (subst last_conv_nth) auto
  have "list_all (\<lambda>n. \<not> hidden n) r \<longleftrightarrow> (\<forall>j. 0 < j \<and> j \<le> length r \<longrightarrow> \<not> hidden (r ! (j - 1)))"
  proof
    assume "\<forall>j. 0 < j \<and> j \<le> length r \<longrightarrow> \<not> hidden (r ! (j - 1))"
    then show "list_all (\<lambda>n. \<not> hidden n) r" unfolding list_all_length by (metis Suc_leI diff_Suc_1 zero_less_Suc)
  qed (auto simp: list_all_length)
  moreover have "(\<forall>j. 0 < j \<and> j \<le> length r \<longrightarrow> int j - 1 < max_depth req) \<longleftrightarrow> int (length r) \<le> max_depth req"
  proof
    assume "\<forall>j. 0 < j \<and> j \<le> length r \<longrightarrow> int j - 1 < max_depth req"
    then show "int (length r) \<le> max_depth req" using assms(2) by (metis length_greater_0_conv order_refl zle_diff1_eq zless_imp_add1_zle diff_add_cancel)
  qed auto
  ultimately show ?thesis
    unfolding kept_from_def list_keep_def listed_def using depth last by (metis (no_types, lifting))
qed

definition infos :: "file_list_request \<Rightarrow> string \<Rightarrow> (string list \<times> entry) list \<Rightarrow> file_info list" where
  "infos req root xs = map (\<lambda>(r, e). file_info_of req root r e) xs"

definition dir_count :: "(string list \<times> entry) list \<Rightarrow> int" where
  "dir_count xs = int (length (filter (\<lambda>(r, e). is_dir e) xs))"

lemma list_visit_kept:
  "r \<noteq> [] \<Longrightarrow> entry_name e = last r \<Longrightarrow> list_keep req r \<Longrightarrow> list_visit req root r e a =
    (if length (ls_files a) \<ge> defaultListMaxResults then SkipAll (a\<lparr>ls_truncated := True\<rparr>)
     else Continue (a\<lparr>ls_files := ls_files a @ [file_info_of req root r e],
            ls_dirs := (if is_dir e then ls_dirs a + 1 else ls_dirs a), ls_count := (if is_dir e then ls_count a else ls_count a + 1)\<rparr>))"
  by (auto simp: list_visit_def list_keep_def max_depth_def hidden_def Let_def)

lemma run_list:
  assumes "\<forall>(r, e) \<in> set xs. r \<noteq> [] \<and> entry_name e = last r \<and> list_keep req r" "length (ls_files a) \<le> defaultListMaxResults"
  shows "fst (run (\<lambda>(r, e). list_visit req root r e) xs a) =
    (let shown = take (defaultListMaxResults - length (ls_files a)) xs in
     a\<lparr>ls_files := ls_files a @ infos req root shown, ls_dirs := ls_dirs a + dir_count shown,
       ls_count := ls_count a + (int (length shown) - dir_count shown), ls_truncated := (ls_truncated a \<or> shown \<noteq> xs)\<rparr>)"
  using assms
proof (induction xs arbitrary: a)
  case Nil
  then show ?case by (simp add: infos_def dir_count_def)
next
  case (Cons x xs)
  obtain r e where x: "x = (r, e)" by (cases x)
  have here: "r \<noteq> []" "entry_name e = last r" "list_keep req r" using Cons.prems(1) x by auto
  show ?case
  proof (cases "length (ls_files a) < defaultListMaxResults")
    case True
    then obtain k where k: "defaultListMaxResults - length (ls_files a) = Suc k" "k = defaultListMaxResults - Suc (length (ls_files a))"
      by (cases "defaultListMaxResults - length (ls_files a)") auto
    let ?a = "a\<lparr>ls_files := ls_files a @ [file_info_of req root r e],
            ls_dirs := (if is_dir e then ls_dirs a + 1 else ls_dirs a), ls_count := (if is_dir e then ls_count a else ls_count a + 1)\<rparr>"
    have "fst (run (\<lambda>(r, e). list_visit req root r e) (x # xs) a) = fst (run (\<lambda>(r, e). list_visit req root r e) xs ?a)"
      using True x list_visit_kept [OF here, of root a] by simp
    also have "\<dots> = (let shown = take k xs in
       a\<lparr>ls_files := ls_files ?a @ infos req root shown, ls_dirs := ls_dirs ?a + dir_count shown,
         ls_count := ls_count ?a + (int (length shown) - dir_count shown), ls_truncated := (ls_truncated a \<or> shown \<noteq> xs)\<rparr>)"
      using Cons.IH [of ?a] Cons.prems True k by simp
    finally show ?thesis using k(1) x by (simp add: infos_def dir_count_def Let_def)
  next
    case False
    then have full: "length (ls_files a) = defaultListMaxResults" using Cons.prems(2) by simp
    then show ?thesis using x list_visit_kept [OF here, of root a] by (simp add: infos_def dir_count_def)
  qed
qed

lemma preorder_last: "(r, e) \<in> set (preorder rel es) \<Longrightarrow> r \<noteq> [] \<and> last r = entry_name e"
  by (induction rel es rule: preorder.induct) auto

text \<open>A listing shows exactly the entries that lie within the depth asked for and, unless hidden ones are asked
  for, have no hidden component on their path: the first five hundred of them in the order of the tree, sorted when
  that is asked for, with their numbers; it is marked as truncated exactly when there are more.\<close>

theorem list_exact:
  assumes "list_all names_ok es"
    and "dir (if lq_Path req = [] then ''.'' else lq_Path req) = Some (DirE n st es)"
  shows "FileListHandler slice_sort dir (Some req) =
    (let root = (if lq_Path req = [] then ''.'' else lq_Path req);
         matching = filter (\<lambda>(r, e). listed req r) (preorder [] es);
         shown = take 500 matching;
         files = (case lq_SortBy req of
             None \<Rightarrow> infos req root shown
           | Some key \<Rightarrow> slice_sort (list_less key (flag (lq_SortDesc req))) (infos req root shown))
     in Inr \<lparr>ld_Path = root, ld_Files = files, ld_TotalCount = int (length files),
          ld_DirectoryCount = dir_count shown, ld_FileCount = int (length shown) - dir_count shown,
          ld_Truncated = (length matching > 500)\<rparr>)"
proof -
  define root where "root = (if lq_Path req = [] then ''.'' else lq_Path req)"
  let ?xs = "filter (\<lambda>(r, e). listed req r) (preorder [] es)"
  let ?a = "\<lparr>ls_files = [], ls_dirs = 0, ls_count = 0, ls_truncated = False\<rparr>"
  have "pruned (list_keep req) [] es = ?xs"
    unfolding pruned_filter
    using preorder_names [OF assms(1), of "[]"] preorder_last [of _ _ "[]" es] by (auto intro!: filter_cong simp: list_kept)
  then have run: "fst (walk (list_visit req root) [] es ?a) = fst (run (\<lambda>(r, e). list_visit req root r e) ?xs ?a)"
    using walk_run [OF list_prunes, of req root "[]" es ?a] by simp
  have kept: "\<forall>(r, e) \<in> set ?xs. r \<noteq> [] \<and> entry_name e = last r \<and> list_keep req r"
  proof clarify
    fix r e assume m: "(r, e) \<in> set ?xs"
    then have r: "r \<noteq> []" "last r = entry_name e" using preorder_last [of r e "[]" es] by auto
    moreover have "kept_from (list_keep req) 0 r"
      using m r list_kept [of r req] preorder_names [OF assms(1), of "[]" r e] by auto
    ultimately show "r \<noteq> [] \<and> entry_name e = last r \<and> list_keep req r"
      unfolding kept_from_def by (metis length_greater_0_conv order_refl take_all)
  qed
  have "list_visit req root [] (DirE n st es) ?a = Continue ?a"
    by (simp add: list_visit_def)
  then have "walk_root (list_visit req root) (dir root) ?a = fst (run (\<lambda>(r, e). list_visit req root r e) ?xs ?a)"
    using assms(2) run by (simp add: walk_root_def root_def)
  also have "\<dots> = (let shown = take 500 ?xs in \<lparr>ls_files = infos req root shown, ls_dirs = dir_count shown,
       ls_count = int (length shown) - dir_count shown, ls_truncated = (length ?xs > 500)\<rparr>)"
    using run_list [OF kept, of ?a root] by (auto simp: defaultListMaxResults_def Let_def dest: arg_cong [where f = length])
  finally have w: "walk_root (list_visit req root) (dir root) ?a = \<lparr>ls_files = infos req root (take 500 ?xs),
      ls_dirs = dir_count (take 500 ?xs), ls_count = int (length (take 500 ?xs)) - dir_count (take 500 ?xs), ls_truncated = (length ?xs > 500)\<rparr>"
    by (simp add: Let_def)
  show ?thesis
    unfolding FileListHandler_def option.case Let_def root_def [symmetric] w list_state.select_convs by simp
qed

definition small_tree :: entry where
  "small_tree = DirE ''w'' \<lparr>st_size = 0, st_mode = [], st_mtime = []\<rparr>
     [DirE ''.git'' \<lparr>st_size = 0, st_mode = [], st_mtime = []\<rparr> [FileE ''config'' \<lparr>st_size = 4, st_mode = [], st_mtime = []\<rparr> ''core''],
      FileE ''a.py'' \<lparr>st_size = 3, st_mode = [], st_mtime = []\<rparr> ''x=1'',
      DirE ''src'' \<lparr>st_size = 0, st_mode = [], st_mtime = []\<rparr>
        [DirE ''lib'' \<lparr>st_size = 0, st_mode = [], st_mtime = []\<rparr> [FileE ''deep'' \<lparr>st_size = 0, st_mode = [], st_mtime = []\<rparr> []]]]"

definition plain_list :: "string \<Rightarrow> file_list_request" where
  "plain_list p = \<lparr>lq_Path = p, lq_ShowHidden = None, lq_MaxDepth = None, lq_IncludeSize = None, lq_IncludePermissions = None,
     lq_SortBy = None, lq_SortDesc = None\<rparr>"

fun children :: "entry \<Rightarrow> entry list" where
  "children (FileE n st c) = []"
| "children (DirE n st es) = es"

theorem list_exact_witness:
  "\<exists>d. FileListHandler (\<lambda>_ xs. xs) (\<lambda>_. Some small_tree) (Some (plain_list ''/w'')) = Inr d \<and>
     map fi_Path (ld_Files d) = [''/w/a.py'', ''/w/src'', ''/w/src/lib''] \<and> ld_DirectoryCount d = 2 \<and> \<not> ld_Truncated d"
proof -
  have tree: "small_tree = DirE ''w'' (entry_stat small_tree) (children small_tree)"
    by (simp add: small_tree_def)
  have ok: "list_all names_ok (children small_tree)" by code_simp
  have "(\<lambda>_. Some small_tree) (if lq_Path (plain_list ''/w'') = [] then ''.'' else lq_Path (plain_list ''/w''))
      = Some (DirE ''w'' (entry_stat small_tree) (children small_tree))"
    using tree by simp
  note reply = list_exact [OF ok this, of "\<lambda>_ xs. xs"]
  let ?xs = "filter (\<lambda>(r, e). listed (plain_list ''/w'') r) (preorder [] (children small_tree))"
  have len: "length ?xs = 3" by code_simp
  have "map fi_Path (infos (plain_list ''/w'') ''/w'' ?xs) = [''/w/a.py'', ''/w/src'', ''/w/src/lib'']" "dir_count ?xs = 2" by code_simp+
  moreover have "lq_Path (plain_list ''/w'') = ''/w''" "lq_SortBy (plain_list ''/w'') = None" by (simp_all add: plain_list_def)
  moreover have "take 500 ?xs = ?xs" using len by simp
  ultimately show ?thesis unfolding reply using len by (simp add: Let_def)
qed

end
