(* ===== verification/Rt_Grep.thy ===== *)
theory Rt_Grep
  imports Rt_Listing
begin

text \<open>
  What the search over many files returns, over the files of the tree in order.
\<close>

lemma pruned_all: "pruned (\<lambda>_. True) rel es = preorder rel es"
  by (induction rel es rule: preorder.induct) simp_all

text \<open>All matches in one file, whatever room is left.\<close>

definition file_hits :: "(string \<Rightarrow> bool) \<Rightarrow> int \<Rightarrow> int \<Rightarrow> string \<Rightarrow> bytes \<Rightarrow> grep_match list" where
  "file_hits re before after path content =
     (if isBinary (take binaryDetectBytes content) then []
      else line_matches path re (nat before) (nat after)
        (if before > 0 \<or> after > 0 then capped_lines 0 (fst (scan_lines content)) else fst (scan_lines content)))"

lemma grepFile_hits:
  "grepFile path content re before after room =
     (take (nat room) (file_hits re before after path content), int (length (file_hits re before after path content)))"
  by (simp add: grepFile_def file_hits_def Let_def)

definition searched :: "(string \<Rightarrow> bool) option \<Rightarrow> string \<Rightarrow> string list \<times> entry \<Rightarrow> bool" where
  "searched glob root x = (case x of (rel, e) \<Rightarrow> \<not> is_dir e \<and> \<not> isProtectedReadPath (full_path root rel) \<and>
     (case glob of None \<Rightarrow> True | Some m \<Rightarrow> m (rel_path rel)))"

fun entry_hits :: "(string \<Rightarrow> bool) \<Rightarrow> int \<Rightarrow> int \<Rightarrow> string \<Rightarrow> string list \<times> entry \<Rightarrow> grep_match list" where
  "entry_hits re before after root (rel, FileE n st content) = file_hits re before after (full_path root rel) content"
| "entry_hits re before after root (rel, DirE n st es) = []"

definition hits :: "(string \<Rightarrow> bool) \<Rightarrow> (string \<Rightarrow> bool) option \<Rightarrow> int \<Rightarrow> int \<Rightarrow> string \<Rightarrow> (string list \<times> entry) list \<Rightarrow> grep_match list" where
  "hits re glob before after root xs = concat (map (entry_hits re before after root) (filter (searched glob root) xs))"

lemma hits_simps [simp]:
  "hits re glob b a root [] = []"
  "hits re glob b a root (x # xs) = (if searched glob root x then entry_hits re b a root x else []) @ hits re glob b a root xs"
  by (simp_all add: hits_def)

lemma take_room: "int (length xs) < mx \<Longrightarrow> xs @ take (nat (mx - int (length xs))) ys = take (nat mx) (xs @ ys)"
  by (simp add: nat_diff_distrib)

lemma room_full: "0 < mx \<Longrightarrow> int (length (take (nat mx) zs)) \<ge> mx \<longleftrightarrow> int (length zs) \<ge> mx"
  by auto

definition grep_add :: "int \<Rightarrow> grep_match list \<Rightarrow> grep_state \<Rightarrow> grep_state" where
  "grep_add mx new s = s\<lparr>gs_total := gs_total s + int (length new), gs_matches := take (nat mx) (gs_matches s @ new)\<rparr>"

lemma grep_add_simps [simp]:
  "gs_total (grep_add mx new s) = gs_total s + int (length new)"
  "gs_matches (grep_add mx new s) = take (nat mx) (gs_matches s @ new)" "gs_truncated (grep_add mx new s) = gs_truncated s"
  by (simp_all add: grep_add_def)

lemma grep_add_none: "int (length (gs_matches s)) < mx \<Longrightarrow> grep_add mx [] s = s"
  by (cases s) (simp add: grep_add_def)

definition new_hits where
  "new_hits re glob b a root x = (if searched glob root x then entry_hits re b a root x else [])"

lemma hits_Cons: "hits re glob b a root (x # xs) = new_hits re glob b a root x @ hits re glob b a root xs"
  by (simp add: new_hits_def)

lemma grep_visit_step:
  assumes "int (length (gs_matches s)) < mx"
  shows "grep_visit re glob mx b a root rel e s =
    (let s' = grep_add mx (new_hits re glob b a root (rel, e)) s
     in if int (length (gs_matches s')) \<ge> mx then SkipAll (s'\<lparr>gs_truncated := True\<rparr>) else Continue s')"
proof (cases "searched glob root (rel, e)")
  case True
  then obtain n st content where e: "e = FileE n st content" by (cases e) (auto simp: searched_def)
  have "grep_visit re glob mx b a root rel e s =
      (let s' = s\<lparr>gs_total := gs_total s + int (length (entry_hits re b a root (rel, e))),
           gs_matches := gs_matches s @ take (nat (mx - int (length (gs_matches s)))) (entry_hits re b a root (rel, e))\<rparr>
       in if int (length (gs_matches s')) \<ge> mx then SkipAll (s'\<lparr>gs_truncated := True\<rparr>) else Continue s')"
    using True e by (cases glob) (simp_all add: grep_visit_def searched_def grepFile_hits Let_def)
  then show ?thesis using True unfolding take_room [OF assms] by (simp add: grep_add_def new_hits_def)
next
  case False
  then have "grep_visit re glob mx b a root rel e s = Continue s"
    by (cases e; cases glob) (auto simp: grep_visit_def searched_def)
  moreover have "new_hits re glob b a root (rel, e) = []" using False by (simp add: new_hits_def)
  ultimately show ?thesis using assms by (simp add: grep_add_none)
qed

lemma run_grep:
  assumes "int (length (gs_matches s)) < mx"
  shows "let r = fst (run (\<lambda>(r, e). grep_visit re glob mx b a root r e) xs s); found = gs_matches s @ hits re glob b a root xs in
    gs_matches r = take (nat mx) found \<and> gs_truncated r = (gs_truncated s \<or> int (length found) \<ge> mx) \<and>
    (int (length found) < mx \<longrightarrow> gs_total r = gs_total s + int (length (hits re glob b a root xs)))"
  using assms
proof (induction xs arbitrary: s)
  case (Cons x xs)
  obtain rel e where x: "x = (rel, e)" by (cases x)
  define new where "new = new_hits re glob b a root x"
  have pos: "0 < mx" using Cons.prems by linarith
  note step = grep_visit_step [OF Cons.prems, of re glob b a root rel e, folded x, folded new_def]
  note h = hits_Cons [of re glob b a root x xs, folded new_def]
  show ?case
  proof (cases "int (length (gs_matches s @ new)) \<ge> mx")
    case True
    then have "nat mx \<le> length (gs_matches s @ new)" by linarith
    then have "take (nat mx) (gs_matches s @ new @ ys) = take (nat mx) (gs_matches s @ new)" for ys
      by (metis append.assoc append_Nil2 diff_is_0_eq take0 take_append)
    then show ?thesis
      using True step x room_full [OF pos, of "gs_matches s @ new"] unfolding h by (simp add: Let_def)
  next
    case False
    then have "take (nat mx) (gs_matches s @ new) = gs_matches s @ new" by simp
    then have "run (\<lambda>(r, e). grep_visit re glob mx b a root r e) (x # xs) s
        = run (\<lambda>(r, e). grep_visit re glob mx b a root r e) xs (grep_add mx new s)"
      using False step x by simp
    then show ?thesis
      using False Cons.IH [of "grep_add mx new s"] \<open>take (nat mx) (gs_matches s @ new) = gs_matches s @ new\<close> unfolding h
      by (simp add: Let_def)
  qed
qed (simp add: Let_def)


definition plain_grep :: "string \<Rightarrow> string \<Rightarrow> file_grep_request" where
  "plain_grep p re = \<lparr>gq_Path = p, gq_Regex = re, gq_Glob = [], gq_MaxResults = None, gq_ContextBefore = None, gq_ContextAfter = None\<rparr>"

text \<open>A literal for a regular expression: a line matches that contains it.\<close>

definition literal :: "string \<Rightarrow> (string \<Rightarrow> bool) option" where
  "literal re = Some (\<lambda>t. contains_str t re)"


text \<open>A search with the shell's escape out of the working directory is not kept from the credentials either.\<close>

lemma grep_relative_unprotected: "\<not> isProtectedReadPath (full_path ''../etc/sandbox/creds'' [''token''])"
  by code_simp

end
