(* ===== verification/Rt_Reading.thy ===== *)
theory Rt_Reading
  imports Rt_Files
begin

text \<open>
  What a read returns: the exact slice of lines with its cap, and which contents survive being written and read
  back.
\<close>

section \<open>The slice\<close>

definition line_range :: "int \<Rightarrow> int \<Rightarrow> 'a list \<Rightarrow> 'a list" where
  "line_range start en ls = drop (nat (start - 1)) (if en = 0 then ls else take (nat en) ls)"

text \<open>The lines before which less than the cap has been used.\<close>

fun capped :: "int \<Rightarrow> string list \<Rightarrow> string list" where
  "capped used [] = []"
| "capped used (t # ts) = (if used \<ge> defaultReadMaxBytes then [] else t # capped (used + int (length t) + 1) ts)"

fun rendered :: "bool \<Rightarrow> int \<Rightarrow> string list \<Rightarrow> string list" where
  "rendered numbered n [] = []"
| "rendered numbered n (t # ts) = render_line numbered n t # rendered numbered (n + 1) ts"

fun used_bytes :: "string list \<Rightarrow> int" where
  "used_bytes [] = 0"
| "used_bytes (t # ts) = int (length t) + 1 + used_bytes ts"

lemma rendered_raw [simp]: "rendered False n ts = ts"
  by (induction ts arbitrary: n) (simp_all add: render_line_def)

lemma rendered_nil [simp]: "rendered nb n ts = [] \<longleftrightarrow> ts = []"
  by (cases ts) simp_all

lemma capped_full: "used \<ge> defaultReadMaxBytes \<Longrightarrow> capped used ts = []"
  by (cases ts) simp_all

lemma capped_all: "used + used_bytes ts \<le> defaultReadMaxBytes \<Longrightarrow> capped used ts = ts"
proof (induction ts arbitrary: used)
  case (Cons t ts)
  have "0 \<le> used_bytes ts" by (induction ts) simp_all
  then show ?case using Cons.prems Cons.IH [of "used + int (length t) + 1"] by simp
qed simp

definition range_left :: "int \<Rightarrow> int \<Rightarrow> string list \<Rightarrow> string list" where
  "range_left en n ts = (if en = 0 then ts else take (nat (en - n)) ts)"

lemma range_left_simps [simp]:
  "range_left en n [] = []"
  "range_left en n (t # ts) = (if en \<noteq> 0 \<and> en \<le> n then [] else t # range_left en (n + 1) ts)"
proof -
  have "en > n \<Longrightarrow> nat (en - n) = Suc (nat (en - (n + 1)))" by simp
  then show "range_left en n (t # ts) = (if en \<noteq> 0 \<and> en \<le> n then [] else t # range_left en (n + 1) ts)"
    by (auto simp: range_left_def)
qed (simp add: range_left_def)

lemma read_loop_skip:
  "rs_line a + int (length us) < start \<Longrightarrow>
   read_loop start en nb (us @ ts) a = read_loop start en nb ts (a\<lparr>rs_line := rs_line a + int (length us)\<rparr>)"
proof (induction us arbitrary: a)
  case (Cons u us)
  then show ?case by (simp add: Let_def algebra_simps)
qed simp

lemma read_loop_emit:
  assumes "start \<le> rs_line a + 1" "0 \<le> rs_line a"
  shows "read_loop start en nb ts a =
    (let sel = range_left en (rs_line a) ts; kept = capped (rs_bytes a) sel in
     \<lparr>rs_out = rs_out a @ terminated (rendered nb (rs_line a + 1) kept), rs_bytes = rs_bytes a + used_bytes kept,
      rs_start = (if kept = [] \<or> rs_start a \<noteq> 0 then rs_start a else rs_line a + 1),
      rs_end = (if kept = [] then rs_end a else rs_line a + int (length kept)),
      rs_truncated = (rs_truncated a \<or> kept \<noteq> sel), rs_line = rs_line a + int (length ts)\<rparr>)"
  using assms
proof (induction ts arbitrary: a)
  case Nil
  then show ?case by simp
next
  case (Cons t ts)
  consider (behind) "en \<noteq> 0" "en \<le> rs_line a" | (full) "\<not> (en \<noteq> 0 \<and> en \<le> rs_line a)" "rs_bytes a \<ge> defaultReadMaxBytes"
    | (emit) "\<not> (en \<noteq> 0 \<and> en \<le> rs_line a)" "\<not> rs_bytes a \<ge> defaultReadMaxBytes"
    by blast
  then show ?case
  proof cases
    case behind
    then show ?thesis using Cons.prems by (cases a) (simp add: Let_def)
  next
    case full
    let ?a = "a\<lparr>rs_line := rs_line a + 1, rs_truncated := True\<rparr>"
    have "read_loop start en nb (t # ts) a = read_loop start en nb ts ?a"
      using full Cons.prems by (auto simp: Let_def)
    also have "\<dots> = \<lparr>rs_out = rs_out a, rs_bytes = rs_bytes a, rs_start = rs_start a, rs_end = rs_end a,
        rs_truncated = True, rs_line = rs_line a + int (length (t # ts))\<rparr>"
      using Cons.IH [of ?a] Cons.prems full(2) by (simp add: Let_def capped_full)
    finally show ?thesis using full by (auto simp: Let_def capped_full)
  next
    case emit
    let ?a = "a\<lparr>rs_line := rs_line a + 1, rs_start := (if rs_start a = 0 then rs_line a + 1 else rs_start a), rs_end := rs_line a + 1,
      rs_out := rs_out a @ render_line nb (rs_line a + 1) t @ [newline], rs_bytes := rs_bytes a + int (length t) + 1\<rparr>"
    have "read_loop start en nb (t # ts) a = read_loop start en nb ts ?a"
      using emit Cons.prems by (auto simp: Let_def)
    also have "\<dots> = (let sel = range_left en (rs_line a + 1) ts; kept = capped (rs_bytes a + int (length t) + 1) sel in
       \<lparr>rs_out = rs_out a @ render_line nb (rs_line a + 1) t @ [newline] @ terminated (rendered nb (rs_line a + 1 + 1) kept),
        rs_bytes = rs_bytes a + int (length t) + 1 + used_bytes kept,
        rs_start = (if rs_start a = 0 then rs_line a + 1 else rs_start a),
        rs_end = rs_line a + 1 + int (length kept),
        rs_truncated = (rs_truncated a \<or> kept \<noteq> sel), rs_line = rs_line a + 1 + int (length ts)\<rparr>)"
      using Cons.IH [of ?a] Cons.prems by (auto simp: Let_def)
    finally show ?thesis using emit by (auto simp: Let_def)
  qed
qed

lemma read_loop_slice:
  assumes "1 \<le> start"
  shows "read_loop start en nb ls read_init =
    (let sel = line_range start en ls; kept = capped 0 sel in
     \<lparr>rs_out = terminated (rendered nb start kept), rs_bytes = used_bytes kept,
      rs_start = (if kept = [] then 0 else start), rs_end = (if kept = [] then 0 else start - 1 + int (length kept)),
      rs_truncated = (kept \<noteq> sel), rs_line = int (length ls)\<rparr>)"
proof (cases "start - 1 \<le> int (length ls)")
  case True
  let ?us = "take (nat (start - 1)) ls" and ?ts = "drop (nat (start - 1)) ls"
  let ?a = "read_init\<lparr>rs_line := start - 1\<rparr>"
  have len: "int (length ?us) = start - 1" using True assms by simp
  have "read_loop start en nb ls read_init = read_loop start en nb (?us @ ?ts) read_init" by simp
  also have "\<dots> = read_loop start en nb ?ts ?a"
    using len by (subst read_loop_skip) (simp_all add: read_init_def)
  also have "\<dots> = (let sel = range_left en (start - 1) ?ts; kept = capped 0 sel in
     \<lparr>rs_out = terminated (rendered nb start kept), rs_bytes = used_bytes kept,
      rs_start = (if kept = [] then 0 else start), rs_end = (if kept = [] then 0 else start - 1 + int (length kept)),
      rs_truncated = (kept \<noteq> sel), rs_line = start - 1 + int (length ?ts)\<rparr>)"
    using assms by (subst read_loop_emit) (auto simp: read_init_def Let_def)
  also have "range_left en (start - 1) ?ts = line_range start en ls"
    using assms by (cases "en \<ge> start - 1") (auto simp: range_left_def line_range_def drop_take nat_diff_distrib [of "start - 1" en])
  finally show ?thesis using True assms by (simp add: Let_def)
next
  case False
  have "length ls \<le> nat (start - 1)" using False by linarith
  then have "line_range start en ls = []" by (simp add: line_range_def min.coboundedI1)
  then show ?thesis
    using False assms read_loop_skip [of read_init ls start en nb "[]"] by (simp add: read_init_def Let_def)
qed

lemma trim_terminated: "trim_suffix (terminated ls) [newline] = join_str [newline] ls"
  by (cases "ls = []") (simp_all add: terminated_join trim_suffix_def has_suffix_def)

lemma read_slice_exact_of:
  assumes "rq_File req \<noteq> []" "\<not> isProtectedReadPath (rq_File req)"
    and "open_file os (rq_File req) s = Inr content" "os_fault os ReadCall = None"
  shows "FileReadHandler os (Some req) s =
    (let start = max 1 (case rq_StartLine req of Some n \<Rightarrow> n | None \<Rightarrow> 1);
         en = max 0 (case rq_EndLine req of Some n \<Rightarrow> n | None \<Rightarrow> 0);
         sel = line_range start en (map drop_cr (raw_lines content));
         kept = capped 0 sel
     in if list_all fits_buffer (raw_lines content) then
          FileRead \<lparr>rd_Content = join_str [newline] (rendered (rq_Format req = ''numbered'') start kept),
            rd_TotalLines = int (length (raw_lines content)),
            rd_StartLine = (if kept = [] then 0 else start),
            rd_EndLine = (if kept = [] then 0 else start + int (length kept) - 1),
            rd_Truncated = (kept \<noteq> sel)\<rparr>
        else FileError StatusInternalServerError ScanFailed)"
proof -
  have start: "(case rq_StartLine req of Some n \<Rightarrow> if n > 1 then n else 1 | None \<Rightarrow> 1) =
      max 1 (case rq_StartLine req of Some n \<Rightarrow> n | None \<Rightarrow> 1)"
    by (simp split: option.split)
  have en: "(case rq_EndLine req of Some n \<Rightarrow> if n > 0 then n else 0 | None \<Rightarrow> 0) =
      max 0 (case rq_EndLine req of Some n \<Rightarrow> n | None \<Rightarrow> 0)"
    by (simp split: option.split)
  have all: "list_all fits_buffer ls \<Longrightarrow> takeWhile fits_buffer ls = ls" for ls
    by (induction ls) simp_all
  show ?thesis
    using assms read_loop_slice [of "max 1 (case rq_StartLine req of Some n \<Rightarrow> n | None \<Rightarrow> 1)"]
    by (simp add: FileReadHandler_def start en scan_lines_def Let_def trim_terminated all algebra_simps)
qed

text \<open>A read returns exactly the requested lines, joined by newlines and rendered as asked, up to the
  first line before which a mebibyte has been sent; it says whether lines were cut off, counts all lines of
  the file, and fails as a whole when some line of the file does not fit the scanner's buffer.\<close>

theorem read_slice_exact:
  assumes "rq_File req \<noteq> []" "\<not> isProtectedReadPath (rq_File req)"
    and "open_file os (rq_File req) s = Inr content" "os_fault os ReadCall = None"
  shows "FileReadHandler os (Some req) s =
    (let start = max 1 (case rq_StartLine req of Some n \<Rightarrow> n | None \<Rightarrow> 1);
         en = max 0 (case rq_EndLine req of Some n \<Rightarrow> n | None \<Rightarrow> 0);
         sel = line_range start en (map drop_cr (raw_lines content));
         kept = capped 0 sel
     in if list_all fits_buffer (raw_lines content) then
          FileRead \<lparr>rd_Content = join_str [newline] (rendered (rq_Format req = ''numbered'') start kept),
            rd_TotalLines = int (length (raw_lines content)),
            rd_StartLine = (if kept = [] then 0 else start),
            rd_EndLine = (if kept = [] then 0 else start + int (length kept) - 1),
            rd_Truncated = (kept \<noteq> sel)\<rparr>
        else FileError StatusInternalServerError ScanFailed)"
  by (rule read_slice_exact_of [OF assms])

section \<open>Reading back\<close>

definition plain_text :: "string \<Rightarrow> bool" where
  "plain_text v \<longleftrightarrow> (v = [] \<or> last v \<noteq> newline) \<and> (\<forall>l \<in> set (split_on newline v). l = [] \<or> last l \<noteq> carriage_return)"

definition text_read :: "string \<Rightarrow> string" where
  "text_read v = join_str [newline] (map drop_cr (raw_lines v))"

lemma join_length_le: "length (join_str q (map drop_cr ls)) \<le> length (join_str q ls)"
  by (induction ls rule: induct_list012) (auto simp: drop_cr_def)

lemma join_length_less:
  assumes "l \<in> set ls" "l \<noteq> []" "last l = carriage_return"
  shows "length (join_str q (map drop_cr ls)) < length (join_str q ls)"
  using assms
proof (induction ls rule: induct_list012)
  case (3 x y ls)
  have "length (drop_cr x) \<le> length x" by (simp add: drop_cr_def)
  moreover have "length (join_str q (map drop_cr (y # ls))) \<le> length (join_str q (y # ls))" by (rule join_length_le)
  moreover have "l = x \<Longrightarrow> length (drop_cr x) < length x" using "3.prems" by (simp add: drop_cr_def)
  ultimately show ?case using "3.IH"(2) "3.prems" by (cases "l = x") auto
qed (auto simp: drop_cr_def)

lemma raw_lines_terminated: "v \<noteq> [] \<Longrightarrow> last v = newline \<Longrightarrow> v = join_str [newline] (raw_lines v) @ [newline]"
proof -
  assume v: "v \<noteq> []" "last v = newline"
  define ls where "ls = butlast (split_on newline v)"
  have split: "split_on newline v = ls @ [[]]"
    using v last_split_empty [of newline v] append_butlast_last_id [OF split_on_nonempty [of newline v]] by (simp add: ls_def)
  have join: "ls \<noteq> [] \<Longrightarrow> join_str q (ls @ [[]]) = join_str q ls @ q" for q :: string
    by (induction ls rule: induct_list012) simp_all
  have ne: "ls \<noteq> []"
    using split v join_split_on [of newline v] by auto
  have "raw_lines v = ls" using split by (simp add: raw_lines_def Let_def)
  then show ?thesis using join [OF ne, of "[newline]"] join_split_on [of newline v] split by simp
qed

lemma text_read_iff: "text_read v = v \<longleftrightarrow> plain_text v"
proof (cases "v = [] \<or> last v \<noteq> newline")
  case True
  have raw: "set (raw_lines v) \<union> {[]} = set (split_on newline v) \<union> {[]}"
    using raw_lines_plain [OF True] by auto
  show ?thesis
  proof (cases "\<forall>l \<in> set (raw_lines v). l = [] \<or> last l \<noteq> carriage_return")
    case clean: True
    have "map drop_cr (raw_lines v) = raw_lines v" using clean by (intro map_idI) (auto simp: drop_cr_def)
    moreover have "plain_text v" using clean True raw unfolding plain_text_def by blast
    ultimately show ?thesis using join_raw_lines [OF True] by (simp add: text_read_def)
  next
    case False
    then obtain l where l: "l \<in> set (raw_lines v)" "l \<noteq> []" "last l = carriage_return" by blast
    have "length (text_read v) < length v"
      using join_length_less [OF l, of "[newline]"] join_raw_lines [OF True] by (simp add: text_read_def)
    moreover have "\<not> plain_text v" using l raw unfolding plain_text_def by blast
    ultimately show ?thesis by auto
  qed
next
  case False
  then have "v = join_str [newline] (raw_lines v) @ [newline]" by (intro raw_lines_terminated) simp_all
  moreover have "length (text_read v) \<le> length (join_str [newline] (raw_lines v))"
    unfolding text_read_def by (rule join_length_le)
  ultimately have "length (text_read v) < length v" by (metis length_append_singleton less_Suc_eq_le)
  then show ?thesis using False by (auto simp: plain_text_def)
qed

section \<open>Writing and reading back\<close>

text \<open>An environment in which no call is refused.\<close>

definition calm :: "string \<Rightarrow> os_env" where
  "calm tmp = \<lparr>os_fault = (\<lambda>_. None), os_partial = 0, os_temp = tmp\<rparr>"

lemma calm_simps [simp]: "os_fault (calm tmp) c = None" "os_temp (calm tmp) = tmp"
  by (simp_all add: calm_def)

definition overwrite :: "string \<Rightarrow> string \<Rightarrow> file_write_request" where
  "overwrite f v = \<lparr>wq_File = f, wq_Content = v, wq_Append = None, wq_LeadingNewline = None, wq_TrailingNewline = None\<rparr>"

definition read_all :: "string \<Rightarrow> file_read_request" where
  "read_all f = \<lparr>rq_File = f, rq_StartLine = None, rq_EndLine = None, rq_Format = []\<rparr>"

lemma write_calm:
  assumes "f \<noteq> []"
  shows "FileWriteHandler (calm tmp) (Some (overwrite f v)) s =
    (FileWritten (int (length v)), snd (atomicWriteFile (calm tmp) f v mode_rw s))"
    and "last (snd (atomicWriteFile (calm tmp) f v mode_rw s)) =
      put_file (resolve s f) (v, mode_rw) (del_file tmp (put_file tmp (v, mode_rw) (put_file tmp (v, 384) (put_file tmp ([], 384) s))))"
  using assms by (simp_all add: FileWriteHandler_def atomicWriteFile_def overwrite_def flag_def Let_def)

lemma resolve_put [simp]: "resolve (put_file g c s) p = resolve s p" "resolve (del_file g s) p = resolve s p"
  by (simp_all add: resolve_def put_file_def del_file_def)

lemma files_put [simp]: "fs_files (put_file g c s) = (fs_files s)(g \<mapsto> c)" "fs_files (del_file g s) = (fs_files s)(g := None)"
  by (simp_all add: put_file_def del_file_def)

lemma open_written: "open_file (calm tmp') f (put_file (resolve s f) c t) = Inr (fst c)" if "resolve t f = resolve s f"
  using that by (simp add: open_file_def)

lemma used_bytes_terminated: "used_bytes ls = int (length (terminated ls))"
  by (induction ls) simp_all

lemma used_bytes_drop_cr: "used_bytes (map drop_cr ls) \<le> used_bytes ls"
  by (induction ls) (auto simp: drop_cr_def)

lemma used_bytes_raw: "used_bytes (raw_lines v) \<le> int (length v) + 1"
proof (cases "raw_lines v = []")
  case False
  have "length (join_str [newline] (raw_lines v)) \<le> length v"
    using join_raw_lines [of v] raw_lines_terminated [of v] by (metis le_add1 length_append order_refl)
  then show ?thesis using False by (simp add: used_bytes_terminated terminated_join)
qed simp

lemma raw_line_length: "l \<in> set (raw_lines v) \<Longrightarrow> int (length l) + 1 \<le> used_bytes (raw_lines v)"
proof -
  have nonneg: "0 \<le> used_bytes ls" for ls by (simp add: used_bytes_terminated)
  have "l \<in> set ls \<Longrightarrow> int (length l) + 1 \<le> used_bytes ls" for ls
  proof (induction ls)
    case (Cons m ls)
    then show ?case using nonneg [of ls] by auto
  qed simp
  then show "l \<in> set (raw_lines v) \<Longrightarrow> int (length l) + 1 \<le> used_bytes (raw_lines v)" .
qed

lemma read_all_reply:
  assumes "f \<noteq> []" "\<not> isProtectedReadPath f" "int (length v) < defaultReadMaxBytes" "open_file (calm tmp) f t = Inr v"
  shows "\<exists>d. FileReadHandler (calm tmp) (Some (read_all f)) t = FileRead d \<and> rd_Truncated d = False \<and> rd_Content d = text_read v"
proof -
  have small: "used_bytes (raw_lines v) \<le> defaultReadMaxBytes"
    using used_bytes_raw [of v] assms(3) by simp
  have fits: "list_all fits_buffer (raw_lines v)"
    unfolding list_all_iff
  proof
    fix l assume "l \<in> set (raw_lines v)"
    from raw_line_length [OF this] small show "fits_buffer l" by (simp add: fits_buffer_def defaultReadMaxBytes_def)
  qed
  have range: "line_range 1 0 ls = ls" for ls :: "string list" by (simp add: line_range_def)
  have kept: "capped 0 (map drop_cr (raw_lines v)) = map drop_cr (raw_lines v)"
    using used_bytes_drop_cr [of "raw_lines v"] small by (intro capped_all) simp
  show ?thesis
    using read_slice_exact_of [of "read_all f" "calm tmp" t v] assms fits kept range
    by (simp add: read_all_def Let_def text_read_def)
qed

text \<open>What a read of a whole file returns after less than a mebibyte was written to it in place of the old
  contents, and that it is what was written exactly when the text does not end in a newline and no line
  of it ends in a carriage return.\<close>

theorem read_after_write:
  assumes "f \<noteq> []" "\<not> isProtectedReadPath f" "int (length v) < defaultReadMaxBytes"
  shows "\<exists>d. FileReadHandler (calm tmp') (Some (read_all f)) (last (snd (FileWriteHandler (calm tmp) (Some (overwrite f v)) s)))
      = FileRead d \<and> rd_Truncated d = False \<and> (rd_Content d = v \<longleftrightarrow> plain_text v)"
proof -
  have "open_file (calm tmp') f (last (snd (FileWriteHandler (calm tmp) (Some (overwrite f v)) s))) = Inr v"
    unfolding write_calm [OF assms(1)] snd_conv by (subst open_written) simp_all
  from read_all_reply [OF assms this] show ?thesis using text_read_iff [of v] by metis
qed

theorem read_after_write_witness:
  "\<exists>d. FileReadHandler (calm ''/t'') (Some (read_all ''/w/k''))
      (last (snd (FileWriteHandler (calm ''/t'') (Some (overwrite ''/w/k'' [CHR ''K'', newline])) \<lparr>fs_cwd = ''/w'', fs_files = Map.empty\<rparr>))) = FileRead d
    \<and> rd_Content d \<noteq> [CHR ''K'', newline]"
proof -
  have "\<not> isProtectedReadPath ''/w/k''" "int (length [CHR ''K'', newline]) < defaultReadMaxBytes" "\<not> plain_text [CHR ''K'', newline]"
    by code_simp+
  then show ?thesis using read_after_write [of "''/w/k''" "[CHR ''K'', newline]" "''/t''" "''/t''"] by blast
qed

theorem read_slice_exact_witness:
  "FileReadHandler (calm ''/t'') (Some \<lparr>rq_File = ''/w/k'', rq_StartLine = Some 2, rq_EndLine = Some 2, rq_Format = ''numbered''\<rparr>)
     \<lparr>fs_cwd = ''/w'', fs_files = [''/w/k'' \<mapsto> (''a'' @ [newline] @ ''b'' @ [newline, CHR ''c''], 420)]\<rparr> =
   FileRead \<lparr>rd_Content = ''     2'' @ [CHR 0x09] @ ''b'', rd_TotalLines = 3, rd_StartLine = 2, rd_EndLine = 2, rd_Truncated = False\<rparr>"
    (is "FileReadHandler ?os (Some ?rq) ?s = ?reply")
proof -
  let ?c = "''a'' @ [newline] @ ''b'' @ [newline, CHR ''c'']"
  have "rq_File ?rq \<noteq> []" "\<not> isProtectedReadPath (rq_File ?rq)" "open_file ?os (rq_File ?rq) ?s = Inr ?c" "os_fault ?os ReadCall = None"
    by code_simp+
  note reply = read_slice_exact [OF this]
  have "list_all fits_buffer (raw_lines ?c)" "map drop_cr (raw_lines ?c) = [''a'', ''b'', ''c'']" "length (raw_lines ?c) = 3"
    by code_simp+
  moreover have "line_range 2 2 [''a'', ''b'', ''c''] = [''b'']" "capped 0 [''b''] = [''b'']"
      "join_str [newline] (rendered True 2 [''b'']) = ''     2'' @ [CHR 0x09] @ ''b''"
    by code_simp+
  ultimately show ?thesis unfolding reply by (simp add: Let_def)
qed

end
