(* ===== verification/Rt_Editing.thy ===== *)
theory Rt_Editing
  imports Rt_Reading
begin

text \<open>
  What the writing handlers change: the target changes at one instant from its old to its new contents, an
  edit that fails changes nothing, and what lies in the protected directory is out of reach of absolute paths
  only.
\<close>

section \<open>Atomic replacement\<close>

definition others_kept :: "fsys \<Rightarrow> string set \<Rightarrow> fsys \<Rightarrow> bool" where
  "others_kept s A t \<longleftrightarrow> (\<forall>g. g \<notin> A \<longrightarrow> fs_files t g = fs_files s g)"

text \<open>Every file system passed through has the target as it was or as it shall be, and all else as it was.\<close>

definition replaced_at_once :: "fsys \<Rightarrow> string \<Rightarrow> string \<Rightarrow> bytes \<times> nat \<Rightarrow> fsys list \<Rightarrow> bool" where
  "replaced_at_once s tmp target c tr \<longleftrightarrow>
     (\<forall>t \<in> set tr. others_kept s {tmp, target} t \<and> (fs_files t target = fs_files s target \<or> fs_files t target = Some c))"

lemma fsys_eqI: "fs_cwd s = fs_cwd t \<Longrightarrow> fs_files s = fs_files t \<Longrightarrow> s = (t :: fsys)"
  by simp

lemma put_del [simp]: "del_file g (put_file g c s) = del_file g s" "put_file g c (put_file g c' s) = put_file g c s"
  by (simp_all add: put_file_def del_file_def)

lemma del_fresh: "fs_files s g = None \<Longrightarrow> del_file g s = s"
  by (simp add: del_file_def fun_upd_idem)

lemma atomic_trace:
  assumes "os_temp os \<noteq> resolve s path"
  shows "replaced_at_once s (os_temp os) (resolve s path) (data, perm) (snd (atomicWriteFile os path data perm s))"
  using assms by (auto simp: replaced_at_once_def others_kept_def atomicWriteFile_def remove_temp_def Let_def
      split: option.splits if_splits)

lemma atomic_others:
  "u \<in> set (snd (atomicWriteFile os path data perm s)) \<Longrightarrow> others_kept s {os_temp os, resolve s path} u"
  by (auto simp: others_kept_def atomicWriteFile_def remove_temp_def Let_def split: option.splits if_splits)

lemma atomic_done:
  "fs_files s (os_temp os) = None \<Longrightarrow> fst (atomicWriteFile os path data perm s) = Inr n \<Longrightarrow>
   n = int (length data) \<and> last (snd (atomicWriteFile os path data perm s)) = put_file (resolve s path) (data, perm) s"
  by (auto simp: atomicWriteFile_def Let_def del_fresh split: option.splits)

lemma atomic_failed:
  "fs_files s (os_temp os) = None \<Longrightarrow> fst (atomicWriteFile os path data perm s) = Inl e \<Longrightarrow>
   os_fault os RemoveCall = None \<Longrightarrow> last (snd (atomicWriteFile os path data perm s)) = s"
  by (auto simp: atomicWriteFile_def remove_temp_def Let_def del_fresh split: option.splits)

section \<open>Edits\<close>

text \<open>The effect of one edit on a doc, and when it is allowed.\<close>

definition edit_allowed :: "file_edit \<Rightarrow> string \<Rightarrow> bool" where
  "edit_allowed ed doc \<longleftrightarrow> ed_OldStr ed \<noteq> [] \<and>
     (case ed_ExpectedMatches ed of
        Some n \<Rightarrow> n = str_count doc (ed_OldStr ed) \<and> n \<noteq> 0
      | None \<Rightarrow> (if flag (ed_ReplaceAll ed) then contains_str doc (ed_OldStr ed) else str_count doc (ed_OldStr ed) = 1))"

definition edit_text :: "file_edit \<Rightarrow> string \<Rightarrow> string" where
  "edit_text ed doc = replace_all doc (ed_OldStr ed) (ed_NewStr ed)"

fun edits_allowed :: "file_edit list \<Rightarrow> string \<Rightarrow> bool" where
  "edits_allowed [] doc = True"
| "edits_allowed (ed # eds) doc \<longleftrightarrow> edit_allowed ed doc \<and> edits_allowed eds (edit_text ed doc)"

lemma edit_allowed_iff:
  "edit_allowed ed doc \<longleftrightarrow> ed_OldStr ed \<noteq> [] \<and> str_count doc (ed_OldStr ed) \<noteq> 0 \<and>
     \<not> (ed_ExpectedMatches ed \<noteq> None \<and> ed_ExpectedMatches ed \<noteq> Some (str_count doc (ed_OldStr ed))) \<and>
     \<not> (ed_ExpectedMatches ed = None \<and> \<not> flag (ed_ReplaceAll ed) \<and> str_count doc (ed_OldStr ed) > 1)"
  using str_count_nonneg [of doc "ed_OldStr ed"] str_count_zero [of "ed_OldStr ed" doc]
  by (cases "ed_OldStr ed = []"; cases "ed_ExpectedMatches ed") (auto simp: edit_allowed_def)

lemma edit_loop_allowed:
  "edit_allowed ed doc \<Longrightarrow> edit_loop i (ed # eds) doc = (case edit_loop (Suc i) eds (edit_text ed doc) of
     Inl e \<Rightarrow> Inl e | Inr (doc', rs) \<Rightarrow> Inr (doc', (ed_OldStr ed, str_count doc (ed_OldStr ed)) # rs))"
  unfolding edit_allowed_iff edit_text_def by (auto simp: Let_def)

lemma edit_loop_refused: "\<not> edit_allowed ed doc \<Longrightarrow> \<exists>e. edit_loop i (ed # eds) doc = Inl e"
  unfolding edit_allowed_iff by (auto simp: Let_def)

lemma edit_loop_spec:
  "if edits_allowed eds doc then \<exists>rs. edit_loop i eds doc = Inr (fold edit_text eds doc, rs) \<and> map fst rs = map ed_OldStr eds
   else \<exists>e. edit_loop i eds doc = Inl e"
proof (induction eds arbitrary: i doc)
  case (Cons ed eds)
  show ?case
  proof (cases "edit_allowed ed doc")
    case True
    then show ?thesis
      using Cons.IH [of "edit_text ed doc" "Suc i"] by (auto simp: edit_loop_allowed simp del: edit_loop.simps split: if_splits)
  next
    case False
    then show ?thesis using edit_loop_refused [OF False] by simp
  qed
qed simp

text \<open>C22: A multi-edit is all or nothing. If each edit in turn is allowed on the result of those before it, the
  file ends as their result, or keeps its contents when the operating system refuses a call; otherwise
  nothing is touched. At every instant between, the file has its old or its final contents, so a crash leaves
  no half-edited file.\<close>

theorem multi_edit_all_or_nothing:
  assumes "f \<noteq> []" "eds \<noteq> []" "length eds \<le> 100" "\<not> isProtectedReadPath f"
    and "read_file os f s = Inr doc"
    and "fs_files s (os_temp os) = None" "os_temp os \<noteq> resolve s f" "os_fault os RemoveCall = None"
  shows "case FileMultiEditHandler os (Some (f, eds)) s of (reply, tr) \<Rightarrow>
    replaced_at_once s (os_temp os) (resolve s f) (fold edit_text eds doc, mode_rw) tr \<and>
    (if edits_allowed eds doc \<and> (\<forall>c \<in> {TempCall, WriteCall, ChmodCall, CloseCall, RenameCall}. os_fault os c = None)
     then (\<exists>rs. reply = Edited rs \<and> map fst rs = map ed_OldStr eds) \<and> last tr = put_file (resolve s f) (fold edit_text eds doc, mode_rw) s
     else (\<exists>status e. reply = FileError status e) \<and> last tr = s)"
proof (cases "edits_allowed eds doc")
  case True
  then obtain rs where rs: "edit_loop 0 eds doc = Inr (fold edit_text eds doc, rs)" "map fst rs = map ed_OldStr eds"
    using edit_loop_spec [of eds doc 0] by auto
  obtain r tr where aw: "atomicWriteFile os f (fold edit_text eds doc) mode_rw s = (r, tr)" by force
  have ok: "(\<exists>n. r = Inr n) \<longleftrightarrow> (\<forall>c \<in> {TempCall, WriteCall, ChmodCall, CloseCall, RenameCall}. os_fault os c = None)"
    using aw by (auto simp: atomicWriteFile_def Let_def split: option.splits)
  note facts = atomic_trace [OF assms(7), of "fold edit_text eds doc" mode_rw]
    atomic_done [OF assms(6), of f "fold edit_text eds doc" mode_rw] atomic_failed [OF assms(6), of f "fold edit_text eds doc" mode_rw]
  show ?thesis
    using assms rs True aw facts ok by (cases r) (auto simp: FileMultiEditHandler_def)
next
  case False
  then obtain e where "edit_loop 0 eds doc = Inl e" using edit_loop_spec [of eds doc 0] by auto
  then show ?thesis
    using assms False by (cases e) (auto simp: FileMultiEditHandler_def replaced_at_once_def others_kept_def)
qed

definition demo_fs :: fsys where
  "demo_fs = \<lparr>fs_cwd = ''/workspace'', fs_files = [''/workspace/a'' \<mapsto> (''one two two'', 493)]\<rparr>"

definition strict_edit :: "string \<Rightarrow> string \<Rightarrow> file_edit" where
  "strict_edit old new = \<lparr>ed_OldStr = old, ed_NewStr = new, ed_ExpectedMatches = None, ed_ReplaceAll = None\<rparr>"

definition failing_rename :: os_env where
  "failing_rename = (calm ''/workspace/.tmp-a-1'')\<lparr>os_fault := (\<lambda>c. if c = RenameCall then Some ''EIO'' else None)\<rparr>"

theorem multi_edit_all_or_nothing_witness:
  "case FileMultiEditHandler failing_rename (Some (''a'', [strict_edit ''one'' ''1''])) demo_fs of (reply, tr) \<Rightarrow>
     (\<exists>status e. reply = FileError status e) \<and> last tr = demo_fs"
proof -
  have "\<not> isProtectedReadPath ''a''" "read_file failing_rename ''a'' demo_fs = Inr ''one two two''"
      "fs_files demo_fs (os_temp failing_rename) = None" "os_temp failing_rename \<noteq> resolve demo_fs ''a''"
      "os_fault failing_rename RemoveCall = None" "os_fault failing_rename RenameCall = Some ''EIO''"
    by code_simp+
  then show ?thesis
    using multi_edit_all_or_nothing [of "''a''" "[strict_edit ''one'' ''1'']" failing_rename demo_fs "''one two two''"]
    by auto
qed

text \<open>A replacement that is asked for without flags replaces one occurrence only: the first one, and there is
  none behind it. The file then has the permissions \<open>rw-r--r--\<close>, whatever it had before.\<close>

theorem strict_replace:
  assumes "FileReplaceHandler os (Some (f, strict_edit old new)) s = (Replaced n, tr)"
    and "fs_files s (os_temp os) = None"
  shows "\<exists>doc i. read_file os f s = Inr doc \<and> n = 1 \<and> index_str doc old = Some i \<and>
    doc = take i doc @ old @ drop (i + length old) doc \<and> \<not> contains_str (drop (i + length old) doc) old \<and>
    last tr = put_file (resolve s f) (take i doc @ new @ drop (i + length old) doc, mode_rw) s"
proof -
  let ?doc = "case read_file os f s of Inr d \<Rightarrow> d | Inl e \<Rightarrow> []"
  have old: "old \<noteq> []" and doc: "read_file os f s = Inr ?doc" and n: "n = str_count ?doc old" "n \<noteq> 0" "\<not> n > 1"
    and aw: "\<exists>k. atomicWriteFile os f (replace_all ?doc old new) mode_rw s = (Inr k, tr)"
    using assms(1) by (auto simp: FileReplaceHandler_def strict_edit_def flag_def Let_def split: if_splits sum.splits prod.splits)
  have one: "str_count ?doc old = 1" using n str_count_nonneg [of ?doc old] by linarith
  obtain i where "index_str ?doc old = Some i" "?doc = take i ?doc @ old @ drop (i + length old) ?doc"
      "replace_all ?doc old new = take i ?doc @ new @ drop (i + length old) ?doc" "\<not> contains_str (drop (i + length old) ?doc) old"
    using replace_one [OF old one, of new] by metis
  moreover have "last tr = put_file (resolve s f) (replace_all ?doc old new, mode_rw) s"
    using aw atomic_done [OF assms(2), of f "replace_all ?doc old new" mode_rw] by force
  ultimately show ?thesis using doc one n(1) by metis
qed

theorem strict_replace_witness:
  "\<exists>doc. read_file (calm ''/workspace/t'') ''a'' demo_fs = Inr doc \<and> index_str doc ''one'' = Some 0"
proof -
  have "fst (FileReplaceHandler (calm ''/workspace/t'') (Some (''a'', strict_edit ''one'' ''1'')) demo_fs) = Replaced 1"
      "fs_files demo_fs (os_temp (calm ''/workspace/t'')) = None"
    by code_simp+
  moreover have "read_file (calm ''/workspace/t'') ''a'' demo_fs = Inr ''one two two''" "index_str ''one two two'' ''one'' = Some 0"
    by code_simp+
  ultimately show ?thesis
    using strict_replace [of "calm ''/workspace/t''" "''a''" "''one''" "''1''" demo_fs 1
      "snd (FileReplaceHandler (calm ''/workspace/t'') (Some (''a'', strict_edit ''one'' ''1'')) demo_fs)"]
    by (metis Inr_inject prod.collapse)
qed

text \<open>Occurrences that overlap count once, so an ambiguous edit passes as unique.\<close>

lemma overlapping_edit_accepted:
  "edit_allowed (strict_edit ''aXa'' ''b'') ''aXaXa'' \<and> has_prefix (drop 2 ''aXaXa'') ''aXa''"
  by code_simp

section \<open>The protected directory\<close>

definition under_creds :: "string \<Rightarrow> bool" where
  "under_creds p \<longleftrightarrow> p = credsMountPath \<or> has_prefix p (credsMountPath @ ''/'')"

definition agree_outside :: "fsys \<Rightarrow> fsys \<Rightarrow> bool" where
  "agree_outside s t \<longleftrightarrow> fs_cwd s = fs_cwd t \<and> (\<forall>p. \<not> under_creds p \<longrightarrow> fs_files s p = fs_files t p)"

lemma absolute_protected: "is_abs p \<Longrightarrow> isProtectedReadPath p \<longleftrightarrow> under_creds (resolve s p)"
  by (auto simp: isProtectedReadPath_def under_creds_def resolve_def is_abs_def has_prefix_def)

lemma open_agrees:
  assumes "agree_outside s t" "is_abs p" "\<not> isProtectedReadPath p"
  shows "open_file os p s = open_file os p t"
proof -
  have "resolve t p = resolve s p" using assms(2) by (simp add: resolve_def)
  moreover have "fs_files s (resolve s p) = fs_files t (resolve s p)"
    using assms absolute_protected [of p s] by (simp add: agree_outside_def)
  ultimately show ?thesis by (simp add: open_file_def split: option.split)
qed


definition creds_fs :: "string \<Rightarrow> fsys" where
  "creds_fs token = \<lparr>fs_cwd = ''/workspace'', fs_files = [''/etc/sandbox/creds/token'' \<mapsto> (token, 384), ''/workspace/a'' \<mapsto> (''plain'', 420)]\<rparr>"


lemma clean_segs_no_slash:
  "list_all (\<lambda>s. s \<noteq> [] \<and> CHR ''/'' \<notin> set s) st \<Longrightarrow> list_all (\<lambda>s. CHR ''/'' \<notin> set s) ss \<Longrightarrow>
   list_all (\<lambda>s. s \<noteq> [] \<and> CHR ''/'' \<notin> set s) (clean_segs False st ss)"
proof (induction ss arbitrary: st)
  case (Cons s ss)
  then show ?case by (cases st) auto
qed (simp add: list_all_iff)

lemma clean_relative: "\<not> is_abs p \<Longrightarrow> \<not> is_abs (path_clean p)"
proof -
  define segs where "segs = clean_segs False [] (split_on (CHR ''/'') p)"
  have "list_all (\<lambda>s. s \<noteq> [] \<and> CHR ''/'' \<notin> set s) segs"
    unfolding segs_def by (rule clean_segs_no_slash) (simp_all add: split_on_no_slash)
  then have "segs \<noteq> [] \<Longrightarrow> \<not> is_abs (join_str ''/'' segs)"
    by (cases segs rule: remdups_adj.cases) (auto simp: is_abs_iff append_eq_Cons_conv)
  then show "\<not> is_abs p \<Longrightarrow> \<not> is_abs (path_clean p)"
    by (auto simp: path_clean_def Let_def segs_def is_abs_iff)
qed

text \<open>No relative path counts as protected: whatever file a relative path leads to, the credentials included, is
  read out.\<close>

theorem relative_path_unprotected:
  assumes "\<not> is_abs p" "p \<noteq> []" "fs_files s (path_clean (fs_cwd s @ ''/'' @ p)) = Some (v, m)" "int (length v) < defaultReadMaxBytes"
  shows "\<exists>d. FileReadHandler (calm tmp) (Some (read_all p)) s = FileRead d \<and> rd_Content d = text_read v"
proof -
  have "\<not> isProtectedReadPath p"
    using clean_relative [OF assms(1)] by (auto simp: isProtectedReadPath_def credsMountPath_def is_abs_iff has_prefix_iff)
  moreover have "open_file (calm tmp) p s = Inr v" using assms by (simp add: open_file_def resolve_def)
  ultimately show ?thesis using read_all_reply [OF assms(2) _ assms(4), of tmp s] by blast
qed

theorem relative_path_unprotected_witness:
  "\<exists>d. FileReadHandler (calm ''/workspace/t'') (Some (read_all ''../etc/sandbox/creds/token'')) (creds_fs ''secret'') = FileRead d \<and>
     rd_Content d = ''secret''"
proof -
  have "\<not> is_abs ''../etc/sandbox/creds/token''" "int (length ''secret'') < defaultReadMaxBytes" "text_read ''secret'' = ''secret''"
      "fs_files (creds_fs ''secret'') (path_clean (fs_cwd (creds_fs ''secret'') @ ''/'' @ ''../etc/sandbox/creds/token'')) = Some (''secret'', 384)"
    by code_simp+
  then show ?thesis
    using relative_path_unprotected [of "''../etc/sandbox/creds/token''" "creds_fs ''secret''" "''secret''" 384 "''/workspace/t''"] by simp
qed

end
