(* ===== verification/Rt_Upload.thy ===== *)
theory Rt_Upload
  imports Rt_Editing
begin

text \<open>
  Upload and download (\<open>pkg/handlers/file_io.go\<close>): the parts of a multipart body in their order, with where and how
  reading one of them ends, and the streaming of a part to the disk.
\<close>

section \<open>The body\<close>

datatype body_end = Complete | Broken string | OverLimit

record upload_meta =
  um_Path :: string
  um_Mode :: string
  um_Overwrite :: bool

record part =
  pt_Name :: string
  pt_Data :: bytes
  pt_End :: body_end

text \<open>What ends the sequence of parts: \<open>io.EOF\<close>, or an error of \<open>NextPart\<close>.\<close>

type_synonym multipart = "part list \<times> string option"

datatype upload_refusal = MultipartRequired | BadPart string | MetadataUnread | MetadataInvalid | TwoFiles | NoDestination
  | PathNotAbsolute | BadMode string | FileExists | UploadTooLarge | UploadFailed string | FilePartMissing

datatype upload_reply = UploadError nat upload_refusal | Uploaded string int nat

abbreviation "StatusConflict \<equiv> (409::nat)"
abbreviation "StatusRequestEntityTooLarge \<equiv> (413::nat)"

text \<open>\<open>strconv.ParseUint(m.Mode, 8, 32)\<close>, and the permission bits of the number.\<close>

definition parsedMode :: "upload_meta \<Rightarrow> nat option" where
  "parsedMode m =
     (if um_Mode m = [] then Some mode_rw
      else (case parse_uint 8 (um_Mode m) of
          Some v \<Rightarrow> if v < 2 ^ 32 then Some (v mod 512) else None
        | None \<Rightarrow> None))"

section \<open>Streaming\<close>

datatype stream_error = StreamExists | StreamLimit | StreamOther string

text \<open>Opening: with \<open>O_EXCL\<close> an existing file is an error; with \<open>O_TRUNC\<close> it is emptied and keeps its permissions.
  After an error while copying or closing, the file is removed.\<close>

definition streamUploadToDisk :: "os_env \<Rightarrow> part \<Rightarrow> string \<Rightarrow> bool \<Rightarrow> nat \<Rightarrow> fsys \<Rightarrow> (stream_error + int) \<times> fsys" where
  "streamUploadToDisk os src path ov mode s =
     (case os_fault os MkdirCall of
        Some e \<Rightarrow> (Inl (StreamOther e), s)
      | None \<Rightarrow>
          (case os_fault os OpenCall of
             Some e \<Rightarrow> (Inl (StreamOther e), s)
           | None \<Rightarrow>
               (let f = resolve s path;
                    removed = (\<lambda>t. if os_fault os RemoveCall = None then del_file f t else t)
                in if \<not> ov \<and> fs_files s f \<noteq> None then (Inl StreamExists, s)
                   else (let perm = (case fs_files s f of Some c \<Rightarrow> snd c | None \<Rightarrow> mode) in
                     case os_fault os WriteCall of
                       Some e \<Rightarrow> (Inl (StreamOther e), removed (put_file f (take (os_partial os) (pt_Data src), perm) s))
                     | None \<Rightarrow>
                         (let s1 = put_file f (pt_Data src, perm) s in
                          case pt_End src of
                            Broken e \<Rightarrow> (Inl (StreamOther e), removed s1)
                          | OverLimit \<Rightarrow> (Inl StreamLimit, removed s1)
                          | Complete \<Rightarrow>
                              (case os_fault os CloseCall of
                                 Some e \<Rightarrow> (Inl (StreamOther e), removed s1)
                               | None \<Rightarrow> (Inr (int (length (pt_Data src))), s1)))))))"

section \<open>The loop over the parts\<close>

text \<open>\<open>unmarshal\<close> is \<open>json.Unmarshal\<close> into the metadata gathered so far.\<close>

fun upload_loop :: "os_env \<Rightarrow> (bytes \<Rightarrow> upload_meta \<Rightarrow> upload_meta option) \<Rightarrow> part list \<Rightarrow> string option \<Rightarrow> upload_meta \<Rightarrow> int option
    \<Rightarrow> fsys \<Rightarrow> upload_reply \<times> fsys" where
  "upload_loop os unmarshal [] ending meta written s =
     (case ending of
        Some e \<Rightarrow> (UploadError StatusBadRequest (BadPart e), s)
      | None \<Rightarrow>
          (case written of
             None \<Rightarrow> (UploadError StatusBadRequest FilePartMissing, s)
           | Some n \<Rightarrow> (Uploaded (um_Path meta) n (case parsedMode meta of Some m \<Rightarrow> m | None \<Rightarrow> 0), s)))"
| "upload_loop os unmarshal (p # ps) ending meta written s =
     (if pt_Name p = ''metadata'' then
        (if length (pt_Data p) \<le> 65536 \<and> pt_End p \<noteq> Complete then (UploadError StatusBadRequest MetadataUnread, s)
         else (case unmarshal (take 65536 (pt_Data p)) meta of
             None \<Rightarrow> (UploadError StatusBadRequest MetadataInvalid, s)
           | Some meta' \<Rightarrow> upload_loop os unmarshal ps ending meta' written s))
      else if pt_Name p = ''path'' then
        upload_loop os unmarshal ps ending
          (if (length (pt_Data p) > 4096 \<or> pt_End p = Complete) \<and> um_Path meta = []
           then meta\<lparr>um_Path := take 4096 (pt_Data p)\<rparr> else meta) written s
      else if pt_Name p = ''overwrite'' then
        upload_loop os unmarshal ps ending
          (if take 8 (pt_Data p) = ''true'' then meta\<lparr>um_Overwrite := True\<rparr> else meta) written s
      else if pt_Name p = ''file'' then
        (if written \<noteq> None then (UploadError StatusBadRequest TwoFiles, s)
         else if um_Path meta = [] then (UploadError StatusBadRequest NoDestination, s)
         else if \<not> is_abs (um_Path meta) then (UploadError StatusBadRequest PathNotAbsolute, s)
         else (case parsedMode meta of
             None \<Rightarrow> (UploadError StatusBadRequest (BadMode (um_Mode meta)), s)
           | Some mode \<Rightarrow>
               (case streamUploadToDisk os p (um_Path meta) (um_Overwrite meta) mode s of
                  (Inl StreamExists, s') \<Rightarrow> (UploadError StatusConflict FileExists, s')
                | (Inl StreamLimit, s') \<Rightarrow> (UploadError StatusRequestEntityTooLarge UploadTooLarge, s')
                | (Inl (StreamOther e), s') \<Rightarrow> (UploadError StatusInternalServerError (UploadFailed e), s')
                | (Inr n, s') \<Rightarrow> upload_loop os unmarshal ps ending meta (Some n) s')))
      else upload_loop os unmarshal ps ending meta written s)"

text \<open>The query parameters \<open>path\<close> and \<open>overwrite\<close> come first.\<close>

definition FileUploadHandler :: "os_env \<Rightarrow> (bytes \<Rightarrow> upload_meta \<Rightarrow> upload_meta option) \<Rightarrow> string \<Rightarrow> string \<Rightarrow> multipart option \<Rightarrow> fsys
    \<Rightarrow> upload_reply \<times> fsys" where
  "FileUploadHandler os unmarshal qpath qoverwrite body s =
     (case body of
        None \<Rightarrow> (UploadError StatusBadRequest MultipartRequired, s)
      | Some (parts, ending) \<Rightarrow>
          upload_loop os unmarshal parts ending \<lparr>um_Path = qpath, um_Mode = [], um_Overwrite = (qoverwrite = ''true'')\<rparr> None s)"

datatype download_reply = DownloadError nat | Serve bytes

definition FileDownloadHandler :: "os_env \<Rightarrow> string \<Rightarrow> fsys \<Rightarrow> download_reply" where
  "FileDownloadHandler os path s =
     (if path = [] then DownloadError StatusBadRequest
      else if \<not> is_abs path then DownloadError StatusBadRequest
      else if isProtectedReadPath path then DownloadError StatusForbidden
      else (case os_fault os OpenCall of
          Some e \<Rightarrow> DownloadError StatusInternalServerError
        | None \<Rightarrow>
            (case fs_files s (resolve s path) of
               None \<Rightarrow> DownloadError StatusNotFound
             | Some c \<Rightarrow> if os_fault os ReadCall \<noteq> None then DownloadError StatusInternalServerError else Serve (fst c))))"

definition envInt64 :: "(string \<Rightarrow> string) \<Rightarrow> string \<Rightarrow> int \<Rightarrow> int" where
  "envInt64 env key fallback =
     (if env key = [] then fallback
      else (case parse_int (env key) of Some n \<Rightarrow> if n \<le> 0 then fallback else n | None \<Rightarrow> fallback))"

section \<open>What an upload does\<close>

definition file_part :: "bytes \<Rightarrow> body_end \<Rightarrow> part" where
  "file_part d e = \<lparr>pt_Name = ''file'', pt_Data = d, pt_End = e\<rparr>"

text \<open>Nothing but the destinations named by the query or the parts is touched, and without leave to overwrite no
  file that exists.\<close>

lemma stream_frame:
  "streamUploadToDisk os p path ov mode s = (r, s') \<Longrightarrow> fs_files s f \<noteq> None \<Longrightarrow> \<not> ov \<Longrightarrow> fs_files s' f = fs_files s f"
  by (auto simp: streamUploadToDisk_def Let_def split: option.splits if_splits body_end.splits)

text \<open>Whether some part gives leave to overwrite.\<close>

definition never_overwrites :: "(bytes \<Rightarrow> upload_meta \<Rightarrow> upload_meta option) \<Rightarrow> part list \<Rightarrow> bool" where
  "never_overwrites unmarshal ps \<longleftrightarrow>
     (\<forall>p \<in> set ps. pt_Name p = ''overwrite'' \<longrightarrow> take 8 (pt_Data p) \<noteq> ''true'') \<and>
     (\<forall>p \<in> set ps. pt_Name p = ''metadata'' \<longrightarrow>
        (\<forall>m m'. unmarshal (take 65536 (pt_Data p)) m = Some m' \<longrightarrow> um_Overwrite m' = um_Overwrite m))"

lemma upload_loop_keeps:
  assumes "never_overwrites unmarshal ps" "\<not> um_Overwrite meta" "fs_files s f \<noteq> None"
  shows "fs_files (snd (upload_loop os unmarshal ps ending meta written s)) f = fs_files s f"
  using assms
proof (induction ps arbitrary: meta written s)
  case Nil
  then show ?case by (simp split: option.split)
next
  case (Cons p ps)
  have rest: "never_overwrites unmarshal ps" using Cons.prems(1) by (simp add: never_overwrites_def)
  note IH = Cons.IH [OF rest]
  consider "pt_Name p = ''metadata''" | "pt_Name p = ''path''" | "pt_Name p = ''overwrite''" | "pt_Name p = ''file''"
    | "pt_Name p \<notin> {''metadata'', ''path'', ''overwrite'', ''file''}" by auto
  then show ?case
  proof cases
    case 1
    then have "unmarshal (take 65536 (pt_Data p)) meta = Some m' \<Longrightarrow> \<not> um_Overwrite m'" for m'
      using Cons.prems(1,2) by (simp add: never_overwrites_def)
    then show ?thesis using 1 IH Cons.prems(3) by (simp split: option.split)
  next
    case 3
    then show ?thesis using IH Cons.prems by (simp add: never_overwrites_def)
  next
    case 4
    have "streamUploadToDisk os p (um_Path meta) (um_Overwrite meta) mode s = (r, s') \<Longrightarrow> fs_files s' f = fs_files s f" for mode r s'
      using stream_frame [of os p "um_Path meta" "um_Overwrite meta" mode s r s' f] Cons.prems(2,3) by simp
    then show ?thesis
      using 4 IH Cons.prems(2,3) by (auto split: option.split sum.split prod.split stream_error.split)
  qed (use IH Cons.prems in simp_all)
qed

text \<open>An upload without leave to overwrite, whatever its parts and however it ends, leaves every file that exists
  as it is; its reply to an attempt on one is a conflict.\<close>

theorem upload_preserves:
  assumes "qoverwrite \<noteq> ''true''" "never_overwrites unmarshal ps" "fs_files s f \<noteq> None"
  shows "fs_files (snd (FileUploadHandler os unmarshal path qoverwrite (Some (ps, ending)) s)) f = fs_files s f"
  using upload_loop_keeps [OF assms(2) _ assms(3), of "\<lparr>um_Path = path, um_Mode = [], um_Overwrite = (qoverwrite = ''true'')\<rparr>"] assms(1)
  by (simp add: FileUploadHandler_def)

definition no_metadata :: "bytes \<Rightarrow> upload_meta \<Rightarrow> upload_meta option" where
  "no_metadata b m = None"

theorem upload_preserves_witness:
  "fs_files (snd (FileUploadHandler (calm ''/t'') no_metadata ''/workspace/a'' [] (Some ([file_part ''new'' Complete], None)) demo_fs)) ''/workspace/a''
     = Some (''one two two'', 493)"
proof -
  have "never_overwrites no_metadata [file_part ''new'' Complete]" by (simp add: never_overwrites_def file_part_def)
  moreover have "fs_files demo_fs ''/workspace/a'' = Some (''one two two'', 493)" by (simp add: demo_fs_def)
  ultimately show ?thesis
    using upload_preserves [of "[]" no_metadata "[file_part ''new'' Complete]" demo_fs "''/workspace/a''" "calm ''/t''" "''/workspace/a''" None]
    by simp
qed

text \<open>An upload with leave to overwrite whose body breaks off or is too large leaves no file at its destination, not even the
  one that was there before.\<close>

theorem broken_upload_destroys:
  assumes "is_abs path" "e \<noteq> Complete"
  shows "fs_files (snd (FileUploadHandler (calm tmp) unmarshal path ''true'' (Some (file_part d e # ps, ending)) s)) (resolve s path) = None"
  using assms by (cases e) (auto simp: FileUploadHandler_def file_part_def streamUploadToDisk_def parsedMode_def is_abs_iff Let_def)

theorem broken_upload_destroys_witness:
  "fs_files demo_fs ''/workspace/a'' \<noteq> None \<and>
   fs_files (snd (FileUploadHandler (calm ''/t'') no_metadata ''/workspace/a'' ''true''
     (Some ([file_part ''half'' (Broken ''unexpected EOF'')], Some ''unexpected EOF'')) demo_fs)) ''/workspace/a'' = None"
proof -
  have "is_abs ''/workspace/a''" "resolve demo_fs ''/workspace/a'' = ''/workspace/a''" "fs_files demo_fs ''/workspace/a'' \<noteq> None"
    by code_simp+
  then show ?thesis
    using broken_upload_destroys [of "''/workspace/a''" "Broken ''unexpected EOF''" "''/t''" no_metadata "''half''" "[]" "Some ''unexpected EOF''" demo_fs]
    by simp
qed

end
