(* ===== verification/Json_Tree.thy ===== *)
theory Json_Tree
  imports Json
begin

text \<open>
  JSON values with arrays and objects, as \<open>json.Marshal\<close> and \<open>json.MarshalIndent\<close> write them and as
  \<open>json.Unmarshal\<close> reads them: white space is allowed between tokens, numbers are whole. A layout says what is
  written between the tokens; whatever the layout, what is written is read back.
\<close>

datatype jv = JNull | JBool bool | JNum int | JText string | JArr "jv list" | JObj "(string \<times> jv) list"

definition json_space :: "char \<Rightarrow> bool" where
  "json_space c \<longleftrightarrow> c \<in> {CHR '' '', CHR 0x09, CHR 0x0A, CHR 0x0D}"

abbreviation "skip_ws \<equiv> dropWhile json_space"

section \<open>Writing\<close>

text \<open>\<open>sp k\<close> stands before a token at depth \<open>k\<close>; \<open>col\<close> separates a key from its value.\<close>

fun render :: "(nat \<Rightarrow> string) \<Rightarrow> string \<Rightarrow> nat \<Rightarrow> jv \<Rightarrow> string" where
  "render sp col k JNull = ''null''"
| "render sp col k (JBool b) = (if b then ''true'' else ''false'')"
| "render sp col k (JNum i) = format_int i"
| "render sp col k (JText s) = json_string s"
| "render sp col k (JArr vs) =
     (if vs = [] then ''[]''
      else ''['' @ sp (Suc k) @ join_str ('','' @ sp (Suc k)) (map (render sp col (Suc k)) vs) @ sp k @ '']'')"
| "render sp col k (JObj ms) =
     (if ms = [] then ''{}''
      else ''{'' @ sp (Suc k) @ join_str ('','' @ sp (Suc k)) (map (\<lambda>(key, v). json_string key @ col @ render sp col (Suc k) v) ms)
        @ sp k @ ''}'')"

definition marshal :: "jv \<Rightarrow> string" where
  "marshal v = render (\<lambda>_. []) '':'' 0 v"

definition two_spaces :: "nat \<Rightarrow> string" where
  "two_spaces k = CHR 0x0A # replicate (2 * k) (CHR '' '')"

definition marshal_indent :: "jv \<Rightarrow> string" where
  "marshal_indent v = render two_spaces '': '' 0 v"

section \<open>Reading\<close>

text \<open>The fuel bounds the depth of the calls; the length of the text is enough of it.\<close>

fun parse_val :: "nat \<Rightarrow> string \<Rightarrow> (jv \<times> string) option"
and parse_elems :: "nat \<Rightarrow> string \<Rightarrow> (jv list \<times> string) option"
and parse_membs :: "nat \<Rightarrow> string \<Rightarrow> ((string \<times> jv) list \<times> string) option" where
  "parse_val 0 s = None"
| "parse_val (Suc n) s =
     (case skip_ws s of
        [] \<Rightarrow> None
      | c # r \<Rightarrow>
          if c = quote then map_option (\<lambda>(x, r). (JText x, r)) (read_string r)
          else if c = CHR ''['' then
            (if has_prefix (skip_ws r) '']'' then Some (JArr [], tl (skip_ws r))
             else map_option (\<lambda>(vs, r). (JArr vs, r)) (parse_elems n r))
          else if c = CHR ''{'' then
            (if has_prefix (skip_ws r) ''}'' then Some (JObj [], tl (skip_ws r))
             else map_option (\<lambda>(ms, r). (JObj ms, r)) (parse_membs n r))
          else if has_prefix (c # r) ''null'' then Some (JNull, drop 4 (c # r))
          else if has_prefix (c # r) ''true'' then Some (JBool True, drop 4 (c # r))
          else if has_prefix (c # r) ''false'' then Some (JBool False, drop 5 (c # r))
          else (case parse_int (takeWhile int_char (c # r)) of
              Some i \<Rightarrow> Some (JNum i, dropWhile int_char (c # r))
            | None \<Rightarrow> None))"
| "parse_elems 0 s = None"
| "parse_elems (Suc n) s =
     (case parse_val n s of
        None \<Rightarrow> None
      | Some (v, r) \<Rightarrow>
          (case skip_ws r of
             [] \<Rightarrow> None
           | c # r' \<Rightarrow>
               if c = CHR '']'' then Some ([v], r')
               else if c = CHR '','' then map_option (\<lambda>(vs, r). (v # vs, r)) (parse_elems n r')
               else None))"
| "parse_membs 0 s = None"
| "parse_membs (Suc n) s =
     (case skip_ws s of
        [] \<Rightarrow> None
      | q # r1 \<Rightarrow>
          if q \<noteq> quote then None
          else (case read_string r1 of
              None \<Rightarrow> None
            | Some (k, r2) \<Rightarrow>
                (case skip_ws r2 of
                   [] \<Rightarrow> None
                 | c # r3 \<Rightarrow>
                     if c \<noteq> CHR '':'' then None
                     else (case parse_val n r3 of
                         None \<Rightarrow> None
                       | Some (v, r4) \<Rightarrow>
                           (case skip_ws r4 of
                              [] \<Rightarrow> None
                            | d # r5 \<Rightarrow>
                                if d = CHR ''}'' then Some ([(k, v)], r5)
                                else if d = CHR '','' then map_option (\<lambda>(ms, r). ((k, v) # ms, r)) (parse_membs n r5)
                                else None)))))"

definition unmarshal_value :: "string \<Rightarrow> jv option" where
  "unmarshal_value s = (case parse_val (Suc (length s)) s of
     Some (v, r) \<Rightarrow> if skip_ws r = [] then Some v else None
   | None \<Rightarrow> None)"

section \<open>What is written is read back\<close>

fun numbers_ok :: "jv \<Rightarrow> bool" where
  "numbers_ok (JNum i) \<longleftrightarrow> - (2 ^ 63) \<le> i \<and> i < 2 ^ 63"
| "numbers_ok (JArr vs) \<longleftrightarrow> list_all numbers_ok vs"
| "numbers_ok (JObj ms) \<longleftrightarrow> list_all (\<lambda>(k, v). numbers_ok v) ms"
| "numbers_ok _ \<longleftrightarrow> True"

fun cost :: "jv \<Rightarrow> nat" where
  "cost (JArr vs) = Suc (sum_list (map (\<lambda>v. Suc (cost v)) vs))"
| "cost (JObj ms) = Suc (sum_list (map (\<lambda>(k, v). Suc (cost v)) ms))"
| "cost _ = 1"

definition layout :: "(nat \<Rightarrow> string) \<Rightarrow> string \<Rightarrow> bool" where
  "layout sp col \<longleftrightarrow> (\<forall>k. list_all json_space (sp k)) \<and> (\<exists>w. col = '':'' @ w \<and> list_all json_space w)"

definition stops :: "string \<Rightarrow> bool" where
  "stops rest \<longleftrightarrow> rest = [] \<or> \<not> int_char (hd rest)"

lemma skip_space: "list_all json_space w \<Longrightarrow> skip_ws (w @ s) = skip_ws s"
  by (induction w) simp_all

lemma not_space [simp]:
  "\<not> json_space quote" "\<not> json_space (CHR ''['')" "\<not> json_space (CHR ''{'')" "\<not> json_space (CHR '']'')" "\<not> json_space (CHR ''}'')"
  "\<not> json_space (CHR '','')" "\<not> json_space (CHR '':'')" "\<not> json_space (CHR ''n'')" "\<not> json_space (CHR ''t'')" "\<not> json_space (CHR ''f'')"
  by (simp_all add: json_space_def quote_def)

lemma int_char_not_space: "int_char c \<Longrightarrow> \<not> json_space c"
  by (auto simp: int_char_def json_space_def less_eq_char_def)

lemma int_char_plain: "int_char c \<Longrightarrow> c \<noteq> quote \<and> c \<notin> {CHR ''['', CHR ''{'', CHR '']'', CHR ''}'', CHR ''n'', CHR ''t'', CHR ''f''}"
  by (auto simp: int_char_def quote_def less_eq_char_def)

lemma stops_space: "list_all json_space w \<Longrightarrow> stops rest \<Longrightarrow> stops (w @ rest)"
  by (cases w) (auto simp: stops_def dest: int_char_not_space)

lemma stops_punct [simp]: "stops (CHR '']'' # r)" "stops (CHR ''}'' # r)" "stops (CHR '','' # r)"
  by (simp_all add: stops_def int_char_def less_eq_char_def)

lemma render_head: "\<exists>c cs. render sp col k v = c # cs \<and> \<not> json_space c \<and> c \<noteq> CHR '']''"
proof (cases v)
  case (JNum i)
  obtain c cs where c: "format_int i = c # cs" using format_int_hd [of i] by (cases "format_int i") auto
  then have "int_char c" using format_int_chars [of i] by simp
  then show ?thesis using c JNum int_char_not_space [of c] int_char_plain [of c] by simp
qed (auto simp: json_string_def quote_def json_space_def)

text \<open>What is to be shown of a value, for every fuel, depth and text behind it.\<close>

definition reads_back :: "(nat \<Rightarrow> string) \<Rightarrow> string \<Rightarrow> jv \<Rightarrow> bool" where
  "reads_back sp col v \<longleftrightarrow> (\<forall>n k w rest. cost v \<le> n \<longrightarrow> list_all json_space w \<longrightarrow> stops rest \<longrightarrow>
     parse_val n (w @ render sp col k v @ rest) = Some (v, rest))"

lemma reads_backD: "reads_back sp col v \<Longrightarrow> cost v \<le> n \<Longrightarrow> list_all json_space w \<Longrightarrow> stops rest \<Longrightarrow>
    parse_val n (w @ render sp col k v @ rest) = Some (v, rest)"
  by (simp add: reads_back_def)

lemma cost_pos: "0 < cost v"
  by (cases v) simp_all

lemma parse_elems_render:
  assumes lay: "layout sp col" and "vs \<noteq> []" "\<forall>v \<in> set vs. reads_back sp col v"
    and "sum_list (map (\<lambda>v. Suc (cost v)) vs) \<le> n" "list_all json_space w"
  shows "parse_elems n (w @ join_str ('','' @ sp j) (map (render sp col k) vs) @ sp i @ '']'' @ rest) = Some (vs, rest)"
  using assms(2-)
proof (induction vs arbitrary: n w)
  case (Cons v vs)
  obtain m where n: "n = Suc m" and m: "cost v \<le> m" "sum_list (map (\<lambda>v. Suc (cost v)) vs) \<le> m" using Cons.prems(3) by (cases n) auto
  have v: "reads_back sp col v" using Cons.prems by simp
  have sp: "list_all json_space (sp i)" for i using lay by (simp add: layout_def)
  show ?case
  proof (cases "vs = []")
    case True
    then show ?thesis
      using reads_backD [OF v m(1) Cons.prems(4), of "sp i @ CHR '']'' # rest" k] stops_space [OF sp]
      by (simp add: n skip_space [OF sp])
  next
    case False
    let ?more = "join_str ('','' @ sp j) (map (render sp col k) vs) @ sp i @ '']'' @ rest"
    have "parse_elems m (sp j @ ?more) = Some (vs, rest)"
      using Cons.IH [OF False _ m(2) sp] Cons.prems by simp
    moreover have "parse_val m (w @ render sp col k v @ '','' @ sp j @ ?more) = Some (v, '','' @ sp j @ ?more)"
      using reads_backD [OF v m(1) Cons.prems(4)] by simp
    moreover have "join_str ('','' @ sp j) (map (render sp col k) (v # vs)) = render sp col k v @ '','' @ sp j @ join_str ('','' @ sp j) (map (render sp col k) vs)"
      using False by (cases vs) simp_all
    ultimately show ?thesis by (simp add: n)
  qed
qed simp

lemma parse_membs_render:
  assumes lay: "layout sp col" and "ms \<noteq> []" "\<forall>(key, v) \<in> set ms. reads_back sp col v"
    and "sum_list (map (\<lambda>(key, v). Suc (cost v)) ms) \<le> n" "list_all json_space w"
  shows "parse_membs n (w @ join_str ('','' @ sp j) (map (\<lambda>(key, v). json_string key @ col @ render sp col k v) ms) @ sp i @ ''}'' @ rest) = Some (ms, rest)"
  using assms(2-)
proof (induction ms arbitrary: n w)
  case (Cons m0 ms)
  obtain key v where m0: "m0 = (key, v)" by (cases m0)
  obtain m where n: "n = Suc m" and m: "cost v \<le> m" "sum_list (map (\<lambda>(key, v). Suc (cost v)) ms) \<le> m"
    using Cons.prems(3) m0 by (cases n) auto
  have v: "reads_back sp col v" using Cons.prems m0 by simp
  have sp: "list_all json_space (sp i)" for i using lay by (simp add: layout_def)
  obtain cw where col: "col = '':'' @ cw" "list_all json_space cw" using lay by (auto simp: layout_def)
  have key: "skip_ws (w @ json_string key @ r) = quote # concat (map escape_char key) @ quote # r" for r
    using skip_space [OF Cons.prems(4)] by (simp add: json_string_def)
  show ?case
  proof (cases "ms = []")
    case True
    then show ?thesis
      using reads_backD [OF v m(1) col(2), of "sp i @ CHR ''}'' # rest" k] stops_space [OF sp] key
      by (simp add: n m0 col(1) read_string_json_string skip_space [OF sp])
  next
    case False
    let ?more = "join_str ('','' @ sp j) (map (\<lambda>(key, v). json_string key @ col @ render sp col k v) ms) @ sp i @ ''}'' @ rest"
    have "parse_membs m (sp j @ ?more) = Some (ms, rest)"
      using Cons.IH [OF False _ m(2) sp] Cons.prems by simp
    moreover have "parse_val m (cw @ render sp col k v @ '','' @ sp j @ ?more) = Some (v, '','' @ sp j @ ?more)"
      using reads_backD [OF v m(1) col(2)] by simp
    moreover have "join_str ('','' @ sp j) (map (\<lambda>(key, v). json_string key @ col @ render sp col k v) (m0 # ms)) =
        json_string key @ col @ render sp col k v @ '','' @ sp j @ join_str ('','' @ sp j) (map (\<lambda>(key, v). json_string key @ col @ render sp col k v) ms)"
      using False m0 by (cases ms) simp_all
    ultimately show ?thesis using key by (simp add: n m0 col(1) read_string_json_string)
  qed
qed simp

lemma reads_back_value:
  assumes lay: "layout sp col"
  shows "numbers_ok v \<Longrightarrow> reads_back sp col v"
proof (induction v)
  case (JNum i)
  have i: "parse_int (format_int i) = Some i" using JNum by (simp add: parse_int_format)
  have "parse_val n (w @ format_int i @ rest) = Some (JNum i, rest)" if n1: "1 \<le> n" and "list_all json_space w" "stops rest" for n w rest
  proof -
    obtain m where n: "n = Suc m" using n1 by (cases n) auto
    obtain c cs where c: "format_int i = c # cs" using format_int_hd [of i] by (cases "format_int i") auto
    then have ic: "int_char c" using format_int_chars [of i] by simp
    have t: "takeWhile int_char (format_int i @ rest) = format_int i" "dropWhile int_char (format_int i @ rest) = rest"
      using format_int_chars [of i] that(3) by (cases rest; simp add: stops_def takeWhile_append2 dropWhile_append2)+
    have "skip_ws (w @ format_int i @ rest) = c # cs @ rest"
      using skip_space [OF that(2)] c int_char_not_space [OF ic] by simp
    then show ?thesis using int_char_plain [OF ic] i t c by (simp add: n has_prefix_def)
  qed
  then show ?case by (simp add: reads_back_def)
next
  case (JText s)
  have "parse_val n (w @ json_string s @ rest) = Some (JText s, rest)" if "1 \<le> n" "list_all json_space w" for n w rest
    using that skip_space [OF that(2)] by (cases n) (simp_all add: json_string_def read_string_json_string)
  then show ?case by (simp add: reads_back_def)
next
  case (JArr vs)
  have vs: "\<forall>v \<in> set vs. reads_back sp col v" using JArr by (auto simp: list_all_iff)
  have sp: "list_all json_space (sp i)" for i using lay by (simp add: layout_def)
  have "parse_val n (w @ render sp col k (JArr vs) @ rest) = Some (JArr vs, rest)"
    if "cost (JArr vs) \<le> n" "list_all json_space w" for n k w rest
  proof -
    have "Suc (sum_list (map (\<lambda>v. Suc (cost v)) vs)) \<le> n" using that(1) by simp
    then obtain m where n: "n = Suc m" and m: "sum_list (map (\<lambda>v. Suc (cost v)) vs) \<le> m" by (auto simp: Suc_le_eq less_iff_Suc_add)
    show ?thesis
    proof (cases "vs = []")
      case True
      then show ?thesis using skip_space [OF that(2)] by (simp add: n quote_def has_prefix_def)
    next
      case False
      let ?body = "sp (Suc k) @ join_str ('','' @ sp (Suc k)) (map (render sp col (Suc k)) vs) @ sp k @ '']'' @ rest"
      obtain v vs' where vs': "vs = v # vs'" using False by (cases vs) auto
      obtain c cs where c: "render sp col (Suc k) v = c # cs" "\<not> json_space c" "c \<noteq> CHR '']''" using render_head by metis
      have "\<exists>r. skip_ws ?body = c # r"
        using c vs' by (cases vs') (simp_all add: skip_space [OF sp])
      then have "\<not> has_prefix (skip_ws ?body) '']''" using c(3) by (auto simp: has_prefix_def)
      moreover have "parse_elems m ?body = Some (vs, rest)"
        by (rule parse_elems_render [OF lay False vs m sp])
      ultimately show ?thesis using False skip_space [OF that(2)] by (simp add: n quote_def)
    qed
  qed
  then show ?case by (simp add: reads_back_def del: render.simps)
next
  case (JObj ms)
  have ms: "\<forall>(key, v) \<in> set ms. reads_back sp col v" using JObj by (fastforce simp: list_all_iff)
  have sp: "list_all json_space (sp i)" for i using lay by (simp add: layout_def)
  have "parse_val n (w @ render sp col k (JObj ms) @ rest) = Some (JObj ms, rest)"
    if "cost (JObj ms) \<le> n" "list_all json_space w" for n k w rest
  proof -
    have "Suc (sum_list (map (\<lambda>(key, v). Suc (cost v)) ms)) \<le> n" using that(1) by simp
    then obtain m where n: "n = Suc m" and m: "sum_list (map (\<lambda>(key, v). Suc (cost v)) ms) \<le> m" by (auto simp: Suc_le_eq less_iff_Suc_add)
    show ?thesis
    proof (cases "ms = []")
      case True
      then show ?thesis using skip_space [OF that(2)] by (simp add: n quote_def has_prefix_def)
    next
      case False
      let ?body = "sp (Suc k) @ join_str ('','' @ sp (Suc k)) (map (\<lambda>(key, v). json_string key @ col @ render sp col (Suc k) v) ms) @ sp k @ ''}'' @ rest"
      obtain m0 ms' where ms': "ms = m0 # ms'" using False by (cases ms) auto
      have "\<exists>r. skip_ws ?body = quote # r"
        using ms' by (cases ms'; cases m0) (simp_all add: skip_space [OF sp] json_string_def)
      then have "\<not> has_prefix (skip_ws ?body) ''}''" by (auto simp: has_prefix_def quote_def)
      moreover have "parse_membs m ?body = Some (ms, rest)"
        by (rule parse_membs_render [OF lay False ms m sp])
      ultimately show ?thesis using False skip_space [OF that(2)] by (simp add: n quote_def)
    qed
  qed
  then show ?case by (simp add: reads_back_def del: render.simps)
next
  case JNull
  have "parse_val n (w @ ''null'' @ rest) = Some (JNull, rest)" if "1 \<le> n" "list_all json_space w" for n w rest
    using that(1) skip_space [OF that(2)] by (cases n) (simp_all add: quote_def has_prefix_def)
  then show ?case by (simp add: reads_back_def)
next
  case (JBool b)
  have "parse_val n (w @ ''true'' @ rest) = Some (JBool True, rest)" "parse_val n (w @ ''false'' @ rest) = Some (JBool False, rest)"
    if "1 \<le> n" "list_all json_space w" for n w rest
    using that(1) skip_space [OF that(2)] by (cases n; simp add: quote_def has_prefix_def)+
  then show ?case by (simp add: reads_back_def)
qed

lemma cost_length: "cost v \<le> length (render sp col k v)"
proof -
  have join: "sum_list (map (\<lambda>x. Suc (f x)) xs) \<le> Suc (length (join_str (CHR '','' # w) (map g xs)))"
    if "\<And>x. x \<in> set xs \<Longrightarrow> f x \<le> length (g x)" for f :: "'x \<Rightarrow> nat" and g xs w
    using that
  proof (induction xs)
    case (Cons x xs)
    have "f x \<le> length (g x)" "sum_list (map (\<lambda>x. Suc (f x)) xs) \<le> Suc (length (join_str (CHR '','' # w) (map g xs)))"
      using Cons.IH Cons.prems by simp_all
    then show ?case by (cases xs) simp_all
  qed simp
  show ?thesis
  proof (induction sp col k v rule: render.induct)
    case (5 sp col k vs)
    have "sum_list (map (\<lambda>v. Suc (cost v)) vs) \<le> Suc (length (join_str (CHR '','' # sp (Suc k)) (map (render sp col (Suc k)) vs)))"
      if "vs \<noteq> []" by (rule join) (use 5 that in simp)
    then show ?case by auto
  next
    case (6 sp col k ms)
    have "sum_list (map (\<lambda>x. Suc (cost (snd x))) ms) \<le>
        Suc (length (join_str (CHR '','' # sp (Suc k)) (map (\<lambda>(key, v). json_string key @ col @ render sp col (Suc k) v) ms)))"
      if "ms \<noteq> []"
    proof (rule join)
      fix x assume x: "x \<in> set ms"
      obtain key v where kv: "x = (key, v)" by (cases x)
      then have "cost v \<le> length (render sp col (Suc k) v)" using 6 that x by metis
      then show "cost (snd x) \<le> length ((\<lambda>(key, v). json_string key @ col @ render sp col (Suc k) v) x)"
        using kv by simp
    qed
    then show ?case by (auto simp: case_prod_unfold)
  qed (use format_int_hd in \<open>auto simp: json_string_def Suc_le_eq\<close>)
qed

lemma unmarshal_render [roundtrip]:
  assumes "layout sp col" "numbers_ok v" "list_all json_space w"
  shows "unmarshal_value (render sp col k v @ w) = Some v"
proof -
  have "stops w" using stops_space [OF assms(3), of "[]"] by (simp add: stops_def)
  moreover have "cost v \<le> Suc (length (render sp col k v @ w))" using cost_length [of v sp col k] by simp
  ultimately have "parse_val (Suc (length (render sp col k v @ w))) ([] @ render sp col k v @ w) = Some (v, w)"
    by (intro reads_backD [OF reads_back_value [OF assms(1,2)]]) simp_all
  then show ?thesis using skip_space [OF assms(3), of "[]"] by (simp add: unmarshal_value_def)
qed

lemma layouts [simp]: "layout two_spaces '': ''" "layout (\<lambda>_. []) '':''"
  by (auto simp: layout_def two_spaces_def json_space_def list_all_iff)

lemma marshal_roundtrip: "numbers_ok v \<Longrightarrow> unmarshal_value (marshal v) = Some v"
  using unmarshal_render [of "\<lambda>_. []" "'':''" v "[]" 0] by (simp add: marshal_def)

lemma marshal_indent_roundtrip: "numbers_ok v \<Longrightarrow> list_all json_space w \<Longrightarrow> unmarshal_value (marshal_indent v @ w) = Some v"
  by (simp add: marshal_indent_def unmarshal_render)

section \<open>Fields of an object\<close>

text \<open>The last member whose key matches without regard to case.\<close>

definition member :: "(string \<times> jv) list \<Rightarrow> string \<Rightarrow> jv option" where
  "member ms k = map_option snd (find (\<lambda>(k', _). equal_fold k' k) (rev ms))"

text \<open>Filling a field; \<open>None\<close> is a value of the wrong type, \<open>null\<close> leaves the zero value.\<close>

fun as_text :: "jv option \<Rightarrow> string option" where
  "as_text None = Some []"
| "as_text (Some JNull) = Some []"
| "as_text (Some (JText s)) = Some s"
| "as_text (Some _) = None"

fun as_int :: "jv option \<Rightarrow> int option" where
  "as_int None = Some 0"
| "as_int (Some JNull) = Some 0"
| "as_int (Some (JNum i)) = Some i"
| "as_int (Some _) = None"

fun all_some :: "'a option list \<Rightarrow> 'a list option" where
  "all_some [] = Some []"
| "all_some (None # xs) = None"
| "all_some (Some x # xs) = map_option (Cons x) (all_some xs)"

fun as_list :: "(jv \<Rightarrow> 'a option) \<Rightarrow> jv option \<Rightarrow> 'a list option" where
  "as_list f None = Some []"
| "as_list f (Some JNull) = Some []"
| "as_list f (Some (JArr vs)) = all_some (map f vs)"
| "as_list f (Some _) = None"

lemma all_some_map: "(\<And>x. x \<in> set xs \<Longrightarrow> f (g x) = Some x) \<Longrightarrow> all_some (map (f \<circ> g) xs) = Some xs"
  by (induction xs) simp_all

end
