(* ===== verification/Errcode.thy ===== *)
theory Errcode
  imports Json_Tree
begin

text \<open>
  Coded errors (\<open>pkg/errcode/errcode.go\<close>): the code's second character decides the HTTP status, and the body that is
  written can be read back by a client.
\<close>

record coded_error =
  ec_Code :: string
  ec_Message :: string
  ec_Details :: "(string \<times> jv) list"

abbreviation "StatusFailedDependency \<equiv> (424::nat)"

definition HTTPStatus :: "coded_error option \<Rightarrow> nat" where
  "HTTPStatus err =
     (case err of
        None \<Rightarrow> StatusInternalServerError
      | Some e \<Rightarrow>
          if length (ec_Code e) < 2 then StatusInternalServerError
          else (let c = ec_Code e ! 1 in
            if c = CHR ''0'' then StatusBadRequest
            else if c = CHR ''1'' then StatusNotFound
            else if c = CHR ''2'' then 409
            else if c = CHR ''3'' then StatusFailedDependency
            else if c = CHR ''4'' then StatusForbidden
            else StatusInternalServerError))"

definition error_json :: "coded_error \<Rightarrow> jv" where
  "error_json e = JObj ([(''code'', JText (ec_Code e)), (''message'', JText (ec_Message e))]
     @ (if ec_Details e = [] then [] else [(''details'', JObj (ec_Details e))]))"

text \<open>\<open>WriteJSON\<close>: the status and the body, which \<open>Encode\<close> ends with a newline.\<close>

definition WriteJSON :: "coded_error \<Rightarrow> nat \<times> string" where
  "WriteJSON e = (HTTPStatus (Some e), marshal (error_json e) @ [CHR 0x0A])"

definition json_error :: "jv \<Rightarrow> coded_error option" where
  "json_error v =
     (case v of
        JObj ms \<Rightarrow>
          (case (as_text (member ms ''code''), as_text (member ms ''message''), member ms ''details'') of
             (Some c, Some m, None) \<Rightarrow> Some \<lparr>ec_Code = c, ec_Message = m, ec_Details = []\<rparr>
           | (Some c, Some m, Some JNull) \<Rightarrow> Some \<lparr>ec_Code = c, ec_Message = m, ec_Details = []\<rparr>
           | (Some c, Some m, Some (JObj d)) \<Rightarrow> Some \<lparr>ec_Code = c, ec_Message = m, ec_Details = d\<rparr>
           | _ \<Rightarrow> None)
      | JNull \<Rightarrow> Some \<lparr>ec_Code = [], ec_Message = [], ec_Details = []\<rparr>
      | _ \<Rightarrow> None)"

text \<open>An error of the reading, no coded error, or the coded error.\<close>

datatype response_error = EmptyBody | Unreadable | NoCode | CodedResponse coded_error

definition FromHTTPResponse :: "string \<Rightarrow> response_error" where
  "FromHTTPResponse body =
     (if body = [] then EmptyBody
      else (case unmarshal_value body of
          None \<Rightarrow> Unreadable
        | Some v \<Rightarrow> (case json_error v of
              None \<Rightarrow> Unreadable
            | Some e \<Rightarrow> if ec_Code e = [] then NoCode else CodedResponse e)))"

lemma json_error_of: "json_error (error_json e) = Some e"
  by (cases e; cases "ec_Details e = []")
    (simp_all add: error_json_def json_error_def member_def equal_fold_def to_lower_def lower_char_def)

text \<open>A client that reads the body of a coded error gets exactly the code, the message and the details back; the
  status is of the code's class.\<close>

theorem coded_error_roundtrip:
  assumes "ec_Code e \<noteq> []" "numbers_ok (JObj (ec_Details e))"
  shows "FromHTTPResponse (snd (WriteJSON e)) = CodedResponse e \<and> fst (WriteJSON e) \<in> {400, 403, 404, 409, 424, 500}"
proof -
  have "numbers_ok (error_json e)" using assms(2) by (simp add: error_json_def)
  then have "unmarshal_value (marshal (error_json e) @ [CHR 0x0A]) = Some (error_json e)"
    unfolding marshal_def by (intro unmarshal_render) (simp_all add: json_space_def)
  then show ?thesis
    using assms(1) by (simp add: FromHTTPResponse_def WriteJSON_def json_error_of HTTPStatus_def Let_def)
qed

theorem coded_error_roundtrip_witness:
  "FromHTTPResponse (snd (WriteJSON \<lparr>ec_Code = ''B110'', ec_Message = ''no such service'', ec_Details = [(''n'', JNum 3)]\<rparr>)) =
     CodedResponse \<lparr>ec_Code = ''B110'', ec_Message = ''no such service'', ec_Details = [(''n'', JNum 3)]\<rparr>"
  using coded_error_roundtrip [of "\<lparr>ec_Code = ''B110'', ec_Message = ''no such service'', ec_Details = [(''n'', JNum 3)]\<rparr>"] by simp

end
