(* ===== verification/Prov_Bindings.thy ===== *)
theory Prov_Bindings
  imports Rt_Editing Rt_Walk Errcode Rfc3339 Utf8 "HOL-Library.List_Lexorder"
begin

text \<open>
  Service bindings and secrets of a sandbox (\<open>pkg/provisioner/bindings.go\<close>, \<open>secrets.go\<close>, \<open>lockfile.go\<close>, \<open>catalog.go\<close>):
  each value is a file in the sandbox, written and read through the sandbox's own runtime, and the lockfile says
  which ones there are. The runtime's handlers are those of \<open>Rt_Files\<close>.
\<close>

section \<open>The link to a sandbox\<close>

text \<open>The port of the sandbox's service or that there is none, errors of the HTTP calls, and the operating system of
  the sandbox, both by the path that a call is about.\<close>

record sandbox_link =
  sl_Port :: "string + int"
  sl_HTTP :: "string \<Rightarrow> string option"
  sl_OS :: "string \<Rightarrow> os_env"

text \<open>What JSON makes of a Go string: a byte that is no part of valid UTF-8 becomes the replacement rune.\<close>

definition json_text :: "string \<Rightarrow> string" where
  "json_text s = map char_of (concat (map encode_rune (runes_of (map of_char s))))"

definition reachable_port :: "sandbox_link \<Rightarrow> bool" where
  "reachable_port L \<longleftrightarrow> (case sl_Port L of Inl e \<Rightarrow> False | Inr p \<Rightarrow> p \<noteq> 0)"

definition read_reply_json :: "string \<Rightarrow> file_read_data \<Rightarrow> string" where
  "read_reply_json path d = marshal (JObj [(''success'', JBool True), (''message'', JText ''file read''),
     (''data'', JObj ([(''file'', JText path), (''content'', JText (rd_Content d)), (''total_lines'', JNum (rd_TotalLines d)),
        (''start_line'', JNum (rd_StartLine d)), (''end_line'', JNum (rd_EndLine d))] @
        (if rd_Truncated d then [(''truncated'', JBool True)] else [])))]) @ [newline]"

text \<open>\<open>nil\<close> is \<open>None\<close>. A content that is empty falls through to the whole body.\<close>

definition runtimeFileRead :: "sandbox_link \<Rightarrow> string \<Rightarrow> fsys \<Rightarrow> string + bytes option" where
  "runtimeFileRead L path s =
     (if \<not> reachable_port L then Inl ''sandbox not found''
      else (case sl_HTTP L path of
          Some e \<Rightarrow> Inl e
        | None \<Rightarrow>
            (case FileReadHandler (sl_OS L path) (Some (read_all path)) s of
               FileRead d \<Rightarrow>
                 (let content = json_text (rd_Content d) in
                  Inr (Some (if content \<noteq> [] then content else read_reply_json path d)))
             | FileError status e \<Rightarrow> if status = StatusNotFound then Inr None else Inl ''status''
             | _ \<Rightarrow> Inl ''status'')))"

definition runtimeFileWrite :: "sandbox_link \<Rightarrow> string \<Rightarrow> bytes \<Rightarrow> fsys \<Rightarrow> string option \<times> fsys" where
  "runtimeFileWrite L path content s =
     (if \<not> reachable_port L then (Some ''sandbox not found'', s)
      else (case sl_HTTP L path of
          Some e \<Rightarrow> (Some e, s)
        | None \<Rightarrow>
            (case FileWriteHandler (sl_OS L path) (Some (overwrite path (json_text content))) s of
               (FileWritten n, tr) \<Rightarrow> (None, last tr)
             | (_, tr) \<Rightarrow> (Some ''status'', last tr))))"

section \<open>The lockfile\<close>

record locked_binding =
  lb_Service :: string
  lb_Version :: string
  lb_EnvVars :: "string list"
  lb_ResolvedAt :: string

record locked_skill =
  sk_Name :: string
  sk_Version :: string
  sk_ResolvedAt :: string

record lockfile =
  lk_Version :: int
  lk_Cluster :: string
  lk_Bindings :: "locked_binding list"
  lk_Secrets :: "string list"
  lk_Skills :: "locked_skill list"

definition LockfilePath :: string where
  "LockfilePath = ''/workspace/.sandbox-lock.json''"

text \<open>The struct tags: lists that are empty are left out.\<close>

definition omit_empty :: "string \<Rightarrow> jv list \<Rightarrow> (string \<times> jv) list" where
  "omit_empty k vs = (if vs = [] then [] else [(k, JArr vs)])"

definition binding_json :: "locked_binding \<Rightarrow> jv" where
  "binding_json b = JObj ([(''service'', JText (lb_Service b)), (''version'', JText (lb_Version b))]
     @ omit_empty ''env_vars'' (map JText (lb_EnvVars b)) @ [(''resolved_at'', JText (lb_ResolvedAt b))])"

definition skill_json :: "locked_skill \<Rightarrow> jv" where
  "skill_json k = JObj [(''name'', JText (sk_Name k)), (''version'', JText (sk_Version k)), (''resolved_at'', JText (sk_ResolvedAt k))]"

definition lock_json :: "lockfile \<Rightarrow> jv" where
  "lock_json l = JObj ([(''version'', JNum (lk_Version l)), (''cluster'', JText (lk_Cluster l))]
     @ omit_empty ''bindings'' (map binding_json (lk_Bindings l)) @ omit_empty ''secrets'' (map JText (lk_Secrets l))
     @ omit_empty ''skills'' (map skill_json (lk_Skills l)))"

text \<open>\<open>json.Unmarshal\<close> into the structs; \<open>None\<close> is its error.\<close>

fun text_of :: "jv \<Rightarrow> string option" where
  "text_of v = as_text (Some v)"

definition binding_members :: "(string \<times> jv) list \<Rightarrow> locked_binding option" where
  "binding_members ms =
     Option.bind (as_text (member ms ''service'')) (\<lambda>s. Option.bind (as_text (member ms ''version'')) (\<lambda>v.
     Option.bind (as_list text_of (member ms ''env_vars'')) (\<lambda>es. map_option (\<lambda>r.
       \<lparr>lb_Service = s, lb_Version = v, lb_EnvVars = es, lb_ResolvedAt = r\<rparr>) (as_text (member ms ''resolved_at'')))))"

fun read_binding :: "jv \<Rightarrow> locked_binding option" where
  "read_binding (JObj ms) = binding_members ms"
| "read_binding JNull = Some \<lparr>lb_Service = [], lb_Version = [], lb_EnvVars = [], lb_ResolvedAt = []\<rparr>"
| "read_binding _ = None"

definition skill_members :: "(string \<times> jv) list \<Rightarrow> locked_skill option" where
  "skill_members ms =
     Option.bind (as_text (member ms ''name'')) (\<lambda>s. Option.bind (as_text (member ms ''version'')) (\<lambda>v.
       map_option (\<lambda>r. \<lparr>sk_Name = s, sk_Version = v, sk_ResolvedAt = r\<rparr>) (as_text (member ms ''resolved_at''))))"

fun read_skill :: "jv \<Rightarrow> locked_skill option" where
  "read_skill (JObj ms) = skill_members ms"
| "read_skill JNull = Some \<lparr>sk_Name = [], sk_Version = [], sk_ResolvedAt = []\<rparr>"
| "read_skill _ = None"

definition empty_lock :: lockfile where
  "empty_lock = \<lparr>lk_Version = 0, lk_Cluster = [], lk_Bindings = [], lk_Secrets = [], lk_Skills = []\<rparr>"

definition lock_members :: "(string \<times> jv) list \<Rightarrow> lockfile option" where
  "lock_members ms =
     Option.bind (as_int (member ms ''version'')) (\<lambda>v. Option.bind (as_text (member ms ''cluster'')) (\<lambda>c.
     Option.bind (as_list read_binding (member ms ''bindings'')) (\<lambda>bs. Option.bind (as_list text_of (member ms ''secrets'')) (\<lambda>ss.
     map_option (\<lambda>ks. \<lparr>lk_Version = v, lk_Cluster = c, lk_Bindings = bs, lk_Secrets = ss, lk_Skills = ks\<rparr>)
       (as_list read_skill (member ms ''skills''))))))"

fun read_lock :: "jv \<Rightarrow> lockfile option" where
  "read_lock (JObj ms) = lock_members ms"
| "read_lock JNull = Some empty_lock"
| "read_lock _ = None"

definition lock_text :: "lockfile \<Rightarrow> string" where
  "lock_text l = marshal_indent (lock_json l) @ [newline]"

text \<open>A lockfile that does not parse counts as missing.\<close>

definition readLockfile :: "sandbox_link \<Rightarrow> fsys \<Rightarrow> string + lockfile option" where
  "readLockfile L s =
     (case runtimeFileRead L LockfilePath s of
        Inl e \<Rightarrow> Inl e
      | Inr None \<Rightarrow> Inr None
      | Inr (Some raw) \<Rightarrow>
          if raw = [] then Inr None
          else Inr (case unmarshal_value raw of None \<Rightarrow> None | Some v \<Rightarrow> read_lock v))"

definition writeLockfile :: "sandbox_link \<Rightarrow> lockfile \<Rightarrow> fsys \<Rightarrow> string option \<times> fsys" where
  "writeLockfile L lock s = runtimeFileWrite L LockfilePath (lock_text lock) s"

definition updateLockfile :: "sandbox_link \<Rightarrow> string \<Rightarrow> (lockfile \<Rightarrow> lockfile) \<Rightarrow> fsys \<Rightarrow> string option \<times> fsys" where
  "updateLockfile L cluster mut s =
     (case readLockfile L s of
        Inl e \<Rightarrow> (Some e, s)
      | Inr l \<Rightarrow> writeLockfile L (mut (case l of Some lock \<Rightarrow> lock | None \<Rightarrow> empty_lock\<lparr>lk_Version := 1, lk_Cluster := cluster\<rparr>)) s)"

definition add_binding :: "locked_binding \<Rightarrow> lockfile \<Rightarrow> lockfile" where
  "add_binding b l = l\<lparr>lk_Bindings := filter (\<lambda>x. lb_Service x \<noteq> lb_Service b) (lk_Bindings l) @ [b]\<rparr>"

definition recordBindingInLockfile :: "sandbox_link \<Rightarrow> string \<Rightarrow> instant \<Rightarrow> string \<Rightarrow> string \<Rightarrow> string list \<Rightarrow> fsys \<Rightarrow> string option \<times> fsys" where
  "recordBindingInLockfile L cluster now service version envVars s =
     updateLockfile L cluster
       (add_binding \<lparr>lb_Service = service, lb_Version = version, lb_EnvVars = envVars, lb_ResolvedAt = format_rfc3339 now\<rparr>) s"

definition add_secret :: "string \<Rightarrow> lockfile \<Rightarrow> lockfile" where
  "add_secret name l = (if name \<in> set (lk_Secrets l) then l else l\<lparr>lk_Secrets := lk_Secrets l @ [name]\<rparr>)"

definition recordSecretInLockfile :: "sandbox_link \<Rightarrow> string \<Rightarrow> string \<Rightarrow> fsys \<Rightarrow> string option \<times> fsys" where
  "recordSecretInLockfile L cluster name s = updateLockfile L cluster (add_secret name) s"

section \<open>Names and values\<close>

text \<open>A range over a string goes by runes; a rune beyond ASCII is refused like any other character.\<close>

definition env_char :: "char \<Rightarrow> bool" where
  "env_char c \<longleftrightarrow> char_within (CHR ''A'') (CHR ''Z'') c \<or> char_within (CHR ''a'') (CHR ''z'') c \<or> is_digit c \<or> c = CHR ''_''"

definition envNameOK :: "string \<Rightarrow> bool" where
  "envNameOK name \<longleftrightarrow> name \<noteq> [] \<and> \<not> 256 < length name \<and>
     \<not> (\<exists>c \<in> set name. c \<in> {CHR '' '', CHR 0x09, CHR 0x0A, CHR ''='', CHR ''/''}) \<and>
     \<not> is_digit (hd name) \<and> list_all env_char name"

text \<open>A pattern of the form \<open>^prefix[class]{n,}$\<close>.\<close>

definition shaped :: "string \<Rightarrow> (char \<Rightarrow> bool) \<Rightarrow> nat \<Rightarrow> string \<Rightarrow> bool" where
  "shaped prefix cls n v \<longleftrightarrow> has_prefix v prefix \<and> n \<le> length (drop (length prefix) v) \<and> list_all cls (drop (length prefix) v)"

definition token_char :: "char \<Rightarrow> bool" where
  "token_char c \<longleftrightarrow> is_alnum c \<or> c = CHR ''_'' \<or> c = CHR ''-''"

definition secretPatterns :: "(string \<Rightarrow> bool) list" where
  "secretPatterns =
     [shaped ''sk-'' token_char 20,
      shaped ''sk-ant-'' token_char 20,
      shaped ''xoxb-'' (\<lambda>c. is_alnum c \<or> c = CHR ''-'') 20,
      shaped ''xoxp-'' (\<lambda>c. is_alnum c \<or> c = CHR ''-'') 20,
      shaped ''ghp_'' is_alnum 30,
      shaped ''github_pat_'' (\<lambda>c. is_alnum c \<or> c = CHR ''_'') 50,
      (\<lambda>v. shaped ''AKIA'' (\<lambda>c. is_digit c \<or> char_within (CHR ''A'') (CHR ''Z'') c) 16 v \<and> length v = 20),
      (\<lambda>v. let ps = split_on (CHR ''.'') v in length ps = 3 \<and> list_all (shaped [] token_char 20) ps)]"

definition LooksLikeSecret :: "string \<Rightarrow> bool" where
  "LooksLikeSecret v \<longleftrightarrow> v \<noteq> [] \<and> (\<exists>p \<in> set secretPatterns. p v)"

section \<open>Secrets\<close>

record secret_request =
  sr_Name :: string
  sr_Value :: string
  sr_Source :: string

datatype bind_reply =
    Coded string
  | SecretStored string string
  | SecretNames "string list"
  | Bound string string "string list"
  | BindingList "(string \<times> string \<times> string list) list"
  | Resolved "(string \<rightharpoonup> string) \<times> (string \<rightharpoonup> string)"

abbreviation "BindingInvalidRequest \<equiv> ''B001''"
abbreviation "BindingServiceNotInCatalog \<equiv> ''B110''"
abbreviation "BindingInternal \<equiv> ''B900''"
abbreviation "SecretLooksLikeSecret \<equiv> ''B010''"
abbreviation "InvalidValue \<equiv> ''V020''"

definition secret_path :: "string \<Rightarrow> string" where
  "secret_path name = ''/var/run/agentry/secrets/'' @ name"

definition handleSecretSet :: "sandbox_link \<Rightarrow> string \<Rightarrow> string \<Rightarrow> secret_request option \<Rightarrow> fsys \<Rightarrow> bind_reply \<times> fsys" where
  "handleSecretSet L cluster sid body s =
     (if sid = [] then (Coded BindingInvalidRequest, s)
      else (case body of
          None \<Rightarrow> (Coded BindingInvalidRequest, s)
        | Some req \<Rightarrow>
            if sr_Name req = [] then (Coded BindingInvalidRequest, s)
            else if \<not> envNameOK (sr_Name req) then (Coded InvalidValue, s)
            else (let source = (if sr_Source req = [] then ''cli'' else sr_Source req) in
              if source = ''mcp'' \<and> LooksLikeSecret (sr_Value req) then (Coded SecretLooksLikeSecret, s)
              else (case runtimeFileWrite L (secret_path (sr_Name req)) (sr_Value req) s of
                  (Some e, s1) \<Rightarrow> (Coded BindingInternal, s1)
                | (None, s1) \<Rightarrow> (SecretStored (sr_Name req) source, snd (recordSecretInLockfile L cluster (sr_Name req) s1))))))"

definition handleSecretList :: "sandbox_link \<Rightarrow> string \<Rightarrow> fsys \<Rightarrow> bind_reply" where
  "handleSecretList L sid s =
     (if sid = [] then Coded BindingInvalidRequest
      else (case readLockfile L s of
          Inl e \<Rightarrow> Coded BindingInternal
        | Inr l \<Rightarrow> SecretNames (sort (case l of Some lock \<Rightarrow> lk_Secrets lock | None \<Rightarrow> []))))"

section \<open>Bindings\<close>

text \<open>An entry of the catalog; of \<open>Extra\<close> only the declared variables matter here.\<close>

record catalog_entry =
  ce_Kind :: string
  ce_Name :: string
  ce_Version :: string
  ce_EnvVars :: "jv option"

definition catalog_Find :: "catalog_entry list \<Rightarrow> string \<Rightarrow> string \<Rightarrow> string \<Rightarrow> catalog_entry option" where
  "catalog_Find entries kind name version =
     find (\<lambda>e. ce_Kind e = kind \<and> ce_Name e = name \<and> (version = [] \<or> ce_Version e = version)) entries"

definition expected_vars :: "catalog_entry \<Rightarrow> string set" where
  "expected_vars entry = (case ce_EnvVars entry of Some (JArr vs) \<Rightarrow> {s. JText s \<in> set vs} | _ \<Rightarrow> {})"

definition validateBindingEnv :: "catalog_entry \<Rightarrow> (string \<times> string) list \<Rightarrow> bool" where
  "validateBindingEnv entry env \<longleftrightarrow> expected_vars entry = {} \<or> (\<forall>(k, v) \<in> set env. k \<in> expected_vars entry)"

text \<open>The request's variables in the order in which the map is gone through.\<close>

record binding_request =
  br_Service :: string
  br_Version :: string
  br_Env :: "(string \<times> string) list"

definition binding_path :: "string \<Rightarrow> string \<Rightarrow> string" where
  "binding_path service k = ''/var/run/agentry/'' @ service @ ''/'' @ k"

fun writeBindingFiles :: "sandbox_link \<Rightarrow> string \<Rightarrow> (string \<times> string) list \<Rightarrow> fsys \<Rightarrow> string option \<times> fsys" where
  "writeBindingFiles L service [] s = (None, s)"
| "writeBindingFiles L service ((k, v) # creds) s =
     (case runtimeFileWrite L (binding_path service k) v s of
        (Some e, s1) \<Rightarrow> (Some e, s1)
      | (None, s1) \<Rightarrow> writeBindingFiles L service creds s1)"

definition findExistingBinding :: "sandbox_link \<Rightarrow> string \<Rightarrow> fsys \<Rightarrow> locked_binding option" where
  "findExistingBinding L service s =
     (case readLockfile L s of
        Inr (Some lock) \<Rightarrow> find (\<lambda>b. lb_Service b = service) (lk_Bindings lock)
      | _ \<Rightarrow> None)"

definition handleBindingCreate :: "sandbox_link \<Rightarrow> string \<Rightarrow> catalog_entry list \<Rightarrow> instant \<Rightarrow> string \<Rightarrow> binding_request option \<Rightarrow> fsys
    \<Rightarrow> bind_reply \<times> fsys" where
  "handleBindingCreate L cluster catalog now sid body s =
     (if sid = [] then (Coded BindingInvalidRequest, s)
      else (case body of
          None \<Rightarrow> (Coded BindingInvalidRequest, s)
        | Some req \<Rightarrow>
            if br_Service req = [] then (Coded BindingInvalidRequest, s)
            else (case catalog_Find catalog ''service'' (br_Service req) (br_Version req) of
                None \<Rightarrow> (Coded BindingServiceNotInCatalog, s)
              | Some entry \<Rightarrow>
                  if br_Env req = [] then
                    (case findExistingBinding L (br_Service req) s of
                       Some b \<Rightarrow> (Bound (br_Service req) (lb_Version b) (lb_EnvVars b), s)
                     | None \<Rightarrow> (Coded BindingInvalidRequest, s))
                  else if \<not> validateBindingEnv entry (br_Env req) then (Coded BindingInvalidRequest, s)
                  else (case writeBindingFiles L (br_Service req) (br_Env req) s of
                      (Some e, s1) \<Rightarrow> (Coded BindingInternal, s1)
                    | (None, s1) \<Rightarrow>
                        (Bound (br_Service req) (ce_Version entry) (map fst (br_Env req)),
                         snd (recordBindingInLockfile L cluster now (br_Service req) (ce_Version entry) (map fst (br_Env req)) s1))))))"

text \<open>A value that is missing, unreadable or empty is skipped.\<close>

definition resolve_file :: "sandbox_link \<Rightarrow> fsys \<Rightarrow> string \<Rightarrow> string option" where
  "resolve_file L s path = (case runtimeFileRead L path s of Inr (Some raw) \<Rightarrow> if raw = [] then None else Some raw | _ \<Rightarrow> None)"

type_synonym env_sources = "(string \<rightharpoonup> string) \<times> (string \<rightharpoonup> string)"

definition resolve_binding :: "sandbox_link \<Rightarrow> fsys \<Rightarrow> locked_binding \<Rightarrow> env_sources \<Rightarrow> env_sources" where
  "resolve_binding L s b a = fold (\<lambda>k (env, src).
     case resolve_file L s (binding_path (lb_Service b) k) of
       None \<Rightarrow> (env, src) | Some v \<Rightarrow> (env(k \<mapsto> v), src(k \<mapsto> lb_Service b))) (lb_EnvVars b) a"

definition resolve_secret :: "sandbox_link \<Rightarrow> fsys \<Rightarrow> string \<Rightarrow> env_sources \<Rightarrow> env_sources" where
  "resolve_secret L s name a = (case a of (env, src) \<Rightarrow>
     if env name \<noteq> None then (env, src)
     else (case resolve_file L s (secret_path name) of
         None \<Rightarrow> (env, src) | Some v \<Rightarrow> (env(name \<mapsto> v), src(name \<mapsto> ''secret''))))"

definition handleBindingResolve :: "sandbox_link \<Rightarrow> string \<Rightarrow> fsys \<Rightarrow> bind_reply" where
  "handleBindingResolve L sid s =
     (if sid = [] then Coded BindingInvalidRequest
      else (case readLockfile L s of
          Inl e \<Rightarrow> Coded BindingInternal
        | Inr None \<Rightarrow> Resolved (Map.empty, Map.empty)
        | Inr (Some lock) \<Rightarrow>
            Resolved (fold (resolve_secret L s) (lk_Secrets lock) (fold (resolve_binding L s) (lk_Bindings lock) (Map.empty, Map.empty)))))"

section \<open>The listing\<close>

text \<open>The rows of the runtime's listing, grouped: a directory is a service, a file one of its variables.\<close>

definition agentry_dir :: string where
  "agentry_dir = ''/var/run/agentry/''"

definition group_row :: "file_info \<Rightarrow> (string \<rightharpoonup> string list) \<Rightarrow> (string \<rightharpoonup> string list)" where
  "group_row r m =
     (if fi_IsDirectory r then (if m (fi_Name r) = None then m(fi_Name r \<mapsto> []) else m)
      else (case split_n (CHR ''/'') (trim_prefix (fi_Path r) agentry_dir) 2 of
          [svc, k] \<Rightarrow> if svc = [] \<or> k = [] then m else m(svc \<mapsto> (case m svc of Some ks \<Rightarrow> ks | None \<Rightarrow> []) @ [k])
        | _ \<Rightarrow> m))"

text \<open>The names that occur, to go through the map in order.\<close>

definition row_services :: "file_info list \<Rightarrow> string list" where
  "row_services rows = map fi_Name (filter fi_IsDirectory rows) @
     map (\<lambda>r. hd (split_n (CHR ''/'') (trim_prefix (fi_Path r) agentry_dir) 2)) (filter (\<lambda>r. \<not> fi_IsDirectory r) rows)"

definition scanBindingFiles :: "file_info list \<Rightarrow> (string \<times> string list) list" where
  "scanBindingFiles rows =
     (let m = fold group_row rows Map.empty in
      map (\<lambda>svc. (svc, sort (the (m svc)))) (filter (\<lambda>svc. m svc \<noteq> None) (sort (remdups (row_services rows)))))"

text \<open>The listing may fail; then there is nothing to show. Versions come from the lockfile, the last entry of a service
  counting.\<close>

definition handleBindingList :: "sandbox_link \<Rightarrow> string + file_info list \<Rightarrow> string \<Rightarrow> fsys \<Rightarrow> bind_reply" where
  "handleBindingList L listing sid s =
     (if sid = [] then Coded BindingInvalidRequest
      else (let rows = (case listing of Inl e \<Rightarrow> [] | Inr fs \<Rightarrow> scanBindingFiles fs);
                bs = (case readLockfile L s of Inr (Some lock) \<Rightarrow> lk_Bindings lock | _ \<Rightarrow> []);
                version = (\<lambda>svc. case map_of (rev (map (\<lambda>b. (lb_Service b, lb_Version b)) bs)) svc of Some v \<Rightarrow> v | None \<Rightarrow> [])
            in BindingList (map (\<lambda>(svc, ks). (svc, version svc, ks)) rows)))"

end
