(* ===== verification/Prov_Binding_Files.thy ===== *)
theory Prov_Binding_Files
  imports Prov_Bindings
begin

text \<open>
  Facts on the files of bindings: writing and reading through the runtime, the text of a lockfile, and the paths.
\<close>

section \<open>ASCII text\<close>

definition ascii_char :: "char \<Rightarrow> bool" where
  "ascii_char c \<longleftrightarrow> (of_char c :: nat) < 128"

abbreviation "ascii s \<equiv> list_all ascii_char s"

lemma runes_of_ascii: "list_all (\<lambda>b. b < 0x80) bs \<Longrightarrow> runes_of bs = bs"
  by (induction bs) simp_all

lemma json_text_ascii: "ascii s \<Longrightarrow> json_text s = s"
proof -
  assume a: "ascii s"
  have "runes_of (map of_char s) = map of_char s"
    using a by (intro runes_of_ascii) (simp add: list_all_iff ascii_char_def)
  moreover have "concat (map encode_rune (map of_char s)) = (map of_char s :: nat list)"
    using a by (induction s) (simp_all add: encode_rune_def ascii_char_def)
  ultimately show ?thesis by (simp add: json_text_def comp_def)
qed

section \<open>A quiet link\<close>

text \<open>No call fails, and the names of temporary files come from a set of their own.\<close>

definition quiet :: "sandbox_link \<Rightarrow> string set \<Rightarrow> bool" where
  "quiet L T \<longleftrightarrow> reachable_port L \<and> (\<forall>p. sl_HTTP L p = None) \<and> (\<forall>p. \<exists>t \<in> T. sl_OS L p = calm t)"

definition no_temps :: "string set \<Rightarrow> fsys \<Rightarrow> bool" where
  "no_temps T s \<longleftrightarrow> (\<forall>t \<in> T. fs_files s t = None)"

lemma no_temps_put: "no_temps T s \<Longrightarrow> f \<notin> T \<Longrightarrow> no_temps T (put_file f c s)"
  by (auto simp: no_temps_def)

lemma write_ok:
  assumes "quiet L T" "no_temps T s" "path \<noteq> []" "resolve s path \<notin> T"
  shows "runtimeFileWrite L path v s = (None, put_file (resolve s path) (json_text v, mode_rw) s)"
proof -
  obtain t where t: "t \<in> T" "sl_OS L path = calm t" using assms(1) by (auto simp: quiet_def)
  have fresh: "fs_files s (os_temp (calm t)) = None" using assms(2) t by (simp add: no_temps_def)
  have "fst (atomicWriteFile (calm t) path (json_text v) mode_rw s) = Inr (int (length (json_text v)))"
    by (simp add: atomicWriteFile_def Let_def)
  from atomic_done [OF fresh this] show ?thesis
    using assms t write_calm(1) [OF assms(3)] by (simp add: runtimeFileWrite_def quiet_def)
qed

definition read_back :: "string \<Rightarrow> string \<Rightarrow> string" where
  "read_back path v = (if json_text (text_read v) \<noteq> [] then json_text (text_read v)
     else read_reply_json path \<lparr>rd_Content = text_read v, rd_TotalLines = int (length (raw_lines v)),
       rd_StartLine = (if raw_lines v = [] then 0 else 1), rd_EndLine = int (length (raw_lines v)), rd_Truncated = False\<rparr>)"

lemma read_data:
  assumes "path \<noteq> []" "\<not> isProtectedReadPath path" "int (length v) < defaultReadMaxBytes" "fs_files s (resolve s path) = Some (v, m)"
  shows "FileReadHandler (calm t) (Some (read_all path)) s = FileRead \<lparr>rd_Content = text_read v, rd_TotalLines = int (length (raw_lines v)),
       rd_StartLine = (if raw_lines v = [] then 0 else 1), rd_EndLine = int (length (raw_lines v)), rd_Truncated = False\<rparr>"
proof -
  have opened: "open_file (calm t) path s = Inr v" using assms(4) by (simp add: open_file_def)
  have small: "used_bytes (raw_lines v) \<le> defaultReadMaxBytes" using used_bytes_raw [of v] assms(3) by simp
  have fits: "list_all fits_buffer (raw_lines v)"
    unfolding list_all_iff
  proof
    fix l assume "l \<in> set (raw_lines v)"
    from raw_line_length [OF this] small show "fits_buffer l" by (simp add: fits_buffer_def defaultReadMaxBytes_def)
  qed
  have range: "line_range 1 0 ls = ls" for ls :: "string list" by (simp add: line_range_def)
  have kept: "capped 0 (map drop_cr (raw_lines v)) = map drop_cr (raw_lines v)"
    using used_bytes_drop_cr [of "raw_lines v"] small by (intro capped_all) simp
  show ?thesis
    using read_slice_exact_of [of "read_all path" "calm t" s v] assms(1,2) opened fits kept range
    by (simp add: read_all_def Let_def text_read_def)
qed

lemma read_ok:
  assumes "quiet L T" "path \<noteq> []" "\<not> isProtectedReadPath path" "int (length v) < defaultReadMaxBytes" "fs_files s (resolve s path) = Some (v, m)"
  shows "runtimeFileRead L path s = Inr (Some (read_back path v))"
proof -
  obtain t where "sl_OS L path = calm t" using assms(1) by (auto simp: quiet_def)
  then show ?thesis
    using assms(1) read_data [OF assms(2-5), of t] by (simp add: runtimeFileRead_def quiet_def read_back_def Let_def)
qed

lemma read_missing:
  assumes "quiet L T" "path \<noteq> []" "\<not> isProtectedReadPath path" "fs_files s (resolve s path) = None"
  shows "runtimeFileRead L path s = Inr None"
proof -
  obtain t where "sl_OS L path = calm t" using assms(1) by (auto simp: quiet_def)
  then show ?thesis
    using assms by (simp add: runtimeFileRead_def quiet_def FileReadHandler_def read_all_def open_file_def)
qed

lemma read_reply_nonempty: "read_reply_json path d \<noteq> []"
  by (simp add: read_reply_json_def)

lemma read_back_plain: "plain_text v \<Longrightarrow> ascii v \<Longrightarrow> v \<noteq> [] \<Longrightarrow> read_back path v = v"
  using text_read_iff [of v] by (simp add: read_back_def json_text_ascii)

section \<open>The text of a lockfile\<close>

definition safe_char :: "char \<Rightarrow> bool" where
  "safe_char c \<longleftrightarrow> ascii_char c \<and> c \<noteq> carriage_return"

lemma safe_punct [simp]:
  "safe_char (CHR ''['')" "safe_char (CHR '']'')" "safe_char (CHR ''{'')" "safe_char (CHR ''}'')" "safe_char (CHR '','')"
  by (simp_all add: safe_char_def ascii_char_def)

fun ascii_value :: "jv \<Rightarrow> bool" where
  "ascii_value (JText s) \<longleftrightarrow> ascii s"
| "ascii_value (JArr vs) \<longleftrightarrow> list_all ascii_value vs"
| "ascii_value (JObj ms) \<longleftrightarrow> list_all (\<lambda>(k, v). ascii k \<and> ascii_value v) ms"
| "ascii_value _ \<longleftrightarrow> True"

lemma digit_safe: "d < 16 \<Longrightarrow> safe_char (digit_char d)"
proof -
  assume d: "d < 16"
  have "digit_char d = carriage_return \<Longrightarrow> digit_val carriage_return = Some d" using digit_val_char [OF d] by simp
  then have "digit_char d \<noteq> carriage_return" by (auto simp: digit_val_def)
  moreover have "(of_char (digit_char d) :: nat) < 128" using d by (simp add: digit_char_def)
  ultimately show ?thesis by (simp add: safe_char_def ascii_char_def)
qed

lemma escape_safe: "ascii_char c \<Longrightarrow> list_all safe_char (escape_char c)"
  using digit_safe by (auto simp: escape_char_def hex4_def safe_char_def ascii_char_def quote_def backslash_def)

lemma json_string_safe: "ascii s \<Longrightarrow> list_all safe_char (json_string s)"
proof -
  assume "ascii s"
  then have "list_all safe_char (concat (map escape_char s))"
    using escape_safe by (induction s) simp_all
  then show ?thesis by (simp add: json_string_def safe_char_def ascii_char_def quote_def)
qed

lemma int_char_safe: "int_char c \<Longrightarrow> safe_char c"
proof -
  assume "int_char c"
  then have "c = CHR ''-'' \<or> (48 \<le> (of_char c :: nat) \<and> (of_char c :: nat) \<le> 57)"
    by (auto simp: int_char_def less_eq_char_def)
  then show ?thesis by (auto simp: safe_char_def ascii_char_def)
qed

lemma join_safe: "list_all P sep \<Longrightarrow> \<forall>w \<in> set ws. list_all P w \<Longrightarrow> list_all P (join_str sep ws)"
  by (induction ws rule: induct_list012) simp_all

lemma two_spaces_safe: "list_all safe_char (two_spaces k)"
  by (simp add: two_spaces_def list_all_iff safe_char_def ascii_char_def)

lemma render_safe:
  "(\<And>j. list_all safe_char (sp j)) \<Longrightarrow> list_all safe_char col \<Longrightarrow> ascii_value v \<Longrightarrow> list_all safe_char (render sp col k v)"
proof (induction sp col k v rule: render.induct)
  case (3 sp col k i)
  then show ?case using format_int_chars [of i] int_char_safe by (simp add: list_all_iff)
next
  case (5 sp col k vs)
  have "list_all safe_char (join_str ('','' @ sp (Suc k)) (map (render sp col (Suc k)) vs))" if "vs \<noteq> []"
    using 5 that by (intro join_safe) (auto simp: list_all_iff)
  then show ?case using 5(2) by simp
next
  case (6 sp col k ms)
  have "list_all safe_char (join_str ('','' @ sp (Suc k)) (map (\<lambda>(key, v). json_string key @ col @ render sp col (Suc k) v) ms))" if ne: "ms \<noteq> []"
  proof (rule join_safe)
    show "list_all safe_char ('','' @ sp (Suc k))" using 6(2) by simp
    show "\<forall>w \<in> set (map (\<lambda>(key, v). json_string key @ col @ render sp col (Suc k) v) ms). list_all safe_char w"
    proof
      fix w assume "w \<in> set (map (\<lambda>(key, v). json_string key @ col @ render sp col (Suc k) v) ms)"
      then obtain key v where kv: "(key, v) \<in> set ms" "w = json_string key @ col @ render sp col (Suc k) v" by auto
      then have "ascii key" "ascii_value v" using 6(4) by (auto simp: list_all_iff)
      then show "list_all safe_char w" using 6(1) [OF ne kv(1) refl 6(2,3)] 6(3) json_string_safe kv(2) by simp
    qed
  qed
  then show ?case using 6(2) by simp
qed (use json_string_safe in \<open>simp_all add: safe_char_def ascii_char_def\<close>)

lemma split_on_snoc: "split_on c (s @ [c]) = split_on c s @ [[]]"
proof (induction s)
  case (Cons x s)
  then show ?case by (cases "split_on c s") (auto split: list.splits)
qed simp

lemma text_read_line: "carriage_return \<notin> set x \<Longrightarrow> text_read (x @ [newline]) = x"
proof -
  assume x: "carriage_return \<notin> set x"
  have "raw_lines (x @ [newline]) = split_on newline x" by (simp add: raw_lines_def split_on_snoc)
  moreover have "map drop_cr (split_on newline x) = split_on newline x"
  proof (rule map_idI)
    fix l assume l: "l \<in> set (split_on newline x)"
    have "set l \<subseteq> set x"
      using l by (induction x arbitrary: l) (auto split: if_splits list.splits, blast+)
    then show "drop_cr l = l" using x by (auto simp: drop_cr_def dest: last_in_set)
  qed
  ultimately show ?thesis by (simp add: text_read_def join_split_on)
qed

definition lock_ok :: "lockfile \<Rightarrow> bool" where
  "lock_ok l \<longleftrightarrow> - (2 ^ 63) \<le> lk_Version l \<and> lk_Version l < 2 ^ 63 \<and> ascii (lk_Cluster l) \<and>
     (\<forall>b \<in> set (lk_Bindings l). ascii (lb_Service b) \<and> ascii (lb_Version b) \<and> list_all ascii (lb_EnvVars b) \<and> ascii (lb_ResolvedAt b)) \<and>
     list_all ascii (lk_Secrets l) \<and> (\<forall>k \<in> set (lk_Skills l). ascii (sk_Name k) \<and> ascii (sk_Version k) \<and> ascii (sk_ResolvedAt k))"

lemma all_some_texts: "all_some (map (text_of \<circ> JText) xs) = Some xs"
  by (induction xs) simp_all

lemmas member_eval = member_def equal_fold_def to_lower_def lower_char_def omit_empty_def

lemma read_binding_json: "read_binding (binding_json b) = Some b"
  using all_some_texts [of "lb_EnvVars b"] by (cases b; cases "lb_EnvVars b") (simp_all add: binding_json_def binding_members_def member_eval)

lemma read_skill_json: "read_skill (skill_json k) = Some k"
  by (cases k) (simp add: skill_json_def skill_members_def member_eval)

lemma all_some_ext: "(\<And>x. f (g x) = Some x) \<Longrightarrow> all_some (map f (map g xs)) = Some xs"
  by (induction xs) simp_all

text \<open>A list that is left out when empty reads back as itself.\<close>

lemma as_list_omitted: "(\<And>x. f (g x) = Some x) \<Longrightarrow> as_list f (if map g xs = [] then None else Some (JArr (map g xs))) = Some xs"
  using all_some_ext [of f g xs] by simp

lemma read_lock_json: "read_lock (lock_json l) = Some l"
proof -
  let ?ms = "case lock_json l of JObj ms \<Rightarrow> ms"
  have m: "member ?ms ''version'' = Some (JNum (lk_Version l))" "member ?ms ''cluster'' = Some (JText (lk_Cluster l))"
      "member ?ms ''bindings'' = (if map binding_json (lk_Bindings l) = [] then None else Some (JArr (map binding_json (lk_Bindings l))))"
      "member ?ms ''secrets'' = (if map JText (lk_Secrets l) = [] then None else Some (JArr (map JText (lk_Secrets l))))"
      "member ?ms ''skills'' = (if map skill_json (lk_Skills l) = [] then None else Some (JArr (map skill_json (lk_Skills l))))"
    by (simp_all add: lock_json_def member_eval)
  have "lock_json l = JObj ?ms" by (simp add: lock_json_def)
  then have "read_lock (lock_json l) = read_lock (JObj ?ms)" by simp
  also have "\<dots> = Some l"
    unfolding read_lock.simps lock_members_def m
    using as_list_omitted [of read_binding binding_json, OF read_binding_json] as_list_omitted [of text_of JText]
      as_list_omitted [of read_skill skill_json, OF read_skill_json]
    by simp
  finally show ?thesis .
qed

lemma lock_json_ok: "lock_ok l \<Longrightarrow> numbers_ok (lock_json l) \<and> ascii_value (lock_json l)"
  by (auto simp: lock_ok_def lock_json_def binding_json_def skill_json_def omit_empty_def list_all_iff ascii_char_def)

lemma lock_text_read:
  assumes "lock_ok l"
  shows "ascii (lock_text l)" and "read_back LockfilePath (lock_text l) = marshal_indent (lock_json l)"
    and "unmarshal_value (marshal_indent (lock_json l)) = Some (lock_json l)"
proof -
  have safe: "list_all safe_char (marshal_indent (lock_json l))"
    unfolding marshal_indent_def using lock_json_ok [OF assms]
    by (intro render_safe) (simp_all add: two_spaces_safe safe_char_def ascii_char_def)
  have "ascii (marshal_indent (lock_json l))" "carriage_return \<notin> set (marshal_indent (lock_json l))"
    using safe by (auto simp: list_all_iff safe_char_def)
  moreover have "marshal_indent (lock_json l) \<noteq> []" by (simp add: marshal_indent_def lock_json_def)
  ultimately show "ascii (lock_text l)" "read_back LockfilePath (lock_text l) = marshal_indent (lock_json l)"
    by (simp_all add: lock_text_def read_back_def text_read_line json_text_ascii ascii_char_def)
  show "unmarshal_value (marshal_indent (lock_json l)) = Some (lock_json l)"
    using lock_json_ok [OF assms] marshal_indent_roundtrip [of "lock_json l" "[]"] by simp
qed

end
