(* ===== verification/Prov_Bind.thy ===== *)
theory Prov_Bind
  imports Prov_Binding_Files
begin

text \<open>
  Bindings and secrets as a user sees them: what is bound is what a deployment gets, secrets stay in their
  directory, and two ways in which they do not work.
\<close>

section \<open>Paths\<close>

lemma plain_path:
  assumes "list_all plain_seg segs" "p = ''/'' @ join_str ''/'' segs"
  shows "resolve s p = p" "is_abs p" "path_clean p = p"
proof -
  show abs: "is_abs p" using assms(2) by simp
  show clean: "path_clean p = p" using clean_rooted_id [OF assms(1)] assms(2) by simp
  show "resolve s p = p" using abs clean by (simp add: resolve_def)
qed

lemma binding_segs: "binding_path svc k = ''/'' @ join_str ''/'' [''var'', ''run'', ''agentry'', svc, k]"
  by (simp add: binding_path_def)

lemma secret_binding: "secret_path k = binding_path ''secrets'' k"
  by (simp add: binding_path_def secret_path_def)

lemma binding_path_facts:
  assumes "plain_seg svc" "plain_seg k"
  shows "resolve s (binding_path svc k) = binding_path svc k" "\<not> isProtectedReadPath (binding_path svc k)"
proof -
  have segs: "list_all plain_seg [''var'', ''run'', ''agentry'', svc, k]" using assms by (simp add: plain_seg_def)
  show "resolve s (binding_path svc k) = binding_path svc k" by (rule plain_path(1) [OF segs binding_segs])
  have "path_clean (binding_path svc k) = binding_path svc k" by (rule plain_path(3) [OF segs binding_segs])
  then show "\<not> isProtectedReadPath (binding_path svc k)"
    by (simp add: isProtectedReadPath_def binding_path_def credsMountPath_def has_prefix_def)
qed

lemma binding_path_nonempty [simp]: "binding_path svc k \<noteq> []"
  by (simp add: binding_path_def)

lemma binding_path_inj:
  assumes "CHR ''/'' \<notin> set svc" "CHR ''/'' \<notin> set svc'" "binding_path svc k = binding_path svc' k'"
  shows "svc = svc' \<and> k = k'"
proof -
  have "svc @ CHR ''/'' # k = svc' @ CHR ''/'' # k'" using assms(3) by (simp add: binding_path_def)
  then show ?thesis using assms(1,2) append_Cons_eq_iff [of "CHR ''/''" svc k svc' k'] by (metis append_eq_append_conv2 split_n_2 list.inject)
qed

lemma lockfile_path_facts:
  "resolve s LockfilePath = LockfilePath" "\<not> isProtectedReadPath LockfilePath" "LockfilePath \<noteq> []"
proof -
  have segs: "list_all plain_seg [''workspace'', ''.sandbox-lock.json'']" by (simp add: plain_seg_def)
  have p: "LockfilePath = ''/'' @ join_str ''/'' [''workspace'', ''.sandbox-lock.json'']" by (simp add: LockfilePath_def)
  show "resolve s LockfilePath = LockfilePath" by (rule plain_path(1) [OF segs p])
  show "\<not> isProtectedReadPath LockfilePath" "LockfilePath \<noteq> []"
    using plain_path(3) [OF segs p] by (simp_all add: isProtectedReadPath_def LockfilePath_def credsMountPath_def has_prefix_def)
qed

lemma lockfile_not_binding: "LockfilePath \<noteq> binding_path svc k"
  by (simp add: LockfilePath_def binding_path_def)

section \<open>The lockfile in the sandbox\<close>

text \<open>The lockfile that a sandbox has: none, or the text of one.\<close>

definition has_lock :: "fsys \<Rightarrow> lockfile option \<Rightarrow> bool" where
  "has_lock s l \<longleftrightarrow> (case l of
     None \<Rightarrow> fs_files s LockfilePath = None
   | Some lock \<Rightarrow> lock_ok lock \<and> int (length (lock_text lock)) < defaultReadMaxBytes \<and>
       (\<exists>m. fs_files s LockfilePath = Some (lock_text lock, m)))"

lemma read_lock_ok:
  assumes "quiet L T" "has_lock s l"
  shows "readLockfile L s = Inr l"
proof (cases l)
  case None
  then show ?thesis
    using assms read_missing [OF assms(1) lockfile_path_facts(3,2)] lockfile_path_facts(1) [of s]
    by (simp add: readLockfile_def has_lock_def)
next
  case (Some lock)
  then obtain m where m: "fs_files s LockfilePath = Some (lock_text lock, m)" and ok: "lock_ok lock" "int (length (lock_text lock)) < defaultReadMaxBytes"
    using assms(2) by (auto simp: has_lock_def)
  have "runtimeFileRead L LockfilePath s = Inr (Some (marshal_indent (lock_json lock)))"
    using read_ok [OF assms(1) lockfile_path_facts(3,2) ok(2), of s m] m lockfile_path_facts(1) [of s] lock_text_read(2) [OF ok(1)] by simp
  moreover have "marshal_indent (lock_json lock) \<noteq> []" by (simp add: marshal_indent_def lock_json_def)
  ultimately show ?thesis
    using Some lock_text_read(3) [OF ok(1)] by (simp add: readLockfile_def read_lock_json)
qed

definition current_lock :: "string \<Rightarrow> lockfile option \<Rightarrow> lockfile" where
  "current_lock cluster l = (case l of Some lock \<Rightarrow> lock | None \<Rightarrow> empty_lock\<lparr>lk_Version := 1, lk_Cluster := cluster\<rparr>)"

lemma update_lock_ok:
  assumes "quiet L T" "no_temps T s" "LockfilePath \<notin> T" "has_lock s l" "lock_ok (mut (current_lock cluster l))"
  shows "updateLockfile L cluster mut s = (None, put_file LockfilePath (lock_text (mut (current_lock cluster l)), mode_rw) s)"
  using write_ok [OF assms(1,2) lockfile_path_facts(3)] assms(3) lockfile_path_facts(1) [of s] read_lock_ok [OF assms(1,4)]
    json_text_ascii [OF lock_text_read(1) [OF assms(5)]]
  by (simp add: updateLockfile_def writeLockfile_def current_lock_def)

section \<open>Bound is what is resolved\<close>

definition good_env :: "string set \<Rightarrow> string \<Rightarrow> (string \<times> string) list \<Rightarrow> bool" where
  "good_env T svc env \<longleftrightarrow> distinct (map fst env) \<and> plain_seg svc \<and> ascii svc \<and>
     (\<forall>(k, v) \<in> set env. plain_seg k \<and> ascii k \<and> binding_path svc k \<notin> T \<and>
        plain_text v \<and> ascii v \<and> v \<noteq> [] \<and> int (length v) < defaultReadMaxBytes)"

lemma write_binding_files_ok:
  assumes "quiet L T" "no_temps T s" "good_env T svc env"
  shows "\<exists>s'. writeBindingFiles L svc env s = (None, s') \<and> no_temps T s' \<and>
    (\<forall>(k, v) \<in> set env. fs_files s' (binding_path svc k) = Some (v, mode_rw)) \<and>
    (\<forall>f. f \<notin> binding_path svc ` fst ` set env \<longrightarrow> fs_files s' f = fs_files s f)"
  using assms(2,3)
proof (induction env arbitrary: s)
  case (Cons kv env)
  obtain k v where kv: "kv = (k, v)" by (cases kv)
  have k: "plain_seg k" "binding_path svc k \<notin> T" "ascii v" and svc: "plain_seg svc" and env: "good_env T svc env" "k \<notin> fst ` set env"
    using Cons.prems(2) kv by (auto simp: good_env_def)
  let ?s = "put_file (binding_path svc k) (v, mode_rw) s"
  have w: "runtimeFileWrite L (binding_path svc k) v s = (None, ?s)"
    using write_ok [OF assms(1) Cons.prems(1), of "binding_path svc k" v] binding_path_facts(1) [OF svc k(1), of s] k by (simp add: json_text_ascii)
  obtain s' where s': "writeBindingFiles L svc env ?s = (None, s')" "no_temps T s'"
      "\<forall>(k, v) \<in> set env. fs_files s' (binding_path svc k) = Some (v, mode_rw)"
      "\<forall>f. f \<notin> binding_path svc ` fst ` set env \<longrightarrow> fs_files s' f = fs_files ?s f"
    using Cons.IH [OF no_temps_put [OF Cons.prems(1) k(2)] env(1)] by blast
  have "binding_path svc k \<notin> binding_path svc ` fst ` set env"
    using env(2) by (auto simp: binding_path_def)
  then have "fs_files s' (binding_path svc k) = Some (v, mode_rw)" using s'(4) by simp
  then show ?case using s' w kv by (auto simp: image_iff)
qed simp

lemma resolve_file_ok:
  assumes "quiet L T" "plain_seg svc" "plain_seg k" "fs_files s (binding_path svc k) = Some (v, m)" "int (length v) < defaultReadMaxBytes"
  shows "resolve_file L s (binding_path svc k) = Some (read_back (binding_path svc k) v)"
proof -
  have "read_back (binding_path svc k) v \<noteq> []" by (simp add: read_back_def read_reply_nonempty)
  then show ?thesis
    using read_ok [OF assms(1) binding_path_nonempty binding_path_facts(2) [OF assms(2,3)] assms(5), of s m]
      binding_path_facts(1) [OF assms(2,3), of s] assms(4)
    by (simp add: resolve_file_def)
qed

text \<open>A binding whose variables all resolve overrides what was there for them.\<close>

lemma resolve_binding_env:
  assumes "\<forall>k \<in> set (lb_EnvVars b). resolve_file L s (binding_path (lb_Service b) k) = Some (val k)" "k \<in> set (lb_EnvVars b)"
  shows "fst (resolve_binding L s b a) k = Some (val k) \<and> snd (resolve_binding L s b a) k = Some (lb_Service b)"
proof -
  define step where "step = (\<lambda>k (env, src). case resolve_file L s (binding_path (lb_Service b) k) of
     None \<Rightarrow> (env, src) | Some v \<Rightarrow> (env(k \<mapsto> v), src(k \<mapsto> lb_Service b)))"
  have "(\<forall>k \<in> set ks. resolve_file L s (binding_path (lb_Service b) k) = Some (val k)) \<Longrightarrow>
      k \<in> set ks \<or> (fst a k = Some (val k) \<and> snd a k = Some (lb_Service b)) \<Longrightarrow>
      fst (fold step ks a) k = Some (val k) \<and> snd (fold step ks a) k = Some (lb_Service b)" for ks a
  proof (induction ks arbitrary: a)
    case (Cons j ks)
    obtain env src where a: "a = (env, src)" by (cases a)
    have "step j a = (env(j \<mapsto> val j), src(j \<mapsto> lb_Service b))" using Cons.prems(1) a by (simp add: step_def)
    then show ?case using Cons.IH [of "step j a"] Cons.prems a by (cases "j = k") auto
  qed simp
  from this [of "lb_EnvVars b" a] show ?thesis using assms by (simp add: resolve_binding_def step_def)
qed

lemma resolve_secrets_keep: "fst a k = Some v \<and> snd a k = u \<Longrightarrow>
    fst (fold (resolve_secret L s) ns a) k = Some v \<and> snd (fold (resolve_secret L s) ns a) k = u"
proof (induction ns arbitrary: a)
  case (Cons n ns)
  have "fst (resolve_secret L s n a) k = Some v \<and> snd (resolve_secret L s n a) k = u"
    using Cons.prems by (cases a) (auto simp: resolve_secret_def split: option.split)
  then show ?case using Cons.IH by simp
qed simp


definition one_link :: sandbox_link where
  "one_link = \<lparr>sl_Port = Inr 30001, sl_HTTP = (\<lambda>_. None), sl_OS = (\<lambda>_. calm ''/tmp/t'')\<rparr>"

definition fresh_box :: fsys where
  "fresh_box = \<lparr>fs_cwd = ''/workspace'', fs_files = Map.empty\<rparr>"

definition pg_entry :: catalog_entry where
  "pg_entry = \<lparr>ce_Kind = ''service'', ce_Name = ''pg'', ce_Version = ''1'', ce_EnvVars = Some (JArr [JText ''PG_URL''])\<rparr>"

definition pg_binding :: locked_binding where
  "pg_binding = \<lparr>lb_Service = ''pg'', lb_Version = ''1'', lb_EnvVars = [''PG_URL''], lb_ResolvedAt = format_rfc3339 0\<rparr>"

lemma one_link_quiet: "quiet one_link {''/tmp/t''}" "no_temps {''/tmp/t''} fresh_box" "LockfilePath \<notin> {''/tmp/t''}" "has_lock fresh_box None"
  by (simp_all add: quiet_def one_link_def reachable_port_def no_temps_def fresh_box_def LockfilePath_def has_lock_def)


section \<open>Secrets\<close>

lemma env_name_plain: "envNameOK name \<Longrightarrow> plain_seg name \<and> ascii name"
proof -
  assume ok: "envNameOK name"
  have c: "env_char c \<Longrightarrow> ascii_char c \<and> c \<noteq> CHR ''.'' \<and> c \<noteq> CHR ''/''" for c
    by (auto simp: env_char_def char_within_def is_digit_def ascii_char_def less_eq_char_def)
  have "list_all env_char name" "name \<noteq> []" using ok by (simp_all add: envNameOK_def)
  then show ?thesis using c by (cases name) (auto simp: plain_seg_def list_all_iff)
qed

lemma write_frame:
  assumes "runtimeFileWrite L path v s = (r, s')" "f \<noteq> resolve s path" "f \<noteq> os_temp (sl_OS L path)"
  shows "fs_files s' f = fs_files s f"
proof -
  let ?os = "sl_OS L path" and ?v = "json_text v"
  have "s' = s \<or> (\<exists>d. s' = last (snd (atomicWriteFile ?os path d mode_rw s)))"
    using assms(1) by (auto simp: runtimeFileWrite_def FileWriteHandler_def overwrite_def flag_def
        split: if_splits option.splits file_reply.splits sum.splits prod.splits) (metis snd_conv)+
  moreover have "others_kept s {os_temp ?os, resolve s path} (last (snd (atomicWriteFile ?os path d mode_rw s)))" for d
    using atomic_others [of _ ?os path d mode_rw s] last_in_set by (simp add: atomicWriteFile_def Let_def split: option.splits)
  ultimately show ?thesis using assms(2,3) by (auto simp: others_kept_def)
qed

lemma update_lock_frame:
  "updateLockfile L cluster mut t = (r, t') \<Longrightarrow> f \<noteq> LockfilePath \<Longrightarrow> f \<noteq> os_temp (sl_OS L LockfilePath) \<Longrightarrow> fs_files t' f = fs_files t f"
  using write_frame [of L LockfilePath _ t r t' f] lockfile_path_facts(1) [of t]
  by (auto simp: updateLockfile_def writeLockfile_def split: sum.splits)

text \<open>C26: Setting a secret writes only the file of its name in the secrets directory, and the lockfile, whatever the
  request and whatever fails; a value that looks like a token and comes through the tool server is not
  stored at all.\<close>

theorem secrets_confined:
  assumes "handleSecretSet L cluster sid (Some req) s = (reply, s')"
  shows "(\<forall>f. fs_files s' f = fs_files s f \<or> f = LockfilePath \<or> f \<in> range (\<lambda>p. os_temp (sl_OS L p)) \<or>
        (envNameOK (sr_Name req) \<and> f = secret_path (sr_Name req))) \<and>
    (sr_Source req = ''mcp'' \<and> LooksLikeSecret (sr_Value req) \<longrightarrow> s' = s \<and> (\<exists>code. reply = Coded code))"
proof (intro conjI allI impI)
  fix f
  show "fs_files s' f = fs_files s f \<or> f = LockfilePath \<or> f \<in> range (\<lambda>p. os_temp (sl_OS L p)) \<or>
      (envNameOK (sr_Name req) \<and> f = secret_path (sr_Name req))"
  proof (rule ccontr)
    assume no: "\<not> ?thesis"
    then have name: "envNameOK (sr_Name req)"
      using assms by (auto simp: handleSecretSet_def split: if_splits)
    have "plain_seg ''secrets''" by (simp add: plain_seg_def)
    then have path: "resolve t (secret_path (sr_Name req)) = secret_path (sr_Name req)" for t
      using binding_path_facts(1) env_name_plain [OF name] by (simp add: secret_binding)
    have w: "runtimeFileWrite L (secret_path (sr_Name req)) (sr_Value req) s = (r, t) \<Longrightarrow> fs_files t f = fs_files s f" for r t
      using write_frame [of L "secret_path (sr_Name req)" "sr_Value req" s r t f] path [of s] no name by auto
    have "\<exists>r t. runtimeFileWrite L (secret_path (sr_Name req)) (sr_Value req) s = (r, t) \<and> (s' = s \<or> s' = t \<or> s' = snd (recordSecretInLockfile L cluster (sr_Name req) t))"
      using assms by (auto simp: handleSecretSet_def Let_def split: if_splits option.splits prod.splits)
    then have "fs_files s' f = fs_files s f"
      using w update_lock_frame [of L cluster _ _ _ _ f] no unfolding recordSecretInLockfile_def by (metis prod.collapse range_eqI)
    then show False using no by blast
  qed
qed (use assms in \<open>auto simp: handleSecretSet_def split: if_splits\<close>)

definition openai_key :: string where
  "openai_key = ''sk-abcdefghijklmnopqrstuvwx''"

theorem secrets_confined_witness:
  "snd (handleSecretSet one_link ''c'' ''box'' (Some \<lparr>sr_Name = ''KEY'', sr_Value = openai_key, sr_Source = ''mcp''\<rparr>) fresh_box) = fresh_box"
proof -
  have "LooksLikeSecret openai_key" by code_simp
  then show ?thesis
    using secrets_confined [of one_link "''c''" "''box''" "\<lparr>sr_Name = ''KEY'', sr_Value = openai_key, sr_Source = ''mcp''\<rparr>" fresh_box]
    by (metis prod.collapse secret_request.select_convs(2,3))
qed

text \<open>A secret that is set to the empty string, which is how one would clear it, is deployed as the JSON text of
  the runtime's reply.\<close>

theorem empty_secret_becomes_reply:
  assumes "quiet L T" "no_temps T s" "LockfilePath \<notin> T" "has_lock s None" "sid \<noteq> []" "envNameOK name" "secret_path name \<notin> T"
    and "ascii cluster" "int (length (lock_text (add_secret name (current_lock cluster None)))) < defaultReadMaxBytes"
  shows "case handleSecretSet L cluster sid (Some \<lparr>sr_Name = name, sr_Value = [], sr_Source = []\<rparr>) s of (reply, s') \<Rightarrow>
    reply = SecretStored name ''cli'' \<and>
    (\<exists>vals srcs. handleBindingResolve L sid s' = Resolved (vals, srcs) \<and>
       vals name = Some (read_reply_json (secret_path name) \<lparr>rd_Content = [], rd_TotalLines = 0, rd_StartLine = 0, rd_EndLine = 0, rd_Truncated = False\<rparr>))"
proof -
  note name = env_name_plain [OF assms(6)]
  have sec: "plain_seg ''secrets''" by (simp add: plain_seg_def)
  have path: "resolve s (secret_path name) = secret_path name" "secret_path name \<noteq> []" "secret_path name \<noteq> LockfilePath"
    using binding_path_facts(1) [OF sec] name lockfile_not_binding [of "''secrets''" name] by (auto simp: secret_binding)
  define s1 where "s1 = put_file (secret_path name) ([], mode_rw) s"
  define lock where "lock = add_secret name (current_lock cluster None)"
  define s2 where "s2 = put_file LockfilePath (lock_text lock, mode_rw) s1"
  have w: "runtimeFileWrite L (secret_path name) [] s = (None, s1)"
    using write_ok [OF assms(1,2) path(2), of "[]"] path(1) assms(7) json_text_ascii [of "[]"] by (simp add: s1_def)
  have lock_ok: "lock_ok lock"
    using assms(8) name by (simp add: lock_def lock_ok_def add_secret_def current_lock_def empty_lock_def)
  have t1: "no_temps T s1" "has_lock s1 None"
    using assms(2,4,7) path(3) by (simp_all add: s1_def no_temps_put has_lock_def)
  have up: "updateLockfile L cluster (add_secret name) s1 = (None, s2)"
    using update_lock_ok [OF assms(1) t1(1) assms(3) t1(2), of "add_secret name" cluster] lock_ok by (simp add: lock_def s2_def)
  have lock2: "has_lock s2 (Some lock)" using lock_ok assms(9) by (simp add: has_lock_def s2_def lock_def)
  have f: "fs_files s2 (binding_path ''secrets'' name) = Some ([], mode_rw)" using path(3) by (simp add: s2_def s1_def secret_binding)
  have val: "resolve_file L s2 (secret_path name) = Some (read_back (secret_path name) [])"
    using resolve_file_ok [OF assms(1) sec _ f] name by (simp add: secret_binding defaultReadMaxBytes_def)
  have empty: "read_back (secret_path name) [] = read_reply_json (secret_path name)
      \<lparr>rd_Content = [], rd_TotalLines = 0, rd_StartLine = 0, rd_EndLine = 0, rd_Truncated = False\<rparr>"
    by (simp add: read_back_def text_read_def raw_lines_def json_text_ascii)
  have "lk_Bindings lock = [] \<and> lk_Secrets lock = [name]" by (simp add: lock_def add_secret_def current_lock_def empty_lock_def)
  then have "handleBindingResolve L sid s2 = Resolved ([name \<mapsto> read_back (secret_path name) []], [name \<mapsto> ''secret''])"
    using read_lock_ok [OF assms(1) lock2] assms(5) val by (simp add: handleBindingResolve_def resolve_secret_def)
  moreover have "name \<noteq> []" "\<not> LooksLikeSecret []" using assms(6) by (auto simp: envNameOK_def LooksLikeSecret_def)
  ultimately show ?thesis
    using assms(5,6) w up empty by (simp add: handleSecretSet_def recordSecretInLockfile_def)
qed

theorem empty_secret_becomes_reply_witness:
  "\<exists>s' vals srcs. handleSecretSet one_link ''c'' ''box'' (Some \<lparr>sr_Name = ''KEY'', sr_Value = [], sr_Source = []\<rparr>) fresh_box = (SecretStored ''KEY'' ''cli'', s') \<and>
     handleBindingResolve one_link ''box'' s' = Resolved (vals, srcs) \<and> vals ''KEY'' \<noteq> Some []"
proof -
  have "envNameOK ''KEY''" "secret_path ''KEY'' \<notin> {''/tmp/t''}" "ascii ''c''"
      "int (length (lock_text (add_secret ''KEY'' (current_lock ''c'' None)))) < defaultReadMaxBytes"
    by code_simp+
  from empty_secret_becomes_reply [OF one_link_quiet _ this, of "''box''"] show ?thesis
    using read_reply_nonempty by (auto split: prod.splits)
qed

section \<open>A binding outside its directory\<close>

text \<open>Where the catalog declares no variables for a service, the name of a variable is not checked at all, and
  binding it writes a file of the user's choice anywhere in the sandbox.\<close>

theorem binding_escapes:
  assumes "quiet L T" "no_temps T s" "sid \<noteq> []" "svc \<noteq> []" "catalog_Find catalog ''service'' svc ver = Some entry" "ce_EnvVars entry = None"
    and "plain_seg svc" "list_all plain_seg target" "target \<noteq> []" "''/'' @ join_str ''/'' target \<notin> T" "''/'' @ join_str ''/'' target \<noteq> LockfilePath"
    and "os_temp (sl_OS L LockfilePath) \<noteq> ''/'' @ join_str ''/'' target" "ascii v"
  shows "fs_files (snd (handleBindingCreate L cluster catalog now sid
      (Some \<lparr>br_Service = svc, br_Version = ver, br_Env = [(''../../../../'' @ join_str ''/'' target, v)]\<rparr>) s)) (''/'' @ join_str ''/'' target)
    = Some (v, mode_rw)"
proof -
  let ?k = "''../../../../'' @ join_str ''/'' target" and ?f = "''/'' @ join_str ''/'' target"
  have segs: "binding_path svc ?k = ''/'' @ join_str ''/'' ([''var'', ''run'', ''agentry'', svc, ''..'', ''..'', ''..'', ''..''] @ target)"
    using assms(9) by (cases target) (simp_all add: binding_path_def)
  have "split_on (CHR ''/'') (binding_path svc ?k) = [] # [''var'', ''run'', ''agentry'', svc, ''..'', ''..'', ''..'', ''..''] @ target"
    using assms(8) split_on_append [of "CHR ''/''" "[]"] plain_no_slash [OF assms(8)] assms(7)
      split_join_segs [of "CHR ''/''" "[''var'', ''run'', ''agentry'', svc, ''..'', ''..'', ''..'', ''..''] @ target"]
    unfolding segs by (simp add: plain_seg_def del: join_str.simps)
  then have "resolve s (binding_path svc ?k) = ?f"
    using assms(7,8) by (simp add: resolve_def path_clean_def binding_path_def clean_segs_id plain_seg_def)
  then have "runtimeFileWrite L (binding_path svc ?k) v s = (None, put_file ?f (v, mode_rw) s)"
    using write_ok [OF assms(1,2) binding_path_nonempty, of svc ?k v] assms(10,13) by (simp add: json_text_ascii)
  moreover have "fs_files (snd (recordBindingInLockfile L cluster now svc ver' ks t)) ?f = fs_files t ?f" for ver' ks t
    using update_lock_frame [of L cluster _ t _ _ ?f] assms(11,12) unfolding recordBindingInLockfile_def by (metis prod.collapse)
  ultimately show ?thesis
    using assms(3-6) by (simp add: handleBindingCreate_def validateBindingEnv_def expected_vars_def del: join_str.simps)
qed

theorem binding_escapes_witness:
  "fs_files (snd (handleBindingCreate one_link ''c'' [pg_entry\<lparr>ce_EnvVars := None\<rparr>] 0 ''box''
      (Some \<lparr>br_Service = ''pg'', br_Version = [], br_Env = [(''../../../../etc/profile.d/x.sh'', ''id'')]\<rparr>) fresh_box)) ''/etc/profile.d/x.sh''
    = Some (''id'', mode_rw)"
proof -
  let ?t = "[''etc'', ''profile.d'', ''x.sh'']"
  have j: "join_str ''/'' ?t = ''etc/profile.d/x.sh''" by simp
  have "catalog_Find [pg_entry\<lparr>ce_EnvVars := None\<rparr>] ''service'' ''pg'' [] = Some (pg_entry\<lparr>ce_EnvVars := None\<rparr>)"
      "ce_EnvVars (pg_entry\<lparr>ce_EnvVars := None\<rparr>) = None" "plain_seg ''pg''" "list_all plain_seg ?t"
      "''/'' @ join_str ''/'' ?t \<notin> {''/tmp/t''}" "''/'' @ join_str ''/'' ?t \<noteq> LockfilePath"
      "os_temp (sl_OS one_link LockfilePath) \<noteq> ''/'' @ join_str ''/'' ?t" "ascii ''id''"
    by code_simp+
  from binding_escapes [OF one_link_quiet(1,2) _ _ this(1-4) _ this(5-8), of "''box''" "''c''" 0] show ?thesis
    unfolding j by simp
qed

end
