(* ===== verification/Prov_Docker.thy ===== *)
theory Prov_Docker
  imports Prov_Sandbox
begin

text \<open>
  The backend over a Docker daemon (\<open>pkg/provisioner/docker_client.go\<close>, \<open>docker_egress.go\<close>). The daemon is a parameter, the
  record \<open>daemon\<close> of the calls the code makes, each a function of the daemon's own state \<open>'d\<close>; what is modelled is
  what the code asks of it, in which order, and what it makes of the answers. The backend's own state is the
  overlay of annotations, in memory only. The states a daemon reports are ASCII
  words. Where Go quotes a value in the text of an error, the value stands here as it is: no caller reads it.
\<close>

section \<open>The daemon\<close>

datatype daemon_error_kind = DNotFound | DConflict | DOther

record daemon_error =
  de_kind :: daemon_error_kind
  de_text :: string

datatype docker_mount = BindMount string string bool | AnonymousVolume string

record host_config =
  hc_PortBindings :: "(string \<times> string \<times> string) list" \<comment> \<open>container port, host address, host port\<close>
  hc_RestartPolicy :: "(string \<times> int) option"
  hc_CapAdd :: "string list"
  hc_CapDrop :: "string list"
  hc_SecurityOpt :: "string list"
  hc_Ulimits :: "(string \<times> int \<times> int) list"
  hc_Devices :: "(string \<times> string \<times> string) list"
  hc_PidsLimit :: "int option"
  hc_NanoCPUs :: int
  hc_Memory :: int
  hc_ShmSize :: int
  hc_Mounts :: "docker_mount list"
  hc_Runtime :: string
  hc_NetworkMode :: string
  hc_AutoRemove :: bool

definition plain_host_config :: host_config where
  "plain_host_config = \<lparr>hc_PortBindings = [], hc_RestartPolicy = None, hc_CapAdd = [], hc_CapDrop = [], hc_SecurityOpt = [],
     hc_Ulimits = [], hc_Devices = [], hc_PidsLimit = None, hc_NanoCPUs = 0, hc_Memory = 0, hc_ShmSize = 0, hc_Mounts = [],
     hc_Runtime = [], hc_NetworkMode = [], hc_AutoRemove = False\<rparr>"

record container_config =
  co_Image :: string
  co_Labels :: "string \<rightharpoonup> string"
  co_ExposedPorts :: "string list"
  co_Env :: "string list"
  co_Cmd :: "string list"
  co_Stdin :: bool \<comment> \<open>open, once, and the three streams attached\<close>

record container_inspect =
  in_State :: "(string \<times> int) option" \<comment> \<open>status and exit code\<close>
  in_Labels :: "string \<rightharpoonup> string"
  in_Ports :: "(string \<rightharpoonup> string list) option" \<comment> \<open>the host ports bound to each port\<close>

record container_summary =
  cs_Labels :: "string \<rightharpoonup> string"
  cs_Ports :: "(int \<times> int) list" \<comment> \<open>private and public\<close>
  cs_State :: string

datatype wait_result = WaitError string | WaitExit int | WaitCancelled string

record 'd daemon =
  da_ImageInspect :: "string \<Rightarrow> 'd \<Rightarrow> string option"
  da_ImagePull :: "string \<Rightarrow> 'd \<Rightarrow> (string + string option) \<times> 'd" \<comment> \<open>refused, or how its progress stream ended\<close>
  da_ContainerCreate :: "container_config \<Rightarrow> host_config \<Rightarrow> string \<Rightarrow> 'd \<Rightarrow> (daemon_error + string) \<times> 'd"
  da_ContainerStart :: "string \<Rightarrow> 'd \<Rightarrow> string option \<times> 'd"
  da_ContainerRemove :: "string \<Rightarrow> bool \<Rightarrow> 'd \<Rightarrow> daemon_error option \<times> 'd" \<comment> \<open>by force; with its volumes\<close>
  da_ContainerInspect :: "string \<Rightarrow> 'd \<Rightarrow> daemon_error + container_inspect"
  da_ContainerList :: "string \<Rightarrow> 'd \<Rightarrow> string + container_summary list" \<comment> \<open>all with a label\<close>
  da_ContainerAttach :: "string \<Rightarrow> 'd \<Rightarrow> string option \<times> 'd"
  da_StdinWrite :: "string \<Rightarrow> string \<Rightarrow> 'd \<Rightarrow> string option \<times> 'd"
  da_StdinClose :: "string \<Rightarrow> 'd \<Rightarrow> string option \<times> 'd"
  da_Drain :: "string \<Rightarrow> 'd \<Rightarrow> (string option \<times> string) \<times> 'd" \<comment> \<open>error, and what came on stderr\<close>
  da_ContainerWait :: "string \<Rightarrow> 'd \<Rightarrow> wait_result \<times> 'd"
  da_ExecCreate :: "string \<Rightarrow> string list \<Rightarrow> 'd \<Rightarrow> (string + string) \<times> 'd"
  da_ExecAttach :: "string \<Rightarrow> 'd \<Rightarrow> (string + (string option \<times> string \<times> string)) \<times> 'd" \<comment> \<open>read error, stdout, stderr\<close>
  da_ExecInspect :: "string \<Rightarrow> 'd \<Rightarrow> string + int"
  da_Sleep :: "'d \<Rightarrow> 'd"

record 'd docker_state =
  ds_daemon :: 'd
  ds_overlay :: "string \<rightharpoonup> annotations"

record docker_config =
  db_image :: string
  db_nodeHost :: string
  db_defaultShmBytes :: int
  db_builderMode :: bool

text \<open>\<open>resource.ParseQuantity\<close> with the two readings of a quantity that the code takes: thousandths, and units.\<close>

record quantities =
  qt_error :: quantity_parser
  qt_milli :: "string \<Rightarrow> int"
  qt_value :: "string \<Rightarrow> int"

section \<open>Helpers\<close>

definition dockerAnnotationPrefix :: string where "dockerAnnotationPrefix = ''ad-sandbox.io/''"
definition containerHTTPPort :: string where "containerHTTPPort = ''8080/tcp''"
definition loopbackHostIP :: string where "loopbackHostIP = ''127.0.0.1''"

definition isMutableTag :: "string \<Rightarrow> bool" where
  "isMutableTag ref =
     (if contains_str ref ''@'' then False
      else (let name = (case last_index ref ''/'' of Some i \<Rightarrow> drop (i + 1) ref | None \<Rightarrow> ref) in
        case last_index name '':'' of
          None \<Rightarrow> True
        | Some colon \<Rightarrow> drop (colon + 1) name = ''latest''))"

text \<open>The error, which the only caller drops, and the daemon after it.\<close>

definition ensureImage :: "'d daemon \<Rightarrow> string \<Rightarrow> 'd \<Rightarrow> string option \<times> 'd" where
  "ensureImage D ref d =
     (let present = (da_ImageInspect D ref d = None) in
      if present \<and> \<not> isMutableTag ref then (None, d)
      else (case da_ImagePull D ref d of
          (Inl e, d') \<Rightarrow> (if present then None else Some (''image pull: '' @ e), d')
        | (Inr r, d') \<Rightarrow> (r, d')))"

definition isConflictErr :: "daemon_error \<Rightarrow> bool" where
  "isConflictErr e \<longleftrightarrow> de_kind e = DConflict \<or> contains_str (to_lower (de_text e)) ''already in use''"

fun mounts_loop :: "nat \<Rightarrow> volume list \<Rightarrow> string + docker_mount list" where
  "mounts_loop i [] = Inr []"
| "mounts_loop i (v # vs) =
     (let cons = (\<lambda>m. map_sum id (Cons m) (mounts_loop (Suc i) vs));
          what = ''volumes['' @ format_nat 10 i @ ''] '' @ vo_Name v
      in case vo_HostPath v of
           Some (p, t) \<Rightarrow> cons (BindMount p (vo_MountPath v) (vo_ReadOnly v))
         | None \<Rightarrow>
             if vo_EmptyDir v \<noteq> None then cons (AnonymousVolume (vo_MountPath v))
             else if vo_PVC v \<noteq> None \<or> vo_ConfigMap v \<noteq> None \<or> vo_Secret v \<noteq> None then
               Inl (what @ '': pvc/config_map/secret sources are not supported by the docker backend'')
             else Inl (what @ '': no source set''))"

definition dockerMountsFromVolumes :: "volume list \<Rightarrow> string + docker_mount list" where
  "dockerMountsFromVolumes vols = mounts_loop 0 vols"

text \<open>CPU shares in billionths of a core; the product is an \<open>int64\<close>. A GPU or storage limit is ignored.\<close>

definition applyDockerResources :: "quantities \<Rightarrow> resources option \<Rightarrow> host_config \<Rightarrow> string + host_config" where
  "applyDockerResources q r hc =
     (case Option.bind r rs_Limits of
        None \<Rightarrow> Inr hc
      | Some lim \<Rightarrow>
          (case (if rl_CPU lim = [] then Inr hc
                 else (case qt_error q (rl_CPU lim) of
                     Some e \<Rightarrow> Inl (''cpu '' @ rl_CPU lim @ '': '' @ e)
                   | None \<Rightarrow> Inr (hc\<lparr>hc_NanoCPUs := wrap64 (qt_milli q (rl_CPU lim) * 1000000)\<rparr>))) of
             Inl e \<Rightarrow> Inl e
           | Inr hc' \<Rightarrow>
               if rl_Memory lim = [] then Inr hc'
               else (case qt_error q (rl_Memory lim) of
                   Some e \<Rightarrow> Inl (''memory '' @ rl_Memory lim @ '': '' @ e)
                 | None \<Rightarrow> Inr (hc'\<lparr>hc_Memory := qt_value q (rl_Memory lim)\<rparr>))))"

section \<open>Creating a sandbox\<close>

text \<open>The annotations as labels, each key once with its prefix. Go picks at random between two keys that
  differ in the prefix alone; here the prefixed one wins.\<close>

definition annotation_label :: "annotations \<Rightarrow> string \<Rightarrow> string option" where
  "annotation_label a k =
     (if has_prefix k dockerAnnotationPrefix then
        (case a k of Some v \<Rightarrow> Some v
         | None \<Rightarrow> (let t = trim_prefix k dockerAnnotationPrefix in
             if has_prefix t dockerAnnotationPrefix then None else a t))
      else None)"

definition sandbox_labels :: "sandbox_spec \<Rightarrow> string \<rightharpoonup> string" where
  "sandbox_labels spec =
     (let base = [''app'' \<mapsto> ''agentry-sandbox'', ''sandbox-id'' \<mapsto> ss_SandboxID spec] ++ ss_Labels spec;
          threaded = (if ss_ThreadID spec \<noteq> [] then base(''thread-id'' \<mapsto> ss_ThreadID spec) else base)
      in threaded ++ annotation_label (spec_annotations spec))"

definition security_posture :: "bool \<Rightarrow> host_config" where
  "security_posture builder =
     (let hc = plain_host_config\<lparr>hc_PortBindings := [(containerHTTPPort, loopbackHostIP, [])],
            hc_RestartPolicy := Some (''on-failure'', 3), hc_PidsLimit := Some 4096\<rparr>
      in if builder then hc\<lparr>hc_SecurityOpt := [''seccomp=unconfined'', ''apparmor=unconfined'', ''no-new-privileges:true''],
           hc_CapAdd := [''SYS_ADMIN''], hc_Ulimits := [(''nproc'', 1048576, 1048576), (''nofile'', 1048576, 1048576)],
           hc_Devices := [(''/dev/fuse'', ''/dev/fuse'', ''rwm'')]\<rparr>
         else hc\<lparr>hc_CapDrop := [''ALL''], hc_SecurityOpt := [''no-new-privileges:true''],
           hc_Ulimits := [(''nproc'', 65536, 65536), (''nofile'', 65536, 65536)]\<rparr>)"

definition sandbox_host_config :: "docker_config \<Rightarrow> quantities \<Rightarrow> sandbox_spec \<Rightarrow> string + host_config" where
  "sandbox_host_config cfg q spec =
     (case applyDockerResources q (ss_Resources spec) (security_posture (db_builderMode cfg)) of
        Inl e \<Rightarrow> Inl (''resources: '' @ e)
      | Inr hc \<Rightarrow>
          (let hc = (if db_defaultShmBytes cfg > 0 then hc\<lparr>hc_ShmSize := db_defaultShmBytes cfg\<rparr> else hc) in
           case dockerMountsFromVolumes (ss_Volumes spec) of
             Inl e \<Rightarrow> Inl (''volumes: '' @ e)
           | Inr ms \<Rightarrow>
               (let hc = hc\<lparr>hc_Mounts := ms\<rparr> in
                Inr (if ss_RuntimeClass spec \<noteq> [] then hc\<lparr>hc_Runtime := ss_RuntimeClass spec\<rparr> else hc))))"

definition sandbox_image :: "docker_config \<Rightarrow> sandbox_spec \<Rightarrow> string" where
  "sandbox_image cfg spec = (if ss_Image spec = [] then db_image cfg else ss_Image spec)"

definition sandbox_container_config :: "docker_config \<Rightarrow> sandbox_spec \<Rightarrow> container_config" where
  "sandbox_container_config cfg spec =
     \<lparr>co_Image = sandbox_image cfg spec, co_Labels = sandbox_labels spec, co_ExposedPorts = [containerHTTPPort],
      co_Env = (''SANDBOX_ID='' @ ss_SandboxID spec)
        # (if ss_RuntimeAPIKey spec \<noteq> [] then [''SANDBOX_API_KEY='' @ ss_RuntimeAPIKey spec] else []),
      co_Cmd = [], co_Stdin = False\<rparr>"

text \<open>\<open>docker_egress.go\<close>: the rules are loaded by a sidecar in the sandbox's network namespace.\<close>

definition sidecar_host_config :: "string \<Rightarrow> host_config" where
  "sidecar_host_config mainName = plain_host_config\<lparr>hc_NetworkMode := ''container:'' @ mainName, hc_AutoRemove := True,
     hc_CapAdd := [''NET_ADMIN'']\<rparr>"

definition sidecar_container_config :: "string \<Rightarrow> string \<Rightarrow> container_config" where
  "sidecar_container_config mainName img =
     \<lparr>co_Image = img, co_Labels = [''app'' \<mapsto> ''ad-sandbox-egress-init'', ''sandbox-id-target'' \<mapsto> mainName],
      co_ExposedPorts = [], co_Env = [], co_Cmd = [''sh'', ''-c'', ''nft -f -''], co_Stdin = True\<rparr>"

definition applyEgress :: "'d daemon \<Rightarrow> string \<Rightarrow> string \<Rightarrow> egress_policy \<Rightarrow> 'd \<Rightarrow> string option \<times> 'd" where
  "applyEgress D mainName img policy d =
     (let script = RenderNFT policy in
      if script = [] then (None, d)
      else (case da_ContainerCreate D (sidecar_container_config mainName img) (sidecar_host_config mainName) [] d of
          (Inl e, d1) \<Rightarrow> (Some (''egress sidecar create: '' @ de_text e), d1)
        | (Inr cid, d1) \<Rightarrow>
            (case da_ContainerAttach D cid d1 of
               (Some e, d2) \<Rightarrow> (Some (''egress sidecar attach: '' @ e), snd (da_ContainerRemove D cid False d2))
             | (None, d2) \<Rightarrow>
                 (case da_ContainerStart D cid d2 of
                    (Some e, d3) \<Rightarrow> (Some (''egress sidecar start: '' @ e), d3)
                  | (None, d3) \<Rightarrow>
                      (case da_StdinWrite D cid script d3 of
                         (Some e, d4) \<Rightarrow> (Some (''egress sidecar write: '' @ e), d4)
                       | (None, d4) \<Rightarrow>
                           (case da_StdinClose D cid d4 of
                              (Some e, d5) \<Rightarrow> (Some (''egress sidecar close stdin: '' @ e), d5)
                            | (None, d5) \<Rightarrow>
                                (case da_Drain D cid d5 of
                                   ((Some e, stderr), d6) \<Rightarrow> (Some (''egress sidecar drain: '' @ e), d6)
                                 | ((None, stderr), d6) \<Rightarrow>
                                     (case da_ContainerWait D cid d6 of
                                        (WaitError e, d7) \<Rightarrow> (Some (''egress sidecar wait: '' @ e), d7)
                                      | (WaitCancelled e, d7) \<Rightarrow> (Some e, d7)
                                      | (WaitExit code, d7) \<Rightarrow>
                                          (if code \<noteq> 0 then Some (''egress sidecar exit='' @ format_int code @ '': '' @ stderr)
                                           else None, d7)))))))))"

text \<open>The state is the daemon's alone: the overlay is not touched.\<close>

definition docker_create :: "docker_config \<Rightarrow> quantities \<Rightarrow> 'd daemon \<Rightarrow> sandbox_spec \<Rightarrow> 'd \<Rightarrow> string option \<times> 'd" where
  "docker_create cfg q D spec d =
     (let img = sandbox_image cfg spec;
          d0 = snd (ensureImage D img d);
          name = pod_name (ss_SandboxID spec)
      in case sandbox_host_config cfg q spec of
           Inl e \<Rightarrow> (Some e, d0)
         | Inr hc \<Rightarrow>
             (case da_ContainerCreate D (sandbox_container_config cfg spec) hc name d0 of
                (Inl e, d1) \<Rightarrow> (if isConflictErr e then None else Some (''container create: '' @ de_text e), d1)
              | (Inr cid, d1) \<Rightarrow>
                  (case da_ContainerStart D cid d1 of
                     (Some e, d2) \<Rightarrow> (Some (''container start: '' @ e), snd (da_ContainerRemove D cid False d2))
                   | (None, d2) \<Rightarrow>
                       if IsZero (ss_Egress spec) then (None, d2)
                       else (case applyEgress D name img (ss_Egress spec) d2 of
                           (Some e, d3) \<Rightarrow> (Some (''egress apply: '' @ e), snd (da_ContainerRemove D cid False d3))
                         | (None, d3) \<Rightarrow> (None, d3)))))"

definition docker_CreatePod :: "docker_config \<Rightarrow> quantities \<Rightarrow> 'd daemon \<Rightarrow> sandbox_spec \<Rightarrow> 'd docker_state
    \<Rightarrow> string option \<times> 'd docker_state" where
  "docker_CreatePod cfg q D spec st =
     (let (e, d) = docker_create cfg q D spec (ds_daemon st) in (e, st\<lparr>ds_daemon := d\<rparr>))"

section \<open>The other operations\<close>

definition sandbox_of_pod :: "string \<Rightarrow> string" where
  "sandbox_of_pod name = trim_prefix name ''sandbox-''"

definition dropOverlay :: "string \<Rightarrow> 'd docker_state \<Rightarrow> 'd docker_state" where
  "dropOverlay name st = st\<lparr>ds_overlay := (ds_overlay st)(sandbox_of_pod name := None)\<rparr>"

definition docker_DeletePod :: "'d daemon \<Rightarrow> string \<Rightarrow> int \<Rightarrow> 'd docker_state \<Rightarrow> string option \<times> 'd docker_state" where
  "docker_DeletePod D name gracePeriod st =
     (case da_ContainerRemove D name True (ds_daemon st) of
        (Some e, d) \<Rightarrow>
          (if de_kind e = DNotFound then (None, dropOverlay name (st\<lparr>ds_daemon := d\<rparr>))
           else (Some (''container remove: '' @ de_text e), st\<lparr>ds_daemon := d\<rparr>))
      | (None, d) \<Rightarrow> (None, dropOverlay name (st\<lparr>ds_daemon := d\<rparr>)))"

definition dockerStateToPhase :: "(string \<times> int) option \<Rightarrow> string" where
  "dockerStateToPhase s =
     (case s of
        None \<Rightarrow> ''Unknown''
      | Some (status, exitCode) \<Rightarrow>
          (let w = to_lower status in
           if w = ''running'' then ''Running''
           else if w \<in> {''created'', ''restarting''} then ''Pending''
           else if w = ''paused'' then ''Paused''
           else if w \<in> {''exited'', ''dead'', ''removing''} then (if exitCode = 0 then ''Succeeded'' else ''Failed'')
           else ''Unknown''))"

definition docker_GetPodPhase :: "'d daemon \<Rightarrow> string \<Rightarrow> 'd docker_state \<Rightarrow> string" where
  "docker_GetPodPhase D name st =
     (case da_ContainerInspect D name (ds_daemon st) of
        Inl e \<Rightarrow> if de_kind e = DNotFound then ''NotFound'' else ''Unknown''
      | Inr insp \<Rightarrow> dockerStateToPhase (in_State insp))"

definition parse_int32 :: "string \<Rightarrow> int option" where
  "parse_int32 s = (case parse_int s of
     Some i \<Rightarrow> if - (2 ^ 31) \<le> i \<and> i < 2 ^ 31 then Some i else None | None \<Rightarrow> None)"

definition docker_GetNodePort :: "'d daemon \<Rightarrow> string \<Rightarrow> 'd docker_state \<Rightarrow> string + int" where
  "docker_GetNodePort D name st =
     (case da_ContainerInspect D (trim_suffix name ''-svc'') (ds_daemon st) of
        Inl e \<Rightarrow> Inl (''container inspect: '' @ de_text e)
      | Inr insp \<Rightarrow>
          (case in_Ports insp of
             None \<Rightarrow> Inl ''no NetworkSettings on container''
           | Some ports \<Rightarrow>
               (case ports containerHTTPPort of
                  Some (hostPort # _) \<Rightarrow>
                    (case parse_int32 hostPort of
                       Some p \<Rightarrow> Inr p | None \<Rightarrow> Inl (''parse host port '' @ hostPort))
                | _ \<Rightarrow> Inl (''no host binding for '' @ containerHTTPPort))))"

definition dockerListStateToPhase :: "string \<Rightarrow> string" where
  "dockerListStateToPhase state =
     (let w = to_lower state in
      if w = ''running'' then ''Running''
      else if w \<in> {''created'', ''restarting''} then ''Pending''
      else if w = ''paused'' then ''Paused''
      else if w \<in> {''exited'', ''dead''} then ''Failed''
      else ''Unknown'')"

definition expiresAtFor :: "(string \<rightharpoonup> annotations) \<Rightarrow> string \<Rightarrow> (string \<rightharpoonup> string) \<Rightarrow> string" where
  "expiresAtFor overlay sandboxID labels =
     (case Option.bind (overlay sandboxID) (\<lambda>ov. ov AnnotationExpiresAt) of
        Some v \<Rightarrow> v
      | None \<Rightarrow> annotation labels AnnotationExpiresAt)"

text \<open>One container of the list, or nothing: no identifier, or no published port.\<close>

definition listed_sandbox :: "docker_config \<Rightarrow> (string \<rightharpoonup> annotations) \<Rightarrow> container_summary \<Rightarrow> sandbox_info option" where
  "listed_sandbox cfg overlay c =
     (let sid = annotation (cs_Labels c) ''sandbox-id'' in
      if sid = [] then None
      else (case find (\<lambda>(private, public). private = 8080 \<and> public > 0) (cs_Ports c) of
          None \<Rightarrow> None
        | Some (private, hostPort) \<Rightarrow> Some \<lparr>si_SandboxID = sid,
            si_SandboxURL = ''http://'' @ db_nodeHost cfg @ '':'' @ format_int hostPort,
            si_Status = dockerListStateToPhase (cs_State c), si_ExpiresAt = expiresAtFor overlay sid (cs_Labels c)\<rparr>))"

definition docker_ListSandboxes :: "docker_config \<Rightarrow> 'd daemon \<Rightarrow> 'd docker_state \<Rightarrow> string + sandbox_info list" where
  "docker_ListSandboxes cfg D st =
     (case da_ContainerList D ''app=agentry-sandbox'' (ds_daemon st) of
        Inl e \<Rightarrow> Inl (''container list: '' @ e)
      | Inr cs \<Rightarrow> Inr (List.map_filter (listed_sandbox cfg (ds_overlay st)) cs))"

text \<open>The output read before a failure is dropped by every caller.\<close>

definition docker_ExecInPod :: "'d daemon \<Rightarrow> string \<Rightarrow> string list \<Rightarrow> 'd docker_state \<Rightarrow> (string + string) \<times> 'd docker_state" where
  "docker_ExecInPod D name cmd st =
     (case da_ExecCreate D name cmd (ds_daemon st) of
        (Inl e, d1) \<Rightarrow> (Inl (''exec create: '' @ e), st\<lparr>ds_daemon := d1\<rparr>)
      | (Inr xid, d1) \<Rightarrow>
          (case da_ExecAttach D xid d1 of
             (Inl e, d2) \<Rightarrow> (Inl (''exec attach: '' @ e), st\<lparr>ds_daemon := d2\<rparr>)
           | (Inr (Some e, out, err), d2) \<Rightarrow>
               (Inl (''read exec output: '' @ e @ '' (stderr='' @ err @ '')''), st\<lparr>ds_daemon := d2\<rparr>)
           | (Inr (None, out, err), d2) \<Rightarrow>
               ((case da_ExecInspect D xid d2 of
                   Inl e \<Rightarrow> Inr out
                 | Inr code \<Rightarrow> if code \<noteq> 0 then Inl (''exec exit '' @ format_int code @ '': '' @ trim_space err) else Inr out),
                st\<lparr>ds_daemon := d2\<rparr>)))"

definition docker_GetPodAnnotations :: "'d daemon \<Rightarrow> string \<Rightarrow> 'd docker_state \<Rightarrow> string + annotations" where
  "docker_GetPodAnnotations D name st =
     (case da_ContainerInspect D name (ds_daemon st) of
        Inl e \<Rightarrow> Inl (if de_kind e = DNotFound then ''container '' @ name @ '' not found'' else ''container inspect: '' @ de_text e)
      | Inr insp \<Rightarrow>
          (let labelled = (\<lambda>k. if has_prefix k dockerAnnotationPrefix then in_Labels insp k else None)
           in Inr (case ds_overlay st (sandbox_of_pod name) of None \<Rightarrow> labelled | Some ov \<Rightarrow> labelled ++ ov)))"

definition docker_SetPodAnnotations :: "string \<Rightarrow> annotations \<Rightarrow> 'd docker_state \<Rightarrow> string option \<times> 'd docker_state" where
  "docker_SetPodAnnotations name a st =
     (if a = Map.empty then (None, st)
      else (let sid = sandbox_of_pod name;
                old = (case ds_overlay st sid of None \<Rightarrow> Map.empty | Some ov \<Rightarrow> ov)
            in (None, st\<lparr>ds_overlay := (ds_overlay st)(sid \<mapsto> old ++ a)\<rparr>)))"

definition docker_backend :: "docker_config \<Rightarrow> quantities \<Rightarrow> 'd daemon \<Rightarrow> 'd docker_state backend" where
  "docker_backend cfg q D = \<lparr>be_CreatePod = docker_CreatePod cfg q D, be_DeletePod = docker_DeletePod D,
     be_GetPodPhase = docker_GetPodPhase D, be_CreateService = (\<lambda>spec st. (None, st)),
     be_DeleteService = (\<lambda>name st. (None, st)), be_GetNodePort = docker_GetNodePort D,
     be_ListSandboxes = docker_ListSandboxes cfg D, be_ExecInPod = docker_ExecInPod D,
     be_GetPodAnnotations = docker_GetPodAnnotations D, be_SetPodAnnotations = docker_SetPodAnnotations,
     be_Sleep = (\<lambda>st. st\<lparr>ds_daemon := da_Sleep D (ds_daemon st)\<rparr>)\<rparr>"

text \<open>A new process has an empty overlay.\<close>

definition restarted :: "'d docker_state \<Rightarrow> 'd docker_state" where
  "restarted st = st\<lparr>ds_overlay := Map.empty\<rparr>"

end
