(* ===== verification/Prov_Daemon.thy ===== *)
theory Prov_Daemon
  imports Prov_Docker
begin

text \<open>
  What the provisioner's handlers do over the Docker backend: which containers the daemon is ever asked for,
  what becomes of a renewed lifetime when the process restarts, and what a stopped sandbox is good for.
\<close>

lemmas docker_ops = docker_backend_def backend.simps

section \<open>The containers asked for\<close>

definition bind_allowed :: "volume set \<Rightarrow> docker_mount \<Rightarrow> bool" where
  "bind_allowed vols m =
     (case m of AnonymousVolume target \<Rightarrow> target \<in> vo_MountPath ` vols
      | BindMount src target ro \<Rightarrow>
          (src, target, ro) \<in> {(p, vo_MountPath v, vo_ReadOnly v) | v p t. v \<in> vols \<and> vo_HostPath v = Some (p, t)})"

text \<open>A sandbox: its runtime on a loopback port of the host only, a bounded number of processes, no new privileges, its own network,
  no administration of it, the mounts it was given; and, unless images are built inside, no capability and no device.\<close>

definition confined_sandbox :: "bool \<Rightarrow> volume set \<Rightarrow> string \<Rightarrow> container_config \<Rightarrow> host_config \<Rightarrow> bool" where
  "confined_sandbox builder vols key c h \<longleftrightarrow>
     hc_PortBindings h = [(''8080/tcp'', ''127.0.0.1'', [])] \<and> hc_PidsLimit h = Some 4096
     \<and> ''no-new-privileges:true'' \<in> set (hc_SecurityOpt h) \<and> hc_NetworkMode h = [] \<and> ''NET_ADMIN'' \<notin> set (hc_CapAdd h)
     \<and> list_all (bind_allowed vols) (hc_Mounts h)
     \<and> (key \<noteq> [] \<longrightarrow> ''SANDBOX_API_KEY='' @ key \<in> set (co_Env c))
     \<and> (\<not> builder \<longrightarrow> hc_CapDrop h = [''ALL''] \<and> hc_CapAdd h = [] \<and> hc_Devices h = []
         \<and> ''seccomp=unconfined'' \<notin> set (hc_SecurityOpt h))"

text \<open>The loader of a policy: the one container that may administer a network, the sandbox's; it has no mounts and no
  privilege else, runs the one command and goes away.\<close>

definition confined_sidecar :: "string \<Rightarrow> container_config \<Rightarrow> host_config \<Rightarrow> bool" where
  "confined_sidecar img c h \<longleftrightarrow>
     (\<exists>sid. hc_NetworkMode h = ''container:sandbox-'' @ sid) \<and> hc_CapAdd h = [''NET_ADMIN''] \<and> hc_Mounts h = [] \<and> hc_Devices h = []
     \<and> hc_PortBindings h = [] \<and> hc_AutoRemove h \<and> co_Image c = img \<and> co_Cmd c = [''sh'', ''-c'', ''nft -f -''] \<and> co_Env c = []"

lemma mounts_loop_bound:
  "mounts_loop i vols = Inr ms \<Longrightarrow> set vols \<subseteq> V \<Longrightarrow> list_all (bind_allowed V) ms"
proof (induction vols arbitrary: i ms)
  case (Cons v vs)
  obtain m ms' where m: "ms = m # ms'" "mounts_loop (Suc i) vs = Inr ms'"
    and c: "(\<exists>p t. vo_HostPath v = Some (p, t) \<and> m = BindMount p (vo_MountPath v) (vo_ReadOnly v))
      \<or> m = AnonymousVolume (vo_MountPath v)"
    using Cons.prems(1) by (cases "mounts_loop (Suc i) vs") (auto simp: Let_def split: option.splits if_splits)
  have "v \<in> V" using Cons.prems(2) by simp
  then have "bind_allowed V m" using c by (auto simp: bind_allowed_def) (metis)
  then show ?case using m Cons.IH [OF m(2)] Cons.prems(2) by simp
qed simp

lemma applyDockerResources_changes:
  "applyDockerResources q r hc = Inr hc' \<Longrightarrow> hc' = hc\<lparr>hc_NanoCPUs := hc_NanoCPUs hc', hc_Memory := hc_Memory hc'\<rparr>"
  unfolding applyDockerResources_def by (simp split: option.splits if_splits; elim subst; simp)

lemma host_config_confined:
  assumes "sandbox_host_config cfg q spec = Inr hc" and "set (ss_Volumes spec) \<subseteq> V"
  shows "confined_sandbox (db_builderMode cfg) V (ss_RuntimeAPIKey spec) (sandbox_container_config cfg spec) hc"
proof -
  obtain h ms where h: "applyDockerResources q (ss_Resources spec) (security_posture (db_builderMode cfg)) = Inr h"
    and ms: "mounts_loop 0 (ss_Volumes spec) = Inr ms"
    and hc: "hc = (let h1 = (if db_defaultShmBytes cfg > 0 then h\<lparr>hc_ShmSize := db_defaultShmBytes cfg\<rparr> else h)\<lparr>hc_Mounts := ms\<rparr>
        in if ss_RuntimeClass spec \<noteq> [] then h1\<lparr>hc_Runtime := ss_RuntimeClass spec\<rparr> else h1)"
    using assms(1) by (auto simp: sandbox_host_config_def dockerMountsFromVolumes_def Let_def split: sum.splits)
  obtain c m where hm: "h = (security_posture (db_builderMode cfg))\<lparr>hc_NanoCPUs := c, hc_Memory := m\<rparr>"
    using applyDockerResources_changes [OF h] by metis
  show ?thesis
    using mounts_loop_bound [OF ms assms(2)]
    by (auto simp: confined_sandbox_def hc hm security_posture_def plain_host_config_def Let_def
        sandbox_container_config_def containerHTTPPort_def loopbackHostIP_def)
qed

lemma sidecar_confined: "confined_sidecar img (sidecar_container_config (pod_name sid) img) (sidecar_host_config (pod_name sid))"
  by (auto simp: confined_sidecar_def sidecar_container_config_def sidecar_host_config_def plain_host_config_def pod_name_def)

lemma daemon_create_update [simp]:
  "da_ContainerCreate (D\<lparr>da_ContainerCreate := f\<rparr>) = f"
  "da_ContainerStart (D\<lparr>da_ContainerCreate := f\<rparr>) = da_ContainerStart D"
  "da_ContainerRemove (D\<lparr>da_ContainerCreate := f\<rparr>) = da_ContainerRemove D"
  "da_ContainerAttach (D\<lparr>da_ContainerCreate := f\<rparr>) = da_ContainerAttach D"
  "da_StdinWrite (D\<lparr>da_ContainerCreate := f\<rparr>) = da_StdinWrite D"
  "da_StdinClose (D\<lparr>da_ContainerCreate := f\<rparr>) = da_StdinClose D"
  "da_Drain (D\<lparr>da_ContainerCreate := f\<rparr>) = da_Drain D"
  "da_ContainerWait (D\<lparr>da_ContainerCreate := f\<rparr>) = da_ContainerWait D"
  "da_ImagePull (D\<lparr>da_ContainerCreate := f\<rparr>) = da_ImagePull D"
  "da_ImageInspect (D\<lparr>da_ContainerCreate := f\<rparr>) = da_ImageInspect D"
  "da_ExecAttach (D\<lparr>da_ContainerCreate := f\<rparr>) = da_ExecAttach D"
  "da_ExecInspect (D\<lparr>da_ContainerCreate := f\<rparr>) = da_ExecInspect D"
  by simp_all

lemma applyEgress_same:
  assumes "\<And>d. f (sidecar_container_config n img) (sidecar_host_config n) [] d
    = da_ContainerCreate D (sidecar_container_config n img) (sidecar_host_config n) [] d"
  shows "applyEgress (D\<lparr>da_ContainerCreate := f\<rparr>) n img p d = applyEgress D n img p d"
  unfolding applyEgress_def daemon_create_update assms ..

lemma ensureImage_same [simp]: "ensureImage (D\<lparr>da_ContainerCreate := f\<rparr>) ref d = ensureImage D ref d"
  unfolding ensureImage_def daemon_create_update ..

lemma docker_create_same:
  assumes sandbox: "\<And>h d. sandbox_host_config cfg q spec = Inr h \<Longrightarrow>
      f (sandbox_container_config cfg spec) h (pod_name (ss_SandboxID spec)) d
        = da_ContainerCreate D (sandbox_container_config cfg spec) h (pod_name (ss_SandboxID spec)) d"
    and sidecar: "\<And>d. f (sidecar_container_config (pod_name (ss_SandboxID spec)) (sandbox_image cfg spec))
        (sidecar_host_config (pod_name (ss_SandboxID spec))) [] d
      = da_ContainerCreate D (sidecar_container_config (pod_name (ss_SandboxID spec)) (sandbox_image cfg spec))
        (sidecar_host_config (pod_name (ss_SandboxID spec))) [] d"
  shows "docker_create cfg q (D\<lparr>da_ContainerCreate := f\<rparr>) spec d = docker_create cfg q D spec d"
proof (cases "sandbox_host_config cfg q spec")
  case (Inr h)
  note e = applyEgress_same [where D = D and f = f and n = "pod_name (ss_SandboxID spec)" and img = "sandbox_image cfg spec", OF sidecar]
  show ?thesis unfolding docker_create_def Let_def Inr sum.case daemon_create_update sandbox [OF Inr] e ensureImage_same ..
qed (simp add: docker_create_def Let_def)

text \<open>The other operations do not create containers.\<close>

lemma backend_create_update:
  "docker_backend cfg q (D\<lparr>da_ContainerCreate := f\<rparr>)
    = (docker_backend cfg q D)\<lparr>be_CreatePod := docker_CreatePod cfg q (D\<lparr>da_ContainerCreate := f\<rparr>)\<rparr>"
proof -
  have "docker_ExecInPod (D\<lparr>da_ContainerCreate := f\<rparr>) = docker_ExecInPod D"
    unfolding fun_eq_iff docker_ExecInPod_def daemon_create_update by simp
  then show ?thesis
    by (simp add: docker_backend_def fun_eq_iff docker_DeletePod_def docker_GetPodPhase_def docker_GetNodePort_def
      docker_ListSandboxes_def docker_GetPodAnnotations_def)
qed

lemma backend_update [simp]:
  "be_CreatePod (B\<lparr>be_CreatePod := f\<rparr>) = f"
  "be_GetPodPhase (B\<lparr>be_CreatePod := f\<rparr>) = be_GetPodPhase B"
  "be_CreateService (B\<lparr>be_CreatePod := f\<rparr>) = be_CreateService B"
  "be_DeletePod (B\<lparr>be_CreatePod := f\<rparr>) = be_DeletePod B"
  by simp_all

lemma live_port_update [simp]: "live_port (B\<lparr>be_CreatePod := f\<rparr>) = live_port B"
  by (simp add: fun_eq_iff live_port_def)

lemma await_port_update [simp]: "await_port (B\<lparr>be_CreatePod := f\<rparr>) svc k s = await_port B svc k s"
  by (induction k arbitrary: s) (simp_all split: option.split)

lemma alloc_update [simp]: "allocFreshSandboxID (B\<lparr>be_CreatePod := f\<rparr>) rnd base s = allocFreshSandboxID B rnd base s"
proof -
  have "alloc_loop (B\<lparr>be_CreatePod := f\<rparr>) s c xs = alloc_loop B s c xs" for c xs
    by (induction xs) (simp_all add: Let_def split: sum.split)
  then show ?thesis by (simp add: allocFreshSandboxID_def Let_def)
qed

lemma create_name_update [simp]: "create_name (B\<lparr>be_CreatePod := f\<rparr>) cfg rnd req s = create_name B cfg rnd req s"
  unfolding create_name_def backend_update live_port_update alloc_update ..

lemma handleCreate_update:
  assumes "\<And>req sid s. create_checks quantity env cfg body = Inr req \<Longrightarrow>
    f (create_spec cfg now req sid) s = be_CreatePod B (create_spec cfg now req sid) s"
  shows "handleCreate (B\<lparr>be_CreatePod := f\<rparr>) quantity env cfg ready rnd now body s
    = handleCreate B quantity env cfg ready rnd now body s"
proof (cases "create_checks quantity env cfg body")
  case (Inr req)
  note c = assms [OF Inr]
  have "create_pod_and_service (B\<lparr>be_CreatePod := f\<rparr>) cfg ready now req sid s = create_pod_and_service B cfg ready now req sid s" for sid
    unfolding create_pod_and_service_def Let_def backend_update c await_port_update ..
  then show ?thesis by (simp add: handleCreate_def Inr split: sum.split)
qed (simp add: handleCreate_def)

lemma merged_volumes: "set (mergeDefaultVolumes req defaults) \<subseteq> set req \<union> set defaults"
  by (auto simp: mergeDefaultVolumes_def)

lemma checked_volumes:
  assumes "create_checks quantity env cfg (Some r) = Inr req"
  shows "set (cr_Volumes req) \<subseteq> set (cr_Volumes r) \<union> set (pc_DefaultVolumes cfg)"
proof -
  have "cr_Volumes req = mergeDefaultVolumes (cr_Volumes r) (pc_DefaultVolumes cfg)"
    using assms by (auto simp: create_checks_def Let_def split: if_splits option.splits sum.splits)
  then show ?thesis using merged_volumes [of "cr_Volumes r" "pc_DefaultVolumes cfg"] by simp
qed


section \<open>A daemon with one sandbox\<close>

text \<open>For the concrete instances: the labels of the one container and whether it runs.\<close>

type_synonym tiny = "((string \<rightharpoonup> string) \<times> bool) option"

definition tiny_inspect :: "string \<Rightarrow> tiny \<Rightarrow> daemon_error + container_inspect" where
  "tiny_inspect n d =
     (case (if n = ''sandbox-a'' then d else None) of
        None \<Rightarrow> Inl \<lparr>de_kind = DNotFound, de_text = ''No such container''\<rparr>
      | Some (l, up) \<Rightarrow> Inr \<lparr>in_State = Some (if up then ''running'' else ''exited'', 0), in_Labels = l,
          in_Ports = Some (if up then [''8080/tcp'' \<mapsto> [''32768'']] else Map.empty)\<rparr>)"

definition tiny_list :: "tiny \<Rightarrow> container_summary list" where
  "tiny_list d = (case d of None \<Rightarrow> [] | Some (l, up) \<Rightarrow>
     [\<lparr>cs_Labels = l, cs_Ports = (if up then [(8080, 32768)] else []), cs_State = (if up then ''running'' else ''exited'')\<rparr>])"

definition tiny_daemon :: "tiny daemon" where
  "tiny_daemon = \<lparr>da_ImageInspect = (\<lambda>r d. None), da_ImagePull = (\<lambda>r d. (Inr None, d)),
     da_ContainerCreate = (\<lambda>c h n d. if d \<noteq> None then (Inl \<lparr>de_kind = DConflict, de_text = ''in use''\<rparr>, d)
       else (Inr n, Some (co_Labels c, False))),
     da_ContainerStart = (\<lambda>n d. (None, map_option (\<lambda>(l, up). (l, True)) d)), da_ContainerRemove = (\<lambda>n v d. (None, None)),
     da_ContainerInspect = tiny_inspect, da_ContainerList = (\<lambda>l d. Inr (tiny_list d)),
     da_ContainerAttach = (\<lambda>n d. (None, d)), da_StdinWrite = (\<lambda>n t d. (None, d)), da_StdinClose = (\<lambda>n d. (None, d)),
     da_Drain = (\<lambda>n d. ((None, []), d)), da_ContainerWait = (\<lambda>n d. (WaitExit 0, d)),
     da_ExecCreate = (\<lambda>n c d. (Inr n, d)), da_ExecAttach = (\<lambda>x d. (Inr (None, [], []), d)), da_ExecInspect = (\<lambda>x d. Inr 0),
     da_Sleep = id\<rparr>"

definition tiny_docker :: docker_config where
  "tiny_docker = \<lparr>db_image = ''agentry/runtime:latest'', db_nodeHost = ''localhost'', db_defaultShmBytes = 0, db_builderMode = False\<rparr>"

definition tiny_quantities :: quantities where
  "tiny_quantities = \<lparr>qt_error = (\<lambda>s. None), qt_milli = (\<lambda>s. 1000), qt_value = (\<lambda>s. 1024)\<rparr>"

definition tiny_config :: prov_config where
  "tiny_config = \<lparr>pc_SandboxImage = [], pc_Labels = Map.empty, pc_NodeHost = ''localhost'', pc_BridgeURL = [],
     pc_DefaultVolumes = [], pc_DefaultEgress = \<lparr>ep_Mode = [], ep_Rules = []\<rparr>, pc_RuntimeAPIKey = ''k''\<rparr>"

definition tiny_request :: create_request where
  "tiny_request = \<lparr>cr_SandboxID = ''a'', cr_ThreadID = [], cr_Resources = None, cr_RuntimeClass = [], cr_TTLSeconds = 60,
     cr_Volumes = [], cr_Egress = \<lparr>ep_Mode = [], ep_Rules = []\<rparr>, cr_ReuseExisting = False\<rparr>"


section \<open>A renewal and a restart\<close>

lemma listed_sandbox_deadline:
  "listed_sandbox cfg ov c = Some i \<Longrightarrow> si_ExpiresAt i = expiresAtFor ov (si_SandboxID i) (cs_Labels c)"
  by (auto simp: listed_sandbox_def Let_def split: if_splits option.splits)

lemma listed_sandbox_present:
  assumes "cs_Labels c ''sandbox-id'' = Some sid" "sid \<noteq> []" "(8080, port) \<in> set (cs_Ports c)" "0 < port"
  shows "\<exists>i. listed_sandbox cfg ov c = Some i \<and> si_SandboxID i = sid \<and> si_ExpiresAt i = expiresAtFor ov sid (cs_Labels c)"
proof -
  have "find (\<lambda>(private, public). private = 8080 \<and> public > 0) (cs_Ports c) \<noteq> None"
    using assms(3,4) by (auto simp: find_None_iff)
  then show ?thesis using assms(1,2) by (auto simp: listed_sandbox_def annotation_def Let_def split: option.splits)
qed

lemma docker_renewed:
  assumes "da_ContainerInspect D (pod_name sid) (ds_daemon st) = Inr insp" and "0 < ttl"
  shows "handleRenew (docker_backend dcfg q D) now sid (Some ttl) st
    = (Renewed sid (expiresAtFromTTL now ttl) ttl, snd (docker_SetPodAnnotations (pod_name sid) (the (ttlAnnotations now ttl)) st))"
proof -
  have nz: "the (ttlAnnotations now ttl) \<noteq> Map.empty" using assms(2) by (simp add: ttlAnnotations_def)
  have x: "annotation (the (ttlAnnotations now ttl)) AnnotationExpiresAt = expiresAtFromTTL now ttl"
    using assms(2) by (simp add: ttlAnnotations_def annotation_def)
  show ?thesis
    using assms nz x
    by (simp add: handleRenew_def docker_ops docker_GetPodAnnotations_def docker_SetPodAnnotations_def Let_def)
qed

text \<open>A renewed lifetime lives in the process's memory: when the provisioner restarts, the sandbox falls back to
  the deadline it was created with, and the next sweep finds it expired though its owner was promised more.\<close>

theorem renewal_lost_at_restart:
  assumes "da_ContainerInspect D (pod_name sid) (ds_daemon st) = Inr insp"
    and "da_ContainerList D ''app=agentry-sandbox'' (ds_daemon st) = Inr cs" and "c \<in> set cs" and "cs_Labels c = in_Labels insp"
    and "cs_Labels c ''sandbox-id'' = Some sid" and "sid \<noteq> []" and "(8080, port) \<in> set (cs_Ports c)" and "0 < port"
    and "in_Labels insp AnnotationExpiresAt = Some old" and "deadline_passed old later"
    and "0 < ttl" and "ttl \<le> max_lifetime" and "0 \<le> now" and "now + ttl * Second < stamp_limit * Second"
    and "later < (now div Second + ttl) * Second"
  shows "\<exists>stamp st' infos infos'. handleRenew (docker_backend dcfg q D) now sid (Some ttl) st = (Renewed sid stamp ttl, st')
    \<and> docker_ListSandboxes dcfg D st' = Inr infos \<and> sid \<notin> set (expired_ids later infos)
    \<and> docker_ListSandboxes dcfg D (restarted st') = Inr infos' \<and> sid \<in> set (expired_ids later infos')"
proof -
  define st' where "st' = snd (docker_SetPodAnnotations (pod_name sid) (the (ttlAnnotations now ttl)) st)"
  have keys: "the (ttlAnnotations now ttl) AnnotationExpiresAt = Some (expiresAtFromTTL now ttl)" "the (ttlAnnotations now ttl) \<noteq> Map.empty"
    using assms(11) by (simp_all add: ttlAnnotations_def)
  have of_pod: "sandbox_of_pod (pod_name sid) = sid" by (simp add: sandbox_of_pod_def pod_name_def trim_prefix_def has_prefix_def)
  obtain ov where ov: "ds_overlay st' sid = Some ov" "ov AnnotationExpiresAt = Some (expiresAtFromTTL now ttl)"
    and same: "ds_daemon st' = ds_daemon st" "ds_daemon (restarted st') = ds_daemon st" "ds_overlay (restarted st') = Map.empty"
    using keys by (auto simp: st'_def docker_SetPodAnnotations_def Let_def of_pod restarted_def)
  define infos where "infos = List.map_filter (listed_sandbox dcfg (ds_overlay st')) cs"
  define infos' where "infos' = List.map_filter (listed_sandbox dcfg Map.empty) cs"
  have "sid \<notin> set (expired_ids later infos)"
  proof
    assume "sid \<in> set (expired_ids later infos)"
    then obtain i c' where i: "listed_sandbox dcfg (ds_overlay st') c' = Some i" "si_SandboxID i = sid" "deadline_passed (si_ExpiresAt i) later"
      by (auto simp: expired_ids_def infos_def List.map_filter_def)
    then have "deadline_passed (expiresAtFromTTL now ttl) later"
      using listed_sandbox_deadline [OF i(1)] ov by (simp add: expiresAtFor_def)
    then show False using lifetime_honoured [OF assms(11-14)] assms(15) by simp
  qed
  moreover obtain i where i: "listed_sandbox dcfg Map.empty c = Some i" "si_SandboxID i = sid" "si_ExpiresAt i = old"
    using listed_sandbox_present [OF assms(5-8)] assms(4,9) by (fastforce simp: expiresAtFor_def annotation_def)
  have "i \<in> set infos'" using assms(3) i(1) by (force simp: infos'_def List.map_filter_def)
  then have "sid \<in> set (expired_ids later infos')" using i assms(10) by (force simp: expired_ids_def)
  moreover have "docker_ListSandboxes dcfg D st' = Inr infos" "docker_ListSandboxes dcfg D (restarted st') = Inr infos'"
    by (simp_all add: docker_ListSandboxes_def same assms(2) infos_def infos'_def)
  ultimately show ?thesis using docker_renewed [OF assms(1,11)] unfolding st'_def by blast
qed

definition tiny_created :: "string \<rightharpoonup> string" where
  "tiny_created = [''app'' \<mapsto> ''agentry-sandbox'', ''sandbox-id'' \<mapsto> ''a'', AnnotationExpiresAt \<mapsto> expiresAtFromTTL 0 60]"

lemma renewal_lost_at_restart_witness:
  "\<exists>stamp st' infos infos'. handleRenew (docker_backend tiny_docker tiny_quantities tiny_daemon) (30 * Second) ''a'' (Some 60)
        \<lparr>ds_daemon = Some (tiny_created, True), ds_overlay = Map.empty\<rparr> = (Renewed ''a'' stamp 60, st')
    \<and> docker_ListSandboxes tiny_docker tiny_daemon st' = Inr infos \<and> ''a'' \<notin> set (expired_ids (61 * Second) infos)
    \<and> docker_ListSandboxes tiny_docker tiny_daemon (restarted st') = Inr infos' \<and> ''a'' \<in> set (expired_ids (61 * Second) infos')"
proof -
  have d: "deadline_passed (expiresAtFromTTL 0 60) 61000000000"
    by (subst lifetime_honoured) simp_all
  have l: "tiny_created AnnotationExpiresAt = Some (expiresAtFromTTL 0 60)" "tiny_created ''sandbox-id'' = Some ''a''"
    by (simp_all add: tiny_created_def AnnotationExpiresAt_def)
  show ?thesis
    by (rule renewal_lost_at_restart [where old = "expiresAtFromTTL 0 60" and port = 32768 and cs = "tiny_list (Some (tiny_created, True))"
          and c = "hd (tiny_list (Some (tiny_created, True)))" and insp = "projr (tiny_inspect ''sandbox-a'' (Some (tiny_created, True)))"])
      (simp_all add: tiny_daemon_def tiny_inspect_def tiny_list_def pod_name_def l d)
qed

section \<open>A stopped sandbox\<close>

lemma no_port:
  assumes "\<exists>insp. da_ContainerInspect D (pod_name sid) (ds_daemon st) = Inr insp
      \<and> (in_Ports insp = None \<or> (\<exists>ports. in_Ports insp = Some ports \<and> ports ''8080/tcp'' \<in> {None, Some []}))"
  shows "\<exists>e. docker_GetNodePort D (svc_name sid) st = Inl e"
proof -
  have "trim_suffix (svc_name sid) ''-svc'' = pod_name sid"
    by (simp add: svc_of_pod_def trim_suffix_def has_suffix_append)
  then show ?thesis using assms by (auto simp: docker_GetNodePort_def containerHTTPPort_def)
qed

lemma await_none:
  assumes "\<And>s. P s \<Longrightarrow> live_port B svc s = None" "\<And>s. P s \<Longrightarrow> P (be_Sleep B s)"
  shows "P s \<Longrightarrow> \<exists>s'. await_port B svc k s = (0, s') \<and> P s'"
  by (induction k arbitrary: s) (auto simp: assms)

lemma ensureImage_keeps:
  assumes "\<And>d r. P d \<Longrightarrow> P (snd (da_ImagePull D r d))" and "P d"
  shows "P (snd (ensureImage D r d))"
  using assms(1) [of d r] assms(2) by (auto simp: ensureImage_def Let_def split: prod.splits sum.splits)

text \<open>A sandbox whose container has stopped for good blocks its name: by the daemon's rules a stopped container keeps its
  name and publishes no port, so every create under the name fails whether or not it may reuse, a look-up does not find the
  sandbox, and no list shows it, so no sweep ever removes it.\<close>

theorem stopped_sandbox_stuck:
  fixes stopped :: "'d \<Rightarrow> bool"
  assumes inspect: "\<And>d. stopped d \<Longrightarrow> \<exists>insp. da_ContainerInspect D (pod_name sid) d = Inr insp
      \<and> (in_Ports insp = None \<or> (\<exists>ports. in_Ports insp = Some ports \<and> ports ''8080/tcp'' \<in> {None, Some []}))"
    and conflict: "\<And>d c h. stopped d \<Longrightarrow> \<exists>e d'. da_ContainerCreate D c h (pod_name sid) d = (Inl e, d') \<and> de_kind e = DConflict \<and> stopped d'"
    and keeps: "\<And>d r. stopped d \<Longrightarrow> stopped (snd (da_ImagePull D r d))" "\<And>d. stopped d \<Longrightarrow> stopped (da_Sleep D d)"
    and unpublished: "\<And>d cs c port. stopped d \<Longrightarrow> da_ContainerList D ''app=agentry-sandbox'' d = Inr cs \<Longrightarrow> c \<in> set cs
      \<Longrightarrow> cs_Labels c ''sandbox-id'' = Some sid \<Longrightarrow> (8080, port) \<in> set (cs_Ports c) \<Longrightarrow> port \<le> 0"
    and "stopped (ds_daemon st)" and "create_checks quantity env cfg (Some r) = Inr req" and "cr_SandboxID r = sid"
  shows "(\<exists>e st'. handleCreate (docker_backend dcfg q D) quantity env cfg ready rnd now (Some r) st
        = (Refused StatusInternalServerError e, st') \<and> stopped (ds_daemon st') \<and> (\<forall>m. e = PodFailed m \<longrightarrow>
          (\<exists>x. sandbox_host_config dcfg q (create_spec cfg now req sid) = Inl x)))
    \<and> handleGet (docker_backend dcfg q D) cfg sid st = Refused StatusNotFound (NotFound sid)
    \<and> (case docker_ListSandboxes dcfg D st of Inl e \<Rightarrow> True | Inr infos \<Rightarrow> sid \<notin> set (expired_ids later infos))"
proof (intro conjI)
  let ?B = "docker_backend dcfg q D"
  let ?P = "\<lambda>st. stopped (ds_daemon st)"
  have np: "\<exists>e. be_GetNodePort ?B (svc_name sid) st = Inl e" if "?P st" for st
    using no_port [OF inspect [OF that]] by (simp add: docker_ops)
  have lp: "live_port ?B (svc_name sid) st = None" if "?P st" for st using np [OF that] by (auto simp: live_port_def)
  have sid: "cr_SandboxID req = sid" "sid \<noteq> []"
    using assms(7,8) by (auto simp: create_checks_def Let_def split: if_splits option.splits sum.splits)
  have name: "create_name ?B cfg rnd req st = Inr sid" using lp [OF assms(6)] by (simp add: create_name_def sid)
  let ?spec = "create_spec cfg now req sid"
  have pod: "\<exists>e st1. be_CreatePod ?B ?spec st = (e, st1) \<and> ?P st1
    \<and> (e = None \<or> (\<exists>x. sandbox_host_config dcfg q ?spec = Inl x \<and> e = Some x))"
  proof -
    have s0: "stopped (snd (ensureImage D (sandbox_image dcfg ?spec) (ds_daemon st)))"
      using ensureImage_keeps [of stopped, OF keeps(1) assms(6)] by simp
    show ?thesis
    proof (cases "sandbox_host_config dcfg q ?spec")
      case (Inr h)
      obtain e d' where "da_ContainerCreate D (sandbox_container_config dcfg ?spec) h (pod_name sid)
          (snd (ensureImage D (sandbox_image dcfg ?spec) (ds_daemon st))) = (Inl e, d')" "de_kind e = DConflict" "stopped d'"
        using conflict [OF s0] by blast
      then show ?thesis using Inr by (simp add: docker_ops docker_CreatePod_def docker_create_def create_spec_def isConflictErr_def Let_def)
    qed (use s0 in \<open>simp add: docker_ops docker_CreatePod_def docker_create_def Let_def\<close>)
  qed
  then obtain e st1 where c: "be_CreatePod ?B ?spec st = (e, st1)" and st1: "?P st1"
    and e: "e = None \<or> (\<exists>x. sandbox_host_config dcfg q ?spec = Inl x \<and> e = Some x)" by blast
  obtain st2 where w: "await_port ?B (svc_name sid) 20 st1 = (0, st2)" "?P st2"
    using await_none [of ?P ?B "svc_name sid" st1 20, OF lp _ st1] keeps(2) by (auto simp: docker_ops)
  have svc: "be_CreateService ?B ?spec st1 = (None, st1)" by (simp add: docker_ops)
  have run: "handleCreate ?B quantity env cfg ready rnd now (Some r) st = create_pod_and_service ?B cfg ready now req sid st"
    by (simp add: handleCreate_def assms(7) name)
  show "\<exists>e st'. handleCreate ?B quantity env cfg ready rnd now (Some r) st = (Refused StatusInternalServerError e, st') \<and> ?P st'
      \<and> (\<forall>m. e = PodFailed m \<longrightarrow> (\<exists>x. sandbox_host_config dcfg q ?spec = Inl x))"
    unfolding run using e st1 w by (auto simp: create_pod_and_service_def Let_def c svc)
  show "handleGet ?B cfg sid st = Refused StatusNotFound (NotFound sid)"
    using np [OF assms(6)] by (auto simp: handleGet_def)
  show "case docker_ListSandboxes dcfg D st of Inl e \<Rightarrow> True | Inr infos \<Rightarrow> sid \<notin> set (expired_ids later infos)"
  proof (cases "da_ContainerList D ''app=agentry-sandbox'' (ds_daemon st)")
    case (Inr cs)
    have "si_SandboxID i \<noteq> sid" if c: "c \<in> set cs" "listed_sandbox dcfg (ds_overlay st) c = Some i" for c i
    proof
      assume i: "si_SandboxID i = sid"
      then have l: "cs_Labels c ''sandbox-id'' = Some sid"
        using c(2) sid(2) by (auto simp: listed_sandbox_def annotation_def Let_def split: if_splits option.splits)
      obtain port where "(8080, port) \<in> set (cs_Ports c)" "0 < port"
        using c(2) by (auto simp: listed_sandbox_def Let_def find_Some_iff split: if_splits option.splits dest: nth_mem)
      then show False using unpublished [OF assms(6) Inr c(1) l] by fastforce
    qed
    then show ?thesis by (auto simp: docker_ListSandboxes_def Inr expired_ids_def List.map_filter_def) metis
  qed (simp add: docker_ListSandboxes_def)
qed

lemma stopped_sandbox_stuck_witness:
  "(\<exists>e st'. handleCreate (docker_backend tiny_docker tiny_quantities tiny_daemon) (\<lambda>s. None) (\<lambda>v. []) tiny_config (\<lambda>u. None)
          (\<lambda>i. None) 0 (Some tiny_request) \<lparr>ds_daemon = Some (tiny_created, False), ds_overlay = Map.empty\<rparr>
        = (Refused StatusInternalServerError e, st') \<and> \<not> snd (the (ds_daemon st')))
    \<and> handleGet (docker_backend tiny_docker tiny_quantities tiny_daemon) tiny_config ''a''
        \<lparr>ds_daemon = Some (tiny_created, False), ds_overlay = Map.empty\<rparr> = Refused StatusNotFound (NotFound ''a'')"
proof -
  have ok: "\<exists>req. create_checks (\<lambda>s. None) (\<lambda>v. []) tiny_config (Some tiny_request) = Inr req"
    by (simp add: create_checks_def tiny_request_def tiny_config_def buildResourceRequirements_def defaultResources_def prov_envOr_def
        mergeDefaultVolumes_def validateVolumes_def IsZero_def Validate_def Let_def)
  then obtain req where req: "create_checks (\<lambda>s. None) (\<lambda>v. []) tiny_config (Some tiny_request) = Inr req" by blast
  show ?thesis
    using stopped_sandbox_stuck [where stopped = "\<lambda>d. d = Some (tiny_created, False)" and D = tiny_daemon and sid = "''a''"
        and st = "\<lparr>ds_daemon = Some (tiny_created, False), ds_overlay = Map.empty\<rparr>" and dcfg = tiny_docker and q = tiny_quantities
        and cfg = tiny_config and r = tiny_request and req = req and quantity = "\<lambda>s. None" and env = "\<lambda>v. []"
        and ready = "\<lambda>u. None" and rnd = "\<lambda>i. None" and now = 0 and later = 0]
    by (simp add: tiny_daemon_def tiny_inspect_def tiny_list_def pod_name_def req) (fastforce simp: tiny_request_def)
qed

end
