(* ===== verification/Mux.thy ===== *)
theory Mux
  imports Http Paths
begin

text \<open>
  The routing of \<open>http.ServeMux\<close> as the servers use it: patterns with an optional method, literal segments, single wildcards and a
  last wildcard for the rest; the cleaning of paths and its redirects. And the headers a
  \<open>httputil.ReverseProxy\<close> sends on. A path has no escaped bytes. The tables list a more specific pattern before a
  more general one, so that the first match is Go's most specific one.
\<close>

section \<open>Routes\<close>

datatype seg = Lit string | Wild | Rest

type_synonym 'h route = "string option \<times> seg list \<times> 'h"

fun segs_match :: "seg list \<Rightarrow> string list \<Rightarrow> bool" where
  "segs_match [] xs = (xs = [])"
| "segs_match (Lit s # ps) (x # xs) = (s = x \<and> segs_match ps xs)"
| "segs_match (Wild # ps) (x # xs) = (x \<noteq> [] \<and> segs_match ps xs)"
| "segs_match (Rest # ps) (x # xs) = True"
| "segs_match (p # ps) [] = False"

definition path_segs :: "string \<Rightarrow> string list" where
  "path_segs p = split_on (CHR ''/'') (drop 1 p)"

text \<open>A pattern for GET also matches HEAD.\<close>

definition method_match :: "string option \<Rightarrow> string \<Rightarrow> bool" where
  "method_match m method \<longleftrightarrow> (case m of None \<Rightarrow> True | Some s \<Rightarrow> s = method \<or> s = ''GET'' \<and> method = ''HEAD'')"

definition route_match :: "string \<Rightarrow> string \<Rightarrow> 'h route \<Rightarrow> bool" where
  "route_match method path r = (case r of (m, ps, h) \<Rightarrow> method_match m method \<and> segs_match ps (path_segs path))"

definition mux_find :: "'h route list \<Rightarrow> string \<Rightarrow> string \<Rightarrow> 'h route option" where
  "mux_find table method path = find (route_match method path) table"

text \<open>\<open>exactMatch\<close>: a wildcard for the rest matched the empty rest.\<close>

definition exact_match :: "'h route option \<Rightarrow> string \<Rightarrow> bool" where
  "exact_match r path =
     (case r of None \<Rightarrow> False
      | Some (m, ps, h) \<Rightarrow> ps = [] \<or> last ps \<noteq> Rest
          \<or> has_suffix path ''/'' \<and> length ps = length (filter (\<lambda>c. c = CHR ''/'') path))"

definition mux_clean :: "string \<Rightarrow> string" where
  "mux_clean p =
     (if p = [] then ''/''
      else (let q = (if is_abs p then p else CHR ''/'' # p); np = path_clean q
        in if has_suffix q ''/'' \<and> np \<noteq> ''/'' then np @ ''/'' else np))"

datatype 'h mux_result = Redirect string | Found 'h | NoRoute nat

definition mux_serve :: "'h route list \<Rightarrow> string \<Rightarrow> string \<Rightarrow> 'h mux_result" where
  "mux_serve table method p =
     (let path = mux_clean p; r = mux_find table method path;
          slashed = path @ ''/''
      in if \<not> exact_match r path \<and> \<not> has_suffix path ''/'' \<and> exact_match (mux_find table method slashed) slashed then
           Redirect slashed
         else if path \<noteq> p then Redirect path
         else (case r of
             Some (m, ps, h) \<Rightarrow> Found h
           | None \<Rightarrow> NoRoute (if list_ex (\<lambda>(m, ps, h). segs_match ps (path_segs path)) table then 405 else 404)))"

lemma mux_serve_Found:
  "mux_serve table method p = Found h \<Longrightarrow> mux_clean p = p \<and> (\<exists>m ps. mux_find table method p = Some (m, ps, h))"
  by (auto simp: mux_serve_def Let_def split: if_splits option.splits)

lemma mux_find_in: "mux_find table method p = Some (m, ps, h) \<Longrightarrow> (m, ps, h) \<in> set table \<and> method_match m method \<and> segs_match ps (path_segs p)"
  unfolding mux_find_def by (induction table) (auto simp: route_match_def split: if_splits)

section \<open>Headers behind a reverse proxy\<close>

definition hopHeaders :: "string list" where
  "hopHeaders = [''Connection'', ''Proxy-Connection'', ''Keep-Alive'', ''Proxy-Authenticate'', ''Proxy-Authorization'', ''Te'',
     ''Trailer'', ''Transfer-Encoding'', ''Upgrade'']"

definition hvals :: "header \<Rightarrow> string \<Rightarrow> string list" where
  "hvals h k = (case h (canon_key k) of None \<Rightarrow> [] | Some vs \<Rightarrow> vs)"

definition comma_tokens :: "string list \<Rightarrow> string list" where
  "comma_tokens vs = concat (map (\<lambda>v. map trim_space (split_on (CHR '','') v)) vs)"

definition contains_token :: "string list \<Rightarrow> string \<Rightarrow> bool" where
  "contains_token vs t \<longleftrightarrow> list_ex (\<lambda>w. equal_fold w t) (comma_tokens vs)"

definition upgradeType :: "header \<Rightarrow> string" where
  "upgradeType h = (if contains_token (hvals h ''Connection'') ''Upgrade'' then hget h ''Upgrade'' else [])"

definition removeHopByHopHeaders :: "header \<Rightarrow> header" where
  "removeHopByHopHeaders h =
     foldl hdel h (filter (\<lambda>w. w \<noteq> []) (comma_tokens (hvals h ''Connection'')) @ hopHeaders)"

text \<open>What the director has left of the header is stripped of what belongs to one hop; an upgrade is kept; the client is
  appended to \<open>X-Forwarded-For\<close>. \<open>h0\<close> is the header that came in.\<close>

definition proxied_header :: "string \<Rightarrow> header \<Rightarrow> header \<Rightarrow> header" where
  "proxied_header remote h0 h =
     (let up = upgradeType h;
          h1 = removeHopByHopHeaders h;
          h2 = (if contains_token (hvals h0 ''Te'') ''trailers'' then hset h1 ''Te'' ''trailers'' else h1);
          h3 = (if up \<noteq> [] then hset (hset h2 ''Connection'' ''Upgrade'') ''Upgrade'' up else h2);
          h4 = (case split_host_port remote of
              None \<Rightarrow> h3
            | Some ip \<Rightarrow>
                (case h3 ''X-Forwarded-For'' of
                   Some [] \<Rightarrow> h3
                 | Some prior \<Rightarrow> hset h3 ''X-Forwarded-For'' (join_str '', '' prior @ '', '' @ ip)
                 | None \<Rightarrow> hset h3 ''X-Forwarded-For'' ip))
      in if h4 ''User-Agent'' = None then hset h4 ''User-Agent'' [] else h4)"

lemma hdel_fold: "foldl hdel h ks k = (if k \<in> canon_key ` set ks then None else h k)"
  by (induction ks arbitrary: h) (auto simp: hdel_def)

text \<open>A header of the director's that is none of the hop's own survives, unless the client names it in \<open>Connection\<close>.\<close>

definition hop_only :: "string list" where
  "hop_only = hopHeaders @ [''X-Forwarded-For'', ''User-Agent'']"

lemma proxied_header_other:
  assumes "k \<notin> set hop_only"
  shows "proxied_header remote h0 h k
    = (if k \<in> canon_key ` set (filter (\<lambda>w. w \<noteq> []) (comma_tokens (hvals h ''Connection''))) then None else h k)"
proof -
  have c: "canon_key ''Connection'' = ''Connection''" "canon_key ''Te'' = ''Te''" "canon_key ''Upgrade'' = ''Upgrade''"
    "canon_key ''X-Forwarded-For'' = ''X-Forwarded-For''" "canon_key ''User-Agent'' = ''User-Agent''"
    "canon_key ` set hopHeaders = set hopHeaders"
    by code_simp+
  have k: "k \<noteq> ''Connection''" "k \<noteq> ''Te''" "k \<noteq> ''Upgrade''" "k \<noteq> ''X-Forwarded-For''" "k \<noteq> ''User-Agent''" "k \<notin> set hopHeaders"
    using assms by (auto simp: hop_only_def hopHeaders_def)
  have set_other: "hset g f v k = g k" if "canon_key f \<noteq> k" for g f v using that by (simp add: hset_def)
  have h1: "removeHopByHopHeaders h k
      = (if k \<in> canon_key ` set (filter (\<lambda>w. w \<noteq> []) (comma_tokens (hvals h ''Connection''))) then None else h k)"
    using k(6) c(6) by (auto simp: removeHopByHopHeaders_def hdel_fold image_Un)
  define h2 where "h2 = (if contains_token (hvals h0 ''Te'') ''trailers'' then hset (removeHopByHopHeaders h) ''Te'' ''trailers''
    else removeHopByHopHeaders h)"
  define h3 where "h3 = (if upgradeType h \<noteq> [] then hset (hset h2 ''Connection'' ''Upgrade'') ''Upgrade'' (upgradeType h) else h2)"
  define h4 where "h4 = (case split_host_port remote of None \<Rightarrow> h3
    | Some ip \<Rightarrow> (case h3 ''X-Forwarded-For'' of Some [] \<Rightarrow> h3
        | Some prior \<Rightarrow> hset h3 ''X-Forwarded-For'' (join_str '', '' prior @ '', '' @ ip)
        | None \<Rightarrow> hset h3 ''X-Forwarded-For'' ip))"
  have "h2 k = removeHopByHopHeaders h k" using k(2) c(2) by (simp add: h2_def set_other)
  moreover have "h3 k = h2 k" using k(1,3) c(1,3) by (simp add: h3_def set_other)
  moreover have "h4 k = h3 k" unfolding h4_def using k(4) c(4) by (simp add: set_other split: option.split list.split)
  moreover have "proxied_header remote h0 h k = h4 k"
    unfolding proxied_header_def Let_def h2_def [symmetric] h3_def [symmetric] h4_def [symmetric]
    using k(5) c(5) by (simp add: set_other)
  ultimately show ?thesis using h1 by simp
qed

text \<open>Only an upgrade is left in \<open>Connection\<close>.\<close>

lemma proxied_connection: "hvals (proxied_header remote h0 h) ''Connection'' \<in> {[], [''Upgrade'']}"
proof -
  have c: "canon_key ''Connection'' = ''Connection''" "canon_key ''Te'' = ''Te''" "canon_key ''Upgrade'' = ''Upgrade''"
    "canon_key ''X-Forwarded-For'' = ''X-Forwarded-For''" "canon_key ''User-Agent'' = ''User-Agent''"
    by code_simp+
  have r: "removeHopByHopHeaders h ''Connection'' = None"
    by (simp add: removeHopByHopHeaders_def hdel_fold) (use c(1) in \<open>auto simp: hopHeaders_def\<close>)
  have conn: "(if b then hset g ''User-Agent'' [] else g) ''Connection'' = g ''Connection''"
    "(case x of None \<Rightarrow> g | Some ip \<Rightarrow> (case y of Some [] \<Rightarrow> g | Some (p # ps) \<Rightarrow> hset g ''X-Forwarded-For'' (f p ps ip)
        | None \<Rightarrow> hset g ''X-Forwarded-For'' ip)) ''Connection'' = g ''Connection''"
    "(if b then hset g ''Te'' ''trailers'' else g) ''Connection'' = g ''Connection''" for b g x y f
    by (simp_all add: hset_def c split: option.split list.split)
  show ?thesis
    unfolding proxied_header_def Let_def hvals_def c conn
    using r conn(3) by (simp add: hset_def c)
qed

end
