(* ===== verification/Rt_Server.thy ===== *)
theory Rt_Server
  imports Mux Auth_Links
begin

text \<open>
  The server inside a sandbox: the API key (\<open>pkg/auth/auth.go\<close>), the chain of handlers and the routes
  (\<open>pkg/runtime/server.go\<close>), and the data plane's CONNECT (\<open>pkg/handlers/forward.go\<close>). Telemetry only counts. A handler is its name;
  the modelled ones are in the theories of the runtime.
\<close>

section \<open>The API key\<close>

definition HeaderName :: string where "HeaderName = ''X-Sandbox-API-Key''"

definition api_check :: "string \<Rightarrow> header \<Rightarrow> bool" where
  "api_check key h =
     (let v = hget h HeaderName in
      if v \<noteq> [] then v = key
      else (let a = hget h ''Authorization'' in has_prefix a ''Bearer '' \<and> drop 7 a = key))"

text \<open>\<open>None\<close>: 401. No key turns the check off.\<close>

definition api_middleware :: "string \<Rightarrow> string list \<Rightarrow> request \<Rightarrow> request option" where
  "api_middleware key exempt r =
     (if key = [] then Some r
      else if rq_Method r = ''OPTIONS'' then Some r
      else if rq_Path r \<in> set exempt then Some r
      else if api_check key (rq_Header r) then Some r
      else None)"

section \<open>CONNECT\<close>

definition connect_target :: "request \<Rightarrow> string" where
  "connect_target r = (if rq_RequestURI r = [] then rq_URLHost r else rq_RequestURI r)"

text \<open>The port of the sandbox that is dialled.\<close>

definition ForwardConnectHandler :: "request \<Rightarrow> int verdict" where
  "ForwardConnectHandler r =
     (let target = connect_target r in
      case split_host_port target of
        None \<Rightarrow> Reply StatusBadRequest ''CONNECT target must be host:port''
      | Some host \<Rightarrow>
          if host \<noteq> ''127.0.0.1'' \<and> host \<noteq> ''localhost'' then Reply StatusForbidden ''CONNECT target host must be loopback''
          else (case parse_int (drop (Suc (the (last_index target '':''))) target) of
              None \<Rightarrow> Reply StatusBadRequest ''invalid port''
            | Some port \<Rightarrow>
                if port < 1 \<or> port > 65535 then Reply StatusBadRequest ''invalid port''
                else if port = 8080 then Reply StatusForbidden ''cannot forward to runtime API port''
                else Pass port))"

section \<open>The routes\<close>

abbreviation "lits \<equiv> map Lit"

definition runtime_routes :: "string route list" where
  "runtime_routes =
     [(Some ''GET'', lits [''health''], ''HealthHandler''),
      (Some ''GET'', lits [''v1'', ''sandbox''], ''SandboxHandler''),
      (Some ''POST'', lits [''v1'', ''shell'', ''exec''], ''ShellHandler''),
      (Some ''POST'', lits [''v1'', ''shell'', ''background''], ''BgStartHandler''),
      (Some ''GET'', lits [''v1'', ''shell'', ''background''], ''BgListHandler''),
      (Some ''GET'', lits [''v1'', ''shell'', ''background''] @ [Wild], ''BgStatusHandler''),
      (Some ''GET'', lits [''v1'', ''shell'', ''background''] @ [Wild, Lit ''logs''], ''BgLogsHandler''),
      (Some ''POST'', lits [''v1'', ''shell'', ''background''] @ [Wild, Lit ''interrupt''], ''BgInterruptHandler''),
      (Some ''DELETE'', lits [''v1'', ''shell'', ''background''] @ [Wild], ''BgForgetHandler''),
      (Some ''GET'', lits [''v1'', ''shell'', ''pty''], ''PTYWebSocketHandler''),
      (Some ''GET'', lits [''v1'', ''shell'', ''ptys''], ''PTYListHandler''),
      (Some ''DELETE'', lits [''v1'', ''shell'', ''pty''] @ [Wild], ''PTYCloseHandler''),
      (Some ''POST'', lits [''v1'', ''code'', ''contexts''], ''CodeCreateContextHandler''),
      (Some ''GET'', lits [''v1'', ''code'', ''contexts''], ''CodeListContextsHandler''),
      (Some ''DELETE'', lits [''v1'', ''code'', ''contexts''] @ [Wild], ''CodeDeleteContextHandler''),
      (Some ''POST'', lits [''v1'', ''code'', ''contexts''] @ [Wild, Lit ''exec''], ''CodeExecuteHandler''),
      (Some ''POST'', lits [''v1'', ''code'', ''contexts''] @ [Wild, Lit ''interrupt''], ''CodeInterruptHandler''),
      (Some ''POST'', lits [''v1'', ''file'', ''read''], ''FileReadHandler''),
      (Some ''POST'', lits [''v1'', ''file'', ''write''], ''FileWriteHandler''),
      (Some ''POST'', lits [''v1'', ''file'', ''list''], ''FileListHandler''),
      (Some ''POST'', lits [''v1'', ''file'', ''find''], ''FileFindHandler''),
      (Some ''POST'', lits [''v1'', ''file'', ''search''], ''FileSearchHandler''),
      (Some ''POST'', lits [''v1'', ''file'', ''grep''], ''FileGrepHandler''),
      (Some ''POST'', lits [''v1'', ''file'', ''replace''], ''FileReplaceHandler''),
      (Some ''POST'', lits [''v1'', ''file'', ''multi_edit''], ''FileMultiEditHandler''),
      (Some ''GET'', lits [''v1'', ''file'', ''download''], ''FileDownloadHandler''),
      (Some ''POST'', lits [''v1'', ''file'', ''upload''], ''FileUploadHandler''),
      (Some ''GET'', lits [''v1'', ''process'', ''list''], ''ProcessListHandler''),
      (Some ''POST'', lits [''v1'', ''process'', ''stop''], ''ProcessStopHandler''),
      (Some ''GET'', lits [''v1'', ''ports''], ''PortsListHandler''),
      (Some ''POST'', lits [''v1'', ''ports'', ''wait''], ''PortWaitHandler''),
      (None, lits [''v1'', ''proxy''] @ [Wild], ''AppProxyHandler''),
      (None, lits [''v1'', ''proxy''] @ [Wild, Rest], ''AppProxyHandler''),
      (Some ''POST'', lits [''v1'', ''ide'', ''start''], ''IDEStartHandler''),
      (Some ''POST'', lits [''v1'', ''project'', ''create''], ''ProjectCreateHandler''),
      (Some ''POST'', lits [''v1'', ''project'', ''start''], ''ProjectStartHandler''),
      (Some ''POST'', lits [''v1'', ''project'', ''stop''], ''ProjectStopHandler''),
      (Some ''POST'', lits [''v1'', ''project'', ''restart''], ''ProjectRestartHandler''),
      (Some ''POST'', lits [''v1'', ''project'', ''start-all''], ''ProjectStartAllHandler''),
      (Some ''POST'', lits [''v1'', ''project'', ''stop-all''], ''ProjectStopAllHandler''),
      (Some ''GET'', lits [''v1'', ''project'', ''list''], ''ProjectListHandler''),
      (Some ''GET'', lits [''v1'', ''project'', ''logs''], ''ProjectLogsHandler''),
      (Some ''GET'', lits [''v1'', ''project'', ''logs'', ''stream''], ''ProjectLogStreamHandler''),
      (Some ''GET'', lits [''v1'', ''workspace'', ''status''], ''WorkspaceStatusHandler''),
      (Some ''GET'', lits [''v1'', ''activity''], ''ActivityHandler''),
      (Some ''GET'', lits [''v1'', ''metrics''], ''MetricsHandler''),
      (Some ''POST'', lits [''v1'', ''git'', ''init''], ''GitInitHandler''),
      (Some ''POST'', lits [''v1'', ''git'', ''commit''], ''GitCommitHandler''),
      (Some ''POST'', lits [''v1'', ''git'', ''diff''], ''GitDiffHandler''),
      (Some ''POST'', lits [''v1'', ''git'', ''status''], ''GitStatusHandler''),
      (Some ''POST'', lits [''v1'', ''git'', ''log''], ''GitLogHandler''),
      (Some ''POST'', lits [''v1'', ''git'', ''clone''], ''GitCloneHandler''),
      (Some ''POST'', lits [''v1'', ''git'', ''checkout''], ''GitCheckoutHandler''),
      (Some ''POST'', lits [''v1'', ''archive'', ''create''], ''ArchiveCreateHandler''),
      (Some ''POST'', lits [''v1'', ''archive'', ''extract''], ''ArchiveExtractHandler''),
      (None, [Rest], ''Info'')]"

section \<open>The chain\<close>

datatype runtime_reply =
    Forwarded "int verdict" \<comment> \<open>the data plane\<close>
  | Preflight
  | Unauthorized
  | Moved string
  | Missing nat
  | Handled string request

definition runtime_mux :: "request \<Rightarrow> runtime_reply" where
  "runtime_mux r =
     (case mux_serve runtime_routes (rq_Method r) (rq_Path r) of
        Redirect p \<Rightarrow> Moved p
      | NoRoute n \<Rightarrow> Missing n
      | Found h \<Rightarrow> if h = ''Info'' \<and> rq_Path r \<noteq> ''/'' then Missing 404 else Handled h r)"

definition corsMiddleware :: "(request \<Rightarrow> runtime_reply) \<Rightarrow> request \<Rightarrow> runtime_reply" where
  "corsMiddleware inner r = (if rq_Method r = ''OPTIONS'' then Preflight else inner r)"

definition connectInterceptor :: "(request \<Rightarrow> runtime_reply) \<Rightarrow> request \<Rightarrow> runtime_reply" where
  "connectInterceptor inner r = (if rq_Method r = ''CONNECT'' then Forwarded (ForwardConnectHandler r) else inner r)"

definition runtime_server :: "string \<Rightarrow> request \<Rightarrow> runtime_reply" where
  "runtime_server key = connectInterceptor (corsMiddleware (\<lambda>r.
     case api_middleware key [''/health''] r of None \<Rightarrow> Unauthorized | Some r' \<Rightarrow> runtime_mux r'))"

section \<open>What gets through\<close>

text \<open>The routes over which a request is handled: its cleaned path belongs to the handler.\<close>

definition routed :: "string \<Rightarrow> string \<Rightarrow> string \<Rightarrow> bool" where
  "routed method path h \<longleftrightarrow> mux_serve runtime_routes method path = Found h \<and> (h = ''Info'' \<longrightarrow> path = ''/'')"

lemma health_route: "mux_serve runtime_routes method ''/health'' = Found h \<Longrightarrow> h = ''Info'' \<or> h = ''HealthHandler'' \<and> method \<in> {''GET'', ''HEAD''}"
proof -
  assume f: "mux_serve runtime_routes method ''/health'' = Found h"
  have s: "path_segs ''/health'' = [''health'']" by code_simp
  obtain m ps where m: "mux_find runtime_routes method ''/health'' = Some (m, ps, h)" using mux_serve_Found [OF f] by blast
  show ?thesis
  proof (cases "method \<in> {''GET'', ''HEAD''}")
    case True
    then have "mux_find runtime_routes method ''/health'' = Some (Some ''GET'', lits [''health''], ''HealthHandler'')"
      by (auto simp: mux_find_def runtime_routes_def route_match_def s method_match_def)
    then show ?thesis using m True by simp
  next
    case False
    then have "''GET'' \<noteq> method" "method \<noteq> ''HEAD''" by auto
    then have "mux_find runtime_routes method ''/health'' = Some (None, [Rest], ''Info'')"
      by (simp add: mux_find_def runtime_routes_def route_match_def s method_match_def)
    then show ?thesis using m by simp
  qed
qed

lemma forward_pass:
  assumes "ForwardConnectHandler r = Pass port"
  shows "1 \<le> port \<and> port \<le> 65535 \<and> port \<noteq> 8080 \<and> split_host_port (connect_target r) \<in> {Some ''127.0.0.1'', Some ''localhost''}"
  using assms by (auto simp: ForwardConnectHandler_def Let_def split: option.splits if_splits)

lemma runtime_gated_iff:
  assumes "key \<noteq> []"
  shows "runtime_server key r = Handled h r' \<longleftrightarrow> r' = r \<and> rq_Method r \<notin> {''CONNECT'', ''OPTIONS''} \<and> routed (rq_Method r) (rq_Path r) h
        \<and> (api_check key (rq_Header r) \<or> h = ''HealthHandler'' \<and> rq_Path r = ''/health'')"
proof -
  have mux: "runtime_mux r = Handled h r' \<longleftrightarrow> r' = r \<and> routed (rq_Method r) (rq_Path r) h"
    by (auto simp: runtime_mux_def routed_def split: mux_result.splits)
  have "routed (rq_Method r) (rq_Path r) h \<Longrightarrow> rq_Path r = ''/health'' \<Longrightarrow> h = ''HealthHandler''"
    using health_route [of "rq_Method r" h] by (auto simp: routed_def)
  then show ?thesis
    using assms mux by (auto simp: runtime_server_def connectInterceptor_def corsMiddleware_def api_middleware_def)
qed


definition shell_request :: "header \<Rightarrow> request" where
  "shell_request h = blank_request\<lparr>rq_Method := ''POST'', rq_Path := ''/v1/shell/exec'', rq_Header := h\<rparr>"

lemma shell_routed: "routed ''POST'' ''/v1/shell/exec'' ''ShellHandler''"
  by code_simp


end
