(* ===== verification/Prov_Server.thy ===== *)
theory Prov_Server
  imports Rt_Server Prov_Docker
begin

text \<open>
  The server of the provisioner (\<open>pkg/provisioner/provisioner.go\<close>: \<open>Handler\<close>, \<open>registerRoutes\<close>) and its two ways into a
  sandbox (\<open>runtime_proxy.go\<close>): the proxy to the runtime, which presents the runtime's key, and CONNECT. With \<open>Rt_Server\<close>
  behind it, what a request meets on its way to an app. The host of the nodes is taken to make a valid URL.
\<close>

section \<open>The routes\<close>

definition prov_routes :: "string route list" where
  "prov_routes =
     [(Some ''GET'', lits [''health''], ''health''),
      (Some ''GET'', lits [''api'', ''catalog''], ''handleCatalog''),
      (Some ''POST'', lits [''api'', ''sandboxes''], ''handleCreate''),
      (Some ''GET'', lits [''api'', ''sandboxes''], ''handleList''),
      (Some ''GET'', lits [''api'', ''sandboxes''] @ [Wild], ''handleGet''),
      (Some ''DELETE'', lits [''api'', ''sandboxes''] @ [Wild], ''handleDelete''),
      (Some ''POST'', lits [''api'', ''sandboxes''] @ [Wild, Lit ''evict''], ''handleEvict''),
      (Some ''POST'', lits [''api'', ''sandboxes''] @ [Wild, Lit ''renew''], ''handleRenew''),
      (Some ''POST'', lits [''api'', ''sandboxes''] @ [Wild, Lit ''snapshot''], ''handleSnapshot''),
      (Some ''POST'', lits [''api'', ''sandboxes''] @ [Wild, Lit ''restore''], ''handleRestore''),
      (Some ''POST'', lits [''api'', ''sandboxes''] @ [Wild, Lit ''bindings''], ''handleBindingCreate''),
      (Some ''GET'', lits [''api'', ''sandboxes''] @ [Wild, Lit ''bindings''], ''handleBindingList''),
      (Some ''GET'', lits [''api'', ''sandboxes''] @ [Wild, Lit ''bindings'', Lit ''env''], ''handleBindingResolve''),
      (Some ''POST'', lits [''api'', ''sandboxes''] @ [Wild, Lit ''build''], ''handleBuild''),
      (Some ''POST'', lits [''api'', ''sandboxes''] @ [Wild, Lit ''deploy-build''], ''handleDeployBuild''),
      (Some ''POST'', lits [''api'', ''sandboxes''] @ [Wild, Lit ''deploy-push''], ''handleDeployPush''),
      (Some ''POST'', lits [''api'', ''deployments''], ''handleDeploymentRun''),
      (Some ''GET'', lits [''api'', ''deployments''] @ [Wild], ''handleDeploymentGet''),
      (Some ''GET'', lits [''api'', ''deployments''] @ [Wild, Lit ''logs''], ''handleDeploymentLogs''),
      (Some ''DELETE'', lits [''api'', ''deployments''] @ [Wild], ''handleDeploymentStop''),
      (None, lits [''api'', ''deployments''] @ [Wild, Lit ''proxy'', Rest], ''handleDeploymentProxy''),
      (Some ''POST'', lits [''api'', ''sandboxes''] @ [Wild, Lit ''secrets''], ''handleSecretSet''),
      (Some ''GET'', lits [''api'', ''sandboxes''] @ [Wild, Lit ''secrets''], ''handleSecretList''),
      (Some ''GET'', lits [''api'', ''gc'', ''candidates''], ''handleGCCandidates''),
      (Some ''POST'', lits [''api'', ''gc''], ''handleGC''),
      (Some ''GET'', lits [''api'', ''version''], ''handleVersion''),
      (Some ''POST'', lits [''api'', ''update''], ''handleUpdate''),
      (None, lits [''api'', ''sandboxes''] @ [Rest], ''catchAll'')]"

section \<open>Into a sandbox\<close>

definition runtimeProxyPrefix :: string where "runtimeProxyPrefix = ''/api/sandboxes/''"

text \<open>The request as the runtime receives it. \<open>self\<close> is the address the provisioner dials from.\<close>

definition handleRuntimeProxy :: "'s backend \<Rightarrow> prov_config \<Rightarrow> string \<Rightarrow> request \<Rightarrow> 's \<Rightarrow> request verdict" where
  "handleRuntimeProxy B cfg self r s =
     (let rest = trim_prefix (rq_Path r) runtimeProxyPrefix in
      case index_str rest ''/runtime'' of
        None \<Rightarrow> Reply StatusBadRequest ''bad runtime path''
      | Some i \<Rightarrow>
          (let sid = take i rest;
               up = drop (i + length ''/runtime'') rest;
               upstreamPath = (if up = [] then ''/'' else up)
           in case be_GetNodePort B (svc_name sid) s of
                Inl e \<Rightarrow> Reply StatusNotFound (''sandbox '' @ sid @ '': not found'')
              | Inr port \<Rightarrow>
                  if port = 0 then Reply StatusNotFound (''sandbox '' @ sid @ '': not found'')
                  else (let host = pc_NodeHost cfg @ '':'' @ format_int port;
                            h = hdel (rq_Header r) HeaderName;
                            h' = (if pc_RuntimeAPIKey cfg \<noteq> [] then hset h HeaderName (pc_RuntimeAPIKey cfg) else h)
                    in Pass (r\<lparr>rq_Path := upstreamPath, rq_RequestURI := upstreamPath, rq_URLHost := host, rq_Host := host,
                         rq_Header := proxied_header (rq_RemoteAddr r) (rq_Header r) h', rq_TLS := None, rq_RemoteAddr := self\<rparr>))))"

definition join_host_port :: "string \<Rightarrow> string \<Rightarrow> string" where
  "join_host_port host port = (if CHR '':'' \<in> set host then ''['' @ host @ '']:'' @ port else host @ '':'' @ port)"

text \<open>The runtime to dial and the target of the CONNECT written to it.\<close>

definition handleSandboxConnect :: "'s backend \<Rightarrow> prov_config \<Rightarrow> request \<Rightarrow> 's \<Rightarrow> (string \<times> string) verdict" where
  "handleSandboxConnect B cfg r s =
     (let target = connect_target r in
      case index_byte target (CHR '':'') of
        None \<Rightarrow> Reply StatusBadRequest (''CONNECT target must be sandbox:port (got '' @ target @ '')'')
      | Some i \<Rightarrow>
          (let sandboxID = take i target; portStr = drop (Suc i) target in
           if sandboxID = [] \<or> portStr = [] then
             Reply StatusBadRequest (''CONNECT target must be sandbox:port (got '' @ target @ '')'')
           else (case parse_int portStr of
               None \<Rightarrow> Reply StatusBadRequest ''invalid port''
             | Some port \<Rightarrow>
                 if port < 1 \<or> port > 65535 then Reply StatusBadRequest ''invalid port''
                 else (case be_GetNodePort B (svc_name sandboxID) s of
                     Inl e \<Rightarrow> Reply StatusNotFound (''sandbox '' @ sandboxID @ '' not found'')
                   | Inr runtimePort \<Rightarrow>
                       if runtimePort = 0 then Reply StatusNotFound (''sandbox '' @ sandboxID @ '' not found'')
                       else Pass (join_host_port (pc_NodeHost cfg) (format_int runtimePort),
                         ''127.0.0.1:'' @ format_int port)))))"

datatype prov_dispatch =
    PConnect "(string \<times> string) verdict"
  | PUnauthorized
  | PMoved string
  | PMissing nat
  | PHandled string request
  | PRuntime "request verdict"

definition prov_mux :: "'s backend \<Rightarrow> prov_config \<Rightarrow> string \<Rightarrow> 's \<Rightarrow> request \<Rightarrow> prov_dispatch" where
  "prov_mux B cfg self s r =
     (case mux_serve prov_routes (rq_Method r) (rq_Path r) of
        Redirect p \<Rightarrow> PMoved p
      | NoRoute n \<Rightarrow> PMissing n
      | Found h \<Rightarrow>
          if h = ''catchAll'' then
            (if contains_str (rq_Path r) ''/runtime'' then PRuntime (handleRuntimeProxy B cfg self r s) else PMissing 404)
          else PHandled h r)"

text \<open>\<open>Handler\<close>: CONNECT outermost, then the key, then the routes.\<close>

definition prov_server :: "'s backend \<Rightarrow> prov_config \<Rightarrow> string \<Rightarrow> string \<Rightarrow> request \<Rightarrow> 's \<Rightarrow> prov_dispatch" where
  "prov_server B cfg self key r s =
     (if rq_Method r = ''CONNECT'' then PConnect (handleSandboxConnect B cfg r s)
      else (case api_middleware key [''/health''] r of
          None \<Rightarrow> PUnauthorized
        | Some r' \<Rightarrow> prov_mux B cfg self s r'))"

section \<open>The data plane asks for no key\<close>

lemma split_loopback: "list_all is_digit p \<Longrightarrow> split_host_port (''127.0.0.1:'' @ p) = Some ''127.0.0.1'' \<and> last_index (''127.0.0.1:'' @ p) '':'' = Some 9"
proof -
  assume d: "list_all is_digit p"
  have nd: "\<not> is_digit (CHR '':'')" "\<not> is_digit (CHR ''['')" "\<not> is_digit (CHR '']'')" by code_simp+
  then have n: "CHR '':'' \<notin> set p" "CHR ''['' \<notin> set p" "CHR '']'' \<notin> set p" using d by (auto simp: list_all_iff)
  have l0: "last_index p '':'' = None" using n(1) by (induction p) (auto simp: has_prefix_def)
  have l: "last_index (''127.0.0.1:'' @ p) '':'' = Some 9" by (simp add: l0 has_prefix_def)
  show ?thesis using l n unfolding split_host_port_def by simp
qed

lemma format_port_digits: "0 \<le> port \<Longrightarrow> list_all is_digit (format_int port)"
proof -
  assume p: "0 \<le> port"
  have "is_digit c" if c: "c \<in> set (format_nat 10 (nat port))" for c
  proof -
    obtain d where d: "d < 10" "c = digit_char d" using format_nat_digits [of 10 c "nat port"] c by auto
    then show ?thesis using decimal_chars by simp
  qed
  then show ?thesis using p by (simp add: format_int_def list_all_iff)
qed

text \<open>The request that the provisioner writes to the runtime.\<close>

definition connect_request :: "string \<Rightarrow> request" where
  "connect_request target = blank_request\<lparr>rq_Method := ''CONNECT'', rq_Path := [], rq_RequestURI := target, rq_Host := target\<rparr>"

text \<open>Whatever keys the provisioner and the runtime are given, a CONNECT without any credential goes through both to
  any port of a sandbox but 8080, the editor's port 8088 included, behind which a shell waits.\<close>

theorem connect_needs_no_key:
  assumes "rq_Method r = ''CONNECT''" and "connect_target r = sid @ '':'' @ format_int port"
    and "sid \<noteq> []" and "CHR '':'' \<notin> set sid" and "1 \<le> port" and "port \<le> 65535" and "port \<noteq> 8080"
    and "be_GetNodePort B (svc_name sid) s = Inr runtimePort" and "runtimePort \<noteq> 0"
  shows "\<exists>addr target. prov_server B cfg self provKey r s = PConnect (Pass (addr, target))
    \<and> runtime_server runtimeKey (connect_request target) = Forwarded (Pass port)"
proof -
  have i: "index_byte (sid @ '':'' @ format_int port) (CHR '':'') = Some (length sid)"
    using assms(4) by (induction sid) auto
  have p: "parse_int (format_int port) = Some port" by (rule parse_int_format) (use assms(5,6) in auto)
  have ne: "format_int port \<noteq> []" using p by (auto simp: parse_int_def parse_uint_def split: if_splits)
  have c: "handleSandboxConnect B cfg r s = Pass (join_host_port (pc_NodeHost cfg) (format_int runtimePort), ''127.0.0.1:'' @ format_int port)"
    using assms(3,5,6,8,9) ne by (simp add: handleSandboxConnect_def assms(2) i [simplified] p Let_def)
  note sp = split_loopback [OF format_port_digits [of port]]
  have "ForwardConnectHandler (connect_request (''127.0.0.1:'' @ format_int port)) = Pass port"
  proof -
    have t: "connect_target (connect_request (''127.0.0.1:'' @ format_int port)) = ''127.0.0.1:'' @ format_int port"
      by (simp add: connect_target_def connect_request_def)
    have d: "drop (Suc 9) (''127.0.0.1:'' @ format_int port) = format_int port" by simp
    show ?thesis unfolding ForwardConnectHandler_def Let_def t using sp assms(5-7) d p by (simp del: append_Cons)
  qed
  then show ?thesis
    using c assms(1) by (simp add: prov_server_def runtime_server_def connectInterceptor_def connect_request_def)
qed

definition one_sandbox :: mock where
  "one_sandbox = snd (mock_CreateService (create_spec \<lparr>pc_SandboxImage = [], pc_Labels = Map.empty, pc_NodeHost = ''localhost'',
     pc_BridgeURL = [], pc_DefaultVolumes = [], pc_DefaultEgress = \<lparr>ep_Mode = [], ep_Rules = []\<rparr>, pc_RuntimeAPIKey = ''k''\<rparr> 0
     \<lparr>cr_SandboxID = ''a'', cr_ThreadID = [], cr_Resources = None, cr_RuntimeClass = [], cr_TTLSeconds = 0, cr_Volumes = [],
      cr_Egress = \<lparr>ep_Mode = [], ep_Rules = []\<rparr>, cr_ReuseExisting = False\<rparr> ''a'') NewMockBackend)"

lemma one_sandbox_port: "be_GetNodePort mock_backend (svc_name ''a'') one_sandbox = Inr 30000"
  by (simp add: one_sandbox_def mock_backend_def mock_CreateService_def NewMockBackend_def mock_GetNodePort_def create_spec_def
      al_put_def Let_def)

definition key_config :: prov_config where
  "key_config = \<lparr>pc_SandboxImage = [], pc_Labels = Map.empty, pc_NodeHost = ''localhost'', pc_BridgeURL = [],
     pc_DefaultVolumes = [], pc_DefaultEgress = \<lparr>ep_Mode = [], ep_Rules = []\<rparr>, pc_RuntimeAPIKey = ''k''\<rparr>"

lemma connect_needs_no_key_witness:
  "\<exists>addr target. prov_server mock_backend key_config ''self'' ''secret'' (blank_request\<lparr>rq_Method := ''CONNECT'', rq_RequestURI := ''a:8088''\<rparr>)
      one_sandbox = PConnect (Pass (addr, target))
    \<and> runtime_server ''other'' (connect_request target) = Forwarded (Pass 8088)"
proof (rule connect_needs_no_key [where sid = "''a''" and runtimePort = 30000])
  have "char_of (56 :: nat) = CHR ''8''" "char_of (48 :: nat) = CHR ''0''" by code_simp+
  then have "format_int 8088 = ''8088''" by (simp add: format_int_def format_nat.simps digit_char_def)
  then show "connect_target (blank_request\<lparr>rq_Method := ''CONNECT'', rq_RequestURI := ''a:8088''\<rparr>) = ''a'' @ '':'' @ format_int 8088"
    by (simp add: connect_target_def)
qed (simp_all add: one_sandbox_port)

section \<open>The runtime's key on its way\<close>

definition credential_keys :: "string set" where
  "credential_keys = {canon_key HeaderName, canon_key ''Authorization''}"

lemma api_check_cong: "(\<And>k. k \<in> credential_keys \<Longrightarrow> h k = h' k) \<Longrightarrow> api_check key h = api_check key h'"
  by (simp add: api_check_def hget_def credential_keys_def)

lemma credential_keys_plain: "credential_keys \<inter> set hop_only = {}" "canon_key ''Upgrade'' \<notin> credential_keys"
  by code_simp+

text \<open>A second proxy finds nothing in \<open>Connection\<close> but an upgrade, so it leaves the credentials in place.\<close>

lemma second_hop_keeps:
  assumes "hvals h ''Connection'' \<in> {[], [''Upgrade'']}" and "k \<in> credential_keys"
  shows "proxied_header remote h0 h k = h k"
proof -
  have "comma_tokens [''Upgrade''] = [''Upgrade'']" by code_simp
  then have "set (filter (\<lambda>w. w \<noteq> []) (comma_tokens (hvals h ''Connection''))) \<subseteq> {''Upgrade''}"
    using assms(1) by (elim insertE) (simp_all add: comma_tokens_def)
  then have "k \<notin> canon_key ` set (filter (\<lambda>w. w \<noteq> []) (comma_tokens (hvals h ''Connection'')))"
    using assms(2) credential_keys_plain(2) by blast
  then show ?thesis using proxied_header_other [of k remote h0 h] assms(2) credential_keys_plain(1) by auto
qed

lemma runtime_proxy_header:
  assumes "handleRuntimeProxy B cfg self r s = Pass r1"
  shows "\<exists>h'. rq_Header r1 = proxied_header (rq_RemoteAddr r) (rq_Header r) h'"
  using assms by (auto simp: handleRuntimeProxy_def Let_def split: option.splits sum.splits if_splits)


text \<open>A visitor's request for an app on port 3000.\<close>

definition visit :: request where
  "visit = blank_request\<lparr>rq_Path := ''/api/sandboxes/a/runtime/v1/proxy/3000/''\<rparr>"


end
