(* ===== verification/Rt_Projects.thy ===== *)
theory Rt_Projects
  imports Paths
begin

text \<open>
  The supervisor of a sandbox's projects (\<open>pkg/handlers/project.go\<close>). A project object is an index into a heap; the table maps a
  name to its current object. Starting and stopping run under a lock of the name and are one step
  each, a start with the starts of its dependencies inside; the goroutine that waits for a process is a step of its own at its exit and
  another one after its pause. A named lock that is asked for by the goroutine that holds it is never granted: the caller blocks for
  ever, and so does everybody after it. Manifest decoding, the login shell's environment, the wrapping of the
  command and the creation of processes are parameters; time is in nanoseconds.
\<close>

abbreviation "Sec \<equiv> (1000000000 :: int)"

definition projectConfigFile :: string where "projectConfigFile = ''.sandbox-project.json''"
definition maxLogLines :: nat where "maxLogLines = 500"
definition maxCrashesInWindow :: nat where "maxCrashesInWindow = 5"
definition crashWindowSeconds :: int where "crashWindowSeconds = 60"

record project_config =
  jc_Name :: string
  jc_StartCommand :: "string list"
  jc_AutoRestart :: bool
  jc_DependsOn :: "string list"
  jc_Env :: "(string \<times> string) list" \<comment> \<open>in the order the map is walked\<close>
  jc_EnvFile :: string

datatype project_status = PStarting | PRunning | PStopped | PFailed

record project =
  pj_config :: project_config
  pj_alive :: bool \<comment> \<open>the process\<close>
  pj_waited :: bool \<comment> \<open>its exit has been seen by \<open>watchProcess\<close>\<close>
  pj_status :: project_status
  pj_startedAt :: int
  pj_restartCount :: int
  pj_lastError :: string
  pj_logs :: "string list"
  pj_manuallyStopped :: bool
  pj_internalPort :: int

abbreviation "pj_name p \<equiv> jc_Name (pj_config p)"

record manager =
  pm_heap :: "project list"
  pm_projects :: "string \<rightharpoonup> nat"
  pm_crashes :: "string \<Rightarrow> int list"
  pm_locked :: "string set" \<comment> \<open>held by callers that never return\<close>
  pm_clock :: int
  pm_backoff :: "(nat \<times> int) list" \<comment> \<open>watchers in their pause, with its end\<close>

text \<open>The world of the supervisor. A spawn yields the error, or nothing when the process runs; the wrapping returns
  the argument vector, the environment and the hidden port.\<close>

record project_world =
  pw_workDir :: string
  pw_read :: "string \<Rightarrow> string option"
  pw_decode :: "string \<Rightarrow> project_config option"
  pw_login :: "string list"
  pw_wrap :: "string list \<Rightarrow> string list \<Rightarrow> string list \<times> string list \<times> int"
  pw_spawn :: "string \<Rightarrow> string list \<Rightarrow> string list \<Rightarrow> string option"

definition NewProjectManager :: "int \<Rightarrow> manager" where
  "NewProjectManager now = \<lparr>pm_heap = [], pm_projects = Map.empty, pm_crashes = (\<lambda>n. []), pm_locked = {}, pm_clock = now,
     pm_backoff = []\<rparr>"

definition upd_project :: "nat \<Rightarrow> (project \<Rightarrow> project) \<Rightarrow> manager \<Rightarrow> manager" where
  "upd_project i f m = m\<lparr>pm_heap := (pm_heap m)[i := f (pm_heap m ! i)]\<rparr>"

section \<open>The circuit breaker\<close>

definition recent :: "int \<Rightarrow> int list \<Rightarrow> int list" where
  "recent now ts = filter (\<lambda>t. t > now - crashWindowSeconds * Sec) ts"

definition isCircuitOpen :: "manager \<Rightarrow> string \<Rightarrow> bool" where
  "isCircuitOpen m n \<longleftrightarrow> length (recent (pm_clock m) (pm_crashes m n)) \<ge> maxCrashesInWindow"

definition recordCrash :: "string \<Rightarrow> manager \<Rightarrow> manager" where
  "recordCrash n m = m\<lparr>pm_crashes := (pm_crashes m)(n := recent (pm_clock m) (pm_crashes m n @ [pm_clock m]))\<rparr>"

section \<open>Start and stop\<close>

text \<open>The process group is terminated, and killed after two seconds.\<close>

definition stopProject :: "nat \<Rightarrow> manager \<Rightarrow> manager" where
  "stopProject i m = (upd_project i (\<lambda>p. p\<lparr>pj_manuallyStopped := True, pj_alive := False, pj_status := PStopped\<rparr>) m)
     \<lparr>pm_clock := pm_clock m + 2 * Sec\<rparr>"

datatype start_result = Started nat | StartError string | Blocked "string set" | OutOfFuel

definition project_dir :: "project_world \<Rightarrow> string \<Rightarrow> string" where
  "project_dir w n = path_join [pw_workDir w, ''projects'', n]"

text \<open>The manifest of the name, else that of the workspace's root; with its directory.\<close>

definition load_config :: "project_world \<Rightarrow> string \<Rightarrow> string + (string \<times> project_config)" where
  "load_config w n =
     (case (case pw_read w (path_join [project_dir w n, projectConfigFile]) of
              Some d \<Rightarrow> Some (project_dir w n, d)
            | None \<Rightarrow> map_option (Pair (pw_workDir w)) (pw_read w (path_join [pw_workDir w, projectConfigFile]))) of
        None \<Rightarrow> Inl ''project config not found''
      | Some (dir, d) \<Rightarrow>
          (case pw_decode w d of
             None \<Rightarrow> Inl ''invalid project config''
           | Some c \<Rightarrow> Inr (dir, c\<lparr>jc_Name := n\<rparr>)))"

definition env_file_lines :: "string \<Rightarrow> string list" where
  "env_file_lines d = filter (\<lambda>l. l \<noteq> [] \<and> \<not> has_prefix l ''#'' \<and> CHR ''='' \<in> set l) (map trim_space (split_on (CHR 0x0A) d))"

definition project_environment :: "project_world \<Rightarrow> string \<Rightarrow> project_config \<Rightarrow> string list" where
  "project_environment w dir c = pw_login w @ map (\<lambda>(k, v). k @ ''='' @ v) (jc_Env c)
     @ (if jc_EnvFile c = [] then [] else (case pw_read w (path_join [dir, jc_EnvFile c]) of None \<Rightarrow> [] | Some d \<Rightarrow> env_file_lines d))"

definition new_project :: "project_config \<Rightarrow> int \<Rightarrow> int \<Rightarrow> project" where
  "new_project c now internal = \<lparr>pj_config = c, pj_alive = True, pj_waited = False, pj_status = PRunning, pj_startedAt = now,
     pj_restartCount = 0, pj_lastError = [], pj_logs = [], pj_manuallyStopped = False, pj_internalPort = internal\<rparr>"

lemma new_project_simps [simp]:
  "pj_config (new_project c now i) = c" "pj_alive (new_project c now i)" "\<not> pj_waited (new_project c now i)"
  "pj_status (new_project c now i) = PRunning" "pj_restartCount (new_project c now i) = 0" "\<not> pj_manuallyStopped (new_project c now i)"
  by (simp_all add: new_project_def)

definition launch :: "project_world \<Rightarrow> string \<Rightarrow> string \<Rightarrow> project_config \<Rightarrow> manager \<Rightarrow> start_result \<times> manager" where
  "launch w n dir c m =
     (if jc_StartCommand c = [] then (StartError ''start_command is required'', m)
      else (let (argv, env, internal) = pw_wrap w (jc_StartCommand c) (project_environment w dir c) in
        case pw_spawn w dir argv env of
          Some e \<Rightarrow> (StartError (''failed to start: '' @ e), m)
        | None \<Rightarrow> (let i = length (pm_heap m) in
            (Started i, m\<lparr>pm_heap := pm_heap m @ [new_project c (pm_clock m) internal],
               pm_projects := (pm_projects m)(n \<mapsto> i)\<rparr>))))"

definition stop_existing :: "string \<Rightarrow> manager \<Rightarrow> manager" where
  "stop_existing n m =
     (case pm_projects m n of
        None \<Rightarrow> m
      | Some i \<Rightarrow> if pj_status (pm_heap m ! i) = PRunning then stopProject i m else m)"

definition dep_running :: "manager \<Rightarrow> string \<Rightarrow> bool" where
  "dep_running m d \<longleftrightarrow> (case pm_projects m d of None \<Rightarrow> False | Some i \<Rightarrow> pj_status (pm_heap m ! i) = PRunning)"

text \<open>\<open>held\<close>: the names whose locks this goroutine holds. The fuel bounds the depth of the starts.\<close>

fun StartProject :: "nat \<Rightarrow> project_world \<Rightarrow> string set \<Rightarrow> string \<Rightarrow> manager \<Rightarrow> start_result \<times> manager"
  and start_deps :: "nat \<Rightarrow> project_world \<Rightarrow> string set \<Rightarrow> string list \<Rightarrow> manager \<Rightarrow> start_result option \<times> manager" where
  "StartProject 0 w held n m = (OutOfFuel, m)"
| "StartProject (Suc k) w held n m =
     (if n \<in> held \<or> n \<in> pm_locked m then (Blocked held, m)
      else if isCircuitOpen m n then (StartError ''has crashed too many times, circuit breaker open'', m)
      else (let m1 = stop_existing n m in
        case load_config w n of
          Inl e \<Rightarrow> (StartError e, m1)
        | Inr (dir, c) \<Rightarrow>
            (case start_deps k w (insert n held) (jc_DependsOn c) m1 of
               (Some r, m2) \<Rightarrow> (r, m2)
             | (None, m2) \<Rightarrow> launch w n dir c m2)))"
| "start_deps k w held [] m = (None, m)"
| "start_deps k w held (d # ds) m =
     (if dep_running m d then start_deps k w held ds m
      else (case StartProject k w held d m of
          (Started i, m1) \<Rightarrow> start_deps k w held ds m1
        | (StartError e, m1) \<Rightarrow> (Some (StartError (''dependency failed to start: '' @ e)), m1)
        | (r, m1) \<Rightarrow> (Some r, m1)))"

declare StartProject.simps(2) [simp del]

lemmas start_unfold = StartProject.simps(2)

text \<open>A caller that blocks keeps its locks.\<close>

definition keep_locks :: "start_result \<Rightarrow> manager \<Rightarrow> manager" where
  "keep_locks r m = (case r of Blocked held \<Rightarrow> m\<lparr>pm_locked := pm_locked m \<union> held\<rparr> | _ \<Rightarrow> m)"

definition StopProject :: "string \<Rightarrow> manager \<Rightarrow> start_result \<times> manager" where
  "StopProject n m =
     (if n \<in> pm_locked m then (Blocked {}, m)
      else (case pm_projects m n of
          None \<Rightarrow> (StartError ''not found'', m)
        | Some i \<Rightarrow> (Started i, stopProject i m)))"

section \<open>The watcher\<close>

text \<open>The process has ended with a code. \<open>early\<close>: it was stopped, and its exit is seen before the stop is through, which
  then has the last word on the status.\<close>

definition watchProcess :: "nat \<Rightarrow> int \<Rightarrow> bool \<Rightarrow> manager \<Rightarrow> manager" where
  "watchProcess i code early m =
     (let p = pm_heap m ! i; n = pj_name p;
          autoRestart = (jc_AutoRestart (pj_config p) \<and> \<not> pj_manuallyStopped p);
          p1 = p\<lparr>pj_waited := True, pj_status := (if code = 0 \<or> early \<and> pj_manuallyStopped p then PStopped else PFailed),
            pj_lastError := (if code = 0 then pj_lastError p else ''exit code'')\<rparr>;
          m1 = recordCrash n (m\<lparr>pm_heap := (pm_heap m)[i := p1]\<rparr>)
      in if autoRestart \<and> \<not> isCircuitOpen m1 n then
           (let count = pj_restartCount p1 + 1;
                delay = 2 ^ nat (min (count - 1) 4) * Sec
            in m1\<lparr>pm_heap := (pm_heap m1)[i := p1\<lparr>pj_restartCount := count\<rparr>],
                 pm_backoff := pm_backoff m1 @ [(i, pm_clock m1 + delay)]\<rparr>)
         else m1)"

text \<open>After the pause. The watcher's own object is marked when the start fails.\<close>

definition watch_resume :: "nat \<Rightarrow> project_world \<Rightarrow> nat \<times> int \<Rightarrow> manager \<Rightarrow> start_result \<times> manager" where
  "watch_resume k w it m =
     (let m0 = m\<lparr>pm_backoff := remove1 it (pm_backoff m)\<rparr>;
          (r, m1) = StartProject k w {} (pj_name (pm_heap m0 ! fst it)) m0
      in (r, case r of
           StartError e \<Rightarrow> upd_project (fst it) (\<lambda>p. p\<lparr>pj_status := PFailed, pj_lastError := ''auto-restart failed: '' @ e\<rparr>) m1
         | _ \<Rightarrow> keep_locks r m1))"

section \<open>Histories\<close>

text \<open>Each exit of a process that leads to a restart is an event, with its name and time.\<close>

inductive pm_step :: "project_world \<Rightarrow> manager \<Rightarrow> (string \<times> int) list \<Rightarrow> manager \<Rightarrow> bool" for w where
  tick: "0 \<le> d \<Longrightarrow> pm_step w m [] (m\<lparr>pm_clock := pm_clock m + d\<rparr>)"
| start: "StartProject k w {} n m = (r, m') \<Longrightarrow> r \<noteq> OutOfFuel \<Longrightarrow> pm_step w m [] (keep_locks r m')"
| stop: "StopProject n m = (r, m') \<Longrightarrow> pm_step w m [] m'"
| exits: "i < length (pm_heap m) \<Longrightarrow> pj_alive (pm_heap m ! i) \<Longrightarrow> pm_step w m [] (upd_project i (\<lambda>p. p\<lparr>pj_alive := False\<rparr>) m)"
| watch: "i < length (pm_heap m) \<Longrightarrow> \<not> pj_alive (pm_heap m ! i) \<Longrightarrow> \<not> pj_waited (pm_heap m ! i) \<Longrightarrow> m' = watchProcess i code early m
    \<Longrightarrow> pm_step w m (if pm_backoff m' = pm_backoff m then [] else [(pj_name (pm_heap m ! i), pm_clock m)]) m'"
| wake: "it \<in> set (pm_backoff m) \<Longrightarrow> snd it \<le> pm_clock m \<Longrightarrow> watch_resume k w it m = (r, m') \<Longrightarrow> r \<noteq> OutOfFuel \<Longrightarrow> pm_step w m [] m'"

inductive pm_run :: "project_world \<Rightarrow> int \<Rightarrow> (string \<times> int) list \<Rightarrow> manager \<Rightarrow> bool" for w where
  fresh: "pm_run w now [] (NewProjectManager now)"
| onward: "pm_run w now h m \<Longrightarrow> pm_step w m e m' \<Longrightarrow> pm_run w now (h @ e) m'"

inductive_cases pm_stepE: "pm_step w m e m'"

section \<open>A workspace of two projects\<close>

text \<open>\<open>app\<close> with given dependencies, and \<open>db\<close> with none; every command can be run.\<close>

definition demo_config :: "string list \<Rightarrow> project_config" where
  "demo_config deps = \<lparr>jc_Name = [], jc_StartCommand = [''npm'', ''start''], jc_AutoRestart = True, jc_DependsOn = deps, jc_Env = [], jc_EnvFile = []\<rparr>"

definition demo_world :: "string list \<Rightarrow> project_world" where
  "demo_world deps = \<lparr>pw_workDir = ''/workspace'',
     pw_read = (\<lambda>p. if p = ''/workspace/projects/app/.sandbox-project.json'' then Some ''app''
       else if p = ''/workspace/projects/db/.sandbox-project.json'' then Some ''db'' else None),
     pw_decode = (\<lambda>d. if d = ''app'' then Some (demo_config deps) else if d = ''db'' then Some (demo_config []) else None),
     pw_login = [], pw_wrap = (\<lambda>argv env. (argv, env, 0)), pw_spawn = (\<lambda>dir argv env. None)\<rparr>"

lemma demo_load:
  "load_config (demo_world deps) ''app'' = Inr (''/workspace/projects/app'', (demo_config deps)\<lparr>jc_Name := ''app''\<rparr>)"
  "load_config (demo_world deps) ''db'' = Inr (''/workspace/projects/db'', (demo_config [])\<lparr>jc_Name := ''db''\<rparr>)"
proof -
  have p: "path_join [''/workspace/projects/app'', projectConfigFile] = ''/workspace/projects/app/.sandbox-project.json''"
    "path_join [''/workspace/projects/db'', projectConfigFile] = ''/workspace/projects/db/.sandbox-project.json''"
    "path_join [''/workspace'', ''projects'', ''app''] = ''/workspace/projects/app''"
    "path_join [''/workspace'', ''projects'', ''db''] = ''/workspace/projects/db''"
    by code_simp+
  show "load_config (demo_world deps) ''app'' = Inr (''/workspace/projects/app'', (demo_config deps)\<lparr>jc_Name := ''app''\<rparr>)"
    unfolding load_config_def project_dir_def demo_world_def project_world.simps p by simp
  show "load_config (demo_world deps) ''db'' = Inr (''/workspace/projects/db'', (demo_config [])\<lparr>jc_Name := ''db''\<rparr>)"
    unfolding load_config_def project_dir_def demo_world_def project_world.simps p by simp
qed

lemma demo_launch: "jc_StartCommand c \<noteq> [] \<Longrightarrow> launch (demo_world deps) n dir c m
    = (Started (length (pm_heap m)), m\<lparr>pm_heap := pm_heap m @ [new_project c (pm_clock m) 0],
        pm_projects := (pm_projects m)(n \<mapsto> length (pm_heap m))\<rparr>)"
  by (simp add: launch_def demo_world_def Let_def)

lemma demo_config_simps [simp]: "jc_StartCommand (demo_config d) = [''npm'', ''start'']" "jc_AutoRestart (demo_config d)" "jc_DependsOn (demo_config d) = d"
  by (simp_all add: demo_config_def)

lemma demo_start_db:
  assumes "''db'' \<notin> held" "''db'' \<notin> pm_locked m" "\<not> isCircuitOpen m ''db''" "pm_projects m ''db'' = None"
  shows "StartProject (Suc k) (demo_world deps) held ''db'' m
    = (Started (length (pm_heap m)), m\<lparr>pm_heap := pm_heap m @ [new_project ((demo_config [])\<lparr>jc_Name := ''db''\<rparr>) (pm_clock m) 0],
        pm_projects := (pm_projects m)(''db'' \<mapsto> length (pm_heap m))\<rparr>)"
  using assms by (simp add: start_unfold Let_def demo_load demo_launch stop_existing_def)

lemma demo_start_alone:
  assumes "''app'' \<notin> held" "''app'' \<notin> pm_locked m" "\<not> isCircuitOpen m ''app''" "pm_projects m ''app'' = None"
  shows "StartProject (Suc k) (demo_world []) held ''app'' m
    = (Started (length (pm_heap m)), m\<lparr>pm_heap := pm_heap m @ [new_project ((demo_config [])\<lparr>jc_Name := ''app''\<rparr>) (pm_clock m) 0],
        pm_projects := (pm_projects m)(''app'' \<mapsto> length (pm_heap m))\<rparr>)"
  using assms by (simp add: start_unfold Let_def demo_load demo_launch stop_existing_def)

lemma fresh_closed [simp]: "\<not> isCircuitOpen (NewProjectManager now) n" "pm_projects (NewProjectManager now) n = None"
    "pm_locked (NewProjectManager now) = {}" "pm_heap (NewProjectManager now) = []" "pm_clock (NewProjectManager now) = now"
    "pm_backoff (NewProjectManager now) = []" "pm_crashes (NewProjectManager now) n = []"
  by (simp_all add: NewProjectManager_def isCircuitOpen_def recent_def maxCrashesInWindow_def)

end
