(* ===== verification/Rt_Supervision.thy ===== *)
theory Rt_Supervision
  imports Rt_Projects
begin

text \<open>
  What the supervisor of projects guarantees and what it does not: when a start returns, that a name has at most one process, how
  often a crashing project is restarted, and whether stopping means stopping.
\<close>

section \<open>Starts that return\<close>

definition dep_ranked :: "project_world \<Rightarrow> (string \<Rightarrow> nat) \<Rightarrow> bool" where
  "dep_ranked w rank \<longleftrightarrow> (\<forall>n dir c d. load_config w n = Inr (dir, c) \<longrightarrow> d \<in> set (jc_DependsOn c) \<longrightarrow> rank d < rank n)"

definition returned :: "start_result \<Rightarrow> bool" where
  "returned r \<longleftrightarrow> (case r of Started i \<Rightarrow> True | StartError e \<Rightarrow> True | _ \<Rightarrow> False)"

lemma unlocked_helpers [simp]:
  "pm_locked (upd_project i f m) = pm_locked m" "pm_locked (stopProject i m) = pm_locked m" "pm_locked (stop_existing n m) = pm_locked m"
  "pm_locked (snd (launch w n dir c m)) = pm_locked m"
  by (auto simp: upd_project_def stopProject_def stop_existing_def launch_def Let_def split: option.splits prod.splits)

lemma launch_returned: "returned (fst (launch w n dir c m))"
  by (auto simp: launch_def returned_def Let_def split: option.splits prod.splits)

lemma start_returned:
  assumes "dep_ranked w rank"
  shows "rank n < k \<Longrightarrow> pm_locked m = {} \<Longrightarrow> \<forall>h \<in> held. rank n < rank h
    \<Longrightarrow> returned (fst (StartProject k w held n m)) \<and> pm_locked (snd (StartProject k w held n m)) = {}
      \<and> (\<forall>k' > rank n. StartProject k' w held n m = StartProject k w held n m)"
proof (induction "rank n" arbitrary: n k held m rule: less_induct)
  case less
  obtain k0 where k: "k = Suc k0" using less.prems(1) by (cases k) auto
  have n: "n \<notin> held" using less.prems(3) by blast
  have deps: "(case start_deps k1 w (insert n held) ds m1 of (r, m2) \<Rightarrow> (r = None \<or> (\<exists>r'. r = Some r' \<and> returned r')) \<and> pm_locked m2 = {})
      \<and> (\<forall>k2 \<ge> rank n. start_deps k2 w (insert n held) ds m1 = start_deps k1 w (insert n held) ds m1)"
    if "\<forall>d \<in> set ds. rank d < rank n" "pm_locked m1 = {}" "rank n \<le> k1" for ds m1 k1
    using that
  proof (induction ds arbitrary: m1)
    case (Cons d ds)
    have prems: "\<forall>d \<in> set ds. rank d < rank n" "rank n \<le> k1" using Cons.prems by auto
    have d: "rank d < rank n" "rank d < k1" using Cons.prems by auto
    have h: "\<forall>h \<in> insert n held. rank d < rank h" using less.prems(3) d(1) by force
    note ih = less.hyps [OF d(1) d(2) Cons.prems(2) h]
    have same: "StartProject k2 w (insert n held) d m1 = StartProject k1 w (insert n held) d m1" if "rank n \<le> k2" for k2
      using ih d(1) that by (metis le_less_trans less_le_not_le order_less_le_trans)
    obtain r m2 where s: "StartProject k1 w (insert n held) d m1 = (r, m2)" by force
    have r: "returned r" "pm_locked m2 = {}" using ih s by auto
    have rest: "start_deps k2 w (insert n held) ds m' = start_deps k1 w (insert n held) ds m'" if "pm_locked m' = {}" "rank n \<le> k2" for m' k2
      using conjunct2 [OF Cons.IH [OF prems(1) that(1) prems(2)]] that(2) by blast
    show ?case
    proof (cases "dep_running m1 d")
      case True
      then show ?thesis using Cons.IH [OF prems(1) Cons.prems(2) prems(2)] by simp
    next
      case False
      show ?thesis
      proof (cases r)
        case (Started i)
        then show ?thesis using Cons.IH [OF prems(1) r(2) prems(2)] s same rest [OF r(2)] False by simp
      next
        case (StartError e)
        then show ?thesis using r s same False by (simp add: returned_def)
      qed (use r in \<open>simp_all add: returned_def\<close>)
    qed
  qed simp
  show ?case
  proof (cases "load_config w n")
    case (Inl e)
    have "StartProject (Suc k1) w held n m = (StartError (if isCircuitOpen m n then ''has crashed too many times, circuit breaker open'' else e),
        if isCircuitOpen m n then m else stop_existing n m)" for k1
      using less.prems(2) n by (simp add: start_unfold Inl Let_def)
    moreover have "\<exists>k1. k' = Suc k1" if "rank n < k'" for k' using that by (cases k') auto
    ultimately show ?thesis using less.prems(2) by (force simp: k returned_def)
  next
    case (Inr q)
    obtain dir c where c: "load_config w n = Inr (dir, c)" using Inr by (cases q) auto
    have ds: "\<forall>d \<in> set (jc_DependsOn c). rank d < rank n" using assms c by (auto simp: dep_ranked_def)
    have l: "pm_locked (stop_existing n m) = {}" using less.prems(2) by simp
    note dd = deps [OF ds l]
    obtain r m2 where s: "start_deps k0 w (insert n held) (jc_DependsOn c) (stop_existing n m) = (r, m2)" by force
    have k0: "rank n \<le> k0" using less.prems(1) k by simp
    have r: "r = None \<or> (\<exists>r'. r = Some r' \<and> returned r')" "pm_locked m2 = {}" using dd [OF k0] s by auto
    have same: "StartProject k' w held n m = StartProject k w held n m" if k': "k' > rank n" for k'
    proof -
      obtain k1 where k1: "k' = Suc k1" "rank n \<le> k1" using k' by (cases k') auto
      then show ?thesis using conjunct2 [OF dd [OF k0]] n less.prems(2) by (simp add: k c Let_def start_unfold)
    qed
    have "returned (fst (StartProject k w held n m)) \<and> pm_locked (snd (StartProject k w held n m)) = {}"
      using r s n less.prems(2) launch_returned [of w n dir c m2] unlocked_helpers(4) [of w n dir c m2]
      by (auto simp: k c Let_def returned_def start_unfold split: option.splits)
    then show ?thesis using same by blast
  qed
qed

text \<open>C28: When no project depends on itself through others, every start returns, with a running project or an error,
  whatever else runs, and leaves no lock behind; the depth of the starts is bounded by the rank of the project.\<close>

theorem start_terminates:
  assumes "dep_ranked w rank" and "pm_locked m = {}" and "rank n < k"
  shows "\<exists>m'. ((\<exists>i. StartProject k w {} n m = (Started i, m')) \<or> (\<exists>e. StartProject k w {} n m = (StartError e, m')))
    \<and> pm_locked m' = {} \<and> StartProject (Suc (rank n)) w {} n m = StartProject k w {} n m"
proof -
  obtain r m' where s: "StartProject k w {} n m = (r, m')" by force
  note a = start_returned [OF assms(1,3,2), of "{}"]
  have "(\<exists>i. r = Started i) \<or> (\<exists>e. r = StartError e)" using a s by (auto simp: returned_def split: start_result.splits)
  moreover have "StartProject (Suc (rank n)) w {} n m = StartProject k w {} n m" using a by simp
  ultimately show ?thesis using a s by auto
qed

lemma demo_ranked: "dep_ranked (demo_world [''db'']) (\<lambda>n. if n = ''db'' then 0 else 1)"
proof -
  have "jc_DependsOn c = [] \<or> n \<noteq> ''db'' \<and> jc_DependsOn c = [''db'']" if l: "load_config (demo_world [''db'']) n = Inr (dir, c)" for n dir c
  proof (cases "n = ''db''")
    case False
    obtain data c0 where d: "pw_decode (demo_world [''db'']) data = Some c0" "c = c0\<lparr>jc_Name := n\<rparr>"
      using l by (auto simp: load_config_def split: option.splits)
    then have "c0 = demo_config [''db''] \<or> c0 = demo_config []" by (auto simp: demo_world_def split: if_splits)
    then show ?thesis using False d(2) by auto
  qed (use l in \<open>auto simp: demo_load\<close>)
  then show ?thesis unfolding dep_ranked_def by fastforce
qed

theorem start_terminates_witness:
  "\<exists>m'. ((\<exists>i. StartProject 5 (demo_world [''db'']) {} ''app'' (NewProjectManager 0) = (Started i, m'))
      \<or> (\<exists>e. StartProject 5 (demo_world [''db'']) {} ''app'' (NewProjectManager 0) = (StartError e, m')))
    \<and> pm_locked m' = {} \<and> StartProject (Suc 1) (demo_world [''db'']) {} ''app'' (NewProjectManager 0)
      = StartProject 5 (demo_world [''db'']) {} ''app'' (NewProjectManager 0)"
  using start_terminates [OF demo_ranked, of "NewProjectManager 0" "''app''" 5] by simp

section \<open>One process per name\<close>

definition pm_good :: "manager \<Rightarrow> bool" where
  "pm_good m \<longleftrightarrow>
     (\<forall>n i. pm_projects m n = Some i \<longrightarrow> i < length (pm_heap m) \<and> pj_name (pm_heap m ! i) = n)
     \<and> (\<forall>i < length (pm_heap m). let p = pm_heap m ! i in
          (pj_alive p \<longrightarrow> pj_status p = PRunning \<and> \<not> pj_waited p \<and> pm_projects m (pj_name p) = Some i)
          \<and> (\<not> pj_waited p \<longrightarrow> pj_restartCount p = 0))
     \<and> (\<forall>(i, t) \<in> set (pm_backoff m). i < length (pm_heap m) \<and> pj_waited (pm_heap m ! i))"

text \<open>What a start leaves alone: everything of the names whose locks are held, and of every object its name and its watcher's marks.\<close>

definition pm_frame :: "string set \<Rightarrow> manager \<Rightarrow> manager \<Rightarrow> bool" where
  "pm_frame H m m' \<longleftrightarrow> length (pm_heap m) \<le> length (pm_heap m') \<and> pm_clock m \<le> pm_clock m'
     \<and> pm_backoff m' = pm_backoff m \<and> pm_crashes m' = pm_crashes m
     \<and> (\<forall>n \<in> H. pm_projects m' n = pm_projects m n)
     \<and> (\<forall>i < length (pm_heap m). pj_name (pm_heap m' ! i) = pj_name (pm_heap m ! i)
          \<and> pj_waited (pm_heap m' ! i) = pj_waited (pm_heap m ! i)
          \<and> (pj_name (pm_heap m ! i) \<in> H \<longrightarrow> pm_heap m' ! i = pm_heap m ! i))
     \<and> (\<forall>i. length (pm_heap m) \<le> i \<longrightarrow> i < length (pm_heap m') \<longrightarrow> pj_name (pm_heap m' ! i) \<notin> H)"

lemma pm_frame_refl: "pm_frame H m m"
  by (simp add: pm_frame_def)

lemma pm_frame_trans: "pm_frame H m m1 \<Longrightarrow> pm_frame H m1 m2 \<Longrightarrow> pm_frame H m m2"
  unfolding pm_frame_def by (auto dest: order.trans order.strict_trans2) (metis linorder_not_le order.strict_trans2)+

lemma pm_frame_mono: "pm_frame (insert n H) m m' \<Longrightarrow> pm_frame H m m'"
  by (auto simp: pm_frame_def)

lemma pm_good_stop:
  assumes "pm_good m" "i < length (pm_heap m)"
  shows "pm_good (stopProject i m)"
  using assms by (auto simp: pm_good_def stopProject_def upd_project_def Let_def nth_list_update)

lemma stop_existing_facts:
  assumes "pm_good m"
  shows "pm_good (stop_existing n m)"
    and "n \<notin> H \<Longrightarrow> pm_frame H m (stop_existing n m)"
    and "\<forall>i < length (pm_heap (stop_existing n m)). pj_name (pm_heap (stop_existing n m) ! i) = n \<longrightarrow> \<not> pj_alive (pm_heap (stop_existing n m) ! i)"
proof -
  have i: "i < length (pm_heap m) \<and> pj_name (pm_heap m ! i) = n" if "pm_projects m n = Some i" for i
    using assms that by (simp add: pm_good_def)
  show "pm_good (stop_existing n m)"
    using assms i pm_good_stop by (auto simp: stop_existing_def split: option.split)
  show "n \<notin> H \<Longrightarrow> pm_frame H m (stop_existing n m)"
    using i by (auto simp: stop_existing_def pm_frame_def stopProject_def upd_project_def nth_list_update split: option.split)
  show "\<forall>i < length (pm_heap (stop_existing n m)). pj_name (pm_heap (stop_existing n m) ! i) = n \<longrightarrow> \<not> pj_alive (pm_heap (stop_existing n m) ! i)"
    using assms i
    by (auto simp: stop_existing_def stopProject_def upd_project_def nth_list_update pm_good_def Let_def split: option.splits)
qed

lemma load_config_name: "load_config w n = Inr (dir, c) \<Longrightarrow> jc_Name c = n"
  by (auto simp: load_config_def split: option.splits)

lemma launch_facts:
  assumes "pm_good m" "jc_Name c = n" "n \<notin> H" "launch w n dir c m = (r, m')"
    and "\<forall>i < length (pm_heap m). pj_name (pm_heap m ! i) = n \<longrightarrow> \<not> pj_alive (pm_heap m ! i)"
  shows "pm_good m' \<and> pm_frame H m m'"
proof -
  consider "m' = m" | p where "pj_name p = n" "pj_alive p" "pj_status p = PRunning" "\<not> pj_waited p" "pj_restartCount p = 0"
      "m' = m\<lparr>pm_heap := pm_heap m @ [p], pm_projects := (pm_projects m)(n \<mapsto> length (pm_heap m))\<rparr>"
    using assms(2,4) by (auto simp: launch_def Let_def split: if_splits prod.splits option.splits intro: that(2) [of "new_project _ _ _"])
  then show ?thesis
  proof cases
    case (2 p)
    have "pm_good m'" using assms(1,5) 2 by (auto simp: pm_good_def Let_def nth_append less_Suc_eq)
    moreover have "pm_frame H m m'" using 2 assms(3) by (auto simp: pm_frame_def nth_append)
    ultimately show ?thesis by blast
  qed (use assms(1) in \<open>simp add: pm_frame_refl\<close>)
qed

lemma start_facts:
  shows "pm_good m \<Longrightarrow> StartProject k w held n m = (r, m') \<Longrightarrow> pm_good m' \<and> pm_frame held m m'"
    and "pm_good m \<Longrightarrow> start_deps k w held ds m = (ro, m') \<Longrightarrow> pm_good m' \<and> pm_frame held m m'"
proof (induction k w held n m and k w held ds m arbitrary: r m' and ro m' rule: StartProject_start_deps.induct)
  case (2 k w held n m)
  show ?case
  proof (cases "n \<in> held \<or> n \<in> pm_locked m \<or> isCircuitOpen m n")
    case True
    then show ?thesis using 2 by (auto simp: start_unfold pm_frame_refl split: if_splits)
  next
    case False
    define m1 where "m1 = stop_existing n m"
    have m1: "pm_good m1" "pm_frame held m m1"
      "\<forall>i < length (pm_heap m1). pj_name (pm_heap m1 ! i) = n \<longrightarrow> \<not> pj_alive (pm_heap m1 ! i)"
      using stop_existing_facts [OF 2(2), of n] False unfolding m1_def by auto
    show ?thesis
    proof (cases "load_config w n")
      case (Inl e)
      then show ?thesis using 2(3) False m1 by (simp add: start_unfold Let_def m1_def)
    next
      case (Inr q)
      obtain dir c where c: "load_config w n = Inr (dir, c)" using Inr by (cases q) auto
      obtain ro m2 where d: "start_deps k w (insert n held) (jc_DependsOn c) m1 = (ro, m2)" by force
      have IH: "pm_good m2 \<and> pm_frame (insert n held) m1 m2"
        using 2(1) [OF _ _ m1_def c refl] False m1(1) d by blast
      have dead: "\<forall>i < length (pm_heap m2). pj_name (pm_heap m2 ! i) = n \<longrightarrow> \<not> pj_alive (pm_heap m2 ! i)"
      proof (intro allI impI)
        fix i assume i: "i < length (pm_heap m2)" "pj_name (pm_heap m2 ! i) = n"
        then have l: "i < length (pm_heap m1)" using IH by (metis insertI1 linorder_not_less pm_frame_def)
        then have "pj_name (pm_heap m1 ! i) = n" using IH i(2) unfolding pm_frame_def by metis
        moreover from this have "pm_heap m2 ! i = pm_heap m1 ! i" using IH l unfolding pm_frame_def by blast
        ultimately show "\<not> pj_alive (pm_heap m2 ! i)" using m1(3) l by metis
      qed
      have fr: "pm_frame held m m2" using pm_frame_trans [OF m1(2) pm_frame_mono] IH by blast
      show ?thesis
      proof (cases ro)
        case (Some r')
        then show ?thesis using 2(3) False c d IH fr by (simp add: start_unfold Let_def m1_def)
      next
        case None
        then have "launch w n dir c m2 = (r, m')" using 2(3) False c d by (simp add: start_unfold Let_def m1_def)
        from launch_facts [OF conjunct1 [OF IH] load_config_name [OF c] _ this dead, of held]
        show ?thesis using False fr pm_frame_trans by blast
      qed
    qed
  qed
next
  case (4 k w held d ds m)
  show ?case
  proof (cases "dep_running m d")
    case True
    then show ?thesis using 4 by simp
  next
    case False
    obtain r1 m1 where s: "StartProject k w held d m = (r1, m1)" by force
    have IH: "pm_good m1 \<and> pm_frame held m m1" using 4(2) [OF False 4(4) s] .
    show ?thesis
    proof (cases r1)
      case (Started i)
      then have "start_deps k w held ds m1 = (ro, m')" using 4(5) False s by simp
      then show ?thesis using 4(3) [OF False s [symmetric] Started conjunct1 [OF IH]] IH pm_frame_trans by blast
    qed (use 4(5) False s IH in auto)
  qed
qed (simp_all add: pm_frame_refl)

lemma pm_good_keep [simp]: "pm_good (keep_locks r m) = pm_good m" "pm_heap (keep_locks r m) = pm_heap m"
    "pm_backoff (keep_locks r m) = pm_backoff m" "pm_clock (keep_locks r m) = pm_clock m" "pm_crashes (keep_locks r m) = pm_crashes m"
    "pm_projects (keep_locks r m) = pm_projects m"
  by (auto simp: keep_locks_def pm_good_def split: start_result.splits)

lemma recordCrash_frame [simp]: "pm_heap (recordCrash n m) = pm_heap m" "pm_backoff (recordCrash n m) = pm_backoff m"
    "pm_clock (recordCrash n m) = pm_clock m" "pm_projects (recordCrash n m) = pm_projects m"
  by (simp_all add: recordCrash_def)

text \<open>What a watcher's first step amounts to.\<close>

lemma watch_facts:
  assumes "m' = watchProcess i code early m" and "pj_restartCount (pm_heap m ! i) = 0" and "i < length (pm_heap m)"
  defines "p \<equiv> pm_heap m ! i" and "p' \<equiv> pm_heap m' ! i"
  shows "pj_config p' = pj_config p \<and> pj_waited p' \<and> pj_alive p' = pj_alive p \<and> pm_heap m' = (pm_heap m)[i := p']
      \<and> pm_projects m' = pm_projects m \<and> pm_clock m' = pm_clock m"
    and "pm_crashes m' = (pm_crashes m)(pj_name p := recent (pm_clock m) (pm_crashes m (pj_name p) @ [pm_clock m]))"
    and "pm_backoff m' = pm_backoff m
      \<or> pm_backoff m' = pm_backoff m @ [(i, pm_clock m + Sec)] \<and> length (recent (pm_clock m) (pm_crashes m' (pj_name p))) < maxCrashesInWindow"
proof -
  have two: "(2 :: int) ^ nat (min 0 4) = 1" by simp
  show "pj_config p' = pj_config p \<and> pj_waited p' \<and> pj_alive p' = pj_alive p \<and> pm_heap m' = (pm_heap m)[i := p']
      \<and> pm_projects m' = pm_projects m \<and> pm_clock m' = pm_clock m"
    unfolding p_def p'_def assms(1) using assms(3) by (simp add: watchProcess_def Let_def)
  show c: "pm_crashes m' = (pm_crashes m)(pj_name p := recent (pm_clock m) (pm_crashes m (pj_name p) @ [pm_clock m]))"
    unfolding p_def assms(1) by (simp add: watchProcess_def Let_def recordCrash_def)
  show "pm_backoff m' = pm_backoff m
      \<or> pm_backoff m' = pm_backoff m @ [(i, pm_clock m + Sec)] \<and> length (recent (pm_clock m) (pm_crashes m' (pj_name p))) < maxCrashesInWindow"
    unfolding c unfolding p_def assms(1) using two
    by (simp add: watchProcess_def assms(2) Let_def isCircuitOpen_def) (simp add: recordCrash_def not_le)
qed

lemma watch_restart_zero: "pm_good m \<Longrightarrow> i < length (pm_heap m) \<Longrightarrow> \<not> pj_waited (pm_heap m ! i) \<Longrightarrow> pj_restartCount (pm_heap m ! i) = 0"
  by (simp add: pm_good_def Let_def)

lemma resume_facts:
  assumes "pm_good m" "it \<in> set (pm_backoff m)" "watch_resume k w it m = (r, m')"
  shows "pm_good m' \<and> pm_crashes m' = pm_crashes m \<and> pm_clock m \<le> pm_clock m' \<and> set (pm_backoff m') \<subseteq> set (pm_backoff m)"
proof -
  define m0 where "m0 = m\<lparr>pm_backoff := remove1 it (pm_backoff m)\<rparr>"
  have g0: "pm_good m0" using assms(1) using set_remove1_subset [of it "pm_backoff m"] by (fastforce simp: m0_def pm_good_def)
  obtain m1 where s: "StartProject k w {} (pj_name (pm_heap m0 ! fst it)) m0 = (r, m1)"
    using assms(3) by (auto simp: watch_resume_def m0_def Let_def split: prod.splits)
  note f = start_facts(1) [OF g0 s]
  have w: "fst it < length (pm_heap m)" "pj_waited (pm_heap m ! fst it)" using assms(1,2) by (auto simp: pm_good_def)
  have i: "fst it < length (pm_heap m1)" using w f by (auto simp: pm_frame_def m0_def)
  have m': "m' = (case r of StartError e \<Rightarrow> upd_project (fst it) (\<lambda>p. p\<lparr>pj_status := PFailed, pj_lastError := ''auto-restart failed: '' @ e\<rparr>) m1
      | _ \<Rightarrow> keep_locks r m1)"
    using assms(3) s by (simp add: watch_resume_def m0_def Let_def)
  have b: "set (pm_backoff m1) \<subseteq> set (pm_backoff m)" using f set_remove1_subset [of it "pm_backoff m"] by (auto simp: pm_frame_def m0_def)
  show ?thesis
  proof (cases r)
    case (StartError e)
    have "pj_waited (pm_heap m1 ! fst it)" using w f by (auto simp: pm_frame_def m0_def)
    then have dead: "\<not> pj_alive (pm_heap m1 ! fst it)" using f i by (auto simp: pm_good_def Let_def)
    have "pm_good m'"
      using f i dead unfolding m' StartError
      by (auto simp: upd_project_def pm_good_def Let_def nth_list_update)
    then show ?thesis using f b unfolding m' StartError by (auto simp: upd_project_def pm_frame_def m0_def)
  qed (use m' f b in \<open>auto simp: pm_frame_def m0_def\<close>)
qed

lemma exits_good: "pm_good m \<Longrightarrow> i < length (pm_heap m) \<Longrightarrow> pm_good (upd_project i (\<lambda>p. p\<lparr>pj_alive := False\<rparr>) m)"
  by (auto simp: upd_project_def pm_good_def Let_def nth_list_update)

lemma StopProject_good: "pm_good m \<Longrightarrow> StopProject n m = (r, m') \<Longrightarrow> pm_good m' \<and> pm_crashes m' = pm_crashes m
    \<and> pm_clock m \<le> pm_clock m' \<and> pm_backoff m' = pm_backoff m"
proof -
  assume g: "pm_good m" "StopProject n m = (r, m')"
  then have "m' = m \<or> (\<exists>i. pm_projects m n = Some i \<and> m' = stopProject i m)"
    by (auto simp: StopProject_def split: if_splits option.splits)
  moreover have "i < length (pm_heap m)" if "pm_projects m n = Some i" for i using g(1) that by (simp add: pm_good_def)
  ultimately show ?thesis using g(1) pm_good_stop by (auto simp: stopProject_def upd_project_def)
qed

lemma watch_good:
  assumes "pm_good m" "i < length (pm_heap m)" "\<not> pj_alive (pm_heap m ! i)" "\<not> pj_waited (pm_heap m ! i)"
    "m' = watchProcess i code early m"
  shows "pm_good m'"
proof -
  note z = watch_restart_zero [OF assms(1,2,4)]
  note f = watch_facts [OF assms(5) z assms(2)]
  define p where "p = pm_heap m' ! i"
  have p: "pj_config p = pj_config (pm_heap m ! i)" "pj_waited p" "\<not> pj_alive p" "pm_heap m' = (pm_heap m)[i := p]"
    "pm_projects m' = pm_projects m" using f(1) assms(3) by (auto simp: p_def)
  have b: "a < length (pm_heap m) \<and> pj_waited ((pm_heap m)[i := p] ! a)" if "(a, t) \<in> set (pm_backoff m')" for a t
  proof -
    have "a = i \<or> (a, t) \<in> set (pm_backoff m)" using f(3) that by auto
    then show ?thesis using assms(1,2) p(2) by (auto simp: pm_good_def nth_list_update)
  qed
  show ?thesis
    using assms(1) assms(2) p(1-3) b unfolding pm_good_def p(4,5)
    by (auto simp: Let_def nth_list_update)
qed

text \<open>What a step does to the clock, the record of crashes and the watchers' pauses.\<close>

lemma step_facts:
  assumes "pm_step w m e m'" and "pm_good m"
  shows "pm_good m' \<and> pm_clock m \<le> pm_clock m'
    \<and> (e = [] \<and> set (pm_backoff m') \<subseteq> set (pm_backoff m)
        \<and> (pm_crashes m' = pm_crashes m \<or> (\<exists>n. pm_clock m' = pm_clock m
              \<and> pm_crashes m' = (pm_crashes m)(n := recent (pm_clock m) (pm_crashes m n @ [pm_clock m]))))
      \<or> (\<exists>i n. e = [(n, pm_clock m)] \<and> pm_clock m' = pm_clock m \<and> pm_backoff m' = pm_backoff m @ [(i, pm_clock m + Sec)]
          \<and> pm_crashes m' = (pm_crashes m)(n := recent (pm_clock m) (pm_crashes m n @ [pm_clock m]))
          \<and> length (recent (pm_clock m) (pm_crashes m' n)) < maxCrashesInWindow))"
  using assms(1)
proof (cases rule: pm_step.cases)
  case (tick d)
  then show ?thesis using assms(2) by (auto simp: pm_good_def)
next
  case (start k n r m1)
  then show ?thesis using start_facts(1) [OF assms(2) start(3)] by (auto simp: pm_frame_def)
next
  case (stop n r)
  then show ?thesis using StopProject_good [OF assms(2) stop(2)] by auto
next
  case (exits i)
  then show ?thesis using exits_good [OF assms(2) exits(3)] by (auto simp: upd_project_def)
next
  case (watch i code early)
  note z = watch_restart_zero [OF assms(2) watch(2,4)]
  note f = watch_facts [OF watch(5) z watch(2)]
  have "pm_good m'" by (rule watch_good [OF assms(2) watch(2-5)])
  then show ?thesis using f watch(1) by (elim disjE) auto
next
  case (wake it k r)
  then show ?thesis using resume_facts [OF assms(2) wake(2,4)] by auto
qed

lemma run_good: "pm_run w now h m \<Longrightarrow> pm_good m"
proof (induction rule: pm_run.induct)
  case fresh
  then show ?case by (simp add: pm_good_def NewProjectManager_def)
qed (use step_facts in blast)

text \<open>C29: Whatever requests, crashes and restarts come together, a project never has two processes at a time, and the one it
  has is the one the table knows, so that a stop reaches it.\<close>

theorem one_process:
  assumes "pm_run w now h m" and "i < length (pm_heap m)" and "pj_alive (pm_heap m ! i)"
  shows "pm_projects m (pj_name (pm_heap m ! i)) = Some i \<and> pj_status (pm_heap m ! i) = PRunning
    \<and> {j. j < length (pm_heap m) \<and> pj_alive (pm_heap m ! j) \<and> pj_name (pm_heap m ! j) = pj_name (pm_heap m ! i)} = {i}"
proof -
  have live: "pj_status (pm_heap m ! j) = PRunning" "pm_projects m (pj_name (pm_heap m ! j)) = Some j"
    if "j < length (pm_heap m)" "pj_alive (pm_heap m ! j)" for j
    using run_good [OF assms(1)] that by (auto simp: pm_good_def Let_def)
  then have "j = i" if "j < length (pm_heap m)" "pj_alive (pm_heap m ! j)" "pj_name (pm_heap m ! j) = pj_name (pm_heap m ! i)" for j
    using that assms(2,3) by (metis option.inject)
  then show ?thesis using live assms(2,3) by blast
qed

text \<open>A project that has been started, and the same after its crash.\<close>

definition demo_started :: manager where
  "demo_started = snd (StartProject 1 (demo_world []) {} ''app'' (NewProjectManager 0))"

definition demo_crashed :: manager where
  "demo_crashed = upd_project 0 (\<lambda>p. p\<lparr>pj_alive := False\<rparr>) demo_started"

lemma demo_started_simps [simp]: "pm_heap demo_started = [new_project ((demo_config [])\<lparr>jc_Name := ''app''\<rparr>) 0 0]"
    "pm_projects demo_started ''app'' = Some 0" "pm_backoff demo_started = []" "pm_crashes demo_started n = []" "pm_clock demo_started = 0"
    "pm_locked demo_started = {}"
  by (simp_all add: demo_started_def demo_start_alone [of _ _ 0, simplified])

lemma demo_started_run: "pm_run (demo_world []) 0 [] demo_started"
proof -
  have "StartProject 1 (demo_world []) {} ''app'' (NewProjectManager 0) = (Started 0, demo_started)"
    by (simp add: demo_started_def demo_start_alone [of _ _ 0, simplified])
  from pm_step.start [OF this] have "pm_step (demo_world []) (NewProjectManager 0) [] demo_started" by (simp add: keep_locks_def)
  from pm_run.onward [OF pm_run.fresh this] show ?thesis by simp
qed

lemma demo_crashed_simps [simp]: "pm_heap demo_crashed = [(new_project ((demo_config [])\<lparr>jc_Name := ''app''\<rparr>) 0 0)\<lparr>pj_alive := False\<rparr>]"
    "pm_projects demo_crashed ''app'' = Some 0" "pm_backoff demo_crashed = []" "pm_crashes demo_crashed n = []" "pm_clock demo_crashed = 0"
    "pm_locked demo_crashed = {}"
  by (simp_all add: demo_crashed_def upd_project_def)

lemma demo_crashed_run: "pm_run (demo_world []) 0 [] demo_crashed"
proof -
  have "pm_step (demo_world []) demo_started [] demo_crashed" unfolding demo_crashed_def by (rule pm_step.exits) simp_all
  from pm_run.onward [OF demo_started_run this] show ?thesis by simp
qed

lemma demo_watched: "pm_backoff (watchProcess 0 1 False demo_crashed) = [(0, Sec)]"
    "pm_step (demo_world []) demo_crashed [(''app'', 0)] (watchProcess 0 1 False demo_crashed)"
proof -
  show b: "pm_backoff (watchProcess 0 1 False demo_crashed) = [(0, Sec)]"
    by (simp add: watchProcess_def Let_def recordCrash_def isCircuitOpen_def recent_def crashWindowSeconds_def maxCrashesInWindow_def)
  show "pm_step (demo_world []) demo_crashed [(''app'', 0)] (watchProcess 0 1 False demo_crashed)"
    using pm_step.watch [of 0 demo_crashed "watchProcess 0 1 False demo_crashed" 1 False "demo_world []"] b by simp
qed

theorem one_process_witness:
  "pm_projects demo_started ''app'' = Some 0 \<and> pj_status (pm_heap demo_started ! 0) = PRunning
    \<and> {j. j < length (pm_heap demo_started) \<and> pj_alive (pm_heap demo_started ! j) \<and> pj_name (pm_heap demo_started ! j) = ''app''} = {0}"
  using one_process [OF demo_started_run, of 0] by simp

section \<open>How often a crashing project is restarted\<close>

definition restarts_of :: "string \<Rightarrow> (string \<times> int) list \<Rightarrow> int list" where
  "restarts_of n h = map snd (filter (\<lambda>(n', t). n' = n) h)"

lemma restarts_of_append [simp]: "restarts_of n (h @ e) = restarts_of n h @ restarts_of n e" "restarts_of n [] = []"
    "restarts_of n [(n', t)] = (if n' = n then [t] else [])"
  by (simp_all add: restarts_of_def)

lemma recent_recent: "now \<le> now' \<Longrightarrow> recent now' (recent now ts) = recent now' ts"
  by (auto simp: recent_def intro!: filter_cong)

lemma recent_Nil [simp]: "recent now [] = []"
  by (simp add: recent_def)

lemma recent_append [simp]: "recent now (xs @ ys) = recent now xs @ recent now ys"
  by (simp add: recent_def)

text \<open>Behind every restart stands a recorded crash; in any window of a minute there are at most four.\<close>

definition restarts_good :: "(string \<times> int) list \<Rightarrow> manager \<Rightarrow> bool" where
  "restarts_good h m \<longleftrightarrow>
     (\<forall>n now. pm_clock m \<le> now \<longrightarrow> length (recent now (restarts_of n h)) \<le> length (recent now (pm_crashes m n)))
     \<and> (\<forall>n. \<forall>t \<in> set (restarts_of n h). t \<le> pm_clock m)
     \<and> (\<forall>n s. length (filter (\<lambda>t. s < t \<and> t \<le> s + crashWindowSeconds * Sec) (restarts_of n h)) < maxCrashesInWindow)"

lemma restarts_good_same:
  assumes "restarts_good h m" "pm_clock m \<le> pm_clock m'" "pm_crashes m' = pm_crashes m"
  shows "restarts_good h m'"
  using assms unfolding restarts_good_def by (auto intro: order.trans) (meson order.trans)

lemma restarts_good_crash:
  assumes "restarts_good h m" "pm_clock m' = pm_clock m"
    and "pm_crashes m' = (pm_crashes m)(n := recent (pm_clock m) (pm_crashes m n @ [pm_clock m]))"
  shows "restarts_good h m'"
  using assms unfolding restarts_good_def by (auto simp: recent_recent intro: le_SucI trans_le_add1)

lemma filter_length_mono: "(\<And>x. x \<in> set xs \<Longrightarrow> P x \<Longrightarrow> Q x) \<Longrightarrow> length (filter P xs) \<le> length (filter Q xs)"
  by (induction xs) auto

lemma restarts_good_restart:
  assumes g: "restarts_good h m" and clock: "pm_clock m' = pm_clock m"
    and crashes: "pm_crashes m' = (pm_crashes m)(n := recent (pm_clock m) (pm_crashes m n @ [pm_clock m]))"
    and few: "length (recent (pm_clock m) (pm_crashes m' n)) < maxCrashesInWindow"
  shows "restarts_good (h @ [(n, pm_clock m)]) m'"
proof -
  have a: "length (recent now (restarts_of n' h)) \<le> length (recent now (pm_crashes m n'))" if "pm_clock m \<le> now" for n' now
    using g that by (simp add: restarts_good_def)
  have old: "t \<le> pm_clock m" if "t \<in> set (restarts_of n' h)" for n' t using g that by (auto simp: restarts_good_def)
  have one: "length (recent now (restarts_of n' (h @ [(n, pm_clock m)]))) \<le> length (recent now (pm_crashes m' n'))"
    if "pm_clock m \<le> now" for n' now
    using a [OF that, of n'] by (auto simp: crashes recent_recent [OF that])
  have three: "length (filter (\<lambda>t. s < t \<and> t \<le> s + crashWindowSeconds * Sec) (restarts_of n' (h @ [(n, pm_clock m)]))) < maxCrashesInWindow"
    for n' s
  proof (cases "n' = n \<and> s < pm_clock m \<and> pm_clock m \<le> s + crashWindowSeconds * Sec")
    case True
    then have s: "n' = n" "pm_clock m - crashWindowSeconds * Sec \<le> s" by auto
    have "length (filter (\<lambda>t. s < t \<and> t \<le> s + crashWindowSeconds * Sec) (restarts_of n (h @ [(n, pm_clock m)])))
        \<le> length (recent (pm_clock m) (restarts_of n (h @ [(n, pm_clock m)])))"
      unfolding recent_def by (rule filter_length_mono) (use s(2) in auto)
    also have "\<dots> \<le> length (recent (pm_clock m) (pm_crashes m' n))" using one [of "pm_clock m" n] by simp
    finally show ?thesis using few s(1) by simp
  next
    case False
    then have "filter (\<lambda>t. s < t \<and> t \<le> s + crashWindowSeconds * Sec) (restarts_of n' (h @ [(n, pm_clock m)]))
        = filter (\<lambda>t. s < t \<and> t \<le> s + crashWindowSeconds * Sec) (restarts_of n' h)" by auto
    then show ?thesis using g by (simp add: restarts_good_def)
  qed
  show ?thesis unfolding restarts_good_def clock using one three old by auto
qed

lemma run_restarts: "pm_run w now h m \<Longrightarrow> restarts_good h m"
proof (induction rule: pm_run.induct)
  case fresh
  then show ?case by (simp add: restarts_good_def recent_def NewProjectManager_def maxCrashesInWindow_def)
next
  case (onward now h m e m')
  note f = step_facts [OF onward(2) run_good [OF onward(1)]]
  show ?case
  proof (cases "e = []")
    case True
    then show ?thesis
      using f restarts_good_same [OF onward(3)] restarts_good_crash [OF onward(3)] by auto
  next
    case False
    then obtain n where n: "e = [(n, pm_clock m)]" "pm_clock m' = pm_clock m"
      "pm_crashes m' = (pm_crashes m)(n := recent (pm_clock m) (pm_crashes m n @ [pm_clock m]))"
      "length (recent (pm_clock m) (pm_crashes m' n)) < maxCrashesInWindow" using f by blast
    show ?thesis unfolding n(1) by (rule restarts_good_restart [OF onward(3) n(2,3,4)])
  qed
qed

text \<open>C30: However a project crashes, in any minute it is restarted by itself at most four times. And the pause before a restart is
  always one second: the count that should double it starts from zero with every start, so that it never backs off.\<close>

theorem restarts_bounded_without_backoff:
  assumes "pm_run w now h m"
  shows "length (filter (\<lambda>t. s < t \<and> t \<le> s + 60 * Sec) (restarts_of n h)) \<le> 4
    \<and> (pm_step w m e m' \<longrightarrow> it \<in> set (pm_backoff m') \<longrightarrow> it \<in> set (pm_backoff m) \<or> snd it = pm_clock m + Sec)
    \<and> (i < length (pm_heap m) \<longrightarrow> pj_alive (pm_heap m ! i) \<longrightarrow> pj_restartCount (pm_heap m ! i) = 0)"
proof (intro conjI impI)
  show "length (filter (\<lambda>t. s < t \<and> t \<le> s + 60 * Sec) (restarts_of n h)) \<le> 4"
    using run_restarts [OF assms] by (auto simp: restarts_good_def crashWindowSeconds_def maxCrashesInWindow_def less_Suc_eq_le numeral_eq_Suc)
  show "it \<in> set (pm_backoff m) \<or> snd it = pm_clock m + Sec" if "pm_step w m e m'" "it \<in> set (pm_backoff m')"
    using step_facts [OF that(1) run_good [OF assms]] that(2) by auto
  show "pj_restartCount (pm_heap m ! i) = 0" if "i < length (pm_heap m)" "pj_alive (pm_heap m ! i)"
    using run_good [OF assms] that by (auto simp: pm_good_def Let_def)
qed

theorem restarts_bounded_without_backoff_witness:
  "length (filter (\<lambda>t. -1 < t \<and> t \<le> -1 + 60 * Sec) (restarts_of ''app'' [])) \<le> 4
    \<and> ((0, Sec) \<in> set (pm_backoff demo_crashed) \<or> snd (0 :: nat, Sec) = pm_clock demo_crashed + Sec)
    \<and> pj_restartCount (pm_heap demo_started ! 0) = 0"
  using restarts_bounded_without_backoff [OF demo_crashed_run, where it = "(0, Sec)" and n = "''app''" and s = "-1"
      and m' = "watchProcess 0 1 False demo_crashed" and e = "[(''app'', 0)]"]
    restarts_bounded_without_backoff [OF demo_started_run, where i = 0] demo_watched
  by simp

end
