(* ===== verification/Rt_Stopping.thy ===== *)
theory Rt_Stopping
  imports Rt_Supervision
begin

text \<open>
  Where the supervisor of projects breaks its word: a stop that comes while a crashed project pauses before its restart, a
  project that depends on itself, stops that count as crashes. Each is a theorem about the functions of \<open>Rt_Projects\<close>.
\<close>

section \<open>A project that starts\<close>

definition startable :: "project_world \<Rightarrow> string \<Rightarrow> bool" where
  "startable w n \<longleftrightarrow> (case load_config w n of Inl e \<Rightarrow> False
     | Inr (dir, c) \<Rightarrow> jc_StartCommand c \<noteq> [] \<and> jc_DependsOn c = [] \<and> jc_AutoRestart c) \<and> (\<forall>dir argv env. pw_spawn w dir argv env = None)"

lemma startableE:
  assumes "startable w n"
  obtains dir c where "load_config w n = Inr (dir, c)" "jc_StartCommand c \<noteq> []" "jc_DependsOn c = []" "jc_AutoRestart c" "jc_Name c = n"
  using assms load_config_name [of w n] by (auto simp: startable_def split: sum.splits)

lemma start_startable:
  assumes "startable w n" "n \<notin> held" "n \<notin> pm_locked m" "\<not> isCircuitOpen m n"
  shows "\<exists>c internal. jc_Name c = n \<and> jc_AutoRestart c \<and> StartProject (Suc k) w held n m
    = (Started (length (pm_heap (stop_existing n m))), (stop_existing n m)\<lparr>pm_heap := pm_heap (stop_existing n m)
        @ [new_project c (pm_clock (stop_existing n m)) internal],
       pm_projects := (pm_projects (stop_existing n m))(n \<mapsto> length (pm_heap (stop_existing n m)))\<rparr>)"
proof -
  obtain dir c where c: "load_config w n = Inr (dir, c)" "jc_StartCommand c \<noteq> []" "jc_DependsOn c = []" "jc_AutoRestart c" "jc_Name c = n"
    using startableE [OF assms(1)] .
  have spawn: "pw_spawn w d a e = None" for d a e using assms(1) by (simp add: startable_def)
  obtain argv env internal where wr: "pw_wrap w (jc_StartCommand c) (project_environment w dir c) = (argv, env, internal)"
    by (metis prod_cases3)
  show ?thesis
    using assms(2-4) c spawn wr by (auto simp: start_unfold Let_def launch_def)
qed

section \<open>Stop does not mean stop\<close>

lemma stop_existing_noop: "pm_projects m n = Some i \<Longrightarrow> pj_status (pm_heap m ! i) \<noteq> PRunning \<Longrightarrow> stop_existing n m = m"
  by (simp add: stop_existing_def)

lemma isCircuitOpen_later: "\<not> isCircuitOpen m n \<Longrightarrow> pm_crashes m' = pm_crashes m \<Longrightarrow> pm_clock m \<le> pm_clock m' \<Longrightarrow> \<not> isCircuitOpen m' n"
proof -
  assume a: "\<not> isCircuitOpen m n" "pm_crashes m' = pm_crashes m" "pm_clock m \<le> pm_clock m'"
  have "length (recent (pm_clock m') (pm_crashes m n)) \<le> length (recent (pm_clock m) (pm_crashes m n))"
    unfolding recent_def by (rule filter_length_mono) (use a(3) in auto)
  then show ?thesis using a(1,2) by (simp add: isCircuitOpen_def)
qed

text \<open>C32: A stop that reaches a project while its watcher pauses before a restart is answered as done and is undone: once
  the pause is over the watcher starts the project again, though nobody asked for it and the object says that it was stopped by hand.\<close>

theorem stop_undone_by_restart:
  assumes run: "pm_run w now h m" and pause: "(i, t) \<in> set (pm_backoff m)" and n: "n = pj_name (pm_heap m ! i)"
    and known: "pm_projects m n = Some i" and free: "n \<notin> pm_locked m" and closed: "\<not> isCircuitOpen m n" and ok: "startable w n"
  shows "\<exists>m1 m2 m3 j. StopProject n m = (Started i, m1) \<and> pj_manuallyStopped (pm_heap m1 ! i) \<and> pj_status (pm_heap m1 ! i) = PStopped
    \<and> pm_step w m [] m1 \<and> pm_step w m1 [] m2 \<and> pm_step w m2 [] m3
    \<and> pm_projects m3 n = Some j \<and> pj_alive (pm_heap m3 ! j) \<and> pj_status (pm_heap m3 ! j) = PRunning"
proof -
  have good: "pm_good m" by (rule run_good [OF run])
  have i: "i < length (pm_heap m)" using good known by (simp add: pm_good_def)
  define m1 where "m1 = stopProject i m"
  define m2 where "m2 = m1\<lparr>pm_clock := pm_clock m1 + max 0 (t - pm_clock m1)\<rparr>"
  have stop: "StopProject n m = (Started i, m1)" using known free by (simp add: StopProject_def m1_def)
  have o1: "pm_heap m1 ! i = (pm_heap m ! i)\<lparr>pj_manuallyStopped := True, pj_alive := False, pj_status := PStopped\<rparr>"
    "pm_projects m1 = pm_projects m" "pm_backoff m1 = pm_backoff m" "pm_crashes m1 = pm_crashes m" "pm_locked m1 = pm_locked m"
    "pm_clock m \<le> pm_clock m1"
    using i by (simp_all add: m1_def stopProject_def upd_project_def)
  define m2' where "m2' = m2\<lparr>pm_backoff := remove1 (i, t) (pm_backoff m2)\<rparr>"
  have o2: "pm_heap m2' = pm_heap m1" "pm_projects m2' = pm_projects m" "pm_crashes m2' = pm_crashes m" "pm_locked m2' = pm_locked m"
    "pm_clock m \<le> pm_clock m2'"
    using o1 by (simp_all add: m2'_def m2_def)
  have quiet: "stop_existing n m2' = m2'" by (rule stop_existing_noop [of _ _ i]) (use known o1 o2 in simp_all)
  have closed2: "\<not> isCircuitOpen m2' n" using isCircuitOpen_later [OF closed o2(3,5)] .
  have free2: "n \<notin> pm_locked m2'" using free o2(4) by simp
  obtain c internal where c: "StartProject (Suc 0) w {} n m2' = (Started (length (pm_heap m2')), m2'\<lparr>pm_heap := pm_heap m2'
      @ [new_project c (pm_clock m2') internal], pm_projects := (pm_projects m2')(n \<mapsto> length (pm_heap m2'))\<rparr>)"
    using start_startable [OF ok _ free2 closed2, of "{}" 0] quiet by auto
  define m3 where "m3 = snd (StartProject (Suc 0) w {} n m2')"
  have name: "pj_name (pm_heap m2' ! i) = n" using o1 o2 n by simp
  have wake: "watch_resume (Suc 0) w (i, t) m2 = (Started (length (pm_heap m2')), m3)"
    unfolding watch_resume_def m2'_def [symmetric] Let_def fst_conv name m3_def c by (simp add: keep_locks_def)
  have s1: "pm_step w m [] m1" using pm_step.stop [OF stop] .
  have s2: "pm_step w m1 [] m2" unfolding m2_def by (rule pm_step.tick) simp
  have s3: "pm_step w m2 [] m3"
    by (rule pm_step.wake [OF _ _ wake]) (use pause o1(3) in \<open>simp_all add: m2_def\<close>)
  have "pm_projects m3 n = Some (length (pm_heap m2'))" "pj_alive (pm_heap m3 ! length (pm_heap m2'))"
    "pj_status (pm_heap m3 ! length (pm_heap m2')) = PRunning"
    unfolding m3_def c by simp_all
  then show ?thesis using stop o1(1) s1 s2 s3 by (intro exI [of _ m1] exI [of _ m2] exI [of _ m3] exI) auto
qed

lemma demo_startable: "startable (demo_world []) ''app''"
  by (simp add: startable_def demo_load) (simp add: demo_world_def)

theorem stop_undone_by_restart_witness:
  "\<exists>m1 m2 m3 j. StopProject ''app'' (watchProcess 0 1 False demo_crashed) = (Started 0, m1)
    \<and> pj_manuallyStopped (pm_heap m1 ! 0) \<and> pj_status (pm_heap m1 ! 0) = PStopped
    \<and> pm_step (demo_world []) (watchProcess 0 1 False demo_crashed) [] m1 \<and> pm_step (demo_world []) m1 [] m2 \<and> pm_step (demo_world []) m2 [] m3
    \<and> pm_projects m3 ''app'' = Some j \<and> pj_alive (pm_heap m3 ! j) \<and> pj_status (pm_heap m3 ! j) = PRunning"
proof -
  define m where "m = watchProcess 0 1 False demo_crashed"
  have run: "pm_run (demo_world []) 0 [(''app'', 0)] m"
    using pm_run.onward [OF demo_crashed_run demo_watched(2)] by (simp add: m_def)
  have o: "pm_heap m ! 0 = (new_project ((demo_config [])\<lparr>jc_Name := ''app''\<rparr>) 0 0)\<lparr>pj_alive := False, pj_waited := True, pj_status := PFailed,
      pj_lastError := ''exit code'', pj_restartCount := 1\<rparr>" "pm_projects m ''app'' = Some 0" "pm_locked m = {}" "\<not> isCircuitOpen m ''app''"
    by (simp_all add: m_def watchProcess_def Let_def recordCrash_def isCircuitOpen_def recent_def crashWindowSeconds_def maxCrashesInWindow_def)
  show ?thesis
    unfolding m_def [symmetric]
    by (rule stop_undone_by_restart [OF run, of 0 Sec "''app''"])
      (use o demo_startable demo_watched(1) in \<open>simp_all add: m_def\<close>)
qed

section \<open>A dependency on itself\<close>

lemma locked_grows: "pm_step w m e m' \<Longrightarrow> pm_locked m \<subseteq> pm_locked m'"
proof -
  have st: "pm_locked (snd (StartProject k w held n m)) = pm_locked m" and "pm_locked (snd (start_deps k w held ds m)) = pm_locked m"
    for k held n ds m
  proof (induction k w held n m and k w held ds m rule: StartProject_start_deps.induct)
    case (2 k w held n m)
    show ?case
    proof (cases "n \<in> held \<or> n \<in> pm_locked m \<or> isCircuitOpen m n \<or> (\<exists>e. load_config w n = Inl e)")
      case True
      then show ?thesis by (auto simp: start_unfold Let_def)
    next
      case False
      then obtain dir c where c: "load_config w n = Inr (dir, c)" by (cases "load_config w n") auto
      obtain ro m2 where d: "start_deps k w (insert n held) (jc_DependsOn c) (stop_existing n m) = (ro, m2)" by force
      have IH: "pm_locked m2 = pm_locked m" using 2 [OF _ _ refl c refl] False d by simp
      show ?thesis using False c d IH by (cases ro) (simp_all add: start_unfold Let_def)
    qed
  next
    case (4 k w held d ds m)
    obtain r m1 where r: "StartProject k w held d m = (r, m1)" by force
    then show ?case using 4 by (cases r) (auto split: if_splits)
  qed simp_all
  have kl: "pm_locked m \<subseteq> pm_locked (keep_locks r m)" for r m by (auto simp: keep_locks_def split: start_result.split)
  assume "pm_step w m e m'"
  then show ?thesis
  proof (cases rule: pm_step.cases)
    case (start k n r m1)
    then show ?thesis using st [of k "{}" n m] kl [of m1 r] by simp
  next
    case (stop n r)
    then show ?thesis by (auto simp: StopProject_def split: if_splits option.splits)
  next
    case (watch i code early)
    then show ?thesis by (simp add: watchProcess_def Let_def recordCrash_def)
  next
    case (wake it k r)
    define m0 where "m0 = m\<lparr>pm_backoff := remove1 it (pm_backoff m)\<rparr>"
    have l: "pm_locked (snd (StartProject k w {} (pj_name (pm_heap m0 ! fst it)) m0)) = pm_locked m" using st by (simp add: m0_def)
    show ?thesis
      using wake(4) l kl unfolding watch_resume_def m0_def [symmetric] Let_def by (auto split: prod.splits start_result.splits)
  qed (simp_all add: upd_project_def)
qed

text \<open>C31: A project whose manifest lists it as its own first dependency blocks the request that starts it for ever, after the running
  instance has been stopped; and whatever happens then, no later start or stop of the name is ever answered.\<close>

theorem self_dependency_blocks_for_good:
  assumes "pm_run w now h m" and "load_config w n = Inr (dir, c)" and "jc_DependsOn c = n # ds" and "pm_locked m = {}" and "\<not> isCircuitOpen m n"
  shows "\<exists>m1. StartProject (Suc (Suc k)) w {} n m = (Blocked {n}, m1)
    \<and> \<not> dep_running m1 n
    \<and> (\<forall>m2. (\<lambda>a b. \<exists>e. pm_step w a e b)\<^sup>*\<^sup>* (keep_locks (Blocked {n}) m1) m2 \<longrightarrow>
        fst (StopProject n m2) = Blocked {} \<and> fst (StartProject (Suc k) w {} n m2) = Blocked {})"
proof -
  define m1 where "m1 = stop_existing n m"
  have nr: "\<not> dep_running m1 n"
  proof (cases "pm_projects m n")
    case (Some i)
    then show ?thesis
    proof (cases "pj_status (pm_heap m ! i) = PRunning")
      case True
      then show ?thesis
        using Some run_good [OF assms(1)] by (auto simp: pm_good_def m1_def stop_existing_def dep_running_def stopProject_def upd_project_def)
    qed (simp add: m1_def stop_existing_def dep_running_def)
  qed (simp add: m1_def stop_existing_def dep_running_def)
  have inner: "StartProject (Suc k) w {n} n m1 = (Blocked {n}, m1)" by (simp add: start_unfold)
  have "start_deps (Suc k) w {n} (jc_DependsOn c) m1 = (Some (Blocked {n}), m1)" using assms(3) nr inner by simp
  then have s: "StartProject (Suc (Suc k)) w {} n m = (Blocked {n}, m1)"
    using assms by (simp add: start_unfold [of "Suc k"] Let_def m1_def)
  have stuck: "n \<in> pm_locked m2" if "(\<lambda>a b. \<exists>e. pm_step w a e b)\<^sup>*\<^sup>* (keep_locks (Blocked {n}) m1) m2" for m2
    using that
  proof (induction rule: rtranclp_induct)
    case base
    then show ?case by (simp add: keep_locks_def)
  next
    case (step y z)
    then show ?case using locked_grows by blast
  qed
  then show ?thesis using s nr by (auto simp: StopProject_def start_unfold)
qed

theorem self_dependency_blocks_for_good_witness:
  "\<exists>m1. StartProject (Suc (Suc 0)) (demo_world [''app'']) {} ''app'' (NewProjectManager 0) = (Blocked {''app''}, m1)
    \<and> \<not> dep_running m1 ''app''
    \<and> fst (StopProject ''app'' (keep_locks (Blocked {''app''}) m1)) = Blocked {}
    \<and> fst (StartProject (Suc 0) (demo_world [''app'']) {} ''app'' (keep_locks (Blocked {''app''}) m1)) = Blocked {}"
  using self_dependency_blocks_for_good [OF pm_run.fresh demo_load(1) [of "[''app'']"], of "[]" 0 0] by auto

end
