(* ===== verification/Auth_Config.thy ===== *)
theory Auth_Config
  imports Auth_Identity Shell_Session
begin

text \<open>
  How the auth proxy boots (\<open>cmd/authproxy/config.go\<close>, \<open>exec.go\<close>, the mail settings of \<open>mailer.go\<close> and the mode of \<open>main.go\<close>): the
  configuration read from the environment, and the process it starts behind itself. A process's environment is
  a list of \<open>K=V\<close> texts; SHA-256 and the message authentication code are parameters. Where Go quotes a
  value in an error's text, the value stands as it is.
\<close>

section \<open>Environments\<close>

text \<open>The key of an entry as \<open>os/exec\<close> sees it: an equals sign in front belongs to the key. Of the entries of one key the last
  survives when a process is started, and entries without a key are kept.\<close>

definition env_key :: "string \<Rightarrow> string option" where
  "env_key kv =
     (case index_byte kv (CHR ''='') of
        None \<Rightarrow> None
      | Some 0 \<Rightarrow> Some (case index_byte (drop 1 kv) (CHR ''='') of None \<Rightarrow> [] | Some i \<Rightarrow> take (Suc i) kv)
      | Some i \<Rightarrow> Some (take i kv))"

fun dedup_env :: "string list \<Rightarrow> string list" where
  "dedup_env [] = []"
| "dedup_env (kv # rest) =
     (case env_key kv of
        None \<Rightarrow> (if kv = [] then dedup_env rest else kv # dedup_env rest)
      | Some k \<Rightarrow> (if Some k \<in> set (map env_key rest) then dedup_env rest else kv # dedup_env rest))"

definition entry_of :: "string \<Rightarrow> string \<Rightarrow> bool" where
  "entry_of k kv \<longleftrightarrow> has_prefix kv (k @ ''='')"

definition getenv :: "string list \<Rightarrow> string \<Rightarrow> string" where
  "getenv env k = (case find (entry_of k) env of None \<Rightarrow> [] | Some kv \<Rightarrow> drop (Suc (length k)) kv)"

definition first_env :: "string list \<Rightarrow> string list \<Rightarrow> string" where
  "first_env env ks = (case find (\<lambda>v. v \<noteq> []) (map (getenv env) ks) of None \<Rightarrow> [] | Some v \<Rightarrow> v)"

definition truthy :: "string \<Rightarrow> bool" where
  "truthy v \<longleftrightarrow> to_lower v = ''true'' \<or> to_lower v = ''1'' \<or> to_lower v = ''yes''"

section \<open>The configuration\<close>

record email_config =
  ec_Host :: string
  ec_Port :: string
  ec_User :: string
  ec_Password :: string
  ec_From :: string

record auth_config =
  ac_Mode :: string
  ac_DBKind :: string
  ac_DBURL :: string
  ac_Secret :: string
  ac_IdentitySecret :: string
  ac_AppID :: string
  ac_AppSuffix :: string
  ac_Port :: string
  ac_Upstream :: string
  ac_Providers :: "string \<rightharpoonup> provider_config"
  ac_Debug :: bool
  ac_Email :: "email_config option"
  ac_RequireVerification :: bool

definition loadEmailConfig :: "string list \<Rightarrow> email_config option" where
  "loadEmailConfig env = (
     let host = trim_space (getenv env ''SMTP_HOST''); from' = trim_space (getenv env ''SMTP_FROM'');
         port = trim_space (getenv env ''SMTP_PORT'')
     in if host = [] \<or> from' = [] then None
        else Some \<lparr>ec_Host = host, ec_Port = (if port = [] then ''587'' else port), ec_User = trim_space (getenv env ''SMTP_USER''),
          ec_Password = getenv env ''SMTP_PASSWORD'', ec_From = from'\<rparr>)"

definition appIDFromEnv :: "string list \<Rightarrow> string" where
  "appIDFromEnv env = (case find (\<lambda>v. v \<noteq> []) (map (\<lambda>k. trim_space (getenv env k)) [''AGENTRY_APP_ID'', ''AGENTRY_APP_NAME'', ''SANDBOX_ID'']) of
     None \<Rightarrow> [] | Some v \<Rightarrow> v)"

definition appSuffix :: "(bytes \<Rightarrow> bytes) \<Rightarrow> string \<Rightarrow> string" where
  "appSuffix sha appID = take 16 (hex_encode (sha appID))"

definition deriveAppSecret :: "mac \<Rightarrow> string \<Rightarrow> string \<Rightarrow> string" where
  "deriveAppSecret mac root appID = hex_encode (mac root (''agentry-app-secret:'' @ appID))"

definition defaultPort :: "string list \<Rightarrow> string" where
  "defaultPort env = (let v = getenv env ''PORT'' in
     if v \<noteq> [] \<and> (case parse_int v of Some n \<Rightarrow> n > 0 \<and> n < 65536 | None \<Rightarrow> False) then v else ''3000'')"

definition auth_envOr :: "string list \<Rightarrow> string \<Rightarrow> string \<Rightarrow> string" where
  "auth_envOr env name fallback = (if getenv env name \<noteq> [] then getenv env name else fallback)"

definition dbURLFromEnv :: "string list \<Rightarrow> string" where
  "dbURLFromEnv env = first_env env [''DATABASE_URL'', ''POSTGRES_URL'', ''MYSQL_URL'', ''MONGODB_URI'', ''MONGO_URL'']"

definition upperEnvSafe :: "string \<Rightarrow> string" where
  "upperEnvSafe s = map (\<lambda>c. if c = CHR ''-'' \<or> c = CHR '' '' then CHR ''_''
     else if CHR ''a'' \<le> c \<and> c \<le> CHR ''z'' then char_of ((of_char c :: nat) - 32) else c) s"

definition readProviderEnv :: "string list \<Rightarrow> string \<Rightarrow> provider_config option" where
  "readProviderEnv env name = (
     let u = upperEnvSafe name; i = getenv env (u @ ''_CLIENT_ID''); sec = getenv env (u @ ''_CLIENT_SECRET'')
     in if i = [] \<or> sec = [] then None
        else Some \<lparr>pc_ClientID = i, pc_ClientSecret = sec, pc_Issuer = getenv env (u @ ''_ISSUER''),
          pc_Scopes = fields_of [] (getenv env (u @ ''_SCOPES''))\<rparr>)"

definition db_family :: "string \<Rightarrow> string option" where
  "db_family k = (if k = ''postgres'' \<or> k = ''mysql'' then Some k
     else if k = ''mongo'' \<or> k = ''mongodb'' then Some ''mongo'' else None)"

definition passthrough_config :: "string list \<Rightarrow> auth_config" where
  "passthrough_config env = \<lparr>ac_Mode = ''passthrough'', ac_DBKind = [], ac_DBURL = [], ac_Secret = [], ac_IdentitySecret = [], ac_AppID = [],
     ac_AppSuffix = [], ac_Port = defaultPort env, ac_Upstream = auth_envOr env ''AGENTRY_AUTHPROXY_UPSTREAM'' ''127.0.0.1:3001'',
     ac_Providers = Map.empty, ac_Debug = (getenv env ''AGENTRY_AUTH_DEBUG'' = ''1''), ac_Email = None, ac_RequireVerification = False\<rparr>"

definition configured_providers :: "string list \<Rightarrow> string \<rightharpoonup> provider_config" where
  "configured_providers env = (\<lambda>n. if n \<in> {''google'', ''github'', ''microsoft'', ''apple'', ''generic-oidc''} then readProviderEnv env n else None)"

definition app_id :: "string list \<Rightarrow> string" where
  "app_id env = (if appIDFromEnv env = [] then ''default'' else appIDFromEnv env)"

definition agentry_config :: "mac \<Rightarrow> (bytes \<Rightarrow> bytes) \<Rightarrow> string list \<Rightarrow> string \<Rightarrow> auth_config" where
  "agentry_config mac sha env kind = (passthrough_config env)\<lparr>ac_Mode := ''agentry'', ac_DBKind := kind, ac_DBURL := dbURLFromEnv env,
     ac_Secret := deriveAppSecret mac (getenv env ''AGENTRY_AUTH_SECRET'') (app_id env),
     ac_IdentitySecret := getenv env ''AGENTRY_AUTH_SECRET'', ac_AppID := app_id env, ac_AppSuffix := appSuffix sha (app_id env),
     ac_Providers := configured_providers env, ac_Email := loadEmailConfig env,
     ac_RequireVerification := (truthy (getenv env ''AGENTRY_AUTH_REQUIRE_VERIFICATION'') \<and> loadEmailConfig env \<noteq> None)\<rparr>"

definition loadConfig :: "mac \<Rightarrow> (bytes \<Rightarrow> bytes) \<Rightarrow> string list \<Rightarrow> string + auth_config" where
  "loadConfig mac sha env =
     (if \<not> truthy (getenv env ''AGENTRY_AUTH_ENABLED'') then Inr (passthrough_config env)
      else (case db_family (to_lower (getenv env ''AGENTRY_AUTH_DB'')) of
          None \<Rightarrow> Inl (if getenv env ''AGENTRY_AUTH_DB'' = [] then ''AGENTRY_AUTH_DB is empty'' else ''unknown AGENTRY_AUTH_DB'')
        | Some kind \<Rightarrow>
            if dbURLFromEnv env = [] then Inl ''no DB URL found in env''
            else if getenv env ''AGENTRY_AUTH_SECRET'' = [] then Inl ''AGENTRY_AUTH_SECRET is empty''
            else if length (getenv env ''AGENTRY_AUTH_SECRET'') < 32 then Inl ''AGENTRY_AUTH_SECRET is too short''
            else Inr (agentry_config mac sha env kind)))"

section \<open>The process behind the proxy\<close>

fun split_argv_loop :: "bool \<Rightarrow> string \<Rightarrow> string \<Rightarrow> string list" where
  "split_argv_loop q cur [] = (if cur = [] then [] else [rev cur])"
| "split_argv_loop q cur (c # s) =
     (if c = dquote then split_argv_loop (\<not> q) cur s
      else if c = CHR '' '' \<and> \<not> q then (if cur = [] then split_argv_loop q [] s else rev cur # split_argv_loop q [] s)
      else split_argv_loop q (c # cur) s)"

definition splitArgv :: "string \<Rightarrow> string list" where
  "splitArgv s = split_argv_loop False [] s"

definition execModeEnabled :: "string list \<Rightarrow> bool" where
  "execModeEnabled env \<longleftrightarrow> trim_space (getenv env ''AGENTRY_AUTHPROXY_EXEC'') \<noteq> []"

definition resolveUpstreamPort :: "string list \<Rightarrow> auth_config \<Rightarrow> string + string" where
  "resolveUpstreamPort env cfg = (
     let v = trim_space (getenv env ''AGENTRY_AUTHPROXY_UPSTREAM_PORT'') in
     if v \<noteq> [] then
       (if v = ac_Port cfg then Inl ''AGENTRY_AUTHPROXY_UPSTREAM_PORT collides with PORT''
        else (case parse_int v of None \<Rightarrow> Inl ''AGENTRY_AUTHPROXY_UPSTREAM_PORT is not a number'' | Some n \<Rightarrow> Inr v))
     else (case parse_int (ac_Port cfg) of
         None \<Rightarrow> Inl ''PORT is not a number''
       | Some p \<Rightarrow> if p + 1 > 65535 then Inl ''PORT leaves no room for upstream'' else Inr (format_int (p + 1))))"

definition childEnv :: "string list \<Rightarrow> string \<Rightarrow> string list" where
  "childEnv env upstreamPort =
     filter (\<lambda>kv. \<not> has_prefix kv ''PORT='' \<and> \<not> has_prefix kv ''AGENTRY_AUTHPROXY_EXEC='') env @ [''PORT='' @ upstreamPort]"

text \<open>\<open>startChild\<close> up to the call that makes the process: its arguments, its environment, the configuration with the new upstream.\<close>

definition startChild :: "string list \<Rightarrow> auth_config \<Rightarrow> string + (string list \<times> string list \<times> auth_config)" where
  "startChild env cfg = (
     let raw = trim_space (getenv env ''AGENTRY_AUTHPROXY_EXEC'') in
     if raw = [] then Inl ''AGENTRY_AUTHPROXY_EXEC is empty''
     else if splitArgv raw = [] then Inl ''AGENTRY_AUTHPROXY_EXEC parsed to zero args''
     else (case resolveUpstreamPort env cfg of
         Inl e \<Rightarrow> Inl e
       | Inr port \<Rightarrow> Inr (splitArgv raw, dedup_env (childEnv env port), cfg\<lparr>ac_Upstream := ''127.0.0.1:'' @ port\<rparr>)))"

text \<open>\<open>run\<close> and \<open>buildMux\<close>: what stands in front of the app, and what is started behind.\<close>

definition boot :: "mac \<Rightarrow> (bytes \<Rightarrow> bytes) \<Rightarrow> string list \<Rightarrow> string + (auth_config \<times> (string list \<times> string list) option)" where
  "boot mac sha env =
     (case loadConfig mac sha env of
        Inl e \<Rightarrow> Inl (''config: '' @ e)
      | Inr cfg \<Rightarrow>
          if execModeEnabled env then
            (case startChild env cfg of Inl e \<Rightarrow> Inl e | Inr (argv, cenv, cfg') \<Rightarrow> Inr (cfg', Some (argv, cenv)))
          else Inr (cfg, None))"

definition front :: "mac \<Rightarrow> int \<Rightarrow> auth_config \<Rightarrow> request \<Rightarrow> proxied_request" where
  "front mac now cfg r = (if ac_Mode cfg = ''passthrough'' then proxyHandler mac now True (ac_IdentitySecret cfg) [] r
     else proxyHandler mac now False (ac_IdentitySecret cfg) (ac_Secret cfg) r)"

end
