(* ===== verification/Rt_Wrap.thy ===== *)
theory Rt_Wrap
  imports Auth_Config Rt_Projects
begin

text \<open>
  The wrapping of an app in the auth proxy (\<open>pkg/handlers/project_authproxy.go\<close>, the same joining of arguments in
  \<open>pkg/provisioner/deploy_wrap.go\<close>), followed through the three processes: the supervisor that starts a project, the proxy that boots from
  the environment it is given, and the app behind it.
\<close>

definition authproxyBinary :: string where "authproxyBinary = ''/usr/local/bin/authproxy''"
definition authproxyDefaultUpstreamPort :: int where "authproxyDefaultUpstreamPort = 3001"

definition authEnabledInEnv :: "string list \<Rightarrow> bool" where
  "authEnabledInEnv env = (case find (entry_of ''AGENTRY_AUTH_ENABLED'') env of
     None \<Rightarrow> False | Some kv \<Rightarrow> truthy (trim_prefix kv ''AGENTRY_AUTH_ENABLED=''))"

definition exec_arg :: "string \<Rightarrow> string" where
  "exec_arg a = (let b = filter (\<lambda>c. c \<noteq> dquote) a in if CHR '' '' \<in> set b then dquote # b @ [dquote] else b)"

definition joinAuthproxyExec :: "string list \<Rightarrow> string" where
  "joinAuthproxyExec argv = join_str '' '' (map exec_arg argv)"

fun setEnvKey :: "string list \<Rightarrow> string \<Rightarrow> string \<Rightarrow> string list" where
  "setEnvKey [] k v = [k @ ''='' @ v]"
| "setEnvKey (kv # env) k v = (if entry_of k kv then (k @ ''='' @ v) # env else kv # setEnvKey env k v)"

definition filterInternalPort :: "int list \<Rightarrow> int \<Rightarrow> int list" where
  "filterInternalPort ports internal = (if internal = 0 \<or> ports = [] then ports else filter (\<lambda>p. p \<noteq> internal) ports)"

text \<open>\<open>present\<close>: the proxy's binary is there. The result is the argument vector, the environment and the port to hide.\<close>

definition maybeWrapAuthSidecar :: "bool \<Rightarrow> string list \<Rightarrow> string list \<Rightarrow> string list \<times> string list \<times> int" where
  "maybeWrapAuthSidecar present cmd env =
     (if \<not> authEnabledInEnv env \<or> \<not> present then (cmd, env, 0)
      else ([authproxyBinary], setEnvKey env ''AGENTRY_AUTHPROXY_EXEC'' (joinAuthproxyExec cmd), authproxyDefaultUpstreamPort))"

section \<open>Looking up in an environment\<close>

lemma index_byte_prefix: "CHR ''='' \<notin> set k \<Longrightarrow> index_byte (k @ CHR ''='' # v) (CHR ''='') = Some (length k)"
  by (rule index_byte_append)

lemma entry_of_key: "k \<noteq> [] \<Longrightarrow> CHR ''='' \<notin> set k \<Longrightarrow> entry_of k kv \<longleftrightarrow> env_key kv = Some k"
proof
  assume k: "k \<noteq> []" "CHR ''='' \<notin> set k" and "entry_of k kv"
  then obtain v where "kv = k @ CHR ''='' # v" by (auto simp: entry_of_def has_prefix_iff)
  then show "env_key kv = Some k"
    using index_byte_prefix [OF k(2), of v] k(1) by (auto simp: env_key_def split: nat.split)
next
  assume k: "k \<noteq> []" "CHR ''='' \<notin> set k" and e: "env_key kv = Some k"
  show "entry_of k kv"
  proof (cases "index_byte kv (CHR ''='')")
    case (Some i)
    note s = index_byte_Some [OF Some]
    show ?thesis
    proof (cases i)
      case 0
      then have "kv ! 0 = CHR ''=''" "kv \<noteq> []" using s by auto
      moreover have "\<exists>j. k = take (Suc j) kv" using e k(1) Some 0 by (auto simp: env_key_def split: option.splits)
      ultimately have "CHR ''='' \<in> set k" by (cases kv) auto
      then show ?thesis using k(2) by blast
    next
      case (Suc j)
      then have "k = take i kv" using e Some by (simp add: env_key_def)
      then have "kv = k @ CHR ''='' # drop (Suc i) kv" using s by (metis id_take_nth_drop)
      then show ?thesis by (simp add: entry_of_def has_prefix_iff) (metis)
    qed
  next
    case None
    have "env_key kv = None" unfolding env_key_def None by simp
    then show ?thesis using e by simp
  qed
qed

lemma dedup_entries:
  assumes "k \<noteq> []" "CHR ''='' \<notin> set k"
  shows "filter (entry_of k) (dedup_env env) = (case filter (entry_of k) env of [] \<Rightarrow> [] | xs \<Rightarrow> [last xs])"
proof (induction env)
  case (Cons kv rest)
  have mem: "Some k \<in> set (map env_key rest) \<longleftrightarrow> filter (entry_of k) rest \<noteq> []"
    using entry_of_key [OF assms] by (force simp: filter_empty_conv image_iff)
  show ?case
  proof (cases "env_key kv")
    case None
    then have "\<not> entry_of k kv" using entry_of_key [OF assms] by simp
    then show ?thesis using Cons None by simp
  next
    case (Some k')
    show ?thesis
    proof (cases "k' = k")
      case True
      then have "entry_of k kv" using entry_of_key [OF assms] Some by simp
      then show ?thesis using Cons Some True mem by (auto split: list.splits)
    next
      case False
      then have "\<not> entry_of k kv" using entry_of_key [OF assms] Some by simp
      then show ?thesis using Cons Some False by simp
    qed
  qed
qed simp

definition last_value :: "string list \<Rightarrow> string \<Rightarrow> string" where
  "last_value env k = (case filter (entry_of k) env of [] \<Rightarrow> [] | xs \<Rightarrow> drop (Suc (length k)) (last xs))"

lemma find_filter: "find P xs = (case filter P xs of [] \<Rightarrow> None | y # ys \<Rightarrow> Some y)"
  by (induction xs) auto

text \<open>A process sees the last value of a key.\<close>

lemma getenv_dedup: "k \<noteq> [] \<Longrightarrow> CHR ''='' \<notin> set k \<Longrightarrow> getenv (dedup_env env) k = last_value env k"
  by (auto simp: getenv_def last_value_def find_filter dedup_entries split: list.splits)

lemma entries_distinct: "entry_of k kv \<Longrightarrow> entry_of k' kv \<Longrightarrow> k \<noteq> [] \<Longrightarrow> k' \<noteq> [] \<Longrightarrow> CHR ''='' \<notin> set k \<Longrightarrow> CHR ''='' \<notin> set k' \<Longrightarrow> k = k'"
  using entry_of_key by fastforce

lemma entry_of_self [simp]: "entry_of k (k @ ''='' @ v)" "entry_of k (k @ CHR ''='' # v)"
  by (simp_all add: entry_of_def has_prefix_iff)

lemma last_value_append: "filter (entry_of k) ys = [] \<Longrightarrow> last_value (xs @ [k @ ''='' @ v] @ ys) k = v"
  by (cases "filter (entry_of k) xs") (simp_all add: last_value_def)

section \<open>Arguments through one text\<close>

lemma split_quoted:
  "dquote \<notin> set b \<Longrightarrow> split_argv_loop True cur (b @ s) = split_argv_loop True (rev b @ cur) s"
  by (induction b arbitrary: cur) auto

lemma split_plain:
  "dquote \<notin> set b \<Longrightarrow> CHR '' '' \<notin> set b \<Longrightarrow> split_argv_loop False cur (b @ s) = split_argv_loop False (rev b @ cur) s"
  by (induction b arbitrary: cur) auto

lemma split_exec_arg: "split_argv_loop False [] (exec_arg a @ s) = split_argv_loop False (rev (filter (\<lambda>c. c \<noteq> dquote) a)) s"
  using split_quoted [of "filter (\<lambda>c. c \<noteq> dquote) a" "[]" "dquote # s"] split_plain [of "filter (\<lambda>c. c \<noteq> dquote) a" "[]" s]
  by (simp add: exec_arg_def Let_def)

lemma dquote_space: "CHR '' '' \<noteq> dquote"
  by (simp add: dquote_def)

text \<open>What the proxy reads back: the arguments without their double quotes, less the empty ones.\<close>

lemma splitArgv_join: "splitArgv (joinAuthproxyExec argv) = filter (\<lambda>a. a \<noteq> []) (map (filter (\<lambda>c. c \<noteq> dquote)) argv)"
proof -
  have "split_argv_loop False [] (join_str '' '' (map exec_arg argv)) = filter (\<lambda>a. a \<noteq> []) (map (filter (\<lambda>c. c \<noteq> dquote)) argv)"
  proof (induction argv)
    case (Cons a argv)
    show ?case
    proof (cases argv)
      case Nil
      then show ?thesis using split_exec_arg [of a "[]"] by simp
    next
      case (Cons b rest)
      then show ?thesis using Cons.IH split_exec_arg [of a "CHR '' '' # join_str '' '' (map exec_arg argv)"] dquote_space by simp
    qed
  qed simp
  then show ?thesis by (simp add: splitArgv_def joinAuthproxyExec_def)
qed

section \<open>Environments along the way\<close>

lemma setEnvKey_other:
  assumes "k \<noteq> k'" "k \<noteq> []" "k' \<noteq> []" "CHR ''='' \<notin> set k" "CHR ''='' \<notin> set k'"
  shows "filter (entry_of k') (setEnvKey env k v) = filter (entry_of k') env"
proof (induction env)
  case Nil
  then show ?case using entries_distinct [OF entry_of_self(1) _ assms(2,3,4,5)] assms(1) by auto
next
  case (Cons kv env)
  then show ?case using entries_distinct [of k _ k'] assms by (auto intro: entry_of_self)
qed

lemma setEnvKey_new: "filter (entry_of k) env = [] \<Longrightarrow> filter (entry_of k) (setEnvKey env k v) = [k @ ''='' @ v]"
  by (induction env) (auto split: if_splits)

lemma last_value_dedup: "k \<noteq> [] \<Longrightarrow> CHR ''='' \<notin> set k \<Longrightarrow> last_value (dedup_env env) k = last_value env k"
  by (auto simp: last_value_def dedup_entries split: list.splits)

lemma childEnv_entries:
  "filter (entry_of ''PORT'') (childEnv env port) = [''PORT='' @ port]"
  "filter (entry_of ''AGENTRY_AUTHPROXY_EXEC'') (childEnv env port) = []"
  "k \<noteq> [] \<Longrightarrow> CHR ''='' \<notin> set k \<Longrightarrow> k \<notin> {''PORT'', ''AGENTRY_AUTHPROXY_EXEC''}
    \<Longrightarrow> filter (entry_of k) (childEnv env port) = filter (entry_of k) env"
proof -
  have p: "has_prefix kv ''PORT='' = entry_of ''PORT'' kv" "has_prefix kv ''AGENTRY_AUTHPROXY_EXEC='' = entry_of ''AGENTRY_AUTHPROXY_EXEC'' kv" for kv
    by (simp_all add: entry_of_def)
  have c: "childEnv env port = filter (\<lambda>kv. \<not> entry_of ''PORT'' kv \<and> \<not> entry_of ''AGENTRY_AUTHPROXY_EXEC'' kv) env @ [''PORT'' @ ''='' @ port]"
    unfolding childEnv_def p by simp
  have self: "entry_of ''PORT'' (''PORT'' @ ''='' @ port)" by (rule entry_of_self)
  have other: "\<not> entry_of k (''PORT'' @ ''='' @ port)" if "k \<noteq> []" "CHR ''='' \<notin> set k" "k \<noteq> ''PORT''" for k
    using entries_distinct [OF self, of k] that by auto
  show "filter (entry_of ''PORT'') (childEnv env port) = [''PORT='' @ port]" unfolding c using self by (auto simp: filter_empty_conv)
  show "filter (entry_of ''AGENTRY_AUTHPROXY_EXEC'') (childEnv env port) = []" unfolding c using other by (simp add: filter_empty_conv)
  show "filter (entry_of k) (childEnv env port) = filter (entry_of k) env"
    if k: "k \<noteq> []" "CHR ''='' \<notin> set k" "k \<notin> {''PORT'', ''AGENTRY_AUTHPROXY_EXEC''}"
  proof -
    have "entry_of k kv \<Longrightarrow> \<not> entry_of ''PORT'' kv \<and> \<not> entry_of ''AGENTRY_AUTHPROXY_EXEC'' kv" for kv
      using entries_distinct [of k kv "''PORT''"] entries_distinct [of k kv "''AGENTRY_AUTHPROXY_EXEC''"] k by auto
    then show ?thesis unfolding c using other [OF k(1,2)] k(3) by (auto intro!: filter_cong)
  qed
qed

lemma child_getenv:
  "getenv (dedup_env (childEnv env port)) ''PORT'' = port"
  "getenv (dedup_env (childEnv env port)) ''AGENTRY_AUTHPROXY_EXEC'' = []"
  "k \<noteq> [] \<Longrightarrow> CHR ''='' \<notin> set k \<Longrightarrow> k \<notin> {''PORT'', ''AGENTRY_AUTHPROXY_EXEC''}
    \<Longrightarrow> getenv (dedup_env (childEnv env port)) k = last_value env k"
  by (simp_all add: getenv_dedup last_value_def childEnv_entries)

lemma trim_space_id: "s \<noteq> [] \<Longrightarrow> \<not> is_space (hd s) \<Longrightarrow> \<not> is_space (last s) \<Longrightarrow> trim_space s = s"
proof -
  assume a: "s \<noteq> []" "\<not> is_space (hd s)" "\<not> is_space (last s)"
  have d: "xs \<noteq> [] \<Longrightarrow> \<not> is_space (hd xs) \<Longrightarrow> dropWhile is_space xs = xs" for xs by (cases xs) auto
  show ?thesis using a d [of s] d [of "rev s"] by (simp add: go_strings hd_rev)
qed

lemma hd_join: "w \<noteq> [] \<Longrightarrow> hd (join_str sep (w # ws)) = hd w"
  by (cases ws) auto

lemma last_join: "ws \<noteq> [] \<Longrightarrow> last ws \<noteq> [] \<Longrightarrow> join_str sep ws \<noteq> [] \<and> last (join_str sep ws) = last (last ws)"
  by (induction sep ws rule: join_str.induct) auto

lemma exec_arg_edges:
  assumes "a \<noteq> []" "dquote \<notin> set a"
  shows "exec_arg a \<noteq> []" and "\<not> is_space (hd a) \<Longrightarrow> \<not> is_space (hd (exec_arg a))"
    and "\<not> is_space (last a) \<Longrightarrow> \<not> is_space (last (exec_arg a))"
proof -
  have "filter (\<lambda>c. c \<noteq> dquote) a = a" using assms(2) by (simp add: filter_id_conv) blast
  then have e: "exec_arg a = (if CHR '' '' \<in> set a then dquote # a @ [dquote] else a)" by (simp add: exec_arg_def)
  have "\<not> is_space dquote" by (simp add: is_space_def dquote_def)
  then show "exec_arg a \<noteq> []" "\<not> is_space (hd a) \<Longrightarrow> \<not> is_space (hd (exec_arg a))"
    "\<not> is_space (last a) \<Longrightarrow> \<not> is_space (last (exec_arg a))" using assms(1) by (simp_all add: e)
qed

definition plain_argv :: "string list \<Rightarrow> bool" where
  "plain_argv argv \<longleftrightarrow> argv \<noteq> [] \<and> (\<forall>a \<in> set argv. a \<noteq> [] \<and> dquote \<notin> set a) \<and> \<not> is_space (hd (hd argv)) \<and> \<not> is_space (last (last argv))"

lemma plain_argv_back:
  assumes "plain_argv argv"
  shows "trim_space (joinAuthproxyExec argv) = joinAuthproxyExec argv" and "joinAuthproxyExec argv \<noteq> []"
    and "splitArgv (joinAuthproxyExec argv) = argv"
proof -
  obtain a rest where argv: "argv = a # rest" using assms by (cases argv) (auto simp: plain_argv_def)
  note args = exec_arg_edges
  have l: "map exec_arg argv \<noteq> []" "last (map exec_arg argv) = exec_arg (last argv)" using argv by (simp_all add: last_map)
  have ok: "last argv \<noteq> []" "dquote \<notin> set (last argv)" "a \<noteq> []" "dquote \<notin> set a" "\<not> is_space (hd a)" "\<not> is_space (last (last argv))"
    using assms argv unfolding plain_argv_def by auto
  have "last (map exec_arg argv) \<noteq> []" using l(2) args(1) ok by simp
  note j = last_join [OF l(1) this, of "'' ''"]
  show "joinAuthproxyExec argv \<noteq> []" using j by (simp add: joinAuthproxyExec_def)
  have "hd (joinAuthproxyExec argv) = hd (exec_arg a)" using hd_join args(1) ok by (simp add: joinAuthproxyExec_def argv)
  moreover have "last (joinAuthproxyExec argv) = last (exec_arg (last argv))" using j l(2) by (simp add: joinAuthproxyExec_def)
  ultimately show "trim_space (joinAuthproxyExec argv) = joinAuthproxyExec argv"
    using args(2,3) ok j by (intro trim_space_id) (simp_all add: joinAuthproxyExec_def)
  have "map (filter (\<lambda>c. c \<noteq> dquote)) argv = map id argv"
  proof (rule map_cong [OF refl])
    fix b assume "b \<in> set argv"
    then have "dquote \<notin> set b" using assms by (simp add: plain_argv_def)
    then show "filter (\<lambda>c. c \<noteq> dquote) b = id b" by (simp add: filter_id_conv) blast
  qed
  then show "splitArgv (joinAuthproxyExec argv) = argv" using assms by (simp add: splitArgv_join plain_argv_def filter_id_conv)
qed

section \<open>The app behind the proxy\<close>


text \<open>Whether an app is wrapped is decided by the first value of the switch, and what the proxy does by the last. A project whose
  own environment switches the operator's setting off is started behind a proxy that lets every request through.\<close>

theorem project_switches_auth_off:
  assumes on: "authEnabledInEnv (pw_login w)" and own: "jc_Env c = pre @ (''AGENTRY_AUTH_ENABLED'', v) # post" and off: "\<not> truthy v"
    and only: "\<forall>kv \<in> set post. \<not> entry_of ''AGENTRY_AUTH_ENABLED'' (fst kv @ ''='' @ snd kv)" and nofile: "jc_EnvFile c = []"
  shows "\<exists>env' cfg. maybeWrapAuthSidecar True (jc_StartCommand c) (project_environment w dir c) = ([authproxyBinary], env', 3001)
    \<and> loadConfig mac sha (dedup_env env') = Inr cfg
    \<and> (\<forall>now r. \<exists>host. front mac now cfg r = PxForward (stripIdentityHeaders (rq_Header r)) host)"
proof -
  let ?A = "''AGENTRY_AUTH_ENABLED''" and ?E = "''AGENTRY_AUTHPROXY_EXEC''"
  define env where "env = project_environment w dir c"
  define env' where "env' = setEnvKey env ?E (joinAuthproxyExec (jc_StartCommand c))"
  have env: "env = pw_login w @ map (\<lambda>(k, v). k @ ''='' @ v) pre @ [?A @ ''='' @ v] @ map (\<lambda>(k, v). k @ ''='' @ v) post"
    by (simp add: env_def project_environment_def own nofile)
  have "authEnabledInEnv env" using on by (auto simp: authEnabledInEnv_def env find_filter split: list.splits)
  then have wrap: "maybeWrapAuthSidecar True (jc_StartCommand c) env = ([authproxyBinary], env', 3001)"
    by (simp add: maybeWrapAuthSidecar_def env'_def authproxyDefaultUpstreamPort_def)
  have "filter (entry_of ?A) (map (\<lambda>(k, v). k @ ''='' @ v) post) = []" using only by (auto simp: filter_empty_conv)
  moreover have "entry_of ?A (?A @ ''='' @ v)" by (rule entry_of_self)
  ultimately have "last_value env ?A = v"
    using last_value_append [of ?A "map (\<lambda>(k, v). k @ ''='' @ v) post" "pw_login w @ map (\<lambda>(k, v). k @ ''='' @ v) pre" v] unfolding env by simp
  moreover have "last_value env' ?A = last_value env ?A"
    using setEnvKey_other [of ?E ?A env "joinAuthproxyExec (jc_StartCommand c)"] by (simp add: env'_def last_value_def)
  ultimately have "getenv (dedup_env env') ?A = v" by (simp add: getenv_dedup)
  then have "loadConfig mac sha (dedup_env env') = Inr (passthrough_config (dedup_env env'))" using off by (simp add: loadConfig_def)
  moreover have "\<exists>host. front mac now (passthrough_config P) r = PxForward (stripIdentityHeaders (rq_Header r)) host" for now P r
    by (simp add: front_def passthrough_config_def proxyHandler_def Let_def)
  ultimately show ?thesis using wrap unfolding env_def by blast
qed

lemma loadConfig_secret:
  assumes l: "loadConfig mac sha E = Inr c" and m: "ac_Mode c = ''agentry''"
  shows "ac_IdentitySecret c = getenv E ''AGENTRY_AUTH_SECRET'' \<and> ac_AppID c = app_id E
    \<and> ac_Secret c = deriveAppSecret mac (getenv E ''AGENTRY_AUTH_SECRET'') (app_id E)"
proof -
  have "c \<noteq> passthrough_config E" using m by (auto simp: passthrough_config_def)
  then have "\<exists>kind. agentry_config mac sha E kind = c"
    using l unfolding loadConfig_def by (auto split: if_split_asm option.split_asm)
  then show ?thesis by (auto simp: agentry_config_def)
qed

lemma startChild_env: "startChild E c = Inr (argv, cenv, c') \<Longrightarrow> \<exists>port. cenv = dedup_env (childEnv E port) \<and> c' = c\<lparr>ac_Upstream := ''127.0.0.1:'' @ port\<rparr>"
  unfolding startChild_def Let_def by (auto split: sum.split_asm if_split_asm)

lemma boot_child:
  assumes "boot mac sha E = Inr (cfg, Some (argv, cenv))"
  shows "\<exists>cfg0 port. loadConfig mac sha E = Inr cfg0 \<and> cenv = dedup_env (childEnv E port) \<and> cfg = cfg0\<lparr>ac_Upstream := ''127.0.0.1:'' @ port\<rparr>"
proof -
  obtain cfg0 where l: "loadConfig mac sha E = Inr cfg0" using assms by (cases "loadConfig mac sha E") (simp_all add: boot_def)
  then have "startChild E cfg0 = Inr (argv, cenv, cfg)" using assms by (auto simp: boot_def split: if_split_asm sum.split_asm)
  then show ?thesis using l startChild_env by blast
qed

text \<open>C38: The keys that keep the apps of an organisation apart are all derived from one root secret, and every app is given the root
  in its environment: with it an app makes, for any user, a session that the proxy of any other app accepts.\<close>

theorem app_forges_sessions:
  assumes mine: "boot mac sha (dedup_env env) = Inr (cfg, Some (argv, cenv))" "ac_Mode cfg = ''agentry''"
    and other: "loadConfig mac sha env2 = Inr cfg2" "ac_Mode cfg2 = ''agentry''" "ac_IdentitySecret cfg2 = ac_IdentitySecret cfg"
    and mac: "\<And>m. mac (ac_IdentitySecret cfg) m \<noteq> []"
    and p: "now \<le> sp_Exp p" "- (2 ^ 63) \<le> sp_Exp p" "sp_Exp p < 2 ^ 63"
  shows "\<exists>v. sealSession mac p (deriveAppSecret mac (getenv cenv ''AGENTRY_AUTH_SECRET'') (ac_AppID cfg2)) = Some v
    \<and> openSession mac now v (ac_Secret cfg2) = Inr p"
proof -
  let ?S = "''AGENTRY_AUTH_SECRET''"
  note facts = loadConfig_secret
  obtain cfg0 port where c0: "loadConfig mac sha (dedup_env env) = Inr cfg0" "cenv = dedup_env (childEnv (dedup_env env) port)"
    "ac_Mode cfg0 = ac_Mode cfg" "ac_IdentitySecret cfg0 = ac_IdentitySecret cfg"
    using boot_child [OF mine(1)] by auto
  have "getenv cenv ?S = last_value (dedup_env env) ?S" unfolding c0(2) by (rule child_getenv(3)) auto
  also have "\<dots> = getenv (dedup_env env) ?S" by (simp add: last_value_dedup getenv_dedup)
  also have "\<dots> = ac_IdentitySecret cfg" using facts [OF c0(1)] c0(3,4) mine(2) by simp
  finally have root: "getenv cenv ?S = ac_IdentitySecret cfg" .
  have key: "ac_Secret cfg2 = deriveAppSecret mac (getenv cenv ?S) (ac_AppID cfg2)" using facts [OF other(1,2)] other(3) root by metis
  have "ac_Secret cfg2 \<noteq> []"
    unfolding key root using mac by (metis deriveAppSecret_def length_0_conv length_hex_encode mult_eq_0_iff zero_neq_numeral)
  then obtain v where v: "sealSession mac p (ac_Secret cfg2) = Some v" by (simp add: sealSession_def Let_def)
  have "openSession mac now v (ac_Secret cfg2) = Inr p"
    using sealSession_blob [OF v p(2,3)] p(1) by (simp add: openSession_iff)
  then show ?thesis using v key by auto
qed

section \<open>Examples\<close>

text \<open>An operator's environment with a root secret of 32 characters, and a command with a space in an argument.\<close>

definition operator_env :: "string list" where
  "operator_env = [''AGENTRY_AUTH_ENABLED=true'', ''AGENTRY_AUTH_DB=mysql'', ''MYSQL_URL=db'',
     ''AGENTRY_AUTH_SECRET=0123456789abcdef0123456789abcdef'', ''AGENTRY_APP_ID=one'']"

abbreviation "demo_argv \<equiv> [''sh'', ''-c'', ''exec app'']"

definition operator_proxy :: "string list" where
  "operator_proxy = setEnvKey operator_env ''AGENTRY_AUTHPROXY_EXEC'' (joinAuthproxyExec demo_argv)"

lemma operator_env_values:
  "getenv (dedup_env operator_proxy) ''AGENTRY_AUTH_ENABLED'' = ''true''"
  "getenv (dedup_env operator_proxy) ''AGENTRY_AUTH_DB'' = ''mysql''"
  "dbURLFromEnv (dedup_env operator_proxy) = ''db''"
  "getenv (dedup_env operator_proxy) ''AGENTRY_AUTH_SECRET'' = ''0123456789abcdef0123456789abcdef''"
  "trim_space (getenv (dedup_env operator_proxy) ''AGENTRY_AUTHPROXY_EXEC'') = ''sh -c '' @ [dquote] @ ''exec app'' @ [dquote]"
  "trim_space (getenv (dedup_env operator_proxy) ''AGENTRY_AUTHPROXY_UPSTREAM_PORT'') = []"
  "getenv (dedup_env operator_proxy) ''PORT'' = []"
  "authEnabledInEnv operator_env" "to_lower ''mysql'' = ''mysql''" "truthy ''true''"
  "last_value operator_env ''AGENTRY_AUTHPROXY_UPSTREAM_PORT'' = []" "plain_argv demo_argv"
  "list_all (\<lambda>kv. \<not> entry_of ''AGENTRY_AUTHPROXY_EXEC'' kv) operator_env"
  by code_simp+

lemma operator_boot:
  "loadConfig mac sha (dedup_env operator_proxy) = Inr (agentry_config mac sha (dedup_env operator_proxy) ''mysql'')"
  "\<exists>cfg argv cenv. boot mac sha (dedup_env operator_proxy) = Inr (cfg, Some (argv, cenv)) \<and> ac_Mode cfg = ''agentry''
     \<and> ac_IdentitySecret cfg = ''0123456789abcdef0123456789abcdef''"
proof -
  show l: "loadConfig mac sha (dedup_env operator_proxy) = Inr (agentry_config mac sha (dedup_env operator_proxy) ''mysql'')"
    by (simp add: loadConfig_def operator_env_values db_family_def)
  have "ac_Port (agentry_config mac sha (dedup_env operator_proxy) ''mysql'') = format_int 3000"
  proof -
    have "char_of (51 :: nat) = CHR ''3''" "char_of (48 :: nat) = CHR ''0''" by code_simp+
    then have "format_int 3000 = ''3000''" by (simp add: format_int_def format_nat.simps digit_char_def)
    then show ?thesis by (simp add: agentry_config_def passthrough_config_def defaultPort_def operator_env_values)
  qed
  then have up: "resolveUpstreamPort (dedup_env operator_proxy) (agentry_config mac sha (dedup_env operator_proxy) ''mysql'') = Inr (format_int 3001)"
    by (simp add: resolveUpstreamPort_def operator_env_values parse_int_format)
  have "splitArgv (''sh -c '' @ [dquote] @ ''exec app'' @ [dquote]) = demo_argv" by code_simp
  then show "\<exists>cfg argv cenv. boot mac sha (dedup_env operator_proxy) = Inr (cfg, Some (argv, cenv)) \<and> ac_Mode cfg = ''agentry''
     \<and> ac_IdentitySecret cfg = ''0123456789abcdef0123456789abcdef''"
    using l up operator_env_values(4,5)
    by (simp add: boot_def execModeEnabled_def startChild_def Let_def agentry_config_def)
qed


theorem project_switches_auth_off_witness:
  "\<exists>env' cfg. maybeWrapAuthSidecar True demo_argv (project_environment ((demo_world [])\<lparr>pw_login := operator_env\<rparr>) ''/workspace''
        ((demo_config [])\<lparr>jc_StartCommand := demo_argv, jc_Env := [(''AGENTRY_AUTH_ENABLED'', ''off'')]\<rparr>)) = ([authproxyBinary], env', 3001)
    \<and> loadConfig (\<lambda>k m. k) (\<lambda>b. b) (dedup_env env') = Inr cfg
    \<and> (\<forall>now r. \<exists>host. front (\<lambda>k m. k) now cfg r = PxForward (stripIdentityHeaders (rq_Header r)) host)"
  using project_switches_auth_off [of "(demo_world [])\<lparr>pw_login := operator_env\<rparr>"
      "(demo_config [])\<lparr>jc_StartCommand := demo_argv, jc_Env := [(''AGENTRY_AUTH_ENABLED'', ''off'')]\<rparr>" "[]" "''off''" "[]"]
  by (simp add: operator_env_values demo_config_def) (simp add: truthy_def to_lower_def lower_char_def)

definition other_env :: "string list" where
  "other_env = [''AGENTRY_AUTH_ENABLED=true'', ''AGENTRY_AUTH_DB=mysql'', ''MYSQL_URL=db'',
     ''AGENTRY_AUTH_SECRET=0123456789abcdef0123456789abcdef'', ''AGENTRY_APP_ID=two'']"

lemma other_boot:
  "\<exists>cfg. loadConfig mac sha other_env = Inr cfg \<and> ac_Mode cfg = ''agentry''
     \<and> ac_IdentitySecret cfg = ''0123456789abcdef0123456789abcdef'' \<and> ac_AppID cfg = ''two''"
proof -
  have "getenv other_env ''AGENTRY_AUTH_ENABLED'' = ''true''" "getenv other_env ''AGENTRY_AUTH_DB'' = ''mysql''"
    "dbURLFromEnv other_env = ''db''" "getenv other_env ''AGENTRY_AUTH_SECRET'' = ''0123456789abcdef0123456789abcdef''"
    "app_id other_env = ''two''" by code_simp+
  then show ?thesis by (simp add: loadConfig_def operator_env_values db_family_def agentry_config_def)
qed

theorem app_forges_sessions_witness:
  "\<exists>cfg argv cenv cfg2 v. boot (\<lambda>k m. k) (\<lambda>b. b) (dedup_env operator_proxy) = Inr (cfg, Some (argv, cenv))
    \<and> loadConfig (\<lambda>k m. k) (\<lambda>b. b) other_env = Inr cfg2 \<and> ac_AppID cfg2 = ''two''
    \<and> sealSession (\<lambda>k m. k) (ann\<lparr>sp_Exp := 1\<rparr>) (deriveAppSecret (\<lambda>k m. k) (getenv cenv ''AGENTRY_AUTH_SECRET'') (ac_AppID cfg2)) = Some v
    \<and> openSession (\<lambda>k m. k) 1 v (ac_Secret cfg2) = Inr (ann\<lparr>sp_Exp := 1\<rparr>)"
proof -
  obtain cfg argv cenv where b: "boot (\<lambda>k m. k) (\<lambda>b. b) (dedup_env operator_proxy) = Inr (cfg, Some (argv, cenv))"
    "ac_Mode cfg = ''agentry''" "ac_IdentitySecret cfg = ''0123456789abcdef0123456789abcdef''"
    using operator_boot(2) by blast
  obtain cfg2 where c: "loadConfig (\<lambda>k m. k) (\<lambda>b. b) other_env = Inr cfg2" "ac_Mode cfg2 = ''agentry''"
    "ac_IdentitySecret cfg2 = ''0123456789abcdef0123456789abcdef''" "ac_AppID cfg2 = ''two''" using other_boot by blast
  have s: "ac_IdentitySecret cfg2 = ac_IdentitySecret cfg" using b(3) c(3) by simp
  show ?thesis
    using app_forges_sessions [OF b(1,2) c(1,2) s, of 1 "ann\<lparr>sp_Exp := 1\<rparr>"] b c by auto
qed

end
