(* ===== verification/Prov_Build.thy ===== *)
theory Prov_Build
  imports Rt_Wrap "HOL-Library.List_Lexorder"
begin

text \<open>
  Building the image of a deployment (\<open>pkg/provisioner/deploy_build.go\<close>, \<open>deploy_wrap.go\<close>, \<open>deploy_quiesce.go\<close>). The handler is a
  long sequence of calls: commands in the sandbox's shell, its projects, the provisioner's own file system, the Docker
  daemon and the builder. Each call is an event; the world is a record of answers, each a function of the events so far, the call
  that is answered being the last one. The model yields the reply and the whole history, so that
  what was asked, in which order and what is undone afterwards can be stated.
\<close>

section \<open>Names\<close>

definition splitNonEmpty :: "string \<Rightarrow> string list" where
  "splitNonEmpty s = filter (\<lambda>w. w \<noteq> []) (map trim_space (split_on (CHR 0x0A) s))"

text \<open>The bytes so far, reversed; a byte from 128 on belongs to a rune that is dropped.\<close>

fun tag_loop :: "string \<Rightarrow> bool \<Rightarrow> string \<Rightarrow> string" where
  "tag_loop b prevDash [] = b"
| "tag_loop b prevDash (r # rs) =
     (if char_within (CHR ''a'') (CHR ''z'') r \<or> is_digit r then tag_loop (r # b) False rs
      else if char_within (CHR ''A'') (CHR ''Z'') r then tag_loop (lower_char r # b) False rs
      else if r \<in> {CHR ''-'', CHR ''_'', CHR ''/''} \<and> \<not> prevDash \<and> b \<noteq> [] then tag_loop (CHR ''-'' # b) True rs
      else tag_loop b prevDash rs)"

definition sanitizeForDockerTag :: "string \<Rightarrow> string" where
  "sanitizeForDockerTag s = (
     let out = take 32 (rev (dropWhile (\<lambda>c. c = CHR ''-'') (tag_loop [] False s)))
     in if out = [] then ''app'' else out)"

definition shell_unsafe :: "char set" where
  "shell_unsafe = set '';|&`$<>(){}[]'' \<union> {squote, dquote, CHR 0x5C, CHR 0x0A, CHR 0x0D, CHR 0x09, CHR '' ''}"

definition projectPathAndSlug :: "string \<Rightarrow> string + (string \<times> string)" where
  "projectPathAndSlug project0 = (
     let slash = (\<lambda>c. c = CHR ''/''); project = trim_right_by slash (trim_left_by slash project0) in
     if project = [] \<or> project = ''.'' then Inr (''/workspace'', ''workspace'')
     else if list_ex (\<lambda>c. c \<in> shell_unsafe) project then Inl ''project name contains unsafe characters''
     else (let clean = path_clean (''/workspace/projects/'' @ project) in
       if \<not> has_prefix (clean @ ''/'') ''/workspace/projects/'' then Inl ''project name escapes /workspace/projects/''
       else Inr (clean, sanitizeForDockerTag project)))"

definition image_ref :: "string \<Rightarrow> string \<Rightarrow> string" where
  "image_ref slug tag = ''deploy-'' @ slug @ '':'' @ sanitizeForDockerTag tag"

definition tailLog :: "string \<Rightarrow> nat \<Rightarrow> string" where
  "tailLog s n = (if length s \<le> n then s
     else (let tail = drop (length s - n) s in
       case index_byte tail (CHR 0x0A) of None \<Rightarrow> tail | Some i \<Rightarrow> drop (Suc i) tail))"

definition escape_squote :: "string \<Rightarrow> string" where
  "escape_squote v = concat (map (\<lambda>c. if c = squote then [squote, CHR 0x5C, squote, squote] else [c]) v)"

definition buildEnvExportLine :: "(string \<times> string) list \<Rightarrow> string" where
  "buildEnvExportLine env = concat (map (\<lambda>k. k @ ''='' @ [squote] @ escape_squote (the (map_of env k)) @ [squote] @ '' '') (sort (map fst env)))"

section \<open>Events\<close>

datatype build_event =
    Exec string
  | ExecExit string int
  | ProjectList
  | ProjectAction string string
  | InspectBuildKit
  | PullBuildKit
  | CreateBuildKit
  | StartBuildKit
  | HostRemoveAll string
  | HostMkdirAll string
  | Download string
  | Untar string
  | Railpack "string list"
  | ImageList
  | StatAuthproxy
  | ImageInspect string
  | ReadAuthproxy
  | ImageBuild string string

type_synonym history = "build_event list"

text \<open>One line of a daemon's stream: its error and the message of its error detail, or a line that cannot be decoded.\<close>

datatype stream_line = StreamLine string string | StreamBroken

record build_world =
  bw_exec :: "history \<Rightarrow> string + string"
  bw_exec_exit :: "history \<Rightarrow> string \<times> int \<times> string option"
  bw_projects :: "history \<Rightarrow> string + (string \<times> string) list" \<comment> \<open>name and status\<close>
  bw_call :: "history \<Rightarrow> string option" \<comment> \<open>the error of a call without an answer\<close>
  bw_buildkit :: "history \<Rightarrow> bool option" \<comment> \<open>is it there, is it running\<close>
  bw_railpack :: "history \<Rightarrow> string \<times> string option"
  bw_images :: "history \<Rightarrow> string + string list"
  bw_image :: "history \<Rightarrow> string + (string list \<times> string list)" \<comment> \<open>entrypoint and command\<close>
  bw_stream :: "history \<Rightarrow> stream_line list"
  bw_late :: "history \<Rightarrow> bool" \<comment> \<open>the thirty seconds are over\<close>
  bw_gone :: "history \<Rightarrow> bool" \<comment> \<open>the client has left\<close>
  bw_docker :: bool \<comment> \<open>the backend is Docker\<close>

definition runtimeShellExec :: "build_world \<Rightarrow> string \<Rightarrow> history \<Rightarrow> (string \<times> string option) \<times> history" where
  "runtimeShellExec w cmd h = (let h' = h @ [Exec cmd] in
     ((case bw_exec w h' of Inl e \<Rightarrow> ([], Some e) | Inr out \<Rightarrow> (out, None)), h'))"

definition runtimeShellExecExit :: "build_world \<Rightarrow> string \<Rightarrow> int \<Rightarrow> history \<Rightarrow> (string \<times> int \<times> string option) \<times> history" where
  "runtimeShellExecExit w cmd timeout h = (let h' = h @ [ExecExit cmd timeout] in (bw_exec_exit w h', h'))"

definition simple_call :: "build_world \<Rightarrow> build_event \<Rightarrow> history \<Rightarrow> string option \<times> history" where
  "simple_call w e h = (bw_call w (h @ [e]), h @ [e])"

section \<open>The projects around a build\<close>

fun stop_running :: "build_world \<Rightarrow> (string \<Rightarrow> bool) \<Rightarrow> (string \<times> string) list \<Rightarrow> history \<Rightarrow> string list \<times> history" where
  "stop_running w sel [] h = ([], h)"
| "stop_running w sel ((name, status) # ps) h =
     (if status \<noteq> ''running'' \<or> \<not> sel name then stop_running w sel ps h
      else (case simple_call w (ProjectAction ''stop'' name) h of
          (Some e, h') \<Rightarrow> stop_running w sel ps h'
        | (None, h') \<Rightarrow> (let (paused, h'') = stop_running w sel ps h' in (name # paused, h''))))"

definition path_base :: "string \<Rightarrow> string" where
  "path_base p = (case last_index p ''/'' of None \<Rightarrow> p | Some i \<Rightarrow> drop (Suc i) p)"

definition pauseProjectsAt :: "build_world \<Rightarrow> string \<Rightarrow> history \<Rightarrow> string list \<times> history" where
  "pauseProjectsAt w path h = (let h' = h @ [ProjectList] in
     case bw_projects w h' of
       Inl e \<Rightarrow> ([], h')
     | Inr ps \<Rightarrow> stop_running w (\<lambda>n. path = ''/workspace'' \<or> n = path_base path) ps h')"

fun resumeProjects :: "build_world \<Rightarrow> string list \<Rightarrow> history \<Rightarrow> history" where
  "resumeProjects w [] h = h"
| "resumeProjects w (n # ns) h = resumeProjects w ns (snd (simple_call w (ProjectAction ''start'' n) h))"

section \<open>The wrapped image\<close>

definition joinDockerCmd :: "string list \<Rightarrow> string list \<Rightarrow> string option" where
  "joinDockerCmd entrypoint cmd = (if entrypoint @ cmd = [] then None else Some (joinAuthproxyExec (entrypoint @ cmd)))"

definition renderWrapDockerfile :: "string \<Rightarrow> string \<Rightarrow> string" where
  "renderWrapDockerfile base exec = ''FROM '' @ base @ [CHR 0x0A]
     @ ''COPY authproxy /usr/local/bin/authproxy'' @ [CHR 0x0A] @ ''RUN chmod +x /usr/local/bin/authproxy'' @ [CHR 0x0A]
     @ ''ENV AGENTRY_AUTHPROXY_EXEC='' @ json_string exec @ [CHR 0x0A]
     @ ''ENTRYPOINT ['' @ [dquote] @ ''/usr/local/bin/authproxy'' @ [dquote] @ '']'' @ [CHR 0x0A] @ ''CMD []'' @ [CHR 0x0A]"

text \<open>The first error in a stream. What comes after it is not read.\<close>

fun drainBuildResponse :: "stream_line list \<Rightarrow> string option" where
  "drainBuildResponse [] = None"
| "drainBuildResponse (StreamBroken # ls) = Some ''decode build line''"
| "drainBuildResponse (StreamLine e d # ls) = (if e \<noteq> [] then Some e else if d \<noteq> [] then Some d else drainBuildResponse ls)"

definition wrapImageWithAuthproxy :: "build_world \<Rightarrow> string \<Rightarrow> history \<Rightarrow> string option \<times> history" where
  "wrapImageWithAuthproxy w ref h =
     (case simple_call w StatAuthproxy h of
        (Some e, h1) \<Rightarrow> (None, h1)
      | (None, h1) \<Rightarrow>
          (let h2 = h1 @ [ImageInspect ref] in
           case bw_image w h2 of
             Inl e \<Rightarrow> (Some (''inspect railpack image: '' @ e), h2)
           | Inr (entry, cmd) \<Rightarrow>
               (case joinDockerCmd entry cmd of
                  None \<Rightarrow> (Some ''extract original entrypoint: base image has no ENTRYPOINT and no CMD'', h2)
                | Some exec \<Rightarrow>
                    (case simple_call w ReadAuthproxy h2 of
                       (Some e, h3) \<Rightarrow> (Some (''build wrap context: '' @ e), h3)
                     | (None, h3) \<Rightarrow>
                         (case simple_call w (ImageBuild ref (renderWrapDockerfile ref exec)) h3 of
                            (Some e, h4) \<Rightarrow> (Some (''ImageBuild start: '' @ e), h4)
                          | (None, h4) \<Rightarrow>
                              (case drainBuildResponse (bw_stream w h4) of
                                 Some e \<Rightarrow> (Some (''ImageBuild stream: '' @ e), h4)
                               | None \<Rightarrow>
                                   (let h5 = h4 @ [ImageInspect ref] in
                                    case bw_image w h5 of
                                      Inl e \<Rightarrow> (Some (''post-wrap inspect: '' @ e), h5)
                                    | Inr (entry', cmd') \<Rightarrow>
                                        (if entry' = [] \<or> \<not> has_suffix (hd entry') ''authproxy''
                                         then (Some ''post-wrap inspect: entrypoint is not authproxy'', h5)
                                         else (None, h5)))))))))"

section \<open>The steps of a build\<close>

definition preflightBuild :: "build_world \<Rightarrow> string \<Rightarrow> (string \<times> string) list \<Rightarrow> history \<Rightarrow> (string \<times> bool \<times> string option) \<times> history" where
  "preflightBuild w path env h = (
     let probe = ''[ -f '' @ path @ ''/package.json ] && node -e '' @ [dquote] @ ''process.exit((require('' @ [squote] @ path @ ''/package.json''
           @ [squote] @ '').scripts||{}).build?0:2)'' @ [dquote] @ '' && echo yes'';
         ((out, _, _), h1) = runtimeShellExecExit w probe 30 h
     in if trim_space out \<noteq> ''yes'' then (([], False, None), h1)
        else (let cmd = ''cd '' @ path @ '' && '' @ buildEnvExportLine env @ '' npm run build 2>&1'';
                ((out, exit, err), h2) = runtimeShellExecExit w cmd 300 h1
          in case err of
               Some e \<Rightarrow> ((tailLog out 8192, True, Some (''shell error: '' @ e)), h2)
             | None \<Rightarrow> if exit \<noteq> 0 then ((tailLog out 8192, True, Some (''npm run build exited '' @ format_int exit)), h2)
                else (([], True, None), h2)))"

definition ensureBuildKit :: "build_world \<Rightarrow> history \<Rightarrow> string option \<times> history" where
  "ensureBuildKit w h = (let h1 = h @ [InspectBuildKit] in
     case bw_buildkit w h1 of
       Some True \<Rightarrow> (None, h1)
     | Some False \<Rightarrow> map_prod (map_option (\<lambda>e. ''start existing buildkit: '' @ e)) id (simple_call w StartBuildKit h1)
     | None \<Rightarrow>
         (case simple_call w PullBuildKit h1 of
            (Some e, h2) \<Rightarrow> (Some (''pull buildkit image: '' @ e), h2)
          | (None, h2) \<Rightarrow>
              (case simple_call w CreateBuildKit h2 of
                 (Some e, h3) \<Rightarrow> (Some (''create buildkit: '' @ e), h3)
               | (None, h3) \<Rightarrow> map_prod (map_option (\<lambda>e. ''start buildkit: '' @ e)) id (simple_call w StartBuildKit h3))))"

definition list_projects_command :: string where
  "list_projects_command = ''ls -d /workspace/projects/*/ 2>/dev/null | xargs -n1 basename 2>/dev/null | head -10''"

definition detectSoleProject :: "build_world \<Rightarrow> history \<Rightarrow> string \<times> history" where
  "detectSoleProject w h = (let ((out, _), h') = runtimeShellExec w list_projects_command h in
     (case splitNonEmpty (trim_space out) of [c] \<Rightarrow> c | _ \<Rightarrow> [], h'))"

definition checkProject :: "build_world \<Rightarrow> string \<Rightarrow> history \<Rightarrow> (bool \<times> string list) \<times> history" where
  "checkProject w path h = (
     let cmd = ''test -d '' @ path @ '' && [ -n '' @ [dquote] @ ''$(ls -A '' @ path @ '' 2>/dev/null)'' @ [dquote] @ '' ] && echo yes'';
         ((out, _), h1) = runtimeShellExec w cmd h
     in if trim_space out = ''yes'' then ((True, []), h1)
        else (let ((subdirs, _), h2) = runtimeShellExec w list_projects_command h1 in ((False, splitNonEmpty (trim_space subdirs)), h2)))"

text \<open>The wait for a scaffold, two seconds at a time: fifteen rounds use up the thirty seconds. \<open>None\<close>: the client has left.\<close>

fun settle :: "nat \<Rightarrow> build_world \<Rightarrow> string \<Rightarrow> bool \<Rightarrow> bool \<times> string list \<Rightarrow> history \<Rightarrow> ((bool \<times> string list) \<times> bool) option \<times> history" where
  "settle 0 w path waited found h = (Some (found, waited), h)"
| "settle (Suc n) w path waited (exists, candidates) h =
     (if exists \<or> length candidates = 1 \<or> bw_late w h \<or> length candidates > 1 then (Some ((exists, candidates), waited), h)
      else if bw_gone w h then (None, h)
      else (let (found, h') = checkProject w path h in settle n w path True found h'))"

record build_request =
  dr_Project :: string
  dr_ImageTag :: string
  dr_BuildEnv :: "(string \<times> string) list" \<comment> \<open>distinct keys\<close>

datatype build_reply = BuildRefused nat string | BuildImage string

definition wanted_project :: "build_world \<Rightarrow> string \<Rightarrow> history \<Rightarrow> string \<times> history" where
  "wanted_project w project h =
     (if trim_space project = [] \<or> trim_space project = ''.'' then
        (case detectSoleProject w h of (sole, h') \<Rightarrow> (if sole \<noteq> [] then sole else project, h'))
      else (project, h))"

text \<open>Step 0a: the project as asked for, or the only one there is.\<close>

definition locate_project :: "build_world \<Rightarrow> string \<Rightarrow> history \<Rightarrow> (build_reply + (string \<times> string)) \<times> history" where
  "locate_project w project h =
     (case projectPathAndSlug project of
        Inl e \<Rightarrow> (Inl (BuildRefused 400 e), h)
      | Inr (path, slug) \<Rightarrow>
          (let (found, h1) = checkProject w path h in
           case settle 15 w path False found h1 of
             (None, h2) \<Rightarrow> (Inl (BuildRefused 503 ''client disconnected while waiting for project''), h2)
           | (Some ((exists, candidates), waited), h2) \<Rightarrow>
               (if exists then (Inr (path, slug), h2)
                else (case candidates of
                    [c] \<Rightarrow> (case projectPathAndSlug c of
                        Inl e \<Rightarrow> (Inl (BuildRefused 500 (''auto-resolved project failed validation: '' @ e)), h2)
                      | Inr ps \<Rightarrow> (Inr ps, h2))
                  | [] \<Rightarrow> (Inl (BuildRefused 400 (''no source files at '' @ path @ (if waited then '' (stayed empty)'' else '' (is empty)''))), h2)
                  | _ \<Rightarrow> (Inl (BuildRefused 400 (''no source files at '' @ path @ '' - pick one of: '' @ join_str '', '' candidates)), h2)))))"

definition railpack_args :: "string \<Rightarrow> string \<Rightarrow> (string \<times> string) list \<Rightarrow> string list" where
  "railpack_args ctxDir ref env = [''build'', ctxDir, ''--name'', ref, ''--progress'', ''plain'']
     @ concat (map (\<lambda>k. [''--env'', k @ ''='' @ the (map_of env k)]) (sort (map fst env)))"

text \<open>Steps 2 to 5, with the directory of the build context in place.\<close>

definition build_context :: "build_world \<Rightarrow> build_request \<Rightarrow> string \<Rightarrow> string \<Rightarrow> string \<Rightarrow> history \<Rightarrow> build_reply \<times> history" where
  "build_context w req ref tarball ctxDir h =
     (case simple_call w (Download tarball) h of
        (Some e, h1) \<Rightarrow> (BuildRefused 502 (''download build context: '' @ e), h1)
      | (None, h1) \<Rightarrow>
          (case simple_call w (Untar ctxDir) h1 of
             (Some e, h2) \<Rightarrow> (BuildRefused 502 (''untar build context: '' @ e), h2)
           | (None, h2) \<Rightarrow>
               (let h3 = h2 @ [Railpack (railpack_args ctxDir ref (dr_BuildEnv req))]; (out, err) = bw_railpack w h3; tail = tailLog out 4096 in
                case err of
                  Some e \<Rightarrow> (BuildRefused 502 (''railpack build failed: '' @ e @ tail), h3)
                | None \<Rightarrow>
                    (let h4 = h3 @ [ImageList] in
                     if (case bw_images w h4 of Inl e \<Rightarrow> False | Inr tags \<Rightarrow> ref \<notin> set tags)
                     then (BuildRefused 502 (''railpack reported success but image not in daemon:'' @ tail), h4)
                     else (case wrapImageWithAuthproxy w ref h4 of
                         (Some e, h5) \<Rightarrow> (BuildRefused 502 (''authproxy wrap step failed:'' @ e), h5)
                       | (None, h5) \<Rightarrow> (BuildImage ref, h5))))))"

definition exclude_flags :: string where
  "exclude_flags = join_str '' '' (map (\<lambda>p. ''--exclude='' @ [squote] @ p @ [squote])
     [''.sandbox-project.json'', ''node_modules'', ''.next'', ''__pycache__'', ''*.pyc'', ''.streamlit/cache'', ''.venv'', ''dist'', ''build'', ''.git''])"

definition clean_command :: "string \<Rightarrow> string" where
  "clean_command path = ''rm -rf '' @ path @ ''/.next '' @ path @ ''/.turbo '' @ path @ ''/dist '' @ path @ ''/.svelte-kit '' @ path
     @ ''/.output 2>/dev/null || true''"

definition tar_command :: "string \<Rightarrow> string \<Rightarrow> string" where
  "tar_command tarball path = ''rm -f '' @ tarball @ '' && tar '' @ exclude_flags @ '' -czf '' @ tarball @ '' -C '' @ path @ '' . 2>&1''"

definition remove_command :: "string \<Rightarrow> string" where
  "remove_command tarball = ''rm -f '' @ tarball"

text \<open>What runs while the projects are paused.\<close>

definition build_paused :: "build_world \<Rightarrow> build_request \<Rightarrow> string \<Rightarrow> string \<Rightarrow> history \<Rightarrow> build_reply \<times> history" where
  "build_paused w req path slug h = (
     let (_, h1) = runtimeShellExec w (clean_command path) h;
         ((out, ranIt, perr), h2) = preflightBuild w path (dr_BuildEnv req) h1
     in if perr \<noteq> None then (BuildRefused 400 (''preflight build failed in the sandbox before reaching railpack: '' @ out), h2)
        else if \<not> bw_docker w then (BuildRefused 503 ''docker client unavailable'', h2)
        else (case ensureBuildKit w h2 of
            (Some e, h3) \<Rightarrow> (BuildRefused 503 (''buildkit bootstrap: '' @ e), h3)
          | (None, h3) \<Rightarrow>
              (let tarball = ''/tmp/build-ctx-'' @ dr_ImageTag req @ ''.tar.gz'';
                   ctxDir = path_join [''/tmp'', ''buildctx-'' @ dr_ImageTag req]
               in case runtimeShellExec w (tar_command tarball path) h3 of
                    ((_, Some e), h4) \<Rightarrow> (BuildRefused 502 (''tar build context: '' @ e), h4)
                  | ((_, None), h4) \<Rightarrow>
                      (case simple_call w (HostRemoveAll ctxDir) h4 of
                         (Some e, h5) \<Rightarrow> (BuildRefused 500 (''cleanup: '' @ e), h5)
                       | (None, h5) \<Rightarrow>
                           (case simple_call w (HostMkdirAll ctxDir) h5 of
                              (Some e, h6) \<Rightarrow> (BuildRefused 500 (''mkdir: '' @ e), h6)
                            | (None, h6) \<Rightarrow>
                                (let (reply, h7) = build_context w req (image_ref slug (dr_ImageTag req)) tarball ctxDir h6;
                                     (_, h8) = simple_call w (HostRemoveAll ctxDir) h7;
                                     (_, h9) = runtimeShellExec w (remove_command tarball) h8
                                 in (reply, h9)))))))"

definition handleDeployBuild :: "build_world \<Rightarrow> string \<Rightarrow> build_request option \<Rightarrow> build_reply \<times> history" where
  "handleDeployBuild w sandboxID req =
     (if sandboxID = [] then (BuildRefused 400 ''sandbox id missing'', [])
      else (case req of
            None \<Rightarrow> (BuildRefused 400 ''bad body'', [])
          | Some r \<Rightarrow>
              (if dr_ImageTag r = [] then (BuildRefused 400 ''image_tag required'', [])
               else (let (project, h1) = wanted_project w (dr_Project r) [] in
                 case locate_project w project h1 of
                   (Inl refused, h2) \<Rightarrow> (refused, h2)
                 | (Inr (path, slug), h2) \<Rightarrow>
                     (let (paused, h3) = pauseProjectsAt w path h2; (reply, h4) = build_paused w r path slug h3
                      in (reply, resumeProjects w paused h4))))))"

end
