(* ===== verification/Prov_Builds.thy ===== *)
theory Prov_Builds
  imports Prov_Build
begin

text \<open>
  What a build of \<open>Prov_Build\<close> keeps: where the project may lie, that paused projects come back, how variables
  travel through the shell and a command through the image; and what an image tag can do to the provisioner's own files.
\<close>

section \<open>Histories\<close>

definition is_action :: "build_event \<Rightarrow> bool" where
  "is_action e \<longleftrightarrow> (case e of ProjectAction v n \<Rightarrow> True | _ \<Rightarrow> False)"

lemma is_action_simps [simp]: "is_action (ProjectAction v n)" "\<not> is_action (Exec s)" "\<not> is_action (ExecExit s t)" "\<not> is_action ProjectList"
  "\<not> is_action InspectBuildKit" "\<not> is_action PullBuildKit" "\<not> is_action CreateBuildKit" "\<not> is_action StartBuildKit"
  "\<not> is_action (HostRemoveAll d)" "\<not> is_action (HostMkdirAll d)" "\<not> is_action (Download d)" "\<not> is_action (Untar d)"
  "\<not> is_action (Railpack a)" "\<not> is_action ImageList" "\<not> is_action StatAuthproxy" "\<not> is_action (ImageInspect r)"
  "\<not> is_action ReadAuthproxy" "\<not> is_action (ImageBuild r d)"
  by (simp_all add: is_action_def)

text \<open>\<open>quiet h h'\<close>: the history went on without a project being stopped or started.\<close>

definition quiet :: "history \<Rightarrow> history \<Rightarrow> bool" where
  "quiet h h' \<longleftrightarrow> (\<exists>es. h' = h @ es \<and> list_all (\<lambda>e. \<not> is_action e) es)"

lemma quiet_refl [simp]: "quiet h h"
  by (simp add: quiet_def)

lemma quiet_trans: "quiet h h' \<Longrightarrow> quiet h' h'' \<Longrightarrow> quiet h h''"
  by (auto simp: quiet_def)

lemma quiet_append [simp]: "list_all (\<lambda>e. \<not> is_action e) es \<Longrightarrow> quiet h (h @ es)"
  by (auto simp: quiet_def)

lemma quiet_events: "quiet h h' \<Longrightarrow> set h \<subseteq> set h'"
  by (auto simp: quiet_def)

lemma exec_quiet: "runtimeShellExec w cmd h = (r, h') \<Longrightarrow> quiet h h'" "runtimeShellExecExit w cmd t h = (r', h') \<Longrightarrow> quiet h h'"
  by (auto simp: runtimeShellExec_def runtimeShellExecExit_def Let_def)

lemma call_quiet: "simple_call w e h = (r, h') \<Longrightarrow> \<not> is_action e \<Longrightarrow> quiet h h'"
  by (auto simp: simple_call_def)

lemma preflight_quiet: "preflightBuild w path env h = (r, h') \<Longrightarrow> quiet h h'"
  by (auto simp: preflightBuild_def runtimeShellExecExit_def Let_def split: prod.splits option.splits if_splits)

lemma buildkit_quiet: "ensureBuildKit w h = (r, h') \<Longrightarrow> quiet h h'"
  by (auto simp: ensureBuildKit_def simple_call_def Let_def split: prod.splits option.splits bool.splits)

lemma check_quiet: "checkProject w path h = (r, h') \<Longrightarrow> quiet h h'"
  by (auto simp: checkProject_def runtimeShellExec_def Let_def split: prod.splits if_splits)

lemma settle_quiet: "settle n w path waited found h = (r, h') \<Longrightarrow> quiet h h'"
proof (induction n w path waited found h arbitrary: r h' rule: settle.induct)
  case (2 n w path waited exists candidates h)
  obtain f h1 where c: "checkProject w path h = (f, h1)" by (metis surj_pair)
  show ?case
    using 2(2) 2(1) [OF _ _ c [symmetric] refl] c quiet_trans [OF check_quiet [OF c]]
    by (auto split: if_splits)
qed simp

lemma wrap_quiet: "wrapImageWithAuthproxy w ref h = (r, h') \<Longrightarrow> quiet h h'"
  unfolding wrapImageWithAuthproxy_def simple_call_def Let_def
  by (auto split: prod.splits option.splits sum.splits if_splits)

lemma context_quiet:
  assumes "build_context w req ref tarball ctxDir h = (r, h')"
  shows "quiet h h'"
proof -
  obtain e5 h5 where w5: "wrapImageWithAuthproxy w ref (((h @ [Download tarball]) @ [Untar ctxDir])
      @ [Railpack (railpack_args ctxDir ref (dr_BuildEnv req))] @ [ImageList]) = (e5, h5)" by (metis surj_pair)
  have "quiet h h5" using quiet_trans [OF _ wrap_quiet [OF w5], of h] by simp
  then show ?thesis
    using assms w5 unfolding build_context_def simple_call_def Let_def
    by (auto split: prod.splits option.splits if_splits)
qed

lemma paused_quiet:
  assumes "build_paused w req path slug h = (r, h')"
  shows "quiet h h'"
proof -
  obtain x1 h1 where e1: "runtimeShellExec w (clean_command path) h = (x1, h1)" by (metis surj_pair)
  obtain out ranIt perr h2 where e2: "preflightBuild w path (dr_BuildEnv req) h1 = ((out, ranIt, perr), h2)" by (metis surj_pair)
  obtain r3 h3 where e3: "ensureBuildKit w h2 = (r3, h3)" by (metis surj_pair)
  define tarball where "tarball = ''/tmp/build-ctx-'' @ dr_ImageTag req @ ''.tar.gz''"
  define ctxDir where "ctxDir = path_join [''/tmp'', ''buildctx-'' @ dr_ImageTag req]"
  obtain o4 r4 h4 where e4: "runtimeShellExec w (tar_command tarball path) h3 = ((o4, r4), h4)" by (metis surj_pair)
  obtain r7 h7 where e7: "build_context w req (image_ref slug (dr_ImageTag req)) tarball ctxDir
      (h4 @ [HostRemoveAll ctxDir, HostMkdirAll ctxDir]) = (r7, h7)" by (metis surj_pair)
  obtain x8 h8 where e8: "runtimeShellExec w (remove_command tarball) (h7 @ [HostRemoveAll ctxDir]) = (x8, h8)" by (metis surj_pair)
  have q2: "quiet h h2" using quiet_trans [OF exec_quiet(1) [OF e1] preflight_quiet [OF e2]] .
  have q3: "quiet h h3" using quiet_trans [OF q2 buildkit_quiet [OF e3]] .
  have q4: "quiet h h4" using quiet_trans [OF q3 exec_quiet(1) [OF e4]] .
  have q4s: "quiet h (h4 @ es)" if "list_all (\<lambda>e. \<not> is_action e) es" for es using quiet_trans [OF q4] that by simp
  have q7: "quiet h h7" using quiet_trans [OF q4s context_quiet [OF e7]] by simp
  have q8: "quiet h h8" using quiet_trans [OF quiet_trans [OF q7] exec_quiet(1) [OF e8]] by simp
  show ?thesis
    using assms q2 q3 q4 q4s q8 unfolding build_paused_def Let_def e1 e2 e3 tarball_def [symmetric] ctxDir_def [symmetric]
    by (auto simp: e1 e2 e3 e4 e7 e8 simple_call_def Let_def split: if_splits option.splits)
qed

section \<open>Paused projects come back\<close>

definition started :: "history \<Rightarrow> string list" where
  "started h = concat (map (\<lambda>e. case e of ProjectAction v n \<Rightarrow> (if v = ''start'' then [n] else []) | _ \<Rightarrow> []) h)"

text \<open>The projects whose stop went through, in order.\<close>

definition stop_at :: "build_world \<Rightarrow> history \<Rightarrow> nat \<Rightarrow> string list" where
  "stop_at w h i = (case h ! i of
     ProjectAction v n \<Rightarrow> (if v = ''stop'' \<and> bw_call w (take (Suc i) h) = None then [n] else []) | _ \<Rightarrow> [])"

definition stopped :: "build_world \<Rightarrow> history \<Rightarrow> string list" where
  "stopped w h = concat (map (stop_at w h) [0..<length h])"

lemma started_simps [simp]: "started [] = []" "started (h @ h') = started h @ started h'" "started [ProjectAction ''stop'' n] = []"
  "started (map (ProjectAction ''start'') ns) = ns" "started [ProjectAction ''start'' n] = [n]"
proof -
  show "started (map (ProjectAction ''start'') ns) = ns" by (induction ns) (simp_all add: started_def)
qed (simp_all add: started_def)

lemma stop_at_before: "i < length h \<Longrightarrow> stop_at w (h @ [e]) i = stop_at w h i"
  by (simp add: stop_at_def nth_append split: build_event.split)

lemma stopped_snoc: "stopped w (h @ [e]) = stopped w h @ (case e of
    ProjectAction v n \<Rightarrow> (if v = ''stop'' \<and> bw_call w (h @ [e]) = None then [n] else []) | _ \<Rightarrow> [])"
proof -
  have a: "map (stop_at w (h @ [e])) [0..<length h] = map (stop_at w h) [0..<length h]" by (simp add: stop_at_before)
  have b: "stop_at w (h @ [e]) (length h) = (case e of
      ProjectAction v n \<Rightarrow> (if v = ''stop'' \<and> bw_call w (h @ [e]) = None then [n] else []) | _ \<Rightarrow> [])"
    by (simp add: stop_at_def split: build_event.split)
  have "stopped w (h @ [e]) = concat (map (stop_at w (h @ [e])) [0..<length h]) @ stop_at w (h @ [e]) (length h)"
    by (simp add: stopped_def)
  then show ?thesis unfolding a b stopped_def .
qed

lemma stopped_nil [simp]: "stopped w [] = []"
  by (simp add: stopped_def)

lemma quiet_same:
  assumes "quiet h h'"
  shows "started h' = started h" and "stopped w h' = stopped w h"
proof -
  obtain es where es: "h' = h @ es" "list_all (\<lambda>e. \<not> is_action e) es" using assms by (auto simp: quiet_def)
  have "started (h @ es) = started h \<and> stopped w (h @ es) = stopped w h"
    using es(2)
  proof (induction es rule: rev_induct)
    case (snoc e es)
    then have "\<not> is_action e" "started (h @ es) = started h" "stopped w (h @ es) = stopped w h" by auto
    then show ?case using stopped_snoc [of w "h @ es" e] by (cases e) (simp_all add: is_action_def started_def)
  qed simp
  then show "started h' = started h" "stopped w h' = stopped w h" using es(1) by auto
qed

lemma stop_running_facts:
  "stop_running w sel ps h = (paused, h') \<Longrightarrow> started h' = started h \<and> stopped w h' = stopped w h @ paused"
proof (induction w sel ps h arbitrary: paused h' rule: stop_running.induct)
  case (2 w sel name status ps h)
  show ?case
  proof (cases "status \<noteq> ''running'' \<or> \<not> sel name")
    case True
    then show ?thesis using 2(1) [OF True] 2(4) by simp
  next
    case False
    define h1 where "h1 = h @ [ProjectAction ''stop'' name]"
    have c: "simple_call w (ProjectAction ''stop'' name) h = (bw_call w h1, h1)" by (simp add: simple_call_def h1_def)
    have h1: "started h1 = started h" "stopped w h1 = stopped w h @ (if bw_call w h1 = None then [name] else [])"
      by (simp_all add: h1_def stopped_snoc)
    show ?thesis
    proof (cases "bw_call w h1")
      case None
      obtain p2 h2 where r: "stop_running w sel ps h1 = (p2, h2)" by (metis surj_pair)
      then have "paused = name # p2" "h' = h2" using 2(4) False c None by auto
      then show ?thesis using 2(2) [OF False c [symmetric] None r] h1 None by simp
    next
      case (Some e)
      then have "stop_running w sel ps h1 = (paused, h')" using 2(4) False c by simp
      then show ?thesis using 2(3) [OF False c [symmetric] Some] h1 Some by simp
    qed
  qed
qed simp

lemma resume_history: "resumeProjects w ns h = h @ map (ProjectAction ''start'') ns"
  by (induction w ns h rule: resumeProjects.induct) (simp_all add: simple_call_def)

lemma resume_stopped: "stopped w (h @ map (ProjectAction ''start'') ns) = stopped w h"
proof (induction ns rule: rev_induct)
  case (snoc n ns)
  then show ?case using stopped_snoc [of w "h @ map (ProjectAction ''start'') ns" "ProjectAction ''start'' n"] by simp
qed simp

lemma locate_quiet: "locate_project w p h = (r, h') \<Longrightarrow> quiet h h'"
proof -
  assume l: "locate_project w p h = (r, h')"
  show ?thesis
  proof (cases "projectPathAndSlug p")
    case (Inr ps)
    obtain path slug where ps: "ps = (path, slug)" by force
    obtain found h1 where c: "checkProject w path h = (found, h1)" by (metis surj_pair)
    obtain s h2 where s: "settle 15 w path False found h1 = (s, h2)" by (metis surj_pair)
    have "h' = h2"
      using l Inr ps c s unfolding locate_project_def Let_def by (auto split: option.splits prod.splits if_splits list.splits sum.splits)
    then show ?thesis using quiet_trans [OF check_quiet [OF c] settle_quiet [OF s]] by simp
  qed (use l in \<open>simp add: locate_project_def\<close>)
qed

lemma wanted_quiet: "wanted_project w p h = (r, h') \<Longrightarrow> quiet h h'"
  by (auto simp: wanted_project_def detectSoleProject_def runtimeShellExec_def Let_def split: if_splits prod.splits)

lemma pause_facts:
  assumes "pauseProjectsAt w path h = (paused, h')"
  shows "started h' = started h \<and> stopped w h' = stopped w h @ paused"
proof -
  have q: "quiet h (h @ [ProjectList])" by simp
  show ?thesis
    using assms stop_running_facts [of w _ _ "h @ [ProjectList]" paused h'] quiet_same(1) [OF q] quiet_same(2) [OF q, of w]
    by (auto simp: pauseProjectsAt_def Let_def split: sum.splits)
qed

text \<open>C33: Whatever goes wrong in a build, and whatever it answers, the projects it has paused are started again, exactly
  these, in order, and after everything else.\<close>

theorem paused_projects_resumed:
  "let h = snd (handleDeployBuild w sandboxID req) in
    \<exists>before. h = before @ map (ProjectAction ''start'') (stopped w h) \<and> started before = [] \<and> stopped w before = stopped w h"
proof -
  obtain reply h where assms: "handleDeployBuild w sandboxID req = (reply, h)" by (metis surj_pair)
  have "\<exists>before. h = before @ map (ProjectAction ''start'') (stopped w h) \<and> started before = [] \<and> stopped w before = stopped w h" (is ?claim)
  proof -
    have quick: ?claim if "quiet [] h"
      using quiet_same(1) [OF that] quiet_same(2) [OF that, of w] by (intro exI [of _ h]) simp
    show ?claim
    proof (cases "sandboxID = [] \<or> req = None \<or> dr_ImageTag (the req) = []")
      case True
      then have "h = []" using assms by (cases "sandboxID = []"; cases req) (auto simp: handleDeployBuild_def)
      then show ?claim by simp
    next
      case False
      then obtain r where r: "req = Some r" "dr_ImageTag r \<noteq> []" "sandboxID \<noteq> []" by auto
      obtain project h1 where w1: "wanted_project w (dr_Project r) [] = (project, h1)" by (metis surj_pair)
      obtain loc h2 where w2: "locate_project w project h1 = (loc, h2)" by (metis surj_pair)
      have q2: "quiet [] h2" using quiet_trans [OF wanted_quiet [OF w1] locate_quiet [OF w2]] .
      show ?claim
      proof (cases loc)
        case (Inl refused)
        then have "h = h2" using assms r w1 w2 by (simp add: handleDeployBuild_def)
        then show ?claim using quick q2 by simp
      next
        case (Inr ps)
        obtain path slug where ps: "ps = (path, slug)" by force
        obtain paused h3 where w3: "pauseProjectsAt w path h2 = (paused, h3)" by (metis surj_pair)
        obtain rep h4 where w4: "build_paused w r path slug h3 = (rep, h4)" by (metis surj_pair)
        have h: "h = h4 @ map (ProjectAction ''start'') paused"
          using assms r w1 w2 Inr ps w3 w4 by (simp add: handleDeployBuild_def resume_history)
        have "started h4 = []" "stopped w h4 = paused"
          using quiet_same(1) [OF q2] quiet_same(2) [OF q2, of w] pause_facts [OF w3] quiet_same(1) [OF paused_quiet [OF w4]] quiet_same(2) [OF paused_quiet [OF w4], of w] by simp_all
        then show ?claim using h resume_stopped [of w h4 paused] by auto
      qed
    qed
  qed
  then show ?thesis using assms by simp
qed

section \<open>Where a project lies\<close>

lemma lower_upper: "\<forall>c. char_within (CHR ''A'') (CHR ''Z'') c \<longrightarrow> char_within (CHR ''a'') (CHR ''z'') (lower_char c)"
  by code_simp

definition slug_char :: "char \<Rightarrow> bool" where
  "slug_char c \<longleftrightarrow> char_within (CHR ''a'') (CHR ''z'') c \<or> is_digit c"

lemma slug_char_not_dash: "slug_char c \<Longrightarrow> c \<noteq> CHR ''-''"
  by (auto simp: slug_char_def char_within_def is_digit_def less_eq_char_def)

lemma tag_loop_chars:
  assumes "b \<noteq> [] \<longrightarrow> slug_char (last b)" "\<forall>c \<in> set b. slug_char c \<or> c = CHR ''-''"
  shows "(tag_loop b pd s \<noteq> [] \<longrightarrow> slug_char (last (tag_loop b pd s))) \<and> (\<forall>c \<in> set (tag_loop b pd s). slug_char c \<or> c = CHR ''-'')"
  using assms
proof (induction b pd s rule: tag_loop.induct)
  case (2 b pd r rs)
  consider (lo) "char_within (CHR ''a'') (CHR ''z'') r \<or> is_digit r"
    | (up) "\<not> (char_within (CHR ''a'') (CHR ''z'') r \<or> is_digit r)" "char_within (CHR ''A'') (CHR ''Z'') r"
    | (no) "\<not> (char_within (CHR ''a'') (CHR ''z'') r \<or> is_digit r)" "\<not> char_within (CHR ''A'') (CHR ''Z'') r" by blast
  then show ?case
  proof cases
    case lo
    have e: "tag_loop b pd (r # rs) = tag_loop (r # b) False rs" using lo by simp
    have "slug_char r" using lo by (simp add: slug_char_def)
    then show ?thesis unfolding e by (intro 2(1) [OF lo]) (use 2(5,6) in auto)
  next
    case up
    have e: "tag_loop b pd (r # rs) = tag_loop (lower_char r # b) False rs" using up by simp
    have "slug_char (lower_char r)" using lower_upper up(2) by (simp add: slug_char_def)
    then show ?thesis unfolding e by (intro 2(2) [OF up]) (use 2(5,6) in auto)
  next
    case no
    show ?thesis
    proof (cases "r \<in> {CHR ''-'', CHR ''_'', CHR ''/''} \<and> \<not> pd \<and> b \<noteq> []")
      case True
      have e: "tag_loop b pd (r # rs) = tag_loop (CHR ''-'' # b) True rs" using no True by auto
      show ?thesis unfolding e by (intro 2(3) [OF no True]) (use 2(5,6) True in auto)
    next
      case False
      have e: "tag_loop b pd (r # rs) = tag_loop b pd rs" using no False by auto
      show ?thesis unfolding e by (intro 2(4) [OF no False]) (use 2(5,6) in auto)
    qed
  qed
qed simp

lemma last_dropWhile: "dropWhile P xs \<noteq> [] \<Longrightarrow> last (dropWhile P xs) = last xs"
  by (induction xs) (auto split: if_splits)

text \<open>What a repository name or a tag is made of. (A name that is cut at 32 may end with a dash.)\<close>

definition slug_ok :: "string \<Rightarrow> bool" where
  "slug_ok s \<longleftrightarrow> s \<noteq> [] \<and> length s \<le> 32 \<and> slug_char (hd s) \<and> (\<forall>c \<in> set s. slug_char c \<or> c = CHR ''-'')"

lemma sanitize_ok: "slug_ok (sanitizeForDockerTag s)"
proof -
  define b where "b = dropWhile (\<lambda>c. c = CHR ''-'') (tag_loop [] False s)"
  note t = tag_loop_chars [of "[]" False s, simplified]
  have chars: "\<forall>c \<in> set b. slug_char c \<or> c = CHR ''-''" using t set_dropWhileD by (fastforce simp: b_def)
  have hd: "b \<noteq> [] \<Longrightarrow> slug_char (last b)" using t last_dropWhile unfolding b_def by (metis dropWhile.simps(1))
  have s: "sanitizeForDockerTag s = (if take 32 (rev b) = [] then ''app'' else take 32 (rev b))"
    by (simp add: sanitizeForDockerTag_def b_def Let_def)
  show ?thesis
  proof (cases "b = []")
    case True
    have "slug_ok ''app''" by code_simp
    then show ?thesis by (simp add: s True)
  next
    case False
    then have "hd (take 32 (rev b)) = last b" by (simp add: hd_rev)
    moreover have "\<forall>c \<in> set (take 32 (rev b)). slug_char c \<or> c = CHR ''-''" using chars by (metis in_set_takeD set_rev)
    ultimately show ?thesis using False hd by (simp add: s slug_ok_def)
  qed
qed

lemma clean_segs_set: "set (clean_segs r st ss) \<subseteq> set st \<union> set ss"
proof (induction r st ss rule: clean_segs.induct)
  case (2 rooted st s ss)
  then show ?case by (cases st) (auto split: if_splits)
qed simp

lemma join_set: "set (join_str sep ws) \<subseteq> set sep \<union> (\<Union>w \<in> set ws. set w)"
  by (induction sep ws rule: join_str.induct) auto

lemma split_set: "w \<in> set (split_on c p) \<Longrightarrow> set w \<subseteq> set p"
  using join_split_on [of c p]
proof -
  assume w: "w \<in> set (split_on c p)"
  have "set w \<subseteq> set (join_str sep ws)" if "w \<in> set ws" for sep ws
    using that by (induction sep ws rule: join_str.induct) auto
  then show ?thesis using w join_split_on [of c p] by metis
qed

lemma clean_chars: "is_abs p \<Longrightarrow> set (path_clean p) \<subseteq> set p \<union> {CHR ''/''}"
proof -
  assume a: "is_abs p"
  let ?ss = "clean_segs True [] (split_on (CHR ''/'') p)"
  have "set w \<subseteq> set p" if "w \<in> set ?ss" for w
  proof -
    have "w \<in> set (split_on (CHR ''/'') p)" using clean_segs_set [of True "[]" "split_on (CHR ''/'') p"] that by auto
    then show ?thesis by (rule split_set)
  qed
  then have "set (join_str ''/'' ?ss) \<subseteq> set p \<union> {CHR ''/''}" using join_set [of "''/''" ?ss] by fastforce
  then show ?thesis using a by (simp add: path_clean_def)
qed

lemma split_snoc: "split_on c (p @ [c]) = split_on c p @ [[]]"
proof -
  have "split_on c (join_str [c] ws @ [c]) = split_on c (join_str [c] ws) @ [[]]" if "list_all (\<lambda>s. c \<notin> set s) ws" "ws \<noteq> []" for ws
    using that
  proof (induction ws)
    case (Cons w ws)
    then show ?case by (cases ws) (auto simp: split_on_append split_on_no_sep)
  qed simp
  from this [OF split_on_no_slash split_on_nonempty] show ?thesis by (simp add: join_split_on)
qed

text \<open>Where the code builds: the workspace itself, or a place under its projects.\<close>

definition in_workspace :: "string \<Rightarrow> bool" where
  "in_workspace path \<longleftrightarrow> path = ''/workspace'' \<or> (\<exists>segs. list_all plain_seg segs \<and> path = ''/'' @ join_str ''/'' (''workspace'' # ''projects'' # segs))"

lemma projects_prefix:
  assumes "list_all plain_seg segs" "has_prefix ((''/'' @ join_str ''/'' segs) @ ''/'') ''/workspace/projects/''"
  shows "\<exists>rest. segs = ''workspace'' # ''projects'' # rest"
proof -
  obtain r where r: "(''/'' @ join_str ''/'' segs) @ ''/'' = ''/workspace/projects/'' @ r" using assms(2) by (auto simp: has_prefix_iff)
  have "split_on (CHR ''/'') (''/workspace/projects/'' @ r) = [] # ''workspace'' # ''projects'' # split_on (CHR ''/'') r"
    using split_on_append [of "CHR ''/''" "[]" "''workspace/projects/'' @ r"]
      split_on_append [of "CHR ''/''" "''workspace''" "''projects/'' @ r"] split_on_append [of "CHR ''/''" "''projects''" r] by simp
  moreover have "split_on (CHR ''/'') ((''/'' @ join_str ''/'' segs) @ ''/'') = ([] # (if segs = [] then [[]] else segs)) @ [[]]"
    using split_snoc [of "CHR ''/''" "''/'' @ join_str ''/'' segs"] split_rooted [OF assms(1)] by simp
  ultimately have e: "(if segs = [] then [[]] else segs) @ [[]] = ''workspace'' # ''projects'' # split_on (CHR ''/'') r" using r by simp
  then have s: "segs \<noteq> []" by (cases "segs = []") auto
  then have "segs @ [[]] = ''workspace'' # ''projects'' # split_on (CHR ''/'') r" using e by simp
  then show ?thesis by (cases segs; cases "drop 1 segs") auto
qed

lemma slug_inside:
  assumes "projectPathAndSlug p = Inr (path, slug)"
  shows "in_workspace path \<and> set path \<inter> shell_unsafe = {} \<and> slug_ok slug"
proof -
  let ?slash = "\<lambda>c. c = CHR ''/''"
  define q where "q = trim_right_by ?slash (trim_left_by ?slash p)"
  show ?thesis
  proof (cases "q = [] \<or> q = ''.''")
    case True
    then have "path = ''/workspace''" "slug = ''workspace''" using assms by (auto simp: projectPathAndSlug_def q_def Let_def)
    moreover have "set ''/workspace'' \<inter> shell_unsafe = {}" "slug_ok ''workspace''" by code_simp+
    ultimately show ?thesis by (simp add: in_workspace_def)
  next
    case False
    then have safe: "\<forall>c \<in> set q. c \<notin> shell_unsafe" and path: "path = path_clean (''/workspace/projects/'' @ q)"
      and pre: "has_prefix (path @ ''/'') ''/workspace/projects/''" and slug: "slug = sanitizeForDockerTag q"
      using assms by (auto simp: projectPathAndSlug_def q_def [symmetric] Let_def list_ex_iff split: if_splits)
    have abs: "is_abs (''/workspace/projects/'' @ q)" by (simp add: is_abs_iff)
    obtain segs where segs: "list_all plain_seg segs" "path = ''/'' @ join_str ''/'' segs" using clean_rooted_segs [OF abs] path by metis
    obtain rest where rest: "segs = ''workspace'' # ''projects'' # rest" using projects_prefix segs pre by metis
    have "set ''/workspace/projects/'' \<inter> shell_unsafe = {}" by code_simp
    then have "set path \<inter> shell_unsafe = {}" using clean_chars [OF abs] safe unfolding path by auto
    moreover have "in_workspace path" unfolding in_workspace_def using segs rest by (intro disjI2 exI [of _ rest]) auto
    ultimately show ?thesis using sanitize_ok slug by simp
  qed
qed


section \<open>An image tag as a path\<close>

lemma build_dir_of_tag:
  assumes "is_abs d" "path_clean d = d"
  shows "path_join [''/tmp'', ''buildctx-'' @ ''x/../..'' @ d] = d"
proof -
  obtain segs where segs: "list_all plain_seg segs" "d = ''/'' @ join_str ''/'' segs" using assms clean_abs_iff by metis
  let ?p = "''/tmp/buildctx-x/../..'' @ d"
  have "split_on (CHR ''/'') ?p = [[], ''tmp'', ''buildctx-x'', ''..'', ''..''] @ (if segs = [] then [[]] else segs)"
  proof -
    have d: "split_on (CHR ''/'') (''..'' @ d) = ''..'' # (if segs = [] then [[]] else segs)"
      using split_rooted [OF segs(1)] split_on_append [of "CHR ''/''" "''..''" "join_str ''/'' segs"] split_on_append [of "CHR ''/''" "[]" "join_str ''/'' segs"]
      by (simp add: segs(2))
    show ?thesis
      using d split_on_append [of "CHR ''/''" "[]" "''tmp/buildctx-x/../..'' @ d"] split_on_append [of "CHR ''/''" "''tmp''" "''buildctx-x/../..'' @ d"]
        split_on_append [of "CHR ''/''" "''buildctx-x''" "''../..'' @ d"] split_on_append [of "CHR ''/''" "''..''" "''..'' @ d"] by simp
  qed
  then have "clean_segs True [] (split_on (CHR ''/'') ?p) = segs"
    using clean_segs_id [OF segs(1), of True "[]"] by simp
  then have "path_clean ?p = d" by (simp add: path_clean_def segs(2))
  then show ?thesis by (simp add: path_join_def)
qed

lemma settle_exists: "settle (Suc n) w path waited (True, cs) h = (Some ((True, cs), waited), h)" "settle 15 w path waited (True, cs) h = (Some ((True, cs), waited), h)"
  by (simp_all add: numeral_eq_Suc)

text \<open>The image tag of a request becomes a path on the provisioner's own disk without a check: with the right tag a build removes any
  directory of the provisioner, whatever it contains, before and after it unpacks the client's files there.\<close>

theorem image_tag_removes_any_directory:
  assumes "is_abs d" and "path_clean d = d" and "sandboxID \<noteq> []"
    and w: "bw_docker w" "\<And>h. bw_buildkit w h = Some True" "\<And>h. bw_exec w h = Inr ''yes''" "\<And>h. trim_space (fst (bw_exec_exit w h)) \<noteq> ''yes''"
  shows "\<exists>reply h. handleDeployBuild w sandboxID (Some \<lparr>dr_Project = ''app'', dr_ImageTag = ''x/../..'' @ d, dr_BuildEnv = []\<rparr>) = (reply, h)
    \<and> HostRemoveAll d \<in> set h"
proof -
  define r where "r = \<lparr>dr_Project = ''app'', dr_ImageTag = ''x/../..'' @ d, dr_BuildEnv = []\<rparr>"
  have app: "projectPathAndSlug ''app'' = Inr (''/workspace/projects/app'', ''app'')" by code_simp
  have t: "trim_space ''app'' = ''app''" "trim_space ''yes'' = ''yes''" by code_simp+
  have exec: "runtimeShellExec w cmd h = ((''yes'', None), h @ [Exec cmd])" for cmd h using w(3) by (simp add: runtimeShellExec_def Let_def)
  obtain h2 where loc: "locate_project w ''app'' [] = (Inr (''/workspace/projects/app'', ''app''), h2)"
    using settle_exists by (simp add: locate_project_def app checkProject_def exec t Let_def)
  obtain paused h3 where pause: "pauseProjectsAt w ''/workspace/projects/app'' h2 = (paused, h3)" by (metis surj_pair)
  have pre: "\<exists>h4. preflightBuild w path env h = (([], False, None), h4)" for path env h
    using w(4) by (auto simp: preflightBuild_def runtimeShellExecExit_def Let_def split: prod.splits) (metis fst_conv)+
  obtain h4 where h4: "preflightBuild w ''/workspace/projects/app'' [] (h3 @ [Exec (clean_command ''/workspace/projects/app'')]) = (([], False, None), h4)"
    using pre by blast
  have bk: "ensureBuildKit w h4 = (None, h4 @ [InspectBuildKit])" using w(2) by (simp add: ensureBuildKit_def Let_def)
  define tarball where "tarball = ''/tmp/build-ctx-'' @ dr_ImageTag r @ ''.tar.gz''"
  have dir: "path_join [''/tmp'', ''buildctx-'' @ dr_ImageTag r] = d" using build_dir_of_tag [OF assms(1,2)] by (simp add: r_def)
  obtain reply h6 where build: "build_paused w r ''/workspace/projects/app'' ''app'' h3 = (reply, h6)" by (metis surj_pair)
  obtain rep7 h7 where c: "build_context w r (image_ref ''app'' (dr_ImageTag r)) tarball d
      (h4 @ [InspectBuildKit, Exec (tar_command tarball ''/workspace/projects/app''), HostRemoveAll d, HostMkdirAll d]) = (rep7, h7)"
    by (metis surj_pair)
  have env: "dr_BuildEnv r = []" by (simp add: r_def)
  have "HostRemoveAll d \<in> set h6"
    using build quiet_events [OF context_quiet [OF c]] w(1)
    unfolding build_paused_def Let_def exec dir env tarball_def [symmetric]
    by (auto simp: exec h4 bk simple_call_def c split: option.splits)
  moreover have "handleDeployBuild w sandboxID (Some r) = (reply, resumeProjects w paused h6)"
    using assms(3) loc pause build by (simp add: handleDeployBuild_def r_def wanted_project_def t)
  ultimately show ?thesis by (auto simp: r_def resume_history)
qed

section \<open>A world in which everything works\<close>

definition demo_build :: build_world where
  "demo_build = \<lparr>bw_exec = (\<lambda>h. Inr ''yes''), bw_exec_exit = (\<lambda>h. ([], 1, None)), bw_projects = (\<lambda>h. Inr [(''app'', ''running'')]),
     bw_call = (\<lambda>h. None), bw_buildkit = (\<lambda>h. Some True), bw_railpack = (\<lambda>h. ([], None)), bw_images = (\<lambda>h. Inl []),
     bw_image = (\<lambda>h. Inr ([''/usr/local/bin/authproxy''], [])), bw_stream = (\<lambda>h. []), bw_late = (\<lambda>h. False), bw_gone = (\<lambda>h. False),
     bw_docker = True\<rparr>"


theorem image_tag_removes_any_directory_witness:
  "\<exists>reply h. handleDeployBuild demo_build ''sb'' (Some \<lparr>dr_Project = ''app'', dr_ImageTag = ''x/../..'' @ ''/etc'', dr_BuildEnv = []\<rparr>) = (reply, h)
    \<and> HostRemoveAll ''/etc'' \<in> set h"
  by (rule image_tag_removes_any_directory) (code_simp, code_simp, simp_all add: demo_build_def trim_space_def trim_left_by_def trim_right_by_def)

end
