(* ===== verification/Prov_Images.thy ===== *)
theory Prov_Images
  imports Prov_Build
begin

text \<open>
  Text that crosses an interpreter on its way into a build: the variables of a build in a command line for a POSIX shell
  (\<open>buildEnvExportLine\<close>), and the command of an image in an instruction of a Dockerfile (\<open>renderWrapDockerfile\<close>), which the auth proxy splits
  again. The readers of both languages are stated here, as far as the program's texts use them.
\<close>

section \<open>The words of a command line\<close>

text \<open>\<open>cur\<close> is the word being read, reversed. \<open>None\<close> where something would be expanded, an operator ends the simple command, or a
  quote is not closed.\<close>

definition shell_operator :: "char \<Rightarrow> bool" where
  "shell_operator c \<longleftrightarrow> c \<in> set (''$`;&|<>()*?[#~{}!'' @ [CHR 0x09, CHR 0x0A])"

definition end_word :: "string option \<Rightarrow> string list" where
  "end_word cur = (case cur of None \<Rightarrow> [] | Some w \<Rightarrow> [rev w])"

definition add_char :: "char \<Rightarrow> string option \<Rightarrow> string option" where
  "add_char c cur = Some (c # (case cur of None \<Rightarrow> [] | Some w \<Rightarrow> w))"

definition open_word :: "string option \<Rightarrow> string option" where
  "open_word cur = Some (case cur of None \<Rightarrow> [] | Some w \<Rightarrow> w)"

fun sh_words :: "sh_mode \<Rightarrow> string option \<Rightarrow> string \<Rightarrow> string list option" where
  "sh_words md cur [] = (if md = Unquoted then Some (end_word cur) else None)"
| "sh_words Unquoted cur (c # cs) =
     (if c = CHR '' '' then map_option (\<lambda>ws. end_word cur @ ws) (sh_words Unquoted None cs)
      else if c = squote then sh_words InSingle (open_word cur) cs
      else if c = dquote then sh_words InDouble (open_word cur) cs
      else if c = CHR 0x5C then (case cs of [] \<Rightarrow> None | d # ds \<Rightarrow> (if d = CHR 0x0A then None else sh_words Unquoted (add_char d cur) ds))
      else if shell_operator c then None
      else sh_words Unquoted (add_char c cur) cs)"
| "sh_words InSingle cur (c # cs) =
     (if c = squote then sh_words Unquoted cur cs else sh_words InSingle (add_char c cur) cs)"
| "sh_words InDouble cur (c # cs) =
     (if c = dquote then sh_words Unquoted cur cs
      else if c \<in> set (''$`'' @ [CHR 0x5C]) then None
      else sh_words InDouble (add_char c cur) cs)"

definition plain_char :: "char \<Rightarrow> bool" where
  "plain_char c \<longleftrightarrow> c \<noteq> CHR '' '' \<and> c \<noteq> squote \<and> c \<noteq> dquote \<and> c \<noteq> CHR 0x5C \<and> \<not> shell_operator c"

lemma words_plain: "list_all plain_char w \<Longrightarrow> w \<noteq> [] \<Longrightarrow> sh_words Unquoted cur (w @ s) = sh_words Unquoted (Some (rev w @ (case cur of None \<Rightarrow> [] | Some u \<Rightarrow> u))) s"
proof (induction w arbitrary: cur)
  case (Cons c w)
  then have c: "sh_words Unquoted cur (c # w @ s) = sh_words Unquoted (add_char c cur) (w @ s)" by (simp add: plain_char_def)
  show ?case
  proof (cases "w = []")
    case False
    then show ?thesis using Cons c by (simp add: add_char_def)
  qed (use c in \<open>simp add: add_char_def\<close>)
qed simp

text \<open>The escape of a single quote leaves the quotes, takes the character and enters them again.\<close>

lemma words_value: "sh_words InSingle (Some u) (escape_squote v @ squote # s) = sh_words Unquoted (Some (rev v @ u)) s"
proof (induction v arbitrary: u)
  case Nil
  then show ?case by (simp add: escape_squote_def)
next
  case (Cons c v)
  have e: "escape_squote (c # v) = (if c = squote then [squote, CHR 0x5C, squote, squote] else [c]) @ escape_squote v"
    by (simp add: escape_squote_def)
  show ?case
  proof (cases "c = squote")
    case True
    have "sh_words InSingle (Some u) (escape_squote (c # v) @ squote # s)
      = sh_words Unquoted (Some u) (CHR 0x5C # squote # squote # escape_squote v @ squote # s)" unfolding e using True by (simp del: sh_words.simps(2))
    also have "\<dots> = sh_words Unquoted (Some (squote # u)) (squote # escape_squote v @ squote # s)"
      by (simp add: add_char_def squote_def dquote_def)
    also have "\<dots> = sh_words InSingle (Some (squote # u)) (escape_squote v @ squote # s)" by (simp add: open_word_def squote_def)
    finally show ?thesis using Cons.IH True by simp
  next
    case False
    then show ?thesis using Cons.IH by (simp add: e add_char_def)
  qed
qed

lemma words_assignment:
  assumes "k \<noteq> []" "list_all plain_char k"
  shows "sh_words Unquoted None (k @ ''='' @ [squote] @ escape_squote v @ [squote] @ '' '' @ s)
    = map_option (\<lambda>ws. (k @ ''='' @ v) # ws) (sh_words Unquoted None s)"
proof -
  have eq: "plain_char (CHR ''='')" by (simp add: plain_char_def shell_operator_def squote_def dquote_def)
  have "sh_words Unquoted None ((k @ ''='') @ squote # escape_squote v @ squote # CHR '' '' # s)
      = sh_words Unquoted (Some (rev (k @ ''=''))) (squote # escape_squote v @ squote # CHR '' '' # s)"
    using words_plain [of "k @ ''=''" None] assms eq by simp
  also have "\<dots> = sh_words InSingle (Some (rev (k @ ''=''))) (escape_squote v @ squote # CHR '' '' # s)" by (simp add: open_word_def squote_def)
  also have "\<dots> = sh_words Unquoted (Some (rev v @ rev (k @ ''=''))) (CHR '' '' # s)" by (rule words_value)
  finally show ?thesis by (cases "sh_words Unquoted None s") (simp_all add: end_word_def)
qed



text \<open>A name is not quoted: what it holds is read by the shell.\<close>

lemma name_is_read: "has_prefix (buildEnvExportLine [(''X=1; rm -rf /; Y'', [])]) ''X=1; rm -rf /; Y=''"
  by code_simp

section \<open>The command of an image\<close>

text \<open>A value in double quotes in a Dockerfile's \<open>ENV\<close>: a backslash takes its meaning from a quote, a dollar sign and
  itself, and else stays; a dollar sign expands a variable of the build, which is not modelled (\<open>None\<close>).\<close>

fun env_value :: "string \<Rightarrow> string option" where
  "env_value [] = None"
| "env_value (c # cs) =
     (if c = dquote then (if cs = [] then Some [] else None)
      else if c = CHR ''$'' then None
      else if c = CHR 0x5C then
        (case cs of [] \<Rightarrow> None
         | d # ds \<Rightarrow> if d \<in> {dquote, CHR ''$'', CHR 0x5C} then map_option (\<lambda>v. d # v) (env_value ds)
             else map_option (\<lambda>v. c # d # v) (env_value ds))
      else map_option (\<lambda>v. c # v) (env_value cs))"

definition docker_env :: "string \<Rightarrow> string option" where
  "docker_env s = (case s of [] \<Rightarrow> None | c # cs \<Rightarrow> if c = dquote then env_value cs else None)"

text \<open>What comes out of the JSON text of a string, character by character: JSON's escapes but for the quote and the
  backslash stay as they are.\<close>

definition survives :: "char \<Rightarrow> string" where
  "survives c = (if c = quote \<or> c = backslash then [c] else escape_char c)"

lemma quote_dquote: "quote = dquote" "backslash = CHR 0x5C"
  by (simp_all add: quote_def dquote_def backslash_def)

lemma digit_plain: "d < 16 \<Longrightarrow> digit_char d \<notin> {CHR 0x22, CHR ''$'', CHR 0x5C, CHR '' ''}"
proof -
  have "list_all (\<lambda>d. digit_char d \<notin> {CHR 0x22, CHR ''$'', CHR 0x5C, CHR '' ''}) [0..<16]" by code_simp
  then show "d < 16 \<Longrightarrow> ?thesis" by (simp add: list_all_iff)
qed

lemma hex_plain: "list_all (\<lambda>d. d \<noteq> CHR 0x22 \<and> d \<noteq> CHR ''$'' \<and> d \<noteq> CHR 0x5C \<and> d \<noteq> CHR '' '') (hex4 n)"
  using digit_plain by (simp add: hex4_def)

lemma escape_short:
  "escape_char (CHR 0x0A) = [CHR 0x5C, CHR ''n'']" "escape_char (CHR 0x0D) = [CHR 0x5C, CHR ''r'']" "escape_char (CHR 0x09) = [CHR 0x5C, CHR ''t'']"
  "escape_char (CHR 0x08) = [CHR 0x5C, CHR ''b'']" "escape_char (CHR 0x0C) = [CHR 0x5C, CHR ''f'']"
  "escape_char quote = [CHR 0x5C, quote]" "escape_char backslash = [CHR 0x5C, backslash]"
  "survives (CHR 0x0A) = [CHR 0x5C, CHR ''n'']" "survives (CHR 0x0D) = [CHR 0x5C, CHR ''r'']" "survives (CHR 0x09) = [CHR 0x5C, CHR ''t'']"
  "survives (CHR 0x08) = [CHR 0x5C, CHR ''b'']" "survives (CHR 0x0C) = [CHR 0x5C, CHR ''f'']"
  by code_simp+

lemma env_value_plain: "list_all (\<lambda>d. d \<noteq> CHR 0x22 \<and> d \<noteq> CHR ''$'' \<and> d \<noteq> CHR 0x5C) p \<Longrightarrow> env_value (p @ s) = map_option (\<lambda>v. p @ v) (env_value s)"
proof (induction p)
  case Nil
  then show ?case by (cases "env_value s") simp_all
next
  case (Cons d p)
  then show ?case by (cases "env_value s") (simp_all add: dquote_def)
qed

lemma env_value_escape:
  assumes "c \<noteq> CHR ''$''"
  shows "env_value (escape_char c @ s) = map_option (\<lambda>v. survives c @ v) (env_value s)"
proof -
  have keep: "env_value (CHR 0x5C # d # p @ s) = map_option (\<lambda>v. (CHR 0x5C # d # p) @ v) (env_value s)"
    if "d \<notin> {dquote, CHR ''$'', CHR 0x5C}" "list_all (\<lambda>d. d \<noteq> CHR 0x22 \<and> d \<noteq> CHR ''$'' \<and> d \<noteq> CHR 0x5C) p" for d p
    using that env_value_plain [OF that(2), of s] by (simp add: dquote_def option.map_comp o_def)
  have hex: "list_all (\<lambda>d. d \<noteq> CHR 0x22 \<and> d \<noteq> CHR ''$'' \<and> d \<noteq> CHR 0x5C) (hex4 (of_char c))"
    using hex_plain by (auto simp: list_all_iff)
  have kn: "env_value (CHR 0x5C # d # s) = map_option (\<lambda>v. CHR 0x5C # d # v) (env_value s)" if "d \<in> {CHR ''n'', CHR ''r'', CHR ''t'', CHR ''b'', CHR ''f''}" for d
    using keep [of d "[]"] that by (auto simp: dquote_def)
  have ku: "env_value (CHR 0x5C # CHR ''u'' # hex4 (of_char c) @ s) = map_option (\<lambda>v. (CHR 0x5C # CHR ''u'' # hex4 (of_char c)) @ v) (env_value s)"
    using keep [of "CHR ''u''" "hex4 (of_char c)"] hex by (simp add: dquote_def)
  consider (q) "c = quote \<or> c = backslash" | (n) "c \<in> {CHR 0x0A, CHR 0x0D, CHR 0x09, CHR 0x08, CHR 0x0C}"
    | (u) "c \<noteq> quote" "c \<noteq> backslash" "c \<notin> {CHR 0x0A, CHR 0x0D, CHR 0x09, CHR 0x08, CHR 0x0C}"
      "(of_char c :: nat) < 0x20 \<or> c \<in> {CHR ''<'', CHR ''>'', CHR ''&''}"
    | (p) "c \<noteq> quote" "c \<noteq> backslash" "c \<notin> {CHR 0x0A, CHR 0x0D, CHR 0x09, CHR 0x08, CHR 0x0C}"
      "\<not> ((of_char c :: nat) < 0x20 \<or> c \<in> {CHR ''<'', CHR ''>'', CHR ''&''})" by blast
  then show ?thesis
  proof cases
    case q
    then have e: "escape_char c = [CHR 0x5C, c]" "survives c = [c]" "c = dquote \<or> c = CHR 0x5C" using escape_short(6,7) by (auto simp: survives_def quote_dquote)
    have "env_value (CHR 0x5C # c # s) = map_option (\<lambda>v. c # v) (env_value s)" using e(3) by (auto simp: dquote_def)
    then show ?thesis by (simp add: e(1,2))
  next
    case n
    then show ?thesis using kn by (elim insertE) (simp_all add: escape_short)
  next
    case u
    then have "escape_char c = CHR 0x5C # CHR ''u'' # hex4 (of_char c)" by (auto simp: escape_char_def quote_dquote(2))
    then show ?thesis using ku u by (simp add: survives_def)
  next
    case p
    then have "escape_char c = [c]" by (auto simp: escape_char_def)
    then show ?thesis using p assms env_value_plain [of "[c]" s] by (simp add: survives_def quote_def backslash_def)
  qed
qed

lemma docker_env_json: "CHR ''$'' \<notin> set s \<Longrightarrow> docker_env (json_string s) = Some (concat (map survives s))"
proof -
  assume "CHR ''$'' \<notin> set s"
  then have "env_value (concat (map escape_char s) @ [dquote]) = Some (concat (map survives s))"
  proof (induction s)
    case (Cons c s)
    then have "c \<noteq> CHR ''$''" by auto
    from env_value_escape [OF this, of "concat (map escape_char s) @ [dquote]"] Cons show ?case by simp
  qed (simp add: dquote_def)
  then show ?thesis by (simp add: docker_env_def json_string_def quote_dquote)
qed

definition carried :: "string \<Rightarrow> string" where
  "carried a = concat (map survives a)"

lemma carried_simps [simp]: "carried [] = []" "carried (c # a) = survives c @ carried a" "carried (a @ b) = carried a @ carried b"
  by (simp_all add: carried_def)

lemma survives_cases: "survives c = [c] \<or> c \<notin> {CHR '' '', dquote} \<and> (\<exists>d p. survives c = CHR 0x5C # d # p) \<and> dquote \<notin> set (survives c)
    \<and> CHR '' '' \<notin> set (survives c)"
proof -
  have hex: "dquote \<notin> set (hex4 (of_char c))" "CHR '' '' \<notin> set (hex4 (of_char c))"
    using hex_plain [of "of_char c"] by (auto simp: list_all_iff dquote_def)
  consider "c = quote \<or> c = backslash" | "c \<in> {CHR 0x0A, CHR 0x0D, CHR 0x09, CHR 0x08, CHR 0x0C}"
    | "survives c = [c]" | "survives c = CHR 0x5C # CHR ''u'' # hex4 (of_char c)" "c \<noteq> CHR '' ''" "c \<noteq> dquote"
  proof -
    assume "c = quote \<or> c = backslash \<Longrightarrow> thesis" "c \<in> {CHR 0x0A, CHR 0x0D, CHR 0x09, CHR 0x08, CHR 0x0C} \<Longrightarrow> thesis"
      "survives c = [c] \<Longrightarrow> thesis" "survives c = CHR 0x5C # CHR ''u'' # hex4 (of_char c) \<Longrightarrow> c \<noteq> CHR '' '' \<Longrightarrow> c \<noteq> dquote \<Longrightarrow> thesis"
    moreover have "survives c = [c] \<or> survives c = CHR 0x5C # CHR ''u'' # hex4 (of_char c) \<and> c \<noteq> CHR '' '' \<and> c \<noteq> dquote"
      if "\<not> (c = quote \<or> c = backslash)" "c \<notin> {CHR 0x0A, CHR 0x0D, CHR 0x09, CHR 0x08, CHR 0x0C}"
    proof -
      let ?C = "(of_char c :: nat) < 0x20 \<or> c \<in> {CHR ''<'', CHR ''>'', CHR ''&''}"
      have "survives c = (if ?C then CHR 0x5C # CHR ''u'' # hex4 (of_char c) else [c])"
        using that by (simp add: survives_def escape_char_def quote_dquote(2))
      moreover have "?C \<Longrightarrow> c \<noteq> CHR '' ''" by auto
      moreover have "c \<noteq> dquote" using that(1) quote_dquote(1) by simp
      ultimately show ?thesis by (cases ?C) simp_all
    qed
    ultimately show thesis by blast
  qed
  then show ?thesis
  proof cases
    case 2
    then show ?thesis by (elim insertE) (simp_all add: escape_short dquote_def)
  next
    case 4
    then show ?thesis using hex by (auto simp: dquote_def)
  qed (auto simp: survives_def)
qed

lemma survives_nonempty [simp]: "survives c \<noteq> []"
  using survives_cases [of c] by auto

lemma carried_chars: "dquote \<in> set (carried a) \<longleftrightarrow> dquote \<in> set a" "CHR '' '' \<in> set (carried a) \<longleftrightarrow> CHR '' '' \<in> set a"
    "carried a = [] \<longleftrightarrow> a = []"
proof -
  have s: "survives dquote = [dquote]" "survives (CHR '' '') = [CHR '' '']" by code_simp+
  have "dquote \<in> set (survives c) \<longleftrightarrow> c = dquote" "CHR '' '' \<in> set (survives c) \<longleftrightarrow> c = CHR '' ''" for c
    using survives_cases [of c] s by auto
  then show "dquote \<in> set (carried a) \<longleftrightarrow> dquote \<in> set a" "CHR '' '' \<in> set (carried a) \<longleftrightarrow> CHR '' '' \<in> set a" by (induction a) auto
  show "carried a = [] \<longleftrightarrow> a = []" by (cases a) auto
qed

lemma carried_exec_arg: "dquote \<notin> set a \<Longrightarrow> carried (exec_arg a) = exec_arg (carried a)"
proof -
  assume a: "dquote \<notin> set a"
  have f: "filter (\<lambda>c. c \<noteq> dquote) b = b" if "dquote \<notin> set b" for b using that by (induction b) auto
  have "survives dquote = [dquote]" by code_simp
  then show ?thesis using a f [OF a] f [of "carried a"] carried_chars by (simp add: exec_arg_def Let_def)
qed

lemma carried_join: "\<forall>a \<in> set argv. dquote \<notin> set a \<Longrightarrow> carried (joinAuthproxyExec argv) = joinAuthproxyExec (map carried argv)"
proof -
  have sp: "survives (CHR '' '') = [CHR '' '']" by code_simp
  assume "\<forall>a \<in> set argv. dquote \<notin> set a"
  then show ?thesis
  proof (induction argv)
    case (Cons a argv)
    then show ?case by (cases argv) (simp_all add: joinAuthproxyExec_def carried_exec_arg sp)
  qed (simp add: joinAuthproxyExec_def)
qed

lemma join_str_set: "c \<in> set (join_str sep ws) \<Longrightarrow> c \<in> set sep \<or> (\<exists>w \<in> set ws. c \<in> set w)"
  by (induction sep ws rule: join_str.induct) auto

lemma carried_edges:
  assumes "a \<noteq> []" "dquote \<notin> set a"
  shows "\<not> is_space (hd (exec_arg (carried a)))" and "\<not> is_space (last (exec_arg (carried a)))" and "exec_arg (carried a) \<noteq> []"
proof -
  have f: "filter (\<lambda>c. c \<noteq> dquote) (carried a) = carried a" using assms(2) carried_chars(1) [of a] by (intro filter_True) auto
  have e: "exec_arg (carried a) = (if CHR '' '' \<in> set a then dquote # carried a @ [dquote] else carried a)"
    by (simp add: exec_arg_def f carried_chars)
  have dq: "\<not> is_space dquote" by (simp add: is_space_def dquote_def)
  have sp: "\<not> is_space (hd (survives c)) \<and> \<not> is_space (last (survives c))" if "c \<noteq> CHR '' ''" for c
  proof (cases "is_space c")
    case True
    then have "c \<in> {CHR 0x09, CHR 0x0A, CHR 0x0B, CHR 0x0C, CHR 0x0D}" using that by (auto simp: is_space_def)
    moreover have "list_all (\<lambda>c. \<not> is_space (hd (survives c)) \<and> \<not> is_space (last (survives c))) [CHR 0x09, CHR 0x0A, CHR 0x0B, CHR 0x0C, CHR 0x0D]"
      by code_simp
    ultimately show ?thesis by auto
  next
    case False
    have "hd (survives c) = c \<or> hd (survives c) = CHR 0x5C" using survives_cases [of c] by auto
    moreover have "last (survives c) = c \<or> (\<exists>n. last (survives c) = digit_char n \<and> n < 16) \<or> last (survives c) \<in> set ''nrtbf''"
      by (auto simp: survives_def escape_char_def hex4_def)
    moreover have "\<not> is_space (CHR 0x5C)" "list_all (\<lambda>d. \<not> is_space d) ''nrtbf''" "list_all (\<lambda>n. \<not> is_space (digit_char n)) [0..<16]" by code_simp+
    ultimately show ?thesis using False by (auto simp: list_all_iff)
  qed
  have "hd (carried a) = hd (survives (hd a))" using assms(1) by (cases a) auto
  moreover have "last (carried a) = last (survives (last a))" using assms(1) by (cases a rule: rev_cases) auto
  moreover have "hd a \<in> set a" "last a \<in> set a" using assms(1) by auto
  ultimately have "\<not> is_space (hd (carried a)) \<and> \<not> is_space (last (carried a))" if "CHR '' '' \<notin> set a" using sp that by metis
  then show "\<not> is_space (hd (exec_arg (carried a)))" "\<not> is_space (last (exec_arg (carried a)))" using e dq by auto
  show "exec_arg (carried a) \<noteq> []" using e assms(1) carried_chars(3) by simp
qed

lemma carried_same: "carried a = a \<longleftrightarrow> (\<forall>c \<in> set a. survives c = [c])"
proof
  assume "\<forall>c \<in> set a. survives c = [c]"
  then show "carried a = a" by (induction a) auto
next
  have len: "length a \<le> length (carried a)" for a
  proof (induction a)
    case (Cons c a)
    then show ?case using survives_cases [of c] by auto
  qed simp
  assume "carried a = a"
  then have "length (carried a) \<le> length a" by simp
  then show "\<forall>c \<in> set a. survives c = [c]"
  proof (induction a)
    case (Cons c a)
    then show ?case using survives_cases [of c] len [of a] by auto
  qed simp
qed

lemma survives_iff: "survives c = [c] \<longleftrightarrow> 0x20 \<le> (of_char c :: nat) \<and> c \<notin> {CHR ''<'', CHR ''>'', CHR ''&''}"
proof -
  have "of_char quote = (0x22 :: nat)" "of_char backslash = (0x5C :: nat)" by (simp_all add: quote_def backslash_def)
  then show ?thesis by (auto simp: survives_def escape_char_def quote_dquote dquote_def)
qed

text \<open>The command of a built image reaches the proxy that starts it through a Dockerfile and back through a splitter: what is
  started is the image's command exactly when its arguments have no control character and none of the three characters that JSON
  escapes for HTML; a command with \<open>&&\<close> in an argument is started with something else in its place.\<close>

theorem wrapped_image_command:
  assumes "joinDockerCmd entry cmd = Some exec" and "\<forall>a \<in> set (entry @ cmd). a \<noteq> [] \<and> dquote \<notin> set a \<and> CHR ''$'' \<notin> set a"
  shows "\<exists>v. docker_env (json_string exec) = Some v \<and> splitArgv (trim_space v) = map carried (entry @ cmd)
    \<and> (splitArgv (trim_space v) = entry @ cmd
        \<longleftrightarrow> (\<forall>a \<in> set (entry @ cmd). \<forall>c \<in> set a. 0x20 \<le> (of_char c :: nat) \<and> c \<notin> {CHR ''<'', CHR ''>'', CHR ''&''}))"
proof -
  let ?argv = "entry @ cmd"
  have ne: "?argv \<noteq> []" and exec: "exec = joinAuthproxyExec ?argv" using assms(1) by (auto simp: joinDockerCmd_def split: if_splits)
  have dq: "\<forall>a \<in> set ?argv. dquote \<notin> set a" using assms(2) by blast
  have "CHR ''$'' \<notin> set (exec_arg a)" if "a \<in> set ?argv" for a
    using assms(2) that by (auto simp: exec_arg_def Let_def dquote_def)
  then have "CHR ''$'' \<notin> set exec" using join_str_set unfolding exec joinAuthproxyExec_def by fastforce
  from docker_env_json [OF this] have v: "docker_env (json_string exec) = Some (joinAuthproxyExec (map carried ?argv))"
    using carried_join [OF dq] by (simp add: carried_def exec)
  have edges: "trim_space (joinAuthproxyExec (map carried ?argv)) = joinAuthproxyExec (map carried ?argv)"
  proof -
    obtain a rest where ar: "?argv = a # rest" using ne by (cases ?argv) auto
    have l: "map exec_arg (map carried ?argv) \<noteq> []" "last (map exec_arg (map carried ?argv)) = exec_arg (carried (last ?argv))"
      using ne last_map [of ?argv "\<lambda>a. exec_arg (carried a)"] by (simp_all add: o_def)
    have last: "last ?argv \<in> set ?argv" "a \<in> set ?argv" using ne ar by auto
    have e: "exec_arg (carried b) \<noteq> []" "\<not> is_space (hd (exec_arg (carried b)))" "\<not> is_space (last (exec_arg (carried b)))" if "b \<in> set ?argv" for b
      using carried_edges [of b] assms(2) that by auto
    have "last (map exec_arg (map carried ?argv)) \<noteq> []" using l(2) e(1) last(1) by simp
    note j = last_join [OF l(1) this, of "'' ''"]
    have h: "hd (join_str '' '' (map exec_arg (map carried ?argv))) = hd (exec_arg (carried a))"
      unfolding ar using hd_join e(1) last(2) by simp
    show ?thesis unfolding joinAuthproxyExec_def
      by (rule trim_space_id) (use j l(2) h e last in simp_all)
  qed
  have "filter (\<lambda>c. c \<noteq> dquote) (carried a) = carried a" if "a \<in> set ?argv" for a
    using dq that carried_chars(1) [of a] by (intro filter_True) auto
  then have "map (filter (\<lambda>c. c \<noteq> dquote)) (map carried ?argv) = map carried ?argv" by simp
  moreover have "filter (\<lambda>a. a \<noteq> []) (map carried ?argv) = map carried ?argv" using assms(2) carried_chars(3) by (auto simp: filter_id_conv)
  ultimately have split: "splitArgv (joinAuthproxyExec (map carried ?argv)) = map carried ?argv" by (simp only: splitArgv_join)
  have "map carried ?argv = ?argv \<longleftrightarrow> (\<forall>a \<in> set ?argv. carried a = a)" using map_eq_conv [of carried ?argv id] by simp
  then have "map carried ?argv = ?argv \<longleftrightarrow> (\<forall>a \<in> set ?argv. \<forall>c \<in> set a. 0x20 \<le> (of_char c :: nat) \<and> c \<notin> {CHR ''<'', CHR ''>'', CHR ''&''})"
    by (simp only: carried_same survives_iff)
  then show ?thesis using v edges split by auto
qed

theorem wrapped_image_command_witness:
  "\<exists>v. docker_env (json_string (joinAuthproxyExec [''/bin/sh'', ''-c'', ''migrate && serve''])) = Some v
    \<and> splitArgv (trim_space v) = map carried [''/bin/sh'', ''-c'', ''migrate && serve'']
    \<and> splitArgv (trim_space v) \<noteq> [''/bin/sh'', ''-c'', ''migrate && serve'']"
proof -
  have j: "joinDockerCmd [''/bin/sh'', ''-c''] [''migrate && serve''] = Some (joinAuthproxyExec [''/bin/sh'', ''-c'', ''migrate && serve''])"
    by (simp add: joinDockerCmd_def)
  from wrapped_image_command [OF this] show ?thesis by (auto simp: dquote_def)
qed

end
