(* ===== verification/Prov_Deploy.thy ===== *)
theory Prov_Deploy
  imports Prov_Build
begin

text \<open>
  Running and pushing a deployment (\<open>pkg/provisioner/deploy_run.go\<close>, \<open>deploy_push.go\<close>). The Docker daemon, the network and time are the
  record \<open>deploy_daemon\<close> of the calls the code makes, each a function of their common state \<open>'d\<close>. Then what a run leaves behind, seen
  through a view of the daemon's containers that the documented calls obey.
\<close>

record registry_auth =
  ra_Host :: string
  ra_Username :: string
  ra_Token :: string

record dep_config =
  dc_Image :: string
  dc_Env :: "string list"
  dc_Labels :: "string \<rightharpoonup> string"
  dc_Restart :: "string \<times> int"

record dep_info =
  di_State :: "(string \<times> bool \<times> int) option" \<comment> \<open>status, running, exit code\<close>
  di_Labels :: "string \<rightharpoonup> string"
  di_Image :: string
  di_Network :: "(string \<times> (string \<times> string) list) option" \<comment> \<open>address, and the addresses by network\<close>

record 'd deploy_daemon =
  dd_Inspect :: "string \<Rightarrow> 'd \<Rightarrow> string + dep_info"
  dd_Remove :: "string \<Rightarrow> 'd \<Rightarrow> string option \<times> 'd" \<comment> \<open>by force\<close>
  dd_Create :: "dep_config \<Rightarrow> string \<Rightarrow> 'd \<Rightarrow> (string + string) \<times> 'd"
  dd_Start :: "string \<Rightarrow> 'd \<Rightarrow> string option \<times> 'd"
  dd_Pull :: "string \<Rightarrow> registry_auth \<Rightarrow> 'd \<Rightarrow> (string + stream_line list) \<times> 'd"
  dd_Tag :: "string \<Rightarrow> string \<Rightarrow> 'd \<Rightarrow> string option \<times> 'd"
  dd_Push :: "string \<Rightarrow> registry_auth \<Rightarrow> 'd \<Rightarrow> (string + stream_line list) \<times> 'd"
  dd_Logs :: "string \<Rightarrow> int \<Rightarrow> 'd \<Rightarrow> string + (string \<times> string \<times> bool)" \<comment> \<open>standard output, standard error, demultiplexing failed\<close>
  dd_Dial :: "string \<Rightarrow> int \<Rightarrow> 'd \<Rightarrow> bool"
  dd_Pause :: "'d \<Rightarrow> 'd" \<comment> \<open>200 ms pass\<close>
  dd_Gone :: "'d \<Rightarrow> bool"
  dd_Late :: "'d \<Rightarrow> bool" \<comment> \<open>the deadline has passed\<close>

definition deploymentContainerPrefix :: string where "deploymentContainerPrefix = ''deployment-''"
definition deploymentPortLabel :: string where "deploymentPortLabel = ''agentry.deployment.port''"
definition deploymentIDLabel :: string where "deploymentIDLabel = ''agentry.deployment.id''"
definition AgentryDeployPort :: int where "AgentryDeployPort = 3000"

text \<open>The first error in a stream, for a pull and for a push.\<close>

fun drainPullStream :: "stream_line list \<Rightarrow> string option" where
  "drainPullStream [] = None"
| "drainPullStream (StreamBroken # ls) = Some ''decode event''"
| "drainPullStream (StreamLine e d # ls) = (if e \<noteq> [] then Some e else if d \<noteq> [] then Some d else drainPullStream ls)"

definition pullForDeploy :: "'d deploy_daemon \<Rightarrow> string \<Rightarrow> registry_auth \<Rightarrow> 'd \<Rightarrow> string option \<times> 'd" where
  "pullForDeploy D ref auth d =
     (case dd_Pull D ref auth d of
        (Inl e, d') \<Rightarrow> (Some (''start pull: '' @ e), d')
      | (Inr ls, d') \<Rightarrow> (drainPullStream ls, d'))"

definition network_ip :: "dep_info \<Rightarrow> string" where
  "network_ip info = (case di_Network info of None \<Rightarrow> []
     | Some (ip, nets) \<Rightarrow> if ip \<noteq> [] then ip else (case map_of nets ''bridge'' of None \<Rightarrow> [] | Some a \<Rightarrow> a))"

text \<open>One round takes 200 ms or more, so 600 rounds use up the two minutes. \<open>None\<close>: the port is bound.\<close>

fun waitForDeploymentPort :: "nat \<Rightarrow> 'd deploy_daemon \<Rightarrow> string \<Rightarrow> int \<Rightarrow> string \<Rightarrow> 'd \<Rightarrow> string option \<times> 'd" where
  "waitForDeploymentPort 0 D cid port ip d = (Some ''timeout: no listener'', d)"
| "waitForDeploymentPort (Suc n) D cid port ip d =
     (if dd_Late D d then (Some ''timeout: no listener'', d)
      else (let (ip', dead) = (if ip \<noteq> [] then (ip, False)
              else (case dd_Inspect D cid d of Inl e \<Rightarrow> ([], False)
                | Inr info \<Rightarrow> if di_Network info = None then ([], False)
                    else (network_ip info, (case di_State info of Some (status, _, _) \<Rightarrow> status = ''exited'' | None \<Rightarrow> False))))
        in if dead then (Some ''container exited'', d)
           else if ip' \<noteq> [] \<and> dd_Dial D ip' port d then (None, d)
           else if dd_Gone D d then (Some ''context canceled'', d)
           else waitForDeploymentPort n D cid port ip' (dd_Pause D d)))"

definition tailLines :: "string \<Rightarrow> int \<Rightarrow> string" where
  "tailLines s n = (if n \<le> 0 then s
     else (let ls = split_on (CHR 0x0A) (trim_right_by (\<lambda>c. c = CHR 0x0A) s) in
       if int (length ls) \<le> n then s else join_str [CHR 0x0A] (drop (length ls - nat n) ls)))"

definition containerLogTail :: "'d deploy_daemon \<Rightarrow> string \<Rightarrow> int \<Rightarrow> 'd \<Rightarrow> string" where
  "containerLogTail D cid lines0 d = (
     let lines = (if lines0 \<le> 0 then 50 else lines0) in
     case dd_Logs D cid lines d of
       Inl e \<Rightarrow> []
     | Inr (out, err, failed) \<Rightarrow> if failed then trim_space (out @ err) else trim_space (tailLines (out @ err) lines))"

section \<open>The handlers\<close>

record run_request =
  rn_ID :: string
  rn_ImageRef :: string
  rn_Env :: "(string \<times> string) list" \<comment> \<open>in the order the map is walked\<close>
  rn_RegistryAuth :: "registry_auth option"

datatype deploy_reply =
    DepRefused nat string
  | DepRunning string string int
  | DepInfo string string string int \<comment> \<open>id, state, image, port\<close>
  | DepLogs string string string
  | DepStopped string
  | DepForward string int string
  | DepPushed string
  | DepPanic

definition run_config :: "run_request \<Rightarrow> dep_config" where
  "run_config req = \<lparr>dc_Image = rn_ImageRef req,
     dc_Env = (''PORT='' @ format_int AgentryDeployPort) # map (\<lambda>(k, v). k @ ''='' @ v) (rn_Env req),
     dc_Labels = [deploymentIDLabel \<mapsto> rn_ID req, deploymentPortLabel \<mapsto> format_int AgentryDeployPort],
     dc_Restart = (''on-failure'', 5)\<rparr>"

definition run_container :: "'d deploy_daemon \<Rightarrow> run_request \<Rightarrow> 'd \<Rightarrow> deploy_reply \<times> 'd" where
  "run_container D req d = (
     let name = deploymentContainerPrefix @ rn_ID req; (_, d1) = dd_Remove D name d in
     case dd_Create D (run_config req) name d1 of
       (Inl e, d2) \<Rightarrow> (DepRefused 502 (''container create: '' @ e), d2)
     | (Inr cid, d2) \<Rightarrow>
         (case dd_Start D cid d2 of
            (Some e, d3) \<Rightarrow> (DepRefused 502 (''container start: '' @ e), d3)
          | (None, d3) \<Rightarrow>
              (case waitForDeploymentPort 600 D cid AgentryDeployPort [] d3 of
                 (Some e, d4) \<Rightarrow>
                   (let logs = containerLogTail D cid 60 d4; (_, d5) = dd_Remove D name d4
                    in (DepRefused 502 (''deployment did not bind PORT: '' @ e @ (if logs = [] then [] else ''--- container logs'' @ logs)), d5))
               | (None, d4) \<Rightarrow> (DepRunning (rn_ID req) name AgentryDeployPort, d4))))"

definition handleDeploymentRun :: "'d deploy_daemon \<Rightarrow> bool \<Rightarrow> run_request option \<Rightarrow> 'd \<Rightarrow> deploy_reply \<times> 'd" where
  "handleDeploymentRun D docker body d =
     (case body of
        None \<Rightarrow> (DepRefused 400 ''bad body'', d)
      | Some req \<Rightarrow>
          if rn_ID req = [] \<or> rn_ImageRef req = [] then (DepRefused 400 ''id and image_ref required'', d)
          else if \<not> docker then (DepRefused 503 ''docker client unavailable'', d)
          else (case rn_RegistryAuth req of
              None \<Rightarrow> run_container D req d
            | Some auth \<Rightarrow> (case pullForDeploy D (rn_ImageRef req) auth d of
                  (Some e, d') \<Rightarrow> (DepRefused 502 (''pull image: '' @ e), d')
                | (None, d') \<Rightarrow> run_container D req d')))"

definition label_port :: "dep_info \<Rightarrow> int" where
  "label_port info = (case di_Labels info deploymentPortLabel of None \<Rightarrow> 0 | Some v \<Rightarrow> (case parse_int v of None \<Rightarrow> 0 | Some n \<Rightarrow> n))"

definition handleDeploymentLogs :: "'d deploy_daemon \<Rightarrow> bool \<Rightarrow> string \<Rightarrow> string \<Rightarrow> 'd \<Rightarrow> deploy_reply" where
  "handleDeploymentLogs D docker id' q d =
     (if id' = [] then DepRefused 400 ''deployment id missing''
      else if \<not> docker then DepRefused 503 ''docker client unavailable''
      else (let lines = (case parse_int q of Some n \<Rightarrow> (if q \<noteq> [] \<and> n > 0 \<and> n \<le> 2000 then n else 200) | None \<Rightarrow> 200);
                name = deploymentContainerPrefix @ id'
        in case dd_Inspect D name d of
             Inl e \<Rightarrow> DepRefused 404 ''deployment container not found''
           | Inr info \<Rightarrow> (case di_State info of None \<Rightarrow> DepPanic
               | Some (status, _, _) \<Rightarrow> DepLogs id' status (containerLogTail D name lines d))))"

definition handleDeploymentGet :: "'d deploy_daemon \<Rightarrow> bool \<Rightarrow> string \<Rightarrow> 'd \<Rightarrow> deploy_reply" where
  "handleDeploymentGet D docker id' d =
     (if id' = [] then DepRefused 400 ''id missing''
      else if \<not> docker then DepRefused 503 ''docker client unavailable''
      else (case dd_Inspect D (deploymentContainerPrefix @ id') d of
          Inl e \<Rightarrow> DepInfo id' ''not_found'' [] 0
        | Inr info \<Rightarrow> (case di_State info of None \<Rightarrow> DepPanic
            | Some (_, running, _) \<Rightarrow> DepInfo id' (if running then ''running'' else ''exited'') (di_Image info) (label_port info))))"

definition handleDeploymentStop :: "'d deploy_daemon \<Rightarrow> bool \<Rightarrow> string \<Rightarrow> 'd \<Rightarrow> deploy_reply \<times> 'd" where
  "handleDeploymentStop D docker id' d =
     (if id' = [] then (DepRefused 400 ''id missing'', d)
      else if \<not> docker then (DepRefused 503 ''docker client unavailable'', d)
      else (case dd_Remove D (deploymentContainerPrefix @ id') d of
          (Some e, d') \<Rightarrow> if contains_str e ''No such container'' then (DepStopped id', d') else (DepRefused 502 (''container remove: '' @ e), d')
        | (None, d') \<Rightarrow> (DepStopped id', d')))"

text \<open>The first network with an address, in the order the map is walked. The transport of the reverse proxy is outside.\<close>

definition handleDeploymentProxy :: "'d deploy_daemon \<Rightarrow> bool \<Rightarrow> string \<Rightarrow> string \<Rightarrow> 'd \<Rightarrow> deploy_reply" where
  "handleDeploymentProxy D docker id' rest d = (
     let path = (if has_prefix rest ''/'' then rest else ''/'' @ rest) in
     if \<not> docker then DepRefused 503 ''docker client unavailable''
     else (case dd_Inspect D (deploymentContainerPrefix @ id') d of
         Inl e \<Rightarrow> DepRefused 404 ''deployment not found''
       | Inr info \<Rightarrow>
           if (case di_State info of None \<Rightarrow> True | Some (_, running, _) \<Rightarrow> \<not> running) then DepRefused 502 ''deployment not running''
           else if label_port info = 0 then DepRefused 500 ''deployment port label missing''
           else (case di_Network info of
               None \<Rightarrow> DepRefused 502 ''deployment container has no network address''
             | Some (_, nets) \<Rightarrow> (case find (\<lambda>(n, a). a \<noteq> []) nets of
                   None \<Rightarrow> DepRefused 502 ''deployment container has no network address''
                 | Some (_, ip) \<Rightarrow> DepForward ip (label_port info) path))))"

record push_request =
  pq_LocalImageRef :: string
  pq_TargetRef :: string
  pq_Auth :: registry_auth

definition handleDeployPush :: "'d deploy_daemon \<Rightarrow> bool \<Rightarrow> string \<Rightarrow> push_request option \<Rightarrow> 'd \<Rightarrow> deploy_reply \<times> 'd" where
  "handleDeployPush D docker sandboxID body d =
     (if sandboxID = [] then (DepRefused 400 ''sandbox id missing'', d)
      else (case body of
          None \<Rightarrow> (DepRefused 400 ''bad body'', d)
        | Some req \<Rightarrow> (let auth = pq_Auth req in
            if pq_LocalImageRef req = [] \<or> pq_TargetRef req = [] \<or> ra_Host auth = []
              then (DepRefused 400 ''local_image_ref, target_ref, registry_host are required'', d)
            else if ra_Username auth = [] \<or> ra_Token auth = [] then (DepRefused 400 ''registry_username + registry_token are required'', d)
            else if \<not> has_prefix (pq_TargetRef req) (ra_Host auth @ ''/'') then (DepRefused 400 ''target_ref must start with registry_host'', d)
            else if \<not> docker then (DepRefused 503 ''docker client unavailable'', d)
            else (case dd_Tag D (pq_LocalImageRef req) (pq_TargetRef req) d of
                (Some e, d1) \<Rightarrow> (DepRefused 502 (''retag local image: '' @ e), d1)
              | (None, d1) \<Rightarrow> (case dd_Push D (pq_TargetRef req) auth d1 of
                    (Inl e, d2) \<Rightarrow> (DepRefused 502 (''push start: '' @ e), d2)
                  | (Inr ls, d2) \<Rightarrow> (case drainPullStream ls of
                        Some e \<Rightarrow> (DepRefused 502 (''push: '' @ e), d2)
                      | None \<Rightarrow> (DepPushed (pq_TargetRef req), d2)))))))"

end
