(* ===== verification/Prov_Rollout.thy ===== *)
theory Prov_Rollout
  imports Prov_Deploy
begin

text \<open>
  What the handlers of \<open>Prov_Deploy\<close> do to the containers of a daemon that behaves as documented: which container a run replaces and what is
  left when it fails, and where the credentials of a push go.
\<close>

section \<open>Containers as the daemon keeps them\<close>

type_synonym container_view = "string \<rightharpoonup> dep_config \<times> string \<times> bool" \<comment> \<open>configuration, id, started\<close>

definition start_id :: "string \<Rightarrow> container_view \<Rightarrow> container_view" where
  "start_id cid v n = map_option (\<lambda>(c, i, r). (c, i, r \<or> i = cid)) (v n)"

text \<open>The documented effect of each call on the containers: a failed call changes none, and a new container has an id of its own.\<close>

definition daemon_view :: "'d deploy_daemon \<Rightarrow> ('d \<Rightarrow> container_view) \<Rightarrow> bool" where
  "daemon_view D view \<longleftrightarrow>
     (\<forall>n d e d'. dd_Remove D n d = (e, d') \<longrightarrow> view d' = (if e = None then (view d)(n := None) else view d))
     \<and> (\<forall>c n d r d'. dd_Create D c n d = (r, d') \<longrightarrow> (case r of
          Inl e \<Rightarrow> view d' = view d
        | Inr cid \<Rightarrow> view d' = (view d)(n \<mapsto> (c, cid, False)) \<and> (\<forall>n' c' i' r'. view d n' = Some (c', i', r') \<longrightarrow> i' \<noteq> cid)))
     \<and> (\<forall>cid d e d'. dd_Start D cid d = (e, d') \<longrightarrow> view d' = (if e = None then start_id cid (view d) else view d))
     \<and> (\<forall>ref auth d r d'. dd_Pull D ref auth d = (r, d') \<longrightarrow> view d' = view d)
     \<and> (\<forall>d. view (dd_Pause D d) = view d)"

lemma view_remove: "daemon_view D view \<Longrightarrow> dd_Remove D n d = (e, d') \<Longrightarrow> view d' = (if e = None then (view d)(n := None) else view d)"
  unfolding daemon_view_def by blast

lemma view_create:
  assumes "daemon_view D view" "dd_Create D c n d = (r, d')"
  shows "r = Inl e \<Longrightarrow> view d' = view d" and "r = Inr cid \<Longrightarrow> view d' = (view d)(n \<mapsto> (c, cid, False))"
    and "r = Inr cid \<Longrightarrow> view d n' = Some (c', i', r') \<Longrightarrow> i' \<noteq> cid"
proof -
  have a: "case r of Inl e \<Rightarrow> view d' = view d
      | Inr cid \<Rightarrow> view d' = (view d)(n \<mapsto> (c, cid, False)) \<and> (\<forall>n' c' i' r'. view d n' = Some (c', i', r') \<longrightarrow> i' \<noteq> cid)"
    using assms unfolding daemon_view_def by blast
  show "r = Inl e \<Longrightarrow> view d' = view d" "r = Inr cid \<Longrightarrow> view d' = (view d)(n \<mapsto> (c, cid, False))"
    "r = Inr cid \<Longrightarrow> view d n' = Some (c', i', r') \<Longrightarrow> i' \<noteq> cid" using a by auto
qed

lemma view_start: "daemon_view D view \<Longrightarrow> dd_Start D cid d = (e, d') \<Longrightarrow> view d' = (if e = None then start_id cid (view d) else view d)"
  unfolding daemon_view_def by blast

lemma view_pull: "daemon_view D view \<Longrightarrow> pullForDeploy D ref auth d = (r, d') \<Longrightarrow> view d' = view d"
proof -
  assume ok: "daemon_view D view" and p: "pullForDeploy D ref auth d = (r, d')"
  obtain x d1 where "dd_Pull D ref auth d = (x, d1)" by (metis surj_pair)
  then show ?thesis using ok p unfolding daemon_view_def pullForDeploy_def by (cases x) auto
qed

lemma view_wait: "daemon_view D view \<Longrightarrow> waitForDeploymentPort n D cid port ip d = (r, d') \<Longrightarrow> view d' = view d"
proof (induction n arbitrary: ip d)
  case (Suc n)
  have pause: "view (dd_Pause D d) = view d" using Suc.prems(1) unfolding daemon_view_def by blast
  have "d' = d \<or> (\<exists>ip'. waitForDeploymentPort n D cid port ip' (dd_Pause D d) = (r, d'))"
    using Suc.prems(2) by (auto simp: Let_def split: if_splits prod.splits)
  then show ?case using Suc.IH [OF Suc.prems(1)] pause by metis
qed simp

lemma start_new:
  assumes "\<And>n' c' i' r'. v n' = Some (c', i', r') \<Longrightarrow> i' \<noteq> cid"
  shows "start_id cid (v(n \<mapsto> (c, cid, False))) = v(n \<mapsto> (c, cid, True))"
proof
  fix n'
  show "start_id cid (v(n \<mapsto> (c, cid, False))) n' = (v(n \<mapsto> (c, cid, True))) n'"
    using assms [of n'] by (cases "v n'") (auto simp: start_id_def)
qed

section \<open>A run\<close>

lemma run_container_view:
  assumes ok: "daemon_view D view" and run: "run_container D req d = (reply, d')"
    and rm: "\<And>d. view d (deploymentContainerPrefix @ rn_ID req) \<noteq> None \<Longrightarrow> fst (dd_Remove D (deploymentContainerPrefix @ rn_ID req) d) = None"
  defines "name \<equiv> deploymentContainerPrefix @ rn_ID req"
  shows "(\<forall>n. n \<noteq> name \<longrightarrow> view d' n = view d n)
    \<and> (reply = DepRunning (rn_ID req) name AgentryDeployPort \<and> (\<exists>cid. view d' name = Some (run_config req, cid, True))
       \<or> (\<exists>msg. reply = DepRefused 502 msg) \<and> (view d' name = None \<or> (\<exists>cid. view d' name = Some (run_config req, cid, False))))"
proof -
  obtain e1 d1 where s1: "dd_Remove D name d = (e1, d1)" by (metis surj_pair)
  have v1: "view d1 = (view d)(name := None)"
  proof (cases e1)
    case None
    then show ?thesis using view_remove [OF ok s1] by simp
  next
    case (Some e)
    then have "view d name = None" using rm [of d] s1 unfolding name_def by (cases "view d (deploymentContainerPrefix @ rn_ID req)") simp_all
    then show ?thesis using view_remove [OF ok s1] Some by (simp add: fun_upd_idem)
  qed
  obtain r2 d2 where s2: "dd_Create D (run_config req) name d1 = (r2, d2)" by (metis surj_pair)
  show ?thesis
  proof (cases r2)
    case (Inl e)
    have "d' = d2" "\<exists>msg. reply = DepRefused 502 msg" using run s1 s2 Inl by (auto simp: run_container_def name_def [symmetric])
    moreover have "view d2 = view d1" using view_create(1) [OF ok s2 Inl] .
    ultimately show ?thesis using v1 by simp
  next
    case (Inr cid)
    have v2: "view d2 = (view d1)(name \<mapsto> (run_config req, cid, False))" using view_create(2) [OF ok s2 Inr] .
    obtain e3 d3 where s3: "dd_Start D cid d2 = (e3, d3)" by (metis surj_pair)
    show ?thesis
    proof (cases e3)
      case (Some e)
      have "d' = d3" "\<exists>msg. reply = DepRefused 502 msg" using run s1 s2 s3 Inr Some by (auto simp: run_container_def name_def [symmetric])
      moreover have "view d3 = view d2" using view_start [OF ok s3] Some by simp
      ultimately show ?thesis using v1 v2 by simp
    next
      case None
      have "view d3 = start_id cid ((view d1)(name \<mapsto> (run_config req, cid, False)))" using view_start [OF ok s3] None v2 by simp
      also have "\<dots> = (view d1)(name \<mapsto> (run_config req, cid, True))" by (rule start_new) (rule view_create(3) [OF ok s2 Inr])
      finally have v3: "view d3 = (view d1)(name \<mapsto> (run_config req, cid, True))" .
      obtain e4 d4 where s4: "waitForDeploymentPort 600 D cid AgentryDeployPort [] d3 = (e4, d4)" by (metis surj_pair)
      have v4: "view d4 = view d3" using view_wait [OF ok s4] .
      show ?thesis
      proof (cases e4)
        case None': None
        have "d' = d4" "reply = DepRunning (rn_ID req) name AgentryDeployPort"
          using run s1 s2 s3 s4 Inr None None' by (auto simp: run_container_def name_def [symmetric])
        then show ?thesis using v1 v3 v4 by simp
      next
        case (Some e)
        obtain e5 d5 where s5: "dd_Remove D name d4 = (e5, d5)" by (metis surj_pair)
        have "view d4 name \<noteq> None" using v3 v4 by simp
        then have "e5 = None" using rm [of d4] s5 by (simp add: name_def)
        then have v5: "view d5 = (view d4)(name := None)" using view_remove [OF ok s5] by simp
        have "d' = d5" "\<exists>msg. reply = DepRefused 502 msg"
          using run s1 s2 s3 s4 s5 Inr None Some by (auto simp: run_container_def name_def [symmetric] Let_def)
        then show ?thesis using v1 v3 v4 v5 by simp
      qed
    qed
  qed
qed


section \<open>A push\<close>

text \<open>The credentials of a registry leave the provisioner only for that registry: a push asks the daemon for nothing but a reference
  under the host the credentials are for; and it is answered as done only when the daemon's whole stream is free of errors.\<close>

theorem push_confined:
  "handleDeployPush (D\<lparr>dd_Push := (\<lambda>ref auth d. if has_prefix ref (ra_Host auth @ ''/'') then dd_Push D ref auth d else other ref auth d)\<rparr>) docker sid body d
      = handleDeployPush D docker sid body d
    \<and> (fst (handleDeployPush D docker sid body d) = DepPushed ref
        \<longrightarrow> (\<exists>req d1 d2 ls. body = Some req \<and> ref = pq_TargetRef req \<and> dd_Tag D (pq_LocalImageRef req) ref d = (None, d1)
            \<and> dd_Push D ref (pq_Auth req) d1 = (Inr ls, d2) \<and> set ls \<subseteq> {StreamLine [] []}))"
proof
  have drained: "drainPullStream ls = None \<Longrightarrow> set ls \<subseteq> {StreamLine [] []}" for ls
    by (induction ls rule: drainPullStream.induct) (auto split: if_splits)
  show "handleDeployPush (D\<lparr>dd_Push := (\<lambda>ref auth d. if has_prefix ref (ra_Host auth @ ''/'') then dd_Push D ref auth d else other ref auth d)\<rparr>) docker sid body d
      = handleDeployPush D docker sid body d"
    by (cases body) (auto simp: handleDeployPush_def Let_def split: prod.splits option.splits)
  show "fst (handleDeployPush D docker sid body d) = DepPushed ref
        \<longrightarrow> (\<exists>req d1 d2 ls. body = Some req \<and> ref = pq_TargetRef req \<and> dd_Tag D (pq_LocalImageRef req) ref d = (None, d1)
            \<and> dd_Push D ref (pq_Auth req) d1 = (Inr ls, d2) \<and> set ls \<subseteq> {StreamLine [] []})"
  proof
    assume pushed: "fst (handleDeployPush D docker sid body d) = DepPushed ref"
    show "\<exists>req d1 d2 ls. body = Some req \<and> ref = pq_TargetRef req \<and> dd_Tag D (pq_LocalImageRef req) ref d = (None, d1)
            \<and> dd_Push D ref (pq_Auth req) d1 = (Inr ls, d2) \<and> set ls \<subseteq> {StreamLine [] []}"
      using pushed unfolding handleDeployPush_def Let_def
      by (auto split: if_splits option.splits prod.splits sum.splits dest: drained)
  qed
qed

section \<open>A daemon that holds its containers\<close>

text \<open>Its state is the containers and the next id; it makes only containers of one image, and no app ever binds its port.\<close>

definition shelf :: "((string \<rightharpoonup> dep_config \<times> string \<times> bool) \<times> nat) deploy_daemon" where
  "shelf = \<lparr>dd_Inspect = (\<lambda>n d. Inl ''none''), dd_Remove = (\<lambda>n d. (None, ((fst d)(n := None), snd d))),
     dd_Create = (\<lambda>c n d. if dc_Image c = ''good'' \<and> (\<forall>n' c' i r. fst d n' = Some (c', i, r) \<longrightarrow> i \<noteq> replicate (snd d) CHR ''x'')
        then (Inr (replicate (snd d) CHR ''x''), ((fst d)(n \<mapsto> (c, replicate (snd d) CHR ''x'', False)), Suc (snd d))) else (Inl ''no such image'', d)),
     dd_Start = (\<lambda>cid d. (None, (start_id cid (fst d), snd d))), dd_Pull = (\<lambda>ref auth d. (Inl ''no'', d)),
     dd_Tag = (\<lambda>a b d. (None, d)), dd_Push = (\<lambda>ref auth d. (Inr [], d)), dd_Logs = (\<lambda>n l d. Inl []), dd_Dial = (\<lambda>ip p d. False),
     dd_Pause = (\<lambda>d. d), dd_Gone = (\<lambda>d. False), dd_Late = (\<lambda>d. True)\<rparr>"

lemma shelf_view: "daemon_view shelf fst"
  unfolding daemon_view_def shelf_def by auto

definition running_app :: container_view where
  "running_app = [''deployment-a'' \<mapsto> (run_config \<lparr>rn_ID = ''a'', rn_ImageRef = ''good'', rn_Env = [], rn_RegistryAuth = None\<rparr>, ''i'', True)]"


theorem push_confined_witness:
  "\<exists>req d1 d2 ls. Some \<lparr>pq_LocalImageRef = ''l'', pq_TargetRef = ''h/x'', pq_Auth = \<lparr>ra_Host = ''h'', ra_Username = ''u'', ra_Token = ''t''\<rparr>\<rparr> = Some req
    \<and> ''h/x'' = pq_TargetRef req \<and> dd_Tag shelf (pq_LocalImageRef req) ''h/x'' (Map.empty, 0) = (None, d1)
    \<and> dd_Push shelf ''h/x'' (pq_Auth req) d1 = (Inr ls, d2) \<and> set ls \<subseteq> {StreamLine [] []}"
proof -
  have "fst (handleDeployPush shelf True ''s'' (Some \<lparr>pq_LocalImageRef = ''l'', pq_TargetRef = ''h/x'',
      pq_Auth = \<lparr>ra_Host = ''h'', ra_Username = ''u'', ra_Token = ''t''\<rparr>\<rparr>) (Map.empty, 0)) = DepPushed ''h/x''"
    by (simp add: handleDeployPush_def shelf_def has_prefix_def)
  then show ?thesis using push_confined [of shelf undefined True "''s''" "Some \<lparr>pq_LocalImageRef = ''l'', pq_TargetRef = ''h/x'',
      pq_Auth = \<lparr>ra_Host = ''h'', ra_Username = ''u'', ra_Token = ''t''\<rparr>\<rparr>" "(Map.empty, 0)" "''h/x''"] by blast
qed

end
