(* ===== verification/Spec2Isabelle.thy ===== *)
theory Spec2Isabelle
  imports Shell_Terminals Shell_Background Shell_Session Tunnel_Backoff Tunnel_Wire Tunnel_Pump
    Bridge_Access Auth_Links Prov_Lifetime Prov_Restore Prov_Gc
    Auth_Mongos Rt_Grep Rt_Upload Prov_Bind Prov_Daemon Prov_Server Rt_Stopping Prov_Builds Prov_Images Prov_Rollout
begin

text \<open>
  A verification development for Agentry, a platform that runs sandboxes on the clusters of its
  customers and reaches them through tunnels. The Go program has five layers, and the theories
  follow them.

  \<^bold>\<open>How the parts interact.\<close> A visitor or a client calls the public bridge (\<open>cmd/bridge\<close>, \<open>pkg/bridge\<close>).
  Clusters and devices keep a tunnel open to the bridge (\<open>pkg/tunnel\<close>); the bridge looks up a connection by
  name and forwards a request through it. In the cluster the request reaches a sandbox, whose runtime
  (\<open>pkg/handlers\<close>) proxies it to an app's port, and whose shell (\<open>pkg/shell\<close>) runs commands. An app
  that wants accounts is wrapped by the auth proxy (\<open>cmd/authproxy\<close>), which stands in front of
  the app's own port.

  \<^bold>\<open>Foundations.\<close> \<open>Prelude\<close> has the Go functions on strings and lists that the code calls; \<open>GoLib\<close>
  numbers in text, hexadecimal; \<open>Utf8\<close> runes; \<open>Http\<close> headers, requests, forms and cookies; \<open>Json\<close> flat
  JSON objects with their round trip; \<open>Tokens\<close> base64 and the two interfaces that several components
  share, the locale \<open>signed_token\<close> (what minting and verifying a token promise) and the locale
  \<open>rate_limiter\<close> (what admits a request). Time is a number of the unit the code uses (seconds or nanoseconds); strings
  are byte lists; a message authentication code, a hash and random bytes are parameters, and nothing
  is assumed of them.

  \<^bold>\<open>The shell\<close> (\<open>pkg/shell\<close>). \<open>Shell_Ring\<close> models \<open>ring.go\<close>: the record \<open>ring\<close> with its cursor arithmetic; it
  refines an append-only log, stated as the locale \<open>cursor_log\<close>. \<open>Shell_Background\<close> models \<open>background.go\<close>: a heap
  of command objects, the table of ids, the semaphore, and one step per operation and per event of a
  process. \<open>Shell_Session\<close> models \<open>session.go\<close>: the table of sessions with the double-checked
  creation, the output loop of \<open>Execute\<close>, and the quoting of a directory name. \<open>Shell_Pty\<close> models the interactive terminals of \<open>pty.go\<close> and
  their frames (\<open>pkg/handlers/shell_pty.go\<close>): a terminal as two goroutines and a client over a ring, a step at a time, and the manager with its
  slots; \<open>Shell_Terminals\<close> shows what a client receives, that it is never left waiting, and how many terminals there are.

  \<^bold>\<open>The tunnel\<close> (\<open>pkg/tunnel\<close>). \<open>Tunnel_Backoff\<close> models \<open>backoff.go\<close>; the conversion of a float beyond 64 bits
  is implementation-specific in Go and therefore a parameter. \<open>Tunnel_Wire\<close> models the handshake and CONNECT
  (\<open>handshake.go\<close>, \<open>connect.go\<close>) over a buffered reader whose chunking is arbitrary (locale \<open>stream_reader\<close>).
  \<open>Tunnel_Pump\<close> models \<open>copy.go\<close> as a step relation of two goroutines.

  \<^bold>\<open>The bridge\<close>. \<open>Bridge_Broker\<close> models \<open>bridge.go\<close> and \<open>revocation.go\<close>: the record \<open>broker\<close>, the handlers as functions
  of it, and the step relation \<open>br_step\<close> with its traces; \<open>Bridge_Deploy\<close> the pure parts of
  \<open>deploy_routes.go\<close>; \<open>Bridge_Tenancy\<close> who may reach which cluster; \<open>Bridge_Gate\<close> models \<open>cmd/bridge\<close>: dispatch, the certificate gate,
  the organisation and password gates, whose tokens and limiter interpret the two locales; \<open>Bridge_Access\<close>
  what the gates let through.

  \<^bold>\<open>The auth proxy\<close>. \<open>Auth_Session\<close> and \<open>Auth_OAuth\<close> model the stateless parts (\<open>session.go\<close>, \<open>csrf.go\<close>,
  \<open>same_origin.go\<close>, \<open>proxy.go\<close>, \<open>oauth.go\<close>), \<open>Auth_Store\<close> the tables with the statements run on them, the
  limiter and the policies, \<open>Auth_Handlers\<close> the handlers over the state \<open>auth_state\<close>. \<open>Auth_Identity\<close> shows what the
  upstream may trust; \<open>Auth_Mongo\<close> models the store over MongoDB (\<open>store_mongo.go\<close>, \<open>store_mongo_security.go\<close>), with the server's calls as parameters and its
  documented behaviour as a predicate, and \<open>Auth_Mongos\<close> compares it with the SQL store call by call; \<open>Auth_Accounts\<close> logins and guessing, \<open>Auth_Links\<close> histories of the handlers, mailed links, and how the proxy
  and the bridge together let a requester choose where a link leads.

  \<^bold>\<open>The provisioner\<close> (\<open>pkg/provisioner\<close>) makes and removes the sandboxes of a cluster. \<open>Paths\<close> and \<open>Rfc3339\<close> model the
  library's path cleaning and time stamps. \<open>Prov_Volumes\<close> (\<open>volumes.go\<close>, \<open>resources.go\<close>), \<open>Prov_Egress\<close> (\<open>egress.go\<close>)
  and \<open>Prov_Ttl\<close> (\<open>ttl.go\<close>) are what a request may ask for. \<open>Prov_Backend\<close> states the backend's contract as the locale
  \<open>sandbox_backend\<close> and interprets it on \<open>mock_backend.go\<close>; \<open>Prov_Sandbox\<close> has the handlers of \<open>provisioner.go\<close> and the
  sweep of \<open>reaper.go\<close> over any backend, \<open>Prov_Lifecycle\<close> what they change, \<open>Prov_Lifetime\<close> when a sandbox
  expires and what is reachable, \<open>Prov_Restore\<close> the snapshots, \<open>Prov_Gc\<close> the removal of containers and images. \<open>Prov_Docker\<close>
  models the backend over a Docker daemon (\<open>docker_client.go\<close>, \<open>docker_egress.go\<close>), whose calls are parameters, and \<open>Prov_Daemon\<close>
  what the same handlers do over it: what the daemon is asked for, and what a restart or a stopped container leads to.

  \<^bold>\<open>The runtime's file handlers\<close> (\<open>pkg/handlers/file.go\<close>, \<open>file_io.go\<close>, \<open>common.go\<close>). \<open>Rt_Text\<close> has lines, replacement and the buffered
  line scanner; \<open>Rt_Files\<close> the file system as a map from resolved paths to nodes, the operating system as an environment
  that may let any call fail, the atomic write with the trace of file systems an observer sees, and the handlers that read and write one file;
  \<open>Rt_Walk\<close> the directory walk with the visitors of list, find, grep and replace. \<open>Rt_Reading\<close> and \<open>Rt_Editing\<close> show what the handlers of
  one file answer and leave behind and what the guard of the credentials directory is worth; \<open>Rt_Listing\<close> and \<open>Rt_Grep\<close> that the walks with their
  early exits compute the filtered lists; \<open>Rt_Upload\<close> the streamed multipart upload. Regular expressions and
  glob patterns are parameters.

  \<^bold>\<open>The servers.\<close> \<open>Mux\<close> has the routing of \<open>net/http\<close> and the headers behind a reverse proxy; \<open>Rt_Server\<close> the runtime's chain (\<open>pkg/auth\<close>,
  \<open>pkg/runtime/server.go\<close>, \<open>forward.go\<close>) with its table of routes, \<open>Prov_Server\<close> the provisioner's with the two ways into a
  sandbox (\<open>runtime_proxy.go\<close>), and what a request meets on its way through both.

  \<^bold>\<open>The projects of a sandbox\<close> (\<open>pkg/handlers/project.go\<close>). \<open>Rt_Projects\<close> models the supervisor: a heap of project objects, the
  table of names, the circuit breaker, starts with their dependencies under named locks, stops, and the watcher with its
  automatic restarts, as steps of a history; \<open>Rt_Supervision\<close> shows when a start returns, that a name has one process, and how often
  a crashing project is restarted; \<open>Rt_Stopping\<close> where a stop is undone and where a dependency locks its project out. The fuel of a start is the
  depth of the starts nested in it; one more than the rank of the project in its dependencies is enough, and a step of a
  history is never a start that ran out of it.

  \<^bold>\<open>Wrapped apps.\<close> \<open>Auth_Config\<close> models how the auth proxy boots (\<open>config.go\<close>, \<open>exec.go\<close>, the settings of \<open>mailer.go\<close>, the mode of
  \<open>main.go\<close>): the configuration read from an environment, and the command, the environment and the port of the app it starts. \<open>Rt_Wrap\<close> models
  the supervisor's side (\<open>pkg/handlers/project_authproxy.go\<close>) and follows an environment through both: what a wrapped app runs with, and what it can do with
  the secrets it is handed.

  \<^bold>\<open>Deployments of a cluster\<close> (\<open>deploy_build.go\<close>, \<open>deploy_quiesce.go\<close>, \<open>deploy_wrap.go\<close>, \<open>deploy_run.go\<close>, \<open>deploy_push.go\<close>). \<open>Prov_Build\<close> models a
  build as a history of calls to the sandbox, the builder, the daemon and the provisioner's own disk, each answered by a function of the history;
  \<open>Prov_Builds\<close> shows what is paused and resumed and which directories a build touches, \<open>Prov_Images\<close> which variables the build sees and what the
  wrapped image starts. \<open>Prov_Deploy\<close> models running, stopping and pushing over the calls of a daemon, \<open>Prov_Rollout\<close> shows what a run leaves
  behind and what a push may touch.

  \<^bold>\<open>Bindings and secrets\<close> (\<open>pkg/provisioner/bindings.go\<close>, \<open>secrets.go\<close>, \<open>lockfile.go\<close>, \<open>pkg/errcode\<close>). \<open>Json_Tree\<close> is a
  JSON document with its printer and parser; \<open>Errcode\<close> the coded errors; \<open>Prov_Bindings\<close> the handlers, which write
  through the runtime's own file handlers of \<open>Rt_Files\<close>; \<open>Prov_Binding_Files\<close> follows single files through these calls, and \<open>Prov_Bind\<close> shows
  what a deployment resolves after a bind and where a secret goes.

  \<^bold>\<open>Bounds and fuel.\<close> The JSON readers' fuel is the length of the text (plus one for documents), and each round takes at
  least one byte, so it does not run out. The twenty polls for a port and the eight names tried are the code's own
  bounds; the wait for a scaffold takes fifteen rounds of two seconds, thirty in all, and the wait for a deployed app's port 600 rounds of 200 ms, two minutes in all. Time stamps are exact for the years 1 to 9600. Every other loop is structural recursion or carries its termination proof.
  Integers are unbounded, with the 64-bit ranges as hypotheses where parsing or conversion depends on them.

  \<^bold>\<open>Not modelled.\<close> Process, terminal, socket and TLS handling, yamux, the reverse proxy's transport, page
  rendering, SQL text and migrations, argon2, bcrypt, regular expressions and globs (parameters); the Kubernetes backend, the notebook kernels, the tool server, the command line and telemetry, which
  are calls of other libraries. Each handler runs as one
  step: interleavings inside a handler are modelled for the shell's tables and the stream pump, not for the auth proxy's database.
\<close>

end
